(* ===== verification/Prelude.thy ===== *)
theory Prelude
  imports Complex_Main "HOL-Library.AList" "HOL-Library.Sublist"
    "HOL-Library.Char_ord" "HOL-Library.List_Lexorder"
begin

text \<open>
  Shared vocabulary of the development: Python exceptions as values, the result and
  state-with-exceptions types in which the methods of the program are written, the
  insertion-ordered dictionary (an association list with distinct keys), and the generic
  lemmas and collections the component theories use.
\<close>

named_theorems py_bind \<open>unfolding equations of the result and state combinators\<close>
named_theorems dict_simps \<open>lookup after update, key sets and well-formedness of dictionaries\<close>

section \<open>Exceptions and results\<close>

datatype exc_kind =
    TypeErr | ValueErr | KeyErr | IndexErr | AttributeErr | AssertionErr
  | PlainException | RuntimeErr | IntegrityErr | OperationalErr | NotImplementedErr
  | TaskCanceledErr | ZeroDivisionErr | JSONDecodeErr | KeyboardInterruptErr

datatype pyexc = Exc (exc_kind: exc_kind) (exc_msg: string)

type_synonym 'a res = "pyexc + 'a"

definition bindR :: "'a res \<Rightarrow> ('a \<Rightarrow> 'b res) \<Rightarrow> 'b res" where
  "bindR m f = (case m of Inl e \<Rightarrow> Inl e | Inr x \<Rightarrow> f x)"

lemma bindR_simps [simp, py_bind]:
  "bindR (Inl e) f = Inl e"
  "bindR (Inr x) f = f x"
  by (simp_all add: bindR_def)

lemma bindR_eq_Inr [py_bind]: "bindR m f = Inr y \<longleftrightarrow> (\<exists>x. m = Inr x \<and> f x = Inr y)"
  by (cases m) auto

lemma bindR_eq_Inl [py_bind]:
  "bindR m f = Inl e \<longleftrightarrow> m = Inl e \<or> (\<exists>x. m = Inr x \<and> f x = Inl e)"
  by (cases m) auto

lemma bindR_cong [fundef_cong]:
  assumes "m = m'" and "\<And>x. m' = Inr x \<Longrightarrow> f x = g x"
  shows "bindR m f = bindR m' g"
  using assms by (cases m') auto

text \<open>A list comprehension whose body may raise: the first exception ends it.\<close>

fun mapR :: "('a \<Rightarrow> 'b res) \<Rightarrow> 'a list \<Rightarrow> 'b list res" where
  "mapR f [] = Inr []"
| "mapR f (x # xs) = bindR (f x) (\<lambda>y. bindR (mapR f xs) (\<lambda>ys. Inr (y # ys)))"

fun filterR :: "('a \<Rightarrow> bool res) \<Rightarrow> 'a list \<Rightarrow> 'a list res" where
  "filterR f [] = Inr []"
| "filterR f (x # xs) =
     bindR (f x) (\<lambda>b. bindR (filterR f xs) (\<lambda>ys. Inr (if b then x # ys else ys)))"

text \<open>\<open>all\<close> and \<open>any\<close> over a generator stop at the first deciding element.\<close>

fun allR :: "('a \<Rightarrow> bool res) \<Rightarrow> 'a list \<Rightarrow> bool res" where
  "allR f [] = Inr True"
| "allR f (x # xs) = bindR (f x) (\<lambda>b. if b then allR f xs else Inr False)"

fun anyR :: "('a \<Rightarrow> bool res) \<Rightarrow> 'a list \<Rightarrow> bool res" where
  "anyR f [] = Inr False"
| "anyR f (x # xs) = bindR (f x) (\<lambda>b. if b then Inr True else anyR f xs)"

lemma mapR_Inr [simp]: "mapR (\<lambda>x. Inr (f x)) xs = Inr (map f xs)"
  by (induction xs) auto

lemma mapR_length: "mapR f xs = Inr ys \<Longrightarrow> length ys = length xs"
  by (induction xs arbitrary: ys) (auto simp: bindR_eq_Inr)

lemma filterR_Inr [simp]: "filterR (\<lambda>x. Inr (P x)) xs = Inr (filter P xs)"
  by (induction xs) auto

lemma filterR_subset: "filterR f xs = Inr ys \<Longrightarrow> set ys \<subseteq> {x \<in> set xs. f x = Inr True}"
  by (induction xs arbitrary: ys) (auto simp: bindR_eq_Inr split: if_splits)

lemma allR_Inr [simp]: "allR (\<lambda>x. Inr (P x)) xs = Inr (list_all P xs)"
  by (induction xs) auto

lemma anyR_Inr [simp]: "anyR (\<lambda>x. Inr (P x)) xs = Inr (list_ex P xs)"
  by (induction xs) auto

lemma mapR_cong [fundef_cong]:
  "xs = ys \<Longrightarrow> (\<And>x. x \<in> set ys \<Longrightarrow> f x = g x) \<Longrightarrow> mapR f xs = mapR g ys"
  by (induction ys arbitrary: xs) auto

section \<open>Methods: state with exceptions\<close>

text \<open>
  A method that mutates its object and may raise: the state after the call is there in
  both outcomes, as Python keeps the mutations made before an exception.
\<close>

type_synonym ('s, 'a) meth = "'s \<Rightarrow> 'a res \<times> 's"

definition retM :: "'a \<Rightarrow> ('s, 'a) meth" where
  "retM x = (\<lambda>s. (Inr x, s))"

definition raiseM :: "exc_kind \<Rightarrow> string \<Rightarrow> ('s, 'a) meth" where
  "raiseM k m = (\<lambda>s. (Inl (Exc k m), s))"

definition bindM :: "('s, 'a) meth \<Rightarrow> ('a \<Rightarrow> ('s, 'b) meth) \<Rightarrow> ('s, 'b) meth" where
  "bindM m f = (\<lambda>s. case m s of (Inl e, t) \<Rightarrow> (Inl e, t) | (Inr x, t) \<Rightarrow> f x t)"

definition seqM :: "('s, 'a) meth \<Rightarrow> ('s, 'b) meth \<Rightarrow> ('s, 'b) meth" where
  "seqM m n = bindM m (\<lambda>_. n)"

definition liftM :: "'a res \<Rightarrow> ('s, 'a) meth" where
  "liftM r = (\<lambda>s. (r, s))"

definition readM :: "('s \<Rightarrow> 'a res) \<Rightarrow> ('s, 'a) meth" where
  "readM f = (\<lambda>s. (f s, s))"

definition modM :: "('s \<Rightarrow> 's) \<Rightarrow> ('s, unit) meth" where
  "modM f = (\<lambda>s. (Inr (), f s))"

definition catchM :: "('s, 'a) meth \<Rightarrow> (pyexc \<Rightarrow> ('s, 'a) meth) \<Rightarrow> ('s, 'a) meth" where
  "catchM m h = (\<lambda>s. case m s of (Inl e, t) \<Rightarrow> h e t | (Inr x, t) \<Rightarrow> (Inr x, t))"

fun forM :: "('a \<Rightarrow> ('s, unit) meth) \<Rightarrow> 'a list \<Rightarrow> ('s, unit) meth" where
  "forM f [] = retM ()"
| "forM f (x # xs) = seqM (f x) (forM f xs)"

lemmas meth_defs = retM_def raiseM_def bindM_def seqM_def liftM_def readM_def modM_def catchM_def

lemma meth_simps [simp, py_bind]:
  "retM x s = (Inr x, s)"
  "raiseM k m s = (Inl (Exc k m), s)"
  "liftM r s = (r, s)"
  "readM f s = (f s, s)"
  "modM g s = (Inr (), g s)"
  by (simp_all add: meth_defs)

lemma bindM_cases [py_bind]:
  "m s = (Inl e, t) \<Longrightarrow> bindM m f s = (Inl e, t)"
  "m s = (Inr x, t) \<Longrightarrow> bindM m f s = f x t"
  by (simp_all add: bindM_def)

lemma bindM_ret [simp]: "bindM (retM x) f = f x"
  by (simp add: bindM_def retM_def)

lemma bindM_assoc: "bindM (bindM m f) g = bindM m (\<lambda>x. bindM (f x) g)"
  by (auto simp: bindM_def fun_eq_iff split: prod.splits sum.splits)

lemma forM_append: "forM f (xs @ ys) = seqM (forM f xs) (forM f ys)"
proof (induction xs)
  case Nil
  then show ?case by (simp add: seqM_def bindM_def retM_def)
next
  case (Cons x xs)
  then show ?case by (simp add: seqM_def bindM_assoc)
qed

text \<open>An invariant every step of a loop keeps, whether it raises or not, is kept by the loop.\<close>

lemma forM_invariant:
  assumes "\<And>x s. x \<in> set xs \<Longrightarrow> I s \<Longrightarrow> I (snd (f x s))" and "I s"
  shows "I (snd (forM f xs s))"
  using assms
proof (induction xs arbitrary: s)
  case Nil
  then show ?case by simp
next
  case (Cons x xs)
  obtain r t where ft: "f x s = (r, t)" by (cases "f x s")
  with Cons.prems have "I t" by (metis list.set_intros(1) snd_conv)
  with Cons ft show ?case
    by (cases r) (auto simp: seqM_def bindM_def)
qed

subsection \<open>What a method may do to the state\<close>

text \<open>
  A method stays within a relation: the states before and after a call, whether it raises or
  not, are related.  For a preorder the combinators keep within it.
\<close>

named_theorems frame_intros \<open>methods that stay within a relation\<close>

definition stays :: "('s \<Rightarrow> 's \<Rightarrow> bool) \<Rightarrow> ('s, 'a) meth \<Rightarrow> bool" where
  "stays R m \<longleftrightarrow> (\<forall>s. R s (snd (m s)))"

lemma staysI: "(\<And>s. R s (snd (m s))) \<Longrightarrow> stays R m"
  by (simp add: stays_def)

lemma staysD: "stays R m \<Longrightarrow> R s (snd (m s))"
  by (simp add: stays_def)

locale frame =
  fixes R :: "'s \<Rightarrow> 's \<Rightarrow> bool"
  assumes refl: "R s s" and trans: "R s t \<Longrightarrow> R t u \<Longrightarrow> R s u"
begin

lemma stays_pure: "stays R (retM x)" "stays R (raiseM k msg)" "stays R (liftM r)" "stays R (readM f)"
  by (simp_all add: stays_def refl)

lemma stays_mod: "(\<And>s. R s (g s)) \<Longrightarrow> stays R (modM g)"
  by (simp add: stays_def)

lemma stays_bind_at:
  assumes "R s (snd (m s))" and "\<And>x t. m s = (Inr x, t) \<Longrightarrow> R t (snd (f x t))"
  shows "R s (snd (bindM m f s))"
proof (cases "m s")
  case (Pair r t)
  with assms show ?thesis by (cases r) (auto simp: bindM_def intro: trans)
qed

lemma stays_bind:
  assumes "stays R m" and "\<And>x. stays R (f x)"
  shows "stays R (bindM m f)"
  using assms by (intro staysI stays_bind_at) (simp_all add: staysD)

lemma stays_seq: "stays R m \<Longrightarrow> stays R n \<Longrightarrow> stays R (seqM m n)"
  unfolding seqM_def by (rule stays_bind)

lemma stays_forM: "(\<And>x. x \<in> set xs \<Longrightarrow> stays R (f x)) \<Longrightarrow> stays R (forM f xs)"
  by (induction xs) (simp_all add: stays_pure stays_seq)

lemma stays_foldr:
  "(\<And>m. m \<in> set ms \<Longrightarrow> stays R (g m)) \<Longrightarrow> stays R n \<Longrightarrow> stays R (foldr (\<lambda>m k. seqM (g m) k) ms n)"
  by (induction ms) (simp_all add: stays_seq)

text \<open>A method written as a function of the state\<close>

lemma stays_fun: "(\<And>s. stays R (m s)) \<Longrightarrow> stays R (\<lambda>s. m s s)"
  by (simp add: stays_def)

lemma stays_if: "(b \<Longrightarrow> stays R m) \<Longrightarrow> (\<not> b \<Longrightarrow> stays R n) \<Longrightarrow> stays R (if b then m else n)"
  by simp

lemma stays_read: "(\<And>x. stays R (f x)) \<Longrightarrow> stays R (bindM (readM g) f)"
  by (rule stays_bind [OF stays_pure(4)])

lemmas stays_intros = stays_pure stays_mod stays_bind stays_seq stays_forM stays_if

end

section \<open>Dictionaries\<close>

type_synonym 'v dict = "(string \<times> 'v) list"

abbreviation dget :: "('k \<times> 'v) list \<Rightarrow> 'k \<Rightarrow> 'v option" where
  "dget d k \<equiv> map_of d k"

abbreviation dset :: "'k \<Rightarrow> 'v \<Rightarrow> ('k \<times> 'v) list \<Rightarrow> ('k \<times> 'v) list" where
  "dset k v d \<equiv> AList.update k v d"

abbreviation dpop :: "'k \<Rightarrow> ('k \<times> 'v) list \<Rightarrow> ('k \<times> 'v) list" where
  "dpop k d \<equiv> AList.delete k d"

definition dget_or :: "('k \<times> 'v) list \<Rightarrow> 'k \<Rightarrow> 'v \<Rightarrow> 'v" where
  "dget_or d k x = (case dget d k of None \<Rightarrow> x | Some v \<Rightarrow> v)"

definition has_key :: "('k \<times> 'v) list \<Rightarrow> 'k \<Rightarrow> bool" where
  "has_key d k \<longleftrightarrow> dget d k \<noteq> None"

definition wf_dict :: "('k \<times> 'v) list \<Rightarrow> bool" where
  "wf_dict d \<longleftrightarrow> distinct (map fst d)"

fun dset_all :: "('k \<times> 'v) list \<Rightarrow> ('k \<times> 'v) list \<Rightarrow> ('k \<times> 'v) list" where
  "dset_all d [] = d"
| "dset_all d ((k, v) # kvs) = dset_all (dset k v d) kvs"

lemma dget_dset [simp, dict_simps]:
  "dget (dset k v d) k' = (if k' = k then Some v else dget d k')"
  by (simp add: update_conv')

lemma dget_dpop [simp, dict_simps]:
  "dget (dpop k d) k' = (if k' = k then None else dget d k')"
  by (simp add: delete_conv')

lemma has_key_dset [simp, dict_simps]: "has_key (dset k v d) k' \<longleftrightarrow> k' = k \<or> has_key d k'"
  by (simp add: has_key_def)

lemma has_key_dpop [simp, dict_simps]: "has_key (dpop k d) k' \<longleftrightarrow> k' \<noteq> k \<and> has_key d k'"
  by (simp add: has_key_def)

lemma has_key_iff: "has_key d k \<longleftrightarrow> k \<in> fst ` set d"
  by (simp add: has_key_def map_of_eq_None_iff)

lemma wf_dict_Nil [simp, dict_simps]: "wf_dict []"
  by (simp add: wf_dict_def)

lemma wf_dict_dset [simp, dict_simps]: "wf_dict d \<Longrightarrow> wf_dict (dset k v d)"
  by (simp add: wf_dict_def distinct_update)

lemma wf_dict_dpop [simp, dict_simps]: "wf_dict d \<Longrightarrow> wf_dict (dpop k d)"
  by (simp add: wf_dict_def distinct_delete)

lemma keys_dset_new: "\<not> has_key d k \<Longrightarrow> dset k v d = d @ [(k, v)]"
  by (induction d) (auto simp: has_key_def split: if_splits)

lemma keys_dset_old: "has_key d k \<Longrightarrow> map fst (dset k v d) = map fst d"
  by (induction d) (auto simp: has_key_def split: if_splits)

lemma dget_or_dset [simp, dict_simps]:
  "dget_or (dset k v d) k' x = (if k' = k then v else dget_or d k' x)"
  by (simp add: dget_or_def)

lemma map_of_map_snd:
  "map_of (map (\<lambda>(k, v). (k, f v)) d) k = map_option f (map_of d k)"
  by (induction d) auto

lemma dget_filter_keys:
  "dget (filter (\<lambda>(k, v). P k) d) k = (if P k then dget d k else None)"
  by (induction d) auto

lemma wf_dict_filter [simp, dict_simps]: "wf_dict d \<Longrightarrow> wf_dict (filter P d)"
  by (induction d) (auto simp: wf_dict_def)

lemma wf_dict_map_snd [simp, dict_simps]:
  "wf_dict (map (\<lambda>(k, v). (k, f v)) d) = wf_dict d"
  by (simp add: wf_dict_def comp_def case_prod_beta)

lemma dset_overwrite: "dset k w (dset k v d) = dset k w d"
  by (induction d) auto

subsection \<open>The dictionary interface\<close>

text \<open>
  What the rest of the program may rely on of a Python dictionary.  Clients are proved once
  here and used at the association lists the model stores.
\<close>

locale py_dict =
  fixes lookup :: "'d \<Rightarrow> 'k \<Rightarrow> 'v option"
    and put :: "'k \<Rightarrow> 'v \<Rightarrow> 'd \<Rightarrow> 'd"
    and remove :: "'k \<Rightarrow> 'd \<Rightarrow> 'd"
    and wf :: "'d \<Rightarrow> bool"
  assumes lookup_put: "lookup (put k v d) k' = (if k' = k then Some v else lookup d k')"
    and lookup_remove: "lookup (remove k d) k' = (if k' = k then None else lookup d k')"
    and wf_put: "wf d \<Longrightarrow> wf (put k v d)"
    and wf_remove: "wf d \<Longrightarrow> wf (remove k d)"
begin

lemma lookup_puts:
  "lookup (foldl (\<lambda>e kv. put (fst kv) (snd kv) e) d kvs) k =
     (case map_of (rev kvs) k of None \<Rightarrow> lookup d k | Some v \<Rightarrow> Some v)"
proof (induction kvs arbitrary: d)
  case Nil
  then show ?case by simp
next
  case (Cons kv kvs)
  then show ?case
    by (cases kv) (auto simp: lookup_put map_add_def split: option.splits)
qed

lemma wf_puts: "wf d \<Longrightarrow> wf (foldl (\<lambda>e kv. put (fst kv) (snd kv) e) d kvs)"
  by (induction kvs arbitrary: d) (auto simp: wf_put)

lemma lookup_removes:
  "lookup (foldl (\<lambda>e k. remove k e) d ks) k = (if k \<in> set ks then None else lookup d k)"
  by (induction ks arbitrary: d) (auto simp: lookup_remove)

lemma wf_removes: "wf d \<Longrightarrow> wf (foldl (\<lambda>e k. remove k e) d ks)"
  by (induction ks arbitrary: d) (auto simp: wf_remove)

lemma lookup_move:
  assumes "lookup d old = Some v" and "old \<noteq> new"
  shows "lookup (put new v (remove old d)) k =
     (if k = new then Some v else if k = old then None else lookup d k)"
  using assms by (simp add: lookup_put lookup_remove)

end

interpretation pd: py_dict dget dset dpop wf_dict
  by unfold_locales simp_all

lemma dset_all_foldl: "dset_all d kvs = foldl (\<lambda>e kv. dset (fst kv) (snd kv) e) d kvs"
  by (induction d kvs rule: dset_all.induct) auto

lemma dget_dset_all [dict_simps]:
  "dget (dset_all d kvs) k = (case map_of (rev kvs) k of None \<Rightarrow> dget d k | Some v \<Rightarrow> Some v)"
  unfolding dset_all_foldl by (rule pd.lookup_puts)

lemma wf_dset_all [simp, dict_simps]: "wf_dict d \<Longrightarrow> wf_dict (dset_all d kvs)"
  unfolding dset_all_foldl by (rule pd.wf_puts)

subsection \<open>Stores of keyed values\<close>

text \<open>
  The interface of a store whose values carry their own key: a key finds the last value saved under
  an equivalent key.
\<close>

locale keyed_store =
  fixes load :: "'k \<Rightarrow> 's \<Rightarrow> 'v option"
    and save :: "'v \<Rightarrow> 's \<Rightarrow> 's"
    and key_of :: "'v \<Rightarrow> 'k"
    and same :: "'k \<Rightarrow> 'k \<Rightarrow> bool"
  assumes load_save: "same k (key_of v) \<Longrightarrow> load k (save v s) = Some v"
    and load_save_other: "\<not> same k (key_of v) \<Longrightarrow> load k (save v s) = load k s"
begin

lemma load_fold_save:
  "load k (fold save vs s) =
     (case filter (\<lambda>v. same k (key_of v)) (rev vs) of [] \<Rightarrow> load k s | v # _ \<Rightarrow> Some v)"
proof (induction vs rule: rev_induct)
  case (snoc v vs)
  then show ?case by (cases "same k (key_of v)") (simp_all add: load_save load_save_other)
qed simp

lemma load_after: "\<forall>v\<in>set vs. \<not> same k (key_of v) \<Longrightarrow> load k (fold save vs s) = load k s"
  unfolding load_fold_save by (simp add: filter_empty_conv split: list.split)

end

end
