(* ===== verification/PyText.thy ===== *)
theory PyText
  imports Prelude
begin

text \<open>
  Python's \<open>str\<close> operations on the model's \<open>string\<close>s.  A \<open>string\<close> is the UTF-8 encoding of
  the Python string, one \<open>char\<close> per byte: equality, prefix, suffix and substring tests and
  the code-point order agree with Python's on encoded text, and \<open>py_len\<close> counts code points
  (bytes that are not continuation bytes).  White space is Python's, the code points beyond ASCII included; case
  mapping and digits are the ASCII ones.  The operators the program writes as single non-ASCII characters are the
  constants \<open>op_ne\<close>, \<open>op_ge\<close>, \<open>op_le\<close>.
\<close>

section \<open>Characters\<close>

definition code :: "char \<Rightarrow> nat" where
  "code c = of_char c"

definition op_ne :: string where \<comment> \<open>U+2260\<close>
  "op_ne = [CHR 0xE2, CHR 0x89, CHR 0xA0]"

definition op_ge :: string where \<comment> \<open>U+2265\<close>
  "op_ge = [CHR 0xE2, CHR 0x89, CHR 0xA5]"

definition op_le :: string where \<comment> \<open>U+2264\<close>
  "op_le = [CHR 0xE2, CHR 0x89, CHR 0xA4]"

lemma ops_distinct [simp]:
  "op_ne \<noteq> op_ge" "op_ge \<noteq> op_ne" "op_ne \<noteq> op_le" "op_le \<noteq> op_ne" "op_ge \<noteq> op_le" "op_le \<noteq> op_ge"
  by (simp_all add: op_ne_def op_ge_def op_le_def)

definition lower_char :: "char \<Rightarrow> char" where
  "lower_char c = (if 65 \<le> code c \<and> code c \<le> 90 then char_of (code c + 32) else c)"

definition is_space :: "char \<Rightarrow> bool" where
  "is_space c \<longleftrightarrow> (9 \<le> code c \<and> code c \<le> 13) \<or> (28 \<le> code c \<and> code c \<le> 32)"

definition is_digit :: "char \<Rightarrow> bool" where
  "is_digit c \<longleftrightarrow> 48 \<le> code c \<and> code c \<le> 57"

definition is_alpha :: "char \<Rightarrow> bool" where
  "is_alpha c \<longleftrightarrow> (65 \<le> code c \<and> code c \<le> 90) \<or> (97 \<le> code c \<and> code c \<le> 122)"

definition is_continuation :: "char \<Rightarrow> bool" where
  "is_continuation c \<longleftrightarrow> 128 \<le> code c \<and> code c < 192"

definition dquote :: char where "dquote = CHR 0x22"
definition squote :: char where "squote = CHR 0x27"
definition backslash :: char where "backslash = CHR 0x5C"
definition lf :: char where "lf = CHR 0x0A"

section \<open>Strings\<close>

definition py_len :: "string \<Rightarrow> nat" where
  "py_len s = length (filter (\<lambda>c. \<not> is_continuation c) s)"

definition lower :: "string \<Rightarrow> string" where
  "lower s = map lower_char s"

definition strip_of :: "(char \<Rightarrow> bool) \<Rightarrow> string \<Rightarrow> string" where
  "strip_of P s = rev (dropWhile P (rev (dropWhile P s)))"

definition starts_with :: "string \<Rightarrow> string \<Rightarrow> bool" where
  "starts_with s p = prefix p s"

definition ends_with :: "string \<Rightarrow> string \<Rightarrow> bool" where
  "ends_with s p = suffix p s"

definition contains :: "string \<Rightarrow> string \<Rightarrow> bool" where
  "contains s p = sublist p s"

definition is_digit_str :: "string \<Rightarrow> bool" where
  "is_digit_str s \<longleftrightarrow> s \<noteq> [] \<and> list_all is_digit s"

section \<open>White space at the ends\<close>

text \<open>The white space of Python's \<open>str\<close> beyond ASCII\<close>

definition wide_spaces :: "string list" where
  "wide_spaces =
     [[CHR 0xC2, CHR 0x85], [CHR 0xC2, CHR 0xA0], [CHR 0xE1, CHR 0x9A, CHR 0x80],
      [CHR 0xE2, CHR 0x80, CHR 0x80], [CHR 0xE2, CHR 0x80, CHR 0x81], [CHR 0xE2, CHR 0x80, CHR 0x82],
      [CHR 0xE2, CHR 0x80, CHR 0x83], [CHR 0xE2, CHR 0x80, CHR 0x84], [CHR 0xE2, CHR 0x80, CHR 0x85],
      [CHR 0xE2, CHR 0x80, CHR 0x86], [CHR 0xE2, CHR 0x80, CHR 0x87], [CHR 0xE2, CHR 0x80, CHR 0x88],
      [CHR 0xE2, CHR 0x80, CHR 0x89], [CHR 0xE2, CHR 0x80, CHR 0x8A], [CHR 0xE2, CHR 0x80, CHR 0xA8],
      [CHR 0xE2, CHR 0x80, CHR 0xA9], [CHR 0xE2, CHR 0x80, CHR 0xAF], [CHR 0xE2, CHR 0x81, CHR 0x9F],
      [CHR 0xE3, CHR 0x80, CHR 0x80]]"

text \<open>The bytes of the white space at the head and at the end of a text\<close>

definition ws_head :: "string \<Rightarrow> nat" where
  "ws_head s =
     (if s = [] then 0 else if is_space (hd s) then 1 else if code (hd s) < 128 then 0
      else case find (starts_with s) wide_spaces of Some w \<Rightarrow> length w | None \<Rightarrow> 0)"

definition ws_tail :: "string \<Rightarrow> nat" where
  "ws_tail s =
     (if s = [] then 0 else if is_space (last s) then 1 else if code (last s) < 128 then 0
      else case find (ends_with s) wide_spaces of Some w \<Rightarrow> length w | None \<Rightarrow> 0)"

lemma ws_head_le: "ws_head s \<le> length s"
  by (auto simp: ws_head_def find_Some_iff starts_with_def Suc_le_eq dest!: prefix_length_le split: option.splits)

lemma ws_tail_le: "ws_tail s \<le> length s"
  by (auto simp: ws_tail_def find_Some_iff ends_with_def Suc_le_eq dest!: suffix_length_le split: option.splits)

function lstrip_ws :: "string \<Rightarrow> string" where
  "lstrip_ws s = (if ws_head s = 0 then s else lstrip_ws (drop (ws_head s) s))"
  by pat_completeness auto
termination
  by (relation "measure length") (auto simp: ws_head_def split: if_splits option.splits)

function rstrip_ws :: "string \<Rightarrow> string" where
  "rstrip_ws s = (if ws_tail s = 0 then s else rstrip_ws (take (length s - ws_tail s) s))"
  by pat_completeness auto
termination
  by (relation "measure length") (auto simp: ws_tail_def split: if_splits option.splits)

declare lstrip_ws.simps [simp del] rstrip_ws.simps [simp del]

definition strip_ws :: "string \<Rightarrow> string" where
  "strip_ws s = rstrip_ws (lstrip_ws s)"

section \<open>Splitting and numbers\<close>

fun split_on :: "char \<Rightarrow> string \<Rightarrow> string list" where
  "split_on c [] = [[]]"
| "split_on c (x # xs) =
     (if x = c then [] # split_on c xs
      else case split_on c xs of [] \<Rightarrow> [[x]] | w # ws \<Rightarrow> (x # w) # ws)"

text \<open>\<open>s.split(c, 1)\<close>\<close>

fun split_first :: "char \<Rightarrow> string \<Rightarrow> string \<times> string option" where
  "split_first c [] = ([], None)"
| "split_first c (x # xs) =
     (if x = c then ([], Some xs) else (case split_first c xs of (w, r) \<Rightarrow> (x # w, r)))"

fun join :: "string \<Rightarrow> string list \<Rightarrow> string" where
  "join sep [] = []"
| "join sep [w] = w"
| "join sep (w # ws) = w @ sep @ join sep ws"

definition replace_char :: "char \<Rightarrow> string \<Rightarrow> string \<Rightarrow> string" where
  "replace_char c r s = concat (map (\<lambda>x. if x = c then r else [x]) s)"

definition digit_char :: "nat \<Rightarrow> char" where
  "digit_char n = char_of (48 + n)"

fun show_nat :: "nat \<Rightarrow> string" where
  "show_nat n = (if n < 10 then [digit_char n] else show_nat (n div 10) @ [digit_char (n mod 10)])"

declare show_nat.simps [simp del]

definition show_int :: "int \<Rightarrow> string" where
  "show_int i = (if i < 0 then CHR ''-'' # show_nat (nat (- i)) else show_nat (nat i))"

fun nat_of_digits :: "nat \<Rightarrow> string \<Rightarrow> nat option" where
  "nat_of_digits acc [] = Some acc"
| "nat_of_digits acc (c # cs) =
     (if is_digit c then nat_of_digits (10 * acc + (code c - 48)) cs else None)"

text \<open>
  \<open>int(s)\<close>: white space around, an optional sign, digits, single underscores between
  digits.
\<close>

fun drop_underscores :: "string \<Rightarrow> string option" where
  "drop_underscores [] = Some []"
| "drop_underscores [c] = (if is_digit c then Some [c] else None)"
| "drop_underscores (c # d # cs) =
     (if \<not> is_digit c then None
      else if d = CHR ''_'' then map_option ((#) c) (if cs = [] then None else drop_underscores cs)
      else map_option ((#) c) (drop_underscores (d # cs)))"

definition int_of_str :: "string \<Rightarrow> int option" where
  "int_of_str s =
     (let t = strip_ws s;
          (neg, ds) = (case t of [] \<Rightarrow> (False, [])
                        | c # cs \<Rightarrow> if c = CHR ''-'' then (True, cs)
                                  else if c = CHR ''+'' then (False, cs) else (False, c # cs))
      in if ds = [] then None
         else case drop_underscores ds of None \<Rightarrow> None
              | Some es \<Rightarrow> map_option (\<lambda>n. if neg then - int n else int n) (nat_of_digits 0 es))"

section \<open>Facts about white space\<close>

lemma wide_hd: "w \<in> set wide_spaces \<Longrightarrow> w \<noteq> [] \<and> lf \<notin> set w \<and> \<not> code (hd w) < 128 \<and> \<not> is_space (hd w)"
proof -
  have "list_all (\<lambda>w. w \<noteq> [] \<and> lf \<notin> set w \<and> \<not> code (hd w) < 128 \<and> \<not> is_space (hd w)) wide_spaces" by code_simp
  then show "w \<in> set wide_spaces \<Longrightarrow> ?thesis" by (simp add: list_all_iff)
qed

lemma wide_prefix_free: "v \<in> set wide_spaces \<Longrightarrow> w \<in> set wide_spaces \<Longrightarrow> prefix v w \<Longrightarrow> v = w"
proof -
  have "list_all (\<lambda>v. list_all (\<lambda>w. prefix v w \<longrightarrow> v = w) wide_spaces) wide_spaces" by code_simp
  then show "v \<in> set wide_spaces \<Longrightarrow> w \<in> set wide_spaces \<Longrightarrow> prefix v w \<Longrightarrow> v = w" by (simp add: list_all_iff)
qed

lemma ws_head_wide: "w \<in> set wide_spaces \<Longrightarrow> starts_with s w \<Longrightarrow> ws_head s = length w"
proof -
  assume w: "w \<in> set wide_spaces" and p: "starts_with s w"
  then obtain v where v: "find (starts_with s) wide_spaces = Some v"
    by (cases "find (starts_with s) wide_spaces") (auto simp: find_None_iff)
  then have "v \<in> set wide_spaces" "starts_with s v" by (auto simp: find_Some_iff)
  then have "v = w" using p w wide_prefix_free [of v w] wide_prefix_free [of w v]
    by (auto simp: starts_with_def dest: prefix_same_cases)
  moreover have "s \<noteq> []" "hd s = hd w" using wide_hd [OF w] p by (auto simp: starts_with_def prefix_def)
  ultimately show ?thesis using v wide_hd [OF w] by (simp add: ws_head_def)
qed

lemma ws_head_cases:
  assumes "0 < ws_head s"
  obtains "is_space (hd s)" "s \<noteq> []" | w where "w \<in> set wide_spaces" "starts_with s w"
proof (cases "is_space (hd s) \<and> s \<noteq> []")
  case False
  then obtain w where "find (starts_with s) wide_spaces = Some w"
    using assms by (auto simp: ws_head_def split: if_splits option.splits)
  then have "w \<in> set wide_spaces \<and> starts_with s w" by (auto simp: find_Some_iff)
  with that(2) show ?thesis by blast
qed (use that(1) in blast)

lemma ws_head_append: "0 < ws_head s \<Longrightarrow> ws_head (s @ t) = ws_head s"
proof -
  assume "0 < ws_head s"
  then show ?thesis
  proof (cases rule: ws_head_cases)
    case (2 w)
    then have "starts_with (s @ t) w" by (auto simp: starts_with_def prefix_def)
    with 2 show ?thesis by (simp add: ws_head_wide)
  qed (simp add: ws_head_def)
qed

lemma ws_head_before_lf:
  assumes "s \<noteq> []" and "ws_head s = 0"
  shows "ws_head (s @ lf # t) = 0"
proof (rule ccontr)
  assume "ws_head (s @ lf # t) \<noteq> 0"
  then have "0 < ws_head (s @ lf # t)" by simp
  then show False
  proof (cases rule: ws_head_cases)
    case 1
    then show ?thesis using assms by (simp add: ws_head_def)
  next
    case (2 w)
    then have "prefix w s" using wide_hd [OF 2(1)]
      by (auto simp: starts_with_def prefix_def append_eq_append_conv2 Cons_eq_append_conv)
    then show ?thesis using ws_head_wide [of w s] 2 wide_hd [OF 2(1)] assms by (simp add: starts_with_def)
  qed
qed

lemma lstrip_id: "ws_head s = 0 \<Longrightarrow> lstrip_ws s = s"
  by (subst lstrip_ws.simps) simp

lemma prefix_rstrip: "prefix (rstrip_ws s) s"
proof (induction s rule: rstrip_ws.induct)
  case (1 s)
  show ?case
  proof (cases "ws_tail s = 0")
    case True
    then show ?thesis by (subst rstrip_ws.simps) simp
  next
    case False
    have "prefix (rstrip_ws s) (take (length s - ws_tail s) s)"
      using 1 [OF False] False by (subst rstrip_ws.simps) simp
    then show ?thesis by (meson prefix_order.trans take_is_prefix)
  qed
qed

lemma ws_head_lstrip: "ws_head (lstrip_ws s) = 0"
proof (induction s rule: lstrip_ws.induct)
  case (1 s)
  then show ?case by (subst lstrip_ws.simps) auto
qed

text \<open>A text that is all white space at its end starts with white space.\<close>

lemma rstrip_empty: "rstrip_ws s = [] \<Longrightarrow> s \<noteq> [] \<Longrightarrow> 0 < ws_head s"
proof (induction s rule: rstrip_ws.induct)
  case (1 s)
  have tail: "ws_tail s \<noteq> 0" using "1.prems" by (subst (asm) rstrip_ws.simps) (auto split: if_splits)
  let ?p = "take (length s - ws_tail s) s"
  have r: "rstrip_ws ?p = []" using "1.prems"(1) tail by (subst (asm) rstrip_ws.simps) simp
  show ?case
  proof (cases "?p = []")
    case False
    then have "0 < ws_head ?p" by (rule "1.IH" [OF tail r])
    then show ?thesis using ws_head_append [of ?p "drop (length s - ws_tail s) s"] by simp
  next
    case True
    then have n: "length s = ws_tail s" using ws_tail_le [of s] "1.prems"(2) by simp
    show ?thesis
    proof (cases "is_space (last s)")
      case True
      then have "length s = 1" using n "1.prems"(2) by (simp add: ws_tail_def)
      then have "hd s = last s" by (cases s) auto
      then show ?thesis using True "1.prems"(2) by (simp add: ws_head_def)
    next
      case False
      then obtain w where w: "find (ends_with s) wide_spaces = Some w" "length w = length s"
        using n tail "1.prems"(2) by (auto simp: ws_tail_def split: if_splits option.splits)
      then have "w \<in> set wide_spaces" "suffix w s" by (auto simp: find_Some_iff ends_with_def)
      then have "s \<in> set wide_spaces" using w(2) by (auto simp: suffix_def)
      then show ?thesis using ws_head_wide [of s s] "1.prems"(2) by (simp add: starts_with_def)
    qed
  qed
qed

lemma lstrip_fix: "lstrip_ws s = s \<longleftrightarrow> ws_head s = 0"
  using ws_head_lstrip [of s] lstrip_id [of s] by auto

lemma rstrip_id: "ws_tail s = 0 \<Longrightarrow> rstrip_ws s = s"
  by (subst rstrip_ws.simps) simp

lemma strip_plain_ends:
  assumes "s = [] \<or> (\<not> is_space (hd s) \<and> code (hd s) < 128 \<and> \<not> is_space (last s) \<and> code (last s) < 128)"
  shows "strip_ws s = s"
  using assms by (auto simp: strip_ws_def lstrip_id rstrip_id ws_head_def ws_tail_def)

section \<open>Facts\<close>

lemma code_char_of [simp]: "n < 256 \<Longrightarrow> code (char_of n) = n"
  by (simp add: code_def)

lemma lower_char_idem [simp]: "lower_char (lower_char c) = lower_char c"
proof (cases "65 \<le> code c \<and> code c \<le> 90")
  case True
  then have "code (lower_char c) = code c + 32" by (simp add: lower_char_def)
  with True show ?thesis by (simp add: lower_char_def)
next
  case False
  then have "lower_char c = c" unfolding lower_char_def by (rule if_not_P)
  then show ?thesis by simp
qed

lemma lower_idem [simp]: "lower (lower s) = lower s"
  by (simp add: lower_def)

lemma lower_append [simp]: "lower (s @ t) = lower s @ lower t"
  by (simp add: lower_def)

lemma length_lower [simp]: "length (lower s) = length s"
  by (simp add: lower_def)

lemma split_on_nonempty [simp]: "split_on c s \<noteq> []"
  by (induction s) (auto split: list.splits)

lemma split_on_notin: "c \<notin> set s \<Longrightarrow> split_on c s = [s]"
  by (induction s) auto

lemma split_on_append: "c \<notin> set s \<Longrightarrow> split_on c (s @ c # t) = s # split_on c t"
  by (induction s) auto

lemma join_split_on: "join [c] (split_on c s) = s"
proof (induction s)
  case Nil
  then show ?case by simp
next
  case (Cons x xs)
  obtain w ws where ws: "split_on c xs = w # ws" by (cases "split_on c xs") auto
  with Cons show ?case by (cases ws) auto
qed

lemma split_first_None: "c \<notin> set s \<Longrightarrow> split_first c s = (s, None)"
  by (induction s) auto

lemma split_first_Some: "c \<notin> set w \<Longrightarrow> split_first c (w @ c # r) = (w, Some r)"
  by (induction w) auto

lemma strip_of_id: "s = [] \<or> (\<not> P (hd s) \<and> \<not> P (last s)) \<Longrightarrow> strip_of P s = s"
proof (cases s rule: rev_cases)
  case Nil
  then show ?thesis by (simp add: strip_of_def)
next
  case (snoc ys y)
  assume "s = [] \<or> (\<not> P (hd s) \<and> \<not> P (last s))"
  with snoc have "\<not> P (hd s)" "\<not> P y" by auto
  then have "dropWhile P s = s" by (cases s) auto
  with snoc \<open>\<not> P y\<close> show ?thesis by (simp add: strip_of_def)
qed

lemma strip_of_all: "list_all P s \<Longrightarrow> strip_of P s = []"
  by (auto simp: strip_of_def list_all_iff dropWhile_eq_Nil_conv dest: set_dropWhileD)

lemma show_nat_nonempty [simp]: "show_nat n \<noteq> []"
  by (subst show_nat.simps) simp

lemma code_digit_char [simp]: "n < 10 \<Longrightarrow> code (digit_char n) = 48 + n"
  unfolding digit_char_def by (rule code_char_of) simp

lemma is_digit_digit_char [simp]: "n < 10 \<Longrightarrow> is_digit (digit_char n)"
  by (simp add: is_digit_def)

lemma show_nat_digits: "list_all is_digit (show_nat n)"
proof (induction n rule: show_nat.induct)
  case (1 n)
  then show ?case by (subst show_nat.simps) (auto simp: list_all_iff)
qed

lemma nat_of_digits_append:
  "nat_of_digits a (s @ t) = (case nat_of_digits a s of None \<Rightarrow> None | Some b \<Rightarrow> nat_of_digits b t)"
  by (induction a s rule: nat_of_digits.induct) auto

lemma nat_of_digits_show_nat: "nat_of_digits 0 (show_nat n) = Some n"
proof (induction n rule: show_nat.induct)
  case (1 n)
  show ?case
  proof (cases "n < 10")
    case True
    then show ?thesis
      by (subst show_nat.simps) simp
  next
    case False
    have d: "nat_of_digits m [digit_char (n mod 10)] = Some (10 * m + n mod 10)" for m
      by simp
    from False 1 show ?thesis
      by (subst show_nat.simps) (simp add: nat_of_digits_append d)
  qed
qed

lemma is_digit_not_special:
  "is_digit c \<Longrightarrow> c \<noteq> CHR ''-''" "is_digit c \<Longrightarrow> c \<noteq> CHR ''+''" "is_digit c \<Longrightarrow> c \<noteq> CHR ''_''"
  "is_digit c \<Longrightarrow> \<not> is_space c"
  by (auto simp: is_digit_def is_space_def code_def)

lemma drop_underscores_digits: "list_all is_digit s \<Longrightarrow> drop_underscores s = Some s"
proof (induction s rule: drop_underscores.induct)
  case (3 c d cs)
  then have "d \<noteq> CHR ''_''" by (simp add: is_digit_not_special)
  with 3 show ?case by simp
qed simp_all

text \<open>Reading back a printed integer: indices printed by the program are read as themselves.\<close>

lemma int_of_str_show_nat: "int_of_str (show_nat n) = Some (int n)"
proof -
  have all: "list_all is_digit (show_nat n)" by (rule show_nat_digits)
  then have "is_digit (hd (show_nat n))" "is_digit (last (show_nat n))"
    by (simp_all add: list_all_iff)
  then have st: "strip_ws (show_nat n) = show_nat n"
    by (intro strip_plain_ends) (simp add: is_digit_not_special is_digit_def)
  obtain c cs where c: "show_nat n = c # cs" by (cases "show_nat n") auto
  with all have "c \<noteq> CHR ''-''" "c \<noteq> CHR ''+''" by (simp_all add: is_digit_not_special)
  moreover from all c have "drop_underscores (c # cs) = Some (c # cs)"
    by (intro drop_underscores_digits) simp
  moreover have "nat_of_digits 0 (c # cs) = Some n"
    using nat_of_digits_show_nat [of n] unfolding c .
  ultimately show ?thesis
    using st by (simp add: int_of_str_def Let_def c del: drop_underscores.simps nat_of_digits.simps)
qed

lemma show_nat_inj: "show_nat m = show_nat n \<longleftrightarrow> m = n"
  by (metis nat_of_digits_show_nat option.inject)

end
