(* ===== verification/PyValue.thy ===== *)
theory PyValue
  imports PyText
begin

text \<open>
  The values the program computes with: JSON-shaped Python objects.  Dictionaries keep their
  insertion order.  A float is its exact rational value; what CPython takes from the C
  library and its own parser (rounding of an arithmetic result, the printed form of a float,
  reading a float, \<open>json.loads\<close> and \<open>ast.literal_eval\<close>) is the record \<open>pyrt\<close>, a
  parameter of the definitions that use it.  NaN and the infinities are not values here.
\<close>

section \<open>Values\<close>

datatype pyval =
    PNone
  | PBool bool
  | PInt int
  | PFloat rat
  | PStr string
  | PList "pyval list"
  | PDict "(string \<times> pyval) list"

type_synonym pydict = "(string \<times> pyval) list"

record pyrt =
  fround :: "rat \<Rightarrow> rat"
  frepr :: "rat \<Rightarrow> string"
  fparse :: "string \<Rightarrow> rat option"
  json_loads :: "string \<Rightarrow> pyval option"
  literal_eval :: "string \<Rightarrow> pyval option"

lemma size_dict_value [termination_simp]:
  "kv \<in> set d \<Longrightarrow> size (snd kv) < Suc (size_list (size_prod (\<lambda>x. 0) size) d)"
  by (induction d) auto

lemma size_dict_value' [termination_simp]:
  "(k, v) \<in> set d \<Longrightarrow> size v < Suc (size_list (size_prod (\<lambda>x. 0) size) d)"
  by (drule size_dict_value) simp

lemma size_dget [termination_simp]:
  "map_of d k = Some v \<Longrightarrow> size v < Suc (size_list (size_prod (\<lambda>x. 0) size) d)"
  by (drule map_of_SomeD) (rule size_dict_value')

fun type_name :: "pyval \<Rightarrow> string" where
  "type_name PNone = ''NoneType''"
| "type_name (PBool _) = ''bool''"
| "type_name (PInt _) = ''int''"
| "type_name (PFloat _) = ''float''"
| "type_name (PStr _) = ''str''"
| "type_name (PList _) = ''list''"
| "type_name (PDict _) = ''dict''"

text \<open>\<open>isinstance(v, T)\<close>; \<open>bool\<close> is a subclass of \<open>int\<close>.\<close>

definition is_str :: "pyval \<Rightarrow> bool" where
  "is_str v = (case v of PStr _ \<Rightarrow> True | _ \<Rightarrow> False)"

definition is_list :: "pyval \<Rightarrow> bool" where
  "is_list v = (case v of PList _ \<Rightarrow> True | _ \<Rightarrow> False)"

definition is_dict :: "pyval \<Rightarrow> bool" where
  "is_dict v = (case v of PDict _ \<Rightarrow> True | _ \<Rightarrow> False)"

definition is_bool :: "pyval \<Rightarrow> bool" where
  "is_bool v = (case v of PBool _ \<Rightarrow> True | _ \<Rightarrow> False)"

definition is_int :: "pyval \<Rightarrow> bool" where
  "is_int v = (case v of PInt _ \<Rightarrow> True | PBool _ \<Rightarrow> True | _ \<Rightarrow> False)"

definition is_float :: "pyval \<Rightarrow> bool" where
  "is_float v = (case v of PFloat _ \<Rightarrow> True | _ \<Rightarrow> False)"

text \<open>\<open>isinstance(v, numbers.Number)\<close>\<close>

definition is_num :: "pyval \<Rightarrow> bool" where
  "is_num v \<longleftrightarrow> is_int v \<or> is_float v"

lemmas type_tests = is_str_def is_list_def is_dict_def is_bool_def is_int_def is_float_def is_num_def

lemma type_tests_simps [simp]:
  "is_str (PStr s)" "\<not> is_str PNone" "\<not> is_str (PBool b)" "\<not> is_str (PInt i)" "\<not> is_str (PFloat q)"
  "\<not> is_str (PList xs)" "\<not> is_str (PDict d)"
  "is_list (PList xs)" "\<not> is_list PNone" "\<not> is_list (PBool b)" "\<not> is_list (PInt i)"
  "\<not> is_list (PFloat q)" "\<not> is_list (PStr s)" "\<not> is_list (PDict d)"
  "is_dict (PDict d)" "\<not> is_dict PNone" "\<not> is_dict (PBool b)" "\<not> is_dict (PInt i)"
  "\<not> is_dict (PFloat q)" "\<not> is_dict (PStr s)" "\<not> is_dict (PList xs)"
  "is_bool (PBool b)" "\<not> is_bool PNone" "\<not> is_bool (PInt i)" "\<not> is_bool (PFloat q)"
  "\<not> is_bool (PStr s)" "\<not> is_bool (PList xs)" "\<not> is_bool (PDict d)"
  "is_int (PInt i)" "is_int (PBool b)" "\<not> is_int PNone" "\<not> is_int (PFloat q)" "\<not> is_int (PStr s)"
  "\<not> is_int (PList xs)" "\<not> is_int (PDict d)"
  "is_float (PFloat q)" "\<not> is_float PNone" "\<not> is_float (PBool b)" "\<not> is_float (PInt i)"
  "\<not> is_float (PStr s)" "\<not> is_float (PList xs)" "\<not> is_float (PDict d)"
  "is_num (PInt i)" "is_num (PBool b)" "is_num (PFloat q)" "\<not> is_num PNone" "\<not> is_num (PStr s)"
  "\<not> is_num (PList xs)" "\<not> is_num (PDict d)"
  by (simp_all add: type_tests)

fun truthy :: "pyval \<Rightarrow> bool" where
  "truthy PNone = False"
| "truthy (PBool b) = b"
| "truthy (PInt i) = (i \<noteq> 0)"
| "truthy (PFloat q) = (q \<noteq> 0)"
| "truthy (PStr s) = (s \<noteq> [])"
| "truthy (PList xs) = (xs \<noteq> [])"
| "truthy (PDict d) = (d \<noteq> [])"

text \<open>\<open>a or b\<close>\<close>

definition py_or :: "pyval \<Rightarrow> pyval \<Rightarrow> pyval" where
  "py_or a b = (if truthy a then a else b)"

fun num_val :: "pyval \<Rightarrow> rat option" where
  "num_val (PBool b) = Some (if b then 1 else 0)"
| "num_val (PInt i) = Some (of_int i)"
| "num_val (PFloat q) = Some q"
| "num_val _ = None"

section \<open>Equality and order\<close>

text \<open>
  \<open>==\<close>: numbers by value across \<open>bool\<close>, \<open>int\<close> and \<open>float\<close>, lists by elements, dictionaries
  by keys and values whatever the order.
\<close>

fun py_eq :: "pyval \<Rightarrow> pyval \<Rightarrow> bool" where
  "py_eq PNone w = (w = PNone)"
| "py_eq (PStr s) w = (w = PStr s)"
| "py_eq (PList xs) w = (case w of PList ys \<Rightarrow> list_all2 py_eq xs ys | _ \<Rightarrow> False)"
| "py_eq (PDict d) w =
     (case w of
        PDict e \<Rightarrow> length d = length e \<and>
          list_all (\<lambda>kv. case map_of e (fst kv) of None \<Rightarrow> False | Some x \<Rightarrow> py_eq (snd kv) x) d
      | _ \<Rightarrow> False)"
| "py_eq v w = (num_val v = num_val w \<and> num_val v \<noteq> None)"

definition py_in :: "pyval \<Rightarrow> pyval list \<Rightarrow> bool" where
  "py_in v xs = list_ex (py_eq v) xs"

datatype cmpop = LT | LE | GT | GE

fun cmp_with :: "cmpop \<Rightarrow> 'a::linorder \<Rightarrow> 'a \<Rightarrow> bool" where
  "cmp_with LT a b = (a < b)"
| "cmp_with LE a b = (a \<le> b)"
| "cmp_with GT a b = (b < a)"
| "cmp_with GE a b = (b \<le> a)"

definition cmp_err :: "pyval \<Rightarrow> pyval \<Rightarrow> pyexc" where
  "cmp_err a b = Exc TypeErr (''comparison not supported between instances of '' @
     type_name a @ '' and '' @ type_name b)"

text \<open>
  \<open><\<close>, \<open><=\<close>, \<open>>\<close>, \<open>>=\<close>: numbers by value, strings by code point, lists by the first
  elements that differ; \<open>TypeError\<close> otherwise.
\<close>

fun py_cmp :: "cmpop \<Rightarrow> pyval \<Rightarrow> pyval \<Rightarrow> bool res"
  and py_cmp_list :: "cmpop \<Rightarrow> pyval list \<Rightarrow> pyval list \<Rightarrow> bool res" where
  "py_cmp op (PStr s) (PStr t) = Inr (cmp_with op s t)"
| "py_cmp op (PList xs) (PList ys) = py_cmp_list op xs ys"
| "py_cmp op a b =
     (case (num_val a, num_val b) of
        (Some x, Some y) \<Rightarrow> Inr (cmp_with op x y)
      | _ \<Rightarrow> Inl (cmp_err a b))"
| "py_cmp_list op (x # xs) (y # ys) = (if py_eq x y then py_cmp_list op xs ys else py_cmp op x y)"
| "py_cmp_list op xs ys = Inr (cmp_with op (length xs) (length ys))"

section \<open>Printing\<close>

definition hex_digit :: "nat \<Rightarrow> char" where
  "hex_digit n = (if n < 10 then char_of (48 + n) else char_of (87 + n))"

definition repr_char :: "char \<Rightarrow> char \<Rightarrow> string" where
  "repr_char q c =
     (if c = q \<or> c = backslash then [backslash, c]
      else if code c = 10 then [backslash, CHR ''n'']
      else if code c = 13 then [backslash, CHR ''r'']
      else if code c = 9 then [backslash, CHR ''t'']
      else if code c < 32 \<or> code c = 127
        then [backslash, CHR ''x'', hex_digit (code c div 16), hex_digit (code c mod 16)]
      else [c])"

definition repr_str :: "string \<Rightarrow> string" where
  "repr_str s =
     (let q = (if squote \<in> set s \<and> dquote \<notin> set s then dquote else squote)
      in q # concat (map (repr_char q) s) @ [q])"

fun py_repr :: "pyrt \<Rightarrow> pyval \<Rightarrow> string" where
  "py_repr rt PNone = ''None''"
| "py_repr rt (PBool b) = (if b then ''True'' else ''False'')"
| "py_repr rt (PInt i) = show_int i"
| "py_repr rt (PFloat q) = frepr rt q"
| "py_repr rt (PStr s) = repr_str s"
| "py_repr rt (PList xs) = ''['' @ join '', '' (map (py_repr rt) xs) @ '']''"
| "py_repr rt (PDict d) =
     ''{'' @ join '', '' (map (\<lambda>kv. repr_str (fst kv) @ '': '' @ py_repr rt (snd kv)) d) @ ''}''"

text \<open>\<open>str(v)\<close>\<close>

definition py_str :: "pyrt \<Rightarrow> pyval \<Rightarrow> string" where
  "py_str rt v = (case v of PStr s \<Rightarrow> s | _ \<Rightarrow> py_repr rt v)"

text \<open>\<open>json.dumps(v, ensure_ascii=False)\<close>\<close>

definition json_char :: "char \<Rightarrow> string" where
  "json_char c =
     (if c = dquote \<or> c = backslash then [backslash, c]
      else if code c = 10 then [backslash, CHR ''n'']
      else if code c = 13 then [backslash, CHR ''r'']
      else if code c = 9 then [backslash, CHR ''t'']
      else if code c = 12 then [backslash, CHR ''f'']
      else if code c = 8 then [backslash, CHR ''b'']
      else if code c < 32
        then [backslash] @ ''u00'' @ [hex_digit (code c div 16), hex_digit (code c mod 16)]
      else [c])"

definition json_str :: "string \<Rightarrow> string" where
  "json_str s = dquote # concat (map json_char s) @ [dquote]"

fun json_dumps :: "pyrt \<Rightarrow> pyval \<Rightarrow> string" where
  "json_dumps rt PNone = ''null''"
| "json_dumps rt (PBool b) = (if b then ''true'' else ''false'')"
| "json_dumps rt (PInt i) = show_int i"
| "json_dumps rt (PFloat q) = frepr rt q"
| "json_dumps rt (PStr s) = json_str s"
| "json_dumps rt (PList xs) = ''['' @ join '', '' (map (json_dumps rt) xs) @ '']''"
| "json_dumps rt (PDict d) =
     ''{'' @ join '', '' (map (\<lambda>kv. json_str (fst kv) @ '': '' @ json_dumps rt (snd kv)) d) @ ''}''"

section \<open>Calls on a value of the wrong type\<close>

definition attr_err :: "pyval \<Rightarrow> string \<Rightarrow> pyexc" where
  "attr_err v a = Exc AttributeErr ([squote] @ type_name v @ [squote] @ '' object has no attribute '' @
     [squote] @ a @ [squote])"

definition as_str :: "string \<Rightarrow> pyval \<Rightarrow> string res" where
  "as_str a v = (case v of PStr s \<Rightarrow> Inr s | _ \<Rightarrow> Inl (attr_err v a))"

definition type_err :: "string \<Rightarrow> pyexc" where
  "type_err m = Exc TypeErr m"

definition key_err :: "string \<Rightarrow> pyexc" where
  "key_err k = Exc KeyErr (repr_str k)"

text \<open>\<open>d[k]\<close> and \<open>d.get(k)\<close> on a value that should be a dictionary\<close>

definition subscript :: "pyval \<Rightarrow> string \<Rightarrow> pyval res" where
  "subscript v k =
     (case v of
        PDict d \<Rightarrow> (case dget d k of None \<Rightarrow> Inl (key_err k) | Some x \<Rightarrow> Inr x)
      | PStr _ \<Rightarrow> Inl (type_err ''string indices must be integers'')
      | PList _ \<Rightarrow> Inl (type_err ''list indices must be integers or slices, not str'')
      | _ \<Rightarrow> Inl (type_err (type_name v @ '' object is not subscriptable'')))"

definition get_key :: "pyval \<Rightarrow> string \<Rightarrow> pyval \<Rightarrow> pyval res" where
  "get_key v k dflt = (case v of PDict d \<Rightarrow> Inr (dget_or d k dflt) | _ \<Rightarrow> Inl (attr_err v ''get''))"

text \<open>\<open>for x in v\<close>\<close>

definition iter_vals :: "pyval \<Rightarrow> pyval list res" where
  "iter_vals v =
     (case v of
        PList xs \<Rightarrow> Inr xs
      | PDict d \<Rightarrow> Inr (map (PStr \<circ> fst) d)
      | PStr s \<Rightarrow> Inr (map (\<lambda>c. PStr [c]) s)
      | _ \<Rightarrow> Inl (type_err (type_name v @ '' object is not iterable'')))"

section \<open>Conversions\<close>

text \<open>\<open>float(v)\<close>\<close>

definition py_float :: "pyrt \<Rightarrow> pyval \<Rightarrow> rat res" where
  "py_float rt v =
     (case v of
        PBool b \<Rightarrow> Inr (if b then 1 else 0)
      | PInt i \<Rightarrow> Inr (fround rt (of_int i))
      | PFloat q \<Rightarrow> Inr q
      | PStr s \<Rightarrow> (case fparse rt s of
                     Some q \<Rightarrow> Inr q
                   | None \<Rightarrow> Inl (Exc ValueErr (''could not convert string to float: '' @ repr_str s)))
      | _ \<Rightarrow> Inl (type_err (''float() argument must be a string or a real number, not '' @ type_name v)))"

text \<open>\<open>int(v)\<close>: a float is cut towards zero.\<close>

definition py_int :: "pyval \<Rightarrow> int res" where
  "py_int v =
     (case v of
        PBool b \<Rightarrow> Inr (if b then 1 else 0)
      | PInt i \<Rightarrow> Inr i
      | PFloat q \<Rightarrow> Inr (if q < 0 then - \<lfloor>- q\<rfloor> else \<lfloor>q\<rfloor>)
      | PStr s \<Rightarrow> (case int_of_str s of
                     Some i \<Rightarrow> Inr i
                   | None \<Rightarrow> Inl (Exc ValueErr (''invalid literal for int() with base 10: '' @ repr_str s)))
      | _ \<Rightarrow> Inl (type_err (''int() argument must be a string or a real number, not '' @ type_name v)))"

section \<open>Facts\<close>

text \<open>A well-formed value has distinct keys in every dictionary inside it.\<close>

fun wf_val :: "pyval \<Rightarrow> bool" where
  "wf_val (PList xs) = list_all wf_val xs"
| "wf_val (PDict d) = (distinct (map fst d) \<and> list_all (\<lambda>kv. wf_val (snd kv)) d)"
| "wf_val _ = True"

lemma py_eq_refl: "wf_val v \<Longrightarrow> py_eq v v"
proof (induction v rule: wf_val.induct)
  case (1 xs)
  then show ?case by (auto simp: list_all_iff list_all2_conv_all_nth)
next
  case (2 d)
  have "map_of d (fst kv) = Some (snd kv)" if "kv \<in> set d" for kv
    using 2 that by (cases kv) simp
  with 2 show ?case by (auto simp: list_all_iff)
qed auto

lemma py_eq_str [simp]: "py_eq v (PStr s) \<longleftrightarrow> v = PStr s"
  by (cases v) auto

lemma py_eq_int [simp]: "py_eq (PInt i) (PInt j) \<longleftrightarrow> i = j"
  by simp

lemma truthy_or: "truthy (py_or a b) \<longleftrightarrow> truthy a \<or> truthy b"
  by (simp add: py_or_def)

lemma py_cmp_num:
  "num_val a = Some x \<Longrightarrow> num_val b = Some y \<Longrightarrow> py_cmp op a b = Inr (cmp_with op x y)"
  by (cases a; cases b) auto

lemma py_cmp_total_num:
  assumes "is_num a" and "is_num b"
  shows "py_cmp LT a b = Inr True \<or> py_eq a b \<or> py_cmp GT a b = Inr True"
  using assms by (cases a; cases b) (auto simp: type_tests)

lemma subscript_dict [simp]:
  "subscript (PDict d) k = (case dget d k of None \<Rightarrow> Inl (key_err k) | Some x \<Rightarrow> Inr x)"
  by (simp add: subscript_def)

lemma get_key_dict [simp]: "get_key (PDict d) k x = Inr (dget_or d k x)"
  by (simp add: get_key_def)

lemma py_str_PStr [simp]: "py_str rt (PStr s) = s"
  by (simp add: py_str_def)

lemma as_str_PStr [simp]: "as_str a (PStr s) = Inr s"
  by (simp add: as_str_def)

text \<open>A concrete instance of the parameters, for the witnesses: exact floats and no parsers\<close>

definition plain_rt :: pyrt where
  "plain_rt = \<lparr> fround = id, frepr = (\<lambda>_. ''0.0''), fparse = (\<lambda>_. None),
     json_loads = (\<lambda>_. None), literal_eval = (\<lambda>_. None) \<rparr>"

end
