(* ===== verification/TaskDB.thy ===== *)
theory TaskDB
  imports PyValue
begin

text \<open>
  The task database of MinerU Tianshu (\<^verbatim>\<open>MinerU/projects/mineru_tianshu/task_db.py\<close>).  The SQLite
  table \<open>tasks\<close> is the list of its rows in insertion order; every method is one transaction
  and so one function on the rows.  \<open>now\<close> is \<open>CURRENT_TIMESTAMP\<close> in seconds, \<open>uid\<close> the fresh
  \<open>uuid4\<close>, and \<open>pick\<close> the row SQLite returns among rows its \<open>ORDER BY\<close> does not separate.
\<close>

section \<open>The table\<close>

record task =
  task_id :: string
  file_name :: string
  file_path :: string
  t_status :: string
  t_priority :: int
  backend :: string
  t_options :: string
  result_path :: "string option"
  error_message :: "string option"
  created_at :: int
  started_at :: "int option"
  completed_at :: "int option"
  worker_id :: "string option"
  retry_count :: int

type_synonym rows = "task list"

definition has_status :: "string \<Rightarrow> task \<Rightarrow> bool" where
  "has_status s t \<longleftrightarrow> t_status t = s"

text \<open>\<open>UPDATE tasks SET f WHERE P\<close>, with \<open>cursor.rowcount\<close>\<close>

definition sql_update :: "(task \<Rightarrow> bool) \<Rightarrow> (task \<Rightarrow> task) \<Rightarrow> rows \<Rightarrow> nat \<times> rows" where
  "sql_update P f rows = (length (filter P rows), map (\<lambda>t. if P t then f t else t) rows)"

text \<open>\<open>datetime('now', '-' || n || ' units')\<close>: NULL, and so no match, for a negative n\<close>

definition older_than :: "int \<Rightarrow> int \<Rightarrow> int \<Rightarrow> int option \<Rightarrow> bool" where
  "older_than now unit n stamp =
     (0 \<le> n \<and> (case stamp of None \<Rightarrow> False | Some s \<Rightarrow> s < now - n * unit))"

definition create_task ::
  "pyrt \<Rightarrow> string \<Rightarrow> int \<Rightarrow> string \<Rightarrow> string \<Rightarrow> string \<Rightarrow> pyval \<Rightarrow> int \<Rightarrow> rows \<Rightarrow> string res \<times> rows" where
  "create_task rt uid now fname fpath bknd options prio rows =
     (if uid \<in> task_id ` set rows
      then (Inl (Exc IntegrityErr ''UNIQUE constraint failed: tasks.task_id''), rows)
      else (Inr uid, rows @ [\<lparr> task_id = uid, file_name = fname, file_path = fpath,
              t_status = ''pending'', t_priority = prio, backend = bknd,
              t_options = json_dumps rt (py_or options (PDict [])),
              result_path = None, error_message = None, created_at = now,
              started_at = None, completed_at = None, worker_id = None, retry_count = 0 \<rparr>]))"

section \<open>Claiming a task\<close>

text \<open>The key of \<open>ORDER BY priority DESC, created_at ASC\<close>: a smaller rank is served first.\<close>

datatype rank = Rank (rank_priority: int) (rank_time: int)

instantiation rank :: linorder
begin

definition less_eq_rank :: "rank \<Rightarrow> rank \<Rightarrow> bool" where
  "less_eq_rank a b \<longleftrightarrow> rank_priority b < rank_priority a \<or>
     (rank_priority a = rank_priority b \<and> rank_time a \<le> rank_time b)"

definition less_rank :: "rank \<Rightarrow> rank \<Rightarrow> bool" where
  "less_rank a b \<longleftrightarrow> rank_priority b < rank_priority a \<or>
     (rank_priority a = rank_priority b \<and> rank_time a < rank_time b)"

instance
proof
  fix a b c :: rank
  show "(a < b) = (a \<le> b \<and> \<not> b \<le> a)"
    by (auto simp: less_eq_rank_def less_rank_def)
  show "a \<le> a"
    by (simp add: less_eq_rank_def)
  show "a \<le> b \<Longrightarrow> b \<le> c \<Longrightarrow> a \<le> c"
    by (auto simp: less_eq_rank_def)
  show "a \<le> b \<Longrightarrow> b \<le> a \<Longrightarrow> a = b"
    by (cases a; cases b) (auto simp: less_eq_rank_def)
  show "a \<le> b \<or> b \<le> a"
    by (auto simp: less_eq_rank_def)
qed

end

definition rank_of :: "task \<Rightarrow> rank" where
  "rank_of t = Rank (t_priority t) (created_at t)"

definition pending :: "rows \<Rightarrow> rows" where
  "pending rows = filter (has_status ''pending'') rows"

definition heads :: "rows \<Rightarrow> rows" where
  "heads rows = filter (\<lambda>t. list_all (\<lambda>u. rank_of t \<le> rank_of u) (pending rows)) (pending rows)"

definition claim_row :: "int \<Rightarrow> string \<Rightarrow> task \<Rightarrow> task" where
  "claim_row now w t = t\<lparr>t_status := ''processing'', started_at := Some now, worker_id := Some w\<rparr>"

fun claim_attempts ::
  "(task list \<Rightarrow> task) \<Rightarrow> int \<Rightarrow> string \<Rightarrow> nat \<Rightarrow> rows \<Rightarrow> task option \<times> rows" where
  "claim_attempts pick now w 0 rows = (None, rows)"
| "claim_attempts pick now w (Suc n) rows =
     (if heads rows = [] then (None, rows)
      else let t = pick (heads rows);
               (rowcount, rows') =
                 sql_update (\<lambda>u. task_id u = task_id t \<and> has_status ''pending'' u)
                   (claim_row now w) rows
           in if rowcount = 0 then claim_attempts pick now w n rows' else (Some t, rows'))"

definition get_next_task ::
  "(task list \<Rightarrow> task) \<Rightarrow> int \<Rightarrow> string \<Rightarrow> int \<Rightarrow> rows \<Rightarrow> task option \<times> rows" where
  "get_next_task pick now w max_retries rows = claim_attempts pick now w (nat max_retries) rows"

section \<open>Updating the status\<close>

text \<open>A clause of the generated SQL together with its bound parameter.\<close>

datatype set_clause =
  SetStatus string | SetCompletedNow | SetResultPath string | SetErrorMessage string

datatype where_clause = WhereTask string | WhereProcessing | WhereWorker string

definition opt_clause :: "(string \<Rightarrow> 'c) \<Rightarrow> string option \<Rightarrow> 'c list" where
  "opt_clause c s = (case s of None \<Rightarrow> [] | Some x \<Rightarrow> if x = [] then [] else [c x])"

definition build_update_clauses ::
  "string \<Rightarrow> string option \<Rightarrow> string option \<Rightarrow> string option \<Rightarrow> string option \<Rightarrow>
     set_clause list \<times> where_clause list" where
  "build_update_clauses st rpath err w tid =
     (let upd = [SetStatus st]; whr = opt_clause WhereTask tid
      in if st = ''completed''
         then (upd @ [SetCompletedNow] @ opt_clause SetResultPath rpath,
               whr @ [WhereProcessing] @ opt_clause WhereWorker w)
         else if st = ''failed''
         then (upd @ [SetCompletedNow] @ opt_clause SetErrorMessage err,
               whr @ [WhereProcessing] @ opt_clause WhereWorker w)
         else (upd, whr))"

fun apply_set :: "int \<Rightarrow> set_clause \<Rightarrow> task \<Rightarrow> task" where
  "apply_set now (SetStatus s) t = t\<lparr>t_status := s\<rparr>"
| "apply_set now SetCompletedNow t = t\<lparr>completed_at := Some now\<rparr>"
| "apply_set now (SetResultPath p) t = t\<lparr>result_path := Some p\<rparr>"
| "apply_set now (SetErrorMessage m) t = t\<lparr>error_message := Some m\<rparr>"

fun where_holds :: "where_clause \<Rightarrow> task \<Rightarrow> bool" where
  "where_holds (WhereTask i) t = (task_id t = i)"
| "where_holds WhereProcessing t = (t_status t = ''processing'')"
| "where_holds (WhereWorker w) t = (worker_id t = Some w)"

text \<open>An empty list of WHERE clauses gives \<open>... WHERE\<close> with nothing after it: a syntax error.\<close>

definition update_task_status ::
  "int \<Rightarrow> string option \<Rightarrow> string \<Rightarrow> string option \<Rightarrow> string option \<Rightarrow> string option \<Rightarrow>
     rows \<Rightarrow> bool res \<times> rows" where
  "update_task_status now tid st rpath err w rows =
     (case build_update_clauses st rpath err w tid of
        (upd, whr) \<Rightarrow>
          if whr = [] then (Inl (Exc OperationalErr ''incomplete input''), rows)
          else case sql_update (\<lambda>t. list_all (\<lambda>c. where_holds c t) whr)
                      (\<lambda>t. foldl (\<lambda>u c. apply_set now c u) t upd) rows of
                 (rowcount, rows') \<Rightarrow> (Inr (0 < rowcount), rows'))"

section \<open>Queries\<close>

definition get_task :: "string \<Rightarrow> rows \<Rightarrow> task option" where
  "get_task tid rows = find (\<lambda>t. task_id t = tid) rows"

text \<open>\<open>GROUP BY status\<close>: one entry per status that occurs\<close>

definition get_queue_stats :: "rows \<Rightarrow> (string \<times> nat) list" where
  "get_queue_stats rows =
     map (\<lambda>s. (s, length (filter (has_status s) rows))) (remdups (map t_status rows))"

text \<open>\<open>ORDER BY created_at DESC LIMIT n\<close>; a negative limit is no limit\<close>

definition get_tasks_by_status :: "string \<Rightarrow> int \<Rightarrow> rows \<Rightarrow> rows" where
  "get_tasks_by_status st limit rows =
     (let found = sort_key (\<lambda>t. - created_at t) (filter (has_status st) rows)
      in if limit < 0 then found else take (nat limit) found)"

section \<open>Cleaning up\<close>

text \<open>
  \<open>dirs\<close> are the directories that exist and \<open>rm_ok p\<close> says whether \<open>shutil.rmtree(p)\<close>
  succeeds; a failure is logged and leaves the row as it is.
\<close>

definition old_result :: "int \<Rightarrow> int \<Rightarrow> task \<Rightarrow> bool" where
  "old_result now days t =
     (older_than now 86400 days (completed_at t) \<and>
      (has_status ''completed'' t \<or> has_status ''failed'' t) \<and> result_path t \<noteq> None)"

fun cleanup_files_loop ::
  "(string \<Rightarrow> bool) \<Rightarrow> task list \<Rightarrow> rows \<Rightarrow> string list \<Rightarrow> nat \<Rightarrow> nat \<times> rows \<times> string list" where
  "cleanup_files_loop rm_ok [] rows dirs n = (n, rows, dirs)"
| "cleanup_files_loop rm_ok (t # ts) rows dirs n =
     (case result_path t of
        None \<Rightarrow> cleanup_files_loop rm_ok ts rows dirs n
      | Some p \<Rightarrow>
          if p \<noteq> [] \<and> p \<in> set dirs \<and> rm_ok p
          then cleanup_files_loop rm_ok ts
                 (snd (sql_update (\<lambda>u. task_id u = task_id t) (\<lambda>u. u\<lparr>result_path := None\<rparr>) rows))
                 (filter (\<lambda>d. d \<noteq> p) dirs) (Suc n)
          else cleanup_files_loop rm_ok ts rows dirs n)"

definition cleanup_old_task_files ::
  "(string \<Rightarrow> bool) \<Rightarrow> int \<Rightarrow> int \<Rightarrow> rows \<Rightarrow> string list \<Rightarrow> nat \<times> rows \<times> string list" where
  "cleanup_old_task_files rm_ok now days rows dirs =
     cleanup_files_loop rm_ok (filter (old_result now days) rows) rows dirs 0"

definition cleanup_old_task_records :: "int \<Rightarrow> int \<Rightarrow> rows \<Rightarrow> nat \<times> rows" where
  "cleanup_old_task_records now days rows =
     (let old = (\<lambda>t. older_than now 86400 days (completed_at t) \<and>
                     (has_status ''completed'' t \<or> has_status ''failed'' t))
      in (length (filter old rows), filter (\<lambda>t. \<not> old t) rows))"

definition reset_stale_tasks :: "int \<Rightarrow> int \<Rightarrow> rows \<Rightarrow> nat \<times> rows" where
  "reset_stale_tasks now timeout_minutes rows =
     sql_update (\<lambda>t. has_status ''processing'' t \<and> older_than now 60 timeout_minutes (started_at t))
       (\<lambda>t. t\<lparr>t_status := ''pending'', worker_id := None, retry_count := retry_count t + 1\<rparr>) rows"

end
