(* ===== verification/TaskQueue.thy ===== *)
theory TaskQueue
  imports TaskDB
begin

text \<open>
  What the task database promises its workers.  The locale \<open>claim_queue\<close> is the contract of
  a queue from which several workers claim; \<open>row_picker\<close> is the freedom SQLite has among
  equally ranked rows, and the database is a \<open>claim_queue\<close> whatever it picks.  The second
  part is the life of a task as a step relation over every operation of the database, with
  its invariant and the order of its states.
\<close>

section \<open>The contract of a claim queue\<close>

locale claim_queue =
  fixes claim :: "'w \<Rightarrow> 'q \<Rightarrow> 't option \<times> 'q"
    and key :: "'t \<Rightarrow> 'k"
    and waiting :: "'q \<Rightarrow> 'k set"
    and inv :: "'q \<Rightarrow> bool"
  assumes claim_inv: "inv q \<Longrightarrow> inv (snd (claim w q))"
    and claim_some: "inv q \<Longrightarrow> claim w q = (Some t, q') \<Longrightarrow>
           key t \<in> waiting q \<and> waiting q' = waiting q - {key t}"
    and claim_none: "inv q \<Longrightarrow> claim w q = (None, q') \<Longrightarrow> waiting q = {} \<and> q' = q"
begin

fun claims :: "'w list \<Rightarrow> 'q \<Rightarrow> 't option list \<times> 'q" where
  "claims [] q = ([], q)"
| "claims (w # ws) q =
     (case claim w q of (r, q1) \<Rightarrow> (case claims ws q1 of (rs, q2) \<Rightarrow> (r # rs, q2)))"

definition handed_out :: "'t option list \<Rightarrow> 'k list" where
  "handed_out rs = map key (List.map_filter id rs)"

lemma handed_out_simps [simp]:
  "handed_out [] = []"
  "handed_out (None # rs) = handed_out rs"
  "handed_out (Some t # rs) = key t # handed_out rs"
  by (simp_all add: handed_out_def map_filter_def)

lemma claims_spec:
  assumes "inv q" and "claims ws q = (rs, q')"
  shows "inv q' \<and> waiting q' = waiting q - set (handed_out rs) \<and>
     set (handed_out rs) \<subseteq> waiting q \<and> distinct (handed_out rs)"
  using assms
proof (induction ws arbitrary: q rs q')
  case Nil
  then show ?case by simp
next
  case (Cons w ws)
  obtain r q1 where c: "claim w q = (r, q1)" by (cases "claim w q")
  obtain rs' q2 where cs: "claims ws q1 = (rs', q2)" by (cases "claims ws q1")
  from Cons.prems c cs have rs: "rs = r # rs'" and q': "q' = q2" by simp_all
  have i1: "inv q1" using claim_inv [OF Cons.prems(1), of w] c by simp
  note IH = Cons.IH [OF i1 cs]
  show ?case
  proof (cases r)
    case None
    with c claim_none [OF Cons.prems(1)] have "q1 = q" by blast
    with IH rs q' None show ?thesis by simp
  next
    case (Some t)
    with c claim_some [OF Cons.prems(1)]
    have "key t \<in> waiting q" "waiting q1 = waiting q - {key t}" by blast+
    with IH rs q' Some show ?thesis by auto
  qed
qed

lemma no_task_twice: "inv q \<Longrightarrow> distinct (handed_out (fst (claims ws q)))"
  using claims_spec [of q ws] by (cases "claims ws q") simp

lemma all_handed_out:
  assumes "inv q" and "finite (waiting q)" and "card (waiting q) \<le> length ws"
  shows "set (handed_out (fst (claims ws q))) = waiting q"
  using assms
proof (induction ws arbitrary: q)
  case Nil
  then show ?case by simp
next
  case (Cons w ws)
  obtain r q1 where c: "claim w q = (r, q1)" by (cases "claim w q")
  have i1: "inv q1" using claim_inv [OF Cons.prems(1), of w] c by simp
  obtain rs q2 where cs: "claims ws q1 = (rs, q2)" by (cases "claims ws q1")
  show ?case
  proof (cases r)
    case None
    with c claim_none [OF Cons.prems(1)] have "waiting q = {}" "q1 = q" by blast+
    with Cons.IH [OF i1] cs c None show ?thesis by simp
  next
    case (Some t)
    with c claim_some [OF Cons.prems(1)]
    have k: "key t \<in> waiting q" and q1: "waiting q1 = waiting q - {key t}" by blast+
    from k Cons.prems(2,3) have "card (waiting q1) \<le> length ws"
      unfolding q1 by (simp add: card_Diff_singleton)
    with Cons.IH [OF i1] Cons.prems(2) q1 have "set (handed_out rs) = waiting q1"
      using cs by simp
    with k q1 c cs Some show ?thesis by auto
  qed
qed

end

section \<open>The database implements it\<close>

definition pk_ok :: "rows \<Rightarrow> bool" where
  "pk_ok rows \<longleftrightarrow> distinct (map task_id rows)"

definition pending_ids :: "rows \<Rightarrow> string set" where
  "pending_ids rows = task_id ` set (pending rows)"

lemma sql_update_ids [simp]:
  "(\<And>t. task_id (f t) = task_id t) \<Longrightarrow> map task_id (snd (sql_update P f rows)) = map task_id rows"
  by (simp add: sql_update_def comp_def if_distrib cong: if_cong)

lemma sql_update_count_zero: "fst (sql_update P f rows) = 0 \<longleftrightarrow> (\<forall>t\<in>set rows. \<not> P t)"
  by (auto simp: sql_update_def filter_empty_conv)

lemma set_heads: "t \<in> set (heads rows) \<longleftrightarrow>
  t \<in> set rows \<and> has_status ''pending'' t \<and>
  (\<forall>u\<in>set rows. has_status ''pending'' u \<longrightarrow> rank_of t \<le> rank_of u)"
  by (auto simp: heads_def pending_def list_all_iff)

lemma heads_empty_iff: "heads rows = [] \<longleftrightarrow> pending rows = []"
proof
  assume h: "heads rows = []"
  show "pending rows = []"
  proof (rule ccontr)
    assume ne: "pending rows \<noteq> []"
    define m where "m = Min (rank_of ` set (pending rows))"
    from ne have "m \<in> rank_of ` set (pending rows)"
      unfolding m_def by (intro Min_in) auto
    then obtain t where t: "t \<in> set (pending rows)" "rank_of t = m" by auto
    moreover have "\<forall>u\<in>set (pending rows). m \<le> rank_of u"
      unfolding m_def by simp
    ultimately have "t \<in> set (heads rows)" by (simp add: heads_def list_all_iff)
    with h show False by simp
  qed
qed (simp add: heads_def)

lemma claim_row_id [simp]: "task_id (claim_row now w t) = task_id t"
  by (simp add: claim_row_def)

lemma claim_row_status [simp]: "t_status (claim_row now w t) = ''processing''"
  by (simp add: claim_row_def)

lemma unique_row: "pk_ok rows \<Longrightarrow> t \<in> set rows \<Longrightarrow> u \<in> set rows \<Longrightarrow> task_id t = task_id u \<Longrightarrow> t = u"
  by (auto simp: pk_ok_def distinct_map dest: inj_onD)

locale row_picker =
  fixes pick :: "task list \<Rightarrow> task"
  assumes pick_mem: "xs \<noteq> [] \<Longrightarrow> pick xs \<in> set xs"
begin

text \<open>The first attempt succeeds: inside one transaction nobody takes the row away.\<close>

lemma claim_attempts_Suc:
  assumes "heads rows \<noteq> []"
  shows "claim_attempts pick now w (Suc n) rows =
     (Some (pick (heads rows)),
      map (\<lambda>u. if task_id u = task_id (pick (heads rows)) \<and> has_status ''pending'' u
               then claim_row now w u else u) rows)"
proof -
  let ?t = "pick (heads rows)"
  have "?t \<in> set (heads rows)" using assms by (rule pick_mem)
  then have t: "?t \<in> set rows" "has_status ''pending'' ?t" by (simp_all add: set_heads)
  have "fst (sql_update (\<lambda>u. task_id u = task_id ?t \<and> has_status ''pending'' u)
     (claim_row now w) rows) \<noteq> 0"
    using t unfolding sql_update_count_zero by blast
  with assms show ?thesis
    by (simp add: sql_update_def Let_def)
qed

lemma get_next_task_some:
  assumes "0 < n" and "heads rows \<noteq> []"
  shows "get_next_task pick now w n rows =
     (Some (pick (heads rows)),
      map (\<lambda>u. if task_id u = task_id (pick (heads rows)) \<and> has_status ''pending'' u
               then claim_row now w u else u) rows)"
proof -
  from assms(1) obtain m where "nat n = Suc m" by (cases "nat n") auto
  with claim_attempts_Suc [OF assms(2)] show ?thesis by (simp add: get_next_task_def)
qed

lemma get_next_task_none:
  assumes "heads rows = []"
  shows "get_next_task pick now w n rows = (None, rows)"
  using assms unfolding get_next_task_def by (cases "nat n") simp_all

lemma claim_pk:
  assumes "pk_ok rows"
  shows "pk_ok (snd (get_next_task pick now w n rows))"
proof (cases "heads rows = [] \<or> n \<le> 0")
  case True
  with assms show ?thesis
    by (auto simp: get_next_task_none) (simp add: get_next_task_def)
next
  case False
  then have "map task_id (snd (get_next_task pick now w n rows)) = map task_id rows"
    by (simp add: get_next_task_some comp_def if_distrib cong: if_cong)
  with assms show ?thesis by (simp add: pk_ok_def)
qed

lemma claim_pending_ids:
  assumes "pk_ok rows" and "0 < n" and "get_next_task pick now w n rows = (Some t, rows')"
  shows "task_id t \<in> pending_ids rows \<and> pending_ids rows' = pending_ids rows - {task_id t}"
proof -
  have ne: "heads rows \<noteq> []"
    using assms(3) get_next_task_none by (metis option.distinct(1) prod.inject)
  note eq = assms(3) [unfolded get_next_task_some [OF assms(2) ne] prod.inject option.inject]
  from eq have t: "t = pick (heads rows)" by simp
  from eq have r': "rows' = map (\<lambda>u. if task_id u = task_id t \<and> has_status ''pending'' u
               then claim_row now w u else u) rows" unfolding t by simp
  have "t \<in> set (heads rows)" unfolding t using ne by (rule pick_mem)
  then have mem: "t \<in> set rows" "has_status ''pending'' t" by (simp_all add: set_heads)
  then have "task_id t \<in> pending_ids rows" by (simp add: pending_ids_def pending_def)
  moreover have "pending_ids rows' = pending_ids rows - {task_id t}"
    unfolding r' by (auto simp: pending_ids_def pending_def has_status_def split: if_splits)
  ultimately show ?thesis by simp
qed

end

sublocale row_picker \<subseteq> queue: claim_queue
  "\<lambda>(w, now) rows. get_next_task pick now w 3 rows" task_id pending_ids pk_ok
proof (unfold_locales, goal_cases)
  case (1 q w)
  then show ?case by (cases w) (simp add: claim_pk)
next
  case (2 q w t q')
  then obtain v now where "get_next_task pick now v 3 q = (Some t, q')" by (cases w) simp
  with 2(1) show ?case by (intro claim_pending_ids [where n = 3]) simp_all
next
  case (3 q w q')
  then obtain v now where w: "get_next_task pick now v 3 q = (None, q')" by (cases w) simp
  have "heads q = []"
  proof (rule ccontr)
    assume "heads q \<noteq> []"
    with w show False by (simp add: get_next_task_some)
  qed
  with w show ?case
    by (simp add: get_next_task_none heads_empty_iff pending_ids_def)
qed

interpretation first_row: row_picker hd
  by unfold_locales simp

end
