(* ===== verification/TaskLife.thy ===== *)
theory TaskLife
  imports TaskQueue
begin

text \<open>
  The life of a task: every call the program makes on the database as one step, the
  invariant of the rows that every step keeps, and the order in which a row changes its
  status.
\<close>

section \<open>Steps\<close>

definition picks :: "(task list \<Rightarrow> task) \<Rightarrow> bool" where
  "picks pick \<longleftrightarrow> (\<forall>xs. xs \<noteq> [] \<longrightarrow> pick xs \<in> set xs)"

lemma picks_row_picker: "picks pick \<longleftrightarrow> row_picker pick"
  by (simp add: picks_def row_picker_def)

inductive db_step :: "rows \<Rightarrow> rows \<Rightarrow> bool" where
  create: "db_step rows (snd (create_task rt uid now fn fp b opts prio rows))"
| claim: "picks pick \<Longrightarrow> db_step rows (snd (get_next_task pick now w n rows))"
| finish: "st = ''completed'' \<or> st = ''failed'' \<Longrightarrow> w \<noteq> [] \<Longrightarrow>
     db_step rows (snd (update_task_status now (Some tid) st rp em (Some w) rows))"
| cancel: "db_step rows (snd (update_task_status now (Some tid) ''cancelled'' None None None rows))"
| reset_stale: "db_step rows (snd (reset_stale_tasks now m rows))"
| clean_files: "db_step rows (fst (snd (cleanup_old_task_files rm_ok now d rows dirs)))"
| clean_records: "db_step rows (snd (cleanup_old_task_records now d rows))"

inductive reachable_rows :: "rows \<Rightarrow> bool" where
  empty: "reachable_rows []"
| step: "reachable_rows rows \<Longrightarrow> db_step rows rows' \<Longrightarrow> reachable_rows rows'"

section \<open>The invariant of a row\<close>

definition row_ok :: "task \<Rightarrow> bool" where
  "row_ok t \<longleftrightarrow>
     t_status t \<in> {''pending'', ''processing'', ''completed'', ''failed'', ''cancelled''} \<and>
     (t_status t = ''pending'' \<longrightarrow> worker_id t = None \<and> completed_at t = None \<and> result_path t = None) \<and>
     (t_status t = ''processing'' \<longrightarrow>
        worker_id t \<noteq> None \<and> started_at t \<noteq> None \<and> completed_at t = None \<and> result_path t = None) \<and>
     (t_status t = ''completed'' \<or> t_status t = ''failed'' \<longrightarrow>
        worker_id t \<noteq> None \<and> started_at t \<noteq> None \<and> completed_at t \<noteq> None) \<and>
     0 \<le> retry_count t"

definition rows_ok :: "rows \<Rightarrow> bool" where
  "rows_ok rows \<longleftrightarrow> pk_ok rows \<and> list_all row_ok rows"

definition allowed :: "string \<Rightarrow> string \<Rightarrow> bool" where
  "allowed s s' \<longleftrightarrow> s = s' \<or> (s = ''pending'' \<and> s' = ''processing'') \<or>
     (s = ''processing'' \<and> s' \<in> {''completed'', ''failed'', ''pending''}) \<or> s' = ''cancelled''"

lemma allowed_refl [simp]: "allowed s s"
  by (simp add: allowed_def)

text \<open>
  Each operation rewrites rows one by one, drops some or adds one; \<open>evolves\<close> is what all of
  them have in common, and what the invariant and the order of states follow from.
\<close>

definition evolves :: "rows \<Rightarrow> rows \<Rightarrow> bool" where
  "evolves rows rows' \<longleftrightarrow>
     (\<forall>t'\<in>set rows'. (t_status t' = ''pending'' \<and> task_id t' \<notin> task_id ` set rows) \<or>
        (\<exists>t\<in>set rows. task_id t' = task_id t \<and> allowed (t_status t) (t_status t')))"

lemma evolves_refl [intro]: "evolves rows rows"
  by (force simp: evolves_def)

lemma evolves_update:
  assumes "\<And>t. t \<in> set rows \<Longrightarrow> P t \<Longrightarrow> task_id (f t) = task_id t \<and> allowed (t_status t) (t_status (f t))"
  shows "evolves rows (snd (sql_update P f rows))"
  using assms by (fastforce simp: evolves_def sql_update_def)

lemma evolves_filter: "evolves rows (filter P rows)"
  by (force simp: evolves_def)

lemma rows_ok_update:
  assumes "rows_ok rows" and "\<And>t. task_id (f t) = task_id t"
    and "\<And>t. t \<in> set rows \<Longrightarrow> row_ok t \<Longrightarrow> P t \<Longrightarrow> row_ok (f t)"
  shows "rows_ok (snd (sql_update P f rows))"
proof -
  have "pk_ok (snd (sql_update P f rows))"
    using assms(1,2) by (simp add: rows_ok_def pk_ok_def)
  moreover have "list_all row_ok (snd (sql_update P f rows))"
    using assms(1,3) by (auto simp: rows_ok_def sql_update_def list_all_iff)
  ultimately show ?thesis by (simp add: rows_ok_def)
qed

lemma rows_ok_filter: "rows_ok rows \<Longrightarrow> rows_ok (filter P rows)"
  by (auto simp: rows_ok_def pk_ok_def list_all_iff distinct_map intro: inj_on_subset)

section \<open>The operations as row updates\<close>

lemma get_next_task_update:
  assumes "picks pick"
  obtains "snd (get_next_task pick now w n rows) = rows"
  | i where "snd (get_next_task pick now w n rows) =
      snd (sql_update (\<lambda>u. task_id u = i \<and> has_status ''pending'' u) (claim_row now w) rows)"
proof (cases "heads rows = [] \<or> n \<le> 0")
  case True
  then have "snd (get_next_task pick now w n rows) = rows"
    by (cases "nat n") (auto simp: get_next_task_def)
  then show ?thesis by (rule that(1))
next
  case False
  then have "snd (get_next_task pick now w n rows) =
      snd (sql_update (\<lambda>u. task_id u = task_id (pick (heads rows)) \<and> has_status ''pending'' u)
        (claim_row now w) rows)"
    using row_picker.get_next_task_some [OF assms [unfolded picks_row_picker]]
    by (simp add: sql_update_def)
  then show ?thesis by (rule that(2))
qed

text \<open>A worker's final report: which rows it touches and what it answers.\<close>

definition finishes :: "string \<Rightarrow> string \<Rightarrow> task \<Rightarrow> bool" where
  "finishes tid w t \<longleftrightarrow> (tid = [] \<or> task_id t = tid) \<and> t_status t = ''processing'' \<and>
     worker_id t = Some w"

definition finish_row :: "int \<Rightarrow> string \<Rightarrow> string option \<Rightarrow> string option \<Rightarrow> task \<Rightarrow> task" where
  "finish_row now st rp em t =
     (let u = t\<lparr>t_status := st, completed_at := Some now\<rparr>
      in if st = ''completed''
         then (case rp of Some (c # p) \<Rightarrow> u\<lparr>result_path := Some (c # p)\<rparr> | _ \<Rightarrow> u)
         else (case em of Some (c # m) \<Rightarrow> u\<lparr>error_message := Some (c # m)\<rparr> | _ \<Rightarrow> u))"

lemma finish_eq:
  assumes "st = ''completed'' \<or> st = ''failed''" and "w \<noteq> []"
  shows "update_task_status now (Some tid) st rp em (Some w) rows =
     (Inr (\<exists>t\<in>set rows. finishes tid w t),
      map (\<lambda>t. if finishes tid w t then finish_row now st rp em t else t) rows)"
proof -
  have cond: "list_all (\<lambda>c. where_holds c t) (snd (build_update_clauses st rp em (Some w) (Some tid)))
      \<longleftrightarrow> finishes tid w t" for t
    using assms by (auto simp: build_update_clauses_def Let_def opt_clause_def finishes_def)
  have upd: "foldl (\<lambda>u c. apply_set now c u) t (fst (build_update_clauses st rp em (Some w) (Some tid)))
      = finish_row now st rp em t" for t
    using assms by (auto simp: build_update_clauses_def Let_def opt_clause_def finish_row_def
        split: option.splits list.splits)
  have ne: "snd (build_update_clauses st rp em (Some w) (Some tid)) \<noteq> []"
    using assms by (auto simp: build_update_clauses_def Let_def)
  have "0 < length (filter (finishes tid w) rows) \<longleftrightarrow> (\<exists>t\<in>set rows. finishes tid w t)"
    by (auto simp: filter_empty_conv)
  with cond upd ne show ?thesis
    by (simp add: update_task_status_def sql_update_def case_prod_beta)
qed

lemma cancel_eq:
  assumes "tid \<noteq> []"
  shows "update_task_status now (Some tid) ''cancelled'' None None None rows =
     (Inr (\<exists>t\<in>set rows. task_id t = tid),
      map (\<lambda>t. if task_id t = tid then t\<lparr>t_status := ''cancelled''\<rparr> else t) rows)"
  using assms
  by (auto simp: update_task_status_def build_update_clauses_def Let_def opt_clause_def
      sql_update_def filter_empty_conv)

lemma cancel_empty:
  "update_task_status now (Some []) ''cancelled'' None None None rows =
     (Inl (Exc OperationalErr ''incomplete input''), rows)"
  by (simp add: update_task_status_def build_update_clauses_def Let_def opt_clause_def)

lemma finish_row_fields [simp]:
  "task_id (finish_row now st rp em t) = task_id t"
  "t_status (finish_row now st rp em t) = st"
  "completed_at (finish_row now st rp em t) = Some now"
  "worker_id (finish_row now st rp em t) = worker_id t"
  "started_at (finish_row now st rp em t) = started_at t"
  "retry_count (finish_row now st rp em t) = retry_count t"
  by (auto simp: finish_row_def Let_def split: option.splits list.splits)

lemma finish_update:
  "st = ''completed'' \<or> st = ''failed'' \<Longrightarrow> w \<noteq> [] \<Longrightarrow>
   snd (update_task_status now (Some tid) st rp em (Some w) rows) =
     snd (sql_update (finishes tid w) (finish_row now st rp em) rows)"
  by (simp add: finish_eq sql_update_def)

lemma cancel_update:
  obtains "snd (update_task_status now (Some tid) ''cancelled'' None None None rows) = rows"
  | "snd (update_task_status now (Some tid) ''cancelled'' None None None rows) =
      snd (sql_update (\<lambda>t. task_id t = tid) (\<lambda>t. t\<lparr>t_status := ''cancelled''\<rparr>) rows)"
  by (cases "tid = []") (auto simp: cancel_empty cancel_eq sql_update_def)


lemma cleanup_files_loop_induct:
  assumes "I rows"
    and "\<And>r i. I r \<Longrightarrow> I (snd (sql_update (\<lambda>u. task_id u = i) (\<lambda>u. u\<lparr>result_path := None\<rparr>) r))"
  shows "I (fst (snd (cleanup_files_loop rm_ok ts rows dirs n)))"
  using assms(1)
  by (induction rm_ok ts rows dirs n rule: cleanup_files_loop.induct)
    (auto split: option.splits intro: assms(2))

section \<open>Every step keeps the invariant and the order of states\<close>

lemma create_rows_ok: "rows_ok rows \<Longrightarrow> rows_ok (snd (create_task rt uid now fn fp b opts prio rows))"
  by (auto simp: create_task_def rows_ok_def pk_ok_def row_ok_def)

lemma row_ok_claim: "row_ok t \<Longrightarrow> has_status ''pending'' t \<Longrightarrow> row_ok (claim_row now w t)"
  by (simp add: row_ok_def claim_row_def has_status_def)

lemma row_ok_finish:
  "row_ok t \<Longrightarrow> finishes tid w t \<Longrightarrow> st = ''completed'' \<or> st = ''failed'' \<Longrightarrow>
   row_ok (finish_row now st rp em t)"
  by (auto simp: row_ok_def finishes_def)

lemma db_step_rows_ok: "db_step rows rows' \<Longrightarrow> rows_ok rows \<Longrightarrow> rows_ok rows'"
proof (induction rule: db_step.induct)
  case (create rows rt uid now fn fp b opts prio)
  then show ?case by (rule create_rows_ok)
next
  case (claim pick rows now w n)
  show ?case
  proof (rule get_next_task_update [OF claim(1), of now w n rows])
    assume "snd (get_next_task pick now w n rows) = rows"
    with claim(2) show ?thesis by simp
  next
    fix i
    assume e: "snd (get_next_task pick now w n rows) =
      snd (sql_update (\<lambda>u. task_id u = i \<and> has_status ''pending'' u) (claim_row now w) rows)"
    from claim(2) show ?thesis
      unfolding e by (intro rows_ok_update) (simp_all add: row_ok_claim)
  qed
next
  case (finish st w rows now tid rp em)
  then show ?case
    unfolding finish_update [OF finish(1,2)] by (intro rows_ok_update) (simp_all add: row_ok_finish)
next
  case (cancel rows now tid)
  show ?case
    by (rule cancel_update [of now tid rows])
      (use cancel in \<open>auto intro!: rows_ok_update simp: row_ok_def\<close>)
next
  case (reset_stale rows now m)
  then show ?case
    unfolding reset_stale_tasks_def
    by (intro rows_ok_update) (auto simp: row_ok_def has_status_def)
next
  case (clean_files rows rm_ok now d dirs)
  then show ?case
    unfolding cleanup_old_task_files_def
    by (rule cleanup_files_loop_induct) (auto intro!: rows_ok_update simp: row_ok_def)
next
  case (clean_records rows now d)
  then show ?case
    by (simp add: cleanup_old_task_records_def Let_def rows_ok_filter)
qed

lemma reachable_rows_ok: "reachable_rows rows \<Longrightarrow> rows_ok rows"
proof (induction rule: reachable_rows.induct)
  case empty
  show ?case by (simp add: rows_ok_def pk_ok_def)
next
  case (step rows rows')
  then show ?case by (blast intro: db_step_rows_ok)
qed

lemma clear_keeps_ids_status:
  "map (\<lambda>t. (task_id t, t_status t))
     (snd (sql_update (\<lambda>u. task_id u = i) (\<lambda>u. u\<lparr>result_path := None\<rparr>) r)) =
   map (\<lambda>t. (task_id t, t_status t)) r"
  by (auto simp: sql_update_def)

lemma evolves_same_ids_status:
  assumes "map (\<lambda>t. (task_id t, t_status t)) rows' = map (\<lambda>t. (task_id t, t_status t)) rows"
  shows "evolves rows rows'"
  unfolding evolves_def
proof (intro ballI disjI2)
  fix t'
  assume "t' \<in> set rows'"
  then have "(task_id t', t_status t') \<in> (\<lambda>t. (task_id t, t_status t)) ` set rows'" by (rule imageI)
  also have "\<dots> = (\<lambda>t. (task_id t, t_status t)) ` set rows"
    using assms by (metis set_map)
  finally obtain t where "t \<in> set rows" "task_id t' = task_id t" "t_status t' = t_status t"
    by auto
  then show "\<exists>t\<in>set rows. task_id t' = task_id t \<and> allowed (t_status t) (t_status t')"
    by (intro bexI [of _ t]) simp_all
qed

lemma db_step_evolves: "db_step rows rows' \<Longrightarrow> evolves rows rows'"
proof (induction rule: db_step.induct)
  case (create rows rt uid now fn fp b opts prio)
  show ?case by (force simp: create_task_def evolves_def)
next
  case (claim pick rows now w n)
  show ?case
  proof (rule get_next_task_update [OF claim, of now w n rows])
    assume "snd (get_next_task pick now w n rows) = rows"
    then show ?thesis by (simp add: evolves_refl)
  next
    fix i
    assume e: "snd (get_next_task pick now w n rows) =
      snd (sql_update (\<lambda>u. task_id u = i \<and> has_status ''pending'' u) (claim_row now w) rows)"
    show ?thesis unfolding e
      by (rule evolves_update) (auto simp: has_status_def allowed_def)
  qed
next
  case (finish st w rows now tid rp em)
  then show ?case
    unfolding finish_update [OF finish(1,2)]
    by (intro evolves_update) (auto simp: finishes_def allowed_def)
next
  case (cancel rows now tid)
  show ?case
    by (rule cancel_update [of now tid rows])
      (auto intro!: evolves_update simp: allowed_def)
next
  case (reset_stale rows now m)
  show ?case
    unfolding reset_stale_tasks_def
    by (rule evolves_update) (auto simp: has_status_def allowed_def)
next
  case (clean_files rows rm_ok now d dirs)
  have "map (\<lambda>t. (task_id t, t_status t)) (fst (snd (cleanup_old_task_files rm_ok now d rows dirs)))
      = map (\<lambda>t. (task_id t, t_status t)) rows"
    unfolding cleanup_old_task_files_def
    by (rule cleanup_files_loop_induct) (simp_all add: clear_keeps_ids_status)
  then show ?case by (rule evolves_same_ids_status)
next
  case (clean_records rows now d)
  show ?case by (simp add: cleanup_old_task_records_def Let_def evolves_filter)
qed

inductive_cases db_stepE: "db_step rows rows'"

end
