(* ===== verification/Tianshu.thy ===== *)
theory Tianshu
  imports TaskLife
begin

text \<open>
  The processes around the task database: a worker (\<^verbatim>\<open>litserve_worker.py\<close>), the scheduler
  (\<^verbatim>\<open>task_scheduler.py\<close>) and the HTTP handlers that touch tasks (\<^verbatim>\<open>api_server.py\<close>).  Their state is
  the table, the temporary files and the result directories.  What lies outside the
  repository is in \<open>tenv\<close>: the document parsers, the file-system calls that can fail, the
  health request, and what other processes do to the table while a task is parsed (\<open>te_during\<close>), between a failure
  and its report (\<open>te_failing\<close>) and while the scheduler sleeps (\<open>te_sleep\<close>).
\<close>

section \<open>State and environment\<close>

record tianshu =
  ts_rows :: rows
  ts_files :: "string list"
  ts_dirs :: "string list"

record tenv =
  rt :: pyrt
  te_pick :: "task list \<Rightarrow> task"
  out_dir :: string
  mkdir_res :: "string \<Rightarrow> unit res"
  parse_res :: "task \<Rightarrow> pyval \<Rightarrow> unit res"
  unlink_ok :: "string \<Rightarrow> bool"
  rmtree_ok :: "string \<Rightarrow> bool"
  te_during :: "rows \<Rightarrow> rows"
  te_failing :: "rows \<Rightarrow> rows"
  te_sleep :: "int \<Rightarrow> rows \<Rightarrow> rows"

definition output_path :: "tenv \<Rightarrow> string \<Rightarrow> string" where
  "output_path env tid = out_dir env @ ''/'' @ tid"

definition unlink :: "string \<Rightarrow> tianshu \<Rightarrow> tianshu" where
  "unlink p s = s\<lparr>ts_files := filter (\<lambda>f. f \<noteq> p) (ts_files s)\<rparr>"

definition add_dir :: "string \<Rightarrow> tianshu \<Rightarrow> tianshu" where
  "add_dir p s = (if p \<in> set (ts_dirs s) then s else s\<lparr>ts_dirs := ts_dirs s @ [p]\<rparr>)"

definition others :: "(rows \<Rightarrow> rows) \<Rightarrow> tianshu \<Rightarrow> tianshu" where
  "others f s = s\<lparr>ts_rows := f (ts_rows s)\<rparr>"

definition db_call :: "(rows \<Rightarrow> 'a res \<times> rows) \<Rightarrow> (tianshu, 'a) meth" where
  "db_call f = (\<lambda>s. case f (ts_rows s) of (r, rows) \<Rightarrow> (r, s\<lparr>ts_rows := rows\<rparr>))"

section \<open>The worker\<close>

text \<open>The \<open>try\<close> block of \<open>_process_task\<close>: directory, parser, final report.\<close>

definition process_body :: "tenv \<Rightarrow> int \<Rightarrow> string \<Rightarrow> task \<Rightarrow> pyval \<Rightarrow> (tianshu, unit) meth" where
  "process_body env now w t options =
     seqM (liftM (mkdir_res env (output_path env (task_id t))))
    (seqM (modM (add_dir (output_path env (task_id t))))
    (seqM (modM (others (te_during env)))
    (seqM (liftM (parse_res env t options))
    (bindM (db_call (update_task_status now (Some (task_id t)) ''completed''
              (Some (output_path env (task_id t))) None (Some w)))
       (\<lambda>success. retM ())))))"

text \<open>\<open>finally\<close>: the temporary file is removed on every path; a failure is logged.\<close>

definition remove_temp_file :: "tenv \<Rightarrow> task \<Rightarrow> tianshu \<Rightarrow> tianshu" where
  "remove_temp_file env t s =
     (if file_path t \<in> set (ts_files s) \<and> unlink_ok env (file_path t)
      then unlink (file_path t) s else s)"

definition process_task :: "tenv \<Rightarrow> int \<Rightarrow> string \<Rightarrow> task \<Rightarrow> (tianshu, unit) meth" where
  "process_task env now w t =
     (\<lambda>s. case json_loads (rt env) (t_options t) of
            None \<Rightarrow> (Inl (Exc JSONDecodeErr ''Expecting value''), s)
          | Some options \<Rightarrow>
              (case process_body env now w t options s of
                 (r, s') \<Rightarrow> (r, remove_temp_file env t s')))"

text \<open>
  One turn of \<open>_worker_loop\<close>: claim at \<open>now0\<close>, process, and report a failure at \<open>now1\<close>;
  the first component is the idle counter.  A report the database rejects, because another process has the task by
  then, is only logged.
\<close>

definition worker_turn :: "tenv \<Rightarrow> int \<Rightarrow> int \<Rightarrow> string \<Rightarrow> nat \<Rightarrow> tianshu \<Rightarrow> nat \<times> tianshu" where
  "worker_turn env now0 now1 w idle s =
     (case get_next_task (te_pick env) now0 w 3 (ts_rows s) of
        (None, rows) \<Rightarrow> (Suc idle, s\<lparr>ts_rows := rows\<rparr>)
      | (Some t, rows) \<Rightarrow>
          (case process_task env now1 w t (s\<lparr>ts_rows := rows\<rparr>) of
             (Inr _, s') \<Rightarrow> (0, s')
           | (Inl e, s') \<Rightarrow>
               (0, snd (db_call (update_task_status now1 (Some (task_id t)) ''failed'' None
                          (Some (exc_msg e)) (Some w)) (others (te_failing env) s')))))"

text \<open>\<open>predict\<close>: the HTTP interface of a worker\<close>

datatype predict_reply =
    Healthy "(string \<times> nat) list"
  | PollIdle
  | PollCompleted string
  | PollFailed string string
  | AutoMode
  | InvalidAction string

definition predict ::
  "tenv \<Rightarrow> bool \<Rightarrow> int \<Rightarrow> int \<Rightarrow> string \<Rightarrow> string \<Rightarrow> tianshu \<Rightarrow> predict_reply \<times> tianshu" where
  "predict env enable_worker_loop now0 now1 w action s =
     (if action = ''health'' then (Healthy (get_queue_stats (ts_rows s)), s)
      else if action = ''poll'' then
        (if \<not> enable_worker_loop then
           (case get_next_task (te_pick env) now0 w 3 (ts_rows s) of
              (None, rows) \<Rightarrow> (PollIdle, s\<lparr>ts_rows := rows\<rparr>)
            | (Some t, rows) \<Rightarrow>
                (case process_task env now1 w t (s\<lparr>ts_rows := rows\<rparr>) of
                   (Inr _, s') \<Rightarrow> (PollCompleted (task_id t), s')
                 | (Inl e, s') \<Rightarrow> (PollFailed (task_id t) (exc_msg e), s')))
         else (AutoMode, s))
      else (InvalidAction action, s))"

section \<open>The scheduler\<close>

record sched_conf =
  monitor_interval :: int
  health_check_interval :: int
  stale_task_timeout :: int
  cleanup_old_files_days :: int
  cleanup_old_records_days :: int

record sched_counters =
  health_check_counter :: int
  stale_task_counter :: int
  cleanup_counter :: int

text \<open>
  What one turn of \<open>schedule_loop\<close> did, beyond the database: whether it asked the workers for
  their health.  The turn ends with the exception, if any, that its handler logs; the
  counters and the rows keep what was done before it.
\<close>

definition sched_stale :: "sched_conf \<Rightarrow> int \<Rightarrow> sched_counters \<times> tianshu \<Rightarrow> sched_counters \<times> tianshu" where
  "sched_stale c now cs =
     (case cs of (k, s) \<Rightarrow>
        let n = stale_task_counter k + 1
        in if stale_task_timeout c * 60 \<le> n * monitor_interval c
           then (k\<lparr>stale_task_counter := 0\<rparr>,
                 s\<lparr>ts_rows := snd (reset_stale_tasks now (stale_task_timeout c) (ts_rows s))\<rparr>)
           else (k\<lparr>stale_task_counter := n\<rparr>, s))"

definition sched_clean_files :: "tenv \<Rightarrow> sched_conf \<Rightarrow> int \<Rightarrow> tianshu \<Rightarrow> tianshu" where
  "sched_clean_files env c now s =
     (if 0 < cleanup_old_files_days c
      then (case cleanup_old_task_files (rmtree_ok env) now (cleanup_old_files_days c)
                   (ts_rows s) (ts_dirs s) of
              (n, rows, dirs) \<Rightarrow> s\<lparr>ts_rows := rows, ts_dirs := dirs\<rparr>)
      else s)"

definition sched_clean_records :: "sched_conf \<Rightarrow> int \<Rightarrow> tianshu \<Rightarrow> tianshu" where
  "sched_clean_records c now s =
     (if 0 < cleanup_old_records_days c
      then s\<lparr>ts_rows := snd (cleanup_old_task_records now (cleanup_old_records_days c) (ts_rows s))\<rparr>
      else s)"

definition sched_cleanup ::
  "tenv \<Rightarrow> sched_conf \<Rightarrow> int \<Rightarrow> sched_counters \<times> tianshu \<Rightarrow> unit res \<times> sched_counters \<times> tianshu" where
  "sched_cleanup env c now cs =
     (case cs of (k, s) \<Rightarrow>
        let n = cleanup_counter k + 1
        in if monitor_interval c = 0
           then (Inl (Exc ZeroDivisionErr ''division by zero''), k\<lparr>cleanup_counter := n\<rparr>, s)
           else if fround (rt env) (of_int (24 * 3600) / of_int (monitor_interval c)) \<le> of_int n
           then (Inr (), k\<lparr>cleanup_counter := 0\<rparr>,
                 sched_clean_records c now (sched_clean_files env c now s))
           else (Inr (), k\<lparr>cleanup_counter := n\<rparr>, s))"

definition sched_turn ::
  "tenv \<Rightarrow> sched_conf \<Rightarrow> int \<Rightarrow> sched_counters \<Rightarrow> tianshu \<Rightarrow>
     (bool \<times> unit res) \<times> sched_counters \<times> tianshu" where
  "sched_turn env c now k s =
     (let h = health_check_counter k + 1;
          checked = (health_check_interval c \<le> h * monitor_interval c);
          k1 = k\<lparr>health_check_counter := (if checked then 0 else h)\<rparr>
      in case sched_cleanup env c now (sched_stale c now (k1, s)) of
           (r, k2, s2) \<Rightarrow> ((checked, r), k2, s2))"

text \<open>
  \<open>n\<close> turns, the clock advancing by the monitor interval between them (the sleep at the end
  of a turn, during which other processes change the rows): the \<open>while self.running\<close> loop stopped after \<open>n\<close> turns.
\<close>

fun sched_run ::
  "nat \<Rightarrow> tenv \<Rightarrow> sched_conf \<Rightarrow> int \<Rightarrow> sched_counters \<Rightarrow> tianshu \<Rightarrow> sched_counters \<times> tianshu" where
  "sched_run 0 env c now k s = (k, s)"
| "sched_run (Suc n) env c now k s =
     (case sched_turn env c now k s of
        (_, k', s') \<Rightarrow> sched_run n env c (now + monitor_interval c) k' (others (te_sleep env now) s'))"

section \<open>HTTP handlers\<close>

datatype http_err = HTTPException nat string

datatype 'a http = Ok 'a | HttpError http_err | ServerError pyexc

text \<open>
  \<open>DELETE /tasks/{id}\<close>: the row is read, then updated, in two transactions; \<open>between\<close> is what
  other processes do to the rows in between.
\<close>

definition cancel_task ::
  "tenv \<Rightarrow> int \<Rightarrow> (rows \<Rightarrow> rows) \<Rightarrow> string \<Rightarrow> tianshu \<Rightarrow> unit http \<times> tianshu" where
  "cancel_task env now between tid s =
     (case get_task tid (ts_rows s) of
        None \<Rightarrow> (HttpError (HTTPException 404 ''Task not found''), s)
      | Some t \<Rightarrow>
          if t_status t = ''pending'' then
            (case update_task_status now (Some tid) ''cancelled'' None None None
                    (between (ts_rows s)) of
               (Inl e, rows) \<Rightarrow> (ServerError e, s\<lparr>ts_rows := rows\<rparr>)
             | (Inr _, rows) \<Rightarrow>
                 if file_path t \<notin> set (ts_files s) then (Ok (), s\<lparr>ts_rows := rows\<rparr>)
                 else if unlink_ok env (file_path t)
                 then (Ok (), unlink (file_path t) (s\<lparr>ts_rows := rows\<rparr>))
                 else (ServerError (Exc PlainException ''unlink''), s\<lparr>ts_rows := rows\<rparr>))
          else (HttpError (HTTPException 400
                  (''Cannot cancel task in '' @ t_status t @ '' status'')), s))"

definition queue_stats_handler :: "rows \<Rightarrow> (string \<times> nat) list \<times> nat" where
  "queue_stats_handler rows =
     (get_queue_stats rows, sum_list (map snd (get_queue_stats rows)))"

definition list_tasks :: "string option \<Rightarrow> int \<Rightarrow> rows \<Rightarrow> nat \<times> rows" where
  "list_tasks st limit rows =
     (let tasks = (case st of
                     Some (c # cs) \<Rightarrow> get_tasks_by_status (c # cs) limit rows
                   | _ \<Rightarrow> (let found = sort_key (\<lambda>t. - created_at t) rows
                           in if limit < 0 then found else take (nat limit) found))
      in (length tasks, tasks))"

text \<open>\<open>POST /admin/cleanup\<close> calls \<open>db.cleanup_old_tasks\<close>, a method \<open>TaskDB\<close> does not have.\<close>

definition taskdb_methods :: "string list" where
  "taskdb_methods =
     [''_get_conn'', ''get_cursor'', ''_init_db'', ''create_task'', ''get_next_task'',
      ''_build_update_clauses'', ''update_task_status'', ''get_task'', ''get_queue_stats'',
      ''get_tasks_by_status'', ''cleanup_old_task_files'', ''cleanup_old_task_records'',
      ''reset_stale_tasks'']"

definition admin_cleanup :: "int \<Rightarrow> int \<Rightarrow> rows \<Rightarrow> nat http \<times> rows" where
  "admin_cleanup now days rows =
     (if ''cleanup_old_tasks'' \<in> set taskdb_methods
      then (case cleanup_old_task_records now days rows of (n, rows') \<Rightarrow> (Ok n, rows'))
      else (ServerError (Exc AttributeErr ''TaskDB object has no attribute cleanup_old_tasks''), rows))"

definition admin_reset_stale :: "int \<Rightarrow> int \<Rightarrow> rows \<Rightarrow> nat http \<times> rows" where
  "admin_reset_stale now timeout_minutes rows =
     (case reset_stale_tasks now timeout_minutes rows of (n, rows') \<Rightarrow> (Ok n, rows'))"

end
