(* ===== verification/TianshuSpec.thy ===== *)
theory TianshuSpec
  imports Tianshu
begin

text \<open>
  The properties of the task queue: claiming, the life of a task, races between a worker and
  other writers, the worker's turn and the scheduler's counters.
\<close>

section \<open>Claiming\<close>

lemma claim_rows_unique:
  assumes "pk_ok rows" and "t \<in> set rows" and "has_status ''pending'' t"
  shows "map (\<lambda>u. if task_id u = task_id t \<and> has_status ''pending'' u then f u else u) rows =
     map (\<lambda>u. if u = t then f u else u) rows"
  using assms unique_row [OF assms(1) _ assms(2)] by (auto intro!: map_cong)

text \<open>C1: claiming returns a pending task that no pending task outranks (higher priority, then
  older), moves exactly that row to processing for the claiming worker, and returns nothing and
  changes nothing only when no task is pending, whatever row SQLite picks among equals.\<close>

theorem claim_spec:
  assumes "picks pick" and "pk_ok rows" and "0 < n"
  shows "case get_next_task pick now w n rows of
      (None, rows') \<Rightarrow> pending rows = [] \<and> rows' = rows
    | (Some t, rows') \<Rightarrow> t \<in> set rows \<and> t_status t = ''pending'' \<and>
        (\<forall>u\<in>set rows. t_status u = ''pending'' \<longrightarrow> rank_of t \<le> rank_of u) \<and>
        rows' = map (\<lambda>u. if u = t then u\<lparr>t_status := ''processing'', started_at := Some now,
                                         worker_id := Some w\<rparr> else u) rows"
proof (cases "heads rows = []")
  case True
  with assms(1) show ?thesis
    by (simp add: row_picker.get_next_task_none picks_row_picker heads_empty_iff)
next
  case False
  let ?t = "pick (heads rows)"
  have "?t \<in> set (heads rows)" using assms(1) False by (simp add: picks_def)
  then have t: "?t \<in> set rows" "has_status ''pending'' ?t"
    "\<forall>u\<in>set rows. has_status ''pending'' u \<longrightarrow> rank_of ?t \<le> rank_of u"
    by (simp_all add: set_heads)
  have "get_next_task pick now w n rows =
     (Some ?t, map (\<lambda>u. if u = ?t then claim_row now w u else u) rows)"
    using row_picker.get_next_task_some [OF assms(1) [unfolded picks_row_picker] assms(3) False]
      claim_rows_unique [OF assms(2) t(1,2)] by simp
  with t show ?thesis
    by (simp add: has_status_def claim_row_def cong: if_cong)
qed

definition demo_task :: "string \<Rightarrow> int \<Rightarrow> int \<Rightarrow> task" where
  "demo_task i prio tm = \<lparr> task_id = i, file_name = ''f'', file_path = ''/tmp/'' @ i,
     t_status = ''pending'', t_priority = prio, backend = ''pipeline'', t_options = ''{}'',
     result_path = None, error_message = None, created_at = tm, started_at = None,
     completed_at = None, worker_id = None, retry_count = 0 \<rparr>"

lemma demo_task_sel [simp]:
  "task_id (demo_task i p a) = i" "t_status (demo_task i p a) = ''pending''"
  "t_priority (demo_task i p a) = p" "created_at (demo_task i p a) = a"
  "worker_id (demo_task i p a) = None" "started_at (demo_task i p a) = None"
  "completed_at (demo_task i p a) = None" "file_path (demo_task i p a) = ''/tmp/'' @ i"
  "t_options (demo_task i p a) = ''{}''" "result_path (demo_task i p a) = None"
  "retry_count (demo_task i p a) = 0"
  by (simp_all add: demo_task_def)

definition demo_rows :: rows where
  "demo_rows = [demo_task ''a'' 0 1, demo_task ''b'' 5 9]"

lemma demo_pk: "pk_ok demo_rows"
  by (simp add: pk_ok_def demo_rows_def)

lemma picks_hd: "picks hd"
  by (simp add: picks_def)

theorem claim_spec_witness:
  "picks hd \<and> pk_ok demo_rows \<and>
   fst (get_next_task hd 100 ''w1'' 3 demo_rows) = Some (demo_task ''b'' 5 9) \<and>
   (case get_next_task hd 100 ''w1'' 3 demo_rows of
      (None, rows') \<Rightarrow> pending demo_rows = [] \<and> rows' = demo_rows
    | (Some t, rows') \<Rightarrow> t \<in> set demo_rows \<and> t_status t = ''pending'' \<and>
        (\<forall>u\<in>set demo_rows. t_status u = ''pending'' \<longrightarrow> rank_of t \<le> rank_of u) \<and>
        rows' = map (\<lambda>u. if u = t then u\<lparr>t_status := ''processing'', started_at := Some 100,
                                         worker_id := Some ''w1''\<rparr> else u) demo_rows)"
proof -
  have "heads demo_rows = [demo_task ''b'' 5 9]"
    by (simp add: heads_def pending_def demo_rows_def has_status_def rank_of_def less_eq_rank_def)
  then have "fst (get_next_task hd 100 ''w1'' 3 demo_rows) = Some (demo_task ''b'' 5 9)"
    by (simp add: first_row.get_next_task_some)
  then show ?thesis
    using claim_spec [OF picks_hd demo_pk, where n = 3 and now = 100 and w = "''w1''"] picks_hd demo_pk by simp
qed

text \<open>Any number of workers claiming one after the other, each at its own time.\<close>

fun claim_run ::
  "(task list \<Rightarrow> task) \<Rightarrow> (string \<times> int) list \<Rightarrow> rows \<Rightarrow> task option list \<times> rows" where
  "claim_run pick [] rows = ([], rows)"
| "claim_run pick ((w, now) # ws) rows =
     (case get_next_task pick now w 3 rows of
        (r, rows1) \<Rightarrow> (case claim_run pick ws rows1 of (rs, rows2) \<Rightarrow> (r # rs, rows2)))"

definition claimed_ids :: "task option list \<Rightarrow> string list" where
  "claimed_ids rs = map task_id (List.map_filter id rs)"

context row_picker
begin

lemma claim_run_queue: "claim_run pick ws rows = queue.claims ws rows"
  by (induction ws arbitrary: rows) (auto split: prod.split)

lemma claimed_ids_queue: "claimed_ids rs = queue.handed_out rs"
  by (simp add: claimed_ids_def queue.handed_out_def)

lemma claim_run_distinct: "pk_ok rows \<Longrightarrow> distinct (claimed_ids (fst (claim_run pick ws rows)))"
  unfolding claim_run_queue claimed_ids_queue by (rule queue.no_task_twice)

lemma claim_run_all:
  "pk_ok rows \<Longrightarrow> card (pending_ids rows) \<le> length ws \<Longrightarrow>
   set (claimed_ids (fst (claim_run pick ws rows))) = pending_ids rows"
  unfolding claim_run_queue claimed_ids_queue
  by (rule queue.all_handed_out) (simp_all add: pending_ids_def)

end

text \<open>C2: however many workers claim, no task is handed to two of them; and as many claims as
  there are pending tasks hand out every one of them.\<close>

theorem no_double_claim:
  assumes "picks pick" and "pk_ok rows"
  shows "distinct (claimed_ids (fst (claim_run pick ws rows))) \<and>
     (card (pending_ids rows) \<le> length ws \<longrightarrow>
        set (claimed_ids (fst (claim_run pick ws rows))) = pending_ids rows)"
  using assms row_picker.claim_run_distinct row_picker.claim_run_all
  unfolding picks_row_picker by blast

theorem no_double_claim_witness:
  "picks hd \<and> pk_ok demo_rows \<and>
   distinct (claimed_ids (fst (claim_run hd [(''w1'', 10), (''w2'', 11)] demo_rows))) \<and>
   set (claimed_ids (fst (claim_run hd [(''w1'', 10), (''w2'', 11)] demo_rows))) = {''a'', ''b''}"
proof -
  have ids: "pending_ids demo_rows = {''a'', ''b''}"
    by (auto simp: pending_ids_def pending_def demo_rows_def has_status_def)
  then have "card (pending_ids demo_rows) \<le> length [(''w1'', 10::int), (''w2'', 11)]" by simp
  then show ?thesis
    using no_double_claim [OF picks_hd demo_pk, of "[(''w1'', 10), (''w2'', 11)]"] picks_hd demo_pk
    unfolding ids by blast
qed

section \<open>The life of a task\<close>

text \<open>C5: in every reachable database ids are unique and the columns of each row agree with its status
  (a processing row has its worker and start time, a finished one its completion time, a
  pending one no worker), and no call moves a row against the order pending, processing,
  finished, except back to pending by the stale reset and to cancelled.\<close>

theorem task_life:
  assumes "reachable_rows rows" and "db_step rows rows'"
  shows "pk_ok rows' \<and> list_all row_ok rows' \<and>
     (\<forall>t\<in>set rows. \<forall>t'\<in>set rows'. task_id t' = task_id t \<longrightarrow> allowed (t_status t) (t_status t'))"
proof -
  have ok: "rows_ok rows" using assms(1) by (rule reachable_rows_ok)
  with assms(2) have "rows_ok rows'" by (blast intro: db_step_rows_ok)
  moreover have "allowed (t_status t) (t_status t')"
    if "t \<in> set rows" "t' \<in> set rows'" "task_id t' = task_id t" for t t'
  proof -
    from db_step_evolves [OF assms(2)] that obtain u
      where u: "u \<in> set rows" "task_id t' = task_id u" "allowed (t_status u) (t_status t')"
      unfolding evolves_def by (metis imageI)
    from ok that u have "u = t" by (auto simp: rows_ok_def dest: unique_row)
    with u show ?thesis by simp
  qed
  ultimately show ?thesis by (simp add: rows_ok_def)
qed

definition demo_rt :: pyrt where
  "demo_rt = \<lparr> fround = id, frepr = (\<lambda>_. ''0.0''), fparse = (\<lambda>_. None),
     json_loads = (\<lambda>s. if s = ''{}'' then Some (PDict []) else None), literal_eval = (\<lambda>_. None) \<rparr>"

theorem task_life_witness:
  "\<exists>rows rows'. reachable_rows rows \<and> db_step rows rows' \<and> rows \<noteq> [] \<and> rows' \<noteq> rows \<and> pk_ok rows' \<and> list_all row_ok rows'"
proof -
  let ?r1 = "snd (create_task demo_rt ''a'' 1 ''f'' ''p'' ''pipeline'' PNone 0 [])"
  let ?r2 = "snd (get_next_task hd 2 ''w'' 3 ?r1)"
  have r1: "reachable_rows ?r1"
    by (rule reachable_rows.step [OF reachable_rows.empty db_step.create])
  have s2: "db_step ?r1 ?r2" by (rule db_step.claim [OF picks_hd])
  have "?r1 \<noteq> []" by (simp add: create_task_def)
  moreover have "?r2 \<noteq> ?r1"
    by (simp add: create_task_def get_next_task_def heads_def pending_def has_status_def
        sql_update_def claim_row_def eval_nat_numeral)
  ultimately show ?thesis using task_life [OF r1 s2] r1 s2 by blast
qed

section \<open>Races\<close>

lemma claimed_row:
  assumes "picks pick" and "pk_ok rows" and "0 < n" and "get_next_task pick now w n rows = (Some t, rows1)"
  shows "t \<in> set rows \<and> t_status t = ''pending'' \<and>
     rows1 = map (\<lambda>u. if u = t then claim_row now w u else u) rows"
proof -
  have ne: "heads rows \<noteq> []"
    using assms(1,4) by (auto simp: row_picker.get_next_task_none picks_row_picker)
  note eq = assms(4) [unfolded row_picker.get_next_task_some [OF assms(1) [unfolded picks_row_picker] assms(3) ne]
      prod.inject option.inject]
  have "pick (heads rows) \<in> set (heads rows)" using assms(1) ne by (simp add: picks_def)
  with eq have t: "t \<in> set rows" "has_status ''pending'' t" by (auto simp: set_heads)
  with eq claim_rows_unique [OF assms(2) t] show ?thesis by (auto simp: has_status_def)
qed

lemma get_task_unique: "pk_ok rows \<Longrightarrow> t \<in> set rows \<Longrightarrow> get_task (task_id t) rows = Some t"
  unfolding get_task_def
proof (induction rows)
  case (Cons u us)
  then show ?case by (cases "task_id u = task_id t") (auto simp: pk_ok_def)
qed simp

lemma pk_ok_map: "pk_ok rows \<Longrightarrow> (\<And>u. task_id (f u) = task_id u) \<Longrightarrow> pk_ok (map f rows)"
  by (simp add: pk_ok_def comp_def)

text \<open>A cancellation that read the row as pending but writes after a worker claimed it wins: the
  write succeeds, and the worker's later report is refused and changes nothing.\<close>

theorem cancel_beats_worker:
  assumes "picks pick" and "pk_ok rows" and "w \<noteq> []"
    and "get_next_task pick now w 3 rows = (Some t, rows1)" and "task_id t \<noteq> []"
    and "st = ''completed'' \<or> st = ''failed''"
  shows "get_task (task_id t) rows = Some t \<and> t_status t = ''pending'' \<and>
     (case update_task_status now1 (Some (task_id t)) ''cancelled'' None None None rows1 of
        (r1, rows2) \<Rightarrow> r1 = Inr True \<and>
          (\<exists>u. get_task (task_id t) rows2 = Some u \<and> t_status u = ''cancelled'' \<and> worker_id u = Some w) \<and>
          update_task_status now2 (Some (task_id t)) st rp em (Some w) rows2 = (Inr False, rows2))"
proof -
  from claimed_row [OF assms(1,2) _ assms(4)] have t: "t \<in> set rows" "t_status t = ''pending''"
    and r1: "rows1 = map (\<lambda>u. if u = t then claim_row now w u else u) rows" by simp_all
  define c where "c = (\<lambda>u. u\<lparr>t_status := ''cancelled''\<rparr> :: task)"
  define rows2 where "rows2 = map (\<lambda>u. if task_id u = task_id t then c u else u) rows1"
  have pk1: "pk_ok rows1" unfolding r1 by (rule pk_ok_map [OF assms(2)]) simp
  have pk2: "pk_ok rows2" unfolding rows2_def by (rule pk_ok_map [OF pk1]) (simp add: c_def)
  have t1: "claim_row now w t \<in> set rows1" using t(1) by (auto simp: r1 image_iff)
  then have t2: "c (claim_row now w t) \<in> set rows2" by (auto simp: rows2_def image_iff)
  have upd: "update_task_status now1 (Some (task_id t)) ''cancelled'' None None None rows1 = (Inr True, rows2)"
    unfolding cancel_eq [OF assms(5)] rows2_def c_def
    using t1 by (auto intro: bexI [of _ "claim_row now w t"])
  have "get_task (task_id t) rows2 = Some (c (claim_row now w t))"
    using get_task_unique [OF pk2 t2] by (simp add: c_def)
  moreover have nof: "\<not> finishes (task_id t) w u" if "u \<in> set rows2" for u
    using that assms(5) by (auto simp: rows2_def finishes_def c_def)
  then have "update_task_status now2 (Some (task_id t)) st rp em (Some w) rows2 = (Inr False, rows2)"
    unfolding finish_eq [OF assms(6,3)] by (auto intro: map_idI)
  ultimately show ?thesis
    using get_task_unique [OF assms(2) t(1)] t(2) upd by (simp add: c_def claim_row_def)
qed

lemma demo_claim:
  "get_next_task hd 100 ''w1'' 3 demo_rows =
     (Some (demo_task ''b'' 5 9), [demo_task ''a'' 0 1, claim_row 100 ''w1'' (demo_task ''b'' 5 9)])"
proof -
  have "heads demo_rows = [demo_task ''b'' 5 9]"
    by (simp add: heads_def pending_def demo_rows_def has_status_def rank_of_def less_eq_rank_def)
  then show ?thesis
    by (simp add: first_row.get_next_task_some) (simp add: demo_rows_def has_status_def)
qed

theorem cancel_beats_worker_witness:
  "picks hd \<and> pk_ok demo_rows \<and>
   get_task ''b'' demo_rows = Some (demo_task ''b'' 5 9) \<and>
   (case update_task_status 101 (Some ''b'') ''cancelled'' None None None
           [demo_task ''a'' 0 1, claim_row 100 ''w1'' (demo_task ''b'' 5 9)] of
        (r1, rows2) \<Rightarrow> r1 = Inr True \<and>
          (\<exists>u. get_task ''b'' rows2 = Some u \<and> t_status u = ''cancelled'' \<and> worker_id u = Some ''w1'') \<and>
          update_task_status 102 (Some ''b'') ''completed'' (Some ''o'') None (Some ''w1'') rows2 =
            (Inr False, rows2))"
  using cancel_beats_worker [OF picks_hd demo_pk _ demo_claim, where st = "''completed''" and ?now1.0 = 101 and ?now2.0 = 102 and rp = "Some ''o''" and em = None]
    picks_hd demo_pk by simp

text \<open>A worker that no longer owns a task (its task was reset as stale and claimed by another
  worker) cannot close it: its report is refused and changes nothing, and the owner's report is
  accepted and closes the row.\<close>

theorem stale_worker_rejected:
  assumes "picks pick" and "pk_ok rows" and "v \<noteq> []" and "w \<noteq> []" and "v \<noteq> w" and "task_id t \<noteq> []"
    and "get_next_task pick now v 3 rows = (Some t, rows1)"
    and "st = ''completed'' \<or> st = ''failed''"
  shows "update_task_status now1 (Some (task_id t)) st rp em (Some w) rows1 = (Inr False, rows1) \<and>
     (case update_task_status now1 (Some (task_id t)) st rp em (Some v) rows1 of
        (r, rows2) \<Rightarrow> r = Inr True \<and>
          (\<exists>u. get_task (task_id t) rows2 = Some u \<and> t_status u = st \<and> completed_at u = Some now1))"
proof -
  from claimed_row [OF assms(1,2) _ assms(7)] have t: "t \<in> set rows"
    and r1: "rows1 = map (\<lambda>u. if u = t then claim_row now v u else u) rows" by simp_all
  have pk1: "pk_ok rows1" unfolding r1 by (rule pk_ok_map [OF assms(2)]) simp
  let ?t1 = "claim_row now v t"
  have t1: "?t1 \<in> set rows1" using t by (auto simp: r1 image_iff)
  have only: "u = ?t1" if "u \<in> set rows1" "task_id u = task_id t" for u
    using unique_row [OF pk1 that(1) t1] that(2) by simp
  have now: "\<not> finishes (task_id t) w u" if "u \<in> set rows1" for u
    using only [OF that] assms(5,6) by (auto simp: finishes_def claim_row_def)
  have yes: "finishes (task_id t) v ?t1" by (simp add: finishes_def claim_row_def)
  let ?rows2 = "map (\<lambda>u. if finishes (task_id t) v u then finish_row now1 st rp em u else u) rows1"
  have pk2: "pk_ok ?rows2" by (rule pk_ok_map [OF pk1]) simp
  have "finish_row now1 st rp em ?t1 \<in> set ?rows2" using t1 yes by (auto simp: image_iff)
  from get_task_unique [OF pk2 this]
  have g: "get_task (task_id t) ?rows2 = Some (finish_row now1 st rp em ?t1)" by simp
  have a: "update_task_status now1 (Some (task_id t)) st rp em (Some w) rows1 = (Inr False, rows1)"
    unfolding finish_eq [OF assms(8,4)] using now by (auto intro: map_idI)
  have b: "update_task_status now1 (Some (task_id t)) st rp em (Some v) rows1 = (Inr True, ?rows2)"
    unfolding finish_eq [OF assms(8,3)] using t1 yes by auto
  show ?thesis using g by (simp add: a b)
qed

theorem stale_worker_rejected_witness:
  "picks hd \<and> pk_ok demo_rows \<and>
   fst (update_task_status 101 (Some ''b'') ''completed'' (Some ''o'') None (Some ''w0'')
      [demo_task ''a'' 0 1, claim_row 100 ''w1'' (demo_task ''b'' 5 9)]) = Inr False"
  using stale_worker_rejected [OF picks_hd demo_pk _ _ _ _ demo_claim, where w = "''w0''" and st = "''completed''" and ?now1.0 = 101 and rp = "Some ''o''" and em = None]
    picks_hd demo_pk by simp

text \<open>With an empty task id the update is not refused: reporting completed or failed closes
  every task the worker is processing, and any other status raises the SQL error and changes nothing.\<close>

theorem update_without_task_id:
  assumes "w \<noteq> []"
  shows "update_task_status now (Some []) ''completed'' rp em (Some w) rows =
      (Inr (\<exists>t\<in>set rows. t_status t = ''processing'' \<and> worker_id t = Some w),
       map (\<lambda>t. if t_status t = ''processing'' \<and> worker_id t = Some w
                then finish_row now ''completed'' rp em t else t) rows) \<and>
    (st \<notin> {''completed'', ''failed''} \<longrightarrow>
      update_task_status now (Some []) st rp em (Some w) rows =
        (Inl (Exc OperationalErr ''incomplete input''), rows))"
proof -
  have fin: "finishes [] w t \<longleftrightarrow> t_status t = ''processing'' \<and> worker_id t = Some w" for t
    by (simp add: finishes_def)
  have "update_task_status now (Some []) st rp em (Some w) rows =
        (Inl (Exc OperationalErr ''incomplete input''), rows)"
    if "st \<notin> {''completed'', ''failed''}"
    using that by (simp add: update_task_status_def build_update_clauses_def Let_def opt_clause_def)
  then show ?thesis
    using finish_eq [of "''completed''" w now "[]" rp em rows] assms by (simp add: fin)
qed

theorem update_without_task_id_witness:
  "fst (update_task_status 7 (Some []) ''completed'' None None (Some ''w1'')
     [demo_task ''a'' 0 1, claim_row 100 ''w1'' (demo_task ''b'' 5 9)]) = Inr True"
  using update_without_task_id [of "''w1''" 7 None None
      "[demo_task ''a'' 0 1, claim_row 100 ''w1'' (demo_task ''b'' 5 9)]" "''pending''"]
  by (simp add: claim_row_def)

section \<open>The worker\<close>

lemma db_call_finish:
  assumes "st = ''completed'' \<or> st = ''failed''" and "w \<noteq> []"
  shows "db_call (update_task_status now (Some tid) st rp em (Some w)) s =
     (Inr (\<exists>t\<in>set (ts_rows s). finishes tid w t),
      s\<lparr>ts_rows := map (\<lambda>t. if finishes tid w t then finish_row now st rp em t else t) (ts_rows s)\<rparr>)"
  by (simp add: db_call_def finish_eq [OF assms])

lemma remove_temp_file_rows [simp]: "ts_rows (remove_temp_file env t s) = ts_rows s"
  by (simp add: remove_temp_file_def unlink_def)

lemma add_dir_rows [simp]: "ts_rows (add_dir p s) = ts_rows s"
  by (simp add: add_dir_def)

lemma others_rows [simp]: "ts_rows (others f s) = f (ts_rows s)"
  by (simp add: others_def)

text \<open>Processing either reports completion or raises, before or after the time the parser took.\<close>

lemma process_task_rows:
  assumes "w \<noteq> []" and "process_task env now w t s = (r, s')"
  shows "(\<exists>e. r = Inl e \<and> ts_rows s' \<in> {ts_rows s, te_during env (ts_rows s)}) \<or>
     (r = Inr () \<and> ts_rows s' =
        map (\<lambda>u. if finishes (task_id t) w u
                 then finish_row now ''completed'' (Some (output_path env (task_id t))) None u else u)
          (te_during env (ts_rows s)))"
proof (cases "json_loads (rt env) (t_options t)")
  case None
  with assms(2) show ?thesis by (auto simp: process_task_def)
next
  case (Some options)
  note loaded = this
  show ?thesis
  proof (cases "mkdir_res env (output_path env (task_id t))")
    case (Inl e)
    with loaded assms(2) have "r = Inl e" "ts_rows s' = ts_rows s"
      by (auto simp: process_task_def process_body_def seqM_def bindM_def)
    then show ?thesis by blast
  next
    case (Inr u)
    note made = this
    show ?thesis
    proof (cases "parse_res env t options")
      case (Inl e)
      with loaded made assms(2) have "r = Inl e" "ts_rows s' = te_during env (ts_rows s)"
        by (auto simp: process_task_def process_body_def seqM_def bindM_def)
      then show ?thesis by blast
    next
      case (Inr u')
      with loaded made assms show ?thesis
        by (auto simp: process_task_def process_body_def seqM_def bindM_def db_call_finish)
    qed
  qed
qed

lemma settled_row:
  assumes "claim_row now0 w t \<in> set rows2" and "st = ''completed'' \<or> st = ''failed''"
  shows "\<exists>u\<in>set (map (\<lambda>u. if finishes (task_id t) w u then finish_row now1 st rp em u else u) rows2).
     task_id u = task_id t \<and> worker_id u = Some w \<and> t_status u = st \<and> completed_at u = Some now1"
proof -
  have "finishes (task_id t) w (claim_row now0 w t)" by (simp add: finishes_def claim_row_def)
  with assms(1) show ?thesis
    by (intro bexI [of _ "finish_row now1 st rp em (claim_row now0 w t)"])
      (auto simp: claim_row_def image_iff)
qed

text \<open>The report of a worker on the rows it finds: the row of the task is closed if it is still processing for this worker,
  and all other rows are left as they are.\<close>

definition reported :: "int \<Rightarrow> string \<Rightarrow> string \<Rightarrow> string \<Rightarrow> string option \<Rightarrow> string option \<Rightarrow> rows \<Rightarrow> rows" where
  "reported now tid w st rp em =
     map (\<lambda>u. if task_id u = tid \<and> t_status u = ''processing'' \<and> worker_id u = Some w
              then u\<lparr>t_status := st, completed_at := Some now,
                     result_path := (case rp of Some (c # cs) \<Rightarrow> rp | _ \<Rightarrow> result_path u),
                     error_message := (case em of Some (c # cs) \<Rightarrow> em | _ \<Rightarrow> error_message u)\<rparr>
              else u)"

text \<open>C6: whenever a task is pending, one turn of a worker's loop claims one and reports it, completed when the
  processing went through, failed when any part of it raised, on the rows that the other processes have left by then.  The
  report closes the row of the task when it is still processing for this worker, as it is when the others leave
  the claimed row alone; a row that another process has taken back, cancelled or closed, and every other row, stays as it is.\<close>

theorem worker_turn_settles:
  assumes "picks (te_pick env)" and "pk_ok (ts_rows s)" and "w \<noteq> []" and "pending (ts_rows s) \<noteq> []"
    and "[] \<notin> task_id ` set (ts_rows s)"
  shows "\<exists>t rows1 rows2 st rp em. get_next_task (te_pick env) now0 w 3 (ts_rows s) = (Some t, rows1) \<and>
     (case fst (process_task env now1 w t (s\<lparr>ts_rows := rows1\<rparr>)) of
        Inr _ \<Rightarrow> st = ''completed'' \<and> rp = Some (output_path env (task_id t)) \<and> em = None \<and> rows2 = te_during env rows1
      | Inl e \<Rightarrow> st = ''failed'' \<and> rp = None \<and> em = Some (exc_msg e) \<and>
          rows2 \<in> {te_failing env rows1, te_failing env (te_during env rows1)}) \<and>
     ts_rows (snd (worker_turn env now0 now1 w idle s)) = reported now1 (task_id t) w st rp em rows2 \<and>
     (claim_row now0 w t \<in> set rows2 \<longrightarrow>
        (\<exists>u\<in>set (ts_rows (snd (worker_turn env now0 now1 w idle s))).
           task_id u = task_id t \<and> worker_id u = Some w \<and> t_status u = st \<and> completed_at u = Some now1))"
proof -
  have ne: "heads (ts_rows s) \<noteq> []" using assms(4) by (simp add: heads_empty_iff)
  obtain t rows1 where g: "get_next_task (te_pick env) now0 w 3 (ts_rows s) = (Some t, rows1)"
    using row_picker.get_next_task_some [OF assms(1) [unfolded picks_row_picker] _ ne, of 3 now0 w]
    by simp
  have "task_id t \<in> pending_ids (ts_rows s)"
    using row_picker.claim_pending_ids [OF assms(1) [unfolded picks_row_picker] assms(2) _ g] by simp
  then have tid: "task_id t \<noteq> []" using assms(5) by (auto simp: pending_ids_def pending_def)
  obtain r s' where p: "process_task env now1 w t (s\<lparr>ts_rows := rows1\<rparr>) = (r, s')"
    by (cases "process_task env now1 w t (s\<lparr>ts_rows := rows1\<rparr>)")
  show ?thesis
  proof (cases r)
    case (Inl e)
    with process_task_rows [OF assms(3) p] have s': "ts_rows s' \<in> {rows1, te_during env rows1}" by auto
    let ?rows2 = "te_failing env (ts_rows s')"
    have f: "ts_rows (snd (worker_turn env now0 now1 w idle s)) =
        map (\<lambda>u. if finishes (task_id t) w u then finish_row now1 ''failed'' None (Some (exc_msg e)) u else u) ?rows2"
      using Inl g p by (simp add: worker_turn_def db_call_finish [OF _ assms(3)])
    show ?thesis
    proof (intro exI conjI, rule g)
      show "case fst (process_task env now1 w t (s\<lparr>ts_rows := rows1\<rparr>)) of
          Inr _ \<Rightarrow> ''failed'' = ''completed'' \<and> None = Some (output_path env (task_id t)) \<and> Some (exc_msg e) = None \<and>
            ?rows2 = te_during env rows1
        | Inl e' \<Rightarrow> ''failed'' = ''failed'' \<and> None = None \<and> Some (exc_msg e) = Some (exc_msg e') \<and>
            ?rows2 \<in> {te_failing env rows1, te_failing env (te_during env rows1)}"
        using p Inl s' by auto
      show "ts_rows (snd (worker_turn env now0 now1 w idle s)) =
          reported now1 (task_id t) w ''failed'' None (Some (exc_msg e)) ?rows2"
        unfolding f reported_def using tid
        by (intro map_cong) (auto simp: finishes_def finish_row_def Let_def split: list.splits)
      show "claim_row now0 w t \<in> set ?rows2 \<longrightarrow>
        (\<exists>u\<in>set (ts_rows (snd (worker_turn env now0 now1 w idle s))).
           task_id u = task_id t \<and> worker_id u = Some w \<and> t_status u = ''failed'' \<and> completed_at u = Some now1)"
        unfolding f using settled_row [of now0 w t ?rows2 "''failed''" now1 None "Some (exc_msg e)"] by blast
    qed
  next
    case (Inr x)
    let ?rows2 = "te_during env rows1"
    have f: "ts_rows (snd (worker_turn env now0 now1 w idle s)) =
        map (\<lambda>u. if finishes (task_id t) w u
                 then finish_row now1 ''completed'' (Some (output_path env (task_id t))) None u else u) ?rows2"
      using process_task_rows [OF assms(3) p] Inr g p by (simp add: worker_turn_def)
    have op: "output_path env (task_id t) \<noteq> []" by (simp add: output_path_def)
    show ?thesis
    proof (intro exI conjI, rule g)
      show "case fst (process_task env now1 w t (s\<lparr>ts_rows := rows1\<rparr>)) of
          Inr _ \<Rightarrow> ''completed'' = ''completed'' \<and> Some (output_path env (task_id t)) = Some (output_path env (task_id t)) \<and>
            (None :: string option) = None \<and> ?rows2 = te_during env rows1
        | Inl e \<Rightarrow> ''completed'' = ''failed'' \<and> Some (output_path env (task_id t)) = None \<and> None = Some (exc_msg e) \<and>
            ?rows2 \<in> {te_failing env rows1, te_failing env (te_during env rows1)}"
        using p Inr by simp
      show "ts_rows (snd (worker_turn env now0 now1 w idle s)) =
          reported now1 (task_id t) w ''completed'' (Some (output_path env (task_id t))) None ?rows2"
        unfolding f reported_def using op tid
        by (intro map_cong) (auto simp: finishes_def finish_row_def Let_def split: list.splits)
      show "claim_row now0 w t \<in> set ?rows2 \<longrightarrow>
        (\<exists>u\<in>set (ts_rows (snd (worker_turn env now0 now1 w idle s))).
           task_id u = task_id t \<and> worker_id u = Some w \<and> t_status u = ''completed'' \<and> completed_at u = Some now1)"
        unfolding f
        using settled_row [of now0 w t ?rows2 "''completed''" now1 "Some (output_path env (task_id t))" None] by blast
    qed
  qed
qed

definition demo_env :: "unit res \<Rightarrow> tenv" where
  "demo_env r = \<lparr> rt = demo_rt, te_pick = hd, out_dir = ''/out'', mkdir_res = (\<lambda>_. Inr ()),
     parse_res = (\<lambda>_ _. r), unlink_ok = (\<lambda>_. True), rmtree_ok = (\<lambda>_. True),
     te_during = (\<lambda>rows. rows), te_failing = (\<lambda>rows. rows), te_sleep = (\<lambda>_ rows. rows) \<rparr>"

definition demo_state :: tianshu where
  "demo_state = \<lparr> ts_rows = demo_rows, ts_files = [''/tmp/b''], ts_dirs = [] \<rparr>"

theorem worker_turn_settles_witness:
  "\<exists>t rows1 rows2 st rp em. get_next_task hd 100 ''w1'' 3 demo_rows = (Some t, rows1) \<and>
     ts_rows (snd (worker_turn (demo_env (Inr ())) 100 105 ''w1'' 0 demo_state)) = reported 105 (task_id t) ''w1'' st rp em rows2"
proof -
  have "picks (te_pick (demo_env (Inr ())))" by (simp add: demo_env_def picks_hd)
  moreover have "pk_ok (ts_rows demo_state)" by (simp add: demo_state_def demo_pk)
  moreover have "pending (ts_rows demo_state) \<noteq> []" "[] \<notin> task_id ` set (ts_rows demo_state)"
    by (simp_all add: demo_state_def demo_rows_def pending_def has_status_def demo_task_def)
  ultimately obtain t rows1 rows2 st rp em where
    "get_next_task (te_pick (demo_env (Inr ()))) 100 ''w1'' 3 (ts_rows demo_state) = (Some t, rows1)"
    "ts_rows (snd (worker_turn (demo_env (Inr ())) 100 105 ''w1'' 0 demo_state)) = reported 105 (task_id t) ''w1'' st rp em rows2"
    using worker_turn_settles [of "demo_env (Inr ())" demo_state "''w1''" 100 105 0] by blast
  then show ?thesis by (auto simp: demo_env_def demo_state_def)
qed

text \<open>In the poll mode of the HTTP interface a failing task is answered as failed but its row
  stays processing: the worker writes nothing, and only the stale reset brings it back.\<close>

theorem poll_failure_strands_task:
  assumes "w \<noteq> []" and "get_next_task (te_pick env) now0 w 3 (ts_rows s) = (Some t, rows1)"
    and "fst (process_task env now1 w t (s\<lparr>ts_rows := rows1\<rparr>)) = Inl e"
  shows "fst (predict env False now0 now1 w ''poll'' s) = PollFailed (task_id t) (exc_msg e) \<and>
     ts_rows (snd (predict env False now0 now1 w ''poll'' s)) \<in> {rows1, te_during env rows1}"
proof -
  obtain s' where p: "process_task env now1 w t (s\<lparr>ts_rows := rows1\<rparr>) = (Inl e, s')"
    using assms(3) by (metis prod.collapse)
  from process_task_rows [OF assms(1) p] have "ts_rows s' \<in> {rows1, te_during env rows1}" by auto
  with p assms(2) show ?thesis by (simp add: predict_def)
qed

theorem poll_failure_strands_task_witness:
  "fst (predict (demo_env (Inl (Exc PlainException ''bad pdf''))) False 100 105 ''w1'' ''poll'' demo_state) =
     PollFailed ''b'' ''bad pdf'' \<and>
   ts_rows (snd (predict (demo_env (Inl (Exc PlainException ''bad pdf''))) False 100 105 ''w1'' ''poll'' demo_state)) =
     [demo_task ''a'' 0 1, claim_row 100 ''w1'' (demo_task ''b'' 5 9)]"
proof -
  let ?env = "demo_env (Inl (Exc PlainException ''bad pdf''))"
  have g: "get_next_task (te_pick ?env) 100 ''w1'' 3 (ts_rows demo_state) =
     (Some (demo_task ''b'' 5 9), [demo_task ''a'' 0 1, claim_row 100 ''w1'' (demo_task ''b'' 5 9)])"
    by (simp add: demo_env_def demo_state_def demo_claim)
  have "fst (process_task ?env 105 ''w1'' (demo_task ''b'' 5 9) s) = Inl (Exc PlainException ''bad pdf'')" for s
    by (simp add: process_task_def process_body_def demo_env_def demo_rt_def seqM_def bindM_def)
  then show ?thesis
    using poll_failure_strands_task [OF _ g] by (simp add: demo_env_def)
qed

section \<open>The scheduler\<close>

definition stale_period :: "sched_conf \<Rightarrow> int" where
  "stale_period c = (stale_task_timeout c * 60 + monitor_interval c - 1) div monitor_interval c"

definition no_stale :: "sched_conf \<Rightarrow> int \<Rightarrow> rows \<Rightarrow> bool" where
  "no_stale c now rows \<longleftrightarrow>
     (\<forall>t\<in>set rows. t_status t = ''processing'' \<longrightarrow> \<not> older_than now 60 (stale_task_timeout c) (started_at t))"

lemma int_div_less_lemma:
  assumes "0 < (m::int)"
  shows "x div m < y \<longleftrightarrow> x < y * m"
proof
  assume "x div m < y"
  then have "x div m + 1 \<le> y" by simp
  then have "(x div m + 1) * m \<le> y * m" using assms by (simp add: mult_right_mono)
  moreover have "x < (x div m + 1) * m"
  proof -
    have "x = (x div m) * m + x mod m" by simp
    also have "\<dots> < (x div m) * m + m" using pos_mod_bound [OF assms, of x] by (rule add_strict_left_mono)
    finally show ?thesis by (simp add: algebra_simps)
  qed
  ultimately show "x < y * m" by simp
next
  assume "x < y * m"
  with assms have "(x div m) * m < y * m"
    using div_mult_mod_eq [of x m] pos_mod_sign [OF assms, of x] by linarith
  with assms show "x div m < y" by simp
qed

lemma stale_due:
  assumes "0 < monitor_interval c"
  shows "stale_task_timeout c * 60 \<le> n * monitor_interval c \<longleftrightarrow> stale_period c \<le> n"
proof -
  let ?m = "monitor_interval c" and ?T = "stale_task_timeout c * 60"
  have "stale_period c \<le> n \<longleftrightarrow> (?T + ?m - 1) div ?m < n + 1"
    unfolding stale_period_def by linarith
  also have "\<dots> \<longleftrightarrow> ?T + ?m - 1 < (n + 1) * ?m"
    using assms int_div_less_lemma [of ?m "?T + ?m - 1" "n + 1"] by simp
  also have "\<dots> \<longleftrightarrow> ?T \<le> n * ?m"
    by (auto simp: algebra_simps)
  finally show ?thesis by simp
qed

lemma sched_turn_counter:
  assumes "0 < monitor_interval c"
  shows "stale_task_counter (fst (snd (sched_turn env c now k s))) =
     (if stale_period c \<le> stale_task_counter k + 1 then 0 else stale_task_counter k + 1)"
  using assms
  by (auto simp: sched_turn_def sched_stale_def sched_cleanup_def Let_def stale_due split: prod.splits)

lemma no_stale_reset: "no_stale c now (snd (reset_stale_tasks now (stale_task_timeout c) rows))"
  by (auto simp: no_stale_def reset_stale_tasks_def sql_update_def has_status_def)

lemma no_stale_clear:
  "no_stale c now r \<Longrightarrow>
   no_stale c now (snd (sql_update (\<lambda>u. task_id u = i) (\<lambda>u. u\<lparr>result_path := None\<rparr>) r))"
  by (auto simp: no_stale_def sql_update_def)

lemma no_stale_cleanup:
  "no_stale c now (ts_rows s) \<Longrightarrow>
   no_stale c now (ts_rows (sched_clean_records c now (sched_clean_files env c now s)))"
proof -
  assume ns: "no_stale c now (ts_rows s)"
  have "no_stale c now (fst (snd (cleanup_old_task_files (rmtree_ok env) now (cleanup_old_files_days c)
      (ts_rows s) (ts_dirs s))))"
    unfolding cleanup_old_task_files_def
    by (rule cleanup_files_loop_induct [where I = "no_stale c now", OF ns]) (rule no_stale_clear)
  with ns have "no_stale c now (ts_rows (sched_clean_files env c now s))"
    by (auto simp: sched_clean_files_def split: prod.splits)
  then show ?thesis
    by (auto simp: sched_clean_records_def cleanup_old_task_records_def Let_def no_stale_def)
qed

text \<open>What the stale reset makes of a row at a turn where it is due, and of the status at a turn where it is not\<close>

definition stale_row :: "sched_conf \<Rightarrow> int \<Rightarrow> task \<Rightarrow> bool" where
  "stale_row c now t \<longleftrightarrow> t_status t = ''processing'' \<and> older_than now 60 (stale_task_timeout c) (started_at t)"

lemma files_keep:
  "map (\<lambda>u. (task_id u, t_status u)) (fst (snd (cleanup_old_task_files ok now days rows dirs))) =
   map (\<lambda>u. (task_id u, t_status u)) rows"
proof -
  have "map (\<lambda>u. (task_id u, t_status u)) r = map (\<lambda>u. (task_id u, t_status u)) rows \<Longrightarrow>
      map (\<lambda>u. (task_id u, t_status u)) (snd (sql_update (\<lambda>u. task_id u = i) (\<lambda>u. u\<lparr>result_path := None\<rparr>) r)) =
      map (\<lambda>u. (task_id u, t_status u)) rows" for r i
    by (simp add: sql_update_def comp_def if_distrib cong: if_cong)
  then show ?thesis unfolding cleanup_old_task_files_def
    by (intro cleanup_files_loop_induct [where I = "\<lambda>r. map (\<lambda>u. (task_id u, t_status u)) r = map (\<lambda>u. (task_id u, t_status u)) rows"])
      simp_all
qed

lemma cleanup_keep:
  "cleanup_old_records_days c \<le> 0 \<Longrightarrow>
     map (\<lambda>u. (task_id u, t_status u)) (ts_rows (sched_clean_records c now (sched_clean_files env c now s))) =
     map (\<lambda>u. (task_id u, t_status u)) (ts_rows s)"
  using files_keep [of "rmtree_ok env" now "cleanup_old_files_days c" "ts_rows s" "ts_dirs s"]
  by (auto simp: sched_clean_records_def sched_clean_files_def split: prod.splits)

lemma cleanup_from:
  "u \<in> set (ts_rows (sched_clean_records c now (sched_clean_files env c now s))) \<Longrightarrow>
     \<exists>t\<in>set (ts_rows s). task_id u = task_id t \<and> t_status u = t_status t"
proof -
  let ?f = "\<lambda>u. (task_id u, t_status u)"
  assume u: "u \<in> set (ts_rows (sched_clean_records c now (sched_clean_files env c now s)))"
  then have "u \<in> set (ts_rows (sched_clean_files env c now s))"
    by (auto simp: sched_clean_records_def cleanup_old_task_records_def Let_def split: if_splits)
  then have "?f u \<in> set (map ?f (ts_rows (sched_clean_files env c now s)))" by simp
  also have "map ?f (ts_rows (sched_clean_files env c now s)) = map ?f (ts_rows s)"
    using files_keep [of "rmtree_ok env" now "cleanup_old_files_days c" "ts_rows s" "ts_dirs s"]
    by (auto simp: sched_clean_files_def split: prod.splits)
  finally show ?thesis by auto
qed

lemma sched_turn_state:
  assumes "0 < monitor_interval c"
  shows "\<exists>clean. snd (snd (sched_turn env c now k s)) =
     (let r = (if stale_period c \<le> stale_task_counter k + 1
               then s\<lparr>ts_rows := snd (reset_stale_tasks now (stale_task_timeout c) (ts_rows s))\<rparr> else s)
      in if clean then sched_clean_records c now (sched_clean_files env c now r) else r)"
  using assms
  by (auto simp: sched_turn_def sched_stale_def sched_cleanup_def Let_def stale_due split: prod.splits)

lemma stale_period_pos:
  assumes "0 < monitor_interval c" and "0 < stale_task_timeout c"
  shows "0 < stale_period c"
  using stale_due [OF assms(1), of 0] assms(2) by simp

lemma sched_run_counter:
  assumes "0 < monitor_interval c" and "0 < stale_task_timeout c"
    and "0 \<le> stale_task_counter k" and "stale_task_counter k < stale_period c"
  shows "stale_task_counter (fst (sched_run n env c now k s)) = (stale_task_counter k + int n) mod stale_period c"
  using assms(3,4)
proof (induction n arbitrary: now k s)
  case 0
  then show ?case by simp
next
  case (Suc n)
  note pos = stale_period_pos [OF assms(1,2)]
  obtain z k' s' where t: "sched_turn env c now k s = (z, k', s')"
    by (cases "sched_turn env c now k s") auto
  with sched_turn_counter [OF assms(1), of env now k s]
  have k': "stale_task_counter k' =
      (if stale_period c \<le> stale_task_counter k + 1 then 0 else stale_task_counter k + 1)" by simp
  with Suc.prems pos have b: "0 \<le> stale_task_counter k'" "stale_task_counter k' < stale_period c"
    by auto
  have "(stale_task_counter k' + int n) mod stale_period c =
      (stale_task_counter k + int (Suc n)) mod stale_period c"
  proof (cases "stale_period c \<le> stale_task_counter k + 1")
    case True
    with Suc.prems have e: "stale_task_counter k + int (Suc n) = int n + stale_period c" by simp
    show ?thesis unfolding e using k' True by simp
  next
    case False
    with k' show ?thesis by (simp add: algebra_simps)
  qed
  with Suc.IH [OF b] t show ?case by simp
qed

lemma due_dvd: "0 < (p :: int) \<Longrightarrow> p \<le> m mod p + 1 \<longleftrightarrow> p dvd m + 1"
proof -
  assume p: "0 < p"
  have "(m + 1) mod p = (m mod p + 1) mod p" by (simp add: mod_add_left_eq)
  also have "\<dots> = (if p \<le> m mod p + 1 then 0 else m mod p + 1)"
    using pos_mod_bound [OF p, of m] pos_mod_sign [OF p, of m] by (cases "p = m mod p + 1") auto
  finally show ?thesis using pos_mod_sign [OF p, of m] by (auto simp: dvd_eq_mod_eq_0)
qed

text \<open>C7: the scheduler resets stale tasks exactly every ceil(timeout/interval) turns, whatever the other jobs of a turn and
  the other processes do: at such a turn each task that has been processing for longer than the timeout becomes pending, every
  other task keeps its status and none is stale afterwards; at any other turn every task keeps its status.  Tasks only
  disappear when the cleaning of records is switched on.\<close>

theorem scheduler_recovers_stale:
  assumes "0 < monitor_interval c" and "0 < stale_task_timeout c" and "stale_task_counter k = 0"
    and "sched_run n env c now k s = (kn, sn)" and "sched_turn env c now' kn sn = (answer, k1, s1)"
  shows "(let due = (stale_period c dvd int n + 1) in
     (\<forall>u\<in>set (ts_rows s1). \<exists>t\<in>set (ts_rows sn). task_id u = task_id t \<and>
        t_status u = (if due \<and> stale_row c now' t then ''pending'' else t_status t)) \<and>
     (cleanup_old_records_days c \<le> 0 \<longrightarrow>
        map (\<lambda>u. (task_id u, t_status u)) (ts_rows s1) =
        map (\<lambda>t. (task_id t, if due \<and> stale_row c now' t then ''pending'' else t_status t)) (ts_rows sn)) \<and>
     (due \<longrightarrow> no_stale c now' (ts_rows s1)))"
proof -
  define due where "due = (stale_period c dvd int n + 1)"
  note pos = stale_period_pos [OF assms(1,2)]
  have "stale_task_counter kn = int n mod stale_period c"
    using sched_run_counter [OF assms(1,2), of k n env now s] assms(3,4) pos by simp
  then have d: "stale_period c \<le> stale_task_counter kn + 1 \<longleftrightarrow> due" by (simp add: due_def due_dvd [OF pos])
  define r where "r = (if due then sn\<lparr>ts_rows := snd (reset_stale_tasks now' (stale_task_timeout c) (ts_rows sn))\<rparr> else sn)"
  obtain clean where s1: "s1 = (if clean then sched_clean_records c now' (sched_clean_files env c now' r) else r)"
    using sched_turn_state [OF assms(1), of env now' kn sn] assms(5) unfolding d r_def [symmetric] Let_def by auto
  have rows: "ts_rows r = map (\<lambda>t. if due \<and> stale_row c now' t
      then t\<lparr>t_status := ''pending'', worker_id := None, retry_count := retry_count t + 1\<rparr> else t) (ts_rows sn)"
    by (simp add: r_def reset_stale_tasks_def sql_update_def stale_row_def has_status_def)
  have st: "map (\<lambda>u. (task_id u, t_status u)) (ts_rows r) =
      map (\<lambda>t. (task_id t, if due \<and> stale_row c now' t then ''pending'' else t_status t)) (ts_rows sn)"
    unfolding rows by simp
  have "\<exists>t\<in>set (ts_rows r). task_id u = task_id t \<and> t_status u = t_status t" if "u \<in> set (ts_rows s1)" for u
    using that cleanup_from [of u c now' env r] s1 by (cases clean) auto
  then have each: "\<forall>u\<in>set (ts_rows s1). \<exists>t\<in>set (ts_rows sn). task_id u = task_id t \<and>
      t_status u = (if due \<and> stale_row c now' t then ''pending'' else t_status t)"
    unfolding rows by fastforce
  have same: "map (\<lambda>u. (task_id u, t_status u)) (ts_rows s1) =
      map (\<lambda>t. (task_id t, if due \<and> stale_row c now' t then ''pending'' else t_status t)) (ts_rows sn)"
    if "cleanup_old_records_days c \<le> 0"
    using cleanup_keep [OF that, of now' env r] st by (simp add: s1)
  have ns: "no_stale c now' (ts_rows s1)" if due
  proof -
    have "no_stale c now' (ts_rows r)" using that no_stale_reset by (simp add: r_def)
    then show ?thesis using no_stale_cleanup [of c now' r env] by (simp add: s1)
  qed
  from each same ns show ?thesis unfolding due_def Let_def by blast
qed

definition demo_conf :: sched_conf where
  "demo_conf = \<lparr> monitor_interval = 300, health_check_interval = 900, stale_task_timeout = 60,
     cleanup_old_files_days = 7, cleanup_old_records_days = 0 \<rparr>"

definition counters0 :: sched_counters where
  "counters0 = \<lparr> health_check_counter = 0, stale_task_counter = 0, cleanup_counter = 0 \<rparr>"

definition old_claim :: "rows" where
  "old_claim = [claim_row 0 ''w1'' (demo_task ''b'' 5 9), claim_row 5000 ''w2'' (demo_task ''c'' 5 9)]"

theorem scheduler_recovers_stale_witness:
  "map (\<lambda>u. (task_id u, t_status u)) (ts_rows (snd (snd (sched_turn (demo_env (Inr ())) demo_conf 5400
       counters0 (demo_state\<lparr>ts_rows := old_claim\<rparr>))))) =
     [(''b'', ''processing''), (''c'', ''processing'')] \<and>
   stale_period demo_conf = 12"
proof
  have "sched_run 0 (demo_env (Inr ())) demo_conf 0 counters0 (demo_state\<lparr>ts_rows := old_claim\<rparr>) =
      (counters0, demo_state\<lparr>ts_rows := old_claim\<rparr>)" by simp
  moreover obtain answer k1 s1 where t: "sched_turn (demo_env (Inr ())) demo_conf 5400 counters0 (demo_state\<lparr>ts_rows := old_claim\<rparr>) =
      (answer, k1, s1)" by (cases "sched_turn (demo_env (Inr ())) demo_conf 5400 counters0 (demo_state\<lparr>ts_rows := old_claim\<rparr>)")
  moreover have p: "stale_period demo_conf = 12" by (simp add: stale_period_def demo_conf_def)
  moreover have "\<not> (12 :: int) dvd int 0 + 1" by simp
  ultimately have eq: "map (\<lambda>u. (task_id u, t_status u)) (ts_rows s1) = map (\<lambda>t. (task_id t, t_status t)) old_claim"
    using scheduler_recovers_stale [of demo_conf counters0 0 "demo_env (Inr ())" 0 "demo_state\<lparr>ts_rows := old_claim\<rparr>"
        counters0 "demo_state\<lparr>ts_rows := old_claim\<rparr>" 5400 answer k1 s1]
    by (simp add: demo_conf_def counters0_def Let_def)
  have "map (\<lambda>t. (task_id t, t_status t)) old_claim = [(''b'', ''processing''), (''c'', ''processing'')]"
    by (simp add: old_claim_def claim_row_def demo_task_def)
  then show "map (\<lambda>u. (task_id u, t_status u)) (ts_rows (snd (snd (sched_turn (demo_env (Inr ())) demo_conf 5400
       counters0 (demo_state\<lparr>ts_rows := old_claim\<rparr>))))) = [(''b'', ''processing''), (''c'', ''processing'')]"
    unfolding t snd_conv eq .
qed (simp add: stale_period_def demo_conf_def)

section \<open>Statistics\<close>

text \<open>The statistics list each status that occurs once, with its number of rows, and the total
  the API reports is the number of tasks.\<close>

theorem queue_stats_total:
  "snd (queue_stats_handler rows) = length rows \<and>
   distinct (map fst (get_queue_stats rows)) \<and>
   (\<forall>s n. (s, n) \<in> set (get_queue_stats rows) \<longleftrightarrow>
      n = length (filter (\<lambda>t. t_status t = s) rows) \<and> n \<noteq> 0)"
proof (intro conjI)
  have "(\<Sum>s\<in>set (map t_status rows). length (filter (has_status s) rows)) = length rows"
  proof -
    have "length rows = (\<Sum>s\<in>set (map t_status rows). count_list (map t_status rows) s)"
      by (simp add: sum_count_set)
    moreover have "count_list (map t_status rows) s = length (filter (has_status s) rows)" for s
      by (induction rows) (auto simp: has_status_def)
    ultimately show ?thesis by simp
  qed
  then show "snd (queue_stats_handler rows) = length rows"
    by (simp add: queue_stats_handler_def get_queue_stats_def comp_def sum_list_distinct_conv_sum_set)
  show "distinct (map fst (get_queue_stats rows))"
    by (simp add: get_queue_stats_def comp_def)
  show "\<forall>s n. (s, n) \<in> set (get_queue_stats rows) \<longleftrightarrow>
      n = length (filter (\<lambda>t. t_status t = s) rows) \<and> n \<noteq> 0"
    by (auto simp: get_queue_stats_def has_status_def [abs_def] image_iff filter_empty_conv)
qed

end
