(* ===== verification/JobBoard.thy ===== *)
theory JobBoard
  imports TianshuSpec
begin

text \<open>
  What the task database stands for: a board of jobs that are waiting, running at a worker or ended.  The calls of
  \<^verbatim>\<open>MinerU/projects/mineru_tianshu/task_db.py\<close>, with what they answer, are steps on the rows; the same calls on
  the board are its specification, and the locale \<open>refines\<close> carries a simulation from single calls to runs.
\<close>

section \<open>Simulation\<close>

locale refines =
  fixes cstep :: "'c \<Rightarrow> 'l \<Rightarrow> 'c \<Rightarrow> bool"
    and astep :: "'a \<Rightarrow> 'l \<Rightarrow> 'a \<Rightarrow> bool"
    and abst :: "'c \<Rightarrow> 'a"
    and inv :: "'c \<Rightarrow> bool"
  assumes inv_step: "inv c \<Longrightarrow> cstep c l c' \<Longrightarrow> inv c'"
    and sim_step: "inv c \<Longrightarrow> cstep c l c' \<Longrightarrow> astep (abst c) l (abst c')"
begin

inductive crun :: "'c \<Rightarrow> 'l list \<Rightarrow> 'c \<Rightarrow> bool" where
  cnil: "crun c [] c"
| csnoc: "crun c ls c1 \<Longrightarrow> cstep c1 l c2 \<Longrightarrow> crun c (ls @ [l]) c2"

inductive arun :: "'a \<Rightarrow> 'l list \<Rightarrow> 'a \<Rightarrow> bool" where
  anil: "arun a [] a"
| asnoc: "arun a ls a1 \<Longrightarrow> astep a1 l a2 \<Longrightarrow> arun a (ls @ [l]) a2"

lemma run_refines: "crun c ls c' \<Longrightarrow> inv c \<Longrightarrow> inv c' \<and> arun (abst c) ls (abst c')"
  by (induction rule: crun.induct) (blast intro: inv_step sim_step anil asnoc)+

end

section \<open>The board\<close>

datatype job_state = Waiting | Running string | Ended string

type_synonym board = "string \<rightharpoonup> rank \<times> job_state"

datatype call =
  Submit string rank | Take string | Finish string string string | Cancel string | Release | Forget | Tidy

datatype answer = Refused | Accepted string | Given string | Nothing | Answered bool | Counted nat

inductive board_step :: "board \<Rightarrow> call \<times> answer \<Rightarrow> board \<Rightarrow> bool" where
  submit: "b i = None \<Longrightarrow> board_step b (Submit i r, Accepted i) (b(i \<mapsto> (r, Waiting)))"
| submit_twice: "b i \<noteq> None \<Longrightarrow> board_step b (Submit i r, Refused) b"
| take_first: "b i = Some (r, Waiting) \<Longrightarrow> \<forall>j q. b j = Some (q, Waiting) \<longrightarrow> r \<le> q \<Longrightarrow>
     board_step b (Take w, Given i) (b(i \<mapsto> (r, Running w)))"
| take_none: "\<forall>j q. b j \<noteq> Some (q, Waiting) \<Longrightarrow> board_step b (Take w, Nothing) b"
| finish: "b i = Some (r, Running w) \<Longrightarrow> board_step b (Finish w i out, Answered True) (b(i \<mapsto> (r, Ended out)))"
| finish_lost: "\<forall>r. b i \<noteq> Some (r, Running w) \<Longrightarrow> board_step b (Finish w i out, Answered False) b"
| cancel: "b i = Some (r, s) \<Longrightarrow> board_step b (Cancel i, Answered True) (b(i \<mapsto> (r, Ended ''cancelled'')))"
| cancel_none: "b i = None \<Longrightarrow> board_step b (Cancel i, Answered False) b"
| release: "finite S \<Longrightarrow> \<forall>i\<in>S. \<exists>r w. b i = Some (r, Running w) \<Longrightarrow>
     board_step b (Release, Counted (card S)) (\<lambda>i. if i \<in> S then map_option (\<lambda>(r, _). (r, Waiting)) (b i) else b i)"
| forget: "finite S \<Longrightarrow> \<forall>i\<in>S. \<exists>r s. b i = Some (r, Ended s) \<Longrightarrow>
     board_step b (Forget, Counted (card S)) (b |` (- S))"
| tidy: "board_step b (Tidy, Counted n) b"

inductive_cases board_stepE: "board_step b (c, a) b'"

section \<open>The calls on the rows\<close>

inductive db_answers :: "rows \<Rightarrow> call \<times> answer \<Rightarrow> rows \<Rightarrow> bool" where
  create: "create_task py uid now fn fp bk opts prio rows = (res, rows') \<Longrightarrow>
     db_answers rows (Submit uid (Rank prio now), case res of Inr i \<Rightarrow> Accepted i | Inl _ \<Rightarrow> Refused) rows'"
| claim: "picks pick \<Longrightarrow> 0 < n \<Longrightarrow> get_next_task pick now w n rows = (got, rows') \<Longrightarrow>
     db_answers rows (Take w, case got of Some t \<Rightarrow> Given (task_id t) | None \<Rightarrow> Nothing) rows'"
| finish: "st = ''completed'' \<or> st = ''failed'' \<Longrightarrow> w \<noteq> [] \<Longrightarrow> tid \<noteq> [] \<Longrightarrow>
     update_task_status now (Some tid) st rp em (Some w) rows = (Inr ok, rows') \<Longrightarrow>
     db_answers rows (Finish w tid st, Answered ok) rows'"
| cancel: "tid \<noteq> [] \<Longrightarrow>
     update_task_status now (Some tid) ''cancelled'' None None None rows = (Inr ok, rows') \<Longrightarrow>
     db_answers rows (Cancel tid, Answered ok) rows'"
| reset_stale: "reset_stale_tasks now m rows = (n, rows') \<Longrightarrow> db_answers rows (Release, Counted n) rows'"
| clean_records: "cleanup_old_task_records now d rows = (n, rows') \<Longrightarrow> db_answers rows (Forget, Counted n) rows'"
| clean_files: "cleanup_old_task_files rm_ok now d rows dirs = (n, rows', dirs') \<Longrightarrow>
     db_answers rows (Tidy, Counted n) rows'"

text \<open>The board of a table\<close>

definition job_of :: "task \<Rightarrow> rank \<times> job_state" where
  "job_of t =
     (rank_of t,
      if t_status t = ''pending'' then Waiting
      else if t_status t = ''processing'' then Running (case worker_id t of Some w \<Rightarrow> w | None \<Rightarrow> [])
      else Ended (t_status t))"

definition board_of :: "rows \<Rightarrow> board" where
  "board_of rows = (\<lambda>i. map_option job_of (get_task i rows))"

section \<open>Looking up rows\<close>

lemma get_task_map: "(\<And>t. task_id (f t) = task_id t) \<Longrightarrow> get_task i (map f rows) = map_option f (get_task i rows)"
  by (induction rows) (simp_all add: get_task_def)

lemma get_task_update:
  "(\<And>t. task_id (f t) = task_id t) \<Longrightarrow>
     get_task i (snd (sql_update P f rows)) = map_option (\<lambda>t. if P t then f t else t) (get_task i rows)"
  unfolding sql_update_def snd_conv by (rule get_task_map) simp

lemma get_task_filter:
  "pk_ok rows \<Longrightarrow> get_task i (filter P rows) = (case get_task i rows of Some t \<Rightarrow> (if P t then Some t else None) | None \<Rightarrow> None)"
proof (induction rows)
  case (Cons t rows)
  have "find (\<lambda>u. task_id u = task_id t) (filter P rows) = None"
    using Cons.prems unfolding find_None_iff pk_ok_def by (simp add: image_iff) metis
  with Cons show ?case by (auto simp: get_task_def pk_ok_def)
qed (simp add: get_task_def)

lemma get_task_Some: "get_task i rows = Some t \<Longrightarrow> t \<in> set rows \<and> task_id t = i"
  unfolding get_task_def by (metis (mono_tags, lifting) find_Some_iff nth_mem)

lemma get_task_None: "get_task i rows = None \<longleftrightarrow> i \<notin> task_id ` set rows"
  by (auto simp: get_task_def find_None_iff)

lemma get_task_append:
  "get_task i (rows @ [t]) = (if get_task i rows = None \<and> task_id t = i then Some t else get_task i rows)"
  by (induction rows) (simp_all add: get_task_def)

lemma board_of_Some: "board_of rows i = Some j \<longleftrightarrow> (\<exists>t. get_task i rows = Some t \<and> j = job_of t)"
  by (auto simp: board_of_def)

lemma board_waiting:
  "pk_ok rows \<Longrightarrow> board_of rows i = Some (r, Waiting) \<longleftrightarrow>
     (\<exists>t\<in>set rows. task_id t = i \<and> t_status t = ''pending'' \<and> r = rank_of t)"
proof -
  assume pk: "pk_ok rows"
  have "job_of t = (r, Waiting) \<longleftrightarrow> t_status t = ''pending'' \<and> r = rank_of t" for t
    by (auto simp: job_of_def)
  then have "board_of rows i = Some (r, Waiting) \<longleftrightarrow>
      (\<exists>t. get_task i rows = Some t \<and> t_status t = ''pending'' \<and> r = rank_of t)"
    unfolding board_of_Some by metis
  also have "\<dots> \<longleftrightarrow> (\<exists>t\<in>set rows. task_id t = i \<and> t_status t = ''pending'' \<and> r = rank_of t)"
    using get_task_Some [of i rows] get_task_unique [OF pk] by blast
  finally show ?thesis .
qed

lemma board_running:
  "rows_ok rows \<Longrightarrow> get_task i rows = Some t \<Longrightarrow>
     board_of rows i = Some (r, Running w) \<longleftrightarrow> t_status t = ''processing'' \<and> worker_id t = Some w \<and> r = rank_of t"
  by (auto simp: board_of_def job_of_def rows_ok_def list_all_iff row_ok_def split: if_splits option.splits
      dest!: get_task_Some)

lemma job_of_claim: "job_of (claim_row now w t) = (rank_of t, Running w)"
  by (simp add: job_of_def claim_row_def rank_of_def)

lemma rank_finish [simp]: "rank_of (finish_row now st rp em t) = rank_of t"
  by (auto simp: finish_row_def rank_of_def Let_def split: option.splits list.splits)

section \<open>Every call refines the board\<close>

lemma ids_count:
  "pk_ok rows \<Longrightarrow> card {i. \<exists>t. get_task i rows = Some t \<and> P t} = length (filter P rows)"
proof -
  assume pk: "pk_ok rows"
  have "{i. \<exists>t. get_task i rows = Some t \<and> P t} = set (map task_id (filter P rows))"
    using pk by (auto dest: get_task_Some intro: get_task_unique)
  moreover have "distinct (map task_id (filter P rows))"
    using pk by (auto simp: pk_ok_def distinct_map intro: inj_on_subset)
  ultimately show ?thesis by (metis distinct_card length_map)
qed

lemma ids_finite: "finite {i. \<exists>t. get_task i rows = Some t \<and> P t}"
  by (rule finite_subset [of _ "task_id ` set rows"]) (auto dest: get_task_Some)

lemma sim_create:
  assumes "create_task py uid now fn fp bk opts prio rows = (res, rows')"
  shows "board_step (board_of rows) (Submit uid (Rank prio now), case res of Inr i \<Rightarrow> Accepted i | Inl _ \<Rightarrow> Refused) (board_of rows')"
proof (cases "uid \<in> task_id ` set rows")
  case True
  then have "get_task uid rows \<noteq> None" by (simp add: get_task_None)
  then have "board_of rows uid \<noteq> None" by (simp add: board_of_def)
  from board_step.submit_twice [where b = "board_of rows", OF this] True assms show ?thesis
    by (auto simp: create_task_def)
next
  case False
  then have n: "get_task uid rows = None" by (simp add: get_task_None)
  from False assms obtain t where t: "rows' = rows @ [t]" "task_id t = uid" "job_of t = (Rank prio now, Waiting)" "res = Inr uid"
    by (auto simp: create_task_def job_of_def rank_of_def)
  have "board_of rows' = (board_of rows)(uid \<mapsto> (Rank prio now, Waiting))"
    using t n by (auto simp: board_of_def get_task_append)
  moreover have "board_of rows uid = None" using n by (simp add: board_of_def)
  ultimately show ?thesis using t(4) by (auto intro: board_step.submit)
qed

lemma sim_claim:
  assumes "picks pick" and "0 < n" and "get_next_task pick now w n rows = (got, rows')" and "rows_ok rows"
  shows "board_step (board_of rows) (Take w, case got of Some t \<Rightarrow> Given (task_id t) | None \<Rightarrow> Nothing) (board_of rows')"
proof -
  have pk: "pk_ok rows" using assms(4) by (simp add: rows_ok_def)
  show ?thesis
  proof (cases got)
    case None
    then have "heads rows = []"
      using assms(1-3) row_picker.get_next_task_some [of pick n rows now w] by (auto simp: picks_row_picker)
    then have "pending rows = []" "rows' = rows"
      using assms(1,3) by (simp_all add: heads_empty_iff row_picker.get_next_task_none picks_row_picker)
    moreover from this(1) have "\<forall>i r. board_of rows i \<noteq> Some (r, Waiting)"
      unfolding board_waiting [OF pk] by (auto simp: pending_def filter_empty_conv has_status_def)
    ultimately show ?thesis using None by (auto intro: board_step.take_none)
  next
    case (Some t)
    have ne: "heads rows \<noteq> []"
      using assms(1,3) Some by (auto simp: row_picker.get_next_task_none picks_row_picker)
    have p: "pick (heads rows) = t" and r': "rows' = map (\<lambda>u. if task_id u = task_id t \<and> has_status ''pending'' u
               then claim_row now w u else u) rows"
      using row_picker.get_next_task_some [OF assms(1) [unfolded picks_row_picker] assms(2) ne, of now w] assms(3) Some by auto
    have "t \<in> set (heads rows)" using assms(1) ne p by (auto simp: picks_def)
    then have t: "t \<in> set rows" "t_status t = ''pending''"
      "\<forall>u\<in>set rows. t_status u = ''pending'' \<longrightarrow> rank_of t \<le> rank_of u"
      by (simp_all add: set_heads has_status_def)
    have g: "get_task (task_id t) rows = Some t" using pk t(1) by (rule get_task_unique)
    have "board_of rows' = (board_of rows)(task_id t \<mapsto> (rank_of t, Running w))"
    proof
      fix i
      have "get_task i rows' = map_option (\<lambda>u. if task_id u = task_id t \<and> has_status ''pending'' u then claim_row now w u else u)
          (get_task i rows)"
        unfolding r' by (rule get_task_map) simp
      then show "board_of rows' i = ((board_of rows)(task_id t \<mapsto> (rank_of t, Running w))) i"
        using g t(2) by (cases "get_task i rows") (auto simp: board_of_def job_of_claim has_status_def dest: get_task_Some)
    qed
    moreover have "board_of rows (task_id t) = Some (rank_of t, Waiting)"
      using t by (auto simp: board_waiting [OF pk])
    moreover have "\<forall>j q. board_of rows j = Some (q, Waiting) \<longrightarrow> rank_of t \<le> q"
      using t(3) by (auto simp: board_waiting [OF pk])
    ultimately show ?thesis using Some by (auto intro: board_step.take_first)
  qed
qed

lemma sim_finish:
  assumes "st = ''completed'' \<or> st = ''failed''" and "w \<noteq> []" and "tid \<noteq> []" and "rows_ok rows"
    and "update_task_status now (Some tid) st rp em (Some w) rows = (Inr ok, rows')"
  shows "board_step (board_of rows) (Finish w tid st, Answered ok) (board_of rows')"
proof -
  have pk: "pk_ok rows" using assms(4) by (simp add: rows_ok_def)
  have ok: "ok \<longleftrightarrow> (\<exists>t\<in>set rows. finishes tid w t)"
    and r': "rows' = map (\<lambda>t. if finishes tid w t then finish_row now st rp em t else t) rows"
    using assms(5) unfolding finish_eq [OF assms(1,2)] by auto
  have g': "get_task i rows' = map_option (\<lambda>t. if finishes tid w t then finish_row now st rp em t else t) (get_task i rows)" for i
    unfolding r' by (rule get_task_map) simp
  show ?thesis
  proof (cases ok)
    case True
    then obtain t where t: "t \<in> set rows" "finishes tid w t" using ok by blast
    then have g: "get_task tid rows = Some t" using get_task_unique [OF pk t(1)] assms(3) by (auto simp: finishes_def)
    have "board_of rows tid = Some (rank_of t, Running w)"
      using g t(2) by (simp add: board_of_def job_of_def finishes_def)
    moreover have "board_of rows' = (board_of rows)(tid \<mapsto> (rank_of t, Ended st))"
    proof
      fix i
      show "board_of rows' i = ((board_of rows)(tid \<mapsto> (rank_of t, Ended st))) i"
      proof (cases "i = tid")
        case True
        have "t_status (finish_row now st rp em t) = st" by simp
        then have "job_of (finish_row now st rp em t) = (rank_of t, Ended st)"
          using assms(1) unfolding job_of_def by (elim disjE) simp_all
        with True show ?thesis using g t(2) by (simp add: board_of_def g')
      next
        case False
        then have "\<not> finishes tid w u" if "get_task i rows = Some u" for u
          using get_task_Some [OF that] assms(3) by (simp add: finishes_def)
        with False show ?thesis by (cases "get_task i rows") (simp_all add: board_of_def g')
      qed
    qed
    ultimately show ?thesis using True by (auto intro: board_step.finish)
  next
    case False
    then have "\<forall>t\<in>set rows. \<not> finishes tid w t" using ok by blast
    then have "rows' = rows" unfolding r' by (intro map_idI) simp
    moreover have "\<forall>r. board_of rows tid \<noteq> Some (r, Running w)"
    proof (intro allI notI)
      fix r assume b: "board_of rows tid = Some (r, Running w)"
      then obtain t where g: "get_task tid rows = Some t" by (auto simp: board_of_Some)
      with b board_running [OF assms(4) g] have "t_status t = ''processing'' \<and> worker_id t = Some w" by blast
      moreover have "t \<in> set rows" "task_id t = tid" using get_task_Some [OF g] by blast+
      ultimately show False using \<open>\<forall>t\<in>set rows. \<not> finishes tid w t\<close> by (auto simp: finishes_def)
    qed
    ultimately show ?thesis using False by (auto intro: board_step.finish_lost)
  qed
qed

lemma sim_cancel:
  assumes "tid \<noteq> []" and "update_task_status now (Some tid) ''cancelled'' None None None rows = (Inr ok, rows')"
  shows "board_step (board_of rows) (Cancel tid, Answered ok) (board_of rows')"
proof -
  have ok: "ok \<longleftrightarrow> tid \<in> task_id ` set rows"
    and r': "rows' = map (\<lambda>t. if task_id t = tid then t\<lparr>t_status := ''cancelled''\<rparr> else t) rows"
    using assms(2) unfolding cancel_eq [OF assms(1)] by auto
  have g': "get_task i rows' = map_option (\<lambda>t. if task_id t = tid then t\<lparr>t_status := ''cancelled''\<rparr> else t) (get_task i rows)" for i
    unfolding r' by (rule get_task_map) simp
  show ?thesis
  proof (cases "get_task tid rows")
    case None
    then have "\<not> ok" by (simp add: ok get_task_None)
    moreover have "board_of rows' = board_of rows"
    proof
      fix i
      show "board_of rows' i = board_of rows i"
        using None get_task_Some [of i rows] by (cases "get_task i rows"; cases "i = tid") (auto simp: board_of_def g')
    qed
    ultimately show ?thesis using None by (auto simp: board_of_def intro: board_step.cancel_none)
  next
    case (Some t)
    then have "ok" using get_task_None [of tid rows] by (auto simp: ok)
    moreover have "board_of rows' = (board_of rows)(tid \<mapsto> (rank_of t, Ended ''cancelled''))"
    proof
      fix i
      show "board_of rows' i = ((board_of rows)(tid \<mapsto> (rank_of t, Ended ''cancelled''))) i"
        using Some by (cases "get_task i rows") (auto simp: board_of_def g' job_of_def rank_of_def dest: get_task_Some)
    qed
    moreover have "board_of rows tid = Some (rank_of t, snd (job_of t))" using Some by (simp add: board_of_def job_of_def)
    ultimately show ?thesis by (auto intro: board_step.cancel)
  qed
qed

lemma sim_reset:
  assumes "rows_ok rows" and "reset_stale_tasks now m rows = (n, rows')"
  shows "board_step (board_of rows) (Release, Counted n) (board_of rows')"
proof -
  define P where "P = (\<lambda>t. has_status ''processing'' t \<and> older_than now 60 m (started_at t))"
  define f where "f = (\<lambda>t::task. t\<lparr>t_status := ''pending'', worker_id := None, retry_count := retry_count t + 1\<rparr>)"
  define S where "S = {i. \<exists>t. get_task i rows = Some t \<and> P t}"
  have pk: "pk_ok rows" using assms(1) by (simp add: rows_ok_def)
  have u: "sql_update P f rows = (n, rows')" using assms(2) by (simp add: reset_stale_tasks_def P_def f_def)
  then have n: "n = card S" unfolding S_def ids_count [OF pk] by (simp add: sql_update_def)
  have "get_task i rows' = map_option (\<lambda>t. if P t then f t else t) (get_task i rows)" for i
    using u get_task_update [of f i P rows] by (simp add: f_def)
  then have b: "board_of rows' = (\<lambda>i. if i \<in> S then map_option (\<lambda>(r, _). (r, Waiting)) (board_of rows i) else board_of rows i)"
    by (auto simp: board_of_def S_def job_of_def f_def rank_of_def fun_eq_iff map_option_case split: option.splits)
  have "\<forall>i\<in>S. \<exists>r w. board_of rows i = Some (r, Running w)"
    by (auto simp: S_def P_def board_of_def job_of_def has_status_def)
  then show ?thesis
    using ids_finite [of rows P] unfolding b n S_def by (intro board_step.release)
qed

lemma sim_records:
  assumes "rows_ok rows" and "cleanup_old_task_records now d rows = (n, rows')"
  shows "board_step (board_of rows) (Forget, Counted n) (board_of rows')"
proof -
  define P where "P = (\<lambda>t. older_than now 86400 d (completed_at t) \<and> (has_status ''completed'' t \<or> has_status ''failed'' t))"
  define S where "S = {i. \<exists>t. get_task i rows = Some t \<and> P t}"
  have pk: "pk_ok rows" using assms(1) by (simp add: rows_ok_def)
  have n: "n = card S" and r': "rows' = filter (\<lambda>t. \<not> P t) rows"
    using assms(2) unfolding S_def ids_count [OF pk] by (auto simp: cleanup_old_task_records_def P_def)
  have b: "board_of rows' = board_of rows |` (- S)"
    unfolding r' board_of_def get_task_filter [OF pk]
    by (auto simp: S_def restrict_map_def fun_eq_iff split: option.splits)
  have "\<forall>i\<in>S. \<exists>r s. board_of rows i = Some (r, Ended s)"
  proof
    fix i assume "i \<in> S"
    then obtain t where t: "get_task i rows = Some t" "P t" by (auto simp: S_def)
    then have "job_of t = (rank_of t, Ended (t_status t))" by (auto simp: P_def job_of_def has_status_def)
    with t(1) show "\<exists>r s. board_of rows i = Some (r, Ended s)" by (simp add: board_of_def)
  qed
  then show ?thesis
    using ids_finite [of rows P] unfolding b n S_def by (intro board_step.forget)
qed

lemma board_clear:
  "board_of (snd (sql_update (\<lambda>u. task_id u = i) (\<lambda>u. u\<lparr>result_path := None\<rparr>) r)) = board_of r"
proof
  fix j
  show "board_of (snd (sql_update (\<lambda>u. task_id u = i) (\<lambda>u. u\<lparr>result_path := None\<rparr>) r)) j = board_of r j"
    unfolding board_of_def by (subst get_task_update) (auto simp: job_of_def rank_of_def map_option_case split: option.splits)
qed

lemma sim_files:
  "cleanup_old_task_files rm_ok now d rows dirs = (n, rows', dirs') \<Longrightarrow> board_of rows' = board_of rows"
  using cleanup_files_loop_induct [where I = "\<lambda>r. board_of r = board_of rows" and rows = rows and rm_ok = rm_ok
      and ts = "filter (old_result now d) rows" and dirs = dirs and n = 0]
  by (simp add: cleanup_old_task_files_def board_clear)

lemma db_answers_step: "db_answers rows ca rows' \<Longrightarrow> db_step rows rows'"
proof (induction rule: db_answers.induct)
  case (create py uid now fn fp bk opts prio rows res rows')
  then show ?case using db_step.create [of rows py uid now fn fp bk opts prio] by simp
next
  case (claim pick n now w rows got rows')
  then show ?case using db_step.claim [of pick rows now w n] by simp
next
  case (finish st w tid now rp em rows ok rows')
  then show ?case using db_step.finish [of st w rows now tid rp em] by simp
next
  case (cancel tid now rows ok rows')
  then show ?case using db_step.cancel [of rows now tid] by simp
next
  case (reset_stale now m rows n rows')
  then show ?case using db_step.reset_stale [of rows now m] by simp
next
  case (clean_records now d rows n rows')
  then show ?case using db_step.clean_records [of rows now d] by simp
next
  case (clean_files rm_ok now d rows dirs n rows' dirs')
  then show ?case using db_step.clean_files [of rows rm_ok now d dirs] by simp
qed

interpretation board: refines db_answers board_step board_of rows_ok
proof
  fix rows ca rows'
  assume ok: "rows_ok rows" and s: "db_answers rows ca rows'"
  show "rows_ok rows'" using db_answers_step [OF s] ok by (rule db_step_rows_ok)
  from s ok show "board_step (board_of rows) ca (board_of rows')"
  proof (induction rule: db_answers.induct)
    case create
    then show ?case by (intro sim_create)
  next
    case claim
    then show ?case by (intro sim_claim)
  next
    case finish
    then show ?case by (intro sim_finish)
  next
    case cancel
    then show ?case by (intro sim_cancel)
  next
    case reset_stale
    then show ?case by (intro sim_reset)
  next
    case clean_records
    then show ?case by (intro sim_records)
  next
    case clean_files
    then show ?case by (simp add: sim_files board_step.tidy)
  qed
qed

section \<open>Runs\<close>

text \<open>A run of the database from the empty table, and the same run on the board\<close>

inductive db_run :: "(call \<times> answer) list \<Rightarrow> rows \<Rightarrow> bool" where
  db_start: "db_run [] []"
| db_next: "db_run tr rows \<Longrightarrow> db_answers rows ca rows' \<Longrightarrow> db_run (tr @ [ca]) rows'"

inductive board_run :: "(call \<times> answer) list \<Rightarrow> board \<Rightarrow> bool" where
  board_start: "board_run [] Map.empty"
| board_next: "board_run tr b \<Longrightarrow> board_step b ca b' \<Longrightarrow> board_run (tr @ [ca]) b'"

lemma db_run_crun: "db_run tr rows \<Longrightarrow> board.crun [] tr rows"
  by (induction rule: db_run.induct) (blast intro: board.cnil board.csnoc)+

lemma arun_board_run: "board.arun a tr b \<Longrightarrow> a = Map.empty \<Longrightarrow> board_run tr b"
  by (induction rule: board.arun.induct) (blast intro: board_start board_next)+

lemma board_of_empty [simp]: "board_of [] = Map.empty"
  by (simp add: board_of_def get_task_def fun_eq_iff)

lemma db_run_board: "db_run tr rows \<Longrightarrow> board_run tr (board_of rows)"
proof -
  assume run: "db_run tr rows"
  have "rows_ok []" by (simp add: rows_ok_def pk_ok_def)
  with board.run_refines [OF db_run_crun [OF run]] show ?thesis by (auto intro: arun_board_run)
qed

text \<open>C3: every run of the task database from the empty table, whatever row SQLite picks among equals, is
  a run of the job board with the same calls and the same answers, and ends in the board of its rows.\<close>

theorem queue_refines_board:
  assumes "db_run tr rows"
  shows "board_run tr (board_of rows)"
  using assms by (rule db_run_board)

text \<open>A day of one task: it is queued, a worker claims it, another finds nothing, and the first reports.\<close>

definition demo_day :: "(call \<times> answer) list" where
  "demo_day = [(Submit ''a'' (Rank 0 1), Accepted ''a''), (Take ''w'', Given ''a''), (Take ''v'', Nothing),
     (Finish ''v'' ''a'' ''failed'', Answered False), (Finish ''w'' ''a'' ''completed'', Answered True)]"

lemma demo_day_run: "\<exists>rows. db_run demo_day rows \<and> map t_status rows = [''completed'']"
proof -
  let ?r1 = "snd (create_task demo_rt ''a'' 1 ''f'' ''p'' ''pipeline'' PNone 0 [])"
  let ?r2 = "snd (get_next_task hd 2 ''w'' 3 ?r1)"
  let ?r3 = "snd (update_task_status 4 (Some ''a'') ''completed'' (Some ''out'') None (Some ''w'') ?r2)"
  note defs = create_task_def get_next_task_def heads_def pending_def has_status_def sql_update_def claim_row_def
    eval_nat_numeral finish_eq finishes_def
  have "db_answers [] (Submit ''a'' (Rank 0 1), Accepted ''a'') ?r1"
    using db_answers.create [of demo_rt "''a''" 1 "''f''" "''p''" "''pipeline''" PNone 0 "[]" "Inr ''a''" ?r1]
    by (simp add: create_task_def)
  moreover have "db_answers ?r1 (Take ''w'', Given ''a'') ?r2"
    using db_answers.claim [OF picks_hd, of 3 2 "''w''" ?r1 "Some (hd ?r1)" ?r2] by (simp add: defs)
  moreover have "db_answers ?r2 (Take ''v'', Nothing) ?r2"
    using db_answers.claim [OF picks_hd, of 3 3 "''v''" ?r2 None ?r2] by (simp add: defs)
  moreover have "db_answers ?r2 (Finish ''v'' ''a'' ''failed'', Answered False) ?r2"
    using db_answers.finish [of "''failed''" "''v''" "''a''" 3 None None ?r2 False ?r2] by (simp add: defs)
  moreover have "db_answers ?r2 (Finish ''w'' ''a'' ''completed'', Answered True) ?r3"
    using db_answers.finish [of "''completed''" "''w''" "''a''" 4 "Some ''out''" None ?r2 True ?r3] by (simp add: defs)
  ultimately have "db_run ((((([] @ [(Submit ''a'' (Rank 0 1), Accepted ''a'')]) @ [(Take ''w'', Given ''a'')]) @ [(Take ''v'', Nothing)])
      @ [(Finish ''v'' ''a'' ''failed'', Answered False)]) @ [(Finish ''w'' ''a'' ''completed'', Answered True)]) ?r3"
    by (blast intro: db_start db_next)
  moreover have "map t_status ?r3 = [''completed'']" by (simp add: defs)
  ultimately show ?thesis by (intro exI [of _ ?r3]) (simp add: demo_day_def)
qed

theorem queue_refines_board_witness: "\<exists>b. board_run demo_day b"
  using demo_day_run queue_refines_board by blast

section \<open>One report for each claim\<close>

text \<open>The events that decide who holds a job\<close>

fun decides :: "string \<Rightarrow> call \<times> answer \<Rightarrow> bool" where
  "decides i (Take w, Given j) = (i = j)"
| "decides i (Finish w j out, Answered ok) = (i = j \<and> ok)"
| "decides i (Cancel j, Answered ok) = (i = j \<and> ok)"
| "decides i ca = False"

definition held_since :: "(call \<times> answer) list \<Rightarrow> string \<Rightarrow> string \<Rightarrow> nat \<Rightarrow> bool" where
  "held_since tr i w k \<longleftrightarrow> (\<exists>j<k. tr ! j = (Take w, Given i) \<and> (\<forall>m\<in>{j<..<k}. \<not> decides i (tr ! m)))"

lemma held_snoc: "held_since tr i w (length tr) \<Longrightarrow> \<not> decides i ca \<Longrightarrow> held_since (tr @ [ca]) i w (Suc (length tr))"
  unfolding held_since_def
proof (elim exE conjE)
  fix j assume a: "\<not> decides i ca" "j < length tr" "tr ! j = (Take w, Given i)" "\<forall>m\<in>{j<..<length tr}. \<not> decides i (tr ! m)"
  show "\<exists>j<Suc (length tr). (tr @ [ca]) ! j = (Take w, Given i) \<and> (\<forall>m\<in>{j<..<Suc (length tr)}. \<not> decides i ((tr @ [ca]) ! m))"
    using a by (intro exI [of _ j]) (auto simp: nth_append less_Suc_eq)
qed

lemma held_now: "held_since (tr @ [(Take w, Given i)]) i w (Suc (length tr))"
  unfolding held_since_def by (intro exI [of _ "length tr"]) auto

lemma running_step:
  assumes "board_step b ca b'" and "b' i = Some (r, Running w)"
  shows "ca = (Take w, Given i) \<or> (b i = Some (r, Running w) \<and> \<not> decides i ca)"
  using assms
  by (induction rule: board_step.induct) (auto simp: map_option_case restrict_map_def split: if_splits option.splits)

lemma running_held: "board_run tr b \<Longrightarrow> b i = Some (r, Running w) \<Longrightarrow> held_since tr i w (length tr)"
proof (induction arbitrary: r rule: board_run.induct)
  case (board_next tr b ca b')
  from running_step [OF board_next(2,4)] show ?case
    using board_next.IH held_snoc held_now by (metis length_append_singleton)
qed simp

lemma finish_held:
  assumes "board_run tr b" and "k < length tr" and "tr ! k = (Finish w i out, Answered True)"
  shows "held_since tr i w k"
  using assms
proof (induction rule: board_run.induct)
  case (board_next tr b ca b')
  have app: "held_since (tr @ [ca]) i w k = held_since tr i w k" if "k \<le> length tr" for k
  proof -
    have "(tr @ [ca]) ! m = tr ! m" if "m < k" for m using that \<open>k \<le> length tr\<close> by (simp add: nth_append)
    then show ?thesis unfolding held_since_def by auto
  qed
  show ?case
  proof (cases "k < length tr")
    case True
    with board_next app [of k] show ?thesis by (simp add: nth_append)
  next
    case False
    with board_next.prems have k: "k = length tr" and ca: "ca = (Finish w i out, Answered True)" by (auto simp: nth_append)
    from board_next(2) ca obtain r where "b i = Some (r, Running w)" by (auto elim: board_step.cases)
    with running_held [OF board_next(1)] app [of k] show ?thesis by (simp add: k)
  qed
qed simp

text \<open>C4: in every run of the task database a report of a worker on a task is accepted only when that
  worker claimed the task before and since then nobody claimed it, no report on it was accepted and it was not cancelled:
  every claim is closed by at most one accepted report, its own.\<close>

theorem report_needs_claim:
  assumes "db_run tr rows" and "k < length tr" and "tr ! k = (Finish w i out, Answered True)"
  shows "\<exists>j<k. tr ! j = (Take w, Given i) \<and> (\<forall>m\<in>{j<..<k}. \<not> decides i (tr ! m))"
  using finish_held [OF db_run_board [OF assms(1)] assms(2,3)] by (simp add: held_since_def)

theorem report_needs_claim_witness:
  "\<exists>j<4. demo_day ! j = (Take ''w'', Given ''a'') \<and> (\<forall>m\<in>{j<..<4}. \<not> decides ''a'' (demo_day ! m))"
proof -
  obtain rows where "db_run demo_day rows" using demo_day_run by blast
  then show ?thesis by (rule report_needs_claim [where w = "''w''" and out = "''completed''"]) (simp_all add: demo_day_def)
qed

end
