(* ===== verification/Component.thy ===== *)
theory Component
  imports PyValue
begin

text \<open>
  The base classes of the agent components (\<^verbatim>\<open>ragflow/agent/component/base.py\<close>): the parameter
  checks of \<open>ComponentParamBase\<close> and the inputs, outputs and error handling of
  \<open>ComponentBase\<close>.  A component is its entry in the canvas: name, parameters, the \<open>inputs\<close> and
  \<open>outputs\<close> dictionaries of its parameter object, its parent and its neighbours, and the
  position \<open>_idx\<close> of the loop items.  Outputs that are streaming \<open>partial\<close>s are not values here.
\<close>

section \<open>Parameter checks\<close>

definition value_error :: "string \<Rightarrow> 'a res" where
  "value_error m = Inl (Exc ValueErr m)"

definition check_string :: "pyrt \<Rightarrow> pyval \<Rightarrow> string \<Rightarrow> unit res" where
  "check_string rt p d =
     (if type_name p \<notin> {''str''}
      then value_error (d @ '' '' @ py_str rt p @ '' not supported, should be string type'') else Inr ())"

definition check_empty :: "pyval \<Rightarrow> string \<Rightarrow> unit res" where
  "check_empty p d = (if \<not> truthy p then value_error (d @ '' does not support empty value.'') else Inr ())"

text \<open>A numeric test on a parameter whose type has been checked first.\<close>

definition num_test :: "(rat \<Rightarrow> bool) \<Rightarrow> pyval \<Rightarrow> bool" where
  "num_test P v = (case num_val v of Some q \<Rightarrow> P q | None \<Rightarrow> False)"

definition check_positive_integer :: "pyrt \<Rightarrow> pyval \<Rightarrow> string \<Rightarrow> unit res" where
  "check_positive_integer rt p d =
     (if type_name p \<notin> {''int'', ''long''} \<or> num_test (\<lambda>q. q \<le> 0) p
      then value_error (d @ '' '' @ py_str rt p @ '' not supported, should be positive integer'') else Inr ())"

definition check_positive_number :: "pyrt \<Rightarrow> pyval \<Rightarrow> string \<Rightarrow> unit res" where
  "check_positive_number rt p d =
     (if type_name p \<notin> {''float'', ''int'', ''long''} \<or> num_test (\<lambda>q. q \<le> 0) p
      then value_error (d @ '' '' @ py_str rt p @ '' not supported, should be positive numeric'') else Inr ())"

definition check_nonnegative_number :: "pyrt \<Rightarrow> pyval \<Rightarrow> string \<Rightarrow> unit res" where
  "check_nonnegative_number rt p d =
     (if type_name p \<notin> {''float'', ''int'', ''long''} \<or> num_test (\<lambda>q. q < 0) p
      then value_error (d @ '' '' @ py_str rt p @ '' not supported, should be non-negative numeric'') else Inr ())"

definition check_decimal_float :: "pyrt \<Rightarrow> pyval \<Rightarrow> string \<Rightarrow> unit res" where
  "check_decimal_float rt p d =
     (if type_name p \<notin> {''float'', ''int''} \<or> num_test (\<lambda>q. q < 0) p \<or> num_test (\<lambda>q. 1 < q) p
      then value_error (d @ '' '' @ py_str rt p @ '' not supported, should be a float number in range [0, 1]'')
      else Inr ())"

definition check_boolean :: "pyrt \<Rightarrow> pyval \<Rightarrow> string \<Rightarrow> unit res" where
  "check_boolean rt p d =
     (if type_name p \<noteq> ''bool''
      then value_error (d @ '' '' @ py_str rt p @ '' not supported, should be bool type'') else Inr ())"

definition check_open_unit_interval :: "pyval \<Rightarrow> string \<Rightarrow> unit res" where
  "check_open_unit_interval p d =
     (if type_name p \<notin> {''float''} \<or> num_test (\<lambda>q. q \<le> 0) p \<or> num_test (\<lambda>q. 1 \<le> q) p
      then value_error (d @ '' should be a numeric number between 0 and 1 exclusively'') else Inr ())"

definition check_valid_value :: "pyrt \<Rightarrow> pyval \<Rightarrow> string \<Rightarrow> pyval list \<Rightarrow> unit res" where
  "check_valid_value rt p d valid =
     (if \<not> py_in p valid
      then value_error (d @ '' '' @ py_str rt p @ '' is not supported, it should be in '' @
             py_str rt (PList valid))
      else Inr ())"

definition check_defined_type :: "pyrt \<Rightarrow> pyval \<Rightarrow> string \<Rightarrow> string list \<Rightarrow> unit res" where
  "check_defined_type rt p d types =
     (if type_name p \<notin> set types
      then value_error (d @ '' '' @ py_str rt p @ '' not supported, should be one of '' @
             py_str rt (PList (map PStr types)))
      else Inr ())"

definition check_and_change_lower :: "pyrt \<Rightarrow> pyval \<Rightarrow> string list \<Rightarrow> string \<Rightarrow> string res" where
  "check_and_change_lower rt p valid d =
     (let err = value_error (d @ '' '' @ py_str rt p @ '' not supported, should be one of '' @
                  py_str rt (PList (map PStr valid)))
      in case p of
           PStr s \<Rightarrow> if lower s \<in> set valid then Inr (lower s) else err
         | _ \<Rightarrow> err)"

text \<open>\<open>settings.FLOAT_ZERO\<close>\<close>

definition FLOAT_ZERO :: rat where
  "FLOAT_ZERO = 1 / 100000000"

definition num_or_err :: "pyval \<Rightarrow> rat res" where
  "num_or_err v = (case num_val v of Some q \<Rightarrow> Inr q | None \<Rightarrow> Inl (type_err (type_name v)))"

definition greater_equal_than :: "pyrt \<Rightarrow> pyval \<Rightarrow> pyval \<Rightarrow> bool res" where
  "greater_equal_than rt v limit =
     bindR (num_or_err limit) (\<lambda>l. bindR (num_or_err v) (\<lambda>q. Inr (fround rt (l - FLOAT_ZERO) \<le> q)))"

definition less_equal_than :: "pyrt \<Rightarrow> pyval \<Rightarrow> pyval \<Rightarrow> bool res" where
  "less_equal_than rt v limit =
     bindR (num_or_err limit) (\<lambda>l. bindR (num_or_err v) (\<lambda>q. Inr (q \<le> fround rt (l + FLOAT_ZERO))))"

fun in_ranges :: "pyrt \<Rightarrow> rat \<Rightarrow> (rat \<times> rat) list \<Rightarrow> bool" where
  "in_ranges rt q [] = False"
| "in_ranges rt q ((l, r) # rs) =
     (if fround rt (l - FLOAT_ZERO) \<le> q \<and> q \<le> fround rt (r + FLOAT_ZERO) then True
      else in_ranges rt q rs)"

definition not_in_values :: "pyval \<Rightarrow> pyval list \<Rightarrow> bool" where
  "not_in_values v wrong \<longleftrightarrow> \<not> py_in v wrong"

section \<open>A component\<close>

record component =
  component_name :: string
  params :: pydict
  inputs :: "pydict dict"
  outputs :: "pydict dict"
  debug_inputs :: pydict
  parent_id :: "string option"
  downstream :: "string list"
  upstream :: "string list"
  idx :: int

definition type_repr :: "pyval \<Rightarrow> string" where
  "type_repr v = ''<class '' @ [squote] @ type_name v @ [squote] @ ''>''"

text \<open>\<open>hasattr\<close> / \<open>getattr\<close> on the parameter object\<close>

definition get_param :: "component \<Rightarrow> string \<Rightarrow> pyval" where
  "get_param c name = dget_or (params c) name PNone"

definition output_of :: "component \<Rightarrow> string \<Rightarrow> pyval" where
  "output_of c var_nm =
     (if var_nm \<noteq> [] then dget_or (dget_or (outputs c) var_nm []) ''value'' (PStr [])
      else PDict (map (\<lambda>ko. (fst ko, dget_or (snd ko) ''value'' PNone)) (outputs c)))"

definition set_output :: "string \<Rightarrow> pyval \<Rightarrow> component \<Rightarrow> component" where
  "set_output key v c =
     (let outs = (if has_key (outputs c) key then outputs c
                  else dset key [(''value'', PNone), (''type'', PStr (type_repr v))] (outputs c))
      in c\<lparr>outputs := dset key (dset ''value'' v (dget_or outs key [])) outs\<rparr>)"

definition error_of :: "component \<Rightarrow> pyval" where
  "error_of c = dget_or (dget_or (outputs c) ''_ERROR'' []) ''value'' PNone"

definition clear_values :: "pydict dict \<Rightarrow> pydict dict" where
  "clear_values d = map (\<lambda>(k, o'). (k, dset ''value'' PNone o')) d"

definition reset :: "bool \<Rightarrow> component \<Rightarrow> component" where
  "reset only_output c =
     (let c1 = c\<lparr>outputs := clear_values (outputs c)\<rparr>
      in if only_output then c1
         else c1\<lparr>inputs := clear_values (inputs c1), debug_inputs := []\<rparr>)"

definition set_input_value :: "string \<Rightarrow> pyval \<Rightarrow> component \<Rightarrow> component" where
  "set_input_value key v c =
     (let ins = (if has_key (inputs c) key then inputs c
                 else dset key [(''value'', PNone)] (inputs c))
      in c\<lparr>inputs := dset key (dset ''value'' v (dget_or ins key [])) ins\<rparr>)"

definition get_input_value :: "component \<Rightarrow> string \<Rightarrow> pyval" where
  "get_input_value c key =
     (if \<not> has_key (inputs c) key then PNone
      else dget_or (dget_or (inputs c) key []) ''value'' PNone)"

definition get_input_values :: "component \<Rightarrow> pydict" where
  "get_input_values c =
     (if debug_inputs c \<noteq> [] then debug_inputs c
      else map (\<lambda>ko. (fst ko, get_input_value c (fst ko))) (inputs c))"

section \<open>Errors of a component\<close>

definition exception_handler :: "component \<Rightarrow> (pyval \<times> pyval) option" where
  "exception_handler c =
     (if \<not> truthy (get_param c ''exception_method'') then None
      else Some (get_param c ''exception_goto'', get_param c ''exception_default_value''))"

definition get_exception_default_value :: "component \<Rightarrow> pyval" where
  "get_exception_default_value c =
     (if \<not> py_eq (get_param c ''exception_method'') (PStr ''comment'') then PStr []
      else get_param c ''exception_default_value'')"

definition set_exception_default_value :: "component \<Rightarrow> component" where
  "set_exception_default_value c = set_output ''result'' (get_exception_default_value c) c"

text \<open>\<open>str(e)\<close>\<close>

definition exc_str :: "pyexc \<Rightarrow> string" where
  "exc_str e = exc_msg e"

text \<open>
  \<open>invoke\<close>: \<open>run\<close> is the component's own \<open>_invoke\<close> on whatever state \<open>'s\<close> it works on, and
  \<open>upd\<close>, \<open>view\<close> give access to the component in it; \<open>t0\<close> is the start time and \<open>dt\<close> the
  elapsed time.  An exception ends in the outputs, never in the caller.
\<close>

definition invoke ::
  "((component \<Rightarrow> component) \<Rightarrow> 's \<Rightarrow> 's) \<Rightarrow> ('s \<Rightarrow> component) \<Rightarrow> ('s, unit) meth \<Rightarrow>
     rat \<Rightarrow> rat \<Rightarrow> 's \<Rightarrow> pyval \<times> 's" where
  "invoke upd view run t0 dt s =
     (let s1 = upd (set_output ''_created_time'' (PFloat t0)) s;
          s2 = (case run s1 of
                  (Inr _, t) \<Rightarrow> t
                | (Inl e, t) \<Rightarrow>
                    if truthy (get_exception_default_value (view t))
                    then upd set_exception_default_value t
                    else upd (set_output ''_ERROR'' (PStr (exc_str e))) t);
          s3 = upd (\<lambda>c. c\<lparr>debug_inputs := []\<rparr>) s2;
          s4 = upd (set_output ''_elapsed_time'' (PFloat dt)) s3
      in (output_of (view s4) [], s4))"

section \<open>Facts\<close>

lemma output_set_output [simp, dict_simps]:
  "k \<noteq> [] \<Longrightarrow> output_of (set_output key v c) k = (if k = key then v else output_of c k)"
  by (auto simp: output_of_def set_output_def Let_def)

lemma error_of_set_output [simp, dict_simps]:
  "error_of (set_output key v c) = (if key = ''_ERROR'' then v else error_of c)"
  by (auto simp: error_of_def set_output_def Let_def)

lemma has_key_outputs_set_output [simp, dict_simps]:
  "has_key (outputs (set_output key v c)) k \<longleftrightarrow> k = key \<or> has_key (outputs c) k"
  by (simp add: set_output_def Let_def)

lemma set_output_frame [simp]:
  "component_name (set_output k v c) = component_name c"
  "params (set_output k v c) = params c"
  "inputs (set_output k v c) = inputs c"
  "debug_inputs (set_output k v c) = debug_inputs c"
  "parent_id (set_output k v c) = parent_id c"
  "downstream (set_output k v c) = downstream c"
  "upstream (set_output k v c) = upstream c"
  "idx (set_output k v c) = idx c"
  by (simp_all add: set_output_def Let_def)

lemma get_param_set_output [simp]: "get_param (set_output k v c) n = get_param c n"
  by (simp add: get_param_def)

lemma default_value_set_output [simp]:
  "get_exception_default_value (set_output k v c) = get_exception_default_value c"
  by (simp add: get_exception_default_value_def)

lemma get_input_set_input [simp, dict_simps]:
  "get_input_value (set_input_value key v c) k = (if k = key then v else get_input_value c k)"
  by (auto simp: get_input_value_def set_input_value_def Let_def)

lemma set_input_frame [simp]:
  "outputs (set_input_value k v c) = outputs c" "params (set_input_value k v c) = params c"
  "component_name (set_input_value k v c) = component_name c"
  "parent_id (set_input_value k v c) = parent_id c" "idx (set_input_value k v c) = idx c"
  "downstream (set_input_value k v c) = downstream c"
  "upstream (set_input_value k v c) = upstream c"
  by (simp_all add: set_input_value_def Let_def)

lemma output_set_input [simp]: "output_of (set_input_value k v c) n = output_of c n"
  by (simp add: output_of_def)

lemma map_of_clear: "map_of (clear_values d) k = map_option (\<lambda>o'. dset ''value'' PNone o') (map_of d k)"
  by (simp add: clear_values_def map_of_map_snd)

lemma output_reset: "k \<noteq> [] \<Longrightarrow> output_of (reset b c) k = (if has_key (outputs c) k then PNone else PStr [])"
  by (auto simp: output_of_def reset_def Let_def dget_or_def map_of_clear has_key_def split: option.splits)

lemma error_reset: "error_of (reset b c) = PNone"
  by (auto simp: error_of_def reset_def Let_def dget_or_def map_of_clear split: option.splits)

end
