(* ===== verification/Canvas.thy ===== *)
theory Canvas
  imports Component
begin

text \<open>
  The agent canvas (\<^verbatim>\<open>ragflow/agent/canvas.py\<close>, classes \<open>Graph\<close> and \<open>Canvas\<close>): components, global
  variables, history and references, and the resolution of variable expressions
  \<open>cpn@var.path\<close>, \<open>sys.x\<close>, \<open>env.x\<close>.  The time-dependent text of \<open>sys.date\<close> and the answer of
  the cancellation store at each poll are parameters.
\<close>

section \<open>State\<close>

record canvas =
  components :: "component dict"
  globals :: pydict
  variables :: pydict
  path :: "string list"
  history :: "(string \<times> pyval) list"
  retrieval :: "pydict list"
  memory :: "(string \<times> string \<times> string) list"
  node_names :: "(string \<times> string) list"
  run_error :: pyval
  polls :: nat

record cenv =
  crt :: pyrt
  canceled_at :: "nat \<Rightarrow> bool"

type_synonym 'a cmeth = "canvas \<Rightarrow> 'a res \<times> canvas"

definition get_component :: "canvas \<Rightarrow> string \<Rightarrow> component option" where
  "get_component cv cid = dget (components cv) cid"

text \<open>\<open>self.components.get(cid)["obj"]\<close>\<close>

definition get_component_obj :: "canvas \<Rightarrow> string \<Rightarrow> component res" where
  "get_component_obj cv cid =
     (case get_component cv cid of
        Some c \<Rightarrow> Inr c
      | None \<Rightarrow> Inl (type_err ([squote] @ ''NoneType'' @ [squote] @ '' object is not subscriptable'')))"

definition upd_component :: "string \<Rightarrow> (component \<Rightarrow> component) \<Rightarrow> canvas \<Rightarrow> canvas" where
  "upd_component cid f cv =
     (case get_component cv cid of
        None \<Rightarrow> cv
      | Some c \<Rightarrow> cv\<lparr>components := dset cid (f c) (components cv)\<rparr>)"

text \<open>\<open>get_component_name\<close>: the name of the node in the drawn graph, not of the class\<close>

fun node_name :: "(string \<times> string) list \<Rightarrow> string \<Rightarrow> string" where
  "node_name [] cid = []"
| "node_name ((i, n) # ns) cid = (if cid = i then n else node_name ns cid)"

definition get_component_name :: "canvas \<Rightarrow> string \<Rightarrow> string" where
  "get_component_name cv cid = node_name (node_names cv) cid"

definition get_component_type :: "canvas \<Rightarrow> string \<Rightarrow> string res" where
  "get_component_type cv cid = bindR (get_component_obj cv cid) (\<lambda>c. Inr (component_name c))"

text \<open>Each call of \<open>is_canceled\<close> asks the store again.\<close>

definition is_canceled :: "cenv \<Rightarrow> bool cmeth" where
  "is_canceled env = (\<lambda>cv. (Inr (canceled_at env (polls cv)), cv\<lparr>polls := Suc (polls cv)\<rparr>))"

definition check_if_canceled :: "cenv \<Rightarrow> string \<Rightarrow> bool cmeth" where
  "check_if_canceled env cid =
     bindM (is_canceled env) (\<lambda>b.
       if b then seqM (modM (upd_component cid (set_output ''_ERROR'' (PStr ''Task has been canceled''))))
                  (retM True)
       else retM False)"

section \<open>Variable expressions\<close>

definition lbrace :: char where "lbrace = CHR 0x7B"
definition rbrace :: char where "rbrace = CHR 0x7D"

definition strip_exp :: "string \<Rightarrow> string" where
  "strip_exp e =
     strip_of (\<lambda>c. c = rbrace) (strip_of (\<lambda>c. c = lbrace)
       (strip_of (\<lambda>c. c = CHR '' '')
         (strip_of (\<lambda>c. c = rbrace) (strip_of (\<lambda>c. c = lbrace) e))))"

definition cant_find :: "string \<Rightarrow> string \<Rightarrow> pyexc" where
  "cant_find cid v = Exc PlainException
     (''Can'' @ [squote] @ ''t find variable: '' @ [squote] @ cid @ ''@'' @ v @ [squote])"

text \<open>Attributes of a number that are values; everything else answers None.\<close>

definition py_getattr :: "pyval \<Rightarrow> string \<Rightarrow> pyval" where
  "py_getattr v a =
     (case v of
        PBool b \<Rightarrow> (if a = ''real'' \<or> a = ''numerator'' then PInt (if b then 1 else 0)
                    else if a = ''imag'' then PInt 0 else if a = ''denominator'' then PInt 1 else PNone)
      | PInt i \<Rightarrow> (if a = ''real'' \<or> a = ''numerator'' then PInt i
                    else if a = ''imag'' then PInt 0 else if a = ''denominator'' then PInt 1 else PNone)
      | PFloat q \<Rightarrow> (if a = ''real'' then PFloat q else if a = ''imag'' then PFloat 0 else PNone)
      | _ \<Rightarrow> PNone)"

definition py_index :: "pyval list \<Rightarrow> int \<Rightarrow> pyval option" where
  "py_index xs i =
     (let j = (if i < 0 then int (length xs) + i else i)
      in if 0 \<le> j \<and> j < int (length xs) then Some (xs ! nat j) else None)"

text \<open>One step of the loop of \<open>get_variable_param_value\<close>; \<open>None\<close> ends the loop with None.\<close>

definition param_step :: "pyrt \<Rightarrow> string \<Rightarrow> pyval \<Rightarrow> pyval option" where
  "param_step rt key cur =
     (case (case cur of PStr s \<Rightarrow> json_loads rt s | _ \<Rightarrow> Some cur) of
        None \<Rightarrow> None
      | Some (PDict d) \<Rightarrow> Some (dget_or d key PNone)
      | Some (PList xs) \<Rightarrow> (case int_of_str key of None \<Rightarrow> None | Some i \<Rightarrow> py_index xs i)
      | Some v \<Rightarrow> Some (py_getattr v key))"

fun param_walk :: "pyrt \<Rightarrow> string list \<Rightarrow> pyval \<Rightarrow> pyval" where
  "param_walk rt [] cur = cur"
| "param_walk rt (key # keys) cur =
     (if cur = PNone then PNone
      else case param_step rt key cur of None \<Rightarrow> PNone | Some v \<Rightarrow> param_walk rt keys v)"

definition get_variable_param_value :: "pyrt \<Rightarrow> pyval \<Rightarrow> string \<Rightarrow> pyval" where
  "get_variable_param_value rt obj pth =
     (if pth = [] then obj else param_walk rt (split_on CHR ''.'' pth) obj)"

text \<open>
  The common beginning of reading and writing: a global, or a component with the root key
  and the rest of the path.
\<close>

datatype var_ref = GlobalRef string | ComponentRef string string string

definition resolve_exp :: "canvas \<Rightarrow> string \<Rightarrow> var_ref res" where
  "resolve_exp cv xp =
     (let e = strip_exp xp
      in if CHR ''@'' \<notin> set e then Inr (GlobalRef e)
         else case split_on CHR ''@'' e of
                [cid, var_nm] \<Rightarrow>
                  (case get_component cv cid of
                     None \<Rightarrow> Inl (cant_find cid var_nm)
                   | Some c \<Rightarrow>
                       (case split_first CHR ''.'' var_nm of
                          (rootk, rest) \<Rightarrow>
                            Inr (ComponentRef cid rootk (case rest of None \<Rightarrow> [] | Some r \<Rightarrow> r))))
              | _ \<Rightarrow> Inl (Exc ValueErr ''too many values to unpack (expected 2)''))"

definition get_variable_value :: "pyrt \<Rightarrow> string \<Rightarrow> canvas \<Rightarrow> pyval res" where
  "get_variable_value rt xp cv =
     bindR (resolve_exp cv xp) (\<lambda>r. case r of
         GlobalRef e \<Rightarrow> (case dget (globals cv) e of None \<Rightarrow> Inl (key_err e) | Some v \<Rightarrow> Inr v)
       | ComponentRef cid rootk rest \<Rightarrow>
           bindR (get_component_obj cv cid) (\<lambda>c.
             let root_val = output_of c rootk
             in if rest = [] then Inr root_val else Inr (get_variable_param_value rt root_val rest)))"

text \<open>
  \<open>set_variable_param_value\<close> walks down all the keys of the path, creating dictionaries, and
  then stores under the last key once more.
\<close>

fun set_param_path :: "string list \<Rightarrow> string \<Rightarrow> pyval \<Rightarrow> pydict \<Rightarrow> pydict" where
  "set_param_path [] last_key v d = dset last_key v d"
| "set_param_path (key # keys) last_key v d =
     (let sub = (case dget d key of Some (PDict e) \<Rightarrow> e | _ \<Rightarrow> [])
      in dset key (PDict (set_param_path keys last_key v sub)) d)"

definition set_variable_param_value :: "pyval \<Rightarrow> string \<Rightarrow> pyval \<Rightarrow> pyval res" where
  "set_variable_param_value obj pth v =
     (if pth = [] then Inr v
      else let keys = split_on CHR ''.'' pth
           in case obj of
                PDict d \<Rightarrow> Inr (PDict (set_param_path keys (last keys) v d))
              | _ \<Rightarrow> Inl (type_err (type_name obj @ '' object does not support item assignment'')))"

definition set_variable_value :: "string \<Rightarrow> pyval \<Rightarrow> unit cmeth" where
  "set_variable_value xp v =
     (\<lambda>cv. case resolve_exp cv xp of
        Inl e \<Rightarrow> (Inl e, cv)
      | Inr (GlobalRef e) \<Rightarrow> (Inr (), cv\<lparr>globals := dset e v (globals cv)\<rparr>)
      | Inr (ComponentRef cid rootk rest) \<Rightarrow>
          (case get_component cv cid of
             None \<Rightarrow> (Inl (cant_find cid rootk), cv)
           | Some c \<Rightarrow>
               if rest = [] then (Inr (), upd_component cid (set_output rootk v) cv)
               else let root_val = py_or (output_of c rootk) (PDict [])
                    in case set_variable_param_value root_val rest v of
                         Inl e \<Rightarrow> (Inl e, cv)
                       | Inr w \<Rightarrow> (Inr (), upd_component cid (set_output rootk w) cv)))"

definition is_reff :: "canvas \<Rightarrow> string \<Rightarrow> bool" where
  "is_reff cv xp =
     (let e = strip_of (\<lambda>c. c = rbrace) (strip_of (\<lambda>c. c = lbrace) xp)
      in if CHR ''@'' \<notin> set e then has_key (globals cv) e
         else case split_on CHR ''@'' e of
                [cid, _] \<Rightarrow> get_component cv cid \<noteq> None
              | _ \<Rightarrow> False)"

section \<open>Text with variables\<close>

text \<open>
  The reference pattern: any opening braces, spaces, a brace, the expression, a brace, spaces,
  any closing braces.  \<open>match_ref\<close> is a match at the head of the text: the expression and what
  follows the match.
\<close>

definition is_cpn_char :: "char \<Rightarrow> bool" where
  "is_cpn_char c \<longleftrightarrow> is_alpha c \<or> is_digit c \<or> c = CHR '':''"

definition is_dot_char :: "char \<Rightarrow> bool" where
  "is_dot_char c \<longleftrightarrow> is_alpha c \<or> is_digit c \<or> c = CHR ''_'' \<or> c = CHR ''.''"

definition is_var_char :: "char \<Rightarrow> bool" where
  "is_var_char c \<longleftrightarrow> is_dot_char c \<or> c = CHR ''-''"

definition match_plus :: "(char \<Rightarrow> bool) \<Rightarrow> string \<Rightarrow> (string \<times> string) option" where
  "match_plus P s = (case takeWhile P s of [] \<Rightarrow> None | w \<Rightarrow> Some (w, dropWhile P s))"

text \<open>A literal; with \<open>ic\<close> under \<open>re.IGNORECASE\<close>\<close>

definition match_lit :: "bool \<Rightarrow> string \<Rightarrow> string \<Rightarrow> string option" where
  "match_lit ic p s = (if starts_with (if ic then lower s else s) p then Some (drop (length p) s) else None)"

definition match_cpn_ref :: "string \<Rightarrow> (string \<times> string) option" where
  "match_cpn_ref s =
     (case match_plus is_cpn_char s of
        Some (w, c # r) \<Rightarrow>
          (if c \<noteq> CHR ''@'' then None
           else case match_plus is_var_char r of
                  Some (v, b # t) \<Rightarrow> if b = rbrace then Some (w @ ''@'' @ v, t) else None
                | _ \<Rightarrow> None)
      | _ \<Rightarrow> None)"

definition match_dot_ref :: "bool \<Rightarrow> string \<Rightarrow> string \<Rightarrow> (string \<times> string) option" where
  "match_dot_ref ic p s =
     (case match_lit ic p s of
        None \<Rightarrow> None
      | Some r \<Rightarrow>
          (case match_plus is_dot_char r of
             Some (v, b # t) \<Rightarrow> if b = rbrace then Some (take (length p) s @ v, t) else None
           | _ \<Rightarrow> None))"

definition match_exp :: "bool \<Rightarrow> string \<Rightarrow> (string \<times> string) option" where
  "match_exp ic s =
     (case match_cpn_ref s of
        Some r \<Rightarrow> Some r
      | None \<Rightarrow> (case match_dot_ref ic ''sys.'' s of Some r \<Rightarrow> Some r | None \<Rightarrow> match_dot_ref ic ''env.'' s))"

definition is_sp :: "char \<Rightarrow> bool" where
  "is_sp c \<longleftrightarrow> c = CHR '' ''"

text \<open>
  After the run of opening braces and of spaces: the brace that opens the expression is the
  next character, or else the last brace of the run (no space may follow it then).
\<close>

definition match_ref :: "bool \<Rightarrow> string \<Rightarrow> (string \<times> string) option" where
  "match_ref ic s =
     (let bs = takeWhile (\<lambda>c. c = lbrace) s;
          r = dropWhile (\<lambda>c. c = lbrace) s;
          r2 = dropWhile is_sp r;
          tail = (\<lambda>er. case er of None \<Rightarrow> None
                   | Some (e, t) \<Rightarrow> Some (e, dropWhile (\<lambda>c. c = rbrace) (dropWhile is_sp t)))
      in case r2 of
           c # r3 \<Rightarrow> if c = lbrace then tail (match_exp ic r3)
                     else if bs \<noteq> [] then tail (match_exp ic r) else None
         | [] \<Rightarrow> None)"

lemma match_plus_length: "match_plus P s = Some (w, r) \<Longrightarrow> length r < length s"
proof -
  assume "match_plus P s = Some (w, r)"
  then have "takeWhile P s \<noteq> []" "r = dropWhile P s"
    by (auto simp: match_plus_def split: list.splits)
  moreover have "length s = length (takeWhile P s) + length (dropWhile P s)"
    by (metis length_append takeWhile_dropWhile_id)
  ultimately show ?thesis by simp
qed

lemma match_lit_length: "match_lit ic p s = Some r \<Longrightarrow> length r \<le> length s"
  by (auto simp: match_lit_def split: if_splits)

lemma match_exp_length: "match_exp ic s = Some (e, t) \<Longrightarrow> length t < length s"
proof -
  have a: "match_cpn_ref s = Some (e, t) \<Longrightarrow> length t < length s" for s e t
    by (auto simp: match_cpn_ref_def split: option.splits list.splits if_splits
        dest!: match_plus_length)
  have b: "match_dot_ref ic p s = Some (e, t) \<Longrightarrow> length t < length s" for p s e t
    by (auto simp: match_dot_ref_def split: option.splits list.splits if_splits
        dest!: match_plus_length match_lit_length)
  assume "match_exp ic s = Some (e, t)"
  then show ?thesis by (auto simp: match_exp_def split: option.splits dest: a b)
qed

lemma match_ref_length: "match_ref ic s = Some (e, t) \<Longrightarrow> length t < length s"
proof -
  have le: "length (dropWhile P x) \<le> length x" for P :: "char \<Rightarrow> bool" and x
    by (rule length_dropWhile_le)
  assume m: "match_ref ic s = Some (e, t)"
  define r where "r = dropWhile (\<lambda>c. c = lbrace) s"
  obtain u x where u: "match_exp ic u = Some (e, x)" "length u \<le> length s"
    "t = dropWhile (\<lambda>c. c = rbrace) (dropWhile is_sp x)"
  proof (cases "dropWhile is_sp r")
    case Nil
    with m show ?thesis by (simp add: match_ref_def Let_def r_def del: dropWhile_eq_Nil_conv)
  next
    case (Cons c r3)
    have "length (c # r3) \<le> length s"
      unfolding Cons [symmetric] r_def using le [of is_sp] le order_trans by blast
    then have "length r3 \<le> length s" "length r \<le> length s" by (simp_all add: r_def le)
    with m Cons that show ?thesis
      by (auto simp: match_ref_def Let_def r_def split: if_splits option.splits)
  qed
  have "length t \<le> length x" unfolding u(3) by (meson le order_trans)
  with match_exp_length [OF u(1)] u(2) show ?thesis by simp
qed

text \<open>
  \<open>re.finditer\<close> from left to right, each match replaced: the first position at which the
  pattern matches, then on behind the match.
\<close>

function subst_refs :: "(string \<Rightarrow> string res) \<Rightarrow> string \<Rightarrow> string res" where
  "subst_refs rep s =
     (case s of
        [] \<Rightarrow> Inr []
      | c # cs \<Rightarrow>
          (case match_ref False s of
             Some (e, t) \<Rightarrow> bindR (rep e) (\<lambda>v. bindR (subst_refs rep t) (\<lambda>w. Inr (v @ w)))
           | None \<Rightarrow> bindR (subst_refs rep cs) (\<lambda>w. Inr (c # w))))"
  by pat_completeness auto
termination
  by (relation "measure (\<lambda>(rep, s). length s)") (auto dest: match_ref_length)

declare subst_refs.simps [simp del]

text \<open>The expressions found in a text, in the same order (\<open>get_input_elements_from_text\<close>).\<close>

function find_refs :: "string \<Rightarrow> string list" where
  "find_refs s =
     (case s of
        [] \<Rightarrow> []
      | c # cs \<Rightarrow> (case match_ref True s of Some (e, t) \<Rightarrow> e # find_refs t | None \<Rightarrow> find_refs cs))"
  by pat_completeness auto
termination
  by (relation "measure length") (auto dest: match_ref_length)

declare find_refs.simps [simp del]

definition var_text :: "pyrt \<Rightarrow> pyval \<Rightarrow> string" where
  "var_text rt v = (case v of PNone \<Rightarrow> [] | PStr s \<Rightarrow> s | _ \<Rightarrow> json_dumps rt v)"

definition get_value_with_variable :: "pyrt \<Rightarrow> string \<Rightarrow> canvas \<Rightarrow> string res" where
  "get_value_with_variable rt value cv =
     subst_refs (\<lambda>key. bindR (get_variable_value rt key cv) (\<lambda>v. Inr (var_text rt v))) value"

section \<open>Inputs of a component\<close>

definition get_input_elements_from_text :: "pyrt \<Rightarrow> string \<Rightarrow> canvas \<Rightarrow> pydict res" where
  "get_input_elements_from_text rt txt cv =
     bindR (mapR (\<lambda>xp.
         let (cid, var_nm) = (case split_on CHR ''@'' xp of [c, v] \<Rightarrow> if c \<noteq> [] then (c, v) else ([], xp)
                                | _ \<Rightarrow> ([], xp))
         in bindR (get_variable_value rt xp cv) (\<lambda>v.
            bindR (if cid \<noteq> [] then get_variable_value rt (cid @ ''@_references'') cv else Inr PNone) (\<lambda>refs.
              Inr (xp, PDict [(''name'', PStr (if cid \<noteq> [] then get_component_name cv cid @ ''@'' @ var_nm else xp)),
                               (''value'', v), (''_retrieval'', refs), (''_cpn_id'', PStr cid)]))))
       (find_refs txt))
     (\<lambda>kvs. Inr (dset_all [] kvs))"

text \<open>
  The loop of \<open>get_input()\<close> over the names of the input elements: the inputs of a component filled
  from its parameters.
\<close>

fun get_input_loop :: "pyrt \<Rightarrow> string \<Rightarrow> string list \<Rightarrow> pydict \<Rightarrow> pydict cmeth" where
  "get_input_loop rt cid [] res cv = (Inr res, cv)"
| "get_input_loop rt cid (var # vars) res cv =
     (case get_component cv cid of
        None \<Rightarrow> (Inl (type_err ''NoneType''), cv)
      | Some c \<Rightarrow>
          (case get_param c var of
             PNone \<Rightarrow> get_input_loop rt cid vars res cv
           | v \<Rightarrow>
               (case (case v of
                        PStr s \<Rightarrow> if is_reff cv s then get_variable_value rt s cv else Inr v
                      | _ \<Rightarrow> Inr v) of
                  Inl e \<Rightarrow> (Inl e, cv)
                | Inr w \<Rightarrow>
                    get_input_loop rt cid vars (dset var w res) (upd_component cid (set_input_value var w) cv))))"

definition get_parent :: "canvas \<Rightarrow> string \<Rightarrow> (string \<times> component) option res" where
  "get_parent cv cid =
     bindR (get_component_obj cv cid) (\<lambda>c.
       case parent_id c of
         None \<Rightarrow> Inr None
       | Some pid \<Rightarrow> if pid = [] then Inr None
                     else bindR (get_component_obj cv pid) (\<lambda>p. Inr (Some (pid, p))))"

end
