(* ===== verification/CanvasSpec.thy ===== *)
theory CanvasSpec
  imports Canvas
begin

text \<open>
  What the variables of a canvas promise: a variable that is assigned reads back as assigned and
  leaves the others alone; an assignment below a variable lands one key too deep; and the
  substitution of references in a text.
\<close>

section \<open>Assigning and reading variables\<close>

text \<open>A reference to a whole variable, not to a part of its value\<close>

fun whole_var :: "var_ref \<Rightarrow> bool" where
  "whole_var (GlobalRef e) = True"
| "whole_var (ComponentRef cid k rest) = (k \<noteq> [] \<and> rest = [])"

text \<open>Reading the second touches the variable of the first; an empty root key reads all outputs.\<close>

fun touches :: "var_ref \<Rightarrow> var_ref \<Rightarrow> bool" where
  "touches (GlobalRef a) (GlobalRef b) = (a = b)"
| "touches (ComponentRef c k r) (ComponentRef c' k' r') = (c = c' \<and> (k' = k \<or> k' = []))"
| "touches _ _ = False"

lemma get_component_upd:
  "get_component (upd_component cid f cv) c =
     (if c = cid then map_option f (get_component cv c) else get_component cv c)"
  by (auto simp: upd_component_def get_component_def split: option.splits)

lemma globals_upd [simp]: "globals (upd_component cid f cv) = globals cv"
  by (simp add: upd_component_def split: option.splits)

lemma get_component_globals [simp]: "get_component (cv\<lparr>globals := g\<rparr>) c = get_component cv c"
  by (simp add: get_component_def)

lemma resolve_upd [simp]: "resolve_exp (upd_component cid f cv) xp = resolve_exp cv xp"
  by (auto simp: resolve_exp_def get_component_upd Let_def split: list.splits option.splits prod.splits)

lemma resolve_globals [simp]: "resolve_exp (cv\<lparr>globals := g\<rparr>) xp = resolve_exp cv xp"
  unfolding resolve_exp_def get_component_globals ..

lemma resolve_component:
  "resolve_exp cv xp = Inr (ComponentRef cid k rest) \<Longrightarrow> \<exists>c. get_component cv cid = Some c"
  by (auto simp: resolve_exp_def Let_def split: list.splits option.splits prod.splits if_splits)

text \<open>The value a reference reads\<close>

lemma get_value_cases:
  "get_variable_value rt xp cv =
     (case resolve_exp cv xp of
        Inl e \<Rightarrow> Inl e
      | Inr (GlobalRef e) \<Rightarrow> (case dget (globals cv) e of None \<Rightarrow> Inl (key_err e) | Some v \<Rightarrow> Inr v)
      | Inr (ComponentRef cid k rest) \<Rightarrow>
          (case get_component cv cid of
             None \<Rightarrow> Inl (type_err ([squote] @ ''NoneType'' @ [squote] @ '' object is not subscriptable''))
           | Some c \<Rightarrow> Inr (get_variable_param_value rt (output_of c k) rest)))"
  by (auto simp: get_variable_value_def bindR_def get_component_obj_def get_variable_param_value_def
      Let_def split: sum.split var_ref.split option.split)

lemma output_all_frame: "k' \<noteq> [] \<Longrightarrow> k' \<noteq> k \<Longrightarrow> output_of (set_output k v c) k' = output_of c k'"
  by simp

text \<open>Assigning a variable (a global, or an output of a component) never raises, the variable
  then reads as assigned, every expression still resolves as before, and every expression that does not name that
  variable reads as before.\<close>

theorem variable_set_get:
  assumes "resolve_exp cv xp = Inr r" and "whole_var r"
  shows "\<exists>cv'. set_variable_value xp v cv = (Inr (), cv') \<and> get_variable_value rt xp cv' = Inr v \<and>
     (\<forall>yp. resolve_exp cv' yp = resolve_exp cv yp) \<and>
     (\<forall>yp r'. resolve_exp cv yp = Inr r' \<longrightarrow> \<not> touches r r' \<longrightarrow>
        get_variable_value rt yp cv' = get_variable_value rt yp cv)"
proof (cases r)
  case (GlobalRef e)
  with assms show ?thesis
    by (auto simp: set_variable_value_def get_value_cases split: var_ref.splits option.splits)
next
  case (ComponentRef cid k rest)
  with assms have k: "k \<noteq> []" "rest = []" by simp_all
  obtain c where c: "get_component cv cid = Some c"
    using resolve_component assms(1) ComponentRef by blast
  let ?cv = "upd_component cid (set_output k v) cv"
  have "set_variable_value xp v cv = (Inr (), ?cv)"
    using assms(1) ComponentRef c k by (simp add: set_variable_value_def)
  moreover have "get_variable_value rt xp ?cv = Inr v"
    using assms(1) ComponentRef c k by (simp add: get_value_cases get_component_upd get_variable_param_value_def)
  moreover have "get_variable_value rt yp ?cv = get_variable_value rt yp cv"
    if "resolve_exp cv yp = Inr r'" "\<not> touches r r'" for yp r'
    using that ComponentRef
    by (cases r') (auto simp: get_value_cases get_component_upd split: option.splits)
  ultimately show ?thesis by auto
qed

definition demo_cv :: canvas where
  "demo_cv = \<lparr> components = [(''c'', \<lparr> component_name = ''Message'', params = [], inputs = [],
        outputs = [(''o'', [(''value'', PInt 1)])], debug_inputs = [], parent_id = None, downstream = [],
        upstream = [], idx = 0 \<rparr>)],
     globals = [(''sys.query'', PStr ''hi'')], variables = [], path = [], history = [], retrieval = [],
     memory = [], node_names = [], run_error = PNone, polls = 0 \<rparr>"

theorem variable_set_get_witness:
  "\<exists>cv'. set_variable_value ''c@o'' (PInt 2) demo_cv = (Inr (), cv') \<and>
     get_variable_value plain_rt ''c@o'' cv' = Inr (PInt 2) \<and>
     get_variable_value plain_rt ''sys.query'' cv' = get_variable_value plain_rt ''sys.query'' demo_cv"
proof -
  have r: "resolve_exp demo_cv ''c@o'' = Inr (ComponentRef ''c'' ''o'' [])"
    by (simp add: resolve_exp_def strip_exp_def strip_of_def demo_cv_def get_component_def lbrace_def rbrace_def Let_def)
  have "resolve_exp demo_cv ''sys.query'' = Inr (GlobalRef ''sys.query'')"
    by (simp add: resolve_exp_def strip_exp_def strip_of_def lbrace_def rbrace_def Let_def)
  with variable_set_get [OF r, where rt = plain_rt and v = "PInt 2"] show ?thesis by fastforce
qed

text \<open>Any sequence of assignments to globals: each global reads as the last one assigned to it.\<close>

interpretation gs: keyed_store "\<lambda>k g. map_option (Pair k) (dget g k)" "\<lambda>kv g. dset (fst kv) (snd kv) g" fst
  "(=) :: string \<Rightarrow> string \<Rightarrow> bool"
  by unfold_locales auto

definition global_name :: "string \<Rightarrow> bool" where
  "global_name e \<longleftrightarrow> strip_exp e = e \<and> CHR ''@'' \<notin> set e"

lemma resolve_global: "global_name e \<Longrightarrow> resolve_exp cv e = Inr (GlobalRef e)"
  by (simp add: global_name_def resolve_exp_def Let_def)

lemma set_globals:
  assumes "\<forall>kv\<in>set kvs. global_name (fst kv)"
  shows "forM (\<lambda>kv. set_variable_value (fst kv) (snd kv)) kvs cv =
     (Inr (), cv\<lparr>globals := fold (\<lambda>kv g. dset (fst kv) (snd kv) g) kvs (globals cv)\<rparr>)"
  using assms
proof (induction kvs arbitrary: cv)
  case (Cons kv kvs)
  have "set_variable_value (fst kv) (snd kv) cv =
      (Inr (), cv\<lparr>globals := dset (fst kv) (snd kv) (globals cv)\<rparr>)"
    using Cons.prems by (simp add: set_variable_value_def resolve_global)
  with Cons show ?case by (simp add: seqM_def bindM_def)
qed simp

text \<open>A sequence of assignments to globals never raises and changes nothing but the globals; each
  global then reads as the last value assigned to it, and as before when none was.\<close>

theorem globals_last_write:
  assumes "\<forall>kv\<in>set kvs. global_name (fst kv)" and "global_name k"
  shows "\<exists>g. forM (\<lambda>kv. set_variable_value (fst kv) (snd kv)) kvs cv = (Inr (), cv\<lparr>globals := g\<rparr>) \<and>
     get_variable_value rt k (cv\<lparr>globals := g\<rparr>) =
       (case filter (\<lambda>kv. k = fst kv) (rev kvs) of
          [] \<Rightarrow> get_variable_value rt k cv
        | kv # _ \<Rightarrow> Inr (snd kv))"
proof -
  let ?g = "fold (\<lambda>kv g. dset (fst kv) (snd kv) g) kvs (globals cv)"
  have "get_variable_value rt k (cv\<lparr>globals := ?g\<rparr>) =
     (case filter (\<lambda>kv. k = fst kv) (rev kvs) of
        [] \<Rightarrow> get_variable_value rt k cv | kv # _ \<Rightarrow> Inr (snd kv))"
    using gs.load_fold_save [of k kvs "globals cv"] assms(2)
    by (cases "dget (globals cv) k") (auto simp: get_value_cases resolve_global split: list.splits option.splits)
  with set_globals [OF assms(1)] show ?thesis by blast
qed

theorem globals_last_write_witness:
  "\<exists>g. forM (\<lambda>kv. set_variable_value (fst kv) (snd kv))
        [(''env.a'', PInt 1), (''env.b'', PInt 2), (''env.a'', PInt 3)] demo_cv = (Inr (), demo_cv\<lparr>globals := g\<rparr>) \<and>
     get_variable_value plain_rt ''env.a'' (demo_cv\<lparr>globals := g\<rparr>) = Inr (PInt 3)"
  using globals_last_write [of "[(''env.a'', PInt 1), (''env.b'', PInt 2), (''env.a'', PInt 3)]" "''env.a''"
      demo_cv plain_rt]
  by (simp add: global_name_def strip_exp_def strip_of_def lbrace_def rbrace_def del: forM.simps)

section \<open>Assigning below a variable\<close>

lemma param_walk_dicts:
  "keys \<noteq> [] \<Longrightarrow> \<exists>e. param_walk rt keys (PDict (set_param_path keys l v d)) = PDict e \<and> dget e l = Some v"
proof (induction keys arbitrary: d)
  case (Cons key keys)
  show ?case
  proof (cases keys)
    case Nil
    then show ?thesis by (simp add: param_step_def dget_or_def Let_def)
  next
    case (Cons a list)
    then show ?thesis using Cons.IH by (simp add: param_step_def dget_or_def Let_def)
  qed
qed simp

text \<open>An assignment to \<open>cpn@key.path\<close> of an output that is a dictionary (or false) succeeds,
  but the path then reads as a dictionary that has the value under the path's last key once more:
  it never reads as the value assigned.\<close>

theorem nested_write_doubles:
  assumes "resolve_exp cv xp = Inr (ComponentRef cid k rest)" and "k \<noteq> []" and "rest \<noteq> []"
    and "get_component cv cid = Some c" and "is_dict (output_of c k) \<or> \<not> truthy (output_of c k)"
  shows "\<exists>cv' e. set_variable_value xp v cv = (Inr (), cv') \<and>
     get_variable_value rt xp cv' = Inr (PDict e) \<and>
     dget e (last (split_on CHR ''.'' rest)) = Some v \<and> get_variable_value rt xp cv' \<noteq> Inr v"
proof -
  have "is_dict (py_or (output_of c k) (PDict []))"
    using assms(5) by (auto simp: py_or_def)
  then obtain d where d: "py_or (output_of c k) (PDict []) = PDict d"
    by (cases "py_or (output_of c k) (PDict [])") auto
  let ?keys = "split_on CHR ''.'' rest"
  let ?w = "PDict (set_param_path ?keys (last ?keys) v d)"
  let ?cv = "upd_component cid (set_output k ?w) cv"
  obtain e where e: "param_walk rt ?keys ?w = PDict e" "dget e (last ?keys) = Some v"
    using param_walk_dicts [of ?keys] split_on_nonempty by blast
  have "set_variable_value xp v cv = (Inr (), ?cv)"
    using assms d by (simp add: set_variable_value_def set_variable_param_value_def Let_def)
  moreover have "get_variable_value rt xp ?cv = Inr (PDict e)"
    using assms e by (simp add: get_value_cases get_component_upd get_variable_param_value_def)
  moreover have "PDict e \<noteq> v" using size_dget [OF e(2)] by auto
  ultimately show ?thesis using e(2) by auto
qed

theorem nested_write_doubles_witness:
  "\<exists>cv' e. set_variable_value ''c@d.x'' (PInt 2) demo_cv = (Inr (), cv') \<and>
     get_variable_value plain_rt ''c@d.x'' cv' = Inr (PDict e) \<and> dget e ''x'' = Some (PInt 2)"
proof -
  have r: "resolve_exp demo_cv ''c@d.x'' = Inr (ComponentRef ''c'' ''d'' ''x'')"
    by (simp add: resolve_exp_def strip_exp_def strip_of_def demo_cv_def get_component_def lbrace_def rbrace_def Let_def)
  obtain c where c: "get_component demo_cv ''c'' = Some c" "output_of c ''d'' = PStr []"
    by (simp add: demo_cv_def get_component_def output_of_def dget_or_def)
  show ?thesis
    using nested_write_doubles [OF r _ _ c(1), where rt = plain_rt and v = "PInt 2"] c(2) by auto
qed

section \<open>References in a text\<close>

lemma match_ref_plain:
  assumes "lbrace \<notin> set a" and "a \<noteq> []" and "last a \<noteq> CHR '' ''"
  shows "match_ref ic (a @ t) = None"
proof -
  have hd: "hd a \<noteq> lbrace" using assms(1,2) by (cases a) auto
  obtain c b where cb: "dropWhile is_sp a = c # b"
    using assms(2,3) by (cases "dropWhile is_sp a") (auto simp: dropWhile_eq_Nil_conv is_sp_def)
  then have "c \<noteq> lbrace"
    using assms(1) by (metis list.set_intros(1) set_dropWhileD)
  moreover have "dropWhile is_sp (a @ t) = c # b @ t"
    using cb by (metis append_Cons dropWhile_append1 dropWhile_eq_Nil_conv list.distinct(1))
  moreover have "takeWhile (\<lambda>c. c = lbrace) (a @ t) = []" "dropWhile (\<lambda>c. c = lbrace) (a @ t) = a @ t"
    using hd assms(2) by (cases a; auto)+
  ultimately show ?thesis by (simp add: match_ref_def Let_def)
qed

lemma subst_refs_plain:
  assumes "lbrace \<notin> set a" and "a = [] \<or> last a \<noteq> CHR '' ''"
  shows "subst_refs rep (a @ t) = bindR (subst_refs rep t) (\<lambda>w. Inr (a @ w))"
  using assms
proof (induction a)
  case Nil
  then show ?case by (cases "subst_refs rep t") auto
next
  case (Cons x a)
  have "match_ref False ((x # a) @ t) = None"
    using Cons.prems match_ref_plain by blast
  then show ?case
    using Cons by (subst subst_refs.simps) (auto simp: bindR_def split: sum.splits if_splits)
qed

lemma match_dot_head:
  assumes "match_dot_ref False p s = Some r" and "p = x # q"
  shows "s \<noteq> [] \<and> hd s = x"
  using assms by (cases s) (auto simp: match_dot_ref_def match_lit_def starts_with_def split: if_splits)

lemma match_cpn_head:
  assumes "match_cpn_ref s = Some r"
  shows "s \<noteq> [] \<and> is_cpn_char (hd s)"
  using assms by (cases s) (auto simp: match_cpn_ref_def match_plus_def split: if_splits)

lemma match_exp_head:
  assumes "match_exp False s = Some r"
  shows "s \<noteq> [] \<and> hd s \<noteq> lbrace \<and> \<not> is_sp (hd s)"
proof -
  have no: "\<not> is_cpn_char lbrace" "\<not> is_cpn_char (CHR '' '')"
    by code_simp+
  from assms consider "match_cpn_ref s = Some r" | "match_dot_ref False ''sys.'' s = Some r"
    | "match_dot_ref False ''env.'' s = Some r"
    by (auto simp: match_exp_def split: option.splits)
  then show ?thesis
  proof cases
    case 1
    then show ?thesis using match_cpn_head [OF 1] no by (auto simp: is_sp_def)
  next
    case 2
    then show ?thesis using match_dot_head [of "''sys.''"] by (fastforce simp: is_sp_def lbrace_def)
  next
    case 3
    then show ?thesis using match_dot_head [of "''env.''"] by (fastforce simp: is_sp_def lbrace_def)
  qed
qed

lemma dropWhile_spaces: "s = [] \<or> \<not> is_sp (hd s) \<Longrightarrow> dropWhile is_sp (replicate n CHR '' '' @ s) = s"
  by (induction n; cases s) (auto simp: is_sp_def)

text \<open>A reference matches from the spaces before its brace to the braces behind the spaces after it.\<close>

lemma match_ref_reference:
  assumes "match_exp False (e @ rbrace # b) = Some (e, b)"
  shows "match_ref False (replicate n CHR '' '' @ lbrace # e @ rbrace # b) =
     Some (e, dropWhile (\<lambda>c. c = rbrace) (dropWhile is_sp b))"
proof -
  let ?r = "e @ rbrace # b"
  have h: "?r \<noteq> []" "hd ?r \<noteq> lbrace" "\<not> is_sp (hd ?r)" using match_exp_head [OF assms] by auto
  have tw: "takeWhile (\<lambda>c. c = lbrace) ?r = []" "dropWhile (\<lambda>c. c = lbrace) ?r = ?r" "dropWhile is_sp ?r = ?r"
    using h by (cases ?r; simp)+
  obtain c q where cq: "?r = c # q" by (cases ?r) auto
  have sp: "lbrace \<noteq> CHR '' ''" "\<not> is_sp lbrace" by (simp_all add: lbrace_def is_sp_def)
  show ?thesis
  proof (cases n)
    case 0
    then show ?thesis using tw cq h assms by (simp add: match_ref_def Let_def)
  next
    case (Suc m)
    have "dropWhile is_sp (replicate n CHR '' '' @ lbrace # ?r) = lbrace # ?r"
      using dropWhile_spaces [of "lbrace # ?r" n] sp by simp
    then show ?thesis using Suc sp assms by (simp add: match_ref_def Let_def)
  qed
qed

text \<open>In a text, a reference to a variable is replaced by the variable's text, or raises as
  reading the variable does; what stands before it and after it is kept and substituted on its own, but any spaces
  on either side of the reference, and braces after them, are dropped: the result does not depend on \<open>n\<close> and \<open>m\<close>.\<close>

theorem reference_replaced:
  assumes "lbrace \<notin> set a" and "a = [] \<or> last a \<noteq> CHR '' ''" and "b = [] \<or> hd b \<noteq> CHR '' ''"
    and "match_exp False (e @ rbrace # replicate m CHR '' '' @ b) = Some (e, replicate m CHR '' '' @ b)"
  shows "get_value_with_variable rt (a @ replicate n CHR '' '' @ lbrace # e @ rbrace # replicate m CHR '' '' @ b) cv =
     bindR (get_variable_value rt e cv) (\<lambda>v.
     bindR (get_value_with_variable rt (dropWhile (\<lambda>c. c = rbrace) b) cv) (\<lambda>w.
       Inr (a @ var_text rt v @ w)))"
proof -
  let ?t = "replicate n CHR '' '' @ lbrace # e @ rbrace # replicate m CHR '' '' @ b"
  have "match_ref False ?t = Some (e, dropWhile (\<lambda>c. c = rbrace) b)"
    using match_ref_reference [OF assms(4), of n] dropWhile_spaces [of b m] assms(3) by (simp add: is_sp_def)
  moreover obtain c q where "?t = c # q" by (cases ?t) auto
  ultimately have "get_value_with_variable rt ?t cv =
     bindR (get_variable_value rt e cv) (\<lambda>v.
     bindR (get_value_with_variable rt (dropWhile (\<lambda>c. c = rbrace) b) cv) (\<lambda>w. Inr (var_text rt v @ w)))"
    unfolding get_value_with_variable_def
    by (subst subst_refs.simps) (auto simp: bindR_def split: sum.splits)
  then show ?thesis
    unfolding get_value_with_variable_def subst_refs_plain [OF assms(1,2)]
    by (auto simp: bindR_def split: sum.splits)
qed

theorem reference_replaced_witness:
  "get_value_with_variable plain_rt ''say {sys.query} now'' demo_cv = Inr ''sayhinow''"
proof -
  have "match_exp False (''sys.query'' @ rbrace # replicate 1 CHR '' '' @ ''now'') =
      Some (''sys.query'', replicate 1 CHR '' '' @ ''now'')"
    by code_simp
  moreover have "get_value_with_variable plain_rt ''now'' demo_cv = Inr ''now''"
    using subst_refs_plain [of "''now''" _ "[]"]
    by (simp add: get_value_with_variable_def lbrace_def subst_refs.simps)
  moreover have "get_variable_value plain_rt ''sys.query'' demo_cv = Inr (PStr ''hi'')"
    by (simp add: get_value_cases resolve_exp_def strip_exp_def strip_of_def demo_cv_def lbrace_def rbrace_def Let_def)
  ultimately show ?thesis
    using reference_replaced [of "''say''" "''now''" "''sys.query''" 1 plain_rt 1 demo_cv]
    by (simp add: lbrace_def rbrace_def var_text_def)
qed

end
