(* ===== verification/Loops.thy ===== *)
theory Loops
  imports Canvas
begin

text \<open>
  The container components and their items (\<^verbatim>\<open>loop.py\<close>, \<^verbatim>\<open>loopitem.py\<close>, \<^verbatim>\<open>iteration.py\<close>,
  \<^verbatim>\<open>iterationitem.py\<close>, \<^verbatim>\<open>exit_loop.py\<close> of \<^verbatim>\<open>ragflow/agent/component\<close>).  The item keeps its position in
  \<open>_idx\<close>; -1 means the container is done.
\<close>

section \<open>Reading a parameter as a list or a variable name\<close>

definition param_or :: "component \<Rightarrow> string \<Rightarrow> pyval \<Rightarrow> pyval" where
  "param_or c name dflt = dget_or (params c) name dflt"

text \<open>\<open>self._canvas.get_variable_value(v)\<close> for a value that should be a name\<close>

definition variable_of :: "pyrt \<Rightarrow> pyval \<Rightarrow> canvas \<Rightarrow> pyval res" where
  "variable_of rt v cv = bindR (as_str ''strip'' v) (\<lambda>s. get_variable_value rt s cv)"

definition set_idx :: "string \<Rightarrow> int \<Rightarrow> canvas \<Rightarrow> canvas" where
  "set_idx cid i = upd_component cid (\<lambda>c. c\<lparr>idx := i\<rparr>)"

definition self_obj :: "string \<Rightarrow> component cmeth" where
  "self_obj cid = readM (\<lambda>cv. get_component_obj cv cid)"

definition parent_obj :: "string \<Rightarrow> (string \<times> component) cmeth" where
  "parent_obj cid =
     readM (\<lambda>cv. bindR (get_parent cv cid) (\<lambda>p. case p of
        Some q \<Rightarrow> Inr q
      | None \<Rightarrow> Inl (Exc AttributeErr (''NoneType object has no attribute _param''))))"

text \<open>\<open>get_start\<close> of a container: its item component, None when there is none\<close>

definition get_start :: "string \<Rightarrow> canvas \<Rightarrow> string \<Rightarrow> string option" where
  "get_start item_name cv cid =
     map_option fst
       (find (\<lambda>kc. lower (component_name (snd kc)) = item_name \<and> parent_id (snd kc) = Some cid)
          (components cv))"

section \<open>Loop\<close>

text \<open>
  The initial value of a loop variable.  The completeness test of the code is an \<open>assert\<close> of a
  non-empty string and never fails.
\<close>

definition typed_default :: "string \<Rightarrow> pyval" where
  "typed_default t =
     (if t = ''number'' then PInt 0
      else if t = ''string'' then PStr []
      else if t = ''boolean'' then PBool False
      else if starts_with t ''object'' then PDict []
      else if starts_with t ''array'' then PList []
      else PStr [])"

definition loop_variable_value :: "pyrt \<Rightarrow> pyval \<Rightarrow> canvas \<Rightarrow> pyval res" where
  "loop_variable_value rt item cv =
     bindR (subscript item ''input_mode'') (\<lambda>mode.
       if mode = PStr ''variable'' then bindR (subscript item ''value'') (\<lambda>v. variable_of rt v cv)
       else if mode = PStr ''constant'' then subscript item ''value''
       else bindR (subscript item ''type'') (\<lambda>t.
              bindR (as_str ''startswith'' t) (\<lambda>ts. Inr (typed_default ts))))"

definition loop_init_item :: "pyrt \<Rightarrow> string \<Rightarrow> pyval \<Rightarrow> unit cmeth" where
  "loop_init_item rt cid item =
     bindM (liftM (get_key item ''variable'' PNone)) (\<lambda>_.
     bindM (readM (loop_variable_value rt item)) (\<lambda>v.
     bindM (liftM (bindR (subscript item ''variable'') (as_str ''key''))) (\<lambda>name.
       modM (upd_component cid (set_output name v)))))"

definition loop_invoke :: "cenv \<Rightarrow> string \<Rightarrow> unit cmeth" where
  "loop_invoke env cid =
     bindM (check_if_canceled env cid) (\<lambda>stop.
       if stop then retM ()
       else bindM (self_obj cid) (\<lambda>c.
            bindM (liftM (iter_vals (param_or c ''loop_variables'' (PList [])))) (\<lambda>items.
              forM (loop_init_item (crt env) cid) items)))"

section \<open>LoopItem\<close>

definition loopitem_invoke :: "cenv \<Rightarrow> string \<Rightarrow> unit cmeth" where
  "loopitem_invoke env cid =
     bindM (check_if_canceled env cid) (\<lambda>stop.
       if stop then retM ()
       else bindM (parent_obj cid) (\<lambda>p.
            bindM (self_obj cid) (\<lambda>c.
            bindM (liftM (py_cmp GE (PInt (idx c)) (param_or (snd p) ''maximum_loop_count'' (PInt 0)))) (\<lambda>over.
              if over then modM (set_idx cid (- 1))
              else bindM (if 0 < idx c then check_if_canceled env cid else retM False) (\<lambda>stop2.
                     if stop2 then retM () else modM (set_idx cid (idx c + 1)))))))"

definition need_str :: "pyval \<Rightarrow> (string \<Rightarrow> bool) \<Rightarrow> bool res" where
  "need_str v P = (case v of PStr s \<Rightarrow> Inr (P s) | _ \<Rightarrow> Inl (type_err (''requires string, not '' @ type_name v)))"

definition invalid_operator :: "string \<Rightarrow> bool res" where
  "invalid_operator op = Inl (Exc PlainException (''Invalid operator: '' @ op))"

definition evaluate_condition :: "pyval \<Rightarrow> string \<Rightarrow> pyval \<Rightarrow> bool res" where
  "evaluate_condition var op value =
     (if is_str var then
        (case var of PStr s \<Rightarrow>
           if op = ''contains'' then need_str value (\<lambda>t. contains s t)
           else if op = ''not contains'' then need_str value (\<lambda>t. \<not> contains s t)
           else if op = ''start with'' then need_str value (\<lambda>t. starts_with s t)
           else if op = ''end with'' then need_str value (\<lambda>t. ends_with s t)
           else if op = ''is'' then Inr (py_eq var value)
           else if op = ''is not'' then Inr (\<not> py_eq var value)
           else if op = ''empty'' then Inr (s = [])
           else if op = ''not empty'' then Inr (s \<noteq> [])
           else invalid_operator op
         | _ \<Rightarrow> invalid_operator op)
      else if is_num var then
        (if op = ''='' then Inr (py_eq var value)
         else if op = op_ne then Inr (\<not> py_eq var value)
         else if op = ''>'' then py_cmp GT var value
         else if op = ''<'' then py_cmp LT var value
         else if op = op_ge then py_cmp GE var value
         else if op = op_le then py_cmp LE var value
         else if op = ''empty'' then Inr (var = PNone)
         else if op = ''not empty'' then Inr (var \<noteq> PNone)
         else invalid_operator op)
      else if is_bool var then
        (if op = ''is'' then Inr (var = value)
         else if op = ''is not'' then Inr (var \<noteq> value)
         else if op = ''empty'' then Inr (var = PNone)
         else if op = ''not empty'' then Inr (var \<noteq> PNone)
         else invalid_operator op)
      else
        (case var of
           PDict d \<Rightarrow>
             (if op = ''empty'' then Inr (length d = 0)
              else if op = ''not empty'' then Inr (0 < length d)
              else invalid_operator op)
         | PList xs \<Rightarrow>
             (if op = ''contains'' then Inr (py_in value xs)
              else if op = ''not contains'' then Inr (\<not> py_in value xs)
              else if op = ''is'' then Inr (py_eq var value)
              else if op = ''is not'' then Inr (\<not> py_eq var value)
              else if op = ''empty'' then Inr (length xs = 0)
              else if op = ''not empty'' then Inr (0 < length xs)
              else invalid_operator op)
         | PNone \<Rightarrow> Inr (op = ''empty'')
         | _ \<Rightarrow> invalid_operator op))"

text \<open>One entry of the termination condition.\<close>

definition loop_condition :: "pyrt \<Rightarrow> canvas \<Rightarrow> pyval \<Rightarrow> bool res" where
  "loop_condition rt cv item =
     bindR (get_key item ''variable'' PNone) (\<lambda>v.
     bindR (get_key item ''operator'' PNone) (\<lambda>op.
       if \<not> truthy v \<or> \<not> truthy op then value_error ''Loop condition is incomplete.''
       else bindR (variable_of rt v cv) (\<lambda>var.
            bindR (get_key item ''input_mode'' (PStr ''constant'')) (\<lambda>mode.
            bindR (get_key item ''value'' (PStr [])) (\<lambda>raw.
            bindR (if mode = PStr ''variable'' then variable_of rt raw cv
                   else if mode = PStr ''constant'' then Inr raw
                   else value_error ''Invalid input mode.'') (\<lambda>value.
              evaluate_condition var (py_str rt op) value))))))"

definition loop_should_end :: "pyrt \<Rightarrow> canvas \<Rightarrow> component \<Rightarrow> bool res" where
  "loop_should_end rt cv p =
     bindR (iter_vals (param_or p ''loop_termination_condition'' (PList []))) (\<lambda>items.
     bindR (mapR (loop_condition rt cv) items) (\<lambda>conds.
       let lop = param_or p ''logical_operator'' (PStr ''and'')
       in if lop = PStr ''and'' then Inr (list_all id conds)
          else if lop = PStr ''or'' then Inr (list_ex id conds)
          else value_error (''Invalid logical operator,should be '' @ [squote] @ ''and'' @ [squote] @
                 '' or '' @ [squote] @ ''or'' @ [squote] @ ''.'')))"

definition loopitem_end :: "pyrt \<Rightarrow> string \<Rightarrow> bool cmeth" where
  "loopitem_end rt cid =
     bindM (self_obj cid) (\<lambda>c.
       if idx c = - 1 then retM True
       else bindM (parent_obj cid) (\<lambda>p.
            bindM (readM (\<lambda>cv. loop_should_end rt cv (snd p))) (\<lambda>fin.
              if fin then seqM (modM (set_idx cid (- 1))) (retM True) else retM False)))"

section \<open>Iteration\<close>

definition iteration_invoke :: "cenv \<Rightarrow> string \<Rightarrow> unit cmeth" where
  "iteration_invoke env cid =
     bindM (check_if_canceled env cid) (\<lambda>stop.
       if stop then retM ()
       else bindM (self_obj cid) (\<lambda>c.
            bindM (readM (variable_of (crt env) (param_or c ''items_ref'' (PStr [])))) (\<lambda>arr.
              if is_list arr then retM ()
              else bindM (liftM (as_str ''items_ref'' (param_or c ''items_ref'' (PStr [])))) (\<lambda>ref.
                     modM (upd_component cid (set_output ''_ERROR''
                       (PStr (ref @ '' must be an array, but its type is '' @ type_repr arr))))))))"

section \<open>IterationItem\<close>

text \<open>
  \<open>output_collation\<close> for one component \<open>cid\<close> of the container \<open>pid\<close> and one output \<open>k\<close> of the
  container: the referenced output of the component is appended to the container's list.
\<close>

definition collate_output :: "string \<Rightarrow> string \<Rightarrow> string \<times> pydict \<Rightarrow> unit cmeth" where
  "collate_output pid cid ko =
     (case dget (snd ko) ''ref'' of
        None \<Rightarrow> retM ()
      | Some ref \<Rightarrow>
          bindM (liftM (as_str ''split'' ref)) (\<lambda>r.
            case split_on CHR ''@'' r of
              [rcid, var] \<Rightarrow>
                (if rcid \<noteq> cid then retM ()
                 else bindM (self_obj pid) (\<lambda>p.
                      bindM (self_obj cid) (\<lambda>c.
                        case py_or (output_of p (fst ko)) (PList []) of
                          PList res \<Rightarrow>
                            modM (upd_component pid (set_output (fst ko) (PList (res @ [output_of c var]))))
                        | v \<Rightarrow> liftM (Inl (attr_err v ''append'')))))
            | _ \<Rightarrow> raiseM ValueErr ''not enough values to unpack (expected 2)''))"

definition collate_component :: "string \<Rightarrow> string \<Rightarrow> unit cmeth" where
  "collate_component pid cid =
     bindM (readM (\<lambda>cv. get_parent cv cid)) (\<lambda>pp.
       case pp of
         None \<Rightarrow> retM ()
       | Some (qid, p) \<Rightarrow>
           if qid \<noteq> pid then retM ()
           else if lower (component_name p) \<in>
                   {''categorize'', ''message'', ''switch'', ''userfillup'', ''interationitem''}
           then retM ()
           else forM (collate_output pid cid) (outputs p))"

definition output_collation :: "string \<Rightarrow> unit cmeth" where
  "output_collation cid =
     bindM (parent_obj cid) (\<lambda>p.
     bindM (readM (\<lambda>cv. Inr (map fst (components cv)))) (\<lambda>cids.
       forM (collate_component (fst p)) cids))"

definition iterationitem_invoke :: "cenv \<Rightarrow> string \<Rightarrow> unit cmeth" where
  "iterationitem_invoke env cid =
     bindM (check_if_canceled env cid) (\<lambda>stop.
       if stop then retM ()
       else bindM (parent_obj cid) (\<lambda>p.
            bindM (readM (variable_of (crt env) (param_or (snd p) ''items_ref'' (PStr [])))) (\<lambda>arr.
              case arr of
                PList xs \<Rightarrow>
                  bindM (self_obj cid) (\<lambda>c.
                  bindM (if 0 < idx c
                         then bindM (check_if_canceled env cid) (\<lambda>stop2.
                                if stop2 then retM True else seqM (output_collation cid) (retM False))
                         else retM False) (\<lambda>stopped.
                    if stopped then retM ()
                    else if int (length xs) \<le> idx c then modM (set_idx cid (- 1))
                    else bindM (check_if_canceled env cid) (\<lambda>stop3.
                      if stop3 then retM ()
                      else seqM (liftM (case py_index xs (idx c) of
                                   Some _ \<Rightarrow> Inr () | None \<Rightarrow> Inl (Exc IndexErr ''list index out of range'')))
                          (modM (\<lambda>cv. set_idx cid (idx c + 1)
                             (upd_component cid (set_output ''index'' (PInt (idx c)))
                               (upd_component cid
                                 (set_output ''item'' (case py_index xs (idx c) of Some v \<Rightarrow> v | None \<Rightarrow> PNone))
                                 cv)))))))
              | _ \<Rightarrow> seqM (modM (set_idx cid (- 1)))
                      (bindM (liftM (as_str ''items_ref'' (param_or (snd p) ''items_ref'' (PStr [])))) (\<lambda>ref.
                        raiseM PlainException (ref @ '' must be an array, but its type is '' @ type_repr arr))))))"

definition iterationitem_end :: "string \<Rightarrow> bool cmeth" where
  "iterationitem_end cid = bindM (self_obj cid) (\<lambda>c. retM (idx c = - 1))"

section \<open>ExitLoop\<close>

definition exitloop_invoke :: "unit cmeth" where
  "exitloop_invoke = retM ()"

end
