(* ===== verification/CanvasState.thy ===== *)
theory CanvasState
  imports Canvas
begin

text \<open>
  The rest of the canvas state (\<^verbatim>\<open>ragflow/agent/canvas.py\<close>): loading and resetting the globals,
  the conversation history, the references of a turn and the log of tool calls.  The date text
  and \<open>hash_str2int\<close> (SHA-1) are parameters.  Reference keys are written as text: a chunk key is
  the decimal form of its number, as in the stored JSON; document names are strings.
\<close>

section \<open>Globals\<close>

definition default_globals :: "string \<Rightarrow> pyval \<Rightarrow> pydict" where
  "default_globals date user =
     [(''sys.query'', PStr []), (''sys.user_id'', user), (''sys.conversation_turns'', PInt 0),
      (''sys.files'', PList []), (''sys.history'', PList []), (''sys.date'', PStr date)]"

text \<open>The part of \<open>load\<close> that reads globals, variables, retrieval and memory from the stored DSL.\<close>

definition load_globals :: "string \<Rightarrow> pydict \<Rightarrow> pydict res" where
  "load_globals date dsl =
     (case dget dsl ''globals'' of
        None \<Rightarrow> Inr (default_globals date (PStr []))
      | Some (PDict g) \<Rightarrow>
          (let g1 = (if has_key g ''sys.history'' then g else dset ''sys.history'' (PList []) g);
               g2 = (if has_key g1 ''sys.date'' then g1 else dset ''sys.date'' (PStr date) g1)
           in Inr g2)
      | Some v \<Rightarrow> Inl (type_err (type_name v)))"

definition load_variables :: "pydict \<Rightarrow> pydict" where
  "load_variables dsl = (case dget dsl ''variables'' of Some (PDict d) \<Rightarrow> d | _ \<Rightarrow> [])"

definition reset_sys_value :: "pyval \<Rightarrow> pyval" where
  "reset_sys_value v =
     (if is_str v then PStr []
      else if is_int v then PInt 0
      else if is_float v then PInt 0
      else if is_list v then PList []
      else if is_dict v then PDict []
      else PNone)"

text \<open>The value an environment variable of a declared type starts with; \<open>None\<close> for no known type.\<close>

definition env_default :: "string \<Rightarrow> pyval option" where
  "env_default t =
     (if t = ''string'' then Some (PStr [])
      else if t = ''number'' then Some (PInt 0)
      else if t = ''boolean'' then Some (PBool False)
      else if t = ''object'' then Some (PDict [])
      else if starts_with t ''array'' then Some (PList [])
      else None)"

definition reset_env_key :: "string \<Rightarrow> unit cmeth" where
  "reset_env_key k =
     (\<lambda>cv. case dget (variables cv) (drop 4 k) of
        None \<Rightarrow> (Inr (), cv\<lparr>globals := dset k (PStr []) (globals cv)\<rparr>)
      | Some variable \<Rightarrow>
          (case bindR (subscript variable ''type'') (as_str ''startswith'') of
             Inl e \<Rightarrow> (Inl e, cv)
           | Inr t \<Rightarrow>
               (case env_default t of
                  None \<Rightarrow> (Inr (), cv\<lparr>globals := dset k (PStr []) (globals cv)\<rparr>)
                | Some v \<Rightarrow>
                    (Inr (), cv\<lparr>globals := dset k v (globals cv),
                       variables := (case variable of
                           PDict d \<Rightarrow> dset (drop 4 k) (PDict (dset ''value'' v d)) (variables cv)
                         | _ \<Rightarrow> variables cv)\<rparr>))))"

definition reset_sys_key :: "string \<Rightarrow> canvas \<Rightarrow> canvas" where
  "reset_sys_key k cv =
     (case dget (globals cv) k of
        None \<Rightarrow> cv
      | Some v \<Rightarrow> cv\<lparr>globals := dset k (reset_sys_value v) (globals cv)\<rparr>)"

definition reset_key :: "string \<Rightarrow> unit cmeth" where
  "reset_key k =
     seqM (if starts_with k ''sys.'' then modM (reset_sys_key k) else retM ())
          (if starts_with k ''env.'' then reset_env_key k else retM ())"

definition reset_components :: "bool \<Rightarrow> canvas \<Rightarrow> canvas" where
  "reset_components only_output cv =
     cv\<lparr>components := map (\<lambda>(k, c). (k, reset only_output c)) (components cv)\<rparr>"

definition graph_reset :: "canvas \<Rightarrow> canvas" where
  "graph_reset cv = reset_components False (cv\<lparr>path := []\<rparr>)"

definition canvas_reset :: "bool \<Rightarrow> unit cmeth" where
  "canvas_reset mem =
     seqM (modM graph_reset)
    (seqM (modM (\<lambda>cv. if mem then cv else cv\<lparr>history := [], retrieval := [], memory := []\<rparr>))
          (\<lambda>cv. forM reset_key (map fst (globals cv)) cv))"

definition get_sys_query :: "canvas \<Rightarrow> pyval" where
  "get_sys_query cv = dget_or (globals cv) ''sys.query'' (PStr [])"

definition set_global_param :: "pydict \<Rightarrow> canvas \<Rightarrow> canvas" where
  "set_global_param kws cv = cv\<lparr>globals := dset_all (globals cv) kws\<rparr>"

section \<open>History\<close>

definition get_history :: "pyrt \<Rightarrow> int \<Rightarrow> canvas \<Rightarrow> (string \<times> pyval) list" where
  "get_history rt window_size cv =
     (if window_size \<le> 0 then []
      else map (\<lambda>(role, obj). (role, case obj of PDict d \<Rightarrow> dget_or d ''content'' (PStr [])
                                       | _ \<Rightarrow> PStr (py_str rt obj)))
             (drop (length (history cv) - nat (2 * window_size)) (history cv)))"

text \<open>An entry of the history and its line in \<open>sys.history\<close>.\<close>

definition add_history :: "pyrt \<Rightarrow> string \<Rightarrow> pyval \<Rightarrow> unit cmeth" where
  "add_history rt role obj =
     (\<lambda>cv. let cv1 = cv\<lparr>history := history cv @ [(role, obj)]\<rparr>
           in case dget (globals cv) ''sys.history'' of
                None \<Rightarrow> (Inl (key_err ''sys.history''), cv1)
              | Some (PList xs) \<Rightarrow>
                  (Inr (), cv1\<lparr>globals := dset ''sys.history''
                     (PList (xs @ [PStr (role @ '': '' @ py_str rt obj)])) (globals cv)\<rparr>)
              | Some v \<Rightarrow> (Inl (attr_err v ''append''), cv1))"

definition add_user_input :: "pyrt \<Rightarrow> pyval \<Rightarrow> unit cmeth" where
  "add_user_input rt question = add_history rt ''user'' question"

definition add_memory :: "string \<Rightarrow> string \<Rightarrow> string \<Rightarrow> canvas \<Rightarrow> canvas" where
  "add_memory user assist summ cv = cv\<lparr>memory := memory cv @ [(user, assist, summ)]\<rparr>"

section \<open>References\<close>

definition get_value :: "pydict \<Rightarrow> string \<Rightarrow> string \<Rightarrow> pyval" where
  "get_value d k1 k2 = dget_or d k1 (dget_or d k2 PNone)"

definition chunk_format :: "pydict \<Rightarrow> pydict" where
  "chunk_format c =
     [(''id'', get_value c ''chunk_id'' ''id''),
      (''content'', get_value c ''content'' ''content_with_weight''),
      (''document_id'', get_value c ''doc_id'' ''document_id''),
      (''document_name'', get_value c ''docnm_kwd'' ''document_name''),
      (''dataset_id'', get_value c ''kb_id'' ''dataset_id''),
      (''image_id'', get_value c ''image_id'' ''img_id''),
      (''positions'', get_value c ''positions'' ''position_int''),
      (''url'', dget_or c ''url'' PNone),
      (''similarity'', dget_or c ''similarity'' PNone),
      (''vector_similarity'', dget_or c ''vector_similarity'' PNone),
      (''term_similarity'', dget_or c ''term_similarity'' PNone),
      (''doc_type'', get_value c ''doc_type_kwd'' ''doc_type'')]"

definition chunks_format :: "pyval \<Rightarrow> pydict list" where
  "chunks_format reference =
     (case reference of
        PDict r \<Rightarrow>
          (case dget_or r ''chunks'' (PList []) of
             PList cs \<Rightarrow> map chunk_format (concat (map (\<lambda>c. case c of PDict d \<Rightarrow> [d] | _ \<Rightarrow> []) cs))
           | _ \<Rightarrow> [])
      | _ \<Rightarrow> [])"

text \<open>\<open>r[slot][i] = v\<close> for a number and for a name\<close>

definition store_at :: "string \<Rightarrow> int \<Rightarrow> pyval \<Rightarrow> pydict \<Rightarrow> pydict res" where
  "store_at slot i v r =
     (case dget r slot of
        None \<Rightarrow> Inl (key_err slot)
      | Some (PDict d) \<Rightarrow> Inr (dset slot (PDict (dset (show_int i) v d)) r)
      | Some (PList xs) \<Rightarrow>
          (if 0 \<le> i \<and> i < int (length xs) then Inr (dset slot (PList (xs[nat i := v])) r)
           else Inl (Exc IndexErr ''list assignment index out of range''))
      | Some w \<Rightarrow> Inl (type_err (type_name w @ '' object does not support item assignment'')))"

definition store_named :: "string \<Rightarrow> string \<Rightarrow> pyval \<Rightarrow> pydict \<Rightarrow> pydict res" where
  "store_named slot k v r =
     (case dget r slot of
        None \<Rightarrow> Inl (key_err slot)
      | Some (PDict d) \<Rightarrow> Inr (dset slot (PDict (dset k v d)) r)
      | Some w \<Rightarrow> Inl (type_err (type_name w @ '' indices must be integers'')))"

text \<open>The tests \<open>not in r\<close> look at the keys of the reference itself, \<open>chunks\<close> and \<open>doc_aggs\<close>.\<close>

definition add_chunk :: "(string \<Rightarrow> int) \<Rightarrow> pydict \<Rightarrow> pydict \<Rightarrow> pydict res" where
  "add_chunk h ck r =
     bindR (as_str ''encode'' (dget_or ck ''id'' PNone)) (\<lambda>i.
       let cid = h i
       in if py_in (PInt cid) (map (PStr \<circ> fst) r) then Inr r else store_at ''chunks'' cid (PDict ck) r)"

definition add_doc :: "pyval \<Rightarrow> pydict \<Rightarrow> pydict res" where
  "add_doc doc r =
     bindR (subscript doc ''doc_name'') (\<lambda>nm.
     bindR (as_str ''doc_name'' nm) (\<lambda>n.
       if has_key r n then Inr r else store_named ''doc_aggs'' n doc r))"

definition upd_last_ref :: "(pydict \<Rightarrow> pydict res) \<Rightarrow> unit cmeth" where
  "upd_last_ref f =
     (\<lambda>cv. case f (last (retrieval cv)) of
        Inl e \<Rightarrow> (Inl e, cv)
      | Inr r \<Rightarrow> (Inr (), cv\<lparr>retrieval := butlast (retrieval cv) @ [r]\<rparr>))"

definition add_reference :: "(string \<Rightarrow> int) \<Rightarrow> pyval list \<Rightarrow> pyval list \<Rightarrow> unit cmeth" where
  "add_reference h chunks doc_infos =
     seqM (modM (\<lambda>cv. if retrieval cv = []
                      then cv\<lparr>retrieval := [[(''chunks'', PDict []), (''doc_aggs'', PDict [])]]\<rparr> else cv))
    (seqM (forM (\<lambda>ck. upd_last_ref (add_chunk h ck)) (chunks_format (PDict [(''chunks'', PList chunks)])))
          (forM (\<lambda>doc. upd_last_ref (add_doc doc)) doc_infos))"

definition get_reference :: "canvas \<Rightarrow> pydict" where
  "get_reference cv =
     (if retrieval cv = [] then [(''chunks'', PDict []), (''doc_aggs'', PDict [])] else last (retrieval cv))"

definition has_reference :: "canvas \<Rightarrow> bool" where
  "has_reference cv \<longleftrightarrow>
     truthy (dget_or (get_reference cv) ''chunks'' PNone) \<or>
     truthy (dget_or (get_reference cv) ''doc_aggs'' PNone)"

definition build_message_end :: "component \<Rightarrow> canvas \<Rightarrow> pydict" where
  "build_message_end c cv =
     (if truthy (get_param c ''status'') then [(''status'', get_param c ''status'')] else []) @
     (if is_dict (output_of c ''attachment'') then [(''attachment'', output_of c ''attachment'')] else []) @
     (if has_reference cv then [(''reference'', PDict (get_reference cv))] else [])"

section \<open>The log of tool calls\<close>

text \<open>\<open>s.split(sep)\<close> for a separator that is not empty\<close>

fun split_str :: "string \<Rightarrow> string \<Rightarrow> nat \<Rightarrow> string list" where
  "split_str sep s 0 = [s]"
| "split_str sep [] (Suc n) = [[]]"
| "split_str sep (c # cs) (Suc n) =
     (if starts_with (c # cs) sep then [] # split_str sep (drop (length sep) (c # cs)) n
      else case split_str sep cs n of [] \<Rightarrow> [[c]] | w # ws \<Rightarrow> (c # w) # ws)"

definition split_sep :: "string \<Rightarrow> string \<Rightarrow> string list" where
  "split_sep sep s = split_str sep s (Suc (length s))"

record tool_call =
  tc_path :: string
  tc_name :: string
  tc_args :: pyval
  tc_result :: pyval
  tc_elapsed :: pyval

type_synonym tool_log = "(string \<times> tool_call list) list"

text \<open>
  The log is the JSON list stored under the message's key, \<open>None\<close> when there is no entry.  A
  stored empty list raises an \<open>IndexError\<close>, which is caught: the log stays.
\<close>

definition log_call :: "string \<Rightarrow> tool_call \<Rightarrow> tool_log option \<Rightarrow> tool_log option" where
  "log_call a0 tc lg =
     (case lg of
        None \<Rightarrow> Some [(a0, [tc])]
      | Some [] \<Rightarrow> Some []
      | Some obj \<Rightarrow>
          (if fst (last obj) = a0
           then Some (butlast obj @ [(a0, snd (last obj) @ [tc])])
           else Some (obj @ [(a0, [tc])])))"

definition tool_use_callback ::
  "canvas \<Rightarrow> string \<Rightarrow> string \<Rightarrow> pyval \<Rightarrow> pyval \<Rightarrow> pyval \<Rightarrow> tool_log option \<Rightarrow> tool_log option" where
  "tool_use_callback cv agent_id func_name args result elapsed lg =
     (let agent_ids = split_sep ''-->'' agent_id;
          agent_name = get_component_name cv (hd agent_ids);
          pth = (if length agent_ids < 2 then agent_name
                 else agent_name @ ''-->'' @ join ''-->'' (tl agent_ids))
      in log_call (hd agent_ids)
           \<lparr> tc_path = pth, tc_name = func_name, tc_args = args, tc_result = result, tc_elapsed = elapsed \<rparr> lg)"

end
