(* ===== verification/Operators.thy ===== *)
theory Operators
  imports Loops CanvasState
begin

text \<open>
  The branching and assigning components of \<^verbatim>\<open>ragflow/agent/component\<close>: \<^verbatim>\<open>switch.py\<close>,
  \<^verbatim>\<open>variable_assigner.py\<close>, \<^verbatim>\<open>varaiable_aggregator.py\<close> and the decision of \<^verbatim>\<open>categorize.py\<close>,
  whose chat model is a parameter.  Values are taken by value: a list the assigner appends to in
  place is the value it then stores.
\<close>

section \<open>Switch\<close>

text \<open>An order test: as floats, and on any exception the plain comparison.\<close>

definition switch_cmp :: "pyrt \<Rightarrow> cmpop \<Rightarrow> pyval \<Rightarrow> pyval \<Rightarrow> bool res" where
  "switch_cmp rt op input v =
     (case bindR (py_float rt input) (\<lambda>a. bindR (py_float rt v) (\<lambda>b. Inr (cmp_with op a b))) of
        Inr b \<Rightarrow> Inr b
      | Inl _ \<Rightarrow> py_cmp op input v)"

definition process_operator :: "pyrt \<Rightarrow> pyval \<Rightarrow> string \<Rightarrow> pyval \<Rightarrow> bool res" where
  "process_operator rt input op v =
     (if op = ''contains'' then
        bindR (as_str ''lower'' v) (\<lambda>t. bindR (as_str ''lower'' input) (\<lambda>s. Inr (contains (lower s) (lower t))))
      else if op = ''not contains'' then
        bindR (as_str ''lower'' v) (\<lambda>t. bindR (as_str ''lower'' input) (\<lambda>s. Inr (\<not> contains (lower s) (lower t))))
      else if op = ''start with'' then
        bindR (as_str ''lower'' input) (\<lambda>s. bindR (as_str ''lower'' v) (\<lambda>t. Inr (starts_with (lower s) (lower t))))
      else if op = ''end with'' then
        bindR (as_str ''lower'' input) (\<lambda>s. bindR (as_str ''lower'' v) (\<lambda>t. Inr (ends_with (lower s) (lower t))))
      else if op = ''empty'' then Inr (\<not> truthy input)
      else if op = ''not empty'' then Inr (truthy input)
      else if op = ''='' then Inr (py_eq input v)
      else if op = op_ne then Inr (\<not> py_eq input v)
      else if op = ''>'' then switch_cmp rt GT input v
      else if op = ''<'' then switch_cmp rt LT input v
      else if op = op_ge then switch_cmp rt GE input v
      else if op = op_le then switch_cmp rt LE input v
      else value_error (''Not supported operator'' @ op))"

text \<open>The names of the targets \<open>cond["to"]\<close>\<close>

definition target_names :: "canvas \<Rightarrow> pyval \<Rightarrow> pyval res" where
  "target_names cv v =
     bindR (iter_vals v) (\<lambda>xs.
       Inr (PList (map (\<lambda>x. PStr (case x of PStr s \<Rightarrow> get_component_name cv s | _ \<Rightarrow> [])) xs)))"

definition switch_goto :: "string \<Rightarrow> pyval \<Rightarrow> unit cmeth" where
  "switch_goto cid targets =
     bindM (readM (\<lambda>cv. target_names cv targets)) (\<lambda>names.
     seqM (modM (upd_component cid (set_output ''next'' names)))
          (modM (upd_component cid (set_output ''_next'' targets))))"

text \<open>How the items of one condition end: the call returned, or all were evaluated.\<close>

datatype switch_out = SwReturned | SwEvaluated bool

text \<open>The value and the comparison of one item, with the input recorded\<close>

definition switch_item :: "pyrt \<Rightarrow> string \<Rightarrow> pyval \<Rightarrow> pyval \<Rightarrow> bool cmeth" where
  "switch_item rt cid ref item =
     bindM (readM (variable_of rt ref)) (\<lambda>v.
     seqM (modM (upd_component cid (set_input_value (case ref of PStr s \<Rightarrow> s | _ \<Rightarrow> []) v)))
    (bindM (liftM (get_key item ''value'' (PStr []))) (\<lambda>raw.
     bindM (liftM (if is_num v then bindR (py_float rt raw) (\<lambda>q. Inr (PFloat q)) else Inr raw)) (\<lambda>operatee.
     bindM (liftM (subscript item ''operator'')) (\<lambda>op.
       liftM (case op of
                PStr s \<Rightarrow> process_operator rt v s operatee
              | _ \<Rightarrow> Inl (type_err ''can only concatenate str'')))))))"

fun switch_items :: "cenv \<Rightarrow> string \<Rightarrow> pyval \<Rightarrow> bool list \<Rightarrow> pyval list \<Rightarrow> switch_out cmeth" where
  "switch_items env cid cond res [] = retM (SwEvaluated (list_all id res))"
| "switch_items env cid cond res (item # items) =
     bindM (check_if_canceled env cid) (\<lambda>stop.
       if stop then retM SwReturned
       else bindM (liftM (subscript item ''cpn_id'')) (\<lambda>ref.
            if \<not> truthy ref then switch_items env cid cond res items
            else bindM (switch_item (crt env) cid ref item) (\<lambda>b.
                 bindM (liftM (subscript cond ''logical_operator'')) (\<lambda>lop.
                   if lop \<noteq> PStr ''and'' \<and> list_ex id (res @ [b])
                   then bindM (liftM (subscript cond ''to'')) (\<lambda>tgt.
                        seqM (switch_goto cid tgt) (retM SwReturned))
                   else switch_items env cid cond (res @ [b]) items))))"

fun switch_conds :: "cenv \<Rightarrow> string \<Rightarrow> pyval list \<Rightarrow> unit cmeth" where
  "switch_conds env cid [] =
     bindM (self_obj cid) (\<lambda>c. switch_goto cid (param_or c ''end_cpn_ids'' (PList [])))"
| "switch_conds env cid (cond # conds) =
     bindM (check_if_canceled env cid) (\<lambda>stop.
       if stop then retM ()
       else bindM (liftM (bindR (subscript cond ''items'') iter_vals)) (\<lambda>items.
            bindM (switch_items env cid cond [] items) (\<lambda>out.
              case out of
                SwReturned \<Rightarrow> retM ()
              | SwEvaluated True \<Rightarrow> bindM (liftM (subscript cond ''to'')) (switch_goto cid)
              | SwEvaluated False \<Rightarrow> switch_conds env cid conds)))"

definition switch_invoke :: "cenv \<Rightarrow> string \<Rightarrow> unit cmeth" where
  "switch_invoke env cid =
     bindM (check_if_canceled env cid) (\<lambda>stop.
       if stop then retM ()
       else bindM (self_obj cid) (\<lambda>c.
            bindM (liftM (iter_vals (param_or c ''conditions'' (PList [])))) (switch_conds env cid)))"

text \<open>\<open>SwitchParam.check\<close>\<close>

definition switch_check :: "component \<Rightarrow> unit res" where
  "switch_check c =
     bindR (check_empty (param_or c ''conditions'' (PList [])) ''[Switch] conditions'') (\<lambda>_.
     bindR (iter_vals (param_or c ''conditions'' (PList []))) (\<lambda>conds.
     bindR (mapR (\<lambda>cond. bindR (subscript cond ''to'') (\<lambda>t.
              if \<not> truthy t then value_error (''[Switch] '' @ [squote] @ ''To'' @ [squote] @ '' can not be empty!'')
              else Inr ())) conds) (\<lambda>_.
       check_empty (param_or c ''end_cpn_ids'' (PList []))
         ''[Switch] the ELSE/Other destination can not be empty.'')))"

section \<open>VariableAssigner\<close>

definition as_variable :: "pyrt \<Rightarrow> canvas \<Rightarrow> pyval \<Rightarrow> pyval res" where
  "as_variable rt cv p = variable_of rt p cv"

definition va_clear :: "pyval \<Rightarrow> pyval" where
  "va_clear v =
     (if is_list v then PList []
      else if is_str v then PStr []
      else if is_dict v then PDict []
      else if is_int v then PInt 0
      else if is_float v then PFloat 0
      else if is_bool v then PBool False
      else PNone)"

definition va_set :: "pyrt \<Rightarrow> canvas \<Rightarrow> pyval \<Rightarrow> pyval \<Rightarrow> pyval res" where
  "va_set rt cv v p =
     (if v = PNone \<or> is_str v
      then (case p of
              PStr s \<Rightarrow> bindR (get_value_with_variable rt s cv) (\<lambda>t. Inr (PStr t))
            | _ \<Rightarrow> Inl (type_err ''expected string or bytes-like object''))
      else Inr p)"

text \<open>\<open>isinstance(p, type(v))\<close>\<close>

definition inst_of :: "pyval \<Rightarrow> pyval \<Rightarrow> bool" where
  "inst_of p v \<longleftrightarrow> type_name p = type_name v \<or> (is_bool p \<and> type_name v = ''int'')"

definition va_append :: "pyrt \<Rightarrow> canvas \<Rightarrow> pyval \<Rightarrow> pyval \<Rightarrow> pyval res" where
  "va_append rt cv v p =
     bindR (as_variable rt cv p) (\<lambda>w.
       case (if v = PNone then PList [] else v) of
         PList xs \<Rightarrow> if xs \<noteq> [] \<and> \<not> inst_of w (hd xs)
                     then Inr (PStr ''ERROR:PARAMETER_NOT_LIST_ELEMENT_TYPE'')
                     else Inr (PList (xs @ [w]))
       | _ \<Rightarrow> Inr (PStr ''ERROR:VARIABLE_NOT_LIST''))"

definition va_extend :: "pyrt \<Rightarrow> canvas \<Rightarrow> pyval \<Rightarrow> pyval \<Rightarrow> pyval res" where
  "va_extend rt cv v p =
     bindR (as_variable rt cv p) (\<lambda>w.
       case (if v = PNone then PList [] else v) of
         PList xs \<Rightarrow>
           (case w of
              PList ys \<Rightarrow> if xs \<noteq> [] \<and> ys \<noteq> [] \<and> \<not> inst_of (hd ys) (hd xs)
                          then Inr (PStr ''ERROR:PARAMETER_NOT_LIST_ELEMENT_TYPE'')
                          else Inr (PList (xs @ ys))
            | _ \<Rightarrow> Inr (PStr ''ERROR:PARAMETER_NOT_LIST''))
       | _ \<Rightarrow> Inr (PStr ''ERROR:VARIABLE_NOT_LIST''))"

text \<open>\<open>len(v) == 0\<close>\<close>

definition len_zero :: "pyval \<Rightarrow> bool res" where
  "len_zero v =
     (case v of
        PList xs \<Rightarrow> Inr (xs = [])
      | PDict d \<Rightarrow> Inr (d = [])
      | PStr s \<Rightarrow> Inr (s = [])
      | _ \<Rightarrow> Inl (type_err (''object of type '' @ type_name v @ '' has no len()'')))"

definition va_remove :: "(pyval list \<Rightarrow> pyval list) \<Rightarrow> pyval \<Rightarrow> pyval res" where
  "va_remove f v =
     bindR (len_zero v) (\<lambda>z.
       if z then Inr v
       else case v of PList xs \<Rightarrow> Inr (PList (f xs)) | _ \<Rightarrow> Inr (PStr ''ERROR:VARIABLE_NOT_LIST''))"

definition is_number :: "pyval \<Rightarrow> bool" where
  "is_number v = (if is_bool v then False else is_num v)"

definition as_rat :: "pyrt \<Rightarrow> pyval \<Rightarrow> rat" where
  "as_rat rt v = (case v of PInt i \<Rightarrow> fround rt (of_int i) | PFloat q \<Rightarrow> q | _ \<Rightarrow> 0)"

text \<open>\<open>+\<close>, \<open>-\<close>, \<open>*\<close>: exact on two ints, rounded otherwise; \<open>/\<close> is rounded, on two ints once.\<close>

definition arith :: "pyrt \<Rightarrow> (int \<Rightarrow> int \<Rightarrow> int) \<Rightarrow> (rat \<Rightarrow> rat \<Rightarrow> rat) \<Rightarrow> pyval \<Rightarrow> pyval \<Rightarrow> pyval" where
  "arith rt fi fq a b =
     (case (a, b) of
        (PInt i, PInt j) \<Rightarrow> PInt (fi i j)
      | _ \<Rightarrow> PFloat (fround rt (fq (as_rat rt a) (as_rat rt b))))"

definition not_number :: pyval where
  "not_number = PStr ''ERROR:VARIABLE_NOT_NUMBER or PARAMETER_NOT_NUMBER''"

definition va_arith :: "pyrt \<Rightarrow> (int \<Rightarrow> int \<Rightarrow> int) \<Rightarrow> (rat \<Rightarrow> rat \<Rightarrow> rat) \<Rightarrow> pyval \<Rightarrow> pyval \<Rightarrow> pyval" where
  "va_arith rt fi fq v p = (if is_number v \<and> is_number p then arith rt fi fq v p else not_number)"

definition va_divide :: "pyrt \<Rightarrow> pyval \<Rightarrow> pyval \<Rightarrow> pyval" where
  "va_divide rt v p =
     (if is_number v \<and> is_number p
      then if num_val p = Some 0 then PStr ''ERROR:DIVIDE_BY_ZERO''
           else (case (v, p) of
                   (PInt i, PInt j) \<Rightarrow> PFloat (fround rt (of_int i / of_int j))
                 | _ \<Rightarrow> PFloat (fround rt (as_rat rt v / as_rat rt p)))
      else not_number)"

definition va_operate :: "pyrt \<Rightarrow> canvas \<Rightarrow> pyval \<Rightarrow> pyval \<Rightarrow> pyval \<Rightarrow> pyval res" where
  "va_operate rt cv v op p =
     (if op = PStr ''overwrite'' then as_variable rt cv p
      else if op = PStr ''clear'' then Inr (va_clear v)
      else if op = PStr ''set'' then va_set rt cv v p
      else if op = PStr ''append'' then va_append rt cv v p
      else if op = PStr ''extend'' then va_extend rt cv v p
      else if op = PStr ''remove_first'' then va_remove tl v
      else if op = PStr ''remove_last'' then va_remove butlast v
      else if op = PStr ''+='' then Inr (va_arith rt (+) (+) v p)
      else if op = PStr ''-='' then Inr (va_arith rt (-) (-) v p)
      else if op = PStr ''*='' then Inr (va_arith rt (*) (*) v p)
      else if op = PStr ''/='' then Inr (va_divide rt v p)
      else Inr PNone)"

text \<open>One assignment; the completeness test asserts a non-empty string and never fails.\<close>

definition va_assign :: "pyrt \<Rightarrow> pyval \<Rightarrow> unit cmeth" where
  "va_assign rt item =
     bindM (liftM (get_key item ''variable'' PNone)) (\<lambda>_.
     bindM (liftM (subscript item ''variable'')) (\<lambda>variable.
     bindM (liftM (subscript item ''operator'')) (\<lambda>op.
     bindM (liftM (subscript item ''parameter'')) (\<lambda>p.
     bindM (readM (variable_of rt variable)) (\<lambda>v.
     bindM (readM (\<lambda>cv. va_operate rt cv v op p)) (\<lambda>w.
     bindM (liftM (as_str ''strip'' variable)) (\<lambda>xp. set_variable_value xp w)))))))"

definition assigner_invoke :: "pyrt \<Rightarrow> string \<Rightarrow> unit cmeth" where
  "assigner_invoke rt cid =
     bindM (self_obj cid) (\<lambda>c.
       case param_or c ''variables'' (PList []) of
         PList items \<Rightarrow> forM (va_assign rt) items
       | _ \<Rightarrow> retM ())"

section \<open>VariableAggregator\<close>

text \<open>\<open>for selector in ...\<close>: the first variable with a true value is the output of the group.\<close>

fun aggregate_group :: "pyrt \<Rightarrow> string \<Rightarrow> string \<Rightarrow> pyval list \<Rightarrow> unit cmeth" where
  "aggregate_group rt cid gname [] = retM ()"
| "aggregate_group rt cid gname (selector # sels) =
     bindM (liftM (subscript selector ''value'')) (\<lambda>ref.
     bindM (readM (variable_of rt ref)) (\<lambda>v.
       if truthy v then modM (upd_component cid (set_output gname v))
       else aggregate_group rt cid gname sels))"

definition aggregator_invoke :: "pyrt \<Rightarrow> string \<Rightarrow> unit cmeth" where
  "aggregator_invoke rt cid =
     bindM (self_obj cid) (\<lambda>c.
     bindM (liftM (iter_vals (param_or c ''groups'' (PList [])))) (\<lambda>groups.
       forM (\<lambda>g.
         bindM (liftM (bindR (get_key g ''group_name'' PNone) (\<lambda>n. Inr (py_str rt n)))) (\<lambda>gname.
         bindM (liftM (bindR (get_key g ''variables'' (PList [])) iter_vals)) (\<lambda>sels.
         seqM (modM (upd_component cid (set_input_value (gname @ ''.variables'') (PList sels))))
              (aggregate_group rt cid gname sels)))) groups))"

section \<open>Categorize\<close>

text \<open>\<open>s.count(p)\<close>: occurrences that do not overlap\<close>

fun count_str :: "nat \<Rightarrow> string \<Rightarrow> string \<Rightarrow> nat" where
  "count_str 0 s p = 0"
| "count_str (Suc n) s p =
     (case s of
        [] \<Rightarrow> 0
      | c # cs \<Rightarrow> if starts_with s p then Suc (count_str n (drop (length p) s) p) else count_str n cs p)"

definition str_count :: "string \<Rightarrow> string \<Rightarrow> nat" where
  "str_count s p = (if p = [] then Suc (py_len s) else count_str (length s) s p)"

text \<open>\<open>max(counts.items(), key=...)\<close>: the first of the largest\<close>

fun max_count :: "(string \<times> nat) list \<Rightarrow> string \<times> nat \<Rightarrow> string \<times> nat" where
  "max_count [] best = best"
| "max_count (x # xs) best = max_count xs (if snd best < snd x then x else best)"

definition category_counts :: "string \<Rightarrow> pydict \<Rightarrow> (string \<times> nat) list" where
  "category_counts ans descr = map (\<lambda>(c, _). (c, str_count (lower ans) (lower c))) descr"

definition choose_category :: "string \<Rightarrow> pydict \<Rightarrow> (string \<times> pyval) res" where
  "choose_category ans descr =
     (if descr = [] then Inl (Exc IndexErr ''list index out of range'')
      else bindR (subscript (snd (last descr)) ''to'') (\<lambda>dflt.
        let counts = category_counts ans descr
        in if list_ex (\<lambda>kn. snd kn \<noteq> 0) counts
           then let c = fst (max_count (tl counts) (hd counts))
                in bindR (subscript (dget_or descr c PNone) ''to'') (\<lambda>t. Inr (c, t))
           else Inr (fst (last descr), dflt)))"

definition upper_char :: "char \<Rightarrow> char" where
  "upper_char c = (if 97 \<le> code c \<and> code c \<le> 122 then char_of (code c - 32) else c)"

definition newline :: char where "newline = CHR 0x0A"

text \<open>The prompt: the turns of the history, the last with the query as its content\<close>

definition category_turn :: "string \<times> pyval \<Rightarrow> string res" where
  "category_turn rc =
     (case snd rc of
        PStr s \<Rightarrow> Inr (map upper_char (fst rc) @ '': '' @ [dquote] @ filter (\<lambda>c. c \<noteq> newline) s @ [dquote])
      | _ \<Rightarrow> Inl (type_err ''expected string or bytes-like object''))"

definition category_prompt :: "(string \<times> pyval) list \<Rightarrow> string res" where
  "category_prompt msg =
     bindR (mapR category_turn msg) (\<lambda>ts.
       Inr ([newline] @ ''---- Real Data ----'' @ [newline] @ join '' | '' ts @
            '' '' @ [CHR 0xE2, CHR 0x86, CHR 0x92] @ [newline]))"

definition categorize_messages :: "pyrt \<Rightarrow> component \<Rightarrow> pyval \<Rightarrow> canvas \<Rightarrow> (string \<times> pyval) list res" where
  "categorize_messages rt c query cv =
     (case param_or c ''message_history_window_size'' (PInt 1) of
        PInt w \<Rightarrow>
          (let h = get_history rt w cv;
               msg = (if h = [] then [(''user'', PStr [])] else h)
           in Inr (butlast msg @ [(fst (last msg), query)]))
      | v \<Rightarrow> Inl (type_err (type_name v)))"

definition ERROR_PREFIX :: string where
  "ERROR_PREFIX = ''**ERROR**''"

text \<open>
  \<open>_invoke_async\<close>.  \<open>chat\<close> stands for the tenant's chat model: its answer to the prompt, or the
  exception it raises.
\<close>

definition categorize_invoke ::
  "cenv \<Rightarrow> (canvas \<Rightarrow> string \<Rightarrow> string res) \<Rightarrow> pydict \<Rightarrow> string \<Rightarrow> unit cmeth" where
  "categorize_invoke env chat kws cid =
     bindM (check_if_canceled env cid) (\<lambda>stop.
       if stop then retM ()
       else bindM (self_obj cid) (\<lambda>c.
            let q = (case py_or (param_or c ''query'' PNone) (PStr ''sys.query'') of PStr s \<Rightarrow> s | _ \<Rightarrow> [])
            in bindM (readM (\<lambda>cv. if has_key kws q then Inr (dget_or kws q PNone)
                                  else get_variable_value (crt env) q cv)) (\<lambda>v0.
               let v = (if v0 = PNone then PStr [] else v0)
               in bindM (readM (categorize_messages (crt env) c v)) (\<lambda>msg.
                  seqM (modM (upd_component cid (set_input_value q v)))
                 (bindM (liftM (category_prompt msg)) (\<lambda>prompt.
                  bindM (check_if_canceled env cid) (\<lambda>stop2.
                    if stop2 then retM ()
                    else bindM (readM (\<lambda>cv. chat cv prompt)) (\<lambda>ans.
                         if contains ans ERROR_PREFIX then raiseM PlainException ans
                         else bindM (check_if_canceled env cid) (\<lambda>stop3.
                           if stop3 then retM ()
                           else case param_or c ''category_description'' (PDict []) of
                                  PDict descr \<Rightarrow>
                                    bindM (liftM (choose_category ans descr)) (\<lambda>(cat, tgt).
                                    seqM (modM (upd_component cid (set_output ''category_name'' (PStr cat))))
                                         (modM (upd_component cid (set_output ''_next'' tgt))))
                                | w \<Rightarrow> liftM (Inl (attr_err w ''keys'')))))))))))"

end
