(* ===== verification/DataOps.thy ===== *)
theory DataOps
  imports Operators
begin

text \<open>
  The list, dictionary and string components: \<^verbatim>\<open>list_operations.py\<close>, \<^verbatim>\<open>data_operations.py\<close> and the
  splitting of \<^verbatim>\<open>string_transform.py\<close> (\<^verbatim>\<open>ragflow/agent/component\<close>).  Objects are taken by value;
  a tuple is written as a list.
\<close>

section \<open>Sorting\<close>

text \<open>
  \<open>sorted\<close>: a stable insertion sort by \<open>lt\<close>.  A pair that cannot be compared raises; for
  numbers, strings and mixtures of them this is when CPython raises.
\<close>

fun insert_stable :: "('a \<Rightarrow> 'a \<Rightarrow> bool) \<Rightarrow> 'a \<Rightarrow> 'a list \<Rightarrow> 'a list" where
  "insert_stable lt x [] = [x]"
| "insert_stable lt x (y # ys) = (if lt y x then y # insert_stable lt x ys else x # y # ys)"

fun sort_stable :: "('a \<Rightarrow> 'a \<Rightarrow> bool) \<Rightarrow> 'a list \<Rightarrow> 'a list" where
  "sort_stable lt [] = []"
| "sort_stable lt (x # xs) = insert_stable lt x (sort_stable lt xs)"

definition val_less :: "pyval \<Rightarrow> pyval \<Rightarrow> bool" where
  "val_less a b \<longleftrightarrow> py_cmp LT a b = Inr True"

fun comparable :: "(pyval \<Rightarrow> pyval \<Rightarrow> bool res) \<Rightarrow> pyval list \<Rightarrow> bool" where
  "comparable f [] = True"
| "comparable f (x # xs) =
     (list_all (\<lambda>y. \<not> isl (f x y) \<and> \<not> isl (f y x)) xs \<and> comparable f xs)"

definition sorted_by :: "(pyval \<Rightarrow> pyval) \<Rightarrow> bool \<Rightarrow> pyval list \<Rightarrow> pyval list res" where
  "sorted_by key reverse items =
     (if comparable (\<lambda>a b. py_cmp LT (key a) (key b)) items
      then Inr (sort_stable (\<lambda>a b. if reverse then val_less (key b) (key a) else val_less (key a) (key b)) items)
      else Inl (type_err ''comparison not supported between instances''))"

section \<open>ListOperations\<close>

text \<open>\<open>_hashable\<close>: a dictionary becomes the sorted tuple of its pairs, a list a tuple.\<close>

fun hashable :: "pyval \<Rightarrow> pyval" where
  "hashable (PDict d) =
     PList (map (\<lambda>(k, v). PList [PStr k, v])
       (sort_key fst (map (\<lambda>(k, v). (k, hashable v)) d)))"
| "hashable (PList xs) = PList (map hashable xs)"
| "hashable v = v"

definition coerce_n :: "component \<Rightarrow> int" where
  "coerce_n c = (case py_int (param_or c ''n'' (PInt 0)) of Inr i \<Rightarrow> i | Inl _ \<Rightarrow> 0)"

definition lo_topN :: "int \<Rightarrow> pyval list \<Rightarrow> pyval list" where
  "lo_topN n xs = (if n < 1 then [] else take (nat (min n (int (length xs)))) xs)"

definition lo_head :: "int \<Rightarrow> pyval list \<Rightarrow> pyval list" where
  "lo_head n xs = (if 1 \<le> n \<and> n \<le> int (length xs) then [xs ! nat (n - 1)] else [])"

definition lo_tail :: "int \<Rightarrow> pyval list \<Rightarrow> pyval list" where
  "lo_tail n xs = (if 1 \<le> n \<and> n \<le> int (length xs) then [xs ! (length xs - nat n)] else [])"

definition norm :: "pyrt \<Rightarrow> pyval \<Rightarrow> string" where
  "norm rt v = (if v = PNone then [] else py_str rt v)"

definition lo_eval :: "string \<Rightarrow> pyval \<Rightarrow> pyval \<Rightarrow> bool res" where
  "lo_eval v op value =
     (if op = PStr ''='' then Inr (value = PStr v)
      else if op = PStr op_ne then Inr (value \<noteq> PStr v)
      else if op = PStr ''contains'' then need_str value (\<lambda>t. contains v t)
      else if op = PStr ''start with'' then need_str value (\<lambda>t. starts_with v t)
      else if op = PStr ''end with'' then need_str value (\<lambda>t. ends_with v t)
      else Inr False)"

definition lo_filter :: "pyrt \<Rightarrow> pyval \<Rightarrow> pyval list \<Rightarrow> pyval list res" where
  "lo_filter rt flt xs =
     filterR (\<lambda>i. bindR (subscript flt ''operator'') (\<lambda>op.
                 bindR (subscript flt ''value'') (\<lambda>w. lo_eval (norm rt i) op w))) xs"

definition lo_sort :: "pyval \<Rightarrow> pyval list \<Rightarrow> pyval list res" where
  "lo_sort sort_method xs =
     (let reverse = (py_or sort_method (PStr ''asc'') = PStr ''desc'')
      in if xs = [] then Inr []
         else if is_dict (hd xs) then sorted_by hashable reverse xs
         else sorted_by id reverse xs)"

fun lo_dedup :: "pyval list \<Rightarrow> pyval list \<Rightarrow> pyval list" where
  "lo_dedup seen [] = []"
| "lo_dedup seen (x # xs) =
     (if py_in (hashable x) seen then lo_dedup seen xs else x # lo_dedup (hashable x # seen) xs)"

text \<open>\<open>self._param.outputs[key]["value"] = v\<close> on an output that must exist\<close>

definition put_output :: "string \<Rightarrow> pyval \<Rightarrow> component \<Rightarrow> component res" where
  "put_output key v c =
     (case dget (outputs c) key of
        None \<Rightarrow> Inl (key_err key)
      | Some out \<Rightarrow> Inr (c\<lparr>outputs := dset key (dset ''value'' v out) (outputs c)\<rparr>))"

definition put_outputM :: "string \<Rightarrow> string \<Rightarrow> pyval \<Rightarrow> unit cmeth" where
  "put_outputM cid key v =
     bindM (self_obj cid) (\<lambda>c. bindM (liftM (put_output key v c)) (\<lambda>c'. modM (upd_component cid (\<lambda>_. c'))))"

definition lo_set_outputs :: "string \<Rightarrow> pyval list \<Rightarrow> unit cmeth" where
  "lo_set_outputs cid xs =
     seqM (put_outputM cid ''result'' (PList xs))
    (seqM (put_outputM cid ''first'' (if xs = [] then PNone else hd xs))
          (put_outputM cid ''last'' (if xs = [] then PNone else last xs)))"

definition lo_result :: "pyrt \<Rightarrow> component \<Rightarrow> pyval list \<Rightarrow> pyval list option res" where
  "lo_result rt c xs =
     (let op = param_or c ''operations'' (PStr ''topN'')
      in if op = PStr ''topN'' then Inr (Some (lo_topN (coerce_n c) xs))
         else if op = PStr ''head'' then Inr (Some (lo_head (coerce_n c) xs))
         else if op = PStr ''tail'' then Inr (Some (lo_tail (coerce_n c) xs))
         else if op = PStr ''filter'' then
           bindR (lo_filter rt (param_or c ''filter'' PNone) xs) (\<lambda>r. Inr (Some r))
         else if op = PStr ''sort'' then
           bindR (lo_sort (param_or c ''sort_method'' (PStr ''asc'')) xs) (\<lambda>r. Inr (Some r))
         else if op = PStr ''drop_duplicates'' then Inr (Some (lo_dedup [] xs))
         else Inr None)"

definition listops_invoke :: "pyrt \<Rightarrow> string \<Rightarrow> unit cmeth" where
  "listops_invoke rt cid =
     bindM (self_obj cid) (\<lambda>c.
     bindM (readM (variable_of rt (param_or c ''query'' PNone))) (\<lambda>v.
       case v of
         PList xs \<Rightarrow>
           seqM (modM (upd_component cid (set_input_value
                   (case param_or c ''query'' PNone of PStr s \<Rightarrow> s | _ \<Rightarrow> []) v)))
          (bindM (liftM (lo_result rt c xs)) (\<lambda>r.
             case r of None \<Rightarrow> retM () | Some ys \<Rightarrow> lo_set_outputs cid ys))
       | _ \<Rightarrow> raiseM TypeErr ''The input of List Operations should be an array.''))"

section \<open>DataOperations\<close>

text \<open>\<open>key in v\<close> for a string key\<close>

definition key_in :: "pyval \<Rightarrow> string \<Rightarrow> bool res" where
  "key_in v key =
     (case v of
        PList xs \<Rightarrow> Inr (py_in (PStr key) xs)
      | PDict d \<Rightarrow> Inr (has_key d key)
      | PStr s \<Rightarrow> Inr (contains s key)
      | _ \<Rightarrow> Inl (type_err (''argument of type '' @ type_name v @ '' is not iterable'')))"

definition do_select :: "pyval \<Rightarrow> pydict list \<Rightarrow> pydict list res" where
  "do_select keys objs = mapR (filterR (\<lambda>kv. key_in keys (fst kv))) objs"

definition looks_literal :: "string \<Rightarrow> bool" where
  "looks_literal s =
     (let t = strip_ws s
      in (case t of [] \<Rightarrow> False | c # _ \<Rightarrow> c \<in> {lbrace, CHR ''['', CHR ''('', squote, dquote}) \<or>
         lower t \<in> {''true'', ''false'', ''none''} \<or>
         is_digit_str (replace_char (CHR ''.'') [] t))"

fun recursive_eval :: "pyrt \<Rightarrow> pyval \<Rightarrow> pyval" where
  "recursive_eval rt (PDict d) = PDict (map (\<lambda>(k, v). (k, recursive_eval rt v)) d)"
| "recursive_eval rt (PList xs) = PList (map (recursive_eval rt) xs)"
| "recursive_eval rt (PStr s) =
     (if looks_literal s then (case literal_eval rt s of Some v \<Rightarrow> v | None \<Rightarrow> PStr s) else PStr s)"
| "recursive_eval rt v = v"

definition combine_value :: "pyval \<Rightarrow> pyval \<Rightarrow> pyval" where
  "combine_value old v =
     (case old of
        PList xs \<Rightarrow> (case v of PList ys \<Rightarrow> PList (xs @ ys) | _ \<Rightarrow> PList (xs @ [v]))
      | _ \<Rightarrow> (case v of PList ys \<Rightarrow> PList (old # ys) | _ \<Rightarrow> PList [old, v]))"

fun combine_obj :: "pydict \<Rightarrow> pydict \<Rightarrow> pydict" where
  "combine_obj r [] = r"
| "combine_obj r ((k, v) # kvs) =
     combine_obj (case dget r k of None \<Rightarrow> dset k v r | Some w \<Rightarrow> dset k (combine_value w v) r) kvs"

definition do_combine :: "pydict list \<Rightarrow> pydict" where
  "do_combine objs = foldl combine_obj [] objs"

definition match_rule :: "pyrt \<Rightarrow> canvas \<Rightarrow> pydict \<Rightarrow> pyval \<Rightarrow> bool res" where
  "match_rule rt cv obj rule =
     bindR (get_key rule ''key'' PNone) (\<lambda>key.
     bindR (get_key rule ''operator'' PNone) (\<lambda>op0.
     bindR (as_str ''lower'' (py_or op0 (PStr ''equals''))) (\<lambda>ops.
     bindR (get_key rule ''value'' PNone) (\<lambda>w.
     bindR (get_value_with_variable rt (norm rt w) cv) (\<lambda>t.
       let op = lower ops; target = (if t \<noteq> [] then t else norm rt w)
       in case key of
            PStr k \<Rightarrow>
              (case dget obj k of
                 None \<Rightarrow> Inr False
               | Some val \<Rightarrow>
                   (let v = norm rt val
                    in Inr (if op = ''='' then v = target
                            else if op = op_ne then v \<noteq> target
                            else if op = ''contains'' then contains v target
                            else if op = ''start with'' then starts_with v target
                            else if op = ''end with'' then ends_with v target
                            else False)))
          | _ \<Rightarrow> Inr False)))))"

definition do_filter :: "pyrt \<Rightarrow> canvas \<Rightarrow> pyval list \<Rightarrow> pydict list \<Rightarrow> pydict list res" where
  "do_filter rt cv rules objs =
     filterR (\<lambda>obj. if rules = [] then Inr True else allR (match_rule rt cv obj) rules) objs"

definition update_item :: "pyrt \<Rightarrow> canvas \<Rightarrow> pyval \<Rightarrow> pydict \<Rightarrow> pydict res" where
  "update_item rt cv item obj =
     (case item of
        PDict d \<Rightarrow>
          bindR (as_str ''strip'' (py_or (dget_or d ''key'' PNone) (PStr []))) (\<lambda>k0.
            let k = strip_ws k0; w = dget_or d ''value'' PNone
            in if k = [] then Inr obj
               else (case w of
                       PStr s \<Rightarrow> bindR (get_value_with_variable rt s cv) (\<lambda>t.
                                  Inr (dset k (if t \<noteq> [] then PStr t else w) obj))
                     | _ \<Rightarrow> Inl (type_err ''expected string or bytes-like object'')))
      | _ \<Rightarrow> Inr obj)"

fun update_items :: "pyrt \<Rightarrow> canvas \<Rightarrow> pyval list \<Rightarrow> pydict \<Rightarrow> pydict res" where
  "update_items rt cv [] obj = Inr obj"
| "update_items rt cv (i # items) obj = bindR (update_item rt cv i obj) (update_items rt cv items)"

fun remove_keys :: "pyval list \<Rightarrow> pydict \<Rightarrow> pydict" where
  "remove_keys [] obj = obj"
| "remove_keys (k # ks) obj = remove_keys ks (case k of PStr s \<Rightarrow> dpop s obj | _ \<Rightarrow> obj)"

definition rename_pair :: "pyval \<Rightarrow> pydict \<Rightarrow> pydict res" where
  "rename_pair pair obj =
     (case pair of
        PDict d \<Rightarrow>
          bindR (as_str ''strip'' (py_or (dget_or d ''old_key'' PNone) (PStr []))) (\<lambda>o0.
          bindR (as_str ''strip'' (py_or (dget_or d ''new_key'' PNone) (PStr []))) (\<lambda>n0.
            let old = strip_ws o0; new = strip_ws n0
            in if old = [] \<or> new = [] \<or> old = new then Inr obj
               else case dget obj old of
                      None \<Rightarrow> Inr obj
                    | Some v \<Rightarrow> Inr (dset new v (dpop old obj))))
      | _ \<Rightarrow> Inr obj)"

fun rename_keys :: "pyval list \<Rightarrow> pydict \<Rightarrow> pydict res" where
  "rename_keys [] obj = Inr obj"
| "rename_keys (p # ps) obj = bindR (rename_pair p obj) (rename_keys ps)"

text \<open>The dictionaries of one input: itself, or the dictionaries in a list\<close>

definition dicts_in :: "pyval \<Rightarrow> pydict list" where
  "dicts_in v =
     (case v of
        PDict d \<Rightarrow> [d]
      | PList xs \<Rightarrow> concat (map (\<lambda>x. case x of PDict d \<Rightarrow> [d] | _ \<Rightarrow> []) xs)
      | _ \<Rightarrow> [])"

fun collect_inputs :: "pyrt \<Rightarrow> string \<Rightarrow> pyval list \<Rightarrow> pydict list cmeth" where
  "collect_inputs rt cid [] = retM []"
| "collect_inputs rt cid (r # refs) =
     bindM (readM (variable_of rt r)) (\<lambda>v.
     seqM (modM (upd_component cid (set_input_value (case r of PStr s \<Rightarrow> s | _ \<Rightarrow> []) v)))
    (bindM (collect_inputs rt cid refs) (\<lambda>ds. retM (dicts_in v @ ds))))"

text \<open>\<open>getattr(self._param, name, []) or []\<close> as a list to iterate over\<close>

definition list_param :: "component \<Rightarrow> string \<Rightarrow> pyval list res" where
  "list_param c name = iter_vals (py_or (param_or c name (PList [])) (PList []))"

definition dict_list :: "pydict list \<Rightarrow> pyval" where
  "dict_list objs = PList (map PDict objs)"

definition dataops_result :: "pyrt \<Rightarrow> canvas \<Rightarrow> component \<Rightarrow> pydict list \<Rightarrow> pyval res" where
  "dataops_result rt cv c objs =
     (let op = param_or c ''operations'' (PStr ''literal_eval'')
      in if op = PStr ''select_keys'' then
           bindR (do_select (param_or c ''select_keys'' (PList [])) objs) (\<lambda>r. Inr (dict_list r))
         else if op = PStr ''recursive_eval'' then Inr (recursive_eval rt (dict_list objs))
         else if op = PStr ''combine'' then Inr (PDict (do_combine objs))
         else if op = PStr ''filter_values'' then
           (if objs = [] then Inr (PList [])
            else bindR (list_param c ''filter_values'') (\<lambda>rules.
                 bindR (do_filter rt cv rules objs) (\<lambda>r. Inr (dict_list r))))
         else if op = PStr ''append_or_update'' then
           (if objs = [] then Inr (PList [])
            else bindR (list_param c ''updates'') (\<lambda>us.
                 bindR (mapR (update_items rt cv us) objs) (\<lambda>r. Inr (dict_list r))))
         else if op = PStr ''remove_keys'' then
           (if objs = [] then Inr (PList [])
            else bindR (list_param c ''remove_keys'') (\<lambda>ks. Inr (dict_list (map (remove_keys ks) objs))))
         else (if objs = [] then Inr (PList [])
               else bindR (list_param c ''rename_keys'') (\<lambda>ps.
                    bindR (mapR (rename_keys ps) objs) (\<lambda>r. Inr (dict_list r)))))"

definition dataops_invoke :: "pyrt \<Rightarrow> string \<Rightarrow> unit cmeth" where
  "dataops_invoke rt cid =
     bindM (self_obj cid) (\<lambda>c.
     bindM (collect_inputs rt cid (case param_or c ''query'' PNone of PList rs \<Rightarrow> rs | v \<Rightarrow> [v])) (\<lambda>objs.
     bindM (readM (\<lambda>cv. dataops_result rt cv c objs)) (\<lambda>r.
       modM (upd_component cid (set_output ''result'' r)))))"

text \<open>\<open>DataOperationsParam.check\<close>\<close>

definition dataops_check :: "pyrt \<Rightarrow> component \<Rightarrow> unit res" where
  "dataops_check rt c =
     check_valid_value rt (param_or c ''operations'' (PStr ''literal_eval'')) ''Support operations''
       (map PStr [''select_keys'', ''literal_eval'', ''combine'', ''filter_values'', ''append_or_update'',
                  ''remove_keys'', ''rename_keys''])"

definition listops_check :: "pyrt \<Rightarrow> component \<Rightarrow> unit res" where
  "listops_check rt c =
     bindR (check_empty (param_or c ''query'' (PStr [])) ''query'') (\<lambda>_.
       check_valid_value rt (param_or c ''operations'' (PStr ''topN'')) ''Support operations''
         (map PStr [''topN'', ''head'', ''tail'', ''filter'', ''sort'', ''drop_duplicates'']))"

section \<open>StringTransform\<close>

text \<open>
  \<open>re.split\<close> by an alternation of literal delimiters: at each position the first delimiter that
  matches; after an empty match the next match must advance.  No delimiter at all is the empty
  pattern.
\<close>

function split_delims :: "string list \<Rightarrow> bool \<Rightarrow> string \<Rightarrow> string \<Rightarrow> string list" where
  "split_delims ds must s cur =
     (case find (\<lambda>d. starts_with s d \<and> \<not> (must \<and> d = [])) ds of
        Some d \<Rightarrow> cur # split_delims ds (d = []) (drop (length d) s) []
      | None \<Rightarrow> (case s of [] \<Rightarrow> [cur] | c # cs \<Rightarrow> split_delims ds False cs (cur @ [c])))"
  by pat_completeness auto
termination
proof (relation "measures [\<lambda>(ds, must, s, cur). length s, \<lambda>(ds, must, s, cur). if must then 0 else 1]",
    goal_cases)
  case (3 ds must s cur d)
  then have "starts_with s d" "\<not> (must \<and> d = [])"
    using find_Some_iff [of "\<lambda>d. starts_with s d \<and> \<not> (must \<and> d = [])" ds d] by auto
  then have "length d \<le> length s" by (simp add: starts_with_def prefix_length_le)
  with \<open>\<not> (must \<and> d = [])\<close> show ?case by (cases d) auto
qed auto

declare split_delims.simps [simp del]

definition transform_split :: "cenv \<Rightarrow> string \<Rightarrow> pyval \<Rightarrow> unit cmeth" where
  "transform_split env cid line =
     bindM (check_if_canceled env cid) (\<lambda>stop.
       if stop then retM ()
       else bindM (self_obj cid) (\<lambda>c.
            bindM (if \<not> truthy line then readM (variable_of (crt env) (param_or c ''split_ref'' (PStr [])))
                   else retM line) (\<lambda>var0.
            let var = (if \<not> truthy var0 then PStr [] else var0)
            in case var of
                 PStr s \<Rightarrow>
                   seqM (modM (upd_component cid (set_input_value
                           (case param_or c ''split_ref'' (PStr []) of PStr r \<Rightarrow> r | _ \<Rightarrow> []) var)))
                  (bindM (liftM (bindR (iter_vals (param_or c ''delimiters'' (PList []))) (mapR (as_str ''escape'')))) (\<lambda>ds.
                     modM (upd_component cid (set_output ''result''
                       (PList (map PStr (split_delims (if ds = [] then [[]] else ds) False s [])))))))
               | _ \<Rightarrow> raiseM AssertionErr (''The input variable is not a string: '' @ type_repr var))))"

end
