(* ===== verification/CanvasRun.thy ===== *)
theory CanvasRun
  imports DataOps
begin

text \<open>
  Running a canvas (\<^verbatim>\<open>Canvas.run\<close> in \<^verbatim>\<open>ragflow/agent/canvas.py\<close>): the path of component ids, the
  batches that run it, the routing after each component, pauses for user input, and the events
  sent to the caller.  Parameters: the bodies of the components that are not modelled (chat
  models, tools, message rendering), the file service, \<open>re.sub\<close>, the clock, and the order in which
  the thread pool finishes the tasks of a batch; an invocation is one step.  Message contents that
  are streams, and the speech synthesis of messages, are not modelled, so every finished node
  reports at once.  An id in the path that is not a string names no component and is written as
  the empty string.
\<close>

section \<open>Environment, events and state\<close>

record renv =
  re_env :: cenv
  run_other :: "string \<Rightarrow> pydict \<Rightarrow> unit cmeth"
  chat_model :: "canvas \<Rightarrow> string \<Rightarrow> string res"
  thoughts_of :: "string \<Rightarrow> unit cmeth"
  load_files :: "pyval list \<Rightarrow> pyval"
  turn_files :: "pyval \<Rightarrow> pyval \<Rightarrow> pyval res"
  re_sub :: "string \<Rightarrow> string \<Rightarrow> string \<Rightarrow> string res"
  batch_order :: "(string \<times> pydict) list \<Rightarrow> (string \<times> pydict) list"
  clock :: "nat \<Rightarrow> rat \<times> rat"
  date_now :: string

abbreviation rt_of :: "renv \<Rightarrow> pyrt" where
  "rt_of env \<equiv> crt (re_env env)"

datatype event =
    WorkflowStarted pyval
  | NodeStarted string
  | MessageEv pyval
  | MessageEnd pydict
  | NodeFinished string pydict pydict pyval
  | UserInputs pydict pyval
  | WorkflowFinished pyval

record runst =
  rcv :: canvas
  events :: "event list"
  tick :: nat

type_synonym 'a rmeth = "(runst, 'a) meth"

definition onC :: "'a cmeth \<Rightarrow> 'a rmeth" where
  "onC m = (\<lambda>s. case m (rcv s) of (r, cv) \<Rightarrow> (r, s\<lparr>rcv := cv\<rparr>))"

definition emit :: "event \<Rightarrow> unit rmeth" where
  "emit e = modM (\<lambda>s. s\<lparr>events := events s @ [e]\<rparr>)"

definition cname :: "component \<Rightarrow> string" where
  "cname c = lower (component_name c)"

definition id_of :: "pyval \<Rightarrow> string" where
  "id_of v = (case v of PStr s \<Rightarrow> s | _ \<Rightarrow> [])"

section \<open>Inputs of the components\<close>

definition text_of :: "pyval \<Rightarrow> string res" where
  "text_of v = (case v of PStr s \<Rightarrow> Inr s | _ \<Rightarrow> Inl (type_err ''expected string or bytes-like object''))"

text \<open>\<open>"".join(content)\<close>\<close>

definition join_content :: "pyval \<Rightarrow> string res" where
  "join_content v = bindR (iter_vals v) (\<lambda>xs. bindR (mapR text_of xs) (\<lambda>ss. Inr (concat ss)))"

text \<open>The prompts of a chat component: a text becomes a list of one message, and the parameter keeps it.\<close>

definition list_prompts :: "component \<Rightarrow> component" where
  "list_prompts c =
     (case param_or c ''prompts'' (PList []) of
        PStr s \<Rightarrow>
          c\<lparr>params := dset ''prompts'' (PList [PDict [(''role'', PStr ''user''), (''content'', PStr s)]]) (params c)\<rparr>
      | _ \<Rightarrow> c)"

definition sys_prompt_elements :: "pyrt \<Rightarrow> string \<Rightarrow> canvas \<Rightarrow> pydict res" where
  "sys_prompt_elements rt cid cv =
     bindR (get_component_obj cv cid) (\<lambda>c.
     bindR (text_of (param_or c ''sys_prompt'' (PStr []))) (\<lambda>sp. get_input_elements_from_text rt sp cv))"

definition each_prompt_elements :: "pyrt \<Rightarrow> string \<Rightarrow> canvas \<Rightarrow> pydict list res" where
  "each_prompt_elements rt cid cv =
     bindR (get_component_obj cv cid) (\<lambda>c.
     bindR (iter_vals (param_or c ''prompts'' (PList []))) (\<lambda>prompts.
       mapR (\<lambda>p. bindR (subscript p ''content'') (\<lambda>t. bindR (text_of t) (\<lambda>s.
         get_input_elements_from_text rt s cv))) prompts))"

text \<open>The elements of the system prompt, then those of each prompt's content\<close>

definition prompt_elements :: "pyrt \<Rightarrow> string \<Rightarrow> pydict cmeth" where
  "prompt_elements rt cid =
     bindM (readM (sys_prompt_elements rt cid)) (\<lambda>res0.
     seqM (modM (upd_component cid list_prompts))
    (bindM (readM (each_prompt_elements rt cid)) (\<lambda>ds. retM (foldl dset_all res0 ds))))"

definition other_elements :: "pyrt \<Rightarrow> component \<Rightarrow> canvas \<Rightarrow> pydict res" where
  "other_elements rt c cv =
     (if cname c \<in> {''message'', ''pdfgenerator''} then
        bindR (join_content (param_or c ''content'' (PList []))) (\<lambda>s. get_input_elements_from_text rt s cv)
      else if cname c = ''stringtransform'' then
        bindR (text_of (param_or c ''script'' (PStr []))) (\<lambda>s. get_input_elements_from_text rt s cv)
      else if cname c = ''categorize'' then
        get_input_elements_from_text rt
          ([lbrace] @ py_str rt (py_or (param_or c ''query'' PNone) (PStr ''sys.query'')) @ [rbrace]) cv
      else Inr (map (\<lambda>(k, d). (k, PDict d)) (inputs c)))"

definition input_elements :: "pyrt \<Rightarrow> string \<Rightarrow> pydict cmeth" where
  "input_elements rt cid =
     bindM (self_obj cid) (\<lambda>c.
       if cname c \<in> {''llm'', ''agent''} then prompt_elements rt cid else readM (other_elements rt c))"

definition get_input :: "pyrt \<Rightarrow> string \<Rightarrow> pydict cmeth" where
  "get_input rt cid =
     bindM (input_elements rt cid) (\<lambda>els. get_input_loop rt cid (map fst els) [])"

section \<open>Begin and UserFillUp\<close>

definition fill_value :: "renv \<Rightarrow> pyval \<Rightarrow> pyval res" where
  "fill_value env v =
     (case v of
        PDict d \<Rightarrow>
          bindR (as_str ''lower'' (dget_or d ''type'' (PStr []))) (\<lambda>t.
            if contains (lower t) ''file'' then
              (if truthy (dget_or d ''optional'' PNone) \<and> dget_or d ''value'' PNone = PNone then Inr PNone
               else bindR (subscript v ''value'') (\<lambda>fv.
                      Inr (load_files env (case fv of PList fs \<Rightarrow> fs | _ \<Rightarrow> [fv]))))
            else Inr (dget_or d ''value'' PNone))
      | _ \<Rightarrow> Inl (attr_err v ''get''))"

fun fill_inputs :: "renv \<Rightarrow> bool \<Rightarrow> string \<Rightarrow> (string \<times> pyval) list \<Rightarrow> unit cmeth" where
  "fill_inputs env as_input cid [] = retM ()"
| "fill_inputs env as_input cid ((k, v) # kvs) =
     bindM (check_if_canceled (re_env env) cid) (\<lambda>stop.
       if stop then retM ()
       else bindM (liftM (fill_value env v)) (\<lambda>w.
            seqM (modM (upd_component cid (set_output k w)))
           (seqM (if as_input then modM (upd_component cid (set_input_value k w)) else retM ())
                 (fill_inputs env as_input cid kvs))))"

definition inputs_kw :: "pydict \<Rightarrow> (string \<times> pyval) list res" where
  "inputs_kw kws =
     (case dget_or kws ''inputs'' (PDict []) of PDict d \<Rightarrow> Inr d | v \<Rightarrow> Inl (attr_err v ''items''))"

definition begin_invoke :: "renv \<Rightarrow> pydict \<Rightarrow> string \<Rightarrow> unit cmeth" where
  "begin_invoke env kws cid =
     bindM (check_if_canceled (re_env env) cid) (\<lambda>stop.
       if stop then retM () else bindM (liftM (inputs_kw kws)) (fill_inputs env True cid))"

definition tip_text :: "pyrt \<Rightarrow> pyval \<Rightarrow> string" where
  "tip_text rt v =
     (case v of
        PStr s \<Rightarrow> s
      | PList xs \<Rightarrow> join '','' (map (py_str rt) xs)
      | _ \<Rightarrow> json_dumps rt v)"

fun fill_tips :: "renv \<Rightarrow> (string \<times> pyval) list \<Rightarrow> string \<Rightarrow> string res" where
  "fill_tips env [] content = Inr content"
| "fill_tips env ((k, el) # els) content =
     bindR (subscript el ''value'') (\<lambda>v.
     bindR (re_sub env (backslash # lbrace # k @ [backslash, rbrace]) (tip_text (rt_of env) v) content)
       (fill_tips env els))"

definition userfillup_invoke :: "renv \<Rightarrow> pydict \<Rightarrow> string \<Rightarrow> unit cmeth" where
  "userfillup_invoke env kws cid =
     bindM (check_if_canceled (re_env env) cid) (\<lambda>stop.
       if stop then retM ()
       else bindM (self_obj cid) (\<lambda>c.
            seqM (if truthy (param_or c ''enable_tips'' (PBool True))
                  then bindM (liftM (text_of (param_or c ''tips'' (PStr ''Please fill up the form'')))) (\<lambda>tips.
                       bindM (readM (get_input_elements_from_text (rt_of env) tips)) (\<lambda>els.
                       bindM (liftM (fill_tips env els tips)) (\<lambda>content.
                         modM (upd_component cid (set_output ''tips'' (PStr content))))))
                  else retM ())
                 (bindM (liftM (inputs_kw kws)) (fill_inputs env False cid))))"

section \<open>Invoking a component\<close>

definition component_body :: "renv \<Rightarrow> string \<Rightarrow> pydict \<Rightarrow> unit cmeth" where
  "component_body env cid kws =
     bindM (self_obj cid) (\<lambda>c.
       let n = cname c
       in if n = ''begin'' then begin_invoke env kws cid
          else if n = ''userfillup'' then userfillup_invoke env kws cid
          else if n = ''switch'' then switch_invoke (re_env env) cid
          else if n = ''categorize'' then categorize_invoke (re_env env) (chat_model env) kws cid
          else if n = ''loop'' then loop_invoke (re_env env) cid
          else if n = ''loopitem'' then loopitem_invoke (re_env env) cid
          else if n = ''iteration'' then iteration_invoke (re_env env) cid
          else if n = ''iterationitem'' then iterationitem_invoke (re_env env) cid
          else if n = ''exitloop'' then exitloop_invoke
          else if n = ''variableassigner'' then assigner_invoke (rt_of env) cid
          else if n = ''variableaggregator'' then aggregator_invoke (rt_of env) cid
          else if n = ''listoperations'' then listops_invoke (rt_of env) cid
          else if n = ''dataoperations'' then dataops_invoke (rt_of env) cid
          else if n = ''stringtransform'' \<and> param_or c ''method'' (PStr ''split'') = PStr ''split''
            then transform_split (re_env env) cid (dget_or kws ''line'' PNone)
          else run_other env cid kws)"

definition no_component :: component where
  "no_component = \<lparr> component_name = [], params = [], inputs = [], outputs = [], debug_inputs = [],
     parent_id = None, downstream = [], upstream = [], idx = 0 \<rparr>"

definition view_component :: "string \<Rightarrow> canvas \<Rightarrow> component" where
  "view_component cid cv = (case get_component cv cid of Some c \<Rightarrow> c | None \<Rightarrow> no_component)"

definition is_async :: "component \<Rightarrow> bool" where
  "is_async c \<longleftrightarrow> cname c \<in> {''categorize'', ''llm'', ''agent'', ''retrieval''}"

text \<open>\<open>invoke_async\<close>: a canceled call returns before the elapsed time is stored.\<close>

definition invoke_async :: "renv \<Rightarrow> string \<Rightarrow> unit cmeth \<Rightarrow> rat \<Rightarrow> rat \<Rightarrow> canvas \<Rightarrow> canvas" where
  "invoke_async env cid body t0 dt cv =
     (case check_if_canceled (re_env env) cid (upd_component cid (set_output ''_created_time'' (PFloat t0)) cv) of
        (Inr True, cv1) \<Rightarrow> cv1
      | (_, cv1) \<Rightarrow>
          snd (invoke (upd_component cid) (view_component cid) body t0 dt cv1))"

definition run_task :: "renv \<Rightarrow> string \<times> pydict \<Rightarrow> unit rmeth" where
  "run_task env task =
     (\<lambda>s. let (t0, dt) = clock env (tick s); cid = fst task; body = component_body env cid (snd task);
              cv = (if is_async (view_component cid (rcv s))
                    then invoke_async env cid body t0 dt (rcv s)
                    else snd (invoke (upd_component cid) (view_component cid) body t0 dt (rcv s)))
          in (Inr (), s\<lparr>rcv := cv, tick := Suc (tick s)\<rparr>))"

section \<open>A batch\<close>

text \<open>An input from a component that has not run yet; a path that starts with a form is not checked.\<close>

definition missing_input :: "string list \<Rightarrow> string list \<Rightarrow> pyval \<Rightarrow> bool" where
  "missing_input pth done el \<longleftrightarrow>
     (case el of
        PDict d \<Rightarrow>
          (let c = dget_or d ''_cpn_id'' PNone
           in truthy c \<and> \<not> py_in c (map PStr done) \<and> \<not> contains (lower (hd pth)) ''userfillup'')
      | _ \<Rightarrow> False)"

text \<open>
  The tasks of the batch from position \<open>i\<close>, \<open>n\<close> positions to go.  A component with a missing input
  is taken out of the path.
\<close>

fun select_batch :: "renv \<Rightarrow> pydict \<Rightarrow> nat \<Rightarrow> nat \<Rightarrow> (string \<times> pydict) list cmeth" where
  "select_batch env kw 0 i = retM []"
| "select_batch env kw (Suc n) i =
     (\<lambda>cv. let cid = path cv ! i
           in bindM (self_obj cid) (\<lambda>c.
                if cname c \<in> {''begin'', ''userfillup''}
                then bindM (select_batch env kw n (Suc i)) (\<lambda>ts.
                       retM ((cid, [(''inputs'', dget_or kw ''inputs'' (PDict []))]) # ts))
                else bindM (input_elements (rt_of env) cid) (\<lambda>els.
                       if list_ex (\<lambda>ke. missing_input (path cv) (take i (path cv)) (snd ke)) els
                       then seqM (modM (\<lambda>cv. cv\<lparr>path := take i (path cv) @ drop (Suc i) (path cv)\<rparr>))
                                 (select_batch env kw n i)
                       else bindM (get_input (rt_of env) cid) (\<lambda>kws.
                            bindM (select_batch env kw n (Suc i)) (\<lambda>ts. retM ((cid, kws) # ts))))) cv)"

definition run_batch :: "renv \<Rightarrow> pydict \<Rightarrow> nat \<Rightarrow> unit rmeth" where
  "run_batch env kw f =
     bindM (onC (is_canceled (re_env env))) (\<lambda>stop.
       if stop then raiseM TaskCanceledErr ''Task has been canceled during batch execution.''
       else bindM (onC (\<lambda>cv. select_batch env kw (length (path cv) - f) f cv)) (\<lambda>ts.
              forM (run_task env) (batch_order env ts)))"

section \<open>After a component\<close>

definition get_input_values_of :: "pyrt \<Rightarrow> string \<Rightarrow> pydict cmeth" where
  "get_input_values_of rt cid =
     bindM (self_obj cid) (\<lambda>c.
       if debug_inputs c \<noteq> [] then retM (debug_inputs c)
       else bindM (input_elements rt cid) (\<lambda>els. retM (map (\<lambda>ke. (fst ke, get_input_value c (fst ke))) els)))"

definition node_finished :: "renv \<Rightarrow> string \<Rightarrow> unit rmeth" where
  "node_finished env cid =
     bindM (onC (get_input_values_of (rt_of env) cid)) (\<lambda>ins.
     bindM (onC (self_obj cid)) (\<lambda>c.
       if is_num (output_of c ''_created_time'')
       then emit (NodeFinished cid ins (case output_of c [] of PDict d \<Rightarrow> d | _ \<Rightarrow> []) (error_of c))
       else raiseM TypeErr ''unsupported operand type(s) for -''))"

definition message_events :: "string \<Rightarrow> unit rmeth" where
  "message_events cid =
     bindM (onC (self_obj cid)) (\<lambda>c.
       if cname c = ''message''
       then seqM (emit (MessageEv (output_of c ''content'')))
                 (bindM (onC (readM (\<lambda>cv. Inr (build_message_end c cv)))) (\<lambda>d. emit (MessageEnd d)))
       else retM ())"

text \<open>The error of the component: go to the handler's targets, answer the default value, or fail.\<close>

definition error_branch :: "string \<Rightarrow> bool rmeth" where
  "error_branch cid =
     bindM (onC (self_obj cid)) (\<lambda>c.
       if \<not> truthy (error_of c) then retM False
       else case exception_handler c of
              None \<Rightarrow> seqM (onC (modM (\<lambda>cv. cv\<lparr>run_error := error_of c\<rparr>))) (retM False)
            | Some (goto, dflt) \<Rightarrow>
                if truthy goto
                then bindM (onC (liftM (iter_vals goto))) (\<lambda>ids.
                     seqM (onC (modM (\<lambda>cv. cv\<lparr>path := path cv @ map id_of ids\<rparr>))) (retM True))
                else if truthy dflt
                then seqM (emit (MessageEv dflt)) (seqM (emit (MessageEnd [])) (retM False))
                else seqM (onC (modM (\<lambda>cv. cv\<lparr>run_error := error_of c\<rparr>))) (retM False))"

definition append_path :: "string list \<Rightarrow> string \<Rightarrow> string list" where
  "append_path p cid = (if p \<noteq> [] \<and> last p = cid then p else p @ [cid])"

definition extend_path :: "bool \<Rightarrow> string list \<Rightarrow> unit rmeth" where
  "extend_path other ids = onC (modM (\<lambda>cv. if other then cv else cv\<lparr>path := foldl append_path (path cv) ids\<rparr>))"

definition item_end :: "renv \<Rightarrow> string \<Rightarrow> component \<Rightarrow> bool cmeth" where
  "item_end env cid c =
     (if cname c = ''iterationitem'' then iterationitem_end cid
      else if cname c = ''loopitem'' then loopitem_end (rt_of env) cid
      else retM False)"

text \<open>\<open>get_start\<close> of a container by its class; other classes have no such method.\<close>

definition start_of :: "string \<Rightarrow> component \<Rightarrow> canvas \<Rightarrow> string res" where
  "start_of pid p cv =
     (if cname p = ''iteration'' then Inr (case get_start ''iterationitem'' cv pid of Some i \<Rightarrow> i | None \<Rightarrow> [])
      else if cname p = ''loop'' then Inr (case get_start ''loopitem'' cv pid of Some i \<Rightarrow> i | None \<Rightarrow> [])
      else Inl (Exc AttributeErr (component_name p @ '' object has no attribute get_start'')))"

definition plain_route :: "bool \<Rightarrow> string \<Rightarrow> component \<Rightarrow> unit rmeth" where
  "plain_route other cid c =
     (if downstream c = []
      then bindM (onC (readM (\<lambda>cv. get_parent cv cid))) (\<lambda>pp.
             case pp of
               None \<Rightarrow> extend_path other []
             | Some (pid, p) \<Rightarrow> bindM (onC (readM (start_of pid p))) (\<lambda>st. extend_path other [st]))
      else extend_path other (downstream c))"

definition route :: "renv \<Rightarrow> bool \<Rightarrow> string \<Rightarrow> unit rmeth" where
  "route env other cid =
     bindM (onC (self_obj cid)) (\<lambda>c.
     bindM (onC (item_end env cid c)) (\<lambda>ended.
       if ended
       then bindM (onC (parent_obj cid)) (\<lambda>p.
            seqM (node_finished env (fst p))
                 (bindM (onC (self_obj (fst p))) (\<lambda>pc. extend_path other (downstream pc))))
       else if cname c \<in> {''categorize'', ''switch''}
       then if other then retM ()
            else bindM (onC (liftM (iter_vals (output_of c ''_next'')))) (\<lambda>ids. extend_path other (map id_of ids))
       else if cname c \<in> {''iteration'', ''loop''}
       then bindM (onC (readM (start_of cid c))) (\<lambda>st. extend_path other [st])
       else if cname c = ''exitloop''
       then bindM (onC (parent_obj cid)) (\<lambda>p.
              if cname (snd p) = ''loop'' then extend_path other (downstream (snd p))
              else plain_route other cid c)
       else plain_route other cid c))"

definition post_node :: "renv \<Rightarrow> string \<Rightarrow> unit rmeth" where
  "post_node env cid =
     seqM (message_events cid)
    (bindM (error_branch cid) (\<lambda>other.
     bindM (onC (self_obj cid)) (\<lambda>c.
     seqM (if cname c \<in> {''iteration'', ''loop''} then retM () else node_finished env cid)
          (route env other cid))))"

section \<open>Rounds\<close>

definition node_started :: "renv \<Rightarrow> string \<Rightarrow> unit rmeth" where
  "node_started env cid =
     bindM (onC (self_obj cid)) (\<lambda>c.
     seqM (if cname c = ''iteration''
           then bindM (onC (readM (variable_of (rt_of env) (param_or c ''items_ref'' (PStr [])))))
                  (\<lambda>v. bindM (liftM (len_zero v)) (\<lambda>_. retM ()))
           else onC (thoughts_of env cid))
          (emit (NodeStarted cid)))"

definition is_fillup :: "canvas \<Rightarrow> string \<Rightarrow> bool" where
  "is_fillup cv cid \<longleftrightarrow> cname (view_component cid cv) = ''userfillup''"

text \<open>The forms of a pause, each invoked; the inputs they ask for and the last tips.\<close>

fun pause_forms :: "renv \<Rightarrow> string list \<Rightarrow> pydict \<Rightarrow> pyval \<Rightarrow> (pydict \<times> pyval) rmeth" where
  "pause_forms env [] ins tips = retM (ins, tips)"
| "pause_forms env (cid # cids) ins tips =
     seqM (run_task env (cid, []))
    (bindM (onC (input_elements (rt_of env) cid)) (\<lambda>els.
     bindM (onC (self_obj cid)) (\<lambda>c.
       pause_forms env cids (dset_all ins els)
         (if truthy (param_or c ''enable_tips'' (PBool True)) then output_of c ''tips'' else tips))))"

definition pause :: "renv \<Rightarrow> nat \<Rightarrow> unit rmeth" where
  "pause env i =
     (\<lambda>s. let ids = drop i (path (rcv s)); forms = filter (is_fillup (rcv s)) ids;
              others = filter (\<lambda>c. \<not> is_fillup (rcv s) c) ids
          in bindM (pause_forms env forms [] (PStr [])) (\<lambda>(ins, tips).
             seqM (onC (modM (\<lambda>cv. cv\<lparr>path := forms @ others\<rparr>))) (emit (UserInputs ins tips))) s)"

datatype round_end = Broken | Paused | Onward nat

definition run_round :: "renv \<Rightarrow> pydict \<Rightarrow> nat \<Rightarrow> round_end rmeth" where
  "run_round env kw i =
     seqM (\<lambda>s. forM (node_started env) (drop i (path (rcv s))) s)
    (seqM (run_batch env kw i)
    (bindM (onC (readM (\<lambda>cv. Inr (length (path cv))))) (\<lambda>to.
     seqM (\<lambda>s. forM (post_node env) (drop i (path (rcv s))) s)
    (bindM (onC (readM (\<lambda>cv. Inr (truthy (run_error cv))))) (\<lambda>failed.
       if failed then retM Broken
       else bindM (onC (readM (\<lambda>cv. mapR (get_component_obj cv) (drop to (path cv))))) (\<lambda>cs.
              if list_ex (\<lambda>c. cname c = ''userfillup'') cs
              then seqM (pause env to) (retM Paused)
              else retM (Onward to)))))))"

datatype run_end = Ended nat | Suspended | OutOfFuel

primrec rounds :: "renv \<Rightarrow> pydict \<Rightarrow> nat \<Rightarrow> nat \<Rightarrow> run_end rmeth" where
  "rounds env kw 0 i = (\<lambda>s. (Inr (if length (path (rcv s)) \<le> i then Ended i else OutOfFuel), s))"
| "rounds env kw (Suc fuel) i =
     (\<lambda>s. if length (path (rcv s)) \<le> i then (Inr (Ended i), s)
          else bindM (run_round env kw i) (\<lambda>e. case e of
                 Broken \<Rightarrow> retM (Ended i) | Paused \<Rightarrow> retM Suspended | Onward j \<Rightarrow> rounds env kw fuel j) s)"

section \<open>A run\<close>

definition webhook_component :: "pyval \<Rightarrow> component \<Rightarrow> component res" where
  "webhook_component payload c =
     (if cname c = ''begin'' \<and> param_or c ''mode'' PNone = PStr ''Webhook''
      then bindR (key_in payload ''input'') (\<lambda>b.
           bindR (if b then bindR (subscript payload ''input'') (\<lambda>v. Inr (set_input_value ''request'' v c))
                  else Inr c) (\<lambda>c1.
             case payload of
               PDict d \<Rightarrow> Inr (foldl (\<lambda>c kv. if fst kv = ''input'' then c else set_output (fst kv) (snd kv) c) c1 d)
             | _ \<Rightarrow> Inl (attr_err payload ''items'')))
      else Inr c)"

definition apply_webhook :: "pydict \<Rightarrow> unit cmeth" where
  "apply_webhook kw =
     (if truthy (dget_or kw ''webhook_payload'' PNone)
      then bindM (readM (\<lambda>cv. mapR (\<lambda>(k, c). bindR (webhook_component (dget_or kw ''webhook_payload'' PNone) c)
                                                  (\<lambda>c'. Inr (k, c'))) (components cv)))
             (\<lambda>cs. modM (\<lambda>cv. cv\<lparr>components := cs\<rparr>))
      else retM ())"

definition layout_of :: "canvas \<Rightarrow> pyval" where
  "layout_of cv =
     (case find (\<lambda>kc. cname (snd kc) = ''begin'') (components cv) of
        None \<Rightarrow> PNone | Some (_, c) \<Rightarrow> param_or c ''layout_recognize'' PNone)"

definition set_turn_global :: "renv \<Rightarrow> string \<times> pyval \<Rightarrow> unit cmeth" where
  "set_turn_global env kv =
     (if fst kv \<in> {''query'', ''user_id'', ''files''} \<and> truthy (snd kv)
      then bindM (readM (\<lambda>cv. if fst kv = ''files'' then turn_files env (snd kv) (layout_of cv) else Inr (snd kv)))
             (\<lambda>v. modM (\<lambda>cv. cv\<lparr>globals := dset (''sys.'' @ fst kv) v (globals cv)\<rparr>))
      else retM ())"

text \<open>\<open>turns += 1\<close>, a false value counting as 0\<close>

definition next_turn :: "pyrt \<Rightarrow> pyval \<Rightarrow> pyval res" where
  "next_turn rt v =
     (case (if truthy v then v else PInt 0) of
        PInt i \<Rightarrow> Inr (PInt (i + 1))
      | PBool b \<Rightarrow> Inr (PInt 2)
      | PFloat q \<Rightarrow> Inr (PFloat (fround rt (q + 1)))
      | w \<Rightarrow> Inl (type_err (''unsupported operand type(s) for +='' @ type_name w)))"

definition count_turn :: "pyrt \<Rightarrow> unit cmeth" where
  "count_turn rt =
     bindM (readM (\<lambda>cv. case dget (globals cv) ''sys.conversation_turns'' of
                          None \<Rightarrow> Inl (key_err ''sys.conversation_turns'') | Some v \<Rightarrow> next_turn rt v))
       (\<lambda>v. modM (\<lambda>cv. cv\<lparr>globals := dset ''sys.conversation_turns'' v (globals cv)\<rparr>))"

text \<open>A fresh run starts at \<open>begin\<close>; a run whose path ends with a form goes on there.\<close>

definition resumes :: "canvas \<Rightarrow> bool" where
  "resumes cv \<longleftrightarrow> path cv \<noteq> [] \<and> contains (lower (last (path cv))) ''userfillup''"

definition enter :: "canvas \<Rightarrow> canvas" where
  "enter cv =
     (if resumes cv then cv
      else cv\<lparr>path := path cv @ [''begin''],
              retrieval := retrieval cv @ [[(''chunks'', PList []), (''doc_aggs'', PList [])]]\<rparr>)"

definition start_run :: "renv \<Rightarrow> pydict \<Rightarrow> unit rmeth" where
  "start_run env kw =
     seqM (onC (modM (\<lambda>cv. cv\<lparr>globals := dset ''sys.date'' (PStr (date_now env)) (globals cv)\<rparr>)))
    (seqM (onC (add_user_input (rt_of env) (dget_or kw ''query'' PNone)))
    (seqM (onC (modM (reset_components True)))
    (seqM (onC (apply_webhook kw))
    (seqM (onC (forM (set_turn_global env) kw))
    (seqM (onC (count_turn (rt_of env)))
    (seqM (onC (modM enter))
    (bindM (onC (is_canceled (re_env env))) (\<lambda>stop.
       if stop then raiseM TaskCanceledErr ''Task has been canceled before starting.''
       else seqM (emit (WorkflowStarted (dget_or kw ''inputs'' PNone)))
                 (onC (modM (\<lambda>cv. cv\<lparr>retrieval := retrieval cv @ [[(''chunks'', PDict []), (''doc_aggs'', PDict [])]],
                                     run_error := PStr []\<rparr>)))))))))))"

definition finish_run :: "renv \<Rightarrow> nat \<Rightarrow> unit rmeth" where
  "finish_run env i =
     seqM (onC (modM (\<lambda>cv. cv\<lparr>path := take i (path cv)\<rparr>)))
    (bindM (onC (readM Inr)) (\<lambda>cv.
       if \<not> truthy (run_error cv)
       then if path cv = [] then raiseM IndexErr ''list index out of range''
            else bindM (onC (self_obj (last (path cv)))) (\<lambda>c.
                 seqM (emit (WorkflowFinished (output_of c [])))
                      (onC (add_history (rt_of env) ''assistant'' (output_of c []))))
       else bindM (liftM (key_in (run_error cv) ''Task has been canceled'')) (\<lambda>b.
              if b then emit (WorkflowFinished (PStr ''Task has been canceled'')) else retM ())))"

definition canvas_run :: "renv \<Rightarrow> pydict \<Rightarrow> nat \<Rightarrow> run_end rmeth" where
  "canvas_run env kw fuel =
     seqM (start_run env kw)
    (bindM (\<lambda>s. rounds env kw fuel (length (path (rcv s)) - 1) s) (\<lambda>e.
       case e of
         Ended i \<Rightarrow> seqM (finish_run env i) (retM (Ended i))
       | _ \<Rightarrow> retM e))"

end
