(* ===== verification/CanvasFrame.thy ===== *)
theory CanvasFrame
  imports CanvasRun
begin

text \<open>
  What the parts of a run may change.  The graph (ids, classes, links and the parameters but for prompts and
  output formats) is never changed; the component bodies leave the path alone; the events are only appended to.
\<close>

section \<open>The graph and the path\<close>

text \<open>The parameters a run writes: chat components rewrite their prompts, a message its output format\<close>

definition written_params :: "string list" where
  "written_params = [''prompts'', ''sys_prompt'', ''output_format'']"

definition fixed_params :: "component \<Rightarrow> pydict" where
  "fixed_params c = filter (\<lambda>(k, _). k \<notin> set written_params) (params c)"

definition static :: "component \<Rightarrow> string \<times> pydict \<times> string option \<times> string list \<times> string list" where
  "static c = (component_name c, fixed_params c, parent_id c, downstream c, upstream c)"

type_synonym graph = "(string \<times> string \<times> pydict \<times> string option \<times> string list \<times> string list) list"

definition graph_of :: "canvas \<Rightarrow> graph" where
  "graph_of cv = map (\<lambda>(k, c). (k, static c)) (components cv)"

definition same_graph :: "canvas \<Rightarrow> canvas \<Rightarrow> bool" where
  "same_graph cv cv' \<longleftrightarrow> graph_of cv' = graph_of cv"

definition same_shape :: "canvas \<Rightarrow> canvas \<Rightarrow> bool" where
  "same_shape cv cv' \<longleftrightarrow> graph_of cv' = graph_of cv \<and> path cv' = path cv"

interpretation gr: frame same_graph
  by unfold_locales (auto simp: same_graph_def)

interpretation sh: frame same_shape
  by unfold_locales (auto simp: same_shape_def)

lemma shape_graph: "stays same_shape m \<Longrightarrow> stays same_graph m"
  by (auto simp: stays_def same_shape_def same_graph_def)

lemma static_updates [simp]:
  "static (set_output k v c) = static c" "static (set_input_value k v c) = static c"
  "static (c\<lparr>idx := i\<rparr>) = static c" "static (c\<lparr>debug_inputs := d\<rparr>) = static c"
  "static (set_exception_default_value c) = static c" "static (Component.reset b c) = static c"
  by (simp_all add: static_def fixed_params_def set_exception_default_value_def Component.reset_def Let_def)

lemma filter_dset: "\<not> P k \<Longrightarrow> filter (\<lambda>(k, _). P k) (dset k v d) = filter (\<lambda>(k, _). P k) d"
  by (induction d) auto

lemma static_prompts [simp]: "static (list_prompts c) = static c"
  by (auto simp: static_def fixed_params_def list_prompts_def written_params_def filter_dset split: pyval.split)

lemma map_dset_same:
  assumes "dget d k = Some c" and "g c' = g c"
  shows "map (\<lambda>(k, c). (k, g c)) (dset k c' d) = map (\<lambda>(k, c). (k, g c)) d"
  using assms by (induction d) (auto split: if_splits)

lemma shape_upd: "(\<And>c. static (f c) = static c) \<Longrightarrow> same_shape cv (upd_component cid f cv)"
  by (auto simp: same_shape_def graph_of_def upd_component_def get_component_def map_dset_same split: option.split)

lemma shape_globals: "same_shape cv (cv\<lparr>globals := g\<rparr>)" "same_shape cv (cv\<lparr>polls := n\<rparr>)"
  "same_shape cv (cv\<lparr>run_error := v\<rparr>)" "same_shape cv (cv\<lparr>history := h\<rparr>)"
  "same_shape cv (cv\<lparr>retrieval := r\<rparr>)"
  by (simp_all add: same_shape_def graph_of_def)

lemma shape_mod_upd: "(\<And>c. static (f c) = static c) \<Longrightarrow> stays same_shape (modM (upd_component cid f))"
  by (intro sh.stays_mod shape_upd)

lemma shape_is_canceled: "stays same_shape (is_canceled env)"
  by (simp add: stays_def is_canceled_def same_shape_def graph_of_def)

lemma shape_check: "stays same_shape (check_if_canceled env cid)"
  unfolding check_if_canceled_def by (intro sh.stays_intros shape_is_canceled shape_upd) simp_all

lemma shape_self: "stays same_shape (self_obj cid)" "stays same_shape (parent_obj cid)"
  by (simp_all add: self_obj_def parent_obj_def sh.stays_pure)

lemma shape_set_variable: "stays same_shape (set_variable_value xp v)"
  by (auto simp: stays_def set_variable_value_def shape_upd shape_globals sh.refl Let_def
      split: sum.split var_ref.split option.split)

lemma shape_input_elements: "stays same_shape (input_elements rt cid)"
  unfolding input_elements_def prompt_elements_def
  by (intro sh.stays_intros shape_self shape_upd) simp_all

lemma shape_set_idx: "same_shape cv (set_idx cid i cv)"
  by (simp add: set_idx_def shape_upd)

lemma sh_bind_upd2:
  "same_shape cv (upd_component c1 (set_output k1 v1) (upd_component c2 (set_output k2 v2) cv))"
  by (meson sh.trans shape_upd static_updates(1))

section \<open>The bodies leave the graph and the path alone\<close>

lemmas shape_known = sh.stays_pure shape_mod_upd shape_is_canceled shape_check shape_self shape_set_variable
  sh.stays_mod [OF shape_set_idx]

lemmas shape_steps = shape_known sh.stays_bind sh.stays_seq sh.stays_forM sh.stays_if

lemma shape_loop: "stays same_shape (loop_invoke env cid)"
  unfolding loop_invoke_def loop_init_item_def by (intro shape_steps) simp_all

lemma shape_loopitem: "stays same_shape (loopitem_invoke env cid)"
  unfolding loopitem_invoke_def by (intro shape_steps)

lemma shape_iteration: "stays same_shape (iteration_invoke env cid)"
  unfolding iteration_invoke_def by (intro shape_steps) simp_all

lemma shape_collate: "stays same_shape (output_collation cid)"
  unfolding output_collation_def collate_component_def collate_output_def
  by (intro shape_steps) (auto intro!: shape_steps split: option.split list.split pyval.split)

lemma shape_iterationitem: "stays same_shape (iterationitem_invoke env cid)"
proof -
  have "same_shape cv (set_idx cid i (upd_component cid (set_output a v) (upd_component cid (set_output b w) cv)))"
    for cv i a v b w by (meson sh.trans shape_upd shape_set_idx static_updates(1))
  then show ?thesis
    unfolding iterationitem_invoke_def
    by (intro shape_steps) (auto intro!: shape_steps shape_collate sh.stays_mod split: pyval.split)
qed

lemma shape_switch_goto: "stays same_shape (switch_goto cid t)"
  unfolding switch_goto_def by (intro shape_steps) simp_all

lemma shape_switch_items: "stays same_shape (switch_items env cid cond res items)"
proof (induction items arbitrary: res)
  case Nil
  show ?case unfolding switch_items.simps by (intro shape_steps)
next
  case (Cons item items)
  show ?case
    unfolding switch_items.simps switch_item_def
    by (intro shape_steps shape_switch_goto Cons.IH) simp_all
qed

lemma shape_switch: "stays same_shape (switch_invoke env cid)"
proof -
  have "stays same_shape (switch_conds env cid conds)" for conds
  proof (induction conds)
    case Nil
    then show ?case by (simp add: shape_steps shape_switch_goto)
  next
    case (Cons cond conds)
    show ?case
      unfolding switch_conds.simps
      by (intro shape_steps shape_switch_items)
        (auto intro!: shape_steps shape_switch_goto Cons.IH split: switch_out.split bool.split)
  qed
  then show ?thesis unfolding switch_invoke_def by (intro shape_steps)
qed

lemma shape_assigner: "stays same_shape (assigner_invoke rt cid)"
  unfolding assigner_invoke_def va_assign_def
  by (intro shape_steps) (auto intro!: shape_steps split: pyval.split)

lemma shape_aggregator: "stays same_shape (aggregator_invoke rt cid)"
proof -
  have "stays same_shape (aggregate_group rt cid g sels)" for g sels
  proof (induction sels)
    case Nil
    show ?case unfolding aggregate_group.simps by (intro shape_steps)
  next
    case (Cons sel sels)
    show ?case unfolding aggregate_group.simps by (intro shape_steps Cons.IH) simp_all
  qed
  then show ?thesis unfolding aggregator_invoke_def by (intro shape_steps) simp_all
qed

lemma shape_categorize: "stays same_shape (categorize_invoke env chat kws cid)"
  unfolding categorize_invoke_def Let_def
  by (intro shape_steps) (auto intro!: shape_steps split: pyval.split prod.split)

lemma shape_put_output: "stays same_shape (put_outputM cid key v)"
proof (rule staysI)
  fix cv
  show "same_shape cv (snd (put_outputM cid key v cv))"
  proof (cases "get_component cv cid")
    case None
    then show ?thesis by (simp add: put_outputM_def bindM_def self_obj_def get_component_obj_def sh.refl)
  next
    case (Some c)
    have "static x = static c" if "put_output key v c = Inr x" for x
      using that by (auto simp: put_output_def static_def fixed_params_def split: option.splits)
    with Some show ?thesis
      by (auto simp: put_outputM_def bindM_def self_obj_def get_component_obj_def sh.refl
          same_shape_def graph_of_def upd_component_def map_dset_same get_component_def
          split: sum.splits if_splits)
  qed
qed

lemma shape_listops: "stays same_shape (listops_invoke rt cid)"
  unfolding listops_invoke_def lo_set_outputs_def
  by (intro shape_steps) (auto intro!: shape_steps shape_put_output split: pyval.split option.split)

lemma shape_dataops: "stays same_shape (dataops_invoke rt cid)"
proof -
  have "stays same_shape (collect_inputs rt cid refs)" for refs
  proof (induction refs)
    case Nil
    show ?case unfolding collect_inputs.simps by (intro shape_steps)
  next
    case (Cons r refs)
    show ?case unfolding collect_inputs.simps by (intro shape_steps Cons.IH) simp_all
  qed
  then show ?thesis unfolding dataops_invoke_def by (intro shape_steps) simp_all
qed

lemma shape_transform: "stays same_shape (transform_split env cid line)"
  unfolding transform_split_def Let_def
  by (intro shape_steps) (auto intro!: shape_steps split: pyval.split)

lemma shape_fill_inputs: "stays same_shape (fill_inputs env b cid kvs)"
proof (induction kvs)
  case Nil
  show ?case unfolding fill_inputs.simps by (intro shape_steps)
next
  case (Cons kv kvs)
  show ?case by (cases kv) (auto intro!: shape_steps Cons.IH)
qed

lemma shape_begin: "stays same_shape (begin_invoke env kws cid)"
  unfolding begin_invoke_def by (intro shape_steps shape_fill_inputs)

lemma shape_userfillup: "stays same_shape (userfillup_invoke env kws cid)"
  unfolding userfillup_invoke_def by (intro shape_steps shape_fill_inputs) simp_all

lemmas shape_bodies = shape_begin shape_userfillup shape_switch shape_categorize shape_loop shape_loopitem
  shape_iteration shape_iterationitem shape_assigner shape_aggregator shape_listops shape_dataops shape_transform

text \<open>When the component classes that are parameters leave the graph and the path alone, so does every
  component body, whether it returns or raises: no modelled class changes an id, a class, a parameter, a link or the path.\<close>

theorem body_keeps_graph:
  assumes "\<And>c k. stays same_shape (run_other env c k)"
  shows "graph_of (snd (component_body env cid kws cv)) = graph_of cv \<and>
     path (snd (component_body env cid kws cv)) = path cv"
proof -
  have "stays same_shape (component_body env cid kws)"
    unfolding component_body_def Let_def exitloop_invoke_def
    by (intro shape_steps shape_bodies assms)
  then show ?thesis by (auto simp: same_shape_def dest: staysD)
qed

definition demo_renv :: "(nat \<Rightarrow> bool) \<Rightarrow> renv" where
  "demo_renv cancel = \<lparr> re_env = \<lparr> crt = plain_rt, canceled_at = cancel \<rparr>,
     run_other = (\<lambda>cid kws. modM (upd_component cid (set_output ''content'' (PStr ''hello'')))),
     chat_model = (\<lambda>_ _. Inr []), thoughts_of = (\<lambda>_. retM ()), load_files = (\<lambda>_. PNone),
     turn_files = (\<lambda>v _. Inr v), re_sub = (\<lambda>_ _ s. Inr s), batch_order = (\<lambda>ts. ts),
     clock = (\<lambda>_. (1, 1)), date_now = [] \<rparr>"

definition demo_node :: "string \<Rightarrow> string list \<Rightarrow> component" where
  "demo_node nm down = no_component\<lparr>component_name := nm, downstream := down\<rparr>"

definition demo_graph :: canvas where
  "demo_graph = \<lparr> components = [(''begin'', demo_node ''Begin'' [''m'']), (''m'', demo_node ''Message'' [])],
     globals = [(''sys.history'', PList []), (''sys.conversation_turns'', PInt 0)], variables = [],
     path = [], history = [], retrieval = [], memory = [], node_names = [], run_error = PNone, polls = 0 \<rparr>"

lemma demo_other: "stays same_shape (run_other (demo_renv b) cid kws)"
  by (simp add: demo_renv_def shape_mod_upd)

theorem body_keeps_graph_witness:
  "graph_of (snd (component_body (demo_renv (\<lambda>_. False)) ''m'' [] demo_graph)) = graph_of demo_graph \<and>
     path (snd (component_body (demo_renv (\<lambda>_. False)) ''m'' [] demo_graph)) = []"
  using body_keeps_graph [OF demo_other, of "\<lambda>_. False" "''m''" "[]" demo_graph] by (simp add: demo_graph_def)

section \<open>A run only appends events\<close>

definition appends :: "runst \<Rightarrow> runst \<Rightarrow> bool" where
  "appends s s' \<longleftrightarrow> same_graph (rcv s) (rcv s') \<and> prefix (events s) (events s')"

interpretation ap: frame appends
  by unfold_locales (auto simp: appends_def same_graph_def)

lemma ap_onC:
  assumes "stays same_graph m"
  shows "stays appends (onC m)"
proof (rule staysI)
  fix s
  show "appends s (snd (onC m s))"
    using staysD [OF assms, of "rcv s"] by (cases "m (rcv s)") (simp add: onC_def appends_def)
qed

lemma ap_onC_shape: "stays same_shape m \<Longrightarrow> stays appends (onC m)"
  by (intro ap_onC shape_graph)

lemma ap_onC_pure: "stays appends (onC (readM f))" "stays appends (onC (liftM r))"
  by (intro ap_onC gr.stays_pure)+

lemma ap_onC_mod: "(\<And>cv. same_graph cv (g cv)) \<Longrightarrow> stays appends (onC (modM g))"
  by (intro ap_onC gr.stays_mod)

lemma ap_emit: "stays appends (emit e)"
  unfolding emit_def by (intro ap.stays_mod) (simp add: appends_def same_graph_def)

lemma graph_fields [simp]:
  "same_graph cv (cv\<lparr>path := p\<rparr>)" "same_graph cv (cv\<lparr>globals := g\<rparr>)" "same_graph cv (cv\<lparr>history := h\<rparr>)"
  "same_graph cv (cv\<lparr>retrieval := r\<rparr>)" "same_graph cv (cv\<lparr>run_error := v\<rparr>)"
  by (simp_all add: same_graph_def graph_of_def)

lemmas ap_steps = ap.stays_pure ap.stays_bind ap.stays_seq ap.stays_forM ap.stays_if ap_emit ap_onC_pure
  ap_onC_shape [OF shape_self(1)] ap_onC_shape [OF shape_self(2)] ap_onC_shape [OF shape_is_canceled]

lemma shape_invoke:
  assumes "stays same_shape body"
  shows "same_shape cv (snd (invoke (upd_component cid) view body t0 dt cv))"
proof -
  let ?u = "upd_component cid"
  let ?s1 = "?u (set_output ''_created_time'' (PFloat t0)) cv"
  obtain r t where rt: "body ?s1 = (r, t)" by (cases "body ?s1")
  define t2 where "t2 = (case r of Inr _ \<Rightarrow> t
     | Inl e \<Rightarrow> if truthy (get_exception_default_value (view t)) then ?u set_exception_default_value t
                else ?u (set_output ''_ERROR'' (PStr (exc_str e))) t)"
  let ?s3 = "?u (\<lambda>c. c\<lparr>debug_inputs := []\<rparr>) t2"
  have "same_shape cv ?s1" by (rule shape_upd) simp
  also have "same_shape ?s1 t" using staysD [OF assms, of ?s1] rt by simp
  also (sh.trans) have "same_shape t t2"
    unfolding t2_def by (cases r) (simp_all add: shape_upd sh.refl)
  also (sh.trans) have "same_shape t2 ?s3" by (rule shape_upd) simp
  also (sh.trans) have "same_shape ?s3 (?u (set_output ''_elapsed_time'' (PFloat dt)) ?s3)" by (rule shape_upd) simp
  finally (sh.trans) show ?thesis
    using rt by (cases r) (simp_all only: invoke_def Let_def t2_def sum.case prod.case snd_conv)
qed

lemma shape_invoke_async:
  assumes "stays same_shape body"
  shows "same_shape cv (invoke_async env cid body t0 dt cv)"
proof -
  let ?s1 = "upd_component cid (set_output ''_created_time'' (PFloat t0)) cv"
  obtain b t where rt: "check_if_canceled (re_env env) cid ?s1 = (b, t)" by (cases "check_if_canceled (re_env env) cid ?s1")
  have "same_shape cv t"
    using shape_upd [of "set_output ''_created_time'' (PFloat t0)" cv cid]
      staysD [OF shape_check, of ?s1 "re_env env" cid] rt sh.trans by auto
  then show ?thesis
    using rt shape_invoke [OF assms] sh.trans by (auto simp: invoke_async_def split: sum.split bool.split)
qed

section \<open>The parts of a run\<close>

text \<open>The classes that are parameters leave the graph alone, but for the parameters a run writes.\<close>

definition tame :: "renv \<Rightarrow> bool" where
  "tame env \<longleftrightarrow> (\<forall>c k. stays same_shape (run_other env c k)) \<and> (\<forall>c. stays same_shape (thoughts_of env c))"

lemma shape_body:
  assumes "tame env"
  shows "stays same_shape (component_body env cid kws)"
  using assms unfolding component_body_def Let_def exitloop_invoke_def tame_def
  by (intro shape_steps shape_bodies) blast

lemma shape_run_task:
  assumes "tame env"
  shows "same_shape (rcv s) (rcv (snd (run_task env t s))) \<and> events (snd (run_task env t s)) = events s"
  using shape_invoke [OF shape_body [OF assms]] shape_invoke_async [OF shape_body [OF assms]]
  by (simp add: run_task_def Let_def split: prod.split)

lemma ap_run_task: "tame env \<Longrightarrow> stays appends (run_task env t)"
  using shape_run_task [of env _ t] by (intro staysI) (simp add: appends_def same_shape_def same_graph_def)

lemma shape_get_input: "stays same_shape (get_input rt cid)"
proof -
  have "same_shape cv (snd (get_input_loop rt cid vars res cv))" for vars res cv
  proof (induction vars arbitrary: res cv)
    case (Cons var vars)
    have "same_shape cv (snd (get_input_loop rt cid vars r (upd_component cid (set_input_value var w) cv)))" for r w
      by (rule sh.trans [OF shape_upd Cons]) simp
    with Cons show ?case by (auto simp: sh.refl split: option.split pyval.split sum.split)
  qed (simp add: sh.refl)
  then show ?thesis unfolding get_input_def by (intro sh.stays_bind shape_input_elements staysI)
qed

lemma graph_select: "stays same_graph (select_batch env kw n i)"
proof (induction n arbitrary: i)
  case 0
  then show ?case unfolding select_batch.simps by (intro gr.stays_pure)
next
  case (Suc n)
  show ?case
    unfolding select_batch.simps Let_def
    by (rule gr.stays_fun, intro gr.stays_bind gr.stays_seq gr.stays_if gr.stays_pure gr.stays_mod Suc
        shape_graph [OF shape_get_input] shape_graph [OF shape_self(1)] shape_graph [OF shape_input_elements] graph_fields)
qed

lemma graph_select_rest: "stays same_graph (\<lambda>cv. select_batch env kw (n cv) i cv)"
  by (rule gr.stays_fun) (rule graph_select)

lemma ap_run_batch: "tame env \<Longrightarrow> stays appends (run_batch env kw f)"
  unfolding run_batch_def by (intro ap_steps ap_run_task ap_onC graph_select_rest)

lemma shape_input_values: "stays same_shape (get_input_values_of rt cid)"
  unfolding get_input_values_of_def
  by (intro sh.stays_bind sh.stays_if sh.stays_pure shape_self shape_input_elements)

lemma ap_node_finished: "stays appends (node_finished env cid)"
  unfolding node_finished_def by (intro ap_steps ap_onC_shape shape_input_values)

lemma ap_message_events: "stays appends (message_events cid)"
  unfolding message_events_def by (intro ap_steps)

lemma ap_error_branch: "stays appends (error_branch cid)"
  unfolding error_branch_def
  by (intro ap_steps) (auto intro!: ap_steps ap_onC_mod split: option.split)

lemma ap_extend: "stays appends (extend_path other ids)"
  unfolding extend_path_def by (intro ap_onC_mod) (simp add: gr.refl)

lemma shape_item_end: "stays same_shape (item_end env cid c)"
  unfolding item_end_def iterationitem_end_def loopitem_end_def
  by (intro shape_steps)

lemma ap_route: "stays appends (route env other cid)"
  unfolding route_def plain_route_def
  by (intro ap_steps ap_node_finished ap_extend ap_onC_shape shape_item_end)
    (auto intro!: ap_steps ap_extend split: option.split)

lemma ap_post_node: "stays appends (post_node env cid)"
  unfolding post_node_def by (intro ap_steps ap_message_events ap_error_branch ap_node_finished ap_route)

lemma ap_node_started: "tame env \<Longrightarrow> stays appends (node_started env cid)"
  unfolding node_started_def tame_def by (intro ap_steps ap_onC_shape) simp_all

lemma ap_pause_forms: "tame env \<Longrightarrow> stays appends (pause_forms env cids ins tips)"
proof (induction cids arbitrary: ins tips)
  case Nil
  show ?case unfolding pause_forms.simps by (intro ap_steps)
next
  case (Cons c cids)
  show ?case unfolding pause_forms.simps by (intro ap_steps ap_run_task ap_onC_shape shape_input_elements Cons)
qed

lemma ap_pause: "tame env \<Longrightarrow> stays appends (pause env i)"
  unfolding pause_def Let_def
  by (rule ap.stays_fun, intro ap.stays_bind ap_pause_forms)
    (simp_all only: prod.case_eq_if, intro ap_steps ap_onC_mod graph_fields)

lemma ap_each_from: "(\<And>c. stays appends (f c)) \<Longrightarrow> stays appends (\<lambda>s. forM f (drop i (path (rcv s))) s)"
  by (rule ap.stays_fun) (rule ap.stays_forM)

lemma ap_run_round: "tame env \<Longrightarrow> stays appends (run_round env kw i)"
  unfolding run_round_def
  by (intro ap_steps ap_each_from ap_node_started ap_run_batch ap_post_node ap_pause)

lemma ap_rounds: "tame env \<Longrightarrow> stays appends (rounds env kw fuel i)"
proof (induction fuel arbitrary: i)
  case 0
  then show ?case by (simp add: stays_def ap.refl)
next
  case (Suc fuel)
  have "stays appends (bindM (run_round env kw i) (\<lambda>e. case e of
      Broken \<Rightarrow> retM (Ended i) | Paused \<Rightarrow> retM Suspended | Onward j \<Rightarrow> rounds env kw fuel j))"
    by (intro ap.stays_bind ap_run_round Suc.prems) (auto intro!: ap_steps Suc split: round_end.split)
  then show ?case by (auto simp: stays_def ap.refl)
qed

lemma graph_add_history: "stays same_graph (add_history rt role obj)"
  by (intro staysI) (auto simp: add_history_def Let_def same_graph_def graph_of_def split: option.split pyval.split)

lemma graph_webhook: "stays same_graph (apply_webhook kw)"
proof -
  have st: "static c' = static c" if "webhook_component v c = Inr c'" for v c c'
  proof -
    have "static (foldl (\<lambda>c kv. if fst kv = ''input'' then c else set_output (fst kv) (snd kv) c) c1 d) = static c1"
      for c1 d by (induction d arbitrary: c1) auto
    with that show ?thesis
      by (auto simp: webhook_component_def bindR_eq_Inr split: if_splits pyval.splits)
  qed
  have "map (\<lambda>(k, c). (k, static c)) cs' = map (\<lambda>(k, c). (k, static c)) cs"
    if "mapR (\<lambda>(k, c). bindR (webhook_component v c) (\<lambda>c'. Inr (k, c'))) cs = Inr cs'" for v cs cs'
    using that by (induction cs arbitrary: cs') (auto simp: bindR_eq_Inr st)
  then show ?thesis
    by (intro staysI) (auto simp: apply_webhook_def bindM_def same_graph_def graph_of_def split: sum.split)
qed

lemma graph_reset_only: "same_graph cv (reset_components b cv)"
  by (auto simp: reset_components_def same_graph_def graph_of_def)

lemma graph_turn: "stays same_graph (set_turn_global env kv)" "stays same_graph (count_turn rt)"
  unfolding set_turn_global_def count_turn_def
  by (intro gr.stays_if gr.stays_bind gr.stays_pure gr.stays_mod graph_fields)+

lemma graph_enter: "same_graph cv (enter cv)"
  by (simp add: enter_def gr.refl) (simp add: same_graph_def graph_of_def)

text \<open>What happens before the first event\<close>

definition before_start :: "renv \<Rightarrow> pydict \<Rightarrow> unit cmeth list" where
  "before_start env kw =
     [modM (\<lambda>cv. cv\<lparr>globals := dset ''sys.date'' (PStr (date_now env)) (globals cv)\<rparr>),
      add_user_input (rt_of env) (dget_or kw ''query'' PNone), modM (reset_components True), apply_webhook kw,
      forM (set_turn_global env) kw, count_turn (rt_of env), modM enter]"

lemma before_start_graph: "m \<in> set (before_start env kw) \<Longrightarrow> stays same_graph m"
  by (auto simp: before_start_def add_user_input_def intro!: gr.stays_mod graph_add_history graph_reset_only
      graph_webhook gr.stays_forM graph_turn graph_enter)

lemma start_run_split:
  "start_run env kw = foldr (\<lambda>m n. seqM (onC m) n) (before_start env kw)
     (bindM (onC (is_canceled (re_env env))) (\<lambda>stop.
       if stop then raiseM TaskCanceledErr ''Task has been canceled before starting.''
       else seqM (emit (WorkflowStarted (dget_or kw ''inputs'' PNone)))
                 (onC (modM (\<lambda>cv. cv\<lparr>retrieval := retrieval cv @ [[(''chunks'', PDict []), (''doc_aggs'', PDict [])]],
                                     run_error := PStr []\<rparr>)))))"
  by (simp add: start_run_def before_start_def)

lemma ap_begin_run:
  "stays appends (onC (modM (\<lambda>cv. cv\<lparr>retrieval := retrieval cv @ [r], run_error := PStr []\<rparr>)))"
  by (rule ap_onC_mod) (simp add: same_graph_def graph_of_def)

lemma ap_start: "stays appends (start_run env kw)"
proof -
  have "stays appends (onC m)" if "m \<in> set (before_start env kw)" for m
    using that by (intro ap_onC before_start_graph)
  then show ?thesis
    unfolding start_run_split by (intro ap.stays_foldr) (blast, intro ap_steps ap_begin_run)
qed

lemma ap_finish: "stays appends (finish_run env i)"
  unfolding finish_run_def
  by (intro ap_steps ap_onC graph_add_history gr.stays_mod graph_fields)

text \<open>However a run of a canvas ends - finished, suspended, out of fuel, or with an exception - the
  graph (ids, classes, links and the parameters a run does not write) is the one it started with, and the events are those
  sent before with new ones behind them.\<close>

theorem run_appends:
  assumes "tame env"
  shows "graph_of (rcv (snd (canvas_run env kw fuel s))) = graph_of (rcv s) \<and>
     prefix (events s) (events (snd (canvas_run env kw fuel s)))"
proof -
  have "stays appends (\<lambda>s. rounds env kw fuel (length (path (rcv s)) - 1) s)"
    by (rule ap.stays_fun) (rule ap_rounds [OF assms])
  then have "stays appends (canvas_run env kw fuel)"
    unfolding canvas_run_def
    by (intro ap.stays_seq ap_start ap.stays_bind)
      (auto intro!: ap_steps ap_finish split: run_end.split)
  then show ?thesis by (auto simp: appends_def same_graph_def dest: staysD)
qed

lemma demo_tame: "tame (demo_renv b)"
  unfolding tame_def by (simp add: demo_other) (simp add: demo_renv_def shape_known)

theorem run_appends_witness:
  "graph_of (rcv (snd (canvas_run (demo_renv (\<lambda>_. False)) [] 5 \<lparr> rcv = demo_graph, events = [], tick = 0 \<rparr>))) =
     graph_of demo_graph"
  using run_appends [OF demo_tame, of "\<lambda>_. False" "[]" 5 "\<lparr> rcv = demo_graph, events = [], tick = 0 \<rparr>"] by simp

section \<open>A canceled run\<close>

definition silent :: "runst \<Rightarrow> runst \<Rightarrow> bool" where
  "silent s s' \<longleftrightarrow> events s' = events s"

interpretation si: frame silent
  by unfold_locales (auto simp: silent_def)

lemma silent_onC: "stays silent (onC m)"
  by (simp add: stays_def onC_def silent_def split: prod.split)

lemma foldr_fails:
  assumes "\<And>s. \<exists>e. fst (n s) = Inl e"
  shows "\<exists>e. fst (foldr (\<lambda>m k. seqM (g m) k) ms n s) = Inl e"
proof (induction ms arbitrary: s)
  case (Cons m ms)
  then show ?case by (cases "g m s") (auto simp: seqM_def bindM_def split: sum.split)
qed (simp add: assms)

text \<open>A run whose task is canceled raises, and sends no event.\<close>

theorem canceled_before_start:
  assumes "\<And>n. canceled_at (re_env env) n"
  shows "\<exists>e. fst (canvas_run env kw fuel s) = Inl e \<and> events (snd (canvas_run env kw fuel s)) = events s"
proof -
  let ?n = "bindM (onC (is_canceled (re_env env))) (\<lambda>stop.
       if stop then raiseM TaskCanceledErr ''Task has been canceled before starting.''
       else seqM (emit (WorkflowStarted (dget_or kw ''inputs'' PNone)))
                 (onC (modM (\<lambda>cv. cv\<lparr>retrieval := retrieval cv @ [[(''chunks'', PDict []), (''doc_aggs'', PDict [])]],
                                     run_error := PStr []\<rparr>))))"
  have n: "\<exists>e. fst (?n s) = Inl e" "silent s (snd (?n s))" for s
    by (auto simp: bindM_def onC_def is_canceled_def assms silent_def)
  have "\<exists>e. fst (start_run env kw s) = Inl e"
    unfolding start_run_split by (rule foldr_fails) (rule n)
  moreover have "stays silent ?n" using n(2) by (simp add: stays_def)
  then have "stays silent (start_run env kw)"
    unfolding start_run_split by (rule si.stays_foldr [OF silent_onC])
  then have "silent s (snd (start_run env kw s))" by (rule staysD)
  ultimately show ?thesis
    by (cases "start_run env kw s") (auto simp: canvas_run_def seqM_def bindM_def silent_def)
qed

theorem canceled_before_start_witness:
  "\<exists>e. fst (canvas_run (demo_renv (\<lambda>_. True)) [] 5 \<lparr> rcv = demo_graph, events = [], tick = 0 \<rparr>) = Inl e"
  using canceled_before_start [of "demo_renv (\<lambda>_. True)" "[]" 5 "\<lparr> rcv = demo_graph, events = [], tick = 0 \<rparr>"]
  by (auto simp: demo_renv_def)

end
