(* ===== verification/RunSpec.thy ===== *)
theory RunSpec
  imports CanvasFrame
begin

text \<open>
  The rounds of a run: what a round does to the path, why a run of a canvas without cycles ends,
  and how a run goes on after a pause.
\<close>

section \<open>Components that pass on to their successors\<close>

text \<open>No container, no branching, no parent, no handler that jumps: the run goes on downstream.\<close>

definition plain :: "component \<Rightarrow> bool" where
  "plain c \<longleftrightarrow>
     cname c \<notin> {''categorize'', ''switch'', ''iteration'', ''loop'', ''iterationitem'', ''loopitem'', ''exitloop''} \<and>
     parent_id c = None \<and> \<not> truthy (get_param c ''exception_goto'')"

lemma dget_filter: "P k \<Longrightarrow> dget (filter (\<lambda>(k, _). P k) d) k = dget d k"
  by (induction d) auto

lemma fixed_param: "k \<notin> set written_params \<Longrightarrow> dget (fixed_params c) k = dget (params c) k"
  unfolding fixed_params_def by (rule dget_filter)

lemma plain_static: "static c = static c' \<Longrightarrow> plain c = plain c' \<and> downstream c = downstream c'"
  using fixed_param [of "''exception_goto''" c] fixed_param [of "''exception_goto''" c']
  by (simp add: static_def plain_def cname_def get_param_def written_params_def dget_or_def)

text \<open>A node of the graph with a property of the static part\<close>

definition descends :: "(string \<Rightarrow> nat) \<Rightarrow> canvas \<Rightarrow> bool" where
  "descends rank cv \<longleftrightarrow>
     (\<forall>k c. get_component cv k = Some c \<longrightarrow> plain c \<and> (\<forall>d\<in>set (downstream c). rank d < rank k))"

lemma get_static: "map_option static (get_component cv k) = dget (graph_of cv) k"
  by (simp add: graph_of_def get_component_def map_of_map_snd)

lemma descends_graph:
  assumes "graph_of cv' = graph_of cv" and "descends rank cv"
  shows "descends rank cv'"
  unfolding descends_def
proof (intro allI impI)
  fix k c assume "get_component cv' k = Some c"
  then have "map_option static (get_component cv k) = Some (static c)"
    using get_static [of cv' k] get_static [of cv k] assms(1) by simp
  then obtain c0 where "get_component cv k = Some c0" "static c0 = static c" by auto
  then show "plain c \<and> (\<forall>d\<in>set (downstream c). rank d < rank k)"
    using assms(2) plain_static [of c0 c] by (auto simp: descends_def)
qed

section \<open>What a node adds to the path\<close>

lemma foldl_append_path: "\<exists>new. foldl append_path p ids = p @ new \<and> set new \<subseteq> set ids"
proof (induction ids arbitrary: p)
  case (Cons i ids)
  obtain new where "foldl append_path (append_path p i) ids = append_path p i @ new" "set new \<subseteq> set ids"
    using Cons by blast
  moreover have "\<exists>x. append_path p i = p @ x \<and> set x \<subseteq> {i}" by (auto simp: append_path_def)
  ultimately show ?case by fastforce
qed simp

text \<open>On the graph \<open>g\<close> the path is only extended, by ids of the set, and the graph stays.\<close>

definition adds :: "graph \<Rightarrow> string set \<Rightarrow> runst \<Rightarrow> runst \<Rightarrow> bool" where
  "adds g D s s' \<longleftrightarrow> (graph_of (rcv s) = g \<longrightarrow> graph_of (rcv s') = g \<and>
     (\<exists>new. path (rcv s') = path (rcv s) @ new \<and> set new \<subseteq> D))"

interpretation ad: frame "adds g D" for g D
proof
  show "adds g D s s" for s by (simp add: adds_def)
  show "adds g D s u" if "adds g D s t" "adds g D t u" for s t u
    using that by (fastforce simp: adds_def)
qed

lemma adds_shape:
  assumes "stays same_shape m"
  shows "stays (adds g D) (onC m)"
proof (rule staysI)
  fix s show "adds g D s (snd (onC m s))"
    using staysD [OF assms, of "rcv s"] by (cases "m (rcv s)") (simp add: onC_def adds_def same_shape_def)
qed

lemma adds_emit: "stays (adds g D) (emit e)"
  by (simp add: emit_def stays_def adds_def)

lemmas adds_steps = ad.stays_pure ad.stays_bind ad.stays_seq ad.stays_if adds_emit
  adds_shape [OF shape_self(1)] adds_shape [OF shape_self(2)] adds_shape [OF sh.stays_pure(3)]
  adds_shape [OF sh.stays_pure(4)]

text \<open>A node whose successors are in the set\<close>

definition leads_into :: "graph \<Rightarrow> string \<Rightarrow> string set \<Rightarrow> bool" where
  "leads_into g cid D \<longleftrightarrow>
     (\<forall>cv c. graph_of cv = g \<longrightarrow> get_component cv cid = Some c \<longrightarrow> plain c \<and> set (downstream c) \<subseteq> D)"

lemma descends_leads:
  assumes "descends rank cv" and "rank cid \<le> n"
  shows "leads_into (graph_of cv) cid {d. rank d < n}"
  unfolding leads_into_def
proof (intro allI impI)
  fix cv' c assume c: "graph_of cv' = graph_of cv" "get_component cv' cid = Some c"
  then have "descends rank cv'" using descends_graph assms(1) by blast
  with c assms(2) show "plain c \<and> set (downstream c) \<subseteq> {d. rank d < n}" by (force simp: descends_def)
qed

lemma adds_message: "stays (adds g D) (message_events cid)"
  unfolding message_events_def by (intro adds_steps)

lemma adds_node_finished: "stays (adds g D) (node_finished env cid)"
  unfolding node_finished_def by (intro adds_steps adds_shape [OF shape_input_values])

lemma adds_error_branch:
  assumes "leads_into g cid D"
  shows "stays (adds g D) (error_branch cid)"
proof (rule staysI)
  fix s :: runst
  have "\<not> truthy goto" if "get_component (rcv s) cid = Some c" "graph_of (rcv s) = g"
    "exception_handler c = Some (goto, d)" for c goto d
    using that assms by (auto simp: leads_into_def exception_handler_def plain_def split: if_splits)
  then show "adds g D s (snd (error_branch cid s))"
    by (cases "get_component (rcv s) cid")
      (auto simp: error_branch_def bindM_def seqM_def onC_def self_obj_def get_component_obj_def emit_def
        adds_def graph_of_def split: option.split)
qed

lemma route_plain:
  assumes "get_component (rcv s) cid = Some c" and "plain c"
  shows "route env other cid s = extend_path other (downstream c) s"
  using assms
  by (auto simp: route_def plain_route_def bindM_def onC_def self_obj_def get_component_obj_def plain_def
      item_end_def get_parent_def)

lemma adds_extend: "set ids \<subseteq> D \<Longrightarrow> adds g D s (snd (extend_path other ids s))"
  using foldl_append_path [of "path (rcv s)" ids]
  by (auto simp: extend_path_def onC_def adds_def graph_of_def)

lemma adds_route:
  assumes "leads_into g cid D"
  shows "stays (adds g D) (route env other cid)"
proof (rule staysI)
  fix s
  show "adds g D s (snd (route env other cid s))"
  proof (cases "get_component (rcv s) cid")
    case None
    then show ?thesis
      by (simp add: route_def bindM_def onC_def self_obj_def get_component_obj_def ad.refl)
  next
    case (Some c)
    then show ?thesis
    proof (cases "graph_of (rcv s) = g")
      case True
      then have "plain c" "set (downstream c) \<subseteq> D" using assms Some by (auto simp: leads_into_def)
      with Some show ?thesis by (simp add: route_plain adds_extend)
    qed (simp add: adds_def)
  qed
qed

text \<open>A processed node adds successors of its own only.\<close>

lemma adds_post_node:
  assumes "leads_into g cid D"
  shows "stays (adds g D) (post_node env cid)"
  unfolding post_node_def
  by (intro adds_steps adds_message adds_error_branch adds_node_finished adds_route assms)

section \<open>A batch\<close>

text \<open>Selecting a batch only takes ids out of the part of the path from its start on.\<close>

definition thins :: "nat \<Rightarrow> canvas \<Rightarrow> canvas \<Rightarrow> bool" where
  "thins i cv cv' \<longleftrightarrow> graph_of cv' = graph_of cv \<and> take i (path cv') = take i (path cv) \<and>
     set (drop i (path cv')) \<subseteq> set (drop i (path cv))"

interpretation th: frame "thins i" for i
  by unfold_locales (auto simp: thins_def)

lemma thins_shape: "stays same_shape m \<Longrightarrow> stays (thins i) m"
  by (auto simp: stays_def same_shape_def thins_def)

lemma thins_Suc: "thins (Suc i) cv cv' \<Longrightarrow> thins i cv cv'"
proof -
  have split: "drop i xs = drop i (take (Suc i) xs) @ drop (Suc i) xs" for xs :: "string list"
    by (cases "i < length xs") (simp_all add: take_Suc_conv_app_nth Cons_nth_drop_Suc)
  assume t: "thins (Suc i) cv cv'"
  then have "take i (path cv') = take i (path cv)"
    by (metis thins_def le_SucI min.absorb1 order_refl take_take)
  with t show ?thesis by (auto simp: thins_def split [of "path cv'"] split [of "path cv"])
qed

lemma thins_remove: "thins i cv (cv\<lparr>path := take i (path cv) @ drop (Suc i) (path cv)\<rparr>)"
  by (auto simp: thins_def graph_of_def min_def dest: in_set_dropD)
    (metis Suc_n_not_le_n in_set_dropD le_less_linear less_imp_le_nat set_drop_subset_set_drop subsetD)

lemma thins_select: "stays (thins i) (select_batch env kw n i)"
proof (induction n arbitrary: i)
  case 0
  show ?case unfolding select_batch.simps by (intro th.stays_pure)
next
  case (Suc n)
  have IH: "stays (thins i) (select_batch env kw n (Suc i))"
    using Suc [of "Suc i"] thins_Suc by (auto simp: stays_def)
  show ?case
    unfolding select_batch.simps Let_def
    by (rule th.stays_fun, intro th.stays_bind th.stays_seq th.stays_if th.stays_pure th.stays_mod thins_remove Suc
        IH thins_shape [OF shape_get_input] thins_shape [OF shape_self(1)] thins_shape [OF shape_input_elements])
qed

section \<open>A round\<close>

text \<open>The relations on canvases, on the state of a run\<close>

interpretation rs: frame "\<lambda>s s'. same_shape (rcv s) (rcv s')"
  by unfold_locales (auto intro: sh.refl sh.trans)

interpretation rt: frame "\<lambda>s s'. thins i (rcv s) (rcv s')" for i
  by unfold_locales (auto intro: th.refl th.trans)

lemma onC_lift: "stays R m \<Longrightarrow> stays (\<lambda>s s'. R (rcv s) (rcv s')) (onC m)"
  by (auto simp: stays_def onC_def split: prod.split) (metis snd_conv)

lemma shape_node_started:
  assumes "tame env"
  shows "stays (\<lambda>s s'. same_shape (rcv s) (rcv s')) (node_started env cid)"
proof -
  have "stays (\<lambda>s s'. same_shape (rcv s) (rcv s')) (emit e)" for e
    by (simp add: emit_def stays_def sh.refl)
  with assms show ?thesis
    unfolding node_started_def tame_def
    by (intro rs.stays_bind rs.stays_seq rs.stays_if rs.stays_pure onC_lift shape_self sh.stays_pure) simp_all
qed

lemma thins_run_batch:
  assumes "tame env"
  shows "stays (\<lambda>s s'. thins i (rcv s) (rcv s')) (run_batch env kw i)"
proof -
  have "stays (\<lambda>s s'. thins i (rcv s) (rcv s')) (run_task env t)" for t
    using shape_run_task [OF assms, of _ t] by (auto simp: stays_def thins_def same_shape_def)
  moreover have "stays (thins i) (\<lambda>cv. select_batch env kw (length (path cv) - i) i cv)"
    by (rule th.stays_fun) (rule thins_select)
  ultimately show ?thesis
    unfolding run_batch_def
    by (intro rt.stays_bind rt.stays_if rt.stays_pure rt.stays_forM onC_lift thins_shape [OF shape_is_canceled])
qed

lemma round_descends:
  assumes "tame env" and "descends rank (rcv s)" and "\<forall>x\<in>set (drop i (path (rcv s))). rank x \<le> n"
    and "run_round env kw i s = (Inr (Onward j), s')"
  shows "descends rank (rcv s') \<and> (\<forall>x\<in>set (drop j (path (rcv s'))). rank x < n)"
proof -
  let ?g = "graph_of (rcv s)"
  obtain u1 s1 where 1: "forM (node_started env) (drop i (path (rcv s))) s = (Inr u1, s1)"
    using assms(4) by (auto simp: run_round_def seqM_def bindM_def split: prod.splits sum.splits)
  obtain u2 s2 where 2: "run_batch env kw i s1 = (Inr u2, s2)"
    using assms(4) 1 by (auto simp: run_round_def seqM_def bindM_def split: prod.splits sum.splits)
  obtain u3 s3 where 3: "forM (post_node env) (drop i (path (rcv s2))) s2 = (Inr u3, s3)"
    using assms(4) 1 2 by (auto simp: run_round_def seqM_def bindM_def onC_def split: prod.splits sum.splits)
  have fin: "j = length (path (rcv s2))" "rcv s' = rcv s3"
    using assms(4) 1 2 3
    by (auto simp: run_round_def seqM_def bindM_def onC_def split: prod.splits sum.splits if_splits)
  have "stays (\<lambda>s s'. same_shape (rcv s) (rcv s')) (forM (node_started env) (drop i (path (rcv s))))"
    by (intro rs.stays_forM shape_node_started assms(1))
  from staysD [OF this, of s] 1 have sh: "same_shape (rcv s) (rcv s1)" by simp
  have "thins i (rcv s1) (rcv s2)" using staysD [OF thins_run_batch [OF assms(1)], of i s1 kw] 2 by simp
  with sh have g2: "graph_of (rcv s2) = ?g" and p2: "set (drop i (path (rcv s2))) \<subseteq> set (drop i (path (rcv s)))"
    by (auto simp: same_shape_def thins_def)
  have "stays (adds ?g {x. rank x < n}) (post_node env x)" if "x \<in> set (drop i (path (rcv s2)))" for x
    using that p2 assms(2,3) by (intro adds_post_node descends_leads) auto
  then have "stays (adds ?g {x. rank x < n}) (forM (post_node env) (drop i (path (rcv s2))))"
    by (intro ad.stays_forM)
  from staysD [OF this, of s2] 3 have "adds ?g {x. rank x < n} s2 s3" by simp
  with g2 obtain new where "graph_of (rcv s3) = ?g" "path (rcv s3) = path (rcv s2) @ new" "set new \<subseteq> {x. rank x < n}"
    by (auto simp: adds_def)
  with fin show ?thesis using descends_graph [OF _ assms(2)] by auto
qed

section \<open>A run ends\<close>

lemma rounds_end:
  assumes "tame env"
  shows "descends rank (rcv s) \<Longrightarrow> \<forall>x\<in>set (drop i (path (rcv s))). rank x < fuel \<Longrightarrow>
     fst (rounds env kw fuel i s) \<noteq> Inr OutOfFuel"
proof (induction fuel arbitrary: i s)
  case 0
  then have "drop i (path (rcv s)) = []" by (cases "drop i (path (rcv s))") auto
  then show ?case by simp
next
  case (Suc fuel)
  obtain r t where rt: "run_round env kw i s = (r, t)" by (cases "run_round env kw i s")
  have "fst (rounds env kw fuel j t) \<noteq> Inr OutOfFuel" if "r = Inr (Onward j)" for j
    using round_descends [OF assms Suc.prems(1), of i fuel kw j t] Suc.prems(2) rt that
    by (intro Suc.IH) (auto simp: less_Suc_eq_le)
  with rt show ?case by (auto simp: bindM_def split: sum.split round_end.split)
qed

text \<open>More fuel than enough changes nothing.\<close>

lemma rounds_more:
  "fst (rounds env kw fuel i s) \<noteq> Inr OutOfFuel \<Longrightarrow> fuel \<le> fuel' \<Longrightarrow>
     rounds env kw fuel' i s = rounds env kw fuel i s"
proof (induction fuel arbitrary: i s fuel')
  case 0
  then show ?case by (cases fuel') (auto split: if_splits)
next
  case (Suc fuel)
  then obtain m where m: "fuel' = Suc m" "fuel \<le> m" by (cases fuel') auto
  obtain r t where rt: "run_round env kw i s = (r, t)" by (cases "run_round env kw i s")
  have "rounds env kw m j t = rounds env kw fuel j t" if "r = Inr (Onward j)" "\<not> length (path (rcv s)) \<le> i" for j
    using Suc.IH [of j t m] Suc.prems(1) m that rt by (simp add: bindM_def)
  with m rt show ?case by (auto simp: bindM_def split: sum.split round_end.split)
qed

text \<open>C25: on a canvas of components that pass on to their successors, with a rank that falls along every
  link, a run with fuel above every rank is not stopped by the fuel - it is finished, suspended at a form, or raises - and
  any larger fuel gives the same result: the loop of the code ends.\<close>

theorem acyclic_run_ends:
  assumes "tame env" and "descends rank (rcv s)" and "\<And>x. rank x < fuel" and "fuel \<le> fuel'"
  shows "fst (canvas_run env kw fuel s) \<noteq> Inr OutOfFuel \<and> canvas_run env kw fuel' s = canvas_run env kw fuel s"
proof (cases "start_run env kw s")
  case (Pair r t)
  have "graph_of (rcv t) = graph_of (rcv s)"
    using staysD [OF ap_start, of s env kw] Pair by (simp add: appends_def same_graph_def)
  then have d: "descends rank (rcv t)" using assms(2) descends_graph by blast
  let ?i = "length (path (rcv t)) - 1"
  have e: "fst (rounds env kw fuel ?i t) \<noteq> Inr OutOfFuel" using rounds_end [OF assms(1) d] assms(3) by blast
  have m: "rounds env kw fuel' ?i t = rounds env kw fuel ?i t" using rounds_more [OF e assms(4)] .
  have f: "fst (seqM (finish_run env i) (retM (Ended i)) u) \<noteq> Inr OutOfFuel" for i u
    by (auto simp: seqM_def bindM_def split: prod.split sum.split)
  show ?thesis
  proof (cases r)
    case (Inl x)
    with Pair show ?thesis by (simp add: canvas_run_def seqM_def bindM_def)
  next
    case (Inr x)
    obtain r2 u where ru: "rounds env kw fuel ?i t = (r2, u)" by (cases "rounds env kw fuel ?i t")
    have run: "canvas_run env kw n s = (case r2 of Inl e \<Rightarrow> (Inl e, u)
        | Inr (Ended i) \<Rightarrow> seqM (finish_run env i) (retM (Ended i)) u | Inr e \<Rightarrow> (Inr e, u))"
      if "rounds env kw n ?i t = (r2, u)" for n
      using Pair Inr that
      by (simp only: canvas_run_def seqM_def [of "start_run env kw"] bindM_def prod.case sum.case)
        (simp split: sum.split run_end.split)
    have "canvas_run env kw fuel' s = canvas_run env kw fuel s" using run [OF ru] run [of fuel'] m ru by simp
    moreover have "fst (canvas_run env kw fuel s) \<noteq> Inr OutOfFuel"
      using run [OF ru] e ru f by (auto split: sum.split run_end.split)
    ultimately show ?thesis by simp
  qed
qed

theorem acyclic_run_ends_witness:
  "fst (canvas_run (demo_renv (\<lambda>_. False)) [] 2 \<lparr> rcv = demo_graph, events = [], tick = 0 \<rparr>) \<noteq> Inr OutOfFuel"
proof -
  have "descends (\<lambda>k. if k = ''begin'' then 1 else 0) demo_graph"
    by (auto simp: descends_def demo_graph_def get_component_def plain_def cname_def demo_node_def no_component_def
        get_param_def dget_or_def lower_def lower_char_def split: if_splits)
  then show ?thesis
    using acyclic_run_ends [OF demo_tame, of "\<lambda>k. if k = ''begin'' then 1 else 0"
        "\<lparr> rcv = demo_graph, events = [], tick = 0 \<rparr>" 2 2 "\<lambda>_. False" "[]"] by simp
qed

section \<open>After a pause\<close>

text \<open>A pause puts the forms first and the other pending components behind them; the next run
  goes on there only when the last id names a form: with another component pending behind the forms it starts at
  \<open>begin\<close> again, and the forms and the pending components are never run.\<close>

theorem resume_after_pause:
  assumes "pause env i s = (Inr (), s')"
    and "forms = filter (is_fillup (rcv s)) (drop i (path (rcv s)))"
    and "others = filter (\<lambda>c. \<not> is_fillup (rcv s) c) (drop i (path (rcv s)))"
  shows "path (rcv s') = forms @ others \<and>
     (others \<noteq> [] \<and> \<not> contains (lower (last others)) ''userfillup'' \<longrightarrow>
        path (enter (rcv s')) = forms @ others @ [''begin''] \<and>
        drop (length (path (enter (rcv s'))) - 1) (path (enter (rcv s'))) = [''begin''])"
  using assms
  by (auto simp: pause_def Let_def bindM_def seqM_def onC_def emit_def enter_def resumes_def
      split: prod.splits sum.splits)

definition demo_forms :: canvas where
  "demo_forms = demo_graph\<lparr>components :=
     [(''UserFillUp:1'', (demo_node ''UserFillUp'' [])\<lparr>params := [(''enable_tips'', PBool False)]\<rparr>),
      (''m'', demo_node ''Message'' [])], path := [''m'', ''UserFillUp:1'']\<rparr>"

theorem resume_after_pause_witness:
  "\<exists>s'. pause (demo_renv (\<lambda>_. False)) 0 \<lparr> rcv = demo_forms, events = [], tick = 0 \<rparr> = (Inr (), s') \<and>
     path (enter (rcv s')) = [''UserFillUp:1'', ''m'', ''begin'']"
proof -
  let ?s = "\<lparr> rcv = demo_forms, events = [], tick = 0 \<rparr>"
  have f: "filter (is_fillup demo_forms) (path demo_forms) = [''UserFillUp:1'']"
    "filter (\<lambda>c. \<not> is_fillup demo_forms c) (path demo_forms) = [''m'']"
    by code_simp+
  have "fst (pause (demo_renv (\<lambda>_. False)) 0 ?s) = Inr ()" by code_simp
  then obtain s' where s': "pause (demo_renv (\<lambda>_. False)) 0 ?s = (Inr (), s')"
    by (metis prod.collapse)
  have "\<not> contains (lower ''m'') ''userfillup''" by code_simp
  with resume_after_pause [OF s' refl refl] f show ?thesis using s' by simp
qed

end
