(* ===== verification/EsOb.thy ===== *)
theory EsOb
  imports PyValue
begin

text \<open>
  The row converter of the Elasticsearch to OceanBase migration
  (\<^verbatim>\<open>ragflow/tools/es-to-oceanbase-migration/src/es_ob_migration/schema.py\<close>): the column table, the
  analysis of an index mapping and the conversion of documents to rows.
\<close>

section \<open>Columns\<close>

record column_def =
  ob_type :: string
  nullable :: bool
  is_primary :: bool
  indexed :: bool
  is_array :: bool
  is_json :: bool
  col_default :: "pyval option"

definition column ::
  "string \<Rightarrow> string \<Rightarrow> bool \<Rightarrow> bool \<Rightarrow> bool \<Rightarrow> bool \<Rightarrow> bool \<Rightarrow> pyval option \<Rightarrow> string \<times> column_def" where
  "column n t nl pr ix ar js df =
     (n, \<lparr> ob_type = t, nullable = nl, is_primary = pr, indexed = ix, is_array = ar, is_json = js,
           col_default = df \<rparr>)"

text \<open>Name, type, nullable, primary, indexed, array, JSON, default\<close>

definition RAGFLOW_COLUMNS :: "(string \<times> column_def) list" where
  "RAGFLOW_COLUMNS =
     [
      column ''id'' ''String(256)'' False True False False False (None),
      column ''kb_id'' ''String(256)'' False False True False False (None),
      column ''doc_id'' ''String(256)'' True False True False False (None),
      column ''docnm_kwd'' ''String(256)'' True False False False False (None),
      column ''doc_type_kwd'' ''String(256)'' True False False False False (None),
      column ''title_tks'' ''String(256)'' True False False False False (None),
      column ''title_sm_tks'' ''String(256)'' True False False False False (None),
      column ''content_with_weight'' ''LONGTEXT'' True False False False False (None),
      column ''content_ltks'' ''LONGTEXT'' True False False False False (None),
      column ''content_sm_ltks'' ''LONGTEXT'' True False False False False (None),
      column ''pagerank_fea'' ''Integer'' True False False False False (None),
      column ''important_kwd'' ''ARRAY(String(256))'' True False False True False (None),
      column ''important_tks'' ''TEXT'' True False False False False (None),
      column ''question_kwd'' ''ARRAY(String(1024))'' True False False True False (None),
      column ''question_tks'' ''TEXT'' True False False False False (None),
      column ''tag_kwd'' ''ARRAY(String(256))'' True False False True False (None),
      column ''tag_feas'' ''JSON'' True False False False True (None),
      column ''available_int'' ''Integer'' False False False False False (Some (PInt 1)),
      column ''create_time'' ''String(19)'' True False False False False (None),
      column ''create_timestamp_flt'' ''Double'' True False False False False (None),
      column ''img_id'' ''String(128)'' True False False False False (None),
      column ''position_int'' ''ARRAY(ARRAY(Integer))'' True False False True False (None),
      column ''page_num_int'' ''ARRAY(Integer)'' True False False True False (None),
      column ''top_int'' ''ARRAY(Integer)'' True False False True False (None),
      column ''knowledge_graph_kwd'' ''String(256)'' True False True False False (None),
      column ''source_id'' ''ARRAY(String(256))'' True False False True False (None),
      column ''entity_kwd'' ''String(256)'' True False False False False (None),
      column ''entity_type_kwd'' ''String(256)'' True False True False False (None),
      column ''from_entity_kwd'' ''String(256)'' True False False False False (None),
      column ''to_entity_kwd'' ''String(256)'' True False False False False (None),
      column ''weight_int'' ''Integer'' True False False False False (None),
      column ''weight_flt'' ''Double'' True False False False False (None),
      column ''entities_kwd'' ''ARRAY(String(256))'' True False False True False (None),
      column ''rank_flt'' ''Double'' True False False False False (None),
      column ''removed_kwd'' ''String(256)'' True False True False False (Some (PStr ''N'')),
      column ''metadata'' ''JSON'' True False False False True (None),
      column ''extra'' ''JSON'' True False False False True (None),
      column ''_order_id'' ''Integer'' True False False False False (None),
      column ''group_id'' ''String(256)'' True False False False False (None),
      column ''mom_id'' ''String(256)'' True False False False False (None)]"

definition ARRAY_COLUMNS :: "string list" where
  "ARRAY_COLUMNS = [''important_kwd'', ''question_kwd'', ''tag_kwd'', ''source_id'', ''entities_kwd'',
     ''position_int'', ''page_num_int'', ''top_int'']"

definition JSON_COLUMNS :: "string list" where
  "JSON_COLUMNS = [''tag_feas'', ''metadata'', ''extra'']"

text \<open>\<open>VECTOR_FIELD_PATTERN.match\<close>: \<open>q_\<close>, digits and \<open>_vec\<close> at the head of the name\<close>

definition vector_match :: "string \<Rightarrow> nat option" where
  "vector_match key =
     (if starts_with key ''q_''
      then let r = drop 2 key; ds = takeWhile is_digit r; t = dropWhile is_digit r
           in if ds \<noteq> [] \<and> starts_with t ''_vec'' then nat_of_digits 0 ds else None
      else None)"

record mapping_analysis =
  known_fields :: "string list"
  vector_fields :: "(string \<times> nat) list"
  unknown_fields :: "string list"

fun analyze_fields :: "string list \<Rightarrow> mapping_analysis \<Rightarrow> mapping_analysis" where
  "analyze_fields [] a = a"
| "analyze_fields (f # fs) a =
     analyze_fields fs
       (if has_key RAGFLOW_COLUMNS f then a\<lparr>known_fields := known_fields a @ [f]\<rparr>
        else case vector_match f of
               Some n \<Rightarrow> a\<lparr>vector_fields := vector_fields a @ [(f, n)]\<rparr>
             | None \<Rightarrow> a\<lparr>unknown_fields := unknown_fields a @ [f]\<rparr>)"

definition analyze_es_mapping :: "pydict \<Rightarrow> mapping_analysis res" where
  "analyze_es_mapping mapping =
     (case dget_or mapping ''properties'' (PDict []) of
        PDict ps \<Rightarrow> Inr (analyze_fields (map fst ps) \<lparr> known_fields = [], vector_fields = [], unknown_fields = [] \<rparr>)
      | v \<Rightarrow> Inl (attr_err v ''items''))"

text \<open>\<open>get_column_definitions\<close>: the fixed columns, then a column per vector field\<close>

definition vector_column :: "string \<times> nat \<Rightarrow> string \<times> column_def" where
  "vector_column f = column (fst f) (''VECTOR('' @ show_nat (snd f) @ '')'') True False False False False None"

definition get_column_definitions :: "(string \<times> nat) list \<Rightarrow> (string \<times> column_def) list" where
  "get_column_definitions vs = RAGFLOW_COLUMNS @ map vector_column vs"

section \<open>Values\<close>

text \<open>An item of an array column: stripped, then four characters escaped one after the other\<close>

definition clean_item :: "string \<Rightarrow> string" where
  "clean_item s =
     replace_char (CHR 0x09) [backslash, CHR ''t'']
       (replace_char (CHR 0x0D) [backslash, CHR ''r'']
         (replace_char (CHR 0x0A) [backslash, CHR ''n'']
           (replace_char backslash [backslash, backslash] (strip_ws s))))"

definition convert_array_value :: "pyrt \<Rightarrow> pyval \<Rightarrow> pyval" where
  "convert_array_value rt v =
     (case v of
        PNone \<Rightarrow> PNone
      | PStr s \<Rightarrow> (if json_loads rt s \<noteq> None then PStr s else PStr (json_dumps rt (PList [v])))
      | PList xs \<Rightarrow>
          PStr (json_dumps rt (PList (map (\<lambda>x. case x of PStr s \<Rightarrow> PStr (clean_item s) | _ \<Rightarrow> x) xs)))
      | _ \<Rightarrow> PStr (json_dumps rt (PList [v])))"

definition convert_json_value :: "pyrt \<Rightarrow> pyval \<Rightarrow> pyval" where
  "convert_json_value rt v =
     (case v of
        PNone \<Rightarrow> PNone
      | PStr s \<Rightarrow> PStr s
      | PDict d \<Rightarrow> PStr (json_dumps rt v)
      | PList xs \<Rightarrow> PStr (json_dumps rt v)
      | _ \<Rightarrow> PStr (py_str rt v))"

definition convert_integer :: "pyval \<Rightarrow> pyval" where
  "convert_integer v =
     (case v of
        PNone \<Rightarrow> PNone
      | PBool b \<Rightarrow> PInt (if b then 1 else 0)
      | _ \<Rightarrow> (case py_int v of Inr i \<Rightarrow> PInt i | Inl _ \<Rightarrow> PNone))"

definition convert_float :: "pyrt \<Rightarrow> pyval \<Rightarrow> pyval" where
  "convert_float rt v =
     (case v of PNone \<Rightarrow> PNone | _ \<Rightarrow> (case py_float rt v of Inr q \<Rightarrow> PFloat q | Inl _ \<Rightarrow> PNone))"

definition convert_text :: "pyrt \<Rightarrow> pyval \<Rightarrow> pyval" where
  "convert_text rt v =
     (case v of
        PNone \<Rightarrow> PNone
      | PDict d \<Rightarrow> PStr (json_dumps rt v)
      | PList xs \<Rightarrow> PStr (json_dumps rt v)
      | _ \<Rightarrow> PStr (py_str rt v))"

definition convert_string :: "pyrt \<Rightarrow> pyval \<Rightarrow> string \<Rightarrow> pyval" where
  "convert_string rt v field_name =
     (case v of
        PNone \<Rightarrow> PNone
      | PList xs \<Rightarrow>
          (if field_name = ''kb_id'' then (if xs = [] then PNone else PStr (py_str rt (hd xs)))
           else PStr (json_dumps rt v))
      | PDict d \<Rightarrow> PStr (json_dumps rt v)
      | _ \<Rightarrow> PStr (py_str rt v))"

definition convert_field_value :: "pyrt \<Rightarrow> string \<Rightarrow> pyval \<Rightarrow> column_def \<Rightarrow> pyval" where
  "convert_field_value rt field_name v def =
     (if v = PNone then PNone
      else if is_array def then convert_array_value rt v
      else if is_json def then convert_json_value rt v
      else if contains (ob_type def) ''Integer'' then convert_integer v
      else if contains (ob_type def) ''Double'' \<or> contains (ob_type def) ''Float'' then convert_float rt v
      else if contains (ob_type def) ''LONGTEXT'' \<or> contains (ob_type def) ''TEXT'' then convert_text rt v
      else if contains (ob_type def) ''String'' then convert_string rt v field_name
      else PStr (py_str rt v))"

section \<open>Documents\<close>

text \<open>The entry of one column: its converted value, its default, or none.\<close>

definition column_entry :: "pyrt \<Rightarrow> pydict \<Rightarrow> string \<times> column_def \<Rightarrow> pydict" where
  "column_entry rt source col =
     (if fst col = ''id'' then []
      else case dget_or source (fst col) PNone of
             PNone \<Rightarrow> (case col_default (snd col) of None \<Rightarrow> [] | Some v \<Rightarrow> [(fst col, v)])
           | v \<Rightarrow> [(fst col, convert_field_value rt (fst col) v (snd col))])"

definition source_of :: "pydict \<Rightarrow> pydict" where
  "source_of es_doc = (case dget es_doc ''_source'' of Some (PDict s) \<Rightarrow> s | _ \<Rightarrow> es_doc)"

definition id_entry :: "pyrt \<Rightarrow> pydict \<Rightarrow> pydict" where
  "id_entry rt es_doc =
     (if truthy (dget_or es_doc ''_id'' PNone) then [(''id'', PStr (py_str rt (dget_or es_doc ''_id'' PNone)))]
      else case dget (source_of es_doc) ''id'' of
             Some v \<Rightarrow> [(''id'', PStr (py_str rt v))]
           | None \<Rightarrow> [])"

definition vector_entries :: "pydict \<Rightarrow> pydict" where
  "vector_entries source = filter (\<lambda>kv. vector_match (fst kv) \<noteq> None \<and> is_list (snd kv)) source"

definition extra_fields :: "pydict \<Rightarrow> pydict" where
  "extra_fields source =
     filter (\<lambda>kv. \<not> has_key RAGFLOW_COLUMNS (fst kv) \<and> vector_match (fst kv) = None) source"

definition convert_document :: "pyrt \<Rightarrow> pydict \<Rightarrow> pydict" where
  "convert_document rt es_doc =
     (let source = source_of es_doc;
          row = id_entry rt es_doc @ concat (map (column_entry rt source) RAGFLOW_COLUMNS);
          row1 = dset_all row (vector_entries source);
          extra = extra_fields source
      in if extra = [] then row1
         else case dget row1 ''extra'' of
                Some (PDict (x # xs)) \<Rightarrow> dset ''extra'' (PDict (dset_all (x # xs) extra)) row1
              | _ \<Rightarrow> dset ''extra'' (PStr (json_dumps rt (PDict extra))) row1)"

definition convert_batch :: "pyrt \<Rightarrow> pydict list \<Rightarrow> pydict list" where
  "convert_batch rt docs = map (convert_document rt) docs"

end
