(* ===== verification/Migration.thy ===== *)
theory Migration
  imports EsOb
begin

text \<open>
  The migration itself (\<^verbatim>\<open>migrator.py\<close>, \<^verbatim>\<open>progress.py\<close>, \<^verbatim>\<open>verify.py\<close> and the calls of \<^verbatim>\<open>es_client.py\<close>
  and \<^verbatim>\<open>ob_client.py\<close> they make, in \<^verbatim>\<open>ragflow/tools/es-to-oceanbase-migration/src/es_ob_migration\<close>).
  The two databases are the records \<open>es_api\<close> and \<open>ob_api\<close> of the calls their client libraries
  answer; a table is whatever state \<open>'t\<close> the target keeps.  Console output, time stamps and the
  wording of the verification message are not modelled.
\<close>

section \<open>Progress files\<close>

record progress =
  es_index :: string
  ob_table :: string
  total_documents :: int
  migrated_documents :: int
  failed_documents :: int
  last_sort_values :: "pyval list"
  last_batch_ids :: "pyval list"
  p_status :: string
  p_error :: string
  schema_converted :: bool
  table_created :: bool
  indexes_created :: bool

text \<open>The progress directory: the content of each file, \<open>None\<close> when it cannot be read.\<close>

type_synonym progress_dir = "(string \<times> progress option) list"

definition progress_file :: "string \<Rightarrow> string \<Rightarrow> string" where
  "progress_file es ob = es @ ''_to_'' @ ob @ ''.json''"

definition load_progress :: "string \<Rightarrow> string \<Rightarrow> progress_dir \<Rightarrow> progress option" where
  "load_progress es ob dir = (case dget dir (progress_file es ob) of Some (Some p) \<Rightarrow> Some p | _ \<Rightarrow> None)"

text \<open>Saving; a file that cannot be written (\<open>can_write\<close>) is logged and left as it is.\<close>

definition save_progress :: "(string \<Rightarrow> bool) \<Rightarrow> progress \<Rightarrow> progress_dir \<Rightarrow> progress_dir" where
  "save_progress can_write p dir =
     (let f = progress_file (es_index p) (ob_table p) in if can_write f then dset f (Some p) dir else dir)"

definition delete_progress :: "string \<Rightarrow> string \<Rightarrow> progress_dir \<Rightarrow> progress_dir" where
  "delete_progress es ob dir = dpop (progress_file es ob) dir"

definition new_progress :: "string \<Rightarrow> string \<Rightarrow> int \<Rightarrow> progress" where
  "new_progress es ob tot =
     \<lparr> es_index = es, ob_table = ob, total_documents = tot, migrated_documents = 0, failed_documents = 0,
       last_sort_values = [], last_batch_ids = [], p_status = ''running'', p_error = [],
       schema_converted = False, table_created = False, indexes_created = False \<rparr>"

definition create_progress ::
  "(string \<Rightarrow> bool) \<Rightarrow> string \<Rightarrow> string \<Rightarrow> int \<Rightarrow> progress_dir \<Rightarrow> progress \<times> progress_dir" where
  "create_progress can_write es ob tot dir =
     (let p = new_progress es ob tot in (p, save_progress can_write p dir))"

definition advance_progress :: "int \<Rightarrow> pyval list \<Rightarrow> pyval list \<Rightarrow> progress \<Rightarrow> progress" where
  "advance_progress n sorts ids p =
     p\<lparr>migrated_documents := migrated_documents p + n,
       last_sort_values := (if sorts \<noteq> [] then sorts else last_sort_values p),
       last_batch_ids := (if ids \<noteq> [] then ids else last_batch_ids p)\<rparr>"

definition update_progress ::
  "(string \<Rightarrow> bool) \<Rightarrow> int \<Rightarrow> pyval list \<Rightarrow> pyval list \<Rightarrow> progress \<times> progress_dir \<Rightarrow> progress \<times> progress_dir" where
  "update_progress can_write n sorts ids pd =
     (let p = advance_progress n sorts ids (fst pd) in (p, save_progress can_write p (snd pd)))"

definition mark_completed :: "(string \<Rightarrow> bool) \<Rightarrow> progress \<times> progress_dir \<Rightarrow> progress \<times> progress_dir" where
  "mark_completed can_write pd =
     (let p = (fst pd)\<lparr>p_status := ''completed''\<rparr> in (p, save_progress can_write p (snd pd)))"

definition mark_failed :: "(string \<Rightarrow> bool) \<Rightarrow> string \<Rightarrow> progress \<times> progress_dir \<Rightarrow> progress \<times> progress_dir" where
  "mark_failed can_write err pd =
     (let p = (fst pd)\<lparr>p_status := ''failed'', p_error := err\<rparr> in (p, save_progress can_write p (snd pd)))"

definition mark_paused :: "(string \<Rightarrow> bool) \<Rightarrow> progress \<times> progress_dir \<Rightarrow> progress \<times> progress_dir" where
  "mark_paused can_write pd =
     (let p = (fst pd)\<lparr>p_status := ''paused''\<rparr> in (p, save_progress can_write p (snd pd)))"

definition can_resume :: "string \<Rightarrow> string \<Rightarrow> progress_dir \<Rightarrow> bool" where
  "can_resume es ob dir =
     (case load_progress es ob dir of
        None \<Rightarrow> False
      | Some p \<Rightarrow> p_status p \<in> {''running'', ''paused'', ''failed''})"

section \<open>The databases\<close>

record es_hit =
  h_id :: pyval
  h_source :: pydict
  h_score :: "pyval option"
  h_sort :: "pyval list"

record es_api =
  es_status :: "string res"
  es_mapping :: "pydict res"
  es_count :: "int res"
  es_search :: "nat \<Rightarrow> pyval list option \<Rightarrow> es_hit list res"
  es_sample :: "int \<Rightarrow> es_hit list res"

record 't ob_api =
  ob_health :: bool
  ob_exists :: "'t \<Rightarrow> bool"
  ob_create :: "nat \<Rightarrow> ('t, unit) meth"
  ob_add_vector :: "nat \<Rightarrow> ('t, unit) meth"
  ob_upsert :: "pydict list \<Rightarrow> ('t, unit) meth"
  ob_count :: "'t \<Rightarrow> int res"
  ob_get :: "pyval \<Rightarrow> 't \<Rightarrow> pydict option res"

text \<open>A document as \<open>scroll_documents\<close> and \<open>get_sample_documents\<close> hand it on\<close>

definition hit_doc :: "es_hit \<Rightarrow> pydict" where
  "hit_doc h =
     (let d = dset ''_id'' (h_id h) (h_source h)
      in case h_score h of None \<Rightarrow> d | Some s \<Rightarrow> dset ''_score'' s d)"

definition sample_doc :: "es_hit \<Rightarrow> pydict" where
  "sample_doc h = dset ''_id'' (h_id h) (h_source h)"

definition insert_batch :: "'t ob_api \<Rightarrow> pydict list \<Rightarrow> ('t, int) meth" where
  "insert_batch ob docs =
     (if docs = [] then retM 0 else seqM (ob_upsert ob docs) (retM (int (length docs))))"

definition count_rows :: "'t ob_api \<Rightarrow> 't \<Rightarrow> int" where
  "count_rows ob t = (case ob_count ob t of Inr n \<Rightarrow> n | Inl _ \<Rightarrow> 0)"

definition get_row_by_id :: "'t ob_api \<Rightarrow> pyval \<Rightarrow> 't \<Rightarrow> pydict option" where
  "get_row_by_id ob i t = (case ob_get ob i t of Inr r \<Rightarrow> r | Inl _ \<Rightarrow> None)"

section \<open>Verification\<close>

datatype issue = CountMismatch | LowMatchRate | MissingInOb nat

datatype verdict = Passed | PassedWithWarnings | Failed "issue list"

record verification =
  v_es_count :: int
  v_ob_count :: int
  count_diff :: int
  count_match :: bool
  sample_size :: int
  samples_verified :: nat
  samples_matched :: nat
  match_rate :: rat
  missing_in_ob :: "pyval list"
  data_mismatches :: "(pyval \<times> string list) list"
  v_passed :: bool
  v_message :: verdict

definition VERIFY_FIELDS :: "string list" where
  "VERIFY_FIELDS = [''id'', ''kb_id'', ''doc_id'', ''docnm_kwd'', ''content_with_weight'',
     ''available_int'', ''create_time'']"

definition loads_or_same :: "pyrt \<Rightarrow> pyval \<Rightarrow> pyval" where
  "loads_or_same rt v =
     (case v of PStr s \<Rightarrow> (case json_loads rt s of Some w \<Rightarrow> w | None \<Rightarrow> v) | _ \<Rightarrow> v)"

definition values_equal :: "pyrt \<Rightarrow> string \<Rightarrow> pyval \<Rightarrow> pyval \<Rightarrow> bool" where
  "values_equal rt field_name ev ov =
     (if ev = PNone \<and> ov = PNone then True
      else if ev = PNone \<or> ov = PNone then False
      else let ov1 = (if field_name \<in> set ARRAY_COLUMNS then loads_or_same rt ov else ov)
           in if field_name \<in> set ARRAY_COLUMNS \<and> is_list ev \<and> is_list ov1
              then (case (ev, ov1) of
                      (PList xs, PList ys) \<Rightarrow> set (map (py_str rt) xs) = set (map (py_str rt) ys)
                    | _ \<Rightarrow> False)
              else if field_name \<in> set JSON_COLUMNS then py_eq (loads_or_same rt ev) (loads_or_same rt ov1)
              else let ov2 = (if field_name = ''content_with_weight'' \<and> is_dict ev then loads_or_same rt ov1 else ov1);
                       ev2 = (case ev of PList (x # xs) \<Rightarrow> if field_name = ''kb_id'' then x else ev | _ \<Rightarrow> ev)
                   in py_str rt ev2 = py_str rt ov2)"

definition compare_documents :: "pyrt \<Rightarrow> pydict \<Rightarrow> pydict \<Rightarrow> string list \<Rightarrow> string list" where
  "compare_documents rt es_doc ob_doc flds =
     filter (\<lambda>f. \<not> values_equal rt f (dget_or es_doc f PNone) (dget_or ob_doc f PNone)) flds"

definition verify_sample ::
  "pyrt \<Rightarrow> 't ob_api \<Rightarrow> 't \<Rightarrow> string list \<Rightarrow> pydict \<Rightarrow> verification \<Rightarrow> verification" where
  "verify_sample rt ob t flds es_doc r =
     (let r1 = r\<lparr>samples_verified := Suc (samples_verified r)\<rparr>;
          doc_id = py_or (dget_or es_doc ''_id'' PNone) (dget_or es_doc ''id'' PNone)
      in if \<not> truthy doc_id then r1
         else case get_row_by_id ob doc_id t of
                None \<Rightarrow> r1\<lparr>missing_in_ob := missing_in_ob r @ [doc_id]\<rparr>
              | Some ob_doc \<Rightarrow>
                  (let ds = compare_documents rt es_doc ob_doc flds
                   in if ds = [] then r1\<lparr>samples_matched := Suc (samples_matched r)\<rparr>
                      else r1\<lparr>data_mismatches := data_mismatches r @ [(doc_id, ds)]\<rparr>))"

definition verify_samples ::
  "pyrt \<Rightarrow> 't ob_api \<Rightarrow> 't \<Rightarrow> string list \<Rightarrow> pydict list \<Rightarrow> verification \<Rightarrow> verification" where
  "verify_samples rt ob t flds docs r =
     (let r1 = fold (verify_sample rt ob t flds) docs r
      in if 0 < samples_verified r1
         then r1\<lparr>match_rate := fround rt (of_nat (samples_matched r1) / of_nat (samples_verified r1))\<rparr>
         else r1)"

definition count_ok :: "pyrt \<Rightarrow> verification \<Rightarrow> bool" where
  "count_ok rt r \<longleftrightarrow>
     count_match r \<or>
     (0 < v_es_count r \<and> fround rt (of_int (count_diff r) / of_int (v_es_count r)) \<le> fround rt (1 / 100))"

definition determine_result :: "pyrt \<Rightarrow> verification \<Rightarrow> verification" where
  "determine_result rt r =
     (if count_ok rt r \<and> fround rt (99 / 100) \<le> match_rate r then r\<lparr>v_passed := True, v_message := Passed\<rparr>
      else if count_ok rt r \<and> fround rt (95 / 100) \<le> match_rate r
      then r\<lparr>v_passed := True, v_message := PassedWithWarnings\<rparr>
      else r\<lparr>v_passed := False,
             v_message := Failed ((if count_ok rt r then [] else [CountMismatch]) @
               (if match_rate r < fround rt (95 / 100) then [LowMatchRate] else []) @
               (if missing_in_ob r = [] then [] else [MissingInOb (length (missing_in_ob r))]))\<rparr>)"

definition verify ::
  "pyrt \<Rightarrow> es_api \<Rightarrow> 't ob_api \<Rightarrow> 't \<Rightarrow> int \<Rightarrow> string list \<Rightarrow> verification res" where
  "verify rt es ob t bsize flds =
     bindR (es_count es) (\<lambda>ec.
       let oc = count_rows ob t; diff = \<bar>ec - oc\<bar>;
           r = \<lparr> v_es_count = ec, v_ob_count = oc, count_diff = diff, count_match = (diff = 0),
                 sample_size = min bsize ec, samples_verified = 0, samples_matched = 0, match_rate = 0,
                 missing_in_ob = [], data_mismatches = [], v_passed = False, v_message = Failed [] \<rparr>
       in if 0 < sample_size r
          then bindR (es_sample es (sample_size r)) (\<lambda>hits.
                 Inr (determine_result rt (verify_samples rt ob t flds (map sample_doc hits) r)))
          else Inr (determine_result rt r))"

section \<open>Migrating the data\<close>

record 't mig_env =
  mrt :: pyrt
  es_client :: es_api
  ob_client :: "'t ob_api"
  can_write :: "string \<Rightarrow> bool"
  on_progress :: "int \<Rightarrow> int \<Rightarrow> unit res"

record mig_result =
  r_success :: bool
  r_total :: int
  r_migrated :: int
  r_failed :: int
  r_verification :: "verification option"
  r_error :: "string option"

record 't mig =
  table :: 't
  prog :: progress
  dir :: progress_dir
  migrated :: int
  mres :: mig_result

text \<open>\<open>except Exception\<close> does not catch a keyboard interrupt.\<close>

definition is_exception :: "pyexc \<Rightarrow> bool" where
  "is_exception e \<longleftrightarrow> exc_kind e \<noteq> KeyboardInterruptErr"

definition batch_ids :: "pydict list \<Rightarrow> pyval list" where
  "batch_ids docs = map (\<lambda>d. dget_or d ''_id'' (dget_or d ''id'' (PStr []))) docs"

text \<open>The body of the \<open>try\<close>: insert, count, save the progress, call back.\<close>

definition try_batch :: "'t mig_env \<Rightarrow> pydict list \<Rightarrow> ('t mig, unit) meth" where
  "try_batch env docs =
     (\<lambda>s. case insert_batch (ob_client env) (convert_batch (mrt env) docs) (table s) of
        (Inl e, t) \<Rightarrow> (Inl e, s\<lparr>table := t\<rparr>)
      | (Inr n, t) \<Rightarrow>
          (let (p, d) = update_progress (can_write env) n [] (batch_ids docs) (prog s, dir s);
               s1 = s\<lparr>table := t, migrated := migrated s + n, prog := p, dir := d\<rparr>
           in (on_progress env (migrated s1) (total_documents p), s1)))"

definition migrate_batch :: "'t mig_env \<Rightarrow> pydict list \<Rightarrow> ('t mig, unit) meth" where
  "migrate_batch env docs =
     catchM (try_batch env docs) (\<lambda>e.
       if is_exception e
       then modM (\<lambda>s. s\<lparr>prog := (prog s)\<lparr>failed_documents := failed_documents (prog s) + int (length docs)\<rparr>\<rparr>)
       else liftM (Inl e))"

text \<open>
  \<open>for batch in scroll_documents(...)\<close>: each page is fetched when the batch before it is done.
  The fuel bounds the number of pages; \<open>False\<close> is a scroll that is not at its end.
\<close>

fun migrate_pages ::
  "'t mig_env \<Rightarrow> nat \<Rightarrow> nat \<Rightarrow> pyval list option \<Rightarrow> ('t mig, bool) meth" where
  "migrate_pages env bsize 0 after = retM False"
| "migrate_pages env bsize (Suc fuel) after =
     bindM (liftM (es_search (es_client env) bsize after)) (\<lambda>hits.
       if hits = [] then retM True
       else seqM (migrate_batch env (map hit_doc hits))
                 (if length hits < bsize then retM True
                  else migrate_pages env bsize fuel (Some (h_sort (last hits)))))"

section \<open>The migration\<close>

definition check_connections :: "'t mig_env \<Rightarrow> unit res" where
  "check_connections env =
     bindR (es_status (es_client env)) (\<lambda>st.
       if st \<notin> {''green'', ''yellow''} then Inl (Exc RuntimeErr ''ES cluster unhealthy'')
       else if \<not> ob_health (ob_client env) then Inl (Exc RuntimeErr ''OceanBase connection failed'')
       else Inr ())"

definition vector_size_of :: "mapping_analysis \<Rightarrow> nat" where
  "vector_size_of a = (case vector_fields a of [] \<Rightarrow> 768 | (_, n) # _ \<Rightarrow> n)"

text \<open>Step 5: the table, and the flags that are saved when it stands\<close>

definition ensure_table :: "'t mig_env \<Rightarrow> nat \<Rightarrow> ('t mig, unit) meth" where
  "ensure_table env n =
     (\<lambda>s. if table_created (prog s) then (Inr (), s)
          else case (if ob_exists (ob_client env) (table s) then ob_add_vector (ob_client env) n (table s)
                     else ob_create (ob_client env) n (table s)) of
                 (Inl e, t) \<Rightarrow> (Inl e, s\<lparr>table := t\<rparr>)
               | (Inr _, t) \<Rightarrow>
                   (let p = (prog s)\<lparr>table_created := True, indexes_created := True, schema_converted := True\<rparr>
                    in (Inr (), s\<lparr>table := t, prog := p, dir := save_progress (can_write env) p (dir s)\<rparr>)))"

text \<open>
  Steps 5 to 8 on a started progress.  The answer is whether the scroll came to its end within
  the fuel.
\<close>

definition run_steps ::
  "'t mig_env \<Rightarrow> nat \<Rightarrow> nat \<Rightarrow> nat \<Rightarrow> bool \<Rightarrow> ('t mig, bool) meth" where
  "run_steps env n bsize fuel verify_after =
     bindM (ensure_table env n) (\<lambda>_.
     bindM (migrate_pages env bsize fuel None) (\<lambda>ended.
       if \<not> ended then retM False
       else (\<lambda>s.
         let (p, d) = mark_completed (can_write env) (prog s, dir s);
             s1 = s\<lparr>mres := (mres s)\<lparr>r_migrated := migrated s, r_failed := failed_documents (prog s)\<rparr>,
                    prog := p, dir := d\<rparr>
         in if verify_after
            then (case verify (mrt env) (es_client env) (ob_client env) (table s1) 100 VERIFY_FIELDS of
                    Inl e \<Rightarrow> (Inl e, s1)
                  | Inr v \<Rightarrow> (Inr True, s1\<lparr>mres := (mres s1)\<lparr>r_success := True, r_verification := Some v\<rparr>\<rparr>))
            else (Inr True, s1\<lparr>mres := (mres s1)\<lparr>r_success := True\<rparr>\<rparr>))))"

definition close_run :: "'t mig_env \<Rightarrow> bool res \<times> 't mig \<Rightarrow> bool \<times> 't mig" where
  "close_run env out =
     (case out of
        (Inr b, s) \<Rightarrow> (b, s)
      | (Inl e, s) \<Rightarrow>
          (if is_exception e
           then let (p, d) = mark_failed (can_write env) (exc_msg e) (prog s, dir s)
                in (True, s\<lparr>mres := (mres s)\<lparr>r_error := Some (exc_msg e)\<rparr>, prog := p, dir := d\<rparr>)
           else let (p, d) = mark_paused (can_write env) (prog s, dir s)
                in (True, s\<lparr>mres := (mres s)\<lparr>r_error := Some ''Interrupted by user''\<rparr>, prog := p, dir := d\<rparr>)))"

text \<open>The progress a run starts from: the saved one, or a new one when the table is not there yet.\<close>

definition start_progress ::
  "'t mig_env \<Rightarrow> string \<Rightarrow> string \<Rightarrow> bool \<Rightarrow> int \<Rightarrow> 't \<Rightarrow> progress_dir \<Rightarrow> (progress \<times> progress_dir) res" where
  "start_progress env es_ix ob_tab resume tot t d =
     (case (if resume \<and> can_resume es_ix ob_tab d then load_progress es_ix ob_tab d else None) of
        Some p \<Rightarrow> Inr (p, d)
      | None \<Rightarrow>
          (if ob_exists (ob_client env) t
           then Inl (Exc RuntimeErr (''Table '' @ [squote] @ ob_tab @ [squote] @ '' already exists in OceanBase.''))
           else Inr (create_progress (can_write env) es_ix ob_tab tot d)))"

text \<open>Steps 1 to 3\<close>

definition prepare :: "'t mig_env \<Rightarrow> (mapping_analysis \<times> int) res" where
  "prepare env =
     bindR (check_connections env) (\<lambda>_.
     bindR (es_mapping (es_client env)) (\<lambda>m.
     bindR (analyze_es_mapping m) (\<lambda>a.
     bindR (es_count (es_client env)) (\<lambda>n. Inr (a, n)))))"

definition no_result :: mig_result where
  "no_result = \<lparr> r_success = False, r_total = 0, r_migrated = 0, r_failed = 0, r_verification = None,
     r_error = None \<rparr>"

definition error_text :: "pyexc \<Rightarrow> string" where
  "error_text e = (if is_exception e then exc_msg e else ''Interrupted by user'')"

text \<open>
  \<open>migrate\<close>: whether the scroll came to its end within the fuel, the result, and the table and the
  progress directory after the call.
\<close>

definition migrate ::
  "'t mig_env \<Rightarrow> string \<Rightarrow> string \<Rightarrow> nat \<Rightarrow> bool \<Rightarrow> bool \<Rightarrow> nat \<Rightarrow> 't \<Rightarrow> progress_dir \<Rightarrow>
     bool \<times> mig_result \<times> 't \<times> progress_dir" where
  "migrate env es_ix ob_tab batch_size resume verify_after fuel t d =
     (case prepare env of
        Inl e \<Rightarrow> (True, no_result\<lparr>r_error := Some (error_text e)\<rparr>, t, d)
      | Inr (a, tot) \<Rightarrow>
          (let res = no_result\<lparr>r_total := tot\<rparr>
           in if tot = 0 then (True, res\<lparr>r_success := True\<rparr>, t, d)
              else case start_progress env es_ix ob_tab resume tot t d of
                     Inl e \<Rightarrow> (True, res\<lparr>r_error := Some (error_text e)\<rparr>, t, d)
                   | Inr (p, d1) \<Rightarrow>
                       (let (ended, s) = close_run env
                              (run_steps env (vector_size_of a) batch_size fuel verify_after
                                 \<lparr> table = t, prog = p, dir = d1, migrated = migrated_documents p, mres = res \<rparr>)
                        in (ended, mres s, table s, dir s))))"

end
