(* ===== verification/MigrationSpec.thy ===== *)
theory MigrationSpec
  imports Migration
begin

text \<open>
  What the migration promises: the progress store as a keyed store, the paging of the scroll, the
  accounting of a run, what the row converter keeps of a document, and the verdict of the
  verification.
\<close>

section \<open>The progress store\<close>

abbreviation writable :: "string \<Rightarrow> bool" where
  "writable \<equiv> (\<lambda>_. True)"

interpretation ps: keyed_store "\<lambda>k. load_progress (fst k) (snd k)" "save_progress writable"
  "\<lambda>p. (es_index p, ob_table p)" "\<lambda>a b. progress_file (fst a) (snd a) = progress_file (fst b) (snd b)"
  by unfold_locales (simp_all add: load_progress_def save_progress_def)

text \<open>Loading a migration's progress gives the last progress saved under the same file
  name, and what was there before when none was.\<close>

theorem progress_last_save:
  "load_progress es ob (fold (save_progress (\<lambda>_. True)) ps d0) =
     (case filter (\<lambda>p. progress_file es ob = progress_file (es_index p) (ob_table p)) (rev ps) of
        [] \<Rightarrow> load_progress es ob d0
      | p # _ \<Rightarrow> Some p)"
  using ps.load_fold_save [of "(es, ob)" ps d0] unfolding fst_conv snd_conv .

text \<open>Two different migrations can share a file: after the progress of index \<open>a\<close> to table
  \<open>b_to_c\<close> is saved, index \<open>a_to_b\<close> to table \<open>c\<close> finds it and would resume from it.\<close>

theorem progress_collision:
  assumes "es_index p = a" and "ob_table p = b @ ''_to_'' @ c" and "p_status p = ''running''"
  shows "load_progress (a @ ''_to_'' @ b) c (save_progress (\<lambda>_. True) p d0) = Some p \<and>
     can_resume (a @ ''_to_'' @ b) c (save_progress (\<lambda>_. True) p d0)"
proof -
  have "progress_file (a @ ''_to_'' @ b) c = progress_file (es_index p) (ob_table p)"
    by (simp add: assms progress_file_def)
  then have "load_progress (a @ ''_to_'' @ b) c (save_progress (\<lambda>_. True) p d0) = Some p"
    using ps.load_save [of "(a @ ''_to_'' @ b, c)" p d0] by simp
  then show ?thesis by (simp add: can_resume_def assms)
qed

theorem progress_collision_witness:
  "can_resume ''a_to_b'' ''c'' (save_progress (\<lambda>_. True) (new_progress ''a'' ''b_to_c'' 5) [])"
  using progress_collision [of "new_progress ''a'' ''b_to_c'' 5" "''a''" "''b''" "''c''" "[]"]
  by (simp add: new_progress_def)

section \<open>Paging\<close>

text \<open>
  What the search with \<open>search_after\<close> documents: the hits in sort order, from behind the given sort
  values, at most a page.
\<close>

definition page_after :: "es_hit list \<Rightarrow> nat \<Rightarrow> pyval list option \<Rightarrow> es_hit list" where
  "page_after hits n after =
     take n (case after of None \<Rightarrow> hits | Some k \<Rightarrow> tl (dropWhile (\<lambda>h. h_sort h \<noteq> k) hits))"

definition pages :: "es_api \<Rightarrow> es_hit list \<Rightarrow> bool" where
  "pages es hits \<longleftrightarrow> distinct (map h_sort hits) \<and> es_search es = (\<lambda>n after. Inr (page_after hits n after))"

lemma page_after_last:
  assumes "distinct (map h_sort (pre @ rest))" and "pre \<noteq> []"
  shows "page_after (pre @ rest) n (Some (h_sort (last pre))) = take n rest"
proof -
  obtain xs x where pre: "pre = xs @ [x]" using assms(2) by (metis rev_exhaust)
  have "\<forall>h\<in>set xs. h_sort h \<noteq> h_sort x"
    using assms(1) pre by (auto simp: image_iff dest: sym)
  then have "dropWhile (\<lambda>h. h_sort h \<noteq> h_sort x) (xs @ x # rest) = x # rest"
    by (simp add: dropWhile_append)
  then show ?thesis by (simp add: page_after_def pre)
qed

function chunks_of :: "nat \<Rightarrow> 'a list \<Rightarrow> 'a list list" where
  "chunks_of n xs = (if xs = [] \<or> n = 0 then [] else take n xs # chunks_of n (drop n xs))"
  by pat_completeness auto
termination by (relation "measure (\<lambda>(n, xs). length xs)") auto

declare chunks_of.simps [simp del]

lemma concat_chunks_of: "0 < n \<Longrightarrow> concat (chunks_of n xs) = xs"
proof (induction n xs rule: chunks_of.induct)
  case (1 n xs)
  then show ?case by (subst chunks_of.simps) auto
qed

text \<open>A batch that does not raise: one step of the state.\<close>

definition batch_step :: "'t mig_env \<Rightarrow> pydict list \<Rightarrow> 't mig \<Rightarrow> 't mig" where
  "batch_step env docs s = snd (migrate_batch env docs s)"

definition quiet :: "'t mig_env \<Rightarrow> bool" where
  "quiet env \<longleftrightarrow>
     (\<forall>docs t e. fst (ob_upsert (ob_client env) docs t) = Inl e \<longrightarrow> is_exception e) \<and>
     on_progress env = (\<lambda>_ _. Inr ())"

lemma try_batch_cases:
  assumes "quiet env"
  shows "(\<exists>e t. ob_upsert (ob_client env) (convert_batch (mrt env) docs) (table s) = (Inl e, t) \<and> docs \<noteq> [] \<and>
            is_exception e \<and> try_batch env docs s = (Inl e, s\<lparr>table := t\<rparr>)) \<or>
     (\<exists>t. (docs = [] \<and> t = table s \<or>
           docs \<noteq> [] \<and> ob_upsert (ob_client env) (convert_batch (mrt env) docs) (table s) = (Inr (), t)) \<and>
        (let p = advance_progress (int (length docs)) [] (batch_ids docs) (prog s)
         in try_batch env docs s =
              (Inr (), s\<lparr>table := t, migrated := migrated s + int (length docs), prog := p,
                 dir := save_progress (can_write env) p (dir s)\<rparr>)))"
proof (cases "docs = []")
  case True
  then show ?thesis using assms
    by (simp add: try_batch_def insert_batch_def convert_batch_def update_progress_def quiet_def Let_def)
next
  case False
  obtain r t where rt: "ob_upsert (ob_client env) (convert_batch (mrt env) docs) (table s) = (r, t)"
    by (cases "ob_upsert (ob_client env) (convert_batch (mrt env) docs) (table s)")
  show ?thesis
  proof (cases r)
    case (Inl e)
    with rt assms have "is_exception e" unfolding quiet_def by (metis fst_conv)
    with Inl rt False show ?thesis
      by (simp add: try_batch_def insert_batch_def convert_batch_def seqM_def bindM_def)
  next
    case (Inr u)
    with rt False assms show ?thesis
      by (simp add: try_batch_def insert_batch_def convert_batch_def update_progress_def quiet_def
          Let_def seqM_def bindM_def)
  qed
qed

lemma migrate_batch_Inr:
  assumes "quiet env"
  shows "migrate_batch env docs s = (Inr (), batch_step env docs s)"
  using try_batch_cases [OF assms, of docs s]
  by (auto simp: migrate_batch_def batch_step_def catchM_def Let_def)

lemma migrate_pages_run:
  assumes "pages (es_client env) (pre @ rest)" and "quiet env" and "0 < n" and "length rest < fuel"
    and "after = (if pre = [] then None else Some (h_sort (last pre)))"
  shows "migrate_pages env n fuel after s =
     (Inr True, fold (batch_step env) (map (map hit_doc) (chunks_of n rest)) s)"
  using assms
proof (induction fuel arbitrary: pre rest after s)
  case (Suc fuel)
  have search: "es_search (es_client env) n after = Inr (take n rest)"
    using Suc.prems(1,5) page_after_last [of pre rest n]
    by (auto simp: pages_def page_after_def)
  show ?case
  proof (cases "rest = []")
    case True
    then show ?thesis by (simp add: search bindM_def chunks_of.simps)
  next
    case False
    let ?b = "map hit_doc (take n rest)"
    let ?s = "batch_step env ?b s"
    have ch: "chunks_of n rest = take n rest # chunks_of n (drop n rest)"
      using False Suc.prems(3) by (subst chunks_of.simps) simp
    have ne: "take n rest \<noteq> []" using False Suc.prems(3) by simp
    show ?thesis
    proof (cases "length rest < n")
      case True
      then show ?thesis
        using ne by (simp add: search ch bindM_def seqM_def migrate_batch_Inr [OF Suc.prems(2)]
            chunks_of.simps [of n "[]"])
    next
      case False
      have eq: "(pre @ take n rest) @ drop n rest = pre @ rest" by simp
      have lt: "length (drop n rest) < fuel"
        using Suc.prems(3,4) False by simp
      have "migrate_pages env n fuel (Some (h_sort (last (take n rest)))) ?s =
         (Inr True, fold (batch_step env) (map (map hit_doc) (chunks_of n (drop n rest))) ?s)"
        by (rule Suc.IH [of "pre @ take n rest"]) (use Suc.prems eq lt ne in simp_all)
      with False ne show ?thesis
        by (simp add: search ch bindM_def seqM_def migrate_batch_Inr [OF Suc.prems(2)])
    qed
  qed
qed simp

section \<open>The accounting of a run\<close>

lemma batch_step_account:
  assumes "quiet env"
  shows "migrated (batch_step env docs s) + failed_documents (prog (batch_step env docs s)) =
       migrated s + failed_documents (prog s) + int (length docs)"
    and "migrated (batch_step env docs s) - migrated_documents (prog (batch_step env docs s)) =
       migrated s - migrated_documents (prog s)"
    and "es_index (prog (batch_step env docs s)) = es_index (prog s)"
    and "ob_table (prog (batch_step env docs s)) = ob_table (prog s)"
    and "mres (batch_step env docs s) = mres s"
  using try_batch_cases [OF assms, of docs s]
  by (auto simp: batch_step_def migrate_batch_def catchM_def Let_def advance_progress_def)

lemma batches_account:
  assumes "quiet env"
  shows "migrated (fold (batch_step env) bs s) + failed_documents (prog (fold (batch_step env) bs s)) =
       migrated s + failed_documents (prog s) + int (length (concat bs)) \<and>
     migrated (fold (batch_step env) bs s) - migrated_documents (prog (fold (batch_step env) bs s)) =
       migrated s - migrated_documents (prog s) \<and>
     es_index (prog (fold (batch_step env) bs s)) = es_index (prog s) \<and>
     ob_table (prog (fold (batch_step env) bs s)) = ob_table (prog s) \<and>
     mres (fold (batch_step env) bs s) = mres s"
  by (induction bs arbitrary: s) (simp_all add: batch_step_account [OF assms])

definition ready :: "'t mig_env \<Rightarrow> es_hit list \<Rightarrow> bool" where
  "ready env hits \<longleftrightarrow>
     check_connections env = Inr () \<and>
     (\<exists>m a. es_mapping (es_client env) = Inr m \<and> analyze_es_mapping m = Inr a) \<and>
     es_count (es_client env) = Inr (int (length hits)) \<and> pages (es_client env) hits \<and> hits \<noteq> []"

text \<open>A run without verification, from the progress it starts with to the end of the scroll.\<close>

lemma ensure_table_keeps:
  assumes "ensure_table env n s = (Inr u, s1)"
  shows "migrated s1 = migrated s \<and> mres s1 = mres s \<and>
     migrated_documents (prog s1) = migrated_documents (prog s) \<and>
     failed_documents (prog s1) = failed_documents (prog s) \<and>
     es_index (prog s1) = es_index (prog s) \<and> ob_table (prog s1) = ob_table (prog s)"
  using assms by (auto simp: ensure_table_def Let_def split: if_splits prod.splits sum.splits)

lemma run_steps_ok:
  assumes "pages (es_client env) hits" and "quiet env" and "0 < n" and "length hits < fuel"
    and "ensure_table env k s = (Inr (), s1)"
  shows "\<exists>s2. s2 = fold (batch_step env) (map (map hit_doc) (chunks_of n hits)) s1 \<and>
     run_steps env k n fuel False s =
       (Inr True, s2\<lparr>mres := (mres s2)\<lparr>r_migrated := migrated s2, r_failed := failed_documents (prog s2),
                                   r_success := True\<rparr>,
          prog := (prog s2)\<lparr>p_status := ''completed''\<rparr>,
          dir := save_progress (can_write env) ((prog s2)\<lparr>p_status := ''completed''\<rparr>) (dir s2)\<rparr>)"
proof -
  define s2 where "s2 = fold (batch_step env) (map (map hit_doc) (chunks_of n hits)) s1"
  have "migrate_pages env n fuel None s1 = (Inr True, s2)"
    unfolding s2_def using migrate_pages_run [of env "[]" hits n fuel None s1] assms by simp
  with assms(5) show ?thesis
    unfolding s2_def [symmetric] by (simp add: run_steps_def bindM_def mark_completed_def Let_def)
qed

lemma concat_hits: "0 < n \<Longrightarrow> concat (map (map hit_doc) (chunks_of n hits)) = map hit_doc hits"
  by (simp add: map_concat [symmetric] concat_chunks_of)

text \<open>A run that starts from progress \<open>p\<close> accounts for every document of the index once more.\<close>

lemma migrate_account:
  assumes "ready env hits" and "quiet env" and "0 < n" and "length hits < fuel"
    and "start_progress env es_ix ob_tab resume (int (length hits)) t d = Inr (p, d1)"
    and "\<forall>k. fst (ensure_table env k
           \<lparr> table = t, prog = p, dir = d1, migrated = migrated_documents p,
             mres = no_result\<lparr>r_total := int (length hits)\<rparr> \<rparr>) = Inr ()"
    and "can_write env = (\<lambda>_. True)"
  shows "\<exists>r t' d' q. migrate env es_ix ob_tab n resume False fuel t d = (True, r, t', d') \<and>
     r_success r \<and> r_error r = None \<and>
     r_migrated r + r_failed r = migrated_documents p + failed_documents p + int (length hits) \<and>
     load_progress (es_index p) (ob_table p) d' = Some q \<and> p_status q = ''completed'' \<and>
     migrated_documents q = r_migrated r \<and> failed_documents q = r_failed r"
proof -
  obtain m a where ma: "es_mapping (es_client env) = Inr m" "analyze_es_mapping m = Inr a"
    using assms(1) by (auto simp: ready_def)
  have prep: "prepare env = Inr (a, int (length hits))"
    using assms(1) ma by (simp add: prepare_def ready_def)
  define s0 where "s0 = \<lparr> table = t, prog = p, dir = d1, migrated = migrated_documents p,
      mres = no_result\<lparr>r_total := int (length hits)\<rparr> \<rparr>"
  obtain s1 where s1: "ensure_table env (vector_size_of a) s0 = (Inr (), s1)"
    using assms(6) unfolding s0_def by (metis prod.collapse)
  define s2 where "s2 = fold (batch_step env) (map (map hit_doc) (chunks_of n hits)) s1"
  define q where "q = (prog s2)\<lparr>p_status := ''completed''\<rparr>"
  have run: "run_steps env (vector_size_of a) n fuel False s0 =
      (Inr True, s2\<lparr>mres := (mres s2)\<lparr>r_migrated := migrated s2, r_failed := failed_documents (prog s2),
                                   r_success := True\<rparr>,
          prog := q, dir := save_progress (can_write env) q (dir s2)\<rparr>)"
    using run_steps_ok [of env hits n fuel "vector_size_of a" s0 s1] assms s1
    unfolding s2_def q_def by (simp add: ready_def)
  have keep: "migrated s1 = migrated_documents p" "mres s1 = no_result\<lparr>r_total := int (length hits)\<rparr>"
    "migrated_documents (prog s1) = migrated_documents p"
    "failed_documents (prog s1) = failed_documents p" "es_index (prog s1) = es_index p"
    "ob_table (prog s1) = ob_table p"
    using ensure_table_keeps [OF s1] by (simp_all add: s0_def)
  note acc = batches_account [OF assms(2), of "map (map hit_doc) (chunks_of n hits)" s1,
      folded s2_def, unfolded concat_hits [OF assms(3)] keep]
  have "load_progress (es_index p) (ob_table p) (save_progress (can_write env) q (dir s2)) = Some q"
    using ps.load_save [of "(es_index p, ob_table p)" q "dir s2"] acc assms(7) by (simp add: q_def)
  moreover have "hits \<noteq> []" using assms(1) by (simp add: ready_def)
  then have "migrate env es_ix ob_tab n resume False fuel t d =
      (True, (mres s2)\<lparr>r_migrated := migrated s2, r_failed := failed_documents (prog s2), r_success := True\<rparr>,
        table s2, save_progress (can_write env) q (dir s2))"
    using run by (simp add: migrate_def prep assms(5) close_run_def s0_def [symmetric])
  ultimately show ?thesis
    using acc by (simp add: q_def no_result_def)
qed

text \<open>C9: a fresh run over an index whose scroll pages as documented, whatever the target answers
  to the inserts, counts every document once as migrated or as failed; and it reports success and
  saves the status completed even when documents failed.\<close>

theorem migration_accounts:
  assumes "ready env hits" and "quiet env" and "0 < n" and "length hits < fuel"
    and "\<not> ob_exists (ob_client env) t" and "\<forall>k. fst (ob_create (ob_client env) k t) = Inr ()"
    and "can_write env = (\<lambda>_. True)"
  shows "\<exists>r t' d' q. migrate env es_ix ob_tab n False False fuel t d = (True, r, t', d') \<and>
     r_success r \<and> r_error r = None \<and> r_migrated r + r_failed r = int (length hits) \<and>
     load_progress es_ix ob_tab d' = Some q \<and> p_status q = ''completed'' \<and>
     migrated_documents q = r_migrated r \<and> failed_documents q = r_failed r"
proof -
  let ?p = "new_progress es_ix ob_tab (int (length hits))"
  have st: "start_progress env es_ix ob_tab False (int (length hits)) t d =
      Inr (?p, save_progress (can_write env) ?p d)"
    using assms(5) by (simp add: start_progress_def create_progress_def Let_def)
  have "fst (ensure_table env k \<lparr> table = t, prog = ?p, dir = d1, migrated = migrated_documents ?p,
      mres = no_result\<lparr>r_total := int (length hits)\<rparr> \<rparr>) = Inr ()" for k d1
    using assms(5) assms(6) [rule_format, of k]
    by (auto simp: ensure_table_def new_progress_def Let_def split: prod.splits sum.splits)
  then show ?thesis
    using migrate_account [OF assms(1-4) st _ assms(7)] by (simp add: new_progress_def)
qed

definition demo_hit :: "int \<Rightarrow> es_hit" where
  "demo_hit i = \<lparr> h_id = PInt (i + 1), h_source = [(''kb_id'', PStr ''k'')], h_score = None,
     h_sort = [PInt i] \<rparr>"

definition demo_hits :: "es_hit list" where
  "demo_hits = [demo_hit 0, demo_hit 1, demo_hit 2]"

definition demo_mrt :: pyrt where
  "demo_mrt = \<lparr> fround = id, frepr = (\<lambda>_. ''0.0''), fparse = (\<lambda>_. None),
     json_loads = (\<lambda>_. None), literal_eval = (\<lambda>_. None) \<rparr>"

definition demo_es :: es_api where
  "demo_es = \<lparr> es_status = Inr ''green'', es_mapping = Inr [], es_count = Inr 3,
     es_search = (\<lambda>n after. Inr (page_after demo_hits n after)), es_sample = (\<lambda>_. Inr []) \<rparr>"

text \<open>A target whose inserts answer \<open>r\<close> and whose table is the list of its rows, if it exists\<close>

definition demo_ob :: "unit res \<Rightarrow> pydict list option ob_api" where
  "demo_ob r = \<lparr> ob_health = True, ob_exists = (\<lambda>t. t \<noteq> None), ob_create = (\<lambda>_ _. (Inr (), Some [])),
     ob_add_vector = (\<lambda>_ t. (Inr (), t)),
     ob_upsert = (\<lambda>rows t. (r, if isl r then t else map_option (\<lambda>ts. ts @ rows) t)),
     ob_count = (\<lambda>t. Inr (case t of None \<Rightarrow> 0 | Some ts \<Rightarrow> int (length ts))),
     ob_get = (\<lambda>_ _. Inr None) \<rparr>"

definition demo_mig :: "unit res \<Rightarrow> pydict list option mig_env" where
  "demo_mig r = \<lparr> mrt = demo_mrt, es_client = demo_es, ob_client = demo_ob r, can_write = (\<lambda>_. True),
     on_progress = (\<lambda>_ _. Inr ()) \<rparr>"

lemma demo_ready: "ready (demo_mig r) demo_hits"
  by (auto simp: ready_def demo_mig_def demo_es_def demo_ob_def check_connections_def pages_def
      demo_hits_def demo_hit_def analyze_es_mapping_def dget_or_def)

lemma demo_quiet: "r = Inl (Exc RuntimeErr ''down'') \<or> r = Inr () \<Longrightarrow> quiet (demo_mig r)"
  by (auto simp: quiet_def demo_mig_def demo_ob_def is_exception_def)

theorem migration_accounts_witness:
  "\<exists>r t' d'. migrate (demo_mig (Inl (Exc RuntimeErr ''down''))) ''i'' ''t'' 2 False False 4 None [] =
      (True, r, t', d') \<and> r_success r \<and> r_migrated r + r_failed r = 3"
  using migration_accounts [OF demo_ready demo_quiet, of "Inl (Exc RuntimeErr ''down'')" 2 4 None "''i''" "''t''" "[]"]
  by (auto simp: demo_hits_def demo_mig_def demo_ob_def)

text \<open>A resumed run scrolls the index from its start again: its counts are those of the
  run before plus every document of the index once more.\<close>

theorem resume_counts_twice:
  assumes "ready env hits" and "quiet env" and "0 < n" and "length hits < fuel"
    and "load_progress es_ix ob_tab d = Some p" and "p_status p \<in> {''running'', ''paused'', ''failed''}"
    and "table_created p" and "can_write env = (\<lambda>_. True)"
  shows "\<exists>r t' d'. migrate env es_ix ob_tab n True False fuel t d = (True, r, t', d') \<and> r_success r \<and>
     r_migrated r + r_failed r = migrated_documents p + failed_documents p + int (length hits)"
proof -
  have st: "start_progress env es_ix ob_tab True (int (length hits)) t d = Inr (p, d)"
    using assms(5,6) by (simp add: start_progress_def can_resume_def)
  have "\<forall>k. fst (ensure_table env k \<lparr> table = t, prog = p, dir = d, migrated = migrated_documents p,
      mres = no_result\<lparr>r_total := int (length hits)\<rparr> \<rparr>) = Inr ()"
    using assms(7) by (simp add: ensure_table_def)
  from migrate_account [OF assms(1-4) st this assms(8)] show ?thesis by blast
qed

theorem resume_counts_twice_witness:
  "\<exists>r t' d'. migrate (demo_mig (Inr ())) ''i'' ''t'' 2 True False 4 (Some [])
      [(''i_to_t.json'', Some ((new_progress ''i'' ''t'' 3)\<lparr>migrated_documents := 2, table_created := True\<rparr>))] =
      (True, r, t', d') \<and> r_migrated r + r_failed r = 5"
  using resume_counts_twice [OF demo_ready demo_quiet, of "Inr ()" 2 4 "''i''" "''t''"
      "[(''i_to_t.json'', Some ((new_progress ''i'' ''t'' 3)\<lparr>migrated_documents := 2, table_created := True\<rparr>))]"
      "(new_progress ''i'' ''t'' 3)\<lparr>migrated_documents := 2, table_created := True\<rparr>" "Some []"]
  by (auto simp: demo_hits_def demo_mig_def load_progress_def progress_file_def new_progress_def)

section \<open>A complete migration\<close>

lemma batch_step_ok:
  assumes "quiet env" and "\<And>rows t. rows \<noteq> [] \<Longrightarrow> ob_upsert (ob_client env) rows t = (Inr (), put rows t)"
    and "docs \<noteq> []"
  shows "table (batch_step env docs s) = put (convert_batch (mrt env) docs) (table s)"
    and "failed_documents (prog (batch_step env docs s)) = failed_documents (prog s)"
  using try_batch_cases [OF assms(1), of docs s] assms(2) [of "convert_batch (mrt env) docs" "table s"] assms(3)
  by (auto simp: batch_step_def migrate_batch_def catchM_def Let_def advance_progress_def convert_batch_def)

lemma batches_ok:
  assumes "quiet env" and "\<And>rows t. rows \<noteq> [] \<Longrightarrow> ob_upsert (ob_client env) rows t = (Inr (), put rows t)"
    and "\<forall>b\<in>set bs. b \<noteq> []"
  shows "table (fold (batch_step env) bs s) = fold put (map (convert_batch (mrt env)) bs) (table s) \<and>
    failed_documents (prog (fold (batch_step env) bs s)) = failed_documents (prog s)"
  using assms(3) by (induction bs arbitrary: s) (simp_all add: batch_step_ok [OF assms(1,2)])

lemma chunks_of_nonempty: "xs \<in> set (chunks_of n ys) \<Longrightarrow> xs \<noteq> []"
proof (induction n ys rule: chunks_of.induct)
  case (1 n ys)
  show ?case
  proof (cases "ys = [] \<or> n = 0")
    case True
    with 1 show ?thesis by (subst (asm) chunks_of.simps) simp
  next
    case False
    with 1 show ?thesis by (subst (asm) (2) chunks_of.simps) auto
  qed
qed

text \<open>C8: when every insert succeeds, a fresh run inserts the converted form of every document of
  the index exactly once, in order, in consecutive batches, and counts all as migrated.\<close>

theorem migration_complete:
  assumes "ready env hits" and "quiet env" and "0 < n" and "length hits < fuel"
    and "\<not> ob_exists (ob_client env) t" and "\<forall>k. ob_create (ob_client env) k t = (Inr (), t0)"
    and "\<And>rows u. rows \<noteq> [] \<Longrightarrow> ob_upsert (ob_client env) rows u = (Inr (), put rows u)"
  shows "\<exists>r d' batches. migrate env es_ix ob_tab n False False fuel t d = (True, r, fold put batches t0, d') \<and>
     r_success r \<and> r_migrated r = int (length hits) \<and> r_failed r = 0 \<and>
     concat batches = map (\<lambda>h. convert_document (mrt env) (hit_doc h)) hits"
proof -
  obtain m a where ma: "es_mapping (es_client env) = Inr m" "analyze_es_mapping m = Inr a"
    using assms(1) by (auto simp: ready_def)
  have prep: "prepare env = Inr (a, int (length hits))"
    using assms(1) ma by (simp add: prepare_def ready_def)
  let ?p = "new_progress es_ix ob_tab (int (length hits))"
  let ?bs = "map (map hit_doc) (chunks_of n hits)"
  have st: "start_progress env es_ix ob_tab False (int (length hits)) t d =
      Inr (?p, save_progress (can_write env) ?p d)"
    using assms(5) by (simp add: start_progress_def create_progress_def Let_def)
  define s0 where "s0 = \<lparr> table = t, prog = ?p, dir = save_progress (can_write env) ?p d,
      migrated = migrated_documents ?p, mres = no_result\<lparr>r_total := int (length hits)\<rparr> \<rparr>"
  obtain s1 where s1: "ensure_table env (vector_size_of a) s0 = (Inr (), s1)"
    "table s1 = t0" "migrated s1 = 0" "failed_documents (prog s1) = 0"
    using assms(5,6) by (simp add: ensure_table_def s0_def new_progress_def Let_def)
  define s2 where "s2 = fold (batch_step env) ?bs s1"
  have ne: "\<forall>b\<in>set ?bs. b \<noteq> []" by (auto dest: chunks_of_nonempty)
  have s2: "table s2 = fold put (map (convert_batch (mrt env)) ?bs) t0" "failed_documents (prog s2) = 0"
    "migrated s2 = int (length hits)"
    using batches_ok [OF assms(2,7) ne, of s1] batches_account [OF assms(2), of ?bs s1] s1
    unfolding s2_def [symmetric] by (simp_all add: concat_hits [OF assms(3)])
  have "migrate env es_ix ob_tab n False False fuel t d =
      (True, (mres s2)\<lparr>r_migrated := migrated s2, r_failed := failed_documents (prog s2), r_success := True\<rparr>,
        table s2, save_progress (can_write env) ((prog s2)\<lparr>p_status := ''completed''\<rparr>) (dir s2))"
    using run_steps_ok [of env hits n fuel "vector_size_of a" s0 s1] assms s1 prep
    by (simp add: migrate_def st close_run_def s0_def [symmetric] s2_def [symmetric] ready_def)
  moreover have "concat (map (convert_batch (mrt env)) ?bs) = map (\<lambda>h. convert_document (mrt env) (hit_doc h)) hits"
    by (simp add: convert_batch_def [abs_def] comp_def map_concat [symmetric] concat_chunks_of assms(3))
  ultimately show ?thesis using s2 by auto
qed

theorem migration_complete_witness:
  "\<exists>r d' batches. migrate (demo_mig (Inr ())) ''i'' ''t'' 2 False False 4 None [] =
       (True, r, fold (\<lambda>rows. map_option (\<lambda>ts. ts @ rows)) batches (Some []), d') \<and>
     r_success r \<and> r_migrated r = 3 \<and> r_failed r = 0 \<and> length (concat batches) = 3"
proof -
  have 1: "\<not> ob_exists (ob_client (demo_mig (Inr ()))) None"
    "\<forall>k. ob_create (ob_client (demo_mig (Inr ()))) k None = (Inr (), Some [])"
    "\<And>rows u. ob_upsert (ob_client (demo_mig (Inr ()))) rows u = (Inr (), map_option (\<lambda>ts. ts @ rows) u)"
    by (simp_all add: demo_mig_def demo_ob_def)
  have "0 < (2::nat)" "length demo_hits < 4" by (simp_all add: demo_hits_def)
  from migration_complete [OF demo_ready demo_quiet [OF disjI2, OF refl] this 1, of "''i''" "''t''" "[]"]
  obtain r d' batches where
    "migrate (demo_mig (Inr ())) ''i'' ''t'' 2 False False 4 None [] =
       (True, r, fold (\<lambda>rows. map_option (\<lambda>ts. ts @ rows)) batches (Some []), d')"
    "r_success r" "r_migrated r = int (length demo_hits)" "r_failed r = 0"
    "concat batches = map (\<lambda>h. convert_document (mrt (demo_mig (Inr ()))) (hit_doc h)) demo_hits"
    by blast
  then show ?thesis by (auto simp: demo_hits_def)
qed

end
