(* ===== verification/RowSpec.thy ===== *)
theory RowSpec
  imports Migration
begin

text \<open>
  What the row converter keeps of a document, column by column, what it loses, and the verdict of
  the verification.
\<close>

section \<open>Columns of a row\<close>

lemma columns_wf: "wf_dict RAGFLOW_COLUMNS"
  unfolding wf_dict_def by code_simp

lemma dget_entries:
  assumes "\<And>c. c \<in> set cs \<Longrightarrow> fst ` set (f c) \<subseteq> {fst c}" and "wf_dict cs"
  shows "dget (concat (map f cs)) k = (case dget cs k of None \<Rightarrow> None | Some d \<Rightarrow> dget (f (k, d)) k)"
  using assms
proof (induction cs)
  case (Cons c cs)
  obtain k' d where c: "c = (k', d)" by (cases c)
  have IH: "dget (concat (map f cs)) k = (case dget cs k of None \<Rightarrow> None | Some d \<Rightarrow> dget (f (k, d)) k)"
    using Cons by (auto simp: wf_dict_def)
  have keys: "fst ` set (f c) \<subseteq> {k'}" using Cons.prems(1) [of c] c by simp
  show ?case
  proof (cases "k = k'")
    case True
    with Cons.prems(2) c have "dget cs k = None" by (simp add: wf_dict_def map_of_eq_None_iff)
    with IH True c show ?thesis by (auto simp: map_add_def split: option.split)
  next
    case False
    with keys have "dget (f c) k = None" by (auto simp: map_of_eq_None_iff)
    with IH False c show ?thesis by (simp add: map_add_def split: option.split)
  qed
qed simp

lemma column_entry_keys: "fst ` set (column_entry rt source c) \<subseteq> {fst c}"
  by (auto simp: column_entry_def split: pyval.splits option.splits if_splits)

lemma vector_keys: "kv \<in> set (vector_entries s) \<Longrightarrow> vector_match (fst kv) \<noteq> None"
  by (simp add: vector_entries_def)

lemma columns_no_vector: "list_all (\<lambda>c. vector_match (fst c) = None) RAGFLOW_COLUMNS"
  by code_simp

lemma column_not_vector:
  assumes "has_key RAGFLOW_COLUMNS k"
  shows "dget (rev (vector_entries s)) k = None"
proof -
  obtain d where "(k, d) \<in> set RAGFLOW_COLUMNS"
    using assms by (auto simp: has_key_def dest: map_of_SomeD)
  with columns_no_vector have "vector_match k = None" by (auto simp: list_all_iff)
  then show ?thesis by (auto simp: map_of_eq_None_iff dest: vector_keys)
qed

text \<open>A document of the scroll: no \<open>_source\<close> of its own.\<close>

lemma source_hit:
  assumes "dget (h_source h) ''_source'' = None"
  shows "source_of (hit_doc h) = hit_doc h"
  using assms by (simp add: source_of_def hit_doc_def Let_def split: option.split)

lemma dget_row:
  assumes "k \<noteq> ''extra''"
  shows "dget (convert_document rt d) k =
     (case dget (rev (vector_entries (source_of d))) k of
        Some v \<Rightarrow> Some v
      | None \<Rightarrow> dget (id_entry rt d @ concat (map (column_entry rt (source_of d)) RAGFLOW_COLUMNS)) k)"
  using assms by (auto simp: convert_document_def Let_def dget_dset_all
      split: option.split pyval.split list.split)

text \<open>C10: in the row of a scrolled document every column but \<open>id\<close> and \<open>extra\<close> holds the converted value
  of its field, or its default when the field is absent or null, or is absent; and \<open>id\<close> is the
  text of the document's \<open>_id\<close>.\<close>

theorem row_columns:
  assumes "dget (h_source h) ''_source'' = None" and "truthy (h_id h)"
    and "dget RAGFLOW_COLUMNS k = Some def" and "k \<notin> {''id'', ''extra''}"
  shows "dget (convert_document rt (hit_doc h)) k =
      (if dget_or (hit_doc h) k PNone = PNone then col_default def
       else Some (convert_field_value rt k (dget_or (hit_doc h) k PNone) def)) \<and>
    dget (convert_document rt (hit_doc h)) ''id'' = Some (PStr (py_str rt (h_id h)))"
proof
  note src = source_hit [OF assms(1)]
  have idv: "dget_or (hit_doc h) ''_id'' PNone = h_id h"
    by (simp add: hit_doc_def Let_def dget_or_def split: option.split)
  have ide: "id_entry rt (hit_doc h) = [(''id'', PStr (py_str rt (h_id h)))]"
    using assms(2) by (simp add: id_entry_def idv)
  note entries = dget_entries [of RAGFLOW_COLUMNS "column_entry rt (hit_doc h)",
      OF column_entry_keys columns_wf]
  have "has_key RAGFLOW_COLUMNS k" using assms(3) by (simp add: has_key_def)
  then show "dget (convert_document rt (hit_doc h)) k =
      (if dget_or (hit_doc h) k PNone = PNone then col_default def
       else Some (convert_field_value rt k (dget_or (hit_doc h) k PNone) def))"
    using assms(3,4) by (auto simp: dget_row src column_not_vector ide entries column_entry_def
        map_add_def split: pyval.split option.split)
  have "has_key RAGFLOW_COLUMNS ''id''" by code_simp
  then show "dget (convert_document rt (hit_doc h)) ''id'' = Some (PStr (py_str rt (h_id h)))"
    by (simp add: dget_row src column_not_vector ide)
qed

definition row_hit :: es_hit where
  "row_hit = \<lparr> h_id = PStr ''d1'', h_source = [(''kb_id'', PList [PStr ''k'']), (''extra'', PStr ''old'')],
     h_score = None, h_sort = [] \<rparr>"

theorem row_columns_witness:
  "dget (convert_document plain_rt (hit_doc row_hit)) ''kb_id'' = Some (PStr ''k'') \<and>
   dget (convert_document plain_rt (hit_doc row_hit)) ''available_int'' = Some (PInt 1)"
proof -
  have kb: "dget RAGFLOW_COLUMNS ''kb_id'' = Some (snd (RAGFLOW_COLUMNS ! 1))"
    by (simp add: RAGFLOW_COLUMNS_def column_def)
  have av: "dget RAGFLOW_COLUMNS ''available_int'' = Some (snd (RAGFLOW_COLUMNS ! 17))"
    by (simp add: RAGFLOW_COLUMNS_def column_def)
  show ?thesis
    using row_columns [of row_hit "''kb_id''" _ plain_rt, OF _ _ kb]
      row_columns [of row_hit "''available_int''" _ plain_rt, OF _ _ av]
    by (simp add: row_hit_def hit_doc_def dget_or_def RAGFLOW_COLUMNS_def column_def
        convert_field_value_def contains_def convert_string_def sublist_code)
qed

text \<open>The row's \<open>extra\<close> column holds the unknown fields only: \<open>_id\<close> is always among them, and
  what the document stored under \<open>extra\<close> does not appear in it.\<close>

theorem extra_overwritten:
  assumes "dget (h_source h) ''_source'' = None"
  shows "dget (convert_document rt (hit_doc h)) ''extra'' =
      Some (PStr (json_dumps rt (PDict (extra_fields (hit_doc h))))) \<and>
    dget (extra_fields (hit_doc h)) ''_id'' = Some (h_id h) \<and>
    extra_fields (hit_doc (h\<lparr>h_source := dset ''extra'' v (h_source h)\<rparr>)) = extra_fields (hit_doc h)"
proof (intro conjI)
  note src = source_hit [OF assms]
  let ?P = "\<lambda>kv. \<not> has_key RAGFLOW_COLUMNS (fst kv) \<and> vector_match (fst kv) = None"
  have filt: "dget (filter ?P d) k = (if ?P (k, x) then dget d k else None)" for d :: pydict and k x
    by (induction d) auto
  have id: "\<not> has_key RAGFLOW_COLUMNS ''_id''" "vector_match ''_id'' = None" by code_simp+
  have "dget (hit_doc h) ''_id'' = Some (h_id h)"
    by (simp add: hit_doc_def Let_def split: option.split)
  then show ex: "dget (extra_fields (hit_doc h)) ''_id'' = Some (h_id h)"
    using filt [of "hit_doc h" "''_id''"] id by (simp add: extra_fields_def)
  then have ne: "extra_fields (hit_doc h) \<noteq> []" by auto
  have "has_key RAGFLOW_COLUMNS ''extra''" by code_simp
  then have ent: "dget (dset_all (id_entry rt (hit_doc h) @
        concat (map (column_entry rt (hit_doc h)) RAGFLOW_COLUMNS)) (vector_entries (hit_doc h))) ''extra'' =
      dget (column_entry rt (hit_doc h) (''extra'', the (dget RAGFLOW_COLUMNS ''extra''))) ''extra''"
    by (auto simp: dget_dset_all column_not_vector has_key_def id_entry_def map_add_def
        dget_entries [of RAGFLOW_COLUMNS "column_entry rt (hit_doc h)", OF column_entry_keys columns_wf]
        split: option.split)
  have def: "dget RAGFLOW_COLUMNS ''extra'' = Some \<lparr> ob_type = ''JSON'', nullable = True, is_primary = False,
      indexed = False, is_array = False, is_json = True, col_default = None \<rparr>"
    by (simp add: RAGFLOW_COLUMNS_def column_def)
  show "dget (convert_document rt (hit_doc h)) ''extra'' =
      Some (PStr (json_dumps rt (PDict (extra_fields (hit_doc h)))))"
    using ne ent by (auto simp: convert_document_def src Let_def def column_entry_def convert_field_value_def
        convert_json_value_def split: option.splits pyval.splits list.splits if_splits)
  have "filter ?P (dset ''extra'' v d) = filter ?P d" for d :: pydict
    using \<open>has_key RAGFLOW_COLUMNS ''extra''\<close> by (induction d) auto
  moreover have "filter ?P (dset k v d) = dset k v (filter ?P d)" if "?P (k, ())" for k v and d :: pydict
    using that by (induction d) auto
  moreover have "\<not> has_key RAGFLOW_COLUMNS ''_score''" "vector_match ''_score'' = None" by code_simp+
  ultimately show "extra_fields (hit_doc (h\<lparr>h_source := dset ''extra'' v (h_source h)\<rparr>)) = extra_fields (hit_doc h)"
    using id by (simp add: extra_fields_def hit_doc_def Let_def split: option.split)
qed

theorem extra_overwritten_witness:
  "dget (convert_document plain_rt (hit_doc row_hit)) ''extra'' =
     Some (PStr (json_dumps plain_rt (PDict [(''_id'', PStr ''d1'')])))"
proof -
  have "extra_fields (hit_doc row_hit) = [(''_id'', PStr ''d1'')]" by code_simp
  then show ?thesis using extra_overwritten [of row_hit plain_rt] by (simp add: row_hit_def)
qed

section \<open>Array columns\<close>

definition escaped_chars :: "char set" where
  "escaped_chars = {backslash, CHR 0x0A, CHR 0x0D, CHR 0x09}"

lemma count_double:
  "length (filter (\<lambda>x. x = c) (replace_char c [c, c] s)) = 2 * length (filter (\<lambda>x. x = c) s)"
  by (induction s) (auto simp: replace_char_def)

lemma count_escape:
  "c \<noteq> d \<Longrightarrow> b \<noteq> d \<Longrightarrow> length (filter (\<lambda>x. x = d) (replace_char c [d, b] s)) =
     length (filter (\<lambda>x. x = d) s) + length (filter (\<lambda>x. x = c) s)"
  by (induction s) (auto simp: replace_char_def)

lemma filter_replace:
  "c \<noteq> d \<Longrightarrow> d \<noteq> a \<Longrightarrow> d \<noteq> b \<Longrightarrow>
     filter (\<lambda>x. x = d) (replace_char c [a, b] s) = filter (\<lambda>x. x = d) s"
  by (induction s) (auto simp: replace_char_def)

lemma replace_none: "c \<notin> set s \<Longrightarrow> replace_char c r s = s"
  by (induction s) (auto simp: replace_char_def)

text \<open>White space has no backslash, so stripping keeps every backslash of a text.\<close>

lemma wide_plain: "w \<in> set wide_spaces \<Longrightarrow> backslash \<notin> set w"
proof -
  have "list_all (\<lambda>w. backslash \<notin> set w) wide_spaces" by code_simp
  then show "w \<in> set wide_spaces \<Longrightarrow> ?thesis" by (simp add: list_all_iff)
qed

lemma not_space_backslash: "\<not> is_space backslash"
  by code_simp

lemma ws_head_plain: "backslash \<notin> set (take (ws_head s) s)"
proof (cases "0 < ws_head s")
  case True
  then show ?thesis
  proof (cases rule: ws_head_cases)
    case 1
    then show ?thesis using not_space_backslash by (cases s) (auto simp: ws_head_def)
  next
    case (2 w)
    then have "take (ws_head s) s = w" by (auto simp: ws_head_wide starts_with_def prefix_def)
    with wide_plain [OF 2(1)] show ?thesis by simp
  qed
qed simp

lemma ws_tail_plain: "backslash \<notin> set (drop (length s - ws_tail s) s)"
proof (cases "is_space (last s) \<and> s \<noteq> []")
  case True
  then have "drop (length s - ws_tail s) s = [last s]"
    by (cases s rule: rev_cases) (auto simp: ws_tail_def)
  with True not_space_backslash show ?thesis by auto
next
  case False
  show ?thesis
  proof (cases "ws_tail s = 0")
    case pos: False
    then obtain w where w: "find (ends_with s) wide_spaces = Some w" "ws_tail s = length w"
      using False by (auto simp: ws_tail_def split: if_splits option.splits)
    then have "w \<in> set wide_spaces" "suffix w s" by (auto simp: find_Some_iff ends_with_def)
    then show ?thesis using w(2) wide_plain by (auto simp: suffix_def)
  qed simp
qed

lemma lstrip_backslash: "filter (\<lambda>x. x = backslash) (lstrip_ws s) = filter (\<lambda>x. x = backslash) s"
proof (induction s rule: lstrip_ws.induct)
  case (1 s)
  have "filter (\<lambda>x. x = backslash) (drop (ws_head s) s) = filter (\<lambda>x. x = backslash) s"
    using ws_head_plain [of s] by (subst (2) append_take_drop_id [of "ws_head s" s, symmetric])
      (auto simp: filter_empty_conv simp del: append_take_drop_id)
  with 1 show ?case by (subst lstrip_ws.simps) auto
qed

lemma rstrip_backslash: "filter (\<lambda>x. x = backslash) (rstrip_ws s) = filter (\<lambda>x. x = backslash) s"
proof (induction s rule: rstrip_ws.induct)
  case (1 s)
  have "filter (\<lambda>x. x = backslash) (take (length s - ws_tail s) s) = filter (\<lambda>x. x = backslash) s"
    using ws_tail_plain [of s] by (subst (2) append_take_drop_id [of "length s - ws_tail s" s, symmetric])
      (auto simp: filter_empty_conv simp del: append_take_drop_id)
  with 1 show ?case by (subst rstrip_ws.simps) auto
qed

lemma strip_backslash: "filter (\<lambda>x. x = backslash) (strip_ws s) = filter (\<lambda>x. x = backslash) s"
  by (simp add: strip_ws_def lstrip_backslash rstrip_backslash)

text \<open>Escaping adds a backslash for each of the four characters, so an item that stays the same has none of them, and
  stripping has not changed it.\<close>

lemma clean_item_id: "clean_item s = s \<longleftrightarrow> strip_ws s = s \<and> set s \<inter> escaped_chars = {}"
proof
  let ?t = "strip_ws s"
  let ?n = "\<lambda>c. length (filter (\<lambda>x. x = c) ?t)"
  have c: "backslash \<noteq> CHR 0x0A" "backslash \<noteq> CHR 0x0D" "backslash \<noteq> CHR 0x09"
    "backslash \<noteq> CHR ''n''" "backslash \<noteq> CHR ''r''" "backslash \<noteq> CHR ''t''"
    by (simp_all add: backslash_def)
  have bs: "length (filter (\<lambda>x. x = backslash) (clean_item s)) =
      2 * ?n backslash + ?n (CHR 0x0A) + ?n (CHR 0x0D) + ?n (CHR 0x09)"
    unfolding clean_item_def by (simp add: count_double count_escape filter_replace c c [symmetric])
  assume eq: "clean_item s = s"
  with bs have "2 * ?n backslash + ?n (CHR 0x0A) + ?n (CHR 0x0D) + ?n (CHR 0x09) = ?n backslash"
    by (simp add: strip_backslash)
  then have none: "set ?t \<inter> escaped_chars = {}"
    by (auto simp: escaped_chars_def filter_empty_conv)
  then have "clean_item s = ?t"
    by (auto simp: clean_item_def escaped_chars_def replace_none)
  with eq none show "strip_ws s = s \<and> set s \<inter> escaped_chars = {}" by simp
next
  assume "strip_ws s = s \<and> set s \<inter> escaped_chars = {}"
  then show "clean_item s = s" by (auto simp: clean_item_def escaped_chars_def replace_none)
qed

text \<open>C12: items of an array column are stripped and escaped before they are serialised: when JSON reads back what was
  written, a keyword compares equal to the original exactly when it has no white space around it and no backslash, newline,
  carriage return or tab.\<close>

theorem array_items_escaped:
  assumes "json_loads rt (json_dumps rt (PList [PStr (clean_item s)])) = Some (PList [PStr (clean_item s)])"
  shows "values_equal rt ''important_kwd'' (PList [PStr s]) (convert_array_value rt (PList [PStr s])) \<longleftrightarrow>
     strip_ws s = s \<and> set s \<inter> escaped_chars = {}"
proof -
  have "values_equal rt ''important_kwd'' (PList [PStr s]) (convert_array_value rt (PList [PStr s])) \<longleftrightarrow>
      s = clean_item s"
    by (auto simp: values_equal_def convert_array_value_def loads_or_same_def assms
        ARRAY_COLUMNS_def Let_def simp del: json_dumps.simps)
  with clean_item_id [of s] show ?thesis by auto
qed

theorem array_items_escaped_witness:
  "\<not> values_equal (plain_rt\<lparr>json_loads := (\<lambda>_. Some (PList [PStr [CHR ''a'', backslash, backslash]]))\<rparr>)
       ''important_kwd'' (PList [PStr [CHR ''a'', backslash]])
       (convert_array_value (plain_rt\<lparr>json_loads := (\<lambda>_. Some (PList [PStr [CHR ''a'', backslash, backslash]]))\<rparr>)
          (PList [PStr [CHR ''a'', backslash]]))"
proof -
  let ?s = "[CHR ''a'', backslash]"
  have cl: "clean_item ?s = [CHR ''a'', backslash, backslash]" by code_simp
  show ?thesis
    using array_items_escaped [of "plain_rt\<lparr>json_loads := (\<lambda>_. Some (PList [PStr (clean_item ?s)]))\<rparr>" ?s]
    by (simp add: cl escaped_chars_def)
qed

section \<open>Verification\<close>

definition sample_good :: "pyrt \<Rightarrow> 't ob_api \<Rightarrow> 't \<Rightarrow> string list \<Rightarrow> pydict \<Rightarrow> bool" where
  "sample_good rt ob t flds d \<longleftrightarrow>
     truthy (py_or (dget_or d ''_id'' PNone) (dget_or d ''id'' PNone)) \<and>
     (case get_row_by_id ob (py_or (dget_or d ''_id'' PNone) (dget_or d ''id'' PNone)) t of
        None \<Rightarrow> False
      | Some row \<Rightarrow> \<forall>f\<in>set flds. values_equal rt f (dget_or d f PNone) (dget_or row f PNone))"

lemma verify_sample_counts:
  "samples_verified (verify_sample rt ob t flds d r) = Suc (samples_verified r)"
  "samples_matched (verify_sample rt ob t flds d r) =
     samples_matched r + (if sample_good rt ob t flds d then 1 else 0)"
  "v_es_count (verify_sample rt ob t flds d r) = v_es_count r"
  "count_diff (verify_sample rt ob t flds d r) = count_diff r"
  "count_match (verify_sample rt ob t flds d r) = count_match r"
  by (auto simp: verify_sample_def sample_good_def Let_def compare_documents_def filter_empty_conv
      split: option.split)

lemma verify_fold_counts:
  "samples_verified (fold (verify_sample rt ob t flds) ds r) = samples_verified r + length ds"
  "samples_matched (fold (verify_sample rt ob t flds) ds r) =
     samples_matched r + length (filter (sample_good rt ob t flds) ds)"
  "v_es_count (fold (verify_sample rt ob t flds) ds r) = v_es_count r"
  "count_diff (fold (verify_sample rt ob t flds) ds r) = count_diff r"
  "count_match (fold (verify_sample rt ob t flds) ds r) = count_match r"
  by (induction ds arbitrary: r) (simp_all add: verify_sample_counts)

text \<open>The verification of a non-empty index passes exactly when the counts agree up to one percent
  and at least 95 percent of the sampled documents have a row that agrees on every compared field.\<close>

theorem verify_verdict:
  assumes "es_count es = Inr ec" and "0 < ec" and "0 < n" and "es_sample es (min n ec) = Inr hits"
    and "hits \<noteq> []" and "fround rt (95 / 100) \<le> fround rt (99 / 100)"
    and "diff = \<bar>ec - count_rows ob t\<bar>"
  shows "\<exists>r. verify rt es ob t n flds = Inr r \<and>
     (v_passed r \<longleftrightarrow>
        (diff = 0 \<or> fround rt (of_int diff / of_int ec) \<le> fround rt (1 / 100)) \<and>
        fround rt (95 / 100) \<le>
          fround rt (of_nat (length (filter (sample_good rt ob t flds) (map sample_doc hits))) /
                     of_nat (length hits)))"
  using assms by (auto simp: verify_def Let_def verify_samples_def determine_result_def
      verify_fold_counts count_ok_def)

theorem verify_verdict_witness:
  "\<exists>r. verify plain_rt \<lparr> es_status = Inr ''green'', es_mapping = Inr [], es_count = Inr 1,
         es_search = (\<lambda>_ _. Inr []), es_sample = (\<lambda>_. Inr [row_hit]) \<rparr>
       \<lparr> ob_health = True, ob_exists = (\<lambda>t. True), ob_create = (\<lambda>_ t. (Inr (), t)),
         ob_add_vector = (\<lambda>_ t. (Inr (), t)), ob_upsert = (\<lambda>_ t. (Inr (), t)),
         ob_count = (\<lambda>t. Inr 1), ob_get = (\<lambda>_ t. Inr None) \<rparr> () 100 VERIFY_FIELDS = Inr r \<and> \<not> v_passed r"
  using verify_verdict [of "\<lparr> es_status = Inr ''green'', es_mapping = Inr [], es_count = Inr 1,
         es_search = (\<lambda>_ _. Inr []), es_sample = (\<lambda>_. Inr [row_hit]) \<rparr>" 1 100 "[row_hit]" plain_rt 0
      "\<lparr> ob_health = True, ob_exists = (\<lambda>t. True), ob_create = (\<lambda>_ t. (Inr (), t)),
         ob_add_vector = (\<lambda>_ t. (Inr (), t)), ob_upsert = (\<lambda>_ t. (Inr (), t)),
         ob_count = (\<lambda>t. Inr 1), ob_get = (\<lambda>_ t. Inr None) \<rparr>" "()" VERIFY_FIELDS]
  by (simp add: count_rows_def get_row_by_id_def sample_good_def plain_rt_def)

text \<open>An empty index and an empty table agree, yet the verification reports a failure, because
  no sample means a match rate of zero.\<close>

theorem verify_empty_fails:
  assumes "es_count es = Inr 0" and "count_rows ob t = 0" and "0 < fround rt (95 / 100)"
    and "0 < fround rt (99 / 100)"
  shows "\<exists>r. verify rt es ob t n flds = Inr r \<and> count_match r \<and> \<not> v_passed r \<and>
     v_message r = Failed [LowMatchRate]"
  using assms by (simp add: verify_def Let_def determine_result_def count_ok_def)

theorem verify_empty_fails_witness:
  "\<exists>r. verify plain_rt \<lparr> es_status = Inr ''green'', es_mapping = Inr [], es_count = Inr 0,
         es_search = (\<lambda>_ _. Inr []), es_sample = (\<lambda>_. Inr []) \<rparr>
       \<lparr> ob_health = True, ob_exists = (\<lambda>t. True), ob_create = (\<lambda>_ t. (Inr (), t)),
         ob_add_vector = (\<lambda>_ t. (Inr (), t)), ob_upsert = (\<lambda>_ t. (Inr (), t)),
         ob_count = (\<lambda>t. Inr 0), ob_get = (\<lambda>_ t. Inr None) \<rparr> () 100 VERIFY_FIELDS = Inr r \<and>
     \<not> v_passed r"
  using verify_empty_fails [of "\<lparr> es_status = Inr ''green'', es_mapping = Inr [], es_count = Inr 0,
         es_search = (\<lambda>_ _. Inr []), es_sample = (\<lambda>_. Inr []) \<rparr>"
      "\<lparr> ob_health = True, ob_exists = (\<lambda>t. True), ob_create = (\<lambda>_ t. (Inr (), t)),
         ob_add_vector = (\<lambda>_ t. (Inr (), t)), ob_upsert = (\<lambda>_ t. (Inr (), t)),
         ob_count = (\<lambda>t. Inr 0), ob_get = (\<lambda>_ t. Inr None) \<rparr>" "()" plain_rt 100 VERIFY_FIELDS]
  by (auto simp: count_rows_def plain_rt_def)

end
