(* ===== verification/ObTable.thy ===== *)
theory ObTable
  imports EsOb
begin

text \<open>
  The table the migration creates in OceanBase (\<^verbatim>\<open>es_ob_migration/ob_client.py\<close>, \<open>create_ragflow_table\<close>): the fixed
  columns with their SQL types, keys and defaults, and one vector column.
\<close>

datatype sql_type =
    SqlArray sql_type
  | SqlString nat
  | SqlInteger
  | SqlDouble
  | SqlFloat
  | SqlJson
  | SqlLongText
  | SqlText
  | SqlVector nat

record sql_column =
  sc_type :: sql_type
  sc_primary :: bool
  sc_nullable :: bool
  sc_default :: "string option"

text \<open>\<open>re.search(r'\((\d+)\)', s)\<close>\<close>

fun paren_number :: "string \<Rightarrow> nat option" where
  "paren_number [] = None"
| "paren_number (c # cs) =
     (let ds = takeWhile is_digit cs
      in if c = CHR ''('' \<and> ds \<noteq> [] \<and> starts_with (dropWhile is_digit cs) '')'' then nat_of_digits 0 ds
         else paren_number cs)"

definition array_count :: "string \<Rightarrow> nat" where
  "array_count s = length (filter (\<lambda>i. starts_with (drop i s) ''ARRAY'') [0..<length s])"

definition type_map :: "(string \<times> sql_type) list" where
  "type_map =
     [(''Integer'', SqlInteger), (''Double'', SqlDouble), (''Float'', SqlFloat), (''JSON'', SqlJson),
      (''LONGTEXT'', SqlLongText), (''TEXT'', SqlText)]"

definition create_column :: "pyrt \<Rightarrow> column_def \<Rightarrow> sql_column" where
  "create_column rt c =
     (let ty = ob_type c
      in if is_array c \<or> starts_with ty ''ARRAY''
         then let inner = (if contains ty ''String'' then SqlString 256
                           else if contains ty ''Integer'' then SqlInteger else SqlString 256)
              in \<lparr> sc_type = (if 1 < array_count ty then SqlArray (SqlArray inner) else SqlArray inner),
                   sc_primary = False, sc_nullable = nullable c, sc_default = None \<rparr>
         else if starts_with ty ''String''
         then \<lparr> sc_type = SqlString (case paren_number ty of Some n \<Rightarrow> n | None \<Rightarrow> 256),
                sc_primary = is_primary c, sc_nullable = nullable c,
                sc_default = (case col_default c of
                    Some v \<Rightarrow> if truthy v then Some ([squote] @ py_str rt v @ [squote]) else None | None \<Rightarrow> None) \<rparr>
         else case find (\<lambda>kt. contains ty (fst kt)) type_map of
             Some (k, t) \<Rightarrow>
               \<lparr> sc_type = t, sc_primary = is_primary c, sc_nullable = nullable c,
                 sc_default = map_option (py_str rt) (col_default c) \<rparr>
           | None \<Rightarrow> \<lparr> sc_type = SqlString 256, sc_primary = False, sc_nullable = nullable c, sc_default = None \<rparr>)"

definition build_ragflow_columns :: "pyrt \<Rightarrow> (string \<times> sql_column) list" where
  "build_ragflow_columns rt = map (\<lambda>kc. (fst kc, create_column rt (snd kc))) RAGFLOW_COLUMNS"

definition vector_name :: "nat \<Rightarrow> string" where
  "vector_name n = ''q_'' @ show_nat n @ ''_vec''"

definition create_ragflow_table :: "pyrt \<Rightarrow> nat \<Rightarrow> (string \<times> sql_column) list" where
  "create_ragflow_table rt n =
     build_ragflow_columns rt @
     [(vector_name n, \<lparr> sc_type = SqlVector n, sc_primary = False, sc_nullable = True, sc_default = None \<rparr>)]"

end
