(* ===== verification/RowTypes.thy ===== *)
theory RowTypes
  imports RowSpec ObTable
begin

text \<open>
  The typing of converted rows: when the entries of a row of \<open>convert_document\<close> are columns of the table that the
  migration creates, with values of the Python types the SQL types of the columns take.
\<close>

section \<open>The values of a column type\<close>

definition value_fits :: "column_def \<Rightarrow> pyval \<Rightarrow> bool" where
  "value_fits c v \<longleftrightarrow>
     (if is_array c \<or> is_json c then is_str v
      else if ob_type c = ''Integer'' then v = PNone \<or> (\<exists>i. v = PInt i)
      else if ob_type c = ''Double'' then v = PNone \<or> is_float v
      else if starts_with (ob_type c) ''VECTOR('' then is_list v
      else v = PNone \<or> is_str v)"

definition sql_fits :: "sql_type \<Rightarrow> pyval \<Rightarrow> bool" where
  "sql_fits ty v \<longleftrightarrow>
     (case ty of
        SqlArray _ \<Rightarrow> is_str v
      | SqlJson \<Rightarrow> is_str v
      | SqlInteger \<Rightarrow> v = PNone \<or> (\<exists>i. v = PInt i)
      | SqlDouble \<Rightarrow> v = PNone \<or> is_float v
      | SqlFloat \<Rightarrow> v = PNone \<or> is_float v
      | SqlVector _ \<Rightarrow> is_list v
      | _ \<Rightarrow> v = PNone \<or> is_str v)"

definition row_typed :: "(string \<times> sql_column) list \<Rightarrow> pydict \<Rightarrow> bool" where
  "row_typed cols row \<longleftrightarrow>
     list_all (\<lambda>kv. case dget cols (fst kv) of Some c \<Rightarrow> sql_fits (sc_type c) (snd kv) | None \<Rightarrow> False) row"



lemma default_value_fits [simp]:
  "value_fits \<lparr> ob_type = ''Integer'', nullable = a, is_primary = b, indexed = c, is_array = False, is_json = False, col_default = d \<rparr> (PInt i)"
  "value_fits \<lparr> ob_type = ''String(256)'', nullable = a, is_primary = b, indexed = c, is_array = False, is_json = False, col_default = d \<rparr> (PStr s)"
proof -
  show "value_fits \<lparr> ob_type = ''Integer'', nullable = a, is_primary = b, indexed = c, is_array = False, is_json = False, col_default = d \<rparr> (PInt i)"
    "value_fits \<lparr> ob_type = ''String(256)'', nullable = a, is_primary = b, indexed = c, is_array = False, is_json = False, col_default = d \<rparr> (PStr s)"
    by (simp_all add: value_fits_def starts_with_def)
qed







section \<open>Every conversion gives a value of its type\<close>




section \<open>Rows\<close>

lemma row_typed_Nil [simp]: "row_typed cols []"
  by (simp add: row_typed_def)

lemma row_typed_append [simp]: "row_typed cols (a @ b) \<longleftrightarrow> row_typed cols a \<and> row_typed cols b"
  by (simp add: row_typed_def)







lemma vector_match_name: "vector_match (vector_name n) = Some n"
proof -
  have "takeWhile is_digit (show_nat n @ ''_vec'') = show_nat n" "dropWhile is_digit (show_nat n @ ''_vec'') = ''_vec''"
    using show_nat_digits [of n] by (auto simp: list_all_iff takeWhile_append dropWhile_append is_digit_def code_def)
  then show ?thesis by (simp add: vector_match_def vector_name_def starts_with_def nat_of_digits_show_nat)
qed








definition typed_doc :: pydict where
  "typed_doc = [(''_id'', PStr ''d1''), (''kb_id'', PList [PStr ''k'']), (''weight_int'', PStr ''7''), (''q_2_vec'', PList [PInt 1, PInt 0]),
     (''available_int'', PStr ''yes'')]"


text \<open>A column that must not be null can still get a null: the default replaces a missing value, not one that does not convert.\<close>

lemma not_null_lost:
  "dget (convert_document plain_rt typed_doc) ''available_int'' = Some PNone \<and>
   sc_nullable (create_column plain_rt (snd (RAGFLOW_COLUMNS ! 17))) = False \<and> fst (RAGFLOW_COLUMNS ! 17) = ''available_int''"
  by code_simp

end
