(* ===== verification/JsonParser.thy ===== *)
theory JsonParser
  imports PyValue
begin

text \<open>
  The JSON chunker (\<^verbatim>\<open>ragflow/deepdoc/parser/json_parser.py\<close>, class \<open>RAGFlowJsonParser\<close>) on decoded
  text: chunk sizes are lengths of the serialised JSON.  A value is stored by value; the splitter
  never writes below a value it has stored.
\<close>

record json_conf =
  max_chunk :: int
  min_chunk :: int

definition parser_conf :: "int \<Rightarrow> int option \<Rightarrow> json_conf" where
  "parser_conf max_chunk_size min_chunk_size =
     \<lparr> max_chunk = max_chunk_size * 2,
       min_chunk = (case min_chunk_size of Some m \<Rightarrow> m | None \<Rightarrow> max (max_chunk_size - 200) 50) \<rparr>"

definition json_size :: "pyrt \<Rightarrow> pyval \<Rightarrow> int" where
  "json_size rt data = int (py_len (json_dumps rt data))"

text \<open>A path that leads through a value that is no dictionary raises, as does the empty path.\<close>

fun set_nested_dict :: "pydict \<Rightarrow> string list \<Rightarrow> pyval \<Rightarrow> pydict res" where
  "set_nested_dict d [] v = Inl (Exc IndexErr ''list index out of range'')"
| "set_nested_dict d [k] v = Inr (dset k v d)"
| "set_nested_dict d (k # k' # ks) v =
     (case dget d k of
        None \<Rightarrow> bindR (set_nested_dict [] (k' # ks) v) (\<lambda>e. Inr (dset k (PDict e) d))
      | Some (PDict e0) \<Rightarrow> bindR (set_nested_dict e0 (k' # ks) v) (\<lambda>e. Inr (dset k (PDict e) d))
      | Some w \<Rightarrow> Inl (attr_err w ''setdefault''))"

fun list_to_dict :: "pyval \<Rightarrow> pyval" where
  "list_to_dict (PDict d) = PDict (map (\<lambda>(k, v). (k, list_to_dict v)) d)"
| "list_to_dict (PList xs) =
     PDict (zip (map show_nat [0..<length xs]) (map list_to_dict xs))"
| "list_to_dict v = v"

text \<open>
  \<open>_json_split\<close>; the chunks are kept last first.  \<open>json_split_items\<close> is its loop over the items
  of a dictionary.
\<close>

definition store_chunk :: "pydict list \<Rightarrow> string list \<Rightarrow> pyval \<Rightarrow> pydict list res" where
  "store_chunk chunks pth v =
     (case chunks of
        [] \<Rightarrow> Inl (Exc IndexErr ''list index out of range'')
      | c # cs \<Rightarrow> bindR (set_nested_dict c pth v) (\<lambda>c'. Inr (c' # cs)))"

definition chunk_size :: "pyrt \<Rightarrow> pydict list \<Rightarrow> int" where
  "chunk_size rt chunks = (case chunks of [] \<Rightarrow> 0 | c # _ \<Rightarrow> json_size rt (PDict c))"

function json_split :: "pyrt \<Rightarrow> json_conf \<Rightarrow> pyval \<Rightarrow> string list \<Rightarrow> pydict list \<Rightarrow> pydict list res"
  and json_split_items ::
    "pyrt \<Rightarrow> json_conf \<Rightarrow> pydict \<Rightarrow> string list \<Rightarrow> pydict list \<Rightarrow> pydict list res" where
  "json_split rt cf data pth chunks =
     (case data of
        PDict d \<Rightarrow> json_split_items rt cf d pth chunks
      | _ \<Rightarrow> store_chunk chunks pth data)"
| "json_split_items rt cf [] pth chunks = Inr chunks"
| "json_split_items rt cf ((k, v) # kvs) pth chunks =
     (let size = json_size rt (PDict [(k, v)]);
          csize = chunk_size rt chunks;
          remaining = max_chunk cf - csize
      in bindR (if size < remaining then store_chunk chunks (pth @ [k]) v
                else json_split rt cf v (pth @ [k]) (if min_chunk cf \<le> csize then [] # chunks else chunks))
           (\<lambda>chunks'. json_split_items rt cf kvs pth chunks'))"
  by pat_completeness auto
termination
proof (relation "measures [\<lambda>x. case x of Inl (_, _, v, _) \<Rightarrow> size v
      | Inr (_, _, d, _) \<Rightarrow> size_list (size_prod (\<lambda>_. 0) size) d,
      \<lambda>x. case x of Inl _ \<Rightarrow> 0 | Inr (_, _, d, _) \<Rightarrow> length d]", goal_cases)
qed auto

declare json_split.simps [simp del]

definition split_json :: "pyrt \<Rightarrow> json_conf \<Rightarrow> bool \<Rightarrow> pyval \<Rightarrow> pydict list res" where
  "split_json rt cf convert_lists json_data =
     bindR (json_split rt cf (if convert_lists then list_to_dict json_data else json_data) [] [[]])
       (\<lambda>chunks. Inr (rev (case chunks of [] # cs \<Rightarrow> cs | _ \<Rightarrow> chunks)))"

definition dump_chunks :: "pyrt \<Rightarrow> pydict list \<Rightarrow> string list" where
  "dump_chunks rt chunks = map (\<lambda>c. json_dumps rt (PDict c)) (filter (\<lambda>c. c \<noteq> []) chunks)"

definition parse_json :: "pyrt \<Rightarrow> json_conf \<Rightarrow> string \<Rightarrow> string list res" where
  "parse_json rt cf content =
     (case json_loads rt content of
        None \<Rightarrow> Inr []
      | Some v \<Rightarrow> bindR (split_json rt cf True v) (\<lambda>chunks. Inr (dump_chunks rt chunks)))"

section \<open>JSON lines\<close>

text \<open>The length of the line boundary at the head of a text, as \<open>str.splitlines\<close> knows them\<close>

definition line_break :: "string \<Rightarrow> nat" where
  "line_break s =
     (case map code s of
        a # b # c # _ \<Rightarrow>
          (if a = 13 \<and> b = 10 then 2
           else if a \<in> {10, 11, 12, 13, 28, 29, 30} then 1
           else if a = 194 \<and> b = 133 then 2
           else if a = 226 \<and> b = 128 \<and> c \<in> {168, 169} then 3 else 0)
      | [a, b] \<Rightarrow>
          (if a = 13 \<and> b = 10 then 2
           else if a \<in> {10, 11, 12, 13, 28, 29, 30} then 1
           else if a = 194 \<and> b = 133 then 2 else 0)
      | [a] \<Rightarrow> (if a \<in> {10, 11, 12, 13, 28, 29, 30} then 1 else 0)
      | [] \<Rightarrow> 0)"

function split_lines :: "string \<Rightarrow> string \<Rightarrow> string list" where
  "split_lines [] cur = (if cur = [] then [] else [cur])"
| "split_lines (c # cs) cur =
     (let n = line_break (c # cs)
      in if n = 0 then split_lines cs (cur @ [c]) else cur # split_lines (drop (n - 1) cs) [])"
  by pat_completeness auto
termination by (relation "measure (\<lambda>(s, _). length s)") auto

definition splitlines :: "string \<Rightarrow> string list" where
  "splitlines s = split_lines s []"

fun parse_lines :: "pyrt \<Rightarrow> json_conf \<Rightarrow> string list \<Rightarrow> string list res" where
  "parse_lines rt cf [] = Inr []"
| "parse_lines rt cf (line # lines) =
     (if strip_ws line = [] then parse_lines rt cf lines
      else case json_loads rt line of
             None \<Rightarrow> parse_lines rt cf lines
           | Some v \<Rightarrow>
               bindR (split_json rt cf True v) (\<lambda>chunks.
               bindR (parse_lines rt cf lines) (\<lambda>rest. Inr (dump_chunks rt chunks @ rest))))"

definition parse_jsonl :: "pyrt \<Rightarrow> json_conf \<Rightarrow> string \<Rightarrow> string list res" where
  "parse_jsonl rt cf content = parse_lines rt cf (splitlines (strip_ws content))"

definition is_valid_json :: "pyrt \<Rightarrow> string \<Rightarrow> bool" where
  "is_valid_json rt line \<longleftrightarrow> json_loads rt line \<noteq> None"

definition is_jsonl_format :: "pyrt \<Rightarrow> string \<Rightarrow> bool" where
  "is_jsonl_format rt txt =
     (let lines = filter (\<lambda>l. l \<noteq> []) (map strip_ws (splitlines (strip_ws txt)))
      in if lines = [] then False
         else if is_valid_json rt txt then False
         else let sample = take 10 lines; valid = length (filter (is_valid_json rt) sample)
              in if valid = 0 then False
                 else fround rt (4 / 5) \<le> fround rt (of_nat valid / of_nat (length sample)))"

definition parse_text :: "pyrt \<Rightarrow> json_conf \<Rightarrow> string \<Rightarrow> string list res" where
  "parse_text rt cf txt = (if is_jsonl_format rt txt then parse_jsonl rt cf txt else parse_json rt cf txt)"

end
