(* ===== verification/JsonSpec.thy ===== *)
theory JsonSpec
  imports JsonParser
begin

text \<open>
  The JSON chunker loses no leaf: the chunks together hold exactly the leaves of the input, each
  under its own path.  A leaf is a value that is no dictionary, with the keys that lead to it.
\<close>

section \<open>Leaves and free paths\<close>

fun leaves :: "pyval \<Rightarrow> (string list \<times> pyval) set" where
  "leaves (PDict d) = (\<Union>(k, v)\<in>set d. (\<lambda>(p, x). (k # p, x)) ` leaves v)"
| "leaves v = {([], v)}"

definition under :: "string list \<Rightarrow> (string list \<times> pyval) set \<Rightarrow> (string list \<times> pyval) set" where
  "under p L = (\<lambda>(q, x). (p @ q, x)) ` L"

definition chunk_leaves :: "pydict list \<Rightarrow> (string list \<times> pyval) set" where
  "chunk_leaves cs = (\<Union>c\<in>set cs. leaves (PDict c))"

lemma under_Nil [simp]: "under [] L = L"
  by (auto simp: under_def)

lemma under_under [simp]: "under p (under q L) = under (p @ q) L"
  by (force simp: under_def)

lemma under_Un: "under p (L \<union> M) = under p L \<union> under p M"
  by (auto simp: under_def)

lemma leaves_Cons: "leaves (PDict ((k, v) # d)) = under [k] (leaves v) \<union> leaves (PDict d)"
  by (auto simp: under_def)

lemma leaves_Nil [simp]: "leaves (PDict []) = {}"
  by simp

lemma leaves_leaf: "\<not> is_dict v \<Longrightarrow> leaves v = {([], v)}"
  by (cases v) auto

declare leaves.simps(1) [simp del]

text \<open>A path is free in a dictionary when something can be stored there without meeting another value.\<close>

fun free :: "pydict \<Rightarrow> string list \<Rightarrow> bool" where
  "free d [] = False"
| "free d [k] = (dget d k = None)"
| "free d (k # k' # ks) =
     (case dget d k of None \<Rightarrow> True | Some (PDict e) \<Rightarrow> free e (k' # ks) | Some _ \<Rightarrow> False)"

lemma free_empty [simp]: "p \<noteq> [] \<Longrightarrow> free [] p"
  by (cases "([] :: pydict, p)" rule: free.cases) auto

lemma free_extend: "free d p \<Longrightarrow> free d (p @ q)"
proof (induction d p arbitrary: q rule: free.induct)
  case (2 d k)
  then show ?case by (cases q) auto
next
  case (3 d k k' ks)
  then show ?case by (auto split: option.splits pyval.splits)
qed simp

lemma leaves_dset:
  assumes "wf_dict d"
  shows "leaves (PDict (dset k v d)) = under [k] (leaves v) \<union> leaves (PDict (dpop k d))"
  using assms
proof (induction d)
  case (Cons kv d)
  obtain k' v' where kv: "kv = (k', v')" by (cases kv)
  show ?case
  proof (cases "k = k'")
    case True
    with Cons.prems kv have "dpop k d = d"
      by (auto simp: wf_dict_def intro!: delete_idem)
    with True kv show ?thesis by (simp add: leaves_Cons)
  next
    case False
    with Cons kv show ?thesis by (auto simp: leaves_Cons wf_dict_def)
  qed
qed (simp add: leaves_Cons)

lemma leaves_split:
  assumes "wf_dict d" and "dget d k = Some v"
  shows "leaves (PDict d) = under [k] (leaves v) \<union> leaves (PDict (dpop k d))"
  using assms
proof (induction d)
  case (Cons kv d)
  obtain k' v' where kv: "kv = (k', v')" by (cases kv)
  show ?case
  proof (cases "k = k'")
    case True
    with Cons.prems kv have "dpop k d = d"
      by (auto simp: wf_dict_def intro!: delete_idem)
    with True kv Cons.prems show ?thesis by (simp add: leaves_Cons)
  next
    case False
    with Cons kv show ?thesis by (auto simp: leaves_Cons wf_dict_def)
  qed
qed simp

lemma dpop_absent: "dget d k = None \<Longrightarrow> dpop k d = d"
  by (simp add: map_of_eq_None_iff delete_idem)

lemma in_dset: "kv \<in> set (dset k v d) \<Longrightarrow> kv = (k, v) \<or> kv \<in> set d"
  by (induction d) (auto split: if_splits)

lemma wf_val_dset: "wf_val (PDict d) \<Longrightarrow> wf_val v \<Longrightarrow> wf_val (PDict (dset k v d))"
  using wf_dict_dset [of d k v] by (auto simp: wf_dict_def list_all_iff dest!: in_dset)

lemma wf_val_dget: "wf_val (PDict d) \<Longrightarrow> dget d k = Some v \<Longrightarrow> wf_val v"
  by (auto simp: list_all_iff dest!: map_of_SomeD)

lemma set_nested_ok:
  assumes "free d p" and "wf_val (PDict d)" and "wf_val v"
  shows "\<exists>d'. set_nested_dict d p v = Inr d' \<and> wf_val (PDict d') \<and>
     leaves (PDict d') = leaves (PDict d) \<union> under p (leaves v)"
  using assms
proof (induction d p arbitrary: v rule: free.induct)
  case (2 d k)
  then have "wf_dict d" "dget d k = None" by (simp_all add: wf_dict_def)
  with 2 show ?case
    by (auto simp: leaves_dset dpop_absent simp del: wf_val.simps intro!: wf_val_dset)
next
  case (3 d k k' ks)
  have wf: "wf_dict d" using 3 by (simp add: wf_dict_def)
  show ?case
  proof (cases "dget d k")
    case None
    obtain e where e: "set_nested_dict [] (k' # ks) v = Inr e" "wf_val (PDict e)"
      "leaves (PDict e) = under (k' # ks) (leaves v)"
    proof -
      have "\<exists>e. set_nested_dict [] p v = Inr e \<and> wf_val (PDict e) \<and> leaves (PDict e) = under p (leaves v)"
        if "p \<noteq> []" for p
        using that
      proof (induction p rule: induct_list012)
        case (2 x)
        then show ?case using 3 by (simp add: leaves_Cons)
      next
        case (3 x y zs)
        then show ?case by (auto simp: leaves_Cons)
      qed simp
      from this [of "k' # ks"] that show ?thesis by auto
    qed
    with 3 None wf show ?thesis
      by (auto simp: leaves_dset dpop_absent simp del: wf_val.simps intro!: wf_val_dset)
  next
    case (Some w)
    with 3 obtain e0 where w: "w = PDict e0" "free e0 (k' # ks)" by (auto split: pyval.splits)
    from "3.prems"(2) Some w have "wf_val (PDict e0)" using wf_val_dget by blast
    with "3.IH" [OF Some w(1,2) _ "3.prems"(3)] obtain e where
      "set_nested_dict e0 (k' # ks) v = Inr e" "wf_val (PDict e)"
      "leaves (PDict e) = leaves (PDict e0) \<union> under (k' # ks) (leaves v)" by auto
    with Some w "3.prems" wf show ?thesis
      by (auto simp: leaves_dset under_Un leaves_split [OF wf Some] simp del: wf_val.simps intro!: wf_val_dset)
  qed
qed simp

definition apart :: "string list \<Rightarrow> string list \<Rightarrow> bool" where
  "apart p q \<longleftrightarrow> \<not> prefix p q \<and> \<not> prefix q p"

lemma set_nested_free:
  assumes "set_nested_dict d p v = Inr d'" and "free d q" and "apart p q"
  shows "free d' q"
  using assms
proof (induction d p v arbitrary: d' q rule: set_nested_dict.induct)
  case (2 d k v)
  then show ?case by (cases "(d, q)" rule: free.cases) (auto simp: apart_def)
next
  case (3 d k k' ks v)
  have keep: "free (dset k (PDict e) d) q"
    if e: "\<And>q'. (case dget d k of None \<Rightarrow> q' \<noteq> [] | Some (PDict e0) \<Rightarrow> free e0 q' | _ \<Rightarrow> False) \<Longrightarrow>
        apart (k' # ks) q' \<Longrightarrow> free e q'" for e
    using "3.prems"(2,3) e
    by (cases "(d, q)" rule: free.cases) (auto simp: apart_def split: option.splits pyval.splits)
  show ?case
  proof (cases "dget d k")
    case None
    with "3.prems"(1) obtain e where e: "set_nested_dict [] (k' # ks) v = Inr e" "d' = dset k (PDict e) d"
      by (auto simp: py_bind)
    have "free e q'" if "q' \<noteq> []" "apart (k' # ks) q'" for q'
      using "3.IH"(1) [OF None e(1), of q'] that by simp
    with e(2) show ?thesis using None by (auto intro!: keep)
  next
    case (Some w)
    with "3.prems"(1) obtain e0 e where w: "w = PDict e0" and e: "set_nested_dict e0 (k' # ks) v = Inr e"
      "d' = dset k (PDict e) d" by (cases w) (auto simp: py_bind)
    have "free e q'" if "free e0 q'" "apart (k' # ks) q'" for q'
      using "3.IH"(2) [OF Some w e(1) that] .
    with e(2) show ?thesis using Some w by (auto intro!: keep)
  qed
qed simp

section \<open>The splitter\<close>

definition chunks_wf :: "pydict list \<Rightarrow> bool" where
  "chunks_wf cs \<longleftrightarrow> cs \<noteq> [] \<and> list_all (\<lambda>c. wf_val (PDict c)) cs"

text \<open>What a call that writes below \<open>pth\<close> the leaves \<open>L\<close> does to the chunks.\<close>

definition adds :: "string list \<Rightarrow> (string list \<times> pyval) set \<Rightarrow> pydict list \<Rightarrow> pydict list \<Rightarrow> bool" where
  "adds pth L cs cs' \<longleftrightarrow>
     chunks_wf cs' \<and> chunk_leaves cs' = chunk_leaves cs \<union> under pth L \<and>
     (\<forall>q. apart pth q \<longrightarrow> free (hd cs) q \<longrightarrow> free (hd cs') q)"

lemma store_chunk_adds:
  assumes "chunks_wf cs" and "free (hd cs) pth" and "wf_val v"
  shows "\<exists>cs'. store_chunk cs pth v = Inr cs' \<and> adds pth (leaves v) cs cs'"
proof -
  obtain c ds where cs: "cs = c # ds" using assms(1) by (cases cs) (auto simp: chunks_wf_def)
  with assms have "wf_val (PDict c)" "free c pth" by (auto simp: chunks_wf_def)
  from set_nested_ok [OF this(2,1) assms(3)] obtain c' where
    c': "set_nested_dict c pth v = Inr c'" "wf_val (PDict c')"
    "leaves (PDict c') = leaves (PDict c) \<union> under pth (leaves v)" by blast
  have "free c' q" if "apart pth q" "free c q" for q
    using set_nested_free [OF c'(1) that(2,1)] .
  with c' cs assms(1) show ?thesis
    by (auto simp: store_chunk_def adds_def chunk_leaves_def chunks_wf_def simp del: wf_val.simps)
qed

lemma adds_trans:
  assumes "adds (pth @ [k]) L cs cs'" and "adds pth M cs' cs''"
  shows "chunk_leaves cs'' = chunk_leaves cs \<union> under pth (under [k] L \<union> M)"
  using assms by (auto simp: adds_def under_Un)

lemma json_split_adds:
  "chunks_wf cs \<Longrightarrow> wf_val v \<Longrightarrow> is_dict v \<or> pth \<noteq> [] \<Longrightarrow>
     (\<forall>p. p \<noteq> [] \<longrightarrow> prefix pth p \<longrightarrow> free (hd cs) p) \<Longrightarrow>
     \<exists>cs'. json_split rt cf v pth cs = Inr cs' \<and> adds pth (leaves v) cs cs'"
  "chunks_wf cs \<Longrightarrow> wf_val (PDict d) \<Longrightarrow>
     (\<forall>k\<in>fst ` set d. \<forall>p. prefix (pth @ [k]) p \<longrightarrow> free (hd cs) p) \<Longrightarrow>
     \<exists>cs'. json_split_items rt cf d pth cs = Inr cs' \<and> adds pth (leaves (PDict d)) cs cs'"
proof (induction rt cf v pth cs and rt cf d pth cs rule: json_split_json_split_items.induct)
  case (1 rt cf data pth chunks)
  show ?case
  proof (cases data)
    case (PDict d)
    have "\<forall>k\<in>fst ` set d. \<forall>p. prefix (pth @ [k]) p \<longrightarrow> free (hd chunks) p"
      using 1(5) by (metis append_prefixD prefix_Nil snoc_eq_iff_butlast)
    with 1 PDict show ?thesis by (simp add: json_split.simps del: wf_val.simps)
  qed (use 1 store_chunk_adds [of chunks pth data] in \<open>auto simp: json_split.simps\<close>)
next
  case (2 rt cf pth chunks)
  then show ?case by (simp add: adds_def under_def)
next
  case (3 rt cf k v kvs pth chunks)
  let ?cs = "if min_chunk cf \<le> chunk_size rt chunks then [] # chunks else chunks"
  have wf: "wf_val v" "wf_val (PDict kvs)" "k \<notin> fst ` set kvs" using "3.prems"(2) by auto
  have fk: "\<forall>p. prefix (pth @ [k]) p \<longrightarrow> free (hd chunks) p" using "3.prems"(3) by auto
  have "\<exists>cs'. (if json_size rt (PDict [(k, v)]) < max_chunk cf - chunk_size rt chunks
        then store_chunk chunks (pth @ [k]) v else json_split rt cf v (pth @ [k]) ?cs) = Inr cs' \<and>
      adds (pth @ [k]) (leaves v) chunks cs'"
  proof (cases "json_size rt (PDict [(k, v)]) < max_chunk cf - chunk_size rt chunks")
    case True
    with store_chunk_adds [OF "3.prems"(1) _ wf(1), of "pth @ [k]"] fk show ?thesis by simp
  next
    case False
    have ws: "chunks_wf ?cs" using "3.prems"(1) by (auto simp: chunks_wf_def)
    have fr: "\<forall>q. q \<noteq> [] \<longrightarrow> free (hd chunks) q \<longrightarrow> free (hd ?cs) q" by simp
    have "\<forall>p. p \<noteq> [] \<longrightarrow> prefix (pth @ [k]) p \<longrightarrow> free (hd ?cs) p" using fk fr by blast
    with "3.IH"(1) [OF refl refl refl False] ws wf(1) obtain cs' where
      cs': "json_split rt cf v (pth @ [k]) ?cs = Inr cs'" "adds (pth @ [k]) (leaves v) ?cs cs'" by blast
    have "free (hd ?cs) q" if "free (hd chunks) q" for q
      using fr that by (cases q) auto
    moreover have "chunk_leaves ?cs = chunk_leaves chunks" by (simp add: chunk_leaves_def)
    ultimately have "adds (pth @ [k]) (leaves v) chunks cs'" using cs'(2) by (simp add: adds_def)
    with cs'(1) False show ?thesis by auto
  qed
  then obtain cs' where first: "(if json_size rt (PDict [(k, v)]) < max_chunk cf - chunk_size rt chunks
        then store_chunk chunks (pth @ [k]) v else json_split rt cf v (pth @ [k]) ?cs) = Inr cs'"
    and ad: "adds (pth @ [k]) (leaves v) chunks cs'" by blast
  have wf': "chunks_wf cs'" using ad by (simp add: adds_def)
  have "\<forall>k'\<in>fst ` set kvs. \<forall>p. prefix (pth @ [k']) p \<longrightarrow> free (hd cs') p"
  proof (intro ballI allI impI)
    fix k' p assume k': "k' \<in> fst ` set kvs" and p: "prefix (pth @ [k']) p"
    with wf(3) have "k \<noteq> k'" by auto
    with p have "apart (pth @ [k]) p" by (auto simp: apart_def prefix_def)
    moreover have "free (hd chunks) p" using "3.prems"(3) k' p by auto
    ultimately show "free (hd cs') p" using ad by (simp add: adds_def)
  qed
  with "3.IH"(2) [OF refl refl refl first] wf' wf(2) obtain cs'' where
    rest: "json_split_items rt cf kvs pth cs' = Inr cs''" "adds pth (leaves (PDict kvs)) cs' cs''" by blast
  have "free (hd cs'') q" if q: "apart pth q" "free (hd chunks) q" for q
  proof -
    have "apart (pth @ [k]) q"
      using q(1) by (auto simp: apart_def dest: append_prefixD)
    with q ad rest(2) show ?thesis by (simp add: adds_def)
  qed
  then have "adds pth (leaves (PDict ((k, v) # kvs))) chunks cs''"
    using adds_trans [OF ad rest(2)] rest(2) by (simp add: adds_def leaves_Cons)
  with first rest(1) show ?case by (simp add: Let_def)
qed

section \<open>The chunks of a document\<close>

lemma wf_list_to_dict: "wf_val v \<Longrightarrow> wf_val (list_to_dict v)"
proof (induction v rule: list_to_dict.induct)
  case (1 d)
  then show ?case by (force simp: list_all_iff comp_def case_prod_beta)
next
  case (2 xs)
  have "inj_on show_nat {0..<length xs}" by (auto intro: inj_onI simp: show_nat_inj)
  with 2 show ?case
    by (auto simp: distinct_map list_all_iff map_fst_zip dest!: set_zip_rightD)
qed auto

text \<open>C24: splitting a JSON object, or an array with list conversion, never raises, and the chunks
  together hold exactly the leaves of the (converted) document, each under its own path, whatever
  the size limits.\<close>

theorem json_leaves_kept:
  assumes "wf_val v" and "is_dict v \<or> (convert_lists \<and> is_list v)"
  shows "\<exists>chunks. split_json rt cf convert_lists v = Inr chunks \<and>
     (\<Union>c\<in>set chunks. leaves (PDict c)) = leaves (if convert_lists then list_to_dict v else v)"
proof -
  let ?v = "if convert_lists then list_to_dict v else v"
  have "is_dict ?v" using assms(2) by (cases v) auto
  moreover have "wf_val ?v" using assms(1) wf_list_to_dict by simp
  moreover have "chunks_wf [[]]" by (simp add: chunks_wf_def)
  ultimately obtain cs where cs: "json_split rt cf ?v [] [[]] = Inr cs" "adds [] (leaves ?v) [[]] cs"
    using json_split_adds(1) [of "[[]]" ?v "[]" rt cf] by auto
  have "chunk_leaves cs = leaves ?v" using cs(2) by (simp add: adds_def chunk_leaves_def)
  moreover have "chunk_leaves (rev (case cs of [] # ds \<Rightarrow> ds | _ \<Rightarrow> cs)) = chunk_leaves cs"
    by (auto simp: chunk_leaves_def split: list.split)
  ultimately show ?thesis
    using cs(1) by (simp add: split_json_def chunk_leaves_def)
qed

definition json_rt :: pyrt where
  "json_rt = \<lparr> fround = id, frepr = (\<lambda>_. ''0.0''), fparse = (\<lambda>_. None),
     json_loads = (\<lambda>s. if s = ''5'' then Some (PInt 5) else None), literal_eval = (\<lambda>_. None) \<rparr>"

theorem json_leaves_kept_witness:
  "\<exists>chunks. split_json json_rt (parser_conf 5 (Some 5)) True
       (PDict [(''a'', PList [PInt 1, PStr ''x'']), (''b'', PInt 2)]) = Inr chunks \<and>
     (\<Union>c\<in>set chunks. leaves (PDict c)) =
       leaves (list_to_dict (PDict [(''a'', PList [PInt 1, PStr ''x'']), (''b'', PInt 2)]))"
  using json_leaves_kept [of "PDict [(''a'', PList [PInt 1, PStr ''x'']), (''b'', PInt 2)]" True
      json_rt "parser_conf 5 (Some 5)"]
  by simp

text \<open>A text that is valid JSON but neither an object nor an array makes the parser raise an
  IndexError, which the parser's handler of JSON errors does not catch.\<close>

theorem json_scalar_raises:
  assumes "json_loads rt txt = Some v" and "\<not> is_dict v" and "\<not> is_list v"
  shows "\<exists>m. parse_json rt cf txt = Inl (Exc IndexErr m) \<and> parse_text rt cf txt = Inl (Exc IndexErr m)"
proof -
  have "list_to_dict v = v" using assms(2,3) by (cases v) auto
  then have "parse_json rt cf txt = Inl (Exc IndexErr ''list index out of range'')"
    using assms by (cases v) (auto simp: parse_json_def split_json_def json_split.simps store_chunk_def)
  moreover have "\<not> is_jsonl_format rt txt"
    using assms(1) by (simp add: is_jsonl_format_def is_valid_json_def Let_def)
  ultimately show ?thesis by (simp add: parse_text_def)
qed

theorem json_scalar_raises_witness:
  "\<exists>m. parse_text json_rt (parser_conf 5 None) ''5'' = Inl (Exc IndexErr m)"
  using json_scalar_raises [of json_rt "''5''" "PInt 5" "parser_conf 5 None"] by (auto simp: json_rt_def)

end
