(* ===== verification/Metadata.thy ===== *)
theory Metadata
  imports DataOps
begin

text \<open>
  Metadata filters and schemas (\<^verbatim>\<open>ragflow/common/metadata_utils.py\<close>).  \<open>metas\<close> maps a metadata key
  to its values with the documents that have them, in order.  A Python set of document ids is a
  list without duplicates; its order is not Python's.  The chat model that generates a filter and
  the \<open>json_repair\<close> library are parameters.
\<close>

type_synonym value_docs = "(pyval \<times> string list) list"
type_synonym metas = "(string \<times> value_docs) list"

section \<open>Conditions\<close>

definition op_mapping :: "string \<Rightarrow> string" where
  "op_mapping op =
     (if op = ''is'' then ''=''
      else if op = ''not is'' then op_ne
      else if op = ''>='' then op_ge
      else if op = ''<='' then op_le
      else if op = ''!='' then op_ne
      else op)"

definition convert_condition :: "pyval \<Rightarrow> pyval res" where
  "convert_condition cond =
     bindR (subscript cond ''comparison_operator'') (\<lambda>op.
     bindR (subscript cond ''name'') (\<lambda>n.
     bindR (subscript cond ''value'') (\<lambda>v.
       Inr (PDict [(''op'', case op of PStr s \<Rightarrow> PStr (op_mapping s) | _ \<Rightarrow> op), (''key'', n), (''value'', v)]))))"

definition convert_conditions :: "pyval \<Rightarrow> pyval list res" where
  "convert_conditions mc =
     bindR (get_key (if mc = PNone then PDict [] else mc) ''conditions'' (PList [])) (\<lambda>cs.
     bindR (iter_vals cs) (mapR convert_condition))"

section \<open>Filters\<close>

text \<open>\<open>YYYY-MM-DD\<close>\<close>

definition is_date :: "string \<Rightarrow> bool" where
  "is_date s \<longleftrightarrow>
     length s = 10 \<and> s ! 4 = CHR ''-'' \<and> s ! 7 = CHR ''-'' \<and>
     is_digit_str (take 4 s) \<and> is_digit_str (take 2 (drop 5 s)) \<and> is_digit_str (take 2 (drop 8 s))"

definition lower_val :: "pyval \<Rightarrow> pyval" where
  "lower_val v = (case v of PStr s \<Rightarrow> PStr (lower s) | _ \<Rightarrow> v)"

text \<open>\<open>ast.literal_eval\<close> on a value, \<open>None\<close> when it raises\<close>

definition eval_val :: "pyrt \<Rightarrow> pyval \<Rightarrow> pyval option" where
  "eval_val rt v = (case v of PStr s \<Rightarrow> literal_eval rt s | _ \<Rightarrow> None)"

text \<open>
  The comparison of one stored value: what the stored value and the query value become, \<open>None\<close>
  when the record is skipped.  The query value is a variable of the loop and keeps what it became.
\<close>

definition cmp_ops :: "string set" where
  "cmp_ops = {''='', op_ne, ''>'', ''<'', op_ge, op_le}"

definition evaluated :: "pyrt \<Rightarrow> pyval \<Rightarrow> pyval \<Rightarrow> pyval \<times> pyval" where
  "evaluated rt inp v =
     (let i0 = (case inp of PList (x # xs) \<Rightarrow> Some x | PList [] \<Rightarrow> None | _ \<Rightarrow> Some inp)
      in case i0 of
           None \<Rightarrow> (inp, v)
         | Some i1 \<Rightarrow>
             (case eval_val rt i1 of
                None \<Rightarrow> (i1, v)
              | Some i2 \<Rightarrow> (i2, case eval_val rt v of None \<Rightarrow> v | Some w \<Rightarrow> w)))"

definition normalise :: "pyrt \<Rightarrow> string \<Rightarrow> pyval \<Rightarrow> pyval \<Rightarrow> (pyval \<times> pyval) option" where
  "normalise rt op inp v =
     (if op \<in> cmp_ops then
        (let is = strip_ws (py_str rt inp); vs = strip_ws (py_str rt v)
         in if is_date vs
            then if is_date is then Some (PStr is, PStr vs) else None
            else (case evaluated rt inp v of (i, w) \<Rightarrow> Some (lower_val i, lower_val w)))
      else Some (lower_val inp, lower_val v))"

definition found_in :: "pyrt \<Rightarrow> pyval \<Rightarrow> pyval \<Rightarrow> bool res" where
  "found_in rt v i = need_str v (\<lambda>t. contains (py_str rt i) t)"

text \<open>\<open>i in v\<close>\<close>

definition val_in :: "pyval \<Rightarrow> pyval \<Rightarrow> bool res" where
  "val_in v i =
     (case v of
        PList xs \<Rightarrow> Inr (py_in i xs)
      | PStr s \<Rightarrow> need_str i (\<lambda>t. contains s t)
      | PDict d \<Rightarrow> Inr (py_in i (map (PStr \<circ> fst) d))
      | _ \<Rightarrow> Inl (type_err (''argument of type '' @ type_name v @ '' is not iterable'')))"

definition joined_lower :: "pyrt \<Rightarrow> pyval \<Rightarrow> string" where
  "joined_lower rt inp =
     (case inp of PList xs \<Rightarrow> concat (map (\<lambda>i. lower (py_str rt i)) xs) | _ \<Rightarrow> lower (py_str rt inp))"

definition match_value :: "pyrt \<Rightarrow> string \<Rightarrow> pyval \<Rightarrow> pyval \<Rightarrow> bool res" where
  "match_value rt op inp v =
     (if op = ''contains'' then
        (case inp of PList xs \<Rightarrow> anyR (found_in rt v) xs | _ \<Rightarrow> found_in rt v inp)
      else if op = ''not contains'' then
        (case inp of PList xs \<Rightarrow> allR (\<lambda>i. bindR (found_in rt v i) (\<lambda>b. Inr (\<not> b))) xs
         | _ \<Rightarrow> bindR (found_in rt v inp) (\<lambda>b. Inr (\<not> b)))
      else if op = ''in'' then
        (case inp of PList xs \<Rightarrow> allR (val_in v) xs | _ \<Rightarrow> val_in v inp)
      else if op = ''not in'' then
        (case inp of PList xs \<Rightarrow> allR (\<lambda>i. bindR (val_in v i) (\<lambda>b. Inr (\<not> b))) xs
         | _ \<Rightarrow> bindR (val_in v inp) (\<lambda>b. Inr (\<not> b)))
      else if op = ''start with'' then Inr (starts_with (joined_lower rt inp) (lower (py_str rt v)))
      else if op = ''end with'' then Inr (ends_with (joined_lower rt inp) (lower (py_str rt v)))
      else if op = ''empty'' then Inr (\<not> truthy inp)
      else if op = ''not empty'' then Inr (truthy inp)
      else if op = ''='' then Inr (py_eq inp v)
      else if op = op_ne then Inr (\<not> py_eq inp v)
      else if op = ''>'' then py_cmp GT inp v
      else if op = ''<'' then py_cmp LT inp v
      else if op = op_ge then py_cmp GE inp v
      else if op = op_le then py_cmp LE inp v
      else Inr False)"

fun filter_out :: "pyrt \<Rightarrow> string \<Rightarrow> pyval \<Rightarrow> value_docs \<Rightarrow> string list" where
  "filter_out rt op v [] = []"
| "filter_out rt op v ((inp, docids) # rest) =
     (case normalise rt op inp v of
        None \<Rightarrow> filter_out rt op v rest
      | Some (i, w) \<Rightarrow>
          (if match_value rt op i w = Inr True then docids else []) @ filter_out rt op w rest)"

text \<open>The documents one filter finds.  An operator that is not a string matches nothing.\<close>

definition filter_ids :: "pyrt \<Rightarrow> metas \<Rightarrow> pyval \<Rightarrow> string list res" where
  "filter_ids rt ms f =
     bindR (subscript f ''key'') (\<lambda>k.
       case (case k of PStr s \<Rightarrow> dget ms s | _ \<Rightarrow> None) of
         None \<Rightarrow> Inr []
       | Some v2docs \<Rightarrow>
           bindR (subscript f ''op'') (\<lambda>op.
           bindR (subscript f ''value'') (\<lambda>v.
             Inr (case op of PStr s \<Rightarrow> filter_out rt s v v2docs | _ \<Rightarrow> []))))"

fun meta_loop :: "pyrt \<Rightarrow> metas \<Rightarrow> pyval \<Rightarrow> string list \<Rightarrow> pyval list \<Rightarrow> string list res" where
  "meta_loop rt ms logic doc_ids [] = Inr doc_ids"
| "meta_loop rt ms logic doc_ids (f # fs) =
     bindR (filter_ids rt ms f) (\<lambda>ids.
       if doc_ids = [] then meta_loop rt ms logic (remdups ids) fs
       else if logic = PStr ''and''
       then (let d = filter (\<lambda>i. i \<in> set ids) doc_ids
             in if d = [] then Inr [] else meta_loop rt ms logic d fs)
       else meta_loop rt ms logic (remdups (doc_ids @ ids)) fs)"

definition meta_filter :: "pyrt \<Rightarrow> metas \<Rightarrow> pyval list \<Rightarrow> pyval \<Rightarrow> string list res" where
  "meta_filter rt ms filters logic = meta_loop rt ms logic [] filters"

section \<open>Applying a filter\<close>

fun selected_keys :: "pyval list \<Rightarrow> pyval list \<times> (pyval \<times> pyval) list" where
  "selected_keys [] = ([], [])"
| "selected_keys (item # items) =
     (let (ks, cs) = selected_keys items
      in case item of
           PStr s \<Rightarrow> (PStr s # ks, cs)
         | PDict d \<Rightarrow>
             (dget_or d ''key'' PNone # ks,
              if truthy (dget_or d ''op'' PNone) then (dget_or d ''key'' PNone, dget_or d ''op'' PNone) # cs else cs)
         | _ \<Rightarrow> (ks, cs))"

definition restrict_metas :: "pyval list \<Rightarrow> metas \<Rightarrow> metas" where
  "restrict_metas ks ms =
     concat (map (\<lambda>k. case k of
         PStr s \<Rightarrow> (case dget ms s of None \<Rightarrow> [] | Some v \<Rightarrow> [(s, v)]) | _ \<Rightarrow> []) (remdups ks))"

definition generated_filter ::
  "pyrt \<Rightarrow> metas \<Rightarrow> string list \<Rightarrow> pydict res \<Rightarrow> string list option res" where
  "generated_filter rt ms doc_ids gen =
     bindR gen (\<lambda>g.
     bindR (subscript (PDict g) ''conditions'') (\<lambda>cs.
     bindR (iter_vals cs) (\<lambda>conds.
     bindR (meta_filter rt ms conds (dget_or g ''logic'' (PStr ''and''))) (\<lambda>ids.
       Inr (if doc_ids @ ids = [] then None else Some (doc_ids @ ids))))))"

definition apply_meta_data_filter ::
  "pyrt \<Rightarrow> (metas \<Rightarrow> (pyval \<times> pyval) list \<Rightarrow> pydict res) \<Rightarrow> (pyval \<Rightarrow> pyval res) option \<Rightarrow>
     pydict \<Rightarrow> metas \<Rightarrow> string list \<Rightarrow> string list option res" where
  "apply_meta_data_filter rt gen resolver mdf ms doc_ids =
     (if mdf = [] then Inr (Some doc_ids)
      else let mth = dget_or mdf ''method'' PNone
           in if mth = PStr ''auto'' then generated_filter rt ms doc_ids (gen ms [])
              else if mth = PStr ''semi_auto'' then
                bindR (iter_vals (dget_or mdf ''semi_auto'' (PList []))) (\<lambda>items.
                  let (ks, cs) = selected_keys items; fm = restrict_metas ks ms
                  in if fm = [] then Inr (Some doc_ids) else generated_filter rt ms doc_ids (gen fm cs))
              else if mth = PStr ''manual'' then
                bindR (iter_vals (dget_or mdf ''manual'' (PList []))) (\<lambda>fs.
                bindR (case resolver of None \<Rightarrow> Inr fs | Some r \<Rightarrow> mapR r fs) (\<lambda>filters.
                bindR (meta_filter rt ms filters (dget_or mdf ''logic'' (PStr ''and''))) (\<lambda>ids.
                  Inr (Some (if filters \<noteq> [] \<and> doc_ids @ ids = [] then [''-999''] else doc_ids @ ids)))))
              else Inr (Some doc_ids))"

section \<open>Metadata of a document\<close>

fun dedupe :: "pyrt \<Rightarrow> string list \<Rightarrow> pyval list \<Rightarrow> pyval list" where
  "dedupe rt seen [] = []"
| "dedupe rt seen (x # xs) =
     (if py_str rt x \<in> set seen then dedupe rt seen xs else x # dedupe rt (py_str rt x # seen) xs)"

definition dedupe_list :: "pyrt \<Rightarrow> pyval list \<Rightarrow> pyval list" where
  "dedupe_list rt xs = dedupe rt [] xs"

text \<open>The value a new entry has to add: strings and non-empty lists of strings only.\<close>

definition meta_value :: "pyrt \<Rightarrow> pyval \<Rightarrow> pyval option" where
  "meta_value rt v =
     (case v of
        PList xs \<Rightarrow>
          (let ys = filter is_str xs in if ys = [] then None else Some (PList (dedupe_list rt ys)))
      | PStr s \<Rightarrow> Some (PStr s)
      | _ \<Rightarrow> None)"

definition merge_value :: "pyrt \<Rightarrow> pyval \<Rightarrow> pyval \<Rightarrow> pyval" where
  "merge_value rt old v =
     (case old of
        PList xs \<Rightarrow> PList (dedupe_list rt (xs @ (case v of PList ys \<Rightarrow> ys | _ \<Rightarrow> [v])))
      | _ \<Rightarrow> v)"

fun update_entries :: "pyrt \<Rightarrow> pydict \<Rightarrow> pydict \<Rightarrow> pydict" where
  "update_entries rt md [] = md"
| "update_entries rt md ((k, v) # kvs) =
     update_entries rt
       (case meta_value rt v of
          None \<Rightarrow> md
        | Some w \<Rightarrow> dset k (case dget md k of None \<Rightarrow> w | Some old \<Rightarrow> merge_value rt old w) md) kvs"

definition update_metadata_to :: "pyrt \<Rightarrow> (string \<Rightarrow> pyval option) \<Rightarrow> pydict \<Rightarrow> pyval \<Rightarrow> pydict" where
  "update_metadata_to rt repair metadata meta =
     (if \<not> truthy meta then metadata
      else case (case meta of PStr s \<Rightarrow> repair s | _ \<Rightarrow> Some meta) of
             Some (PDict d) \<Rightarrow> update_entries rt metadata d
           | _ \<Rightarrow> metadata)"

section \<open>Schemas\<close>

definition prop_schema :: "pydict \<Rightarrow> pyval" where
  "prop_schema item =
     PDict ([(''description'', dget_or item ''description'' (PStr []))] @
            (case dget item ''enum'' of
               Some e \<Rightarrow> if truthy e then [(''enum'', e), (''type'', PStr ''string'')] else []
             | None \<Rightarrow> []))"

text \<open>A key of a schema is a string; other keys that count as true raise here.\<close>

fun schema_properties :: "pyval list \<Rightarrow> pydict \<Rightarrow> pydict res" where
  "schema_properties [] props = Inr props"
| "schema_properties (item # items) props =
     (case item of
        PDict d \<Rightarrow>
          (case dget_or d ''key'' PNone of
             PStr k \<Rightarrow> schema_properties items (if k = [] then props else dset k (prop_schema d) props)
           | v \<Rightarrow> if truthy v then Inl (type_err ''key'') else schema_properties items props)
      | v \<Rightarrow> Inl (attr_err v ''get''))"

definition metadata_schema :: "pyval \<Rightarrow> pydict res" where
  "metadata_schema metadata =
     (if \<not> truthy metadata then Inr []
      else bindR (iter_vals metadata) (\<lambda>items.
           bindR (schema_properties items []) (\<lambda>props.
             Inr [(''type'', PStr ''object''), (''properties'', PDict props),
                  (''additionalProperties'', PBool False)])))"

definition is_json_schema :: "pydict \<Rightarrow> bool" where
  "is_json_schema obj \<longleftrightarrow>
     has_key obj ''$schema'' \<or>
     (dget_or obj ''type'' PNone = PStr ''object'' \<and> is_dict (dget_or obj ''properties'' PNone))"

definition metadata_item_ok :: "pyval \<Rightarrow> bool" where
  "metadata_item_ok item =
     (case item of
        PDict d \<Rightarrow>
          (case dget_or d ''key'' PNone of PStr k \<Rightarrow> k \<noteq> [] | _ \<Rightarrow> False) \<and>
          (case dget d ''enum'' of Some v \<Rightarrow> is_list v | None \<Rightarrow> True) \<and>
          (case dget d ''description'' of Some v \<Rightarrow> is_str v | None \<Rightarrow> True) \<and>
          (case dget d ''descriptions'' of Some v \<Rightarrow> is_str v | None \<Rightarrow> True)
      | _ \<Rightarrow> False)"

definition is_metadata_list :: "pyval list \<Rightarrow> bool" where
  "is_metadata_list xs \<longleftrightarrow> xs \<noteq> [] \<and> list_all metadata_item_ok xs"

definition normalised_item :: "pyval \<Rightarrow> pyval" where
  "normalised_item item =
     (case item of
        PDict d \<Rightarrow>
          PDict ([(''key'', dget_or d ''key'' PNone),
                  (''description'', dget_or d ''description'' (dget_or d ''descriptions'' (PStr [])))] @
                 (case dget d ''enum'' of Some e \<Rightarrow> [(''enum'', e)] | None \<Rightarrow> []))
      | _ \<Rightarrow> item)"

definition turn2jsonschema :: "pyval \<Rightarrow> pydict res" where
  "turn2jsonschema obj =
     (case obj of
        PDict d \<Rightarrow> Inr (if is_json_schema d then d else [])
      | PList xs \<Rightarrow>
          (if is_metadata_list xs then metadata_schema (PList (map normalised_item xs)) else Inr [])
      | _ \<Rightarrow> Inr [])"

end
