(* ===== verification/MetadataSpec.thy ===== *)
theory MetadataSpec
  imports Metadata
begin

text \<open>
  How metadata filters combine, and that merging metadata into a document twice is merging it
  once.
\<close>

section \<open>Combining filters\<close>

lemma meta_loop_or:
  assumes "logic \<noteq> PStr ''and''" and "\<And>f. f \<in> set fs \<Longrightarrow> filter_ids rt ms f = Inr (ids f)"
  shows "\<exists>r. meta_loop rt ms logic ds fs = Inr r \<and> set r = set ds \<union> (\<Union>f\<in>set fs. set (ids f))"
  using assms(2)
proof (induction fs arbitrary: ds)
  case (Cons f fs)
  have f: "filter_ids rt ms f = Inr (ids f)" using Cons.prems by simp
  show ?case
  proof (cases "ds = []")
    case True
    with Cons.IH [of "remdups (ids f)"] Cons.prems f show ?thesis by auto
  next
    case False
    with Cons.IH [of "remdups (ds @ ids f)"] Cons.prems f assms(1) show ?thesis by auto
  qed
qed simp

text \<open>With any logic but \<open>and\<close> a filter list finds exactly the documents that some filter
  finds.\<close>

theorem meta_filter_or:
  assumes "logic \<noteq> PStr ''and''" and "\<And>f. f \<in> set fs \<Longrightarrow> filter_ids rt ms f = Inr (ids f)"
  shows "\<exists>r. meta_filter rt ms fs logic = Inr r \<and> set r = (\<Union>f\<in>set fs. set (ids f))"
  using meta_loop_or [OF assms(1), of fs rt ms ids "[]"] assms(2) by (simp add: meta_filter_def)

definition demo_metas :: metas where
  "demo_metas = [(''lang'', [(PStr ''en'', [''d1'', ''d2'']), (PStr ''de'', [''d3''])]),
                 (''kind'', [(PStr ''faq'', [''d2'', ''d3''])])]"

definition demo_filter :: "string \<Rightarrow> string \<Rightarrow> pyval" where
  "demo_filter k v = PDict [(''key'', PStr k), (''op'', PStr ''contains''), (''value'', PStr v)]"

lemma demo_filter_ids:
  "filter_ids plain_rt demo_metas (demo_filter ''lang'' ''en'') = Inr [''d1'', ''d2'']"
  "filter_ids plain_rt demo_metas (demo_filter ''lang'' ''fr'') = Inr []"
  "filter_ids plain_rt demo_metas (demo_filter ''kind'' ''faq'') = Inr [''d2'', ''d3'']"
  by code_simp+

definition demo_ids :: "pyval \<Rightarrow> string list" where
  "demo_ids f = (if f = demo_filter ''lang'' ''en'' then [''d1'', ''d2'']
     else if f = demo_filter ''kind'' ''faq'' then [''d2'', ''d3''] else [])"

lemma demo_ids_simps:
  "demo_ids (demo_filter ''lang'' ''en'') = [''d1'', ''d2'']"
  "demo_ids (demo_filter ''lang'' ''fr'') = []"
  "demo_ids (demo_filter ''kind'' ''faq'') = [''d2'', ''d3'']"
  by (simp_all add: demo_ids_def demo_filter_def)

theorem meta_filter_or_witness:
  "\<exists>r. meta_filter plain_rt demo_metas [demo_filter ''lang'' ''en'', demo_filter ''kind'' ''faq''] (PStr ''or'') = Inr r \<and>
     set r = {''d1'', ''d2'', ''d3''}"
proof -
  have "\<exists>r. meta_filter plain_rt demo_metas [demo_filter ''lang'' ''en'', demo_filter ''kind'' ''faq''] (PStr ''or'') = Inr r \<and>
     set r = (\<Union>f\<in>set [demo_filter ''lang'' ''en'', demo_filter ''kind'' ''faq'']. set (demo_ids f))"
    by (rule meta_filter_or) (auto simp: demo_filter_ids demo_ids_simps)
  then show ?thesis by (auto simp: demo_ids_simps)
qed

lemma meta_loop_and:
  assumes "\<And>f. f \<in> set fs \<Longrightarrow> filter_ids rt ms f = Inr (ids f)" and "ds \<noteq> []"
  shows "\<exists>r. meta_loop rt ms (PStr ''and'') ds fs = Inr r \<and> set r = set ds \<inter> (\<Inter>f\<in>set fs. set (ids f))"
  using assms
proof (induction fs arbitrary: ds)
  case (Cons f fs)
  have f: "filter_ids rt ms f = Inr (ids f)" using Cons.prems by simp
  let ?d = "filter (\<lambda>i. i \<in> set (ids f)) ds"
  show ?case
  proof (cases "?d = []")
    case True
    then have "set ds \<inter> set (ids f) = {}" by (auto simp: filter_empty_conv)
    with True Cons.prems(2) f show ?thesis by auto
  next
    case False
    have "\<exists>r. meta_loop rt ms (PStr ''and'') ?d fs = Inr r \<and> set r = set ?d \<inter> (\<Inter>f\<in>set fs. set (ids f))"
      by (rule Cons.IH [OF _ False]) (simp add: Cons.prems)
    with False Cons.prems(2) f show ?thesis by auto
  qed
qed simp

text \<open>With logic \<open>and\<close> the filters find the documents that all of them find, provided the first
  one finds something; a first filter that finds nothing is forgotten, and the others alone decide.\<close>

theorem meta_filter_and:
  assumes "\<And>g. g \<in> set (f # fs) \<Longrightarrow> filter_ids rt ms g = Inr (ids g)"
  shows "if ids f = [] then meta_filter rt ms (f # fs) (PStr ''and'') = meta_filter rt ms fs (PStr ''and'')
     else \<exists>r. meta_filter rt ms (f # fs) (PStr ''and'') = Inr r \<and> set r = (\<Inter>g\<in>set (f # fs). set (ids g))"
proof (cases "ids f = []")
  case True
  with assms show ?thesis by (simp add: meta_filter_def)
next
  case False
  have "\<exists>r. meta_loop rt ms (PStr ''and'') (remdups (ids f)) fs = Inr r \<and>
      set r = set (remdups (ids f)) \<inter> (\<Inter>g\<in>set fs. set (ids g))"
    by (rule meta_loop_and) (use assms False in auto)
  with assms False show ?thesis by (simp add: meta_filter_def)
qed

theorem meta_filter_and_witness:
  "meta_filter plain_rt demo_metas [demo_filter ''lang'' ''fr'', demo_filter ''kind'' ''faq''] (PStr ''and'') =
     meta_filter plain_rt demo_metas [demo_filter ''kind'' ''faq''] (PStr ''and'')"
proof -
  have "if demo_ids (demo_filter ''lang'' ''fr'') = []
    then meta_filter plain_rt demo_metas [demo_filter ''lang'' ''fr'', demo_filter ''kind'' ''faq''] (PStr ''and'') =
         meta_filter plain_rt demo_metas [demo_filter ''kind'' ''faq''] (PStr ''and'')
    else \<exists>r. meta_filter plain_rt demo_metas [demo_filter ''lang'' ''fr'', demo_filter ''kind'' ''faq''] (PStr ''and'') = Inr r \<and>
         set r = (\<Inter>g\<in>set [demo_filter ''lang'' ''fr'', demo_filter ''kind'' ''faq'']. set (demo_ids g))"
    by (rule meta_filter_and) (auto simp: demo_filter_ids demo_ids_simps)
  then show ?thesis by (simp add: demo_ids_simps)
qed

section \<open>Merging metadata\<close>

lemma dset_same: "dget d k = Some v \<Longrightarrow> dset k v d = d"
  by (induction d) (auto split: if_splits)

lemma dedupe_append_seen:
  "py_str rt ` set ys \<subseteq> set seen \<union> py_str rt ` set xs \<Longrightarrow> dedupe rt seen (xs @ ys) = dedupe rt seen xs"
proof (induction xs arbitrary: seen)
  case Nil
  then show ?case by (induction ys) auto
next
  case (Cons x xs)
  show ?case
  proof (cases "py_str rt x \<in> set seen")
    case True
    with Cons.prems have "py_str rt ` set ys \<subseteq> set seen \<union> py_str rt ` set xs" by auto
    with Cons.IH True show ?thesis by simp
  next
    case False
    have "py_str rt ` set ys \<subseteq> set (py_str rt x # seen) \<union> py_str rt ` set xs"
      using Cons.prems by auto
    from Cons.IH [OF this] False show ?thesis by simp
  qed
qed

lemma dedupe_strs: "py_str rt ` set (dedupe rt seen xs) \<union> set seen = py_str rt ` set xs \<union> set seen"
proof (induction xs arbitrary: seen)
  case (Cons x xs)
  show ?case using Cons.IH [of seen] Cons.IH [of "py_str rt x # seen"] by auto
qed simp

lemma dedupe_again: "set seen' \<subseteq> set seen \<Longrightarrow> dedupe rt seen' (dedupe rt seen xs) = dedupe rt seen xs"
proof (induction xs arbitrary: seen seen')
  case (Cons x xs)
  have "set (py_str rt x # seen') \<subseteq> set (py_str rt x # seen)" using Cons.prems by auto
  from Cons.IH [OF this] Cons.IH [OF Cons.prems] Cons.prems show ?case by auto
qed simp

lemma dedupe_list_again: "dedupe_list rt (dedupe_list rt xs) = dedupe_list rt xs"
  by (simp add: dedupe_list_def dedupe_again)

lemma dedupe_list_absorb:
  "py_str rt ` set ys \<subseteq> py_str rt ` set xs \<Longrightarrow> dedupe_list rt (dedupe_list rt xs @ ys) = dedupe_list rt xs"
  using dedupe_strs [of rt "[]" xs] dedupe_append_seen [of rt ys "[]" "dedupe_list rt xs"] dedupe_list_again [of rt xs]
  by (simp add: dedupe_list_def)

definition merged :: "pyrt \<Rightarrow> pyval option \<Rightarrow> pyval \<Rightarrow> pyval" where
  "merged rt old w = (case old of None \<Rightarrow> w | Some o' \<Rightarrow> merge_value rt o' w)"

lemma merged_again:
  assumes "meta_value rt v = Some w"
  shows "merge_value rt (merged rt old w) w = merged rt old w"
proof (cases v)
  case (PStr s)
  with assms have "w = PStr s" by (simp add: meta_value_def)
  then show ?thesis
    by (cases old) (auto simp: merged_def merge_value_def dedupe_list_absorb split: pyval.split)
next
  case (PList xs)
  with assms obtain ys where w: "w = PList (dedupe_list rt ys)"
    by (auto simp: meta_value_def Let_def split: if_splits)
  have "dedupe_list rt (dedupe_list rt ys @ dedupe_list rt ys) = dedupe_list rt ys"
    using dedupe_strs [of rt "[]" ys] by (intro dedupe_list_absorb) (auto simp: dedupe_list_def)
  then show ?thesis
    unfolding w by (cases old) (auto simp: merged_def merge_value_def intro!: dedupe_list_absorb split: pyval.split)
qed (use assms in \<open>simp_all add: meta_value_def\<close>)

lemma update_entries_dget:
  "wf_dict kvs \<Longrightarrow> dget (update_entries rt md kvs) k =
     (case dget kvs k of
        None \<Rightarrow> dget md k
      | Some v \<Rightarrow> (case meta_value rt v of None \<Rightarrow> dget md k | Some w \<Rightarrow> Some (merged rt (dget md k) w)))"
proof (induction kvs arbitrary: md)
  case (Cons kv kvs)
  obtain k' v where kv: "kv = (k', v)" by (cases kv)
  with Cons.prems have wf: "wf_dict kvs" "dget kvs k' = None"
    by (auto simp: wf_dict_def map_of_eq_None_iff)
  show ?case
    using Cons.IH [OF wf(1)] wf(2) by (auto simp: kv merged_def split: option.splits)
qed simp

lemma update_entries_same:
  "(\<And>k v w. (k, v) \<in> set kvs \<Longrightarrow> meta_value rt v = Some w \<Longrightarrow>
      \<exists>old. dget md k = Some old \<and> merge_value rt old w = old) \<Longrightarrow> update_entries rt md kvs = md"
proof (induction kvs)
  case (Cons kv kvs)
  obtain k v where kv: "kv = (k, v)" by (cases kv)
  have rest: "update_entries rt md kvs = md" using Cons by auto
  show ?case
  proof (cases "meta_value rt v")
    case None
    with rest kv show ?thesis by simp
  next
    case (Some w)
    with Cons.prems [of k v w] kv obtain old where "dget md k = Some old" "merge_value rt old w = old" by auto
    with Some rest kv show ?thesis by (simp add: dset_same)
  qed
qed simp

text \<open>Merging the same metadata into a document's metadata a second time changes nothing,
  and after the first time every usable entry is there.\<close>

theorem update_metadata_idempotent:
  assumes "wf_dict new"
  shows "update_metadata_to rt repair (update_metadata_to rt repair md (PDict new)) (PDict new) =
      update_metadata_to rt repair md (PDict new) \<and>
    (\<forall>k v w. dget new k = Some v \<longrightarrow> meta_value rt v = Some w \<longrightarrow>
       dget (update_metadata_to rt repair md (PDict new)) k = Some (merged rt (dget md k) w))"
proof (cases "new = []")
  case False
  let ?m = "update_entries rt md new"
  have "update_entries rt ?m new = ?m"
  proof (rule update_entries_same)
    fix k v w assume kv: "(k, v) \<in> set new" and w: "meta_value rt v = Some w"
    from kv assms have "dget new k = Some v" by (simp add: wf_dict_def)
    with w have "dget ?m k = Some (merged rt (dget md k) w)"
      by (simp add: update_entries_dget [OF assms])
    with merged_again [OF w] show "\<exists>old. dget ?m k = Some old \<and> merge_value rt old w = old" by blast
  qed
  with False show ?thesis
    by (auto simp: update_metadata_to_def update_entries_dget [OF assms])
qed (simp add: update_metadata_to_def)

theorem update_metadata_idempotent_witness:
  "update_metadata_to plain_rt (\<lambda>_. None)
      (update_metadata_to plain_rt (\<lambda>_. None) [(''tag'', PList [PStr ''a''])] (PDict [(''tag'', PStr ''b'')]))
      (PDict [(''tag'', PStr ''b'')]) = [(''tag'', PList [PStr ''a'', PStr ''b''])]"
proof -
  have wf: "wf_dict [(''tag'', PStr ''b'')]" by (simp add: wf_dict_def)
  have "update_metadata_to plain_rt (\<lambda>_. None) [(''tag'', PList [PStr ''a''])] (PDict [(''tag'', PStr ''b'')]) =
      [(''tag'', PList [PStr ''a'', PStr ''b''])]"
    by (simp add: update_metadata_to_def meta_value_def merge_value_def dedupe_list_def)
  with update_metadata_idempotent [OF wf, of plain_rt "\<lambda>_. None" "[(''tag'', PList [PStr ''a''])]"]
  show ?thesis by simp
qed

end
