(* ===== verification/DataOpsSpec.thy ===== *)
theory DataOpsSpec
  imports DataOps "HOL-Library.Multiset"
begin

text \<open>
  What the list and dictionary components compute: removal of duplicates, sorting, combining
  dictionaries and splitting strings.
\<close>

section \<open>Lists\<close>

lemma dedup_subseq: "subseq (lo_dedup seen xs) xs"
  by (induction xs arbitrary: seen) auto

lemma dedup_unseen: "list_all (\<lambda>y. \<not> py_in (hashable y) seen) (lo_dedup seen xs)"
proof (induction xs arbitrary: seen)
  case (Cons x xs)
  have "list_all (\<lambda>y. \<not> py_in (hashable y) (hashable x # seen)) (lo_dedup (hashable x # seen) xs)"
    by (rule Cons.IH)
  then have "list_all (\<lambda>y. \<not> py_in (hashable y) seen) (lo_dedup (hashable x # seen) xs)"
    by (auto simp: list_all_iff py_in_def)
  with Cons.IH [of seen] show ?case by simp
qed simp

lemma dedup_pairwise:
  "sorted_wrt (\<lambda>a b. \<not> py_eq (hashable b) (hashable a)) (lo_dedup seen xs)"
proof (induction xs arbitrary: seen)
  case (Cons x xs)
  have "list_all (\<lambda>y. \<not> py_eq (hashable y) (hashable x)) (lo_dedup (hashable x # seen) xs)"
    using dedup_unseen [of "hashable x # seen" xs] by (auto simp: list_all_iff py_in_def)
  with Cons.IH show ?case by (auto simp: list_all_iff)
qed simp

lemma dedup_covers:
  "x \<in> set xs \<Longrightarrow> x \<in> set (lo_dedup seen xs) \<or> py_in (hashable x) seen \<or>
     (\<exists>y\<in>set (lo_dedup seen xs). py_eq (hashable x) (hashable y))"
proof (induction xs arbitrary: seen)
  case (Cons y ys)
  show ?case
  proof (cases "x = y")
    case False
    with Cons.prems have "x \<in> set ys" by simp
    from Cons.IH [OF this, of seen] Cons.IH [OF this, of "hashable y # seen"] show ?thesis
      by (auto simp: py_in_def)
  qed (use Cons in auto)
qed simp

text \<open>Dropping duplicates keeps a subsequence of the input in which no element is a duplicate
  of an earlier one, and every input element is kept or has an equal one kept.\<close>

theorem drop_duplicates_spec:
  "subseq (lo_dedup [] xs) xs \<and>
   sorted_wrt (\<lambda>a b. \<not> py_eq (hashable b) (hashable a)) (lo_dedup [] xs) \<and>
   list_all (\<lambda>x. list_ex (\<lambda>y. x = y \<or> py_eq (hashable x) (hashable y)) (lo_dedup [] xs)) xs"
  using dedup_subseq dedup_pairwise dedup_covers [of _ xs "[]"]
  by (fastforce simp: list_all_iff list_ex_iff py_in_def)

lemma insert_stable_insort: "insert_stable (\<lambda>a b. f a < f b) x ys = insort_key f x ys"
  for f :: "'a \<Rightarrow> 'b::linorder"
  by (induction ys) (auto simp: not_le)

lemma sort_stable_sort_key: "sort_stable (\<lambda>a b. f a < f b) xs = sort_key f xs"
  for f :: "'a \<Rightarrow> 'b::linorder"
  by (induction xs) (auto simp: insert_stable_insort)

lemma sort_stable_cong:
  "(\<And>a b. a \<in> set xs \<Longrightarrow> b \<in> set xs \<Longrightarrow> lt a b = lt' a b) \<Longrightarrow> sort_stable lt xs = sort_stable lt' xs"
proof (induction xs)
  case (Cons x xs)
  have set: "set (insert_stable lt' y ys) = insert y (set ys)" for y ys
    by (induction ys) auto
  have "set (sort_stable lt' ys) = set ys" for ys
    by (induction ys) (auto simp: set)
  moreover have "insert_stable lt x ys = insert_stable lt' x ys" if "set ys \<subseteq> set xs" for ys
    using that by (induction ys) (auto simp: Cons.prems)
  ultimately show ?case using Cons by simp
qed simp

definition num_of :: "pyval \<Rightarrow> rat" where
  "num_of v = (case num_val v of Some q \<Rightarrow> q | None \<Rightarrow> 0)"

lemma is_num_val: "is_num v \<Longrightarrow> num_val v = Some (num_of v)"
  by (cases v) (auto simp: num_of_def)

lemma val_less_num: "is_num a \<Longrightarrow> is_num b \<Longrightarrow> val_less a b \<longleftrightarrow> num_of a < num_of b"
  by (simp add: val_less_def py_cmp_num [OF is_num_val is_num_val])

lemma comparable_nums: "list_all is_num xs \<Longrightarrow> comparable (\<lambda>a b. py_cmp LT (id a) (id b)) xs"
  by (induction xs) (auto simp: list_all_iff py_cmp_num [OF is_num_val is_num_val])

text \<open>Sorting a list of numbers gives a permutation of it in ascending (or, for \<open>desc\<close>, descending)
  order, and equal numbers keep the order they had.\<close>

theorem sort_numbers:
  assumes "list_all is_num xs"
  shows "\<exists>ys. lo_sort m xs = Inr ys \<and> mset ys = mset xs \<and>
     sorted_wrt (\<lambda>a b. if m = PStr ''desc'' then num_of b \<le> num_of a else num_of a \<le> num_of b) ys \<and>
     (\<forall>q. filter (\<lambda>v. num_of v = q) ys = filter (\<lambda>v. num_of v = q) xs)"
proof (cases "xs = []")
  case False
  with assms have nd: "\<not> is_dict (hd xs)" by (cases xs; cases "hd xs") auto
  let ?rev = "m = PStr ''desc''"
  let ?f = "\<lambda>v. if ?rev then - num_of v else num_of v"
  let ?lt = "\<lambda>a b. if ?rev then val_less (id b) (id a) else val_less (id a) (id b)"
  have rev: "py_or m (PStr ''asc'') = PStr ''desc'' \<longleftrightarrow> ?rev" by (auto simp: py_or_def)
  have "sort_stable ?lt xs = sort_stable (\<lambda>a b. ?f a < ?f b) xs"
    by (rule sort_stable_cong) (use assms in \<open>auto simp: list_all_iff val_less_num\<close>)
  also have "\<dots> = sort_key ?f xs" by (rule sort_stable_sort_key)
  finally have "lo_sort m xs = Inr (sort_key ?f xs)"
    using False nd comparable_nums [OF assms] by (simp add: lo_sort_def Let_def sorted_by_def rev)
  moreover have "sorted_wrt (\<lambda>a b. ?f a \<le> ?f b) (sort_key ?f xs)"
    using sorted_sort_key [of ?f xs] by (simp add: sorted_map)
  then have "sorted_wrt (\<lambda>a b. if ?rev then num_of b \<le> num_of a else num_of a \<le> num_of b) (sort_key ?f xs)"
    by (rule sorted_wrt_mono_rel [rotated]) (simp split: if_splits)
  moreover have "filter (\<lambda>v. num_of v = q) (sort_key ?f xs) = filter (\<lambda>v. num_of v = q) xs" for q
    using sort_key_stable [of ?f "if ?rev then - q else q" xs] by (simp split: if_splits)
  ultimately show ?thesis by auto
qed (simp add: lo_sort_def)

theorem sort_numbers_witness:
  "\<exists>ys. lo_sort (PStr ''desc'') [PInt 1, PBool True, PInt 3] = Inr ys \<and>
     mset ys = mset [PInt 1, PBool True, PInt 3]"
  using sort_numbers [of "[PInt 1, PBool True, PInt 3]" "PStr ''desc''"] by auto

section \<open>Combining dictionaries\<close>

definition as_list :: "pyval \<Rightarrow> pyval list" where
  "as_list v = (case v of PList xs \<Rightarrow> xs | _ \<Rightarrow> [v])"

definition contributions :: "string \<Rightarrow> pydict list \<Rightarrow> pyval list" where
  "contributions k objs = concat (map (\<lambda>d. case dget d k of None \<Rightarrow> [] | Some v \<Rightarrow> [v]) objs)"

definition extend_value :: "pyval option \<Rightarrow> pyval list \<Rightarrow> pyval option" where
  "extend_value old vs =
     (case old of
        None \<Rightarrow> (case vs of [] \<Rightarrow> None | [v] \<Rightarrow> Some v | _ \<Rightarrow> Some (PList (concat (map as_list vs))))
      | Some w \<Rightarrow> (if vs = [] then Some w else Some (PList (as_list w @ concat (map as_list vs)))))"

lemma combine_value_list: "combine_value old v = PList (as_list old @ as_list v)"
  by (cases old; cases v) (simp_all add: combine_value_def as_list_def)

lemma combine_obj_dget:
  "wf_dict d \<Longrightarrow> dget (combine_obj r d) k =
     (case dget d k of None \<Rightarrow> dget r k | Some v \<Rightarrow> extend_value (dget r k) [v])"
proof (induction d arbitrary: r)
  case (Cons kv d)
  obtain k' v where kv: "kv = (k', v)" by (cases kv)
  with Cons.prems have "wf_dict d" "dget d k' = None" by (auto simp: wf_dict_def map_of_eq_None_iff)
  with Cons.IH show ?case
    by (auto simp: kv extend_value_def combine_value_list split: option.splits)
qed simp

lemma extend_value_append:
  "extend_value (extend_value old vs) ws = extend_value old (vs @ ws)"
  by (cases old; cases vs rule: remdups_adj.cases; cases ws rule: remdups_adj.cases)
    (auto simp: extend_value_def as_list_def split: list.splits)

lemma combine_fold_dget:
  "list_all wf_dict objs \<Longrightarrow>
     dget (foldl combine_obj r objs) k = extend_value (dget r k) (contributions k objs)"
proof (induction objs arbitrary: r)
  case Nil
  then show ?case by (simp add: contributions_def extend_value_def split: option.split)
next
  case (Cons d objs)
  have "dget (combine_obj r d) k = extend_value (dget r k) (case dget d k of None \<Rightarrow> [] | Some v \<Rightarrow> [v])"
    using Cons.prems by (simp add: combine_obj_dget) (simp add: extend_value_def split: option.split)
  with Cons show ?case
    by (simp add: extend_value_append) (simp add: contributions_def)
qed

text \<open>Combining dictionaries gives, for a key of one of them, its value; for a key of several, the
  list of their values in order, with the elements of list values spliced in.\<close>

theorem combine_spec:
  assumes "list_all wf_dict objs"
  shows "dget (do_combine objs) k =
     (case contributions k objs of
        [] \<Rightarrow> None
      | [v] \<Rightarrow> Some v
      | vs \<Rightarrow> Some (PList (concat (map as_list vs))))"
  using combine_fold_dget [OF assms, of "[]" k]
  by (simp add: do_combine_def extend_value_def split: list.split)

theorem combine_spec_witness:
  "dget (do_combine [[(''a'', PInt 1)], [(''a'', PList [PInt 2, PInt 3])], [(''b'', PNone)]]) ''a'' =
     Some (PList [PInt 1, PInt 2, PInt 3])"
  using combine_spec [of "[[(''a'', PInt 1)], [(''a'', PList [PInt 2, PInt 3])], [(''b'', PNone)]]" "''a''"]
  by (simp add: wf_dict_def contributions_def as_list_def)

section \<open>Splitting strings\<close>

lemma starts_with_drop: "starts_with s d \<Longrightarrow> d @ drop (length d) s = s"
  by (auto simp: starts_with_def prefix_def)

lemma split_delims_ne: "split_delims ds must s cur \<noteq> []"
proof (induction ds must s cur rule: split_delims.induct)
  case (1 ds must s cur)
  then show ?case by (subst split_delims.simps) (auto split: option.split list.split)
qed

lemma join_Cons: "ws \<noteq> [] \<Longrightarrow> join d (w # ws) = w @ d @ join d ws"
  by (cases ws) auto

text \<open>The pieces of a string split at one delimiter, joined with the delimiter, are the string:
  splitting loses no character.\<close>

theorem split_joins_back:
  assumes "d \<noteq> []"
  shows "join d (split_delims [d] must s cur) = cur @ s"
  using assms
proof (induction "[d]" must s cur rule: split_delims.induct)
  case (1 must s cur)
  show ?case
  proof (cases "starts_with s d")
    case True
    then have f: "find (\<lambda>e. starts_with s e \<and> \<not> (must \<and> e = [])) [d] = Some d" using 1 by simp
    have "join d (split_delims [d] (d = []) (drop (length d) s) []) = drop (length d) s"
      using "1.hyps"(2) [OF f] 1 by simp
    with f True show ?thesis
      by (subst split_delims.simps) (simp add: join_Cons split_delims_ne starts_with_drop)
  next
    case False
    then have f: "find (\<lambda>e. starts_with s e \<and> \<not> (must \<and> e = [])) [d] = None" by simp
    show ?thesis
    proof (cases s)
      case Nil
      with f show ?thesis by (subst split_delims.simps) simp
    next
      case (Cons c cs)
      with f "1.hyps"(1) [OF f Cons] 1 show ?thesis by (subst split_delims.simps) simp
    qed
  qed
qed

theorem split_joins_back_witness:
  "join '', '' (split_delims ['', ''] False ''a, b, c'' []) = ''a, b, c''"
  using split_joins_back [of "'', ''" False "''a, b, c''" "[]"] by simp

end
