(* ===== verification/DocTasks.thy ===== *)
theory DocTasks
  imports PyValue
begin

text \<open>
  The document task queue of RAGFlow (\<^verbatim>\<open>ragflow/api/db/services/task_service.py\<close>): the table of
  parsing tasks, the splitting of a document into tasks, the reuse of chunks of earlier tasks, the
  progress reports of the workers and the hand-out of a task with its retry limit; and the summary of
  the tasks in the document (\<open>_sync_progress\<close> in \<^verbatim>\<open>document_service.py\<close>).  Times are numbers, the
  printed time, the random initial progress, the fresh ids, the hash and the page and row counts of a
  file are parameters.  The parts of the parser configuration that the splitting reads are typed: 0 and
  the empty list stand for a missing entry.
\<close>

section \<open>State\<close>

record dtask =
  dt_id :: string
  dt_doc :: string
  dt_from :: int
  dt_to :: int
  dt_type :: string
  dt_priority :: int
  dt_begin :: "int option"
  dt_duration :: int
  dt_progress :: rat
  dt_msg :: string
  dt_retry :: int
  dt_digest :: string
  dt_chunks :: string
  dt_created :: int

record docrow =
  dr_id :: string
  dr_run :: string
  dr_progress :: rat
  dr_msg :: string
  dr_chunk_num :: int

record parse_conf =
  pc_layout :: string
  pc_page_size :: int
  pc_pages :: "(int \<times> int) list"
  pc_toc :: bool

record docinfo =
  di_id :: string
  di_type :: string
  di_parser :: string
  di_conf :: parse_conf

text \<open>The task table, the documents, the ids deleted from the document store, the Redis queue and keys\<close>

record qstate =
  q_tasks :: "dtask list"
  q_docs :: "docrow list"
  q_deleted :: "string list"
  q_queue :: "dtask list"
  q_keys :: "string list"

record qenv =
  q_rt :: pyrt
  q_now :: int
  q_time :: string
  q_random :: rat
  fresh_id :: "nat \<Rightarrow> string"
  hash64 :: "string \<Rightarrow> string"
  pdf_pages :: "int option"
  row_count :: "int option"
  joined :: "dtask \<Rightarrow> bool"
  chunking_config :: "pydict option"
  redis_ok :: "dtask \<Rightarrow> bool"

type_synonym 'a qmeth = "(qstate, 'a) meth"

definition RUNNING :: string where "RUNNING = ''1''"
definition CANCEL :: string where "CANCEL = ''2''"
definition DONE :: string where "DONE = ''3''"
definition FAIL :: string where "FAIL = ''4''"

definition upd_tasks :: "(dtask \<Rightarrow> bool) \<Rightarrow> (dtask \<Rightarrow> dtask) \<Rightarrow> qstate \<Rightarrow> qstate" where
  "upd_tasks P f s = s\<lparr>q_tasks := map (\<lambda>t. if P t then f t else t) (q_tasks s)\<rparr>"

definition upd_doc :: "string \<Rightarrow> (docrow \<Rightarrow> docrow) \<Rightarrow> qstate \<Rightarrow> qstate" where
  "upd_doc i f s = s\<lparr>q_docs := map (\<lambda>d. if dr_id d = i then f d else d) (q_docs s)\<rparr>"

section \<open>Splitting a document\<close>

text \<open>\<open>range(s, e, step)\<close>\<close>

definition py_range :: "int \<Rightarrow> int \<Rightarrow> int \<Rightarrow> int list res" where
  "py_range s e k =
     (if k = 0 then Inl (Exc ValueErr ''range() arg 3 must not be zero'')
      else let n = (if 0 < k then (e - s + k - 1) div k else (s - e - k - 1) div (- k))
           in Inr (map (\<lambda>i. s + int i * k) [0..<nat n]))"

text \<open>A span of pages or rows\<close>

type_synonym span = "int \<times> int"

definition or_default :: "int \<Rightarrow> int \<Rightarrow> int" where
  "or_default n d = (if n = 0 then d else n)"

definition page_size_of :: "docinfo \<Rightarrow> int" where
  "page_size_of d =
     (if di_parser d \<in> {''one'', ''knowledge_graph''} \<or> pc_layout (di_conf d) \<noteq> ''DeepDOC'' \<or> pc_toc (di_conf d)
      then 10 ^ 9
      else or_default (pc_page_size (di_conf d)) (if di_parser d = ''paper'' then 22 else 12))"

definition range_spans :: "int \<Rightarrow> int \<Rightarrow> int \<times> int \<Rightarrow> span list res" where
  "range_spans psize pages se =
     (let s = max 0 (fst se - 1); e = min (snd se - 1) pages
      in bindR (py_range s e psize) (\<lambda>ps. Inr (map (\<lambda>p. (p, min (p + psize) e)) ps)))"

definition pdf_spans :: "docinfo \<Rightarrow> int option \<Rightarrow> span list res" where
  "pdf_spans d npages =
     (let pages = (case npages of None \<Rightarrow> 0 | Some n \<Rightarrow> n);
          ranges = (if pc_pages (di_conf d) = [] then [(1, 10 ^ 5)] else pc_pages (di_conf d))
      in bindR (mapR (range_spans (page_size_of d) pages) ranges) (\<lambda>ss. Inr (concat ss)))"

definition table_spans :: "int option \<Rightarrow> span list res" where
  "table_spans rn =
     (case rn of
        None \<Rightarrow> Inl (type_err ''NoneType object cannot be interpreted as an integer'')
      | Some n \<Rightarrow> bindR (py_range 0 n 3000) (\<lambda>rs. Inr (map (\<lambda>i. (i, min (i + 3000) n)) rs)))"

definition spans_of :: "qenv \<Rightarrow> docinfo \<Rightarrow> span list res" where
  "spans_of env d =
     (if di_type d = ''pdf'' then pdf_spans d (pdf_pages env)
      else if di_parser d = ''table'' then table_spans (row_count env)
      else Inr [(0, 100000000)])"

definition new_task :: "qenv \<Rightarrow> docinfo \<Rightarrow> nat \<times> span \<Rightarrow> dtask" where
  "new_task env d ns =
     \<lparr> dt_id = fresh_id env (fst ns), dt_doc = di_id d, dt_from = fst (snd ns), dt_to = snd (snd ns),
       dt_type = [], dt_priority = 0, dt_begin = Some (q_now env), dt_duration = 0, dt_progress = 0,
       dt_msg = [], dt_retry = 0, dt_digest = [], dt_chunks = [], dt_created = q_now env \<rparr>"

section \<open>Digests and the reuse of chunks\<close>

text \<open>The configuration that is hashed; its \<open>parser_config\<close> is a dictionary.\<close>

definition hashed_config :: "pydict \<Rightarrow> pydict" where
  "hashed_config cfg =
     map (\<lambda>(k, v). (k, if k = ''parser_config''
                         then (case v of PDict d \<Rightarrow> PDict (dpop ''graphrag'' (dpop ''raptor'' d)) | _ \<Rightarrow> v)
                         else v)) cfg"

definition task_digest :: "qenv \<Rightarrow> pydict \<Rightarrow> dtask \<Rightarrow> string" where
  "task_digest env cfg t =
     hash64 env (concat (map (\<lambda>k. py_str (q_rt env) (dget_or (hashed_config cfg) k PNone)) (sort (map fst cfg))) @
       dt_doc t @ show_int (dt_from t) @ show_int (dt_to t))"

definition digest_task :: "qenv \<Rightarrow> pydict \<Rightarrow> int \<Rightarrow> dtask \<Rightarrow> dtask" where
  "digest_task env cfg prio t = t\<lparr>dt_digest := task_digest env cfg t, dt_progress := 0, dt_priority := prio\<rparr>"

text \<open>\<open>s.split()\<close>\<close>

definition words :: "string \<Rightarrow> string list" where
  "words s = filter (\<lambda>w. w \<noteq> []) (split_on CHR '' '' (map (\<lambda>c. if is_space c then CHR '' '' else c) s))"

definition reuse_msg :: "qenv \<Rightarrow> dtask \<Rightarrow> string" where
  "reuse_msg env t =
     join '' '' [q_time env,
       if 10 ^ 6 \<le> dt_to t - dt_from t then ''Page('' @ show_int (dt_from t) @ ''~'' @ show_int (dt_to t) @ ''): '' else [],
       ''Reused previous task'' @ [squote] @ ''s chunks.'']"

text \<open>The number of chunks reused, the task, and the earlier tasks; a task that gave its chunks has none left.\<close>

fun reuse_prev_task_chunks :: "qenv \<Rightarrow> dtask \<Rightarrow> dtask list \<Rightarrow> nat \<times> dtask \<times> dtask list" where
  "reuse_prev_task_chunks env t [] = (0, t, [])"
| "reuse_prev_task_chunks env t (p # ps) =
     (if dt_from p = dt_from t \<and> dt_digest p = dt_digest t
      then if dt_progress p < 1 \<or> dt_chunks p = [] then (0, t, p # ps)
           else (length (words (dt_chunks p)),
                 t\<lparr>dt_chunks := dt_chunks p, dt_progress := 1, dt_msg := reuse_msg env t\<rparr>,
                 p\<lparr>dt_chunks := []\<rparr> # ps)
      else case reuse_prev_task_chunks env t ps of (n, t', ps') \<Rightarrow> (n, t', p # ps'))"

fun reuse_all :: "qenv \<Rightarrow> dtask list \<Rightarrow> dtask list \<Rightarrow> nat \<times> dtask list \<times> dtask list" where
  "reuse_all env [] ps = (0, [], ps)"
| "reuse_all env (t # ts) ps =
     (case reuse_prev_task_chunks env t ps of
        (n, t', ps1) \<Rightarrow> (case reuse_all env ts ps1 of (m, ts', ps2) \<Rightarrow> (n + m, t' # ts', ps2)))"

section \<open>Queueing\<close>

text \<open>\<open>ORDER BY from_page ASC, create_time DESC\<close>; None when there is none\<close>

definition get_tasks :: "string \<Rightarrow> qstate \<Rightarrow> dtask list" where
  "get_tasks doc s = sort_key dt_from (sort_key (\<lambda>t. - dt_created t) (filter (\<lambda>t. dt_doc t = doc) (q_tasks s)))"

text \<open>Inserting stamps the creation times; a row whose id is taken is overwritten and keeps its creation time.\<close>

definition stamp_tasks :: "qenv \<Rightarrow> dtask list \<Rightarrow> dtask list" where
  "stamp_tasks env ts = map (\<lambda>(i, t). t\<lparr>dt_created := q_now env + int i\<rparr>) (enumerate 0 ts)"

definition put_row :: "dtask list \<Rightarrow> dtask \<Rightarrow> dtask list" where
  "put_row rows t =
     (if dt_id t \<in> dt_id ` set rows
      then map (\<lambda>r. if dt_id r = dt_id t then t\<lparr>dt_created := dt_created r\<rparr> else r) rows
      else rows @ [t])"

definition bulk_insert :: "qenv \<Rightarrow> dtask list \<Rightarrow> dtask list qmeth" where
  "bulk_insert env ts =
     (if ts = [] then raiseM IndexErr ''list index out of range''
      else seqM (modM (\<lambda>s. s\<lparr>q_tasks := foldl put_row (q_tasks s) (stamp_tasks env ts)\<rparr>))
                (retM (stamp_tasks env ts)))"

definition begin2parse :: "qenv \<Rightarrow> bool \<Rightarrow> string \<Rightarrow> qstate \<Rightarrow> qstate" where
  "begin2parse env keep_progress doc =
     upd_doc doc (\<lambda>d. let d1 = d\<lparr>dr_msg := ''Task is queued...''\<rparr>
                      in if keep_progress then d1 else d1\<lparr>dr_progress := q_random env * 1 / 100, dr_run := RUNNING\<rparr>)"

definition queue_product :: "qenv \<Rightarrow> dtask \<Rightarrow> unit qmeth" where
  "queue_product env t =
     (if redis_ok env t then modM (\<lambda>s. s\<lparr>q_queue := q_queue s @ [t]\<rparr>)
      else raiseM AssertionErr (''Can'' @ [squote] @ ''t access Redis. Please check the Redis'' @ [squote] @ '' status.''))"

text \<open>The tasks with their digests; an unknown document has no configuration to hash.\<close>

definition digest_all :: "qenv \<Rightarrow> int \<Rightarrow> dtask list \<Rightarrow> dtask list res" where
  "digest_all env prio ts =
     (if ts = [] then Inr []
      else case chunking_config env of
             None \<Rightarrow> Inl (attr_err PNone ''keys'')
           | Some cfg \<Rightarrow> Inr (map (digest_task env cfg prio) ts))"

text \<open>Replacing the earlier tasks: what is reused is kept, the other chunks are deleted.\<close>

definition replace_prev :: "qenv \<Rightarrow> docinfo \<Rightarrow> dtask list \<Rightarrow> (nat \<times> dtask list) qmeth" where
  "replace_prev env d ts =
     (\<lambda>s. let prev = get_tasks (di_id d) s
          in if prev = [] then (Inr (0, ts), s)
             else case reuse_all env ts prev of
                    (n, ts', prev') \<Rightarrow>
                      let ids = concat (map (words \<circ> dt_chunks) prev');
                          s1 = s\<lparr>q_tasks := filter (\<lambda>t. dt_doc t \<noteq> di_id d) (q_tasks s)\<rparr>
                      in if ids = [] then (Inr (n, ts'), s1)
                         else if chunking_config env = None
                         then (Inl (type_err ''NoneType object is not subscriptable''), s1)
                         else (Inr (n, ts'), s1\<lparr>q_deleted := q_deleted s1 @ ids\<rparr>))"

definition queue_tasks :: "qenv \<Rightarrow> docinfo \<Rightarrow> int \<Rightarrow> unit qmeth" where
  "queue_tasks env d prio =
     bindM (liftM (spans_of env d)) (\<lambda>spans.
     bindM (liftM (digest_all env prio (map (new_task env d) (enumerate 0 spans)))) (\<lambda>ts.
     bindM (replace_prev env d ts) (\<lambda>(ck_num, ts').
     seqM (modM (upd_doc (di_id d) (\<lambda>r. r\<lparr>dr_chunk_num := int ck_num\<rparr>)))
    (bindM (bulk_insert env ts') (\<lambda>us.
     seqM (modM (begin2parse env False (di_id d)))
          (forM (queue_product env) (filter (\<lambda>t. dt_progress t < 1) us)))))))"

definition queue_dataflow :: "qenv \<Rightarrow> string \<Rightarrow> string \<Rightarrow> int \<Rightarrow> bool \<Rightarrow> bool qmeth" where
  "queue_dataflow env tid doc prio rerun =
     (let t = \<lparr> dt_id = tid, dt_doc = doc, dt_from = 0, dt_to = 100000000,
                dt_type = (if rerun then ''dataflow_rerun'' else ''dataflow''), dt_priority = prio,
                dt_begin = Some (q_now env), dt_duration = 0, dt_progress = 0, dt_msg = [], dt_retry = 0,
                dt_digest = [], dt_chunks = [], dt_created = q_now env \<rparr>
      in seqM (if doc \<in> {''dataflow_x'', ''graph_raptor_x''} then retM ()
               else seqM (modM (\<lambda>s. s\<lparr>q_tasks := filter (\<lambda>t. dt_doc t \<noteq> doc) (q_tasks s)\<rparr>))
                         (modM (begin2parse env False doc)))
        (bindM (bulk_insert env [t]) (\<lambda>us.
           if list_all (redis_ok env) us then seqM (modM (\<lambda>s. s\<lparr>q_queue := q_queue s @ us\<rparr>)) (retM True)
           else retM False)))"

section \<open>The life of a task\<close>

definition find_task :: "string \<Rightarrow> qstate \<Rightarrow> dtask option" where
  "find_task tid s = find (\<lambda>t. dt_id t = tid) (q_tasks s)"

text \<open>Handing a task out: it is abandoned at the fourth attempt.\<close>

definition get_task :: "qenv \<Rightarrow> string \<Rightarrow> qstate \<Rightarrow> dtask option \<times> qstate" where
  "get_task env tid s =
     (case find_task tid s of
        None \<Rightarrow> (None, s)
      | Some t \<Rightarrow>
          if \<not> joined env t then (None, s)
          else let gone = (3 \<le> dt_retry t);
                   msg = (if gone then [lf] @ ''ERROR: Task is abandoned after 3 times attempts.''
                          else [lf] @ q_time env @ '' Task has been received.'');
                   prog = (if gone then - 1 else q_random env / 10)
               in (if gone then None else Some t,
                   upd_tasks (\<lambda>u. dt_id u = dt_id t)
                     (\<lambda>u. u\<lparr>dt_msg := dt_msg u @ msg, dt_progress := prog, dt_retry := dt_retry t + 1\<rparr>) s))"

definition update_chunk_ids :: "string \<Rightarrow> string \<Rightarrow> qstate \<Rightarrow> qstate" where
  "update_chunk_ids tid ids = upd_tasks (\<lambda>t. dt_id t = tid) (\<lambda>t. t\<lparr>dt_chunks := ids\<rparr>)"

definition delete_by_doc_ids :: "string list \<Rightarrow> qstate \<Rightarrow> qstate" where
  "delete_by_doc_ids docs s = s\<lparr>q_tasks := filter (\<lambda>t. dt_doc t \<notin> set docs) (q_tasks s)\<rparr>"

text \<open>The text behind the first line break that leaves at most \<open>n\<close> characters with it.\<close>

fun trim_from :: "nat \<Rightarrow> string \<Rightarrow> string option" where
  "trim_from n [] = None"
| "trim_from n (c # cs) = (if c = lf \<and> py_len (c # cs) \<le> n then Some cs else trim_from n cs)"

definition trim_header_by_lines :: "string \<Rightarrow> nat \<Rightarrow> string" where
  "trim_header_by_lines txt n =
     (if py_len txt \<le> n then txt else case trim_from n txt of Some t \<Rightarrow> t | None \<Rightarrow> txt)"

record report =
  rp_msg :: "string option"
  rp_progress :: "rat option"

definition new_progress :: "rat \<Rightarrow> rat \<Rightarrow> rat" where
  "new_progress p old = (if 1 \<le> p \<or> (old \<noteq> - 1 \<and> (p = - 1 \<or> old < p)) then p else old)"

definition update_progress :: "qenv \<Rightarrow> string \<Rightarrow> report \<Rightarrow> unit qmeth" where
  "update_progress env tid info =
     (\<lambda>s. case find_task tid s of
        None \<Rightarrow> (Inl (Exc PlainException ''TaskDoesNotExist''), s)
      | Some t \<Rightarrow>
          (case rp_msg info of
             None \<Rightarrow> (Inl (key_err ''progress_msg''), s)
           | Some m \<Rightarrow>
               let here = (\<lambda>u. dt_id u = tid);
                   s1 = (if m = [] then s
                         else upd_tasks here (\<lambda>u. u\<lparr>dt_msg := trim_header_by_lines (dt_msg t @ [lf] @ m) 3000\<rparr>) s);
                   s2 = (case rp_progress info of
                           None \<Rightarrow> s1
                         | Some p \<Rightarrow> upd_tasks here (\<lambda>u. u\<lparr>dt_progress := new_progress p (dt_progress u)\<rparr>) s1)
               in (case dt_begin t of
                     None \<Rightarrow> (Inl (type_err ''unsupported operand type(s) for -''), s2)
                   | Some b \<Rightarrow> (Inr (), upd_tasks here (\<lambda>u. u\<lparr>dt_duration := q_now env - b\<rparr>) s2))))"

text \<open>Cancelling: a key in Redis per task, asked for by the workers\<close>

definition cancel_key :: "string \<Rightarrow> string" where
  "cancel_key tid = tid @ ''-cancel''"

definition cancel_all_task_of :: "string \<Rightarrow> qstate \<Rightarrow> qstate" where
  "cancel_all_task_of doc s =
     s\<lparr>q_keys := q_keys s @ map (cancel_key \<circ> dt_id) (filter (\<lambda>t. dt_doc t = doc) (q_tasks s))\<rparr>"

definition has_canceled :: "string \<Rightarrow> qstate \<Rightarrow> bool" where
  "has_canceled tid s \<longleftrightarrow> cancel_key tid \<in> set (q_keys s)"

definition do_cancel :: "string \<Rightarrow> qstate \<Rightarrow> bool res" where
  "do_cancel tid s =
     (case find_task tid s of
        None \<Rightarrow> Inl (Exc PlainException ''TaskDoesNotExist'')
      | Some t \<Rightarrow>
          (case find (\<lambda>d. dr_id d = dt_doc t) (q_docs s) of
             None \<Rightarrow> Inl (attr_err PNone ''run'')
           | Some d \<Rightarrow> Inr (dr_run d = CANCEL \<or> dr_progress d < 0)))"

section \<open>The document's progress\<close>

text \<open>The progress, the status and whether the progress is frozen, from the tasks of a document\<close>

definition special_task :: "dtask \<Rightarrow> bool" where
  "special_task t \<longleftrightarrow> lower (dt_type t) \<in> {''raptor'', ''graphrag'', ''mindmap''}"

definition tasks_finished :: "dtask list \<Rightarrow> bool" where
  "tasks_finished ts \<longleftrightarrow> \<not> list_ex (\<lambda>t. 0 \<le> dt_progress t \<and> dt_progress t < 1) ts"

definition tasks_progress :: "(rat \<Rightarrow> rat) \<Rightarrow> dtask list \<Rightarrow> rat" where
  "tasks_progress rnd ts =
     rnd (foldl (\<lambda>a t. rnd (a + (if 0 \<le> dt_progress t then dt_progress t else 0))) 0 ts / of_nat (length ts))"

definition doc_summary :: "(rat \<Rightarrow> rat) \<Rightarrow> dtask list \<Rightarrow> rat \<times> string" where
  "doc_summary rnd ts =
     (if tasks_finished ts
      then if list_ex (\<lambda>t. dt_progress t = - 1) ts then (- 1, FAIL) else (1, DONE)
      else (tasks_progress rnd ts, RUNNING))"

definition sync_doc :: "qenv \<Rightarrow> (int \<Rightarrow> string) \<Rightarrow> dtask list \<Rightarrow> docrow \<Rightarrow> docrow" where
  "sync_doc env ahead ts d =
     (if ts = [] \<or> dr_run d = CANCEL then d
      else let (prg, st) = doc_summary (fround (q_rt env)) ts;
               frozen = (list_ex special_task ts \<and> 1 \<le> dr_progress d \<and> \<not> tasks_finished ts);
               prio = foldl max 0 (map dt_priority ts);
               msg = join [lf] (sort (filter (\<lambda>m. strip_ws m \<noteq> []) (map dt_msg ts)));
               queued = ahead prio @ '' tasks are ahead in the queue...'';
               msg' = (if msg = [] then queued
                       else if ends_with msg ''created task graphrag'' \<or> ends_with msg ''created task raptor'' \<or>
                               ends_with msg ''created task mindmap''
                       then msg @ [lf] @ queued else msg)
           in d\<lparr>dr_run := st, dr_progress := (if prg \<noteq> 0 \<and> \<not> frozen then prg else dr_progress d), dr_msg := msg'\<rparr>)"

definition sync_progress :: "qenv \<Rightarrow> (int \<Rightarrow> string) \<Rightarrow> string list \<Rightarrow> qstate \<Rightarrow> qstate" where
  "sync_progress env ahead docs s =
     foldl (\<lambda>s i. upd_doc i (sync_doc env ahead
               (sort_key dt_created (filter (\<lambda>t. dt_doc t = i) (q_tasks s)))) s) s docs"

end
