(* ===== verification/DocTasksSpec.thy ===== *)
theory DocTasksSpec
  imports DocTasks "HOL-Library.Multiset"
begin

text \<open>
  What the document task queue promises: the tasks of a document cover its pages without gap or
  overlap, no chunk of an earlier run is lost track of, a failed task stays failed until it is finished,
  a task is handed out three times at most, and the status of a document follows its tasks.
\<close>

section \<open>The pages of a document\<close>

definition pages_in :: "span \<Rightarrow> int list" where
  "pages_in sp = [fst sp..snd sp - 1]"

lemma py_range_pos:
  assumes "0 < k"
  shows "py_range s e k = Inr (map (\<lambda>i. s + int i * k) [0..<nat ((e - s + k - 1) div k)])"
  using assms by (simp add: py_range_def)

lemma pieces_cover:
  assumes "0 < (k :: int)" and "s + int n * k < e + k" and "e \<le> s + int n * k"
  shows "concat (map (\<lambda>i. [s + int i * k..min (s + int i * k + k) e - 1]) [0..<n]) = [s..e - 1]"
  using assms
proof (induction n arbitrary: e)
  case 0
  then show ?case by simp
next
  case (Suc n)
  let ?m = "s + int n * k"
  have m: "?m < e" using Suc.prems by (simp add: algebra_simps)
  have eq: "[s + int i * k..min (s + int i * k + k) e - 1] = [s + int i * k..min (s + int i * k + k) ?m - 1]"
    if "i < n" for i
  proof -
    have "int i * k + k \<le> int n * k"
    proof -
      have "(int i + 1) * k \<le> int n * k" using that Suc.prems(1) by (intro mult_right_mono) auto
      then show ?thesis by (simp add: algebra_simps)
    qed
    with m show ?thesis by simp
  qed
  have "concat (map (\<lambda>i. [s + int i * k..min (s + int i * k + k) e - 1]) [0..<n]) = [s..?m - 1]"
  proof -
    have "map (\<lambda>i. [s + int i * k..min (s + int i * k + k) e - 1]) [0..<n] =
        map (\<lambda>i. [s + int i * k..min (s + int i * k + k) ?m - 1]) [0..<n]"
      using eq by (intro map_cong) auto
    from arg_cong [OF this, of concat] show ?thesis
      by (rule trans) (use Suc.IH [of ?m] Suc.prems(1) in simp)
  qed
  moreover have "min (?m + k) e = e" using Suc.prems by (simp add: algebra_simps)
  moreover have "[s..e - 1] = [s..?m - 1] @ [?m..e - 1]"
    using m Suc.prems(1) by (intro upto_split1) auto
  ultimately show ?case by simp
qed

lemma range_spans_cover:
  assumes "0 < psize"
  shows "\<exists>sp. range_spans psize pages (a, b) = Inr sp \<and>
     concat (map pages_in sp) = [max 0 (a - 1)..min (b - 1) pages - 1] \<and>
     list_all (\<lambda>x. fst x < snd x \<and> snd x - fst x \<le> psize) sp"
proof -
  define s where "s = max 0 (a - 1)"
  define e where "e = min (b - 1) pages"
  define n where "n = nat ((e - s + psize - 1) div psize)"
  define f where "f = (\<lambda>i. s + int i * psize)"
  have r: "range_spans psize pages (a, b) = Inr (map (\<lambda>i. (f i, min (f i + psize) e)) [0..<n])"
    by (simp add: range_spans_def py_range_pos [OF assms] s_def [symmetric] e_def [symmetric] n_def f_def Let_def
        comp_def)
  show ?thesis
  proof (cases "s < e")
    case True
    have q: "int n = (e - s + psize - 1) div psize" using True assms by (simp add: n_def pos_imp_zdiv_nonneg_iff)
    have md: "(e - s + psize - 1) div psize * psize + (e - s + psize - 1) mod psize = e - s + psize - 1"
      by (rule div_mult_mod_eq)
    moreover have "0 \<le> (e - s + psize - 1) mod psize" "(e - s + psize - 1) mod psize < psize" using assms by simp_all
    ultimately have b: "s + int n * psize < e + psize" "e \<le> s + int n * psize" unfolding q by linarith+
    have "f i < e" if "i < n" for i
    proof -
      have "(int i + 1) * psize \<le> int n * psize" using that assms by (intro mult_right_mono) auto
      with b show ?thesis by (simp add: f_def algebra_simps)
    qed
    with r pieces_cover [OF assms b] assms show ?thesis
      by (auto simp: pages_in_def comp_def f_def s_def e_def list_all_iff)
  next
    case False
    then have "(e - s + psize - 1) div psize \<le> 0" using assms
      by (smt (verit) div_pos_pos_trivial div_neg_pos_less0 pos_imp_zdiv_neg_iff)
    then have "n = 0" by (simp add: n_def)
    moreover have "[s..e - 1] = []" using False by simp
    ultimately show ?thesis using r by (simp add: s_def e_def)
  qed
qed

text \<open>C27: with a positive page size the tasks of a PDF never fail to be made, each holds at least one
  page and at most the page size, and together they hold the pages of the configured ranges (or of the whole document)
  in order, each page once per range: the ranges are cut to the document and count from one.\<close>

theorem task_spans_cover:
  assumes "di_type d = ''pdf''" and "0 < page_size_of d"
  shows "\<exists>sp. spans_of env d = Inr sp \<and> list_all (\<lambda>x. fst x < snd x \<and> snd x - fst x \<le> page_size_of d) sp \<and>
     concat (map pages_in sp) =
       concat (map (\<lambda>(a, b). [max 0 (a - 1)..min (b - 1) (case pdf_pages env of None \<Rightarrow> 0 | Some n \<Rightarrow> n) - 1])
         (if pc_pages (di_conf d) = [] then [(1, 10 ^ 5)] else pc_pages (di_conf d)))"
proof -
  define n where "n = (case pdf_pages env of None \<Rightarrow> 0 | Some n \<Rightarrow> n)"
  have "\<exists>ss. mapR (range_spans (page_size_of d) n) rs = Inr ss \<and>
      list_all (\<lambda>x. fst x < snd x \<and> snd x - fst x \<le> page_size_of d) (concat ss) \<and>
      concat (map pages_in (concat ss)) = concat (map (\<lambda>(a, b). [max 0 (a - 1)..min (b - 1) n - 1]) rs)" for rs
  proof (induction rs)
    case (Cons r rs)
    then obtain ss where "mapR (range_spans (page_size_of d) n) rs = Inr ss"
      "list_all (\<lambda>x. fst x < snd x \<and> snd x - fst x \<le> page_size_of d) (concat ss)"
      "concat (map pages_in (concat ss)) = concat (map (\<lambda>(a, b). [max 0 (a - 1)..min (b - 1) n - 1]) rs)"
      by blast
    with range_spans_cover [OF assms(2), of n "fst r" "snd r"] show ?case by (cases r) auto
  qed simp
  from this [of "if pc_pages (di_conf d) = [] then [(1, 10 ^ 5)] else pc_pages (di_conf d)"] obtain ss where
    "mapR (range_spans (page_size_of d) n) (if pc_pages (di_conf d) = [] then [(1, 10 ^ 5)] else pc_pages (di_conf d)) =
       Inr ss"
    and ss: "list_all (\<lambda>x. fst x < snd x \<and> snd x - fst x \<le> page_size_of d) (concat ss)"
    "concat (map pages_in (concat ss)) = concat (map (\<lambda>(a, b). [max 0 (a - 1)..min (b - 1) n - 1])
        (if pc_pages (di_conf d) = [] then [(1, 10 ^ 5)] else pc_pages (di_conf d)))"
    by blast
  then have "spans_of env d = Inr (concat ss)"
    using assms(1) by (simp only: spans_of_def pdf_spans_def n_def Let_def simp_thms if_True bindR_simps)
  with ss show ?thesis unfolding n_def by blast
qed

definition demo_qenv :: "int option \<Rightarrow> qenv" where
  "demo_qenv pages = \<lparr> q_rt = plain_rt, q_now = 7, q_time = ''07:00:00'', q_random = 1 / 2, fresh_id = (\<lambda>n. CHR ''t'' # show_nat n),
     hash64 = id, pdf_pages = pages, row_count = None, joined = (\<lambda>_. True),
     chunking_config = Some [(''parser_id'', PStr ''naive'')], redis_ok = (\<lambda>_. True) \<rparr>"

definition demo_pdf :: docinfo where
  "demo_pdf = \<lparr> di_id = ''d'', di_type = ''pdf'', di_parser = ''naive'',
     di_conf = \<lparr> pc_layout = ''DeepDOC'', pc_page_size = 0, pc_pages = [], pc_toc = False \<rparr> \<rparr>"

theorem task_spans_cover_witness:
  "\<exists>sp. spans_of (demo_qenv (Some 30)) demo_pdf = Inr sp \<and> concat (map pages_in sp) = [0..29]"
proof -
  have "di_type demo_pdf = ''pdf''" "0 < page_size_of demo_pdf"
    by (simp_all add: demo_pdf_def page_size_of_def or_default_def)
  from task_spans_cover [OF this, of "demo_qenv (Some 30)"] show ?thesis
    by (auto simp: demo_pdf_def demo_qenv_def)
qed

section \<open>The chunks of an earlier run\<close>

definition chunks_of_tasks :: "dtask list \<Rightarrow> string list" where
  "chunks_of_tasks ts = concat (map (words \<circ> dt_chunks) ts)"

lemma chunks_of_tasks_simps [simp]:
  "chunks_of_tasks [] = []" "chunks_of_tasks (t # ts) = words (dt_chunks t) @ chunks_of_tasks ts"
  "chunks_of_tasks (ts @ us) = chunks_of_tasks ts @ chunks_of_tasks us"
  by (simp_all add: chunks_of_tasks_def)

lemma words_Nil [simp]: "words [] = []"
  by (simp add: words_def)

lemma reuse_prev_chunks:
  assumes "reuse_prev_task_chunks env t ps = (n, t', ps')" and "dt_chunks t = []"
  shows "mset (words (dt_chunks t')) + mset (chunks_of_tasks ps') = mset (chunks_of_tasks ps) \<and>
     n = length (words (dt_chunks t')) \<and> dt_id t' = dt_id t \<and> dt_doc t' = dt_doc t"
  using assms
proof (induction ps arbitrary: n t' ps')
  case (Cons p ps)
  then show ?case by (auto split: if_splits prod.splits)
qed auto

lemma reuse_all_chunks:
  assumes "reuse_all env ts ps = (n, ts', ps')" and "\<forall>t\<in>set ts. dt_chunks t = []"
  shows "mset (chunks_of_tasks ts') + mset (chunks_of_tasks ps') = mset (chunks_of_tasks ps) \<and>
     n = length (chunks_of_tasks ts') \<and> map dt_id ts' = map dt_id ts \<and> map dt_doc ts' = map dt_doc ts"
  using assms
proof (induction ts arbitrary: ps n ts' ps')
  case (Cons t ts)
  obtain a t1 ps1 where 1: "reuse_prev_task_chunks env t ps = (a, t1, ps1)" by (cases "reuse_prev_task_chunks env t ps")
  obtain b ts1 ps2 where 2: "reuse_all env ts ps1 = (b, ts1, ps2)" by (cases "reuse_all env ts ps1")
  from Cons.prems 1 2 have e: "n = a + b" "ts' = t1 # ts1" "ps' = ps2" by auto
  have "mset (words (dt_chunks t1)) + mset (chunks_of_tasks ps1) = mset (chunks_of_tasks ps)"
    "a = length (words (dt_chunks t1))" "dt_id t1 = dt_id t" "dt_doc t1 = dt_doc t"
    using reuse_prev_chunks [OF 1] Cons.prems(2) by auto
  moreover have "mset (chunks_of_tasks ts1) + mset (chunks_of_tasks ps2) = mset (chunks_of_tasks ps1)"
    "b = length (chunks_of_tasks ts1)" "map dt_id ts1 = map dt_id ts" "map dt_doc ts1 = map dt_doc ts"
    using Cons.IH [OF 2] Cons.prems(2) by auto
  ultimately show ?case by (auto simp: e ac_simps) (metis (no_types, lifting) union_assoc union_commute)
qed auto

lemma mset_chunks: "mset ts = mset us \<Longrightarrow> mset (chunks_of_tasks ts) = mset (chunks_of_tasks us)"
proof -
  have "mset (chunks_of_tasks ts) = sum_mset (image_mset (mset \<circ> words \<circ> dt_chunks) (mset ts))" for ts
    by (induction ts) auto
  then show "mset ts = mset us \<Longrightarrow> ?thesis" by simp
qed

lemma mset_get_tasks: "mset (get_tasks doc s) = mset (filter (\<lambda>t. dt_doc t = doc) (q_tasks s))"
  by (simp add: get_tasks_def)

lemma get_tasks_Nil: "get_tasks doc s = [] \<longleftrightarrow> filter (\<lambda>t. dt_doc t = doc) (q_tasks s) = []"
  using mset_get_tasks [of doc s] by (metis mset_zero_iff)

lemma replace_prev_spec:
  assumes "replace_prev env d ts s = (Inr (n, ts'), s')" and "\<forall>t\<in>set ts. dt_chunks t = []"
  shows "\<exists>dels. q_deleted s' = q_deleted s @ dels \<and> n = length (chunks_of_tasks ts') \<and>
     mset (chunks_of_tasks ts') + mset dels = mset (chunks_of_tasks (filter (\<lambda>t. dt_doc t = di_id d) (q_tasks s))) \<and>
     map dt_id ts' = map dt_id ts \<and> map dt_doc ts' = map dt_doc ts \<and>
     q_tasks s' = filter (\<lambda>t. dt_doc t \<noteq> di_id d) (q_tasks s) \<and> q_docs s' = q_docs s \<and> q_queue s' = q_queue s"
proof (cases "get_tasks (di_id d) s = []")
  case True
  then have none: "filter (\<lambda>t. dt_doc t = di_id d) (q_tasks s) = []" by (simp add: get_tasks_Nil)
  have "chunks_of_tasks ts = []" using assms(2) by (induction ts) auto
  moreover have "filter (\<lambda>t. dt_doc t \<noteq> di_id d) (q_tasks s) = q_tasks s"
    using none by (auto simp: filter_empty_conv filter_id_conv)
  ultimately show ?thesis using assms True none by (auto simp: replace_prev_def Let_def)
next
  case False
  obtain m us ps where r: "reuse_all env ts (get_tasks (di_id d) s) = (m, us, ps)"
    by (cases "reuse_all env ts (get_tasks (di_id d) s)")
  note c = reuse_all_chunks [OF r assms(2)]
  have e: "n = m" "ts' = us" "q_deleted s' = q_deleted s @ chunks_of_tasks ps"
    "q_tasks s' = filter (\<lambda>t. dt_doc t \<noteq> di_id d) (q_tasks s)" "q_docs s' = q_docs s" "q_queue s' = q_queue s"
    using assms(1) False r
    by (auto simp: replace_prev_def Let_def chunks_of_tasks_def split: if_splits)
  show ?thesis using c e mset_chunks [OF mset_get_tasks, of "di_id d" s] by auto
qed

lemma queue_product_ok:
  "redis_ok env t \<Longrightarrow> queue_product env t s = (Inr (), s\<lparr>q_queue := q_queue s @ [t]\<rparr>)"
  by (simp add: queue_product_def)

lemma queue_product_fails:
  "\<not> redis_ok env t \<Longrightarrow>
     queue_product env t s = (Inl (Exc AssertionErr (''Can'' @ [squote] @ ''t access Redis. Please check the Redis'' @ [squote] @ '' status.'')), s)"
  by (simp add: queue_product_def)

lemma forM_queue:
  assumes "forM (queue_product env) ts s = (Inr (), s')"
  shows "q_queue s' = q_queue s @ ts \<and> q_tasks s' = q_tasks s \<and> q_deleted s' = q_deleted s \<and> q_docs s' = q_docs s"
  using assms
proof (induction ts arbitrary: s)
  case (Cons t ts)
  show ?case
  proof (cases "redis_ok env t")
    case True
    with Cons.prems have "forM (queue_product env) ts (s\<lparr>q_queue := q_queue s @ [t]\<rparr>) = (Inr (), s')"
      by (simp add: queue_product_ok seqM_def bindM_def)
    from Cons.IH [OF this] show ?thesis by simp
  next
    case False
    with Cons.prems show ?thesis by (simp add: queue_product_fails seqM_def bindM_def)
  qed
qed simp

lemma upd_doc_frame [simp]:
  "q_tasks (upd_doc i f s) = q_tasks s" "q_deleted (upd_doc i f s) = q_deleted s" "q_queue (upd_doc i f s) = q_queue s"
  by (simp_all add: upd_doc_def)

lemma digest_all_tasks:
  assumes "digest_all env prio ts = Inr us"
  shows "map dt_id us = map dt_id ts \<and> map dt_doc us = map dt_doc ts \<and> map dt_chunks us = map dt_chunks ts"
  using assms by (auto simp: digest_all_def digest_task_def split: if_splits option.splits)

lemma new_tasks:
  "map dt_doc (map (new_task env d) (enumerate k spans)) = replicate (length spans) (di_id d)"
  "\<forall>t\<in>set (map (new_task env d) (enumerate k spans)). dt_chunks t = []"
  "set (map dt_id (map (new_task env d) (enumerate k spans))) \<subseteq> range (fresh_id env)"
  by (induction spans arbitrary: k) (auto simp: new_task_def)

lemma map_stamp:
  assumes "\<And>t x. f (t\<lparr>dt_created := x\<rparr>) = f t"
  shows "map f (stamp_tasks env ts) = map f ts"
proof -
  have "map f (map (\<lambda>(i, t). t\<lparr>dt_created := q_now env + int i\<rparr>) (enumerate k ts)) = map f ts" for k
    using assms by (induction ts arbitrary: k) auto
  then show ?thesis by (simp only: stamp_tasks_def)
qed

lemma stamp_tasks_simps [simp]:
  "map dt_id (stamp_tasks env ts) = map dt_id ts" "map dt_doc (stamp_tasks env ts) = map dt_doc ts"
  "chunks_of_tasks (stamp_tasks env ts) = chunks_of_tasks ts"
  unfolding chunks_of_tasks_def by (simp_all add: map_stamp)

lemma put_rows_new:
  "distinct (map dt_id ts) \<Longrightarrow> dt_id ` set ts \<inter> dt_id ` set rows = {} \<Longrightarrow> foldl put_row rows ts = rows @ ts"
proof (induction ts arbitrary: rows)
  case (Cons t ts)
  have "put_row rows t = rows @ [t]" using Cons.prems by (auto simp: put_row_def)
  moreover have "foldl put_row (rows @ [t]) ts = (rows @ [t]) @ ts" using Cons.prems by (intro Cons.IH) auto
  ultimately show ?case by simp
qed simp

lemma new_task_ids: "map dt_id (map (new_task env d) (enumerate k spans)) = map (fresh_id env) [k..<k + length spans]"
  by (induction spans arbitrary: k) (auto simp: new_task_def upt_rec)

text \<open>C28: queueing the tasks of a document, when it returns and the new ids are distinct and new to the table, accounts
  for every chunk of its earlier tasks: each is kept by a new task or deleted from the document store, none both and
  none lost.  The new tasks that got no chunks are the ones queued, in order, and the tasks of other documents stay.\<close>

theorem chunks_conserved:
  assumes "queue_tasks env d prio s = (Inr (), s')" and "\<forall>t\<in>set (q_tasks s). dt_id t \<notin> range (fresh_id env)"
    and "inj (fresh_id env)"
  shows "\<exists>dels new. q_deleted s' = q_deleted s @ dels \<and>
     q_tasks s' = filter (\<lambda>t. dt_doc t \<noteq> di_id d) (q_tasks s) @ new \<and> (\<forall>t\<in>set new. dt_doc t = di_id d) \<and>
     q_queue s' = q_queue s @ filter (\<lambda>t. dt_progress t < 1) new \<and>
     mset (chunks_of_tasks new) + mset dels = mset (chunks_of_tasks (filter (\<lambda>t. dt_doc t = di_id d) (q_tasks s)))"
proof -
  obtain spans where sp: "spans_of env d = Inr spans"
    using assms(1) by (auto simp: queue_tasks_def bindM_def split: sum.splits)
  let ?new = "map (new_task env d) (enumerate 0 spans)"
  obtain ts where ts: "digest_all env prio ?new = Inr ts"
    using assms(1) sp by (auto simp: queue_tasks_def bindM_def split: sum.splits)
  obtain n us s1 where r: "replace_prev env d ts s = (Inr (n, us), s1)"
    using assms(1) sp ts by (auto simp: queue_tasks_def bindM_def split: sum.splits prod.splits)
  have "\<forall>t\<in>set ts. dt_chunks t = []"
    using digest_all_tasks [OF ts] new_tasks(2) [of env d 0 spans] by (metis (no_types, lifting) in_set_conv_nth length_map nth_map)
  from replace_prev_spec [OF r this] obtain dels where
    d: "q_deleted s1 = q_deleted s @ dels" "map dt_id us = map dt_id ts" "map dt_doc us = map dt_doc ts"
    "mset (chunks_of_tasks us) + mset dels = mset (chunks_of_tasks (filter (\<lambda>t. dt_doc t = di_id d) (q_tasks s)))"
    "q_tasks s1 = filter (\<lambda>t. dt_doc t \<noteq> di_id d) (q_tasks s)" "q_queue s1 = q_queue s" by blast
  have eqi: "map dt_id us = map (fresh_id env) [0..<length spans]"
    using d(2) digest_all_tasks [OF ts] new_task_ids [of env d 0 spans] by simp
  then have ids: "dt_id ` set us \<subseteq> range (fresh_id env)" by (metis image_mono image_set subset_UNIV)
  have dist: "distinct (map dt_id us)"
    unfolding eqi distinct_map using assms(3) by (auto intro: inj_on_subset)
  have docs: "map dt_doc us = replicate (length spans) (di_id d)"
    using d(3) digest_all_tasks [OF ts] new_tasks(1) [of env d 0 spans] by metis
  define vs where "vs = stamp_tasks env us"
  have "map dt_doc vs = replicate (length spans) (di_id d)" using docs by (simp add: vs_def)
  then have vdocs: "\<forall>t\<in>set vs. dt_doc t = di_id d" by (metis in_set_replicate list.set_map imageI)
  have "us \<noteq> []" using assms(1) sp ts r
    by (auto simp: queue_tasks_def bindM_def seqM_def bulk_insert_def split: if_splits)
  define s2 where "s2 = upd_doc (di_id d) (\<lambda>r. r\<lparr>dr_chunk_num := int n\<rparr>) s1"
  define s3 where "s3 = begin2parse env False (di_id d) (s2\<lparr>q_tasks := foldl put_row (q_tasks s2) vs\<rparr>)"
  have q: "forM (queue_product env) (filter (\<lambda>t. dt_progress t < 1) vs) s3 = (Inr (), s')"
    using assms(1) sp ts r \<open>us \<noteq> []\<close>
    by (simp add: queue_tasks_def bindM_def seqM_def bulk_insert_def s2_def s3_def vs_def)
  have "set (q_tasks s1) \<subseteq> set (q_tasks s)" by (simp add: d(5))
  with assms(2) have "dt_id ` set (q_tasks s1) \<inter> range (fresh_id env) = {}" by auto
  moreover have vids: "map dt_id vs = map dt_id us" by (simp add: vs_def)
  then have "dt_id ` set vs = dt_id ` set us" by (metis list.set_map)
  ultimately have "dt_id ` set vs \<inter> dt_id ` set (q_tasks s1) = {}" using ids by blast
  moreover have "distinct (map dt_id vs)" using dist vids by simp
  ultimately have "foldl put_row (q_tasks s1) vs = q_tasks s1 @ vs" by (intro put_rows_new)
  then have "q_tasks s3 = filter (\<lambda>t. dt_doc t \<noteq> di_id d) (q_tasks s) @ vs" "q_deleted s3 = q_deleted s @ dels"
    "q_queue s3 = q_queue s"
    using d by (simp_all add: s3_def s2_def begin2parse_def)
  with forM_queue [OF q] d(4) vdocs show ?thesis by (auto simp: vs_def)
qed

definition demo_prev :: dtask where
  "demo_prev = \<lparr> dt_id = ''old'', dt_doc = ''d'', dt_from = 0, dt_to = 12, dt_type = [], dt_priority = 0,
     dt_begin = Some 1, dt_duration = 0, dt_progress = 1, dt_msg = [], dt_retry = 0, dt_digest = ''x'',
     dt_chunks = ''a b'', dt_created = 1 \<rparr>"

definition demo_queue :: qstate where
  "demo_queue = \<lparr> q_tasks = [demo_prev], q_docs = [\<lparr> dr_id = ''d'', dr_run = RUNNING, dr_progress = 0, dr_msg = [],
     dr_chunk_num = 0 \<rparr>], q_deleted = [], q_queue = [], q_keys = [] \<rparr>"

lemma demo_facts:
  "q_tasks demo_queue = [demo_prev]" "q_deleted demo_queue = []" "q_queue demo_queue = []"
  "dt_doc demo_prev = ''d''" "dt_id demo_prev = ''old''" "di_id demo_pdf = ''d''"
  "mset (chunks_of_tasks [demo_prev]) = {#''a'', ''b''#}"
proof -
  have "chunks_of_tasks [demo_prev] = [''a'', ''b'']" by code_simp
  then show "mset (chunks_of_tasks [demo_prev]) = {#''a'', ''b''#}" by simp
qed (simp_all add: demo_queue_def demo_prev_def demo_pdf_def)

lemma demo_queue_runs: "fst (queue_tasks (demo_qenv (Some 30)) demo_pdf 0 demo_queue) = Inr ()"
  by code_simp

theorem chunks_conserved_witness:
  "\<exists>s' dels new. queue_tasks (demo_qenv (Some 30)) demo_pdf 0 demo_queue = (Inr (), s') \<and> q_deleted s' = dels \<and>
     q_tasks s' = new \<and> mset (chunks_of_tasks new) + mset dels = {#''a'', ''b''#}"
proof -
  obtain s' where s': "queue_tasks (demo_qenv (Some 30)) demo_pdf 0 demo_queue = (Inr (), s')"
    using demo_queue_runs by (metis prod.collapse)
  have "\<forall>t\<in>set (q_tasks demo_queue). dt_id t \<notin> range (fresh_id (demo_qenv (Some 30)))"
    by (auto simp: demo_facts demo_qenv_def)
  moreover have "inj (fresh_id (demo_qenv (Some 30)))" by (auto simp: demo_qenv_def inj_def show_nat_inj)
  ultimately show ?thesis using chunks_conserved [OF s'] s' by (auto simp: demo_facts simp del: chunks_of_tasks_simps)
qed

text \<open>A PDF in which no page is found, or that cannot be opened, has no tasks, and queueing it raises
  an IndexError from the bulk insert.  By then the earlier tasks of the document are gone from the table and all their
  chunks from the document store, and nothing is queued.\<close>

theorem empty_pdf_raises:
  assumes "di_type d = ''pdf''" and "0 < page_size_of d" and "pc_pages (di_conf d) = []"
    and "pdf_pages env \<in> {None, Some 0}" and "chunking_config env \<noteq> None"
  shows "\<exists>s'. queue_tasks env d prio s = (Inl (Exc IndexErr ''list index out of range''), s') \<and>
     q_tasks s' = filter (\<lambda>t. dt_doc t \<noteq> di_id d) (q_tasks s) \<and> q_queue s' = q_queue s \<and>
     (\<exists>dels. q_deleted s' = q_deleted s @ dels \<and>
        mset dels = mset (chunks_of_tasks (filter (\<lambda>t. dt_doc t = di_id d) (q_tasks s))))"
proof -
  have "page_size_of d - 1 < page_size_of d" "0 \<le> page_size_of d - 1" using assms(2) by simp_all
  then have "(page_size_of d - 1) div page_size_of d = 0" by (intro div_pos_pos_trivial) auto
  then have "spans_of env d = Inr []" using assms
    by (auto simp: spans_of_def pdf_spans_def range_spans_def py_range_def Let_def)
  moreover have "\<exists>n s1. replace_prev env d [] s = (Inr (n, []), s1)"
    using assms(5) by (auto simp: replace_prev_def Let_def)
  then obtain n s1 where r: "replace_prev env d [] s = (Inr (n, []), s1)" by blast
  ultimately have "queue_tasks env d prio s =
      (Inl (Exc IndexErr ''list index out of range''), upd_doc (di_id d) (\<lambda>r. r\<lparr>dr_chunk_num := int n\<rparr>) s1)"
    by (simp add: queue_tasks_def digest_all_def enumerate_eq_zip bulk_insert_def bindM_def seqM_def)
  with replace_prev_spec [OF r] show ?thesis by auto
qed

theorem empty_pdf_raises_witness:
  "\<exists>s'. queue_tasks (demo_qenv None) demo_pdf 0 demo_queue = (Inl (Exc IndexErr ''list index out of range''), s') \<and>
     q_tasks s' = [] \<and> mset (q_deleted s') = {#''a'', ''b''#}"
proof -
  have "di_type demo_pdf = ''pdf''" "0 < page_size_of demo_pdf" "pc_pages (di_conf demo_pdf) = []"
    "pdf_pages (demo_qenv None) \<in> {None, Some 0}" "chunking_config (demo_qenv None) \<noteq> None"
    by (simp_all add: demo_pdf_def demo_qenv_def page_size_of_def or_default_def)
  from empty_pdf_raises [OF this, of 0 demo_queue] show ?thesis
    by (auto simp: demo_facts simp del: chunks_of_tasks_simps)
qed

section \<open>The life of a task\<close>

lemma find_map_upd:
  "(\<And>x. P (if P x then f x else x) = P x) \<Longrightarrow>
     find P (map (\<lambda>x. if P x then f x else x) xs) = map_option f (find P xs)"
  by (induction xs) auto

lemma find_upd_tasks:
  assumes "\<And>u. dt_id (f u) = dt_id u"
  shows "find_task tid (upd_tasks (\<lambda>u. dt_id u = tid) f s) = map_option f (find_task tid s)"
  unfolding find_task_def upd_tasks_def using assms by (simp add: find_map_upd)

definition report_step :: "rat option \<Rightarrow> rat \<Rightarrow> rat" where
  "report_step r old = (case r of None \<Rightarrow> old | Some p \<Rightarrow> new_progress p old)"

lemma update_progress_step:
  assumes "find_task tid s = Some t" and "rp_msg r \<noteq> None" and "dt_begin t \<noteq> None"
  shows "\<exists>s' t'. update_progress env tid r s = (Inr (), s') \<and> find_task tid s' = Some t' \<and> dt_begin t' = dt_begin t \<and>
     dt_progress t' = report_step (rp_progress r) (dt_progress t)"
  using assms
  by (auto simp: update_progress_def Let_def find_upd_tasks report_step_def split: option.splits)

lemma reports_run:
  assumes "find_task tid s = Some t" and "\<forall>r\<in>set rs. rp_msg r \<noteq> None" and "dt_begin t \<noteq> None"
  shows "\<exists>s' t'. forM (update_progress env tid) rs s = (Inr (), s') \<and> find_task tid s' = Some t' \<and>
     dt_progress t' = foldl (\<lambda>p r. report_step (rp_progress r) p) (dt_progress t) rs"
  using assms
proof (induction rs arbitrary: s t)
  case (Cons r rs)
  from update_progress_step [OF Cons.prems(1) _ Cons.prems(3), of r env] Cons.prems(2) obtain s1 t1 where
    1: "update_progress env tid r s = (Inr (), s1)" "find_task tid s1 = Some t1" "dt_begin t1 = dt_begin t"
    "dt_progress t1 = report_step (rp_progress r) (dt_progress t)" by auto
  with Cons.IH [of s1 t1] Cons.prems show ?case by (auto simp: seqM_def bindM_def)
qed auto

text \<open>The progress after a sequence of reports below one: the largest one, unless one was a failure.\<close>

definition settled :: "rat \<Rightarrow> rat list \<Rightarrow> rat" where
  "settled p ps = (if p = - 1 \<or> - 1 \<in> set ps then - 1 else foldl max p ps)"

lemma settled_step:
  assumes "p < 1" and "q < 1" and "- 1 \<le> p"
  shows "settled q (p # ps) = settled (new_progress p q) ps"
  using assms by (auto simp: settled_def new_progress_def max_def)

lemma reports_settle:
  assumes "\<forall>r\<in>set rs. \<forall>p. rp_progress r = Some p \<longrightarrow> - 1 \<le> p \<and> p < 1" and "q < 1"
  shows "foldl (\<lambda>p r. report_step (rp_progress r) p) q rs = settled q (List.map_filter rp_progress rs)"
  using assms
proof (induction rs arbitrary: q)
  case (Cons r rs)
  show ?case
  proof (cases "rp_progress r")
    case None
    with Cons show ?thesis by (simp add: report_step_def List.map_filter_simps)
  next
    case (Some p)
    with Cons.prems have p: "- 1 \<le> p" "p < 1" by auto
    have "new_progress p q < 1" using p Cons.prems(2) by (simp add: new_progress_def)
    with Cons.IH [of "new_progress p q"] Cons.prems Some settled_step [OF p(2) Cons.prems(2) p(1)] show ?thesis
      by (simp add: report_step_def List.map_filter_simps)
  qed
qed (simp add: settled_def List.map_filter_simps)

text \<open>C29: after any sequence of complete progress reports below one, each carrying a message, every report
  is accepted and the task stands at the largest progress reported, never below an earlier one; once a failure is
  reported the task stays failed, whatever is reported afterwards.\<close>

theorem reports_settle_task:
  assumes "find_task tid s = Some t" and "dt_begin t \<noteq> None" and "dt_progress t < 1"
    and "\<forall>r\<in>set rs. rp_msg r \<noteq> None"
    and "\<forall>r\<in>set rs. \<forall>p. rp_progress r = Some p \<longrightarrow> - 1 \<le> p \<and> p < 1"
  shows "\<exists>s' t'. forM (update_progress env tid) rs s = (Inr (), s') \<and> find_task tid s' = Some t' \<and>
     dt_progress t' =
       (let ps = List.map_filter rp_progress rs
        in if dt_progress t = - 1 \<or> - 1 \<in> set ps then - 1 else foldl max (dt_progress t) ps)"
  using reports_run [OF assms(1,4,2), of env] reports_settle [OF assms(5,3)] by (auto simp: settled_def Let_def)

theorem reports_settle_task_witness:
  "\<exists>s' t'. forM (update_progress (demo_qenv None) ''old'')
       [\<lparr> rp_msg = Some ''half'', rp_progress = Some (1 / 2) \<rparr>, \<lparr> rp_msg = Some ''gone'', rp_progress = Some (- 1) \<rparr>,
        \<lparr> rp_msg = Some [], rp_progress = Some (2 / 3) \<rparr>]
       (demo_queue\<lparr>q_tasks := [demo_prev\<lparr>dt_progress := 0\<rparr>]\<rparr>) = (Inr (), s') \<and>
     find_task ''old'' s' = Some t' \<and> dt_progress t' = - 1"
proof -
  have "find_task ''old'' (demo_queue\<lparr>q_tasks := [demo_prev\<lparr>dt_progress := 0\<rparr>]\<rparr>) = Some (demo_prev\<lparr>dt_progress := 0\<rparr>)"
    by (simp add: find_task_def demo_facts)
  from reports_settle_task [OF this, of
      "[\<lparr> rp_msg = Some ''half'', rp_progress = Some (1 / 2) \<rparr>, \<lparr> rp_msg = Some ''gone'', rp_progress = Some (- 1) \<rparr>,
        \<lparr> rp_msg = Some [], rp_progress = Some (2 / 3) \<rparr>]" "demo_qenv None"]
  show ?thesis by (simp add: demo_prev_def List.map_filter_simps)
qed

text \<open>The tasks handed out by \<open>n\<close> calls for one task id\<close>

fun hand_outs :: "qenv \<Rightarrow> string \<Rightarrow> nat \<Rightarrow> qstate \<Rightarrow> dtask option list \<times> qstate" where
  "hand_outs env tid 0 s = ([], s)"
| "hand_outs env tid (Suc n) s =
     (case get_task env tid s of (r, s1) \<Rightarrow> (case hand_outs env tid n s1 of (rs, s2) \<Rightarrow> (r # rs, s2)))"

lemma get_task_step:
  assumes "find_task tid s = Some t" and "joined env t"
  shows "\<exists>s' t'. get_task env tid s = (if dt_retry t < 3 then Some t else None, s') \<and> find_task tid s' = Some t' \<and>
     dt_retry t' = dt_retry t + 1 \<and> dt_progress t' = (if dt_retry t < 3 then q_random env / 10 else - 1)"
proof -
  have "dt_id t = tid" using assms(1) by (auto simp: find_task_def find_Some_iff)
  with assms show ?thesis by (auto simp: get_task_def Let_def find_upd_tasks)
qed

lemma hand_outs_count:
  assumes "find_task tid s = Some t" and "\<And>u. joined env u" and "0 \<le> dt_retry t"
  shows "\<exists>rs s' t'. hand_outs env tid n s = (rs, s') \<and> find_task tid s' = Some t' \<and>
     length (filter (\<lambda>r. r \<noteq> None) rs) = min n (nat (3 - dt_retry t)) \<and>
     (nat (3 - dt_retry t) < n \<longrightarrow> dt_progress t' = - 1)"
  using assms(1,3)
proof (induction n arbitrary: s t)
  case (Suc n)
  from get_task_step [OF Suc.prems(1) assms(2)] obtain s1 t1 where
    1: "get_task env tid s = (if dt_retry t < 3 then Some t else None, s1)" "find_task tid s1 = Some t1"
    "dt_retry t1 = dt_retry t + 1" "dt_progress t1 = (if dt_retry t < 3 then q_random env / 10 else - 1)" by blast
  from Suc.IH [OF 1(2)] 1(3) Suc.prems(2) obtain rs s2 t2 where
    2: "hand_outs env tid n s1 = (rs, s2)" "find_task tid s2 = Some t2"
    "length (filter (\<lambda>r. r \<noteq> None) rs) = min n (nat (3 - dt_retry t1))"
    "nat (3 - dt_retry t1) < n \<longrightarrow> dt_progress t2 = - 1" by auto
  show ?case
  proof (cases n)
    case 0
    with 1 2 show ?thesis by auto
  next
    case (Suc m)
    with 1 2 show ?thesis by auto
  qed
qed simp

text \<open>A task that was not handed out yet is handed out at most three times, however often it is asked
  for; the fourth request and every later one gets nothing and leaves the task failed.\<close>

theorem task_abandoned:
  assumes "find_task tid s = Some t" and "\<And>u. joined env u" and "dt_retry t = 0"
  shows "\<exists>rs s' t'. hand_outs env tid n s = (rs, s') \<and> find_task tid s' = Some t' \<and>
     length (filter (\<lambda>r. r \<noteq> None) rs) = min n 3 \<and> (3 < n \<longrightarrow> dt_progress t' = - 1)"
  using hand_outs_count [OF assms(1,2), of n] assms(3) by simp

theorem task_abandoned_witness:
  "\<exists>rs s' t'. hand_outs (demo_qenv None) ''old'' 5 demo_queue = (rs, s') \<and> find_task ''old'' s' = Some t' \<and>
     length (filter (\<lambda>r. r \<noteq> None) rs) = 3 \<and> dt_progress t' = - 1"
proof -
  have "find_task ''old'' demo_queue = Some demo_prev" "joined (demo_qenv None) u" "dt_retry demo_prev = 0" for u
    by (simp_all add: find_task_def demo_facts demo_prev_def demo_qenv_def)
  from task_abandoned [OF this, of 5] show ?thesis by simp
qed

end
