(* ===== verification/Regex.thy ===== *)
theory Regex
  imports PyText
begin

text \<open>
  The regular expressions of the chunker: their language, and \<open>re.match\<close>, \<open>re.fullmatch\<close> and
  \<open>re.search\<close> as tests, computed by derivatives on the bytes of the encoded text.  Only whether
  there is a match is asked, so greediness plays no part.
\<close>

section \<open>Expressions and their language\<close>

datatype rx =
    RNone
  | REps
  | RByte "(nat \<times> nat) list"
  | RSeq rx rx
  | RAlt rx rx
  | RStar rx

definition in_ranges :: "(nat \<times> nat) list \<Rightarrow> char \<Rightarrow> bool" where
  "in_ranges rs c \<longleftrightarrow> list_ex (\<lambda>(a, b). a \<le> code c \<and> code c \<le> b) rs"

inductive matches :: "rx \<Rightarrow> string \<Rightarrow> bool" where
  m_eps: "matches REps []"
| m_byte: "in_ranges rs c \<Longrightarrow> matches (RByte rs) [c]"
| m_seq: "matches r s \<Longrightarrow> matches q t \<Longrightarrow> matches (RSeq r q) (s @ t)"
| m_left: "matches r s \<Longrightarrow> matches (RAlt r q) s"
| m_right: "matches q s \<Longrightarrow> matches (RAlt r q) s"
| m_nil: "matches (RStar r) []"
| m_cons: "matches r (c # s) \<Longrightarrow> matches (RStar r) t \<Longrightarrow> matches (RStar r) (c # s @ t)"

inductive_cases matches_none [elim!]: "matches RNone s"
inductive_cases matches_eps [elim!]: "matches REps s"
inductive_cases matches_byte [elim!]: "matches (RByte rs) s"
inductive_cases matches_seq [elim!]: "matches (RSeq r q) s"
inductive_cases matches_alt [elim!]: "matches (RAlt r q) s"
inductive_cases matches_star_cons: "matches (RStar r) (c # s)"

section \<open>Matching by derivatives\<close>

fun nullable :: "rx \<Rightarrow> bool" where
  "nullable RNone \<longleftrightarrow> False"
| "nullable REps \<longleftrightarrow> True"
| "nullable (RByte rs) \<longleftrightarrow> False"
| "nullable (RSeq r q) \<longleftrightarrow> nullable r \<and> nullable q"
| "nullable (RAlt r q) \<longleftrightarrow> nullable r \<or> nullable q"
| "nullable (RStar r) \<longleftrightarrow> True"

text \<open>Sequence and alternative, dropping what cannot match\<close>

definition mk_seq :: "rx \<Rightarrow> rx \<Rightarrow> rx" where
  "mk_seq r q = (if r = RNone then RNone else if r = REps then q else RSeq r q)"

definition mk_alt :: "rx \<Rightarrow> rx \<Rightarrow> rx" where
  "mk_alt r q = (if r = RNone then q else if q = RNone then r else RAlt r q)"

fun deriv :: "char \<Rightarrow> rx \<Rightarrow> rx" where
  "deriv c RNone = RNone"
| "deriv c REps = RNone"
| "deriv c (RByte rs) = (if in_ranges rs c then REps else RNone)"
| "deriv c (RSeq r q) =
     (if nullable r then mk_alt (mk_seq (deriv c r) q) (deriv c q) else mk_seq (deriv c r) q)"
| "deriv c (RAlt r q) = mk_alt (deriv c r) (deriv c q)"
| "deriv c (RStar r) = mk_seq (deriv c r) (RStar r)"

fun re_fullmatch :: "rx \<Rightarrow> string \<Rightarrow> bool" where
  "re_fullmatch r [] \<longleftrightarrow> nullable r"
| "re_fullmatch r (c # cs) \<longleftrightarrow> re_fullmatch (deriv c r) cs"

fun re_match :: "rx \<Rightarrow> string \<Rightarrow> bool" where
  "re_match r [] \<longleftrightarrow> nullable r"
| "re_match r (c # cs) \<longleftrightarrow> nullable r \<or> (r \<noteq> RNone \<and> re_match (deriv c r) cs)"

fun re_search :: "rx \<Rightarrow> string \<Rightarrow> bool" where
  "re_search r [] \<longleftrightarrow> re_match r []"
| "re_search r (c # cs) \<longleftrightarrow> re_match r (c # cs) \<or> re_search r cs"

lemma nullable_matches: "nullable r \<longleftrightarrow> matches r []"
proof (induction r)
  case (RSeq r q)
  then show ?case by (auto intro: m_seq [where s = "[]" and t = "[]", simplified])
qed (auto intro: matches.intros elim: matches.cases)

lemma matches_seq_iff: "matches (RSeq r q) s \<longleftrightarrow> (\<exists>u v. s = u @ v \<and> matches r u \<and> matches q v)"
  by (auto intro: m_seq)

lemma matches_alt_iff: "matches (RAlt r q) s \<longleftrightarrow> matches r s \<or> matches q s"
  by (auto intro: m_left m_right)

lemma matches_byte_iff: "matches (RByte rs) s \<longleftrightarrow> (\<exists>c. s = [c] \<and> in_ranges rs c)"
  by (auto intro: m_byte)

lemma matches_eps_iff: "matches REps s \<longleftrightarrow> s = []"
  by (auto intro: m_eps)

lemma matches_none_iff: "matches RNone s \<longleftrightarrow> False"
  by auto

lemma matches_star_cons_iff:
  "matches (RStar r) (c # s) \<longleftrightarrow> (\<exists>u v. s = u @ v \<and> matches r (c # u) \<and> matches (RStar r) v)"
  by (auto elim!: matches_star_cons intro: m_cons)

lemma matches_mk_seq [simp]: "matches (mk_seq r q) s \<longleftrightarrow> matches (RSeq r q) s"
  by (auto simp: mk_seq_def matches_seq_iff matches_eps_iff)

lemma matches_mk_alt [simp]: "matches (mk_alt r q) s \<longleftrightarrow> matches (RAlt r q) s"
  by (auto simp: mk_alt_def matches_alt_iff)

lemmas matches_iff = matches_seq_iff matches_alt_iff matches_byte_iff matches_eps_iff matches_none_iff

lemma deriv_matches: "matches (deriv c r) s \<longleftrightarrow> matches r (c # s)"
proof (induction r arbitrary: s)
  case (RSeq r q)
  have "matches (RSeq r q) (c # s) \<longleftrightarrow>
      (\<exists>u v. s = u @ v \<and> matches r (c # u) \<and> matches q v) \<or> (nullable r \<and> matches q (c # s))"
    unfolding matches_seq_iff nullable_matches Cons_eq_append_conv by blast
  with RSeq.IH show ?case by (simp add: matches_iff)
next
  case (RStar r)
  then show ?case by (simp add: matches_iff matches_star_cons_iff)
qed (simp_all add: matches_iff)

lemma re_fullmatch_iff: "re_fullmatch r s \<longleftrightarrow> matches r s"
  by (induction s arbitrary: r) (auto simp: nullable_matches deriv_matches)

lemma re_match_iff: "re_match r s \<longleftrightarrow> (\<exists>u v. s = u @ v \<and> matches r u)"
proof (induction s arbitrary: r)
  case (Cons c s)
  have "(\<exists>u v. c # s = u @ v \<and> matches r u) \<longleftrightarrow> matches r [] \<or> (\<exists>u v. s = u @ v \<and> matches r (c # u))"
    by (auto simp: Cons_eq_append_conv)
  with Cons.IH [of "deriv c r"] show ?case by (auto simp: nullable_matches deriv_matches)
qed (auto simp: nullable_matches)

lemma re_search_iff: "re_search r s \<longleftrightarrow> (\<exists>a u b. s = a @ u @ b \<and> matches r u)"
proof (induction s)
  case (Cons c s)
  have "(\<exists>a u b. c # s = a @ u @ b \<and> matches r u) \<longleftrightarrow>
      (\<exists>u b. c # s = u @ b \<and> matches r u) \<or> (\<exists>a u b. s = a @ u @ b \<and> matches r u)"
    by (metis append_Cons append_Nil neq_Nil_conv list.inject)
  then show ?case unfolding re_search.simps Cons.IH re_match_iff [of r "c # s"] by blast
qed (auto simp: nullable_matches)

section \<open>Ways to write expressions\<close>

definition byte :: "char \<Rightarrow> rx" where
  "byte c = RByte [(code c, code c)]"

definition lit :: "string \<Rightarrow> rx" where
  "lit s = foldr (\<lambda>c. RSeq (byte c)) s REps"

definition alts :: "rx list \<Rightarrow> rx" where
  "alts rs = foldr RAlt rs RNone"

definition seqs :: "rx list \<Rightarrow> rx" where
  "seqs rs = foldr RSeq rs REps"

definition plus :: "rx \<Rightarrow> rx" where
  "plus r = RSeq r (RStar r)"

definition opt :: "rx \<Rightarrow> rx" where
  "opt r = RAlt r REps"

definition digits09 :: rx where
  "digits09 = RByte [(48, 57)]"

text \<open>\<open>[0-9]{,2}\<close>\<close>

definition digits2 :: rx where
  "digits2 = opt (RSeq digits09 (opt digits09))"

text \<open>One code point that is not an ASCII character of the list\<close>

definition multibyte :: rx where
  "multibyte = RSeq (RByte [(192, 255)]) (RStar (RByte [(128, 191)]))"

definition any_but :: "(nat \<times> nat) list \<Rightarrow> rx" where
  "any_but ascii = RAlt (RByte ascii) multibyte"

lemma matches_lit: "matches (lit s) t \<longleftrightarrow> t = s"
proof (induction s arbitrary: t)
  case (Cons c s)
  have "in_ranges [(code c, code c)] d \<longleftrightarrow> d = c" for d
    by (auto simp: in_ranges_def code_def)
  then have "matches (byte c) u \<longleftrightarrow> u = [c]" for u by (auto simp: byte_def matches_byte_iff)
  moreover have "lit (c # s) = RSeq (byte c) (lit s)" by (simp add: lit_def)
  ultimately show ?case using Cons.IH by (simp add: matches_seq_iff)
qed (simp add: lit_def matches_eps_iff)

lemma re_match_lit: "re_match (lit s) t \<longleftrightarrow> starts_with t s"
  by (auto simp: re_match_iff matches_lit starts_with_def prefix_def)

end
