(* ===== verification/Chunking.thy ===== *)
theory Chunking
  imports Regex PyValue
begin

text \<open>
  The chunker of RAGFlow for titled text (\<^verbatim>\<open>ragflow/rag/nlp/__init__.py\<close>): the bullet patterns, the levels
  of titles, the outline tree of a document (\<open>Node\<close>, \<open>tree_merge\<close>) and \<open>hierarchical_merge\<close>.  The
  patterns are the source's regular expressions on the UTF-8 bytes of the text; the number of tokens of a
  text is a parameter.
\<close>

section \<open>White space and code points\<close>

text \<open>\<open>len(s.split())\<close>: a word starts at every code point that is no white space and follows some\<close>

function word_count :: "bool \<Rightarrow> string \<Rightarrow> nat" where
  "word_count after_space s =
     (if s = [] then 0
      else if 0 < ws_head s then word_count True (drop (ws_head s) s)
      else (if after_space then 1 else 0) + word_count False (tl s))"
  by pat_completeness auto
termination
  by (relation "measure (\<lambda>(_, s). length s)") auto

declare word_count.simps [simp del]

section \<open>Patterns\<close>

definition zh_digits :: rx where \<comment> \<open>U+96F6 U+4E00 U+4E8C U+4E09 U+56DB U+4E94 U+516D U+4E03 U+516B U+4E5D U+5341 U+767E\<close>
  "zh_digits = alts (map lit
     [[CHR 0xE9, CHR 0x9B, CHR 0xB6], [CHR 0xE4, CHR 0xB8, CHR 0x80], [CHR 0xE4, CHR 0xBA, CHR 0x8C], [CHR 0xE4, CHR 0xB8, CHR 0x89],
      [CHR 0xE5, CHR 0x9B, CHR 0x9B], [CHR 0xE4, CHR 0xBA, CHR 0x94], [CHR 0xE5, CHR 0x85, CHR 0xAD], [CHR 0xE4, CHR 0xB8, CHR 0x83],
      [CHR 0xE5, CHR 0x85, CHR 0xAB], [CHR 0xE4, CHR 0xB9, CHR 0x9D], [CHR 0xE5, CHR 0x8D, CHR 0x81], [CHR 0xE7, CHR 0x99, CHR 0xBE]])"

definition zh_number :: rx where
  "zh_number = plus (RAlt zh_digits digits09)"

definition zh_di :: string where \<comment> \<open>U+7B2C\<close>
  "zh_di = [CHR 0xE7, CHR 0xAC, CHR 0xAC]"

definition zh_zhang :: string where \<comment> \<open>U+7AE0\<close>
  "zh_zhang = [CHR 0xE7, CHR 0xAB, CHR 0xA0]"

definition zh_jie :: string where \<comment> \<open>U+8282\<close>
  "zh_jie = [CHR 0xE8, CHR 0x8A, CHR 0x82]"

definition zh_tiao :: string where \<comment> \<open>U+6761\<close>
  "zh_tiao = [CHR 0xE6, CHR 0x9D, CHR 0xA1]"

definition zh_comma :: string where \<comment> \<open>U+3001\<close>
  "zh_comma = [CHR 0xE3, CHR 0x80, CHR 0x81]"

definition zh_open :: string where \<comment> \<open>U+FF08\<close>
  "zh_open = [CHR 0xEF, CHR 0xBC, CHR 0x88]"

definition zh_close :: string where \<comment> \<open>U+FF09\<close>
  "zh_close = [CHR 0xEF, CHR 0xBC, CHR 0x89]"

definition BULLET_PATTERN :: "rx list list" where
  "BULLET_PATTERN =
    [[seqs [lit zh_di, zh_number, RAlt (RSeq (opt (lit [CHR 0xE5, CHR 0x88, CHR 0x86])) (lit [CHR 0xE7, CHR 0xBC, CHR 0x96])) (lit [CHR 0xE9, CHR 0x83, CHR 0xA8, CHR 0xE5, CHR 0x88, CHR 0x86])],
      seqs [lit zh_di, zh_number, lit zh_zhang],
      seqs [lit zh_di, zh_number, lit zh_jie],
      seqs [lit zh_di, zh_number, lit zh_tiao],
      seqs [RAlt (byte CHR ''('') (lit zh_open), plus zh_digits, RAlt (byte CHR '')'') (lit zh_close)]],
     [seqs [lit zh_di, plus digits09, lit zh_zhang],
      seqs [lit zh_di, plus digits09, lit zh_jie],
      RSeq digits2 (alts [byte CHR ''.'', byte CHR '' '', lit zh_comma]),
      seqs [digits2, byte CHR ''.'', digits2, any_but [(0, 36), (38, 44), (46, 46), (48, 64), (91, 96), (123, 125), (127, 127)]],
      seqs [digits2, byte CHR ''.'', digits2, byte CHR ''.'', digits2],
      seqs [digits2, byte CHR ''.'', digits2, byte CHR ''.'', digits2, byte CHR ''.'', digits2]],
     [seqs [lit zh_di, zh_number, lit zh_zhang],
      seqs [lit zh_di, zh_number, lit zh_jie],
      RSeq (plus zh_digits) (RAlt (byte CHR '' '') (lit zh_comma)),
      seqs [RAlt (byte CHR ''('') (lit zh_open), plus zh_digits, RAlt (byte CHR '')'') (lit zh_close)],
      seqs [RAlt (byte CHR ''('') (lit zh_open), digits2, RAlt (byte CHR '')'') (lit zh_close)]],
     [RSeq (lit ''PART '') (alts (map lit [''ONE'', ''TWO'', ''THREE'', ''FOUR'', ''FIVE'', ''SIX'', ''SEVEN'', ''EIGHT'', ''NINE'', ''TEN''])),
      RSeq (lit ''Chapter '') (alts [RSeq (plus (byte CHR ''I'')) (opt (byte CHR ''V'')), RSeq (byte CHR ''V'') (RStar (byte CHR ''I'')),
        lit ''XI'', lit ''IX'', lit ''X'']),
      RSeq (lit ''Section '') (plus digits09),
      RSeq (lit ''Article '') (plus digits09)],
     [RSeq (lit ''#'') (any_but [(0, 34), (36, 127)]),
      RSeq (lit ''##'') (any_but [(0, 34), (36, 127)]),
      lit ''###'',
      lit ''####'',
      lit ''#####'',
      lit ''######'']]"

definition not_bullet :: "string \<Rightarrow> bool" where
  "not_bullet line \<longleftrightarrow>
     list_ex (\<lambda>r. re_match r line)
       [lit ''0'',
        seqs [plus digits09, plus (byte CHR '' ''), RAlt (RByte [(48, 57), (126, 126), (45, 45)]) (RAlt (lit [CHR 0xE4, CHR 0xB8, CHR 0xAA]) (lit [CHR 0xE5, CHR 0x8F, CHR 0xAA]))],
        seqs [plus digits09, lit ''..'']]"

definition not_title :: "string \<Rightarrow> bool" where
  "not_title txt \<longleftrightarrow>
     (if re_match (seqs [lit zh_di, zh_number, lit zh_tiao]) txt then False
      else 12 < word_count True txt \<or> (CHR '' '' \<notin> set txt \<and> 32 \<le> py_len txt) \<or>
           list_ex (contains txt) ['','', '';'', [CHR 0xEF, CHR 0xBC, CHR 0x8C], [CHR 0xE3, CHR 0x80, CHR 0x82], [CHR 0xEF, CHR 0xBC, CHR 0x9B], [CHR 0xEF, CHR 0xBC, CHR 0x81], ''!''])"
text \<open>The index of the first pattern that matches\<close>

fun first_match :: "rx list \<Rightarrow> string \<Rightarrow> nat option" where
  "first_match [] txt = None"
| "first_match (r # rs) txt = (if re_match r txt then Some 0 else map_option Suc (first_match rs txt))"

text \<open>\<open>BULLET_PATTERN[bull]\<close>; a negative index counts from the end.\<close>

definition py_nth :: "'a list \<Rightarrow> int \<Rightarrow> 'a res" where
  "py_nth xs i =
     (let k = (if i < 0 then i + int (length xs) else i)
      in if 0 \<le> k \<and> k < int (length xs) then Inr (xs ! nat k) else Inl (Exc IndexErr ''list index out of range''))"

definition category_hits :: "string list \<Rightarrow> rx list \<Rightarrow> nat" where
  "category_hits secs pro =
     length (filter (\<lambda>sec. let t = strip_ws sec in list_ex (\<lambda>p. re_match p t \<and> \<not> not_bullet t) pro) secs)"

fun best_hit :: "nat \<Rightarrow> nat \<Rightarrow> int \<Rightarrow> nat list \<Rightarrow> int" where
  "best_hit i maximum res [] = res"
| "best_hit i maximum res (h # hs) =
     (if h \<le> maximum then best_hit (Suc i) maximum res hs else best_hit (Suc i) h (int i) hs)"

definition bullets_category :: "string list \<Rightarrow> int" where
  "bullets_category secs = best_hit 0 0 (- 1) (map (category_hits secs) BULLET_PATTERN)"

section \<open>Levels\<close>

type_synonym section_text = "string \<times> string"

definition titled_layout :: "string \<Rightarrow> bool" where
  "titled_layout layout \<longleftrightarrow> contains layout ''title'' \<or> contains layout ''head''"

definition before_tag :: "string \<Rightarrow> string" where
  "before_tag t = hd (split_on CHR ''@'' t)"

text \<open>Sections without position tags, page numbers and single characters\<close>

definition kept_section :: "section_text \<Rightarrow> bool" where
  "kept_section sec \<longleftrightarrow>
     fst sec \<noteq> [] \<and> 1 < py_len (strip_ws (before_tag (fst sec))) \<and> \<not> is_digit_str (strip_ws (before_tag (fst sec)))"

function replace_wide :: "string \<Rightarrow> string" where
  "replace_wide s =
     (if s = [] then []
      else if starts_with s [CHR 0xE3, CHR 0x80, CHR 0x80] then CHR '' '' # replace_wide (drop 3 s)
      else hd s # replace_wide (tl s))"
  by pat_completeness auto
termination by (relation "measure length") auto

declare replace_wide.simps [simp del]

definition get_level :: "rx list \<Rightarrow> section_text \<Rightarrow> nat \<times> string" where
  "get_level pats sec =
     (let text = strip_ws (replace_wide (fst sec))
      in case first_match pats (strip_ws text) of
           Some i \<Rightarrow> (i + 1, text)
         | None \<Rightarrow> if titled_layout (snd sec) \<and> \<not> not_title text then (length pats + 1, text)
                   else (length pats + 2, text))"

text \<open>The level of a section for \<open>title_frequency\<close>\<close>

definition frequency_level :: "rx list \<Rightarrow> section_text \<Rightarrow> nat" where
  "frequency_level pats sec =
     (case (if not_bullet (fst sec) then None else first_match pats (strip_ws (fst sec))) of
        Some j \<Rightarrow> j
      | None \<Rightarrow> if titled_layout (snd sec) \<and> \<not> not_title (before_tag (fst sec)) then length pats else length pats + 1)"

definition most_frequent :: "nat \<Rightarrow> nat list \<Rightarrow> nat" where
  "most_frequent n levels =
     (case find (\<lambda>l. l \<le> n) (sort_key (\<lambda>l. - int (count_list levels l)) (rev (remdups (rev levels)))) of
        Some l \<Rightarrow> l | None \<Rightarrow> n + 1)"

definition title_frequency :: "int \<Rightarrow> section_text list \<Rightarrow> (nat \<times> nat list) res" where
  "title_frequency bull secs =
     bindR (py_nth BULLET_PATTERN bull) (\<lambda>pats.
       let n = length pats
       in if secs = [] \<or> bull < 0 then Inr (n + 1, map (\<lambda>_. n + 1) secs)
          else let levels = map (frequency_level pats) secs in Inr (most_frequent n levels, levels))"

section \<open>The outline tree\<close>

datatype node = Node (node_level: nat) (node_texts: "string list") (node_children: "node list")

text \<open>
  The nodes on the stack of \<open>build_tree\<close> are open: a node is attached to its parent when it is
  popped, with the texts and children it has got by then.  The source attaches it when it is pushed and
  changes it afterwards, which gives the same tree.
\<close>

type_synonym open_node = "nat \<times> string list \<times> node list"

definition close_into :: "open_node \<Rightarrow> open_node \<Rightarrow> open_node" where
  "close_into o1 p = (case (o1, p) of ((l, ts, cs), (l', ts', cs')) \<Rightarrow> (l', ts', cs' @ [Node l ts cs]))"

fun pop_to :: "nat \<Rightarrow> open_node list \<Rightarrow> open_node list" where
  "pop_to l (x # p # st) = (if l \<le> fst x then pop_to l (close_into x p # st) else x # p # st)"
| "pop_to l st = st"

definition build_line :: "nat \<Rightarrow> open_node list \<Rightarrow> nat \<times> string \<Rightarrow> open_node list" where
  "build_line depth st line =
     (if depth < fst line
      then (case st of (l, ts, cs) # rest \<Rightarrow> (l, ts @ [snd line], cs) # rest | [] \<Rightarrow> [])
      else (fst line, [snd line], []) # pop_to (fst line) st)"

fun close_all :: "open_node list \<Rightarrow> node" where
  "close_all (x # p # st) = close_all (close_into x p # st)"
| "close_all [(l, ts, cs)] = Node l ts cs"
| "close_all [] = Node 0 [] []"

definition build_tree :: "nat \<Rightarrow> (nat \<times> string) list \<Rightarrow> node" where
  "build_tree depth lines = close_all (foldl (build_line depth) [(0, [], [])] lines)"

fun dfs :: "nat \<Rightarrow> string list \<Rightarrow> node \<Rightarrow> string list" where
  "dfs d titles (Node l ts cs) =
     (let path = (if 1 \<le> l \<and> l \<le> d then titles @ ts else titles)
      in (if l = 0 \<and> ts \<noteq> [] then [join [lf] (titles @ ts)] else []) @
         (if d < l \<and> ts \<noteq> [] then [join [lf] (path @ ts)]
          else if cs = [] \<and> 1 \<le> l \<and> l \<le> d then [join [lf] path] else []) @
         concat (map (dfs d path) cs))"

definition get_tree :: "nat \<Rightarrow> node \<Rightarrow> string list" where
  "get_tree d nd = dfs d [] nd"

text \<open>The sections are plain texts or texts with a layout or a position.\<close>

datatype sections = Texts "string list" | Placed "section_text list"

definition section_texts :: "sections \<Rightarrow> section_text list" where
  "section_texts secs = (case secs of Texts ts \<Rightarrow> map (\<lambda>t. (t, [])) ts | Placed ss \<Rightarrow> ss)"

definition level_lines :: "rx list \<Rightarrow> section_text list \<Rightarrow> (nat \<times> string) list" where
  "level_lines pats ss = filter (\<lambda>l. strip_of (\<lambda>c. c = lf) (snd l) \<noteq> []) (map (get_level pats) (filter kept_section ss))"

definition target_level :: "nat \<Rightarrow> int \<Rightarrow> nat list \<Rightarrow> nat res" where
  "target_level n depth levels =
     (let sl = sort (remdups levels)
      in bindR (if depth \<le> int (length sl) then py_nth sl (depth - 1) else py_nth sl (- 1)) (\<lambda>t.
           if t = n + 2 then (if 1 < length sl then py_nth sl (- 2) else py_nth sl 0) else Inr t))"

definition tree_merge :: "int \<Rightarrow> sections \<Rightarrow> int \<Rightarrow> sections res" where
  "tree_merge bull secs depth =
     (if section_texts secs = [] \<or> bull < 0 then Inr secs
      else bindR (py_nth BULLET_PATTERN bull) (\<lambda>pats.
           let lines = level_lines pats (section_texts secs)
           in bindR (target_level (length pats) depth (map fst lines)) (\<lambda>d.
                Inr (Texts (filter (\<lambda>e. e \<noteq> []) (get_tree d (build_tree d lines)))))))"

section \<open>Hierarchical merging\<close>

function bisect :: "nat list \<Rightarrow> nat \<Rightarrow> nat \<Rightarrow> nat \<Rightarrow> nat res" where
  "bisect arr target s e =
     (if 1 < e - s
      then let i = (e + s) div 2
           in if arr ! i < target then bisect arr target i e
              else if target < arr ! i then bisect arr target s i
              else Inl (Exc AssertionErr [])
      else Inr s)"
  by pat_completeness auto
termination by (relation "measure (\<lambda>(_, _, s, e). e - s)") auto

declare bisect.simps [simp del]

text \<open>None stands for -1.\<close>

definition binary_search :: "nat list \<Rightarrow> nat \<Rightarrow> nat option res" where
  "binary_search arr target =
     (if arr = [] then Inr None
      else if last arr < target then Inr (Some (length arr - 1))
      else if target < hd arr then Inr None
      else bindR (bisect arr target 0 (length arr)) (\<lambda>i. Inr (Some i)))"

definition merge_level :: "rx list \<Rightarrow> section_text \<Rightarrow> nat" where
  "merge_level pats sec =
     (case first_match pats (strip_ws (fst sec)) of
        Some j \<Rightarrow> j
      | None \<Rightarrow> if titled_layout (snd sec) \<and> \<not> not_title (fst sec) then length pats else length pats + 1)"

definition level_lists :: "rx list \<Rightarrow> section_text list \<Rightarrow> nat list list" where
  "level_lists pats secs =
     map (\<lambda>l. filter (\<lambda>i. merge_level pats (secs ! i) = l) [0..<length secs]) [0..<length pats + 2]"

text \<open>The titles above a section: in each further level the last section before it, unless that lies before
  the title already found, which it then replaces\<close>

fun climb :: "nat list list \<Rightarrow> nat \<Rightarrow> nat list \<Rightarrow> nat list res" where
  "climb [] j ck = Inr ck"
| "climb (lvl # rest) j ck =
     bindR (binary_search lvl j) (\<lambda>jj.
       case jj of
         None \<Rightarrow> climb rest j ck
       | Some k \<Rightarrow> let v = lvl ! k
                   in climb rest j ((if last ck < v then butlast ck else ck) @ [v]))"

text \<open>\<open>uppers\<close> are the levels behind the current one in the reversed list.\<close>

fun merge_one_level :: "nat list list \<Rightarrow> nat list \<Rightarrow> nat list \<times> nat list list \<Rightarrow> (nat list \<times> nat list list) res" where
  "merge_one_level uppers [] st = Inr st"
| "merge_one_level uppers (j # js) (readed, cks) =
     (if j \<in> set readed then merge_one_level uppers js (readed, cks)
      else if length uppers = 1 then merge_one_level uppers js (j # readed, cks @ [[j]])
      else bindR (climb uppers j [j]) (\<lambda>ck. merge_one_level uppers js (ck @ j # readed, cks @ [ck])))"

fun merge_levels :: "nat \<Rightarrow> nat list list \<Rightarrow> nat list \<times> nat list list \<Rightarrow> (nat list \<times> nat list list) res" where
  "merge_levels (Suc d) (arr # uppers) st = bindR (merge_one_level uppers arr st) (merge_levels d uppers)"
| "merge_levels d lvls st = Inr st"

text \<open>\<open>re.sub(r"@@[0-9]+.*", "", txt)\<close>\<close>

function cut_tags :: "string \<Rightarrow> string" where
  "cut_tags s =
     (if s = [] then []
      else if starts_with s ''@@'' \<and> drop 2 s \<noteq> [] \<and> is_digit (s ! 2) then cut_tags (dropWhile (\<lambda>c. c \<noteq> lf) s)
      else hd s # cut_tags (tl s))"
  by pat_completeness auto
termination
proof (relation "measure length", goal_cases)
  case (2 s)
  then have "hd s = CHR ''@''" by (cases s) (auto simp: starts_with_def)
  then have "dropWhile (\<lambda>c. c \<noteq> lf) s = dropWhile (\<lambda>c. c \<noteq> lf) (tl s)"
    using 2 by (cases s) (auto simp: lf_def)
  also have "length \<dots> < length s" using 2 length_dropWhile_le [of _ "tl s"] by (cases s) (auto simp: less_Suc_eq_le)
  finally show ?case by simp
qed auto

declare cut_tags.simps [simp del]

text \<open>Groups of chunks, latest first, with the tokens of each: a chunk of one text joins the last group while
  it stays below 218 tokens.\<close>

fun group_chunks :: "(string \<Rightarrow> nat) \<Rightarrow> string list list \<Rightarrow> (string list \<times> nat) list \<Rightarrow> (string list \<times> nat) list" where
  "group_chunks ntk [] acc = acc"
| "group_chunks ntk (ck # cks) acc =
     (if length ck = 1
      then let n = ntk (cut_tags (hd ck))
           in if n + snd (last acc) < 218
              then group_chunks ntk cks (butlast acc @ [(fst (last acc) @ [hd ck], snd (last acc) + n)])
              else group_chunks ntk cks (acc @ [(ck, n)])
      else group_chunks ntk cks (acc @ [(ck, 218)]))"

definition hierarchical_merge :: "(string \<Rightarrow> nat) \<Rightarrow> int \<Rightarrow> sections \<Rightarrow> nat \<Rightarrow> string list list res" where
  "hierarchical_merge ntk bull secs depth =
     (if section_texts secs = [] \<or> bull < 0 then Inr []
      else bindR (py_nth BULLET_PATTERN bull) (\<lambda>pats.
           let ss = filter kept_section (section_texts secs)
           in bindR (merge_levels depth (rev (level_lists pats ss)) ([], [])) (\<lambda>(_, cks).
                if cks = [] then Inr []
                else Inr (map fst (group_chunks ntk (map (\<lambda>ck. map (\<lambda>j. fst (ss ! j)) (rev ck)) cks) [([], 0)])))))"

end
