(* ===== verification/ChunkSpec.thy ===== *)
theory ChunkSpec
  imports Chunking
begin

text \<open>
  What the chunker of titled text promises: \<open>tree_merge\<close> gives the sections of the outline with the
  titles above them, \<open>hierarchical_merge\<close> never fails its assertion and loses no section of the levels it is asked
  for, and both find titles by the bullet patterns.
\<close>

section \<open>The outline of a list of lines\<close>

text \<open>The texts before the first title within the depth, and the titles with the texts below them\<close>

fun titles_of :: "nat \<Rightarrow> (nat \<times> string) list \<Rightarrow> string list \<times> (nat \<times> string list) list" where
  "titles_of d [] = ([], [])"
| "titles_of d ((l, t) # ls) =
     (case titles_of d ls of (pre, hs) \<Rightarrow> if d < l then (t # pre, hs) else ([], (l, t # pre) # hs))"

text \<open>
  A title is below the nearest earlier title of a smaller level, and one that has none below it gives a chunk:
  its texts under those of the titles above it.  \<open>path\<close> holds the titles above, the nearest first.
\<close>

definition path_chunk :: "(nat \<times> string list) list \<Rightarrow> string" where
  "path_chunk path = join [lf] (concat (map snd (rev path)))"

fun outline :: "(nat \<times> string list) list \<Rightarrow> (nat \<times> string list) list \<Rightarrow> string list" where
  "outline path [] = []"
| "outline path (h # hs) =
     (let me = h # dropWhile (\<lambda>k. fst h \<le> fst k) path
      in (if hs = [] \<or> fst (hd hs) \<le> fst h then [path_chunk me] else []) @ outline me hs)"

definition outline_chunks :: "nat \<Rightarrow> (nat \<times> string) list \<Rightarrow> string list" where
  "outline_chunks d lines =
     (case titles_of d lines of (pre, hs) \<Rightarrow> (if pre = [] then [] else [join [lf] pre]) @ outline [] hs)"

section \<open>The stack of open nodes\<close>

definition add_texts :: "open_node list \<Rightarrow> string list \<Rightarrow> open_node list" where
  "add_texts st pre = (case st of (l, ts, cs) # rest \<Rightarrow> (l, ts @ pre, cs) # rest | [] \<Rightarrow> [])"

definition push_title :: "open_node list \<Rightarrow> nat \<times> string list \<Rightarrow> open_node list" where
  "push_title st h = (fst h, snd h, []) # pop_to (fst h) st"

lemma build_lines_titles:
  "titles_of d ls = (pre, hs) \<Longrightarrow> st \<noteq> [] \<Longrightarrow>
     foldl (build_line d) st ls = foldl push_title (add_texts st pre) hs"
proof (induction ls arbitrary: st pre hs)
  case Nil
  then show ?case by (cases st) (auto simp: add_texts_def)
next
  case (Cons x ls)
  obtain l t where x: "x = (l, t)" by (cases x)
  obtain pre1 hs1 where t1: "titles_of d ls = (pre1, hs1)" by (cases "titles_of d ls")
  obtain k ts cs rest where st: "st = (k, ts, cs) # rest" using Cons.prems(2) by (cases st) auto
  show ?case
  proof (cases "d < l")
    case True
    with Cons.prems x t1 have "pre = t # pre1" "hs = hs1" by auto
    with True Cons.IH [OF t1, of "(k, ts @ [t], cs) # rest"] x st show ?thesis
      by (simp add: build_line_def add_texts_def)
  next
    case False
    with Cons.prems x t1 have "pre = []" "hs = (l, t # pre1) # hs1" by auto
    with False Cons.IH [OF t1, of "(l, [t], []) # pop_to l st"] x st show ?thesis
      by (simp add: build_line_def add_texts_def push_title_def)
  qed
qed

text \<open>The titles of the open nodes above the root, the chunks of the nodes closed so far, and whether the open node
  on top would give a chunk if it were closed now\<close>

fun above_root :: "open_node list \<Rightarrow> (nat \<times> string list) list" where
  "above_root (x # y # st) = (fst x, fst (snd x)) # above_root (y # st)"
| "above_root st = []"

definition path_texts :: "open_node list \<Rightarrow> string list" where
  "path_texts st = concat (map snd (rev (above_root st)))"

fun closed_chunks :: "nat \<Rightarrow> open_node list \<Rightarrow> string list" where
  "closed_chunks d [] = []"
| "closed_chunks d [(l, ts, cs)] = (if ts = [] then [] else [join [lf] ts]) @ concat (map (dfs d []) cs)"
| "closed_chunks d (x # y # st) = closed_chunks d (y # st) @ concat (map (dfs d (path_texts (x # y # st))) (snd (snd x)))"

definition top_chunk :: "open_node list \<Rightarrow> string list" where
  "top_chunk st = (if 1 < length st \<and> snd (snd (hd st)) = [] then [path_chunk (above_root st)] else [])"

text \<open>The root has level 0, the others have a level within the depth, and have no text-less node above them.\<close>

definition open_ok :: "nat \<Rightarrow> open_node list \<Rightarrow> bool" where
  "open_ok d st \<longleftrightarrow> st \<noteq> [] \<and> fst (last st) = 0 \<and> (\<forall>x\<in>set (butlast st). 1 \<le> fst x \<and> fst x \<le> d)"

lemma close_into_simps [simp]:
  "fst (close_into x p) = fst p" "fst (snd (close_into x p)) = fst (snd p)"
  "snd (snd (close_into x p)) = snd (snd p) @ [Node (fst x) (fst (snd x)) (snd (snd x))]"
  by (cases x; cases p; simp add: close_into_def)+

lemma above_root_close: "above_root (close_into x p # st) = above_root (p # st)"
  by (cases st) simp_all

lemma closed_chunks_cons:
  "closed_chunks d (p # q # st) = closed_chunks d (q # st) @ concat (map (dfs d (path_texts (p # q # st))) (snd (snd p)))"
  by simp

lemma open_ok_tl: "open_ok d (x # p # st) \<Longrightarrow> open_ok d (close_into x p # st) \<and> 1 \<le> fst x \<and> fst x \<le> d"
  by (auto simp: open_ok_def split: if_splits)

lemma close_out:
  assumes "open_ok d (x # p # st)"
  shows "closed_chunks d (close_into x p # st) @ top_chunk (close_into x p # st) =
     closed_chunks d (x # p # st) @ top_chunk (x # p # st)"
proof -
  have x: "1 \<le> fst x" "fst x \<le> d" using open_ok_tl [OF assms] by auto
  obtain l ts cs where e: "x = (l, ts, cs)" by (cases x)
  have pt: "path_texts (x # p # st) = path_texts (p # st) @ ts" by (simp add: path_texts_def e)
  have leaf: "dfs d (path_texts (p # st)) (Node l ts cs) =
      concat (map (dfs d (path_texts (x # p # st))) cs) @ top_chunk (x # p # st)"
    using x by (auto simp: pt e top_chunk_def path_chunk_def path_texts_def Let_def)
  have t: "top_chunk (close_into x p # st) = []" by (simp add: top_chunk_def)
  show ?thesis
  proof (cases st)
    case Nil
    obtain l' ts' cs' where p: "p = (l', ts', cs')" by (cases p)
    have "path_texts (p # st) = []" by (simp add: path_texts_def Nil)
    with leaf t show ?thesis by (simp add: Nil p close_into_def e del: dfs.simps)
  next
    case (Cons q st')
    have "path_texts (close_into x p # st) = path_texts (p # st)" by (simp add: path_texts_def above_root_close)
    with leaf t show ?thesis by (simp add: Cons e del: dfs.simps)
  qed
qed

lemma close_all_out:
  "open_ok d st \<Longrightarrow> dfs d [] (close_all st) = closed_chunks d st @ top_chunk st"
proof (induction st rule: close_all.induct)
  case (1 x p st)
  then show ?case using open_ok_tl [of d x p st] close_out [of d x p st] by simp
next
  case (2 l ts cs)
  then show ?case by (simp add: open_ok_def top_chunk_def)
qed (simp add: open_ok_def)

text \<open>Popping: what is on top afterwards has closed nodes below it, unless nothing was popped.\<close>

lemma pop_to_above:
  assumes "open_ok d st"
  shows "open_ok d (pop_to l st) \<and> above_root (pop_to l st) = dropWhile (\<lambda>k. l \<le> fst k) (above_root st) \<and>
     closed_chunks d (pop_to l st) @ top_chunk (pop_to l st) = closed_chunks d st @ top_chunk st"
  using assms
proof (induction l st rule: pop_to.induct)
  case (1 l x p st)
  show ?case
  proof (cases "l \<le> fst x")
    case True
    with 1 open_ok_tl [OF 1(2)] close_out [OF 1(2)] show ?thesis by (simp add: above_root_close)
  next
    case False
    with 1 show ?thesis by simp
  qed
qed simp_all

lemma pop_to_popped: "l \<le> fst x \<Longrightarrow> top_chunk (pop_to l (x # p # st)) = []"
proof -
  have "snd (snd (hd (pop_to l (y # st)))) \<noteq> []" if "snd (snd y) \<noteq> []" for y st
    using that
  proof (induction l "y # st" arbitrary: y st rule: pop_to.induct)
    case (1 l x p st)
    then show ?case by (cases "l \<le> fst x") auto
  qed auto
  then show "l \<le> fst x \<Longrightarrow> top_chunk (pop_to l (x # p # st)) = []" by (simp add: top_chunk_def)
qed

definition leaf_top :: "open_node list \<Rightarrow> bool" where
  "leaf_top st \<longleftrightarrow> (1 < length st \<longrightarrow> snd (snd (hd st)) = [])"

lemma closed_push:
  assumes "open_ok d st" and "leaf_top st"
  shows "closed_chunks d (push_title st h) =
     closed_chunks d st @ (if 1 < length st \<and> fst h \<le> fst (hd st) then [path_chunk (above_root st)] else [])"
proof -
  have ne: "pop_to (fst h) st \<noteq> []" using pop_to_above [OF assms(1), of "fst h"] by (simp add: open_ok_def)
  then obtain y ys where y: "pop_to (fst h) st = y # ys" by (cases "pop_to (fst h) st") auto
  have c: "closed_chunks d (push_title st h) = closed_chunks d (pop_to (fst h) st)"
    by (simp add: push_title_def y)
  show ?thesis
  proof (cases "1 < length st \<and> fst h \<le> fst (hd st)")
    case True
    then obtain x p st' where st: "st = x # p # st'" by (cases st; cases "tl st") auto
    with True have "top_chunk (pop_to (fst h) st) = []" using pop_to_popped [of "fst h" x p st'] by simp
    with pop_to_above [OF assms(1), of "fst h"] True c show ?thesis using assms(2)
      by (simp add: top_chunk_def leaf_top_def)
  next
    case False
    then have "pop_to (fst h) st = st" by (cases st rule: remdups_adj.cases) auto
    with False c show ?thesis by simp
  qed
qed

lemma above_root_push: "open_ok d st \<Longrightarrow> above_root (push_title st h) = h # dropWhile (\<lambda>k. fst h \<le> fst k) (above_root st)"
proof -
  assume "open_ok d st"
  then have "above_root (pop_to (fst h) st) = dropWhile (\<lambda>k. fst h \<le> fst k) (above_root st)" "pop_to (fst h) st \<noteq> []"
    using pop_to_above [of d st "fst h"] by (auto simp: open_ok_def)
  then show ?thesis by (cases "pop_to (fst h) st") (auto simp: push_title_def)
qed

lemma outline_run:
  assumes "open_ok d st" and "leaf_top st" and "\<forall>h\<in>set hs. 1 \<le> fst h \<and> fst h \<le> d"
  shows "dfs d [] (close_all (foldl push_title st hs)) =
     closed_chunks d st @
     (if 1 < length st \<and> (hs = [] \<or> fst (hd hs) \<le> fst (hd st)) then [path_chunk (above_root st)] else []) @
     outline (above_root st) hs"
  using assms
proof (induction hs arbitrary: st)
  case Nil
  then show ?case by (auto simp: close_all_out top_chunk_def leaf_top_def)
next
  case (Cons h hs)
  have ok: "open_ok d (push_title st h)"
    using pop_to_above [OF Cons.prems(1), of "fst h"] Cons.prems(3) by (auto simp: push_title_def open_ok_def)
  have lf: "leaf_top (push_title st h)" by (simp add: leaf_top_def push_title_def)
  have len: "1 < length (push_title st h)"
    using pop_to_above [OF Cons.prems(1), of "fst h"] by (simp add: push_title_def open_ok_def)
  have hd: "fst (hd (push_title st h)) = fst h" by (simp add: push_title_def)
  show ?case
    using Cons.IH [OF ok lf] Cons.prems(3) len hd closed_push [OF Cons.prems(1,2), of h]
      above_root_push [OF Cons.prems(1), of h]
    by (simp add: Let_def)
qed

lemma titles_in_depth:
  "\<forall>l\<in>set ls. 1 \<le> fst l \<Longrightarrow> titles_of d ls = (pre, hs) \<Longrightarrow> \<forall>h\<in>set hs. 1 \<le> fst h \<and> fst h \<le> d"
proof (induction ls arbitrary: pre hs)
  case (Cons x ls)
  obtain pre1 hs1 where "titles_of d ls = (pre1, hs1)" by (cases "titles_of d ls")
  with Cons show ?case by (cases x) (auto split: if_splits)
qed simp

lemma get_tree_outline:
  assumes "\<forall>l\<in>set lines. 1 \<le> fst l"
  shows "get_tree d (build_tree d lines) = outline_chunks d lines"
proof -
  obtain pre hs where t: "titles_of d lines = (pre, hs)" by (cases "titles_of d lines")
  have f: "foldl (build_line d) [(0, [], [])] lines = foldl push_title [(0, pre, [])] hs"
    using build_lines_titles [OF t, of "[(0, [], [])]"] by (simp add: add_texts_def)
  have "open_ok d [(0, pre, [])]" "leaf_top [(0, pre, [])]" by (simp_all add: open_ok_def leaf_top_def)
  from outline_run [OF this titles_in_depth [OF assms t]] f t show ?thesis
    by (simp add: get_tree_def build_tree_def outline_chunks_def)
qed

section \<open>Merging by the outline\<close>

definition patterns :: "int \<Rightarrow> rx list" where
  "patterns bull = BULLET_PATTERN ! nat bull"

lemma length_BULLET_PATTERN: "length BULLET_PATTERN = 5"
  by (simp add: BULLET_PATTERN_def)

lemma py_nth_Nil: "py_nth [] i = Inl (Exc IndexErr ''list index out of range'')"
  by (simp add: py_nth_def)

lemma py_nth_at: "0 \<le> i \<Longrightarrow> i < int (length xs) \<Longrightarrow> py_nth xs i = Inr (xs ! nat i)"
  by (simp add: py_nth_def)

lemma py_nth_patterns: "0 \<le> bull \<Longrightarrow> bull < 5 \<Longrightarrow> py_nth BULLET_PATTERN bull = Inr (patterns bull)"
  unfolding patterns_def by (rule py_nth_at) (simp_all add: length_BULLET_PATTERN)

lemma py_nth_in: "py_nth xs i = Inr x \<Longrightarrow> x \<in> set xs"
  by (auto simp: py_nth_def Let_def split: if_splits)

lemma py_nth_ok: "- int (length xs) \<le> i \<Longrightarrow> i < int (length xs) \<Longrightarrow> \<exists>x. py_nth xs i = Inr x"
  by (auto simp: py_nth_def Let_def)

lemma target_level_ok:
  assumes "levels \<noteq> []" and "1 \<le> depth"
  shows "\<exists>d. target_level n depth levels = Inr d \<and> d \<in> set levels"
proof -
  define sl where "sl = sort (remdups levels)"
  have sl: "set sl = set levels" "sl \<noteq> []" using assms(1) by (simp_all add: sl_def flip: set_empty)
  have ok: "\<exists>x. py_nth sl i = Inr x \<and> x \<in> set levels" if "- int (length sl) \<le> i" "i < int (length sl)" for i
    using py_nth_ok [OF that] py_nth_in [of sl i] sl(1) by blast
  have len: "0 < length sl" using sl(2) by simp
  obtain t where t: "(if depth \<le> int (length sl) then py_nth sl (depth - 1) else py_nth sl (- 1)) = Inr t" "t \<in> set levels"
  proof (cases "depth \<le> int (length sl)")
    case True
    with ok [of "depth - 1"] len assms(2) that show ?thesis by auto
  next
    case False
    with ok [of "- 1"] len that show ?thesis by auto
  qed
  have "\<exists>d. (if t = n + 2 then (if 1 < length sl then py_nth sl (- 2) else py_nth sl 0) else Inr t) = Inr d \<and> d \<in> set levels"
    using ok [of "- 2"] ok [of 0] len t(2) by auto
  then show ?thesis unfolding target_level_def sl_def [symmetric] Let_def t(1) by simp
qed

lemma level_lines_pos: "\<forall>l\<in>set (level_lines pats ss). 1 \<le> fst l"
  by (auto simp: level_lines_def get_level_def Let_def split: option.splits if_splits)

text \<open>C30: merging a text with titles by the tree of its lines gives the chunks of its outline: the texts
  before the first title, then each title that has none below it, with its own texts, under the titles above it, in the
  order of the document; a title is below the nearest earlier one of a smaller level.\<close>

theorem tree_merge_outline:
  assumes "0 \<le> bull" and "bull < 5" and "1 \<le> depth" and "level_lines (patterns bull) (section_texts secs) \<noteq> []"
  shows "\<exists>d. tree_merge bull secs depth =
       Inr (Texts (filter (\<lambda>e. e \<noteq> []) (outline_chunks d (level_lines (patterns bull) (section_texts secs))))) \<and>
     d \<in> fst ` set (level_lines (patterns bull) (section_texts secs))"
proof -
  let ?lines = "level_lines (patterns bull) (section_texts secs)"
  have "section_texts secs \<noteq> []" using assms(4) by (auto simp: level_lines_def)
  moreover obtain d where "target_level (length (patterns bull)) depth (map fst ?lines) = Inr d" "d \<in> fst ` set ?lines"
    using target_level_ok [of "map fst ?lines" depth "length (patterns bull)"] assms(3,4) by auto
  ultimately show ?thesis
    using assms(1) get_tree_outline [OF level_lines_pos, of d "patterns bull" "section_texts secs"]
    by (auto simp: tree_merge_def py_nth_patterns [OF assms(1,2)] Let_def)
qed

definition demo_outline :: sections where
  "demo_outline = Texts [''preface'', ''# One'', ''intro'', ''## Two'', ''body'', ''### Deep'', ''## Three'', ''# Four'']"

text \<open>The patterns of Markdown headings\<close>

definition markdown :: "rx list" where
  "markdown =
     [RSeq (lit ''#'') (any_but [(0, 34), (36, 127)]), RSeq (lit ''##'') (any_but [(0, 34), (36, 127)]),
      lit ''###'', lit ''####'', lit ''#####'', lit ''######'']"

lemma patterns_4: "patterns 4 = markdown"
  by (simp add: patterns_def BULLET_PATTERN_def markdown_def)

lemma demo_outline_lines:
  "level_lines markdown (section_texts demo_outline) =
     [(8, ''preface''), (1, ''# One''), (8, ''intro''), (2, ''## Two''), (8, ''body''), (3, ''### Deep''), (2, ''## Three''),
      (1, ''# Four'')]"
  by code_simp

lemma demo_outline_merged:
  "tree_merge 4 demo_outline 2 =
     Inr (Texts [''preface'', ''# One'' @ [lf] @ ''intro'' @ [lf] @ ''## Two'' @ [lf] @ ''body'' @ [lf] @ ''### Deep'',
       ''# One'' @ [lf] @ ''intro'' @ [lf] @ ''## Three'', ''# Four''])"
proof -
  have "target_level (length markdown) 2 [8, 1, 8, 2, 8, 3, 2, 1] = Inr 2" by code_simp
  moreover have "get_tree 2 (build_tree 2 [(8, ''preface''), (1, ''# One''), (8, ''intro''), (2, ''## Two''), (8, ''body''),
      (3, ''### Deep''), (2, ''## Three''), (1, ''# Four'')]) =
    [''preface'', ''# One'' @ [lf] @ ''intro'' @ [lf] @ ''## Two'' @ [lf] @ ''body'' @ [lf] @ ''### Deep'',
     ''# One'' @ [lf] @ ''intro'' @ [lf] @ ''## Three'', ''# Four'']" by code_simp
  moreover have "section_texts demo_outline \<noteq> []" by (simp add: demo_outline_def section_texts_def)
  ultimately show ?thesis
    by (simp add: tree_merge_def py_nth_patterns patterns_4 demo_outline_lines Let_def)
qed

theorem tree_merge_outline_witness:
  "\<exists>d. tree_merge 4 demo_outline 2 =
       Inr (Texts (filter (\<lambda>e. e \<noteq> []) (outline_chunks d (level_lines (patterns 4) (section_texts demo_outline)))))"
proof -
  have "level_lines (patterns 4) (section_texts demo_outline) \<noteq> []" by (simp add: patterns_4 demo_outline_lines)
  from tree_merge_outline [OF _ _ _ this, of 2] show ?thesis by auto
qed

section \<open>Every text is kept\<close>

lemma contains_trans: "contains b a \<Longrightarrow> contains c b \<Longrightarrow> contains c a"
  unfolding contains_def by (rule sublist_order.order.trans)

lemma contains_join: "w \<in> set ws \<Longrightarrow> contains (join s ws) w"
  unfolding contains_def
proof (induction s ws rule: join.induct)
  case (3 s w' v ws)
  then show ?case by (auto simp: sublist_append_rightI sublist_append_leftI intro: sublist_appendI)
     (metis append_assoc sublist_append_leftI sublist_order.order.trans)+
qed auto

lemma outline_first:
  "\<exists>p. path_chunk p \<in> set (outline path (h # hs)) \<and> h \<in> set p"
proof -
  have "\<exists>p. path_chunk p \<in> set (outline path (h # hs)) \<and> set (h # dropWhile (\<lambda>k. fst h \<le> fst k) path) \<subseteq> set p"
  proof (induction hs arbitrary: h path)
    case Nil
    then show ?case by (auto simp: Let_def intro: exI [of _ "h # dropWhile (\<lambda>k. fst h \<le> fst k) path"])
  next
    case (Cons g hs)
    let ?me = "h # dropWhile (\<lambda>k. fst h \<le> fst k) path"
    show ?case
    proof (cases "fst g \<le> fst h")
      case True
      then have "path_chunk ?me \<in> set (outline path (h # g # hs))" by (simp add: Let_def)
      then show ?thesis by blast
    next
      case False
      then have "dropWhile (\<lambda>k. fst g \<le> fst k) ?me = ?me" by simp
      with Cons.IH [of ?me g] False show ?thesis by (fastforce simp: Let_def)
    qed
  qed
  then show ?thesis by auto
qed

lemma outline_all: "h \<in> set hs \<Longrightarrow> \<exists>p. path_chunk p \<in> set (outline path hs) \<and> h \<in> set p"
proof (induction hs arbitrary: path)
  case (Cons g hs)
  show ?case
  proof (cases "h = g")
    case True
    then show ?thesis using outline_first by blast
  next
    case False
    with Cons show ?thesis by (fastforce simp: Let_def)
  qed
qed simp

lemma titles_of_texts:
  "titles_of d ls = (pre, hs) \<Longrightarrow> snd ` set ls = set pre \<union> (\<Union>h\<in>set hs. set (snd h))"
proof (induction ls arbitrary: pre hs)
  case (Cons x ls)
  obtain pre1 hs1 where "titles_of d ls = (pre1, hs1)" by (cases "titles_of d ls")
  note t = this Cons.IH [OF this]
  show ?case
  proof (cases "d < fst x")
    case True
    with t Cons.prems show ?thesis by (cases x) auto
  next
    case False
    with t Cons.prems have "hs = (fst x, snd x # pre1) # hs1" "pre = []" by (cases x, simp)+
    with t show ?thesis by simp
  qed
qed simp

lemma outline_chunks_keep:
  assumes "l \<in> set lines"
  shows "\<exists>c\<in>set (outline_chunks d lines). contains c (snd l)"
proof -
  obtain pre hs where t: "titles_of d lines = (pre, hs)" by (cases "titles_of d lines")
  have "snd l \<in> set pre \<union> (\<Union>h\<in>set hs. set (snd h))" using titles_of_texts [OF t] assms by blast
  then consider "snd l \<in> set pre" | h where "h \<in> set hs" "snd l \<in> set (snd h)" by blast
  then show ?thesis
  proof cases
    case 1
    then have "contains (join [lf] pre) (snd l)" "pre \<noteq> []" by (auto intro: contains_join)
    then show ?thesis by (auto simp: outline_chunks_def t)
  next
    case 2
    from outline_all [OF 2(1), of "[]"] obtain p where p: "path_chunk p \<in> set (outline [] hs)" "h \<in> set p" by blast
    with 2(2) have "contains (path_chunk p) (snd l)" by (auto simp: path_chunk_def intro!: contains_join)
    with p(1) show ?thesis by (auto simp: outline_chunks_def t)
  qed
qed

text \<open>No line is lost by the tree: the text of every section that is kept and is not empty is part of
  some chunk.\<close>

theorem tree_merge_keeps:
  assumes "0 \<le> bull" and "bull < 5" and "1 \<le> depth" and "sec \<in> set (section_texts secs)" and "kept_section sec"
    and "strip_of (\<lambda>c. c = lf) (snd (get_level (patterns bull) sec)) \<noteq> []"
  shows "\<exists>cs. tree_merge bull secs depth = Inr (Texts cs) \<and>
     (\<exists>c\<in>set cs. contains c (snd (get_level (patterns bull) sec)))"
proof -
  let ?l = "get_level (patterns bull) sec"
  have l: "?l \<in> set (level_lines (patterns bull) (section_texts secs))"
    using assms(4-6) by (simp add: level_lines_def)
  then have "level_lines (patterns bull) (section_texts secs) \<noteq> []" by auto
  from tree_merge_outline [OF assms(1-3) this] obtain d where
    d: "tree_merge bull secs depth =
      Inr (Texts (filter (\<lambda>e. e \<noteq> []) (outline_chunks d (level_lines (patterns bull) (section_texts secs)))))" by blast
  obtain c where c: "c \<in> set (outline_chunks d (level_lines (patterns bull) (section_texts secs)))" "contains c (snd ?l)"
    using outline_chunks_keep [OF l] by blast
  have "snd ?l \<noteq> []" using assms(6) by (auto simp: strip_of_def)
  with c(2) have "c \<noteq> []" by (auto simp: contains_def)
  with d c show ?thesis by auto
qed

theorem tree_merge_keeps_witness:
  "\<exists>cs. tree_merge 4 demo_outline 2 = Inr (Texts cs) \<and> (\<exists>c\<in>set cs. contains c (snd (get_level (patterns 4) (''### Deep'', []))))"
proof -
  have "kept_section (''### Deep'', [])" "strip_of (\<lambda>c. c = lf) (snd (get_level (patterns 4) (''### Deep'', []))) \<noteq> []"
    unfolding patterns_4 by code_simp+
  then show ?thesis
    using tree_merge_keeps [of 4 2 "(''### Deep'', [])" demo_outline] by (simp add: demo_outline_def section_texts_def)
qed

text \<open>When every section is dropped as a page number, a single character or a position tag, the tree has no
  levels, and \<open>tree_merge\<close> raises an IndexError instead of giving no chunk.\<close>

theorem tree_merge_raises:
  assumes "0 \<le> bull" and "bull < 5" and "section_texts secs \<noteq> []" and "\<forall>sec\<in>set (section_texts secs). \<not> kept_section sec"
  shows "tree_merge bull secs depth = Inl (Exc IndexErr ''list index out of range'')"
proof -
  have "level_lines (patterns bull) (section_texts secs) = []" using assms(4) by (simp add: level_lines_def)
  then show ?thesis using assms(1,3)
    by (simp add: tree_merge_def py_nth_patterns [OF assms(1,2)] target_level_def py_nth_Nil Let_def)
qed

theorem tree_merge_raises_witness:
  "bullets_category [''.'', ''12''] = 1 \<and>
     tree_merge (bullets_category [''.'', ''12'']) (Texts [''.'', ''12'']) 2 = Inl (Exc IndexErr ''list index out of range'')"
proof -
  have b: "bullets_category [''.'', ''12''] = 1" by code_simp
  have "list_all (\<lambda>sec. \<not> kept_section sec) (section_texts (Texts [''.'', ''12'']))" by code_simp
  then show ?thesis using tree_merge_raises [of 1 "Texts [''.'', ''12'']" 2] b by (simp add: list_all_iff section_texts_def)
qed

section \<open>Hierarchical merging\<close>

text \<open>Bisection in a strictly increasing list that does not hold the target: the last entry below it\<close>

lemma bisect_spec:
  "target \<notin> set arr \<Longrightarrow> s < e \<Longrightarrow> e \<le> length arr \<Longrightarrow> arr ! s < target \<Longrightarrow> (e < length arr \<longrightarrow> target < arr ! e) \<Longrightarrow>
     \<exists>k. bisect arr target s e = Inr k \<and> k < length arr \<and> arr ! k < target \<and>
       (Suc k < length arr \<longrightarrow> target < arr ! Suc k)"
proof (induction arr target s e rule: bisect.induct)
  case (1 arr target s e)
  show ?case
  proof (cases "1 < e - s")
    case False
    with 1(4) have "e = Suc s" by simp
    with 1 False show ?thesis by (subst bisect.simps) auto
  next
    case True
    define i where "i = (e + s) div 2"
    have i: "s < i" "i < e" "i < length arr" using True 1(5) by (auto simp: i_def)
    have "arr ! i \<noteq> target" using i(3) 1(3) by (metis nth_mem)
    then show ?thesis using 1 True i by (subst bisect.simps) (auto simp: i_def [symmetric] Let_def)
  qed
qed

text \<open>The last entry of a sorted list below a target that is not in it\<close>

lemma binary_search_spec:
  assumes "sorted arr" and "target \<notin> set arr"
  shows "\<exists>r. binary_search arr target = Inr r \<and>
     (case r of None \<Rightarrow> \<forall>x\<in>set arr. target < x
      | Some k \<Rightarrow> k < length arr \<and> arr ! k < target \<and> (\<forall>i<length arr. arr ! i < target \<longrightarrow> i \<le> k))"
proof (cases "arr = []")
  case False
  then have l: "last arr = arr ! (length arr - 1)" "hd arr = arr ! 0" "0 < length arr"
    by (simp_all add: last_conv_nth hd_conv_nth)
  have mono: "arr ! i \<le> arr ! j" if "i \<le> j" "j < length arr" for i j
    using assms(1) that by (rule sorted_nth_mono)
  have ne: "arr ! i \<noteq> target" if "i < length arr" for i using assms(2) that by (metis nth_mem)
  consider (a) "last arr < target" | (b) "\<not> last arr < target" "target < hd arr"
    | (c) "\<not> last arr < target" "\<not> target < hd arr" by blast
  then show ?thesis
  proof cases
    case a
    then show ?thesis using False l by (auto simp: binary_search_def)
  next
    case b
    have "target < x" if x: "x \<in> set arr" for x
    proof -
      obtain i where "i < length arr" "x = arr ! i" using x by (metis in_set_conv_nth)
      with mono [of 0 i] b(2) l(2) show ?thesis by simp
    qed
    with b False show ?thesis by (auto simp: binary_search_def)
  next
    case c
    with ne [of 0] l have h: "arr ! 0 < target" by simp
    from bisect_spec [OF assms(2), of 0 "length arr"] h l obtain k where
      k: "bisect arr target 0 (length arr) = Inr k" "k < length arr" "arr ! k < target"
      "Suc k < length arr \<longrightarrow> target < arr ! Suc k" by auto
    have "i \<le> k" if "i < length arr" "arr ! i < target" for i
    proof (rule ccontr)
      assume "\<not> i \<le> k"
      then have "Suc k \<le> i" by simp
      with mono [OF this that(1)] k(4) that show False by simp
    qed
    with k c False show ?thesis by (auto simp: binary_search_def)
  qed
qed (simp add: binary_search_def)

text \<open>Climbing from a section keeps it in front.\<close>

lemma climb_keeps:
  assumes "\<forall>lvl\<in>set lvls. sorted lvl \<and> j \<notin> set lvl"
  shows "\<exists>ck'. climb lvls j (j # ck) = Inr (j # ck')"
  using assms
proof (induction lvls arbitrary: ck)
  case (Cons lvl lvls)
  then obtain r where r: "binary_search lvl j = Inr r"
    "case r of None \<Rightarrow> True | Some k \<Rightarrow> lvl ! k < j"
    using binary_search_spec [of lvl j] by (auto split: option.splits)
  show ?case
  proof (cases r)
    case None
    with r Cons show ?thesis by simp
  next
    case (Some k)
    then have "lvl ! k < j" using r(2) by simp
    then have "(if last (j # ck) < lvl ! k then butlast (j # ck) else j # ck) =
        j # (if ck \<noteq> [] \<and> last ck < lvl ! k then butlast ck else ck)" by auto
    with Cons.IH [of "(if ck \<noteq> [] \<and> last ck < lvl ! k then butlast ck else ck) @ [lvl ! k]"] Cons.prems r(1) Some
    show ?thesis by (simp add: Let_def)
  qed
qed simp

lemma merge_one_level_keeps:
  assumes "\<forall>lvl\<in>set lvls. sorted lvl \<and> set js \<inter> set lvl = {}" and "set rd \<subseteq> set (concat cks)"
  shows "\<exists>rd' cks'. merge_one_level lvls js (rd, cks) = Inr (rd', cks') \<and> set rd' \<subseteq> set (concat cks') \<and>
     set js \<union> set (concat cks) \<subseteq> set (concat cks')"
  using assms
proof (induction js arbitrary: rd cks)
  case (Cons j js)
  consider (a) "j \<in> set rd" | (b) "j \<notin> set rd" "length lvls = 1" | (c) "j \<notin> set rd" "length lvls \<noteq> 1" by blast
  then show ?case
  proof cases
    case a
    with Cons.IH [of rd cks] Cons.prems show ?thesis by fastforce
  next
    case b
    with Cons.IH [of "j # rd" "cks @ [[j]]"] Cons.prems show ?thesis by fastforce
  next
    case c
    obtain ck where ck: "climb lvls j [j] = Inr (j # ck)" using climb_keeps [of lvls j "[]"] Cons.prems(1) by auto
    with c Cons.IH [of "(j # ck) @ j # rd" "cks @ [j # ck]"] Cons.prems show ?thesis by fastforce
  qed
qed simp

lemma merge_levels_keep:
  assumes "\<forall>lvl\<in>set lvls. sorted lvl" and "\<forall>i<length lvls. \<forall>k<length lvls. i \<noteq> k \<longrightarrow> set (lvls ! i) \<inter> set (lvls ! k) = {}"
    and "set rd \<subseteq> set (concat cks)"
  shows "\<exists>rd' cks'. merge_levels d lvls (rd, cks) = Inr (rd', cks') \<and>
     set (concat (take d lvls)) \<union> set (concat cks) \<subseteq> set (concat cks')"
  using assms
proof (induction d lvls "(rd, cks)" arbitrary: rd cks rule: merge_levels.induct)
  case (1 d arr lvls)
  have disj: "\<forall>lvl\<in>set lvls. sorted lvl \<and> set arr \<inter> set lvl = {}"
  proof
    fix lvl assume "lvl \<in> set lvls"
    then obtain k where "k < length lvls" "lvl = lvls ! k" by (auto simp: in_set_conv_nth)
    with 1(2) 1(3) [rule_format, of 0 "Suc k"] show "sorted lvl \<and> set arr \<inter> set lvl = {}" by auto
  qed
  obtain rd1 cks1 where 2: "merge_one_level lvls arr (rd, cks) = Inr (rd1, cks1)" "set rd1 \<subseteq> set (concat cks1)"
    "set arr \<union> set (concat cks) \<subseteq> set (concat cks1)"
    using merge_one_level_keeps [OF disj 1(4)] by blast
  have "\<forall>i<length lvls. \<forall>k<length lvls. i \<noteq> k \<longrightarrow> set (lvls ! i) \<inter> set (lvls ! k) = {}"
    using 1(3) by (metis Suc_less_eq length_Cons nat.inject nth_Cons_Suc)
  with 1(1) [OF 2(1)] 1(2) 2 show ?case by fastforce
qed auto

lemma group_chunks_texts:
  "acc \<noteq> [] \<Longrightarrow>
     set (concat (map fst (group_chunks ntk cks acc))) = set (concat (map fst acc)) \<union> set (concat cks)"
proof (induction cks arbitrary: acc)
  case (Cons ck cks)
  obtain ini l where acc: "acc = ini @ [l]" using Cons.prems by (cases acc rule: rev_cases) auto
  obtain c where c: "length ck = 1 \<Longrightarrow> ck = [c]" by (cases ck) auto
  show ?case
    using Cons.IH [of "ini @ [(fst l @ [hd ck], snd l + ntk (cut_tags (hd ck)))]"]
      Cons.IH [of "acc @ [(ck, ntk (cut_tags (hd ck)))]"] Cons.IH [of "acc @ [(ck, 218)]"] c
    by (cases "length ck = 1") (auto simp: acc Let_def)
qed simp

lemma level_lists_props:
  "length (level_lists pats ss) = length pats + 2" "\<forall>lvl\<in>set (level_lists pats ss). sorted lvl"
  "l < length pats + 2 \<Longrightarrow> set (level_lists pats ss ! l) = {i. i < length ss \<and> merge_level pats (ss ! i) = l}"
proof -
  show "l < length pats + 2 \<Longrightarrow> set (level_lists pats ss ! l) = {i. i < length ss \<and> merge_level pats (ss ! i) = l}"
    by (auto simp: level_lists_def simp del: upt_Suc)
qed (auto simp: level_lists_def sorted_filter [of id, simplified])

lemma merge_level_bound: "merge_level pats sec < length pats + 2"
proof -
  have "first_match ps t = Some j \<Longrightarrow> j < length ps" for ps t j
    by (induction ps arbitrary: j) (auto split: if_splits)
  then show ?thesis by (auto simp: merge_level_def less_Suc_eq split: option.splits)
qed

lemma merged_sections:
  assumes "i < length ss" and "length pats + 1 < depth + merge_level pats (ss ! i)"
  shows "\<exists>rd cks. merge_levels depth (rev (level_lists pats ss)) ([], []) = Inr (rd, cks) \<and> i \<in> set (concat cks)"
proof -
  note p = level_lists_props [where pats = pats and ss = ss]
  define lv where "lv = rev (level_lists pats ss)"
  have len: "length lv = length pats + 2" by (simp add: lv_def p(1))
  have nth: "set (lv ! k) = {i. i < length ss \<and> merge_level pats (ss ! i) = length pats + 1 - k}" if "k < length lv" for k
    using that len p(3) [where l = "length pats + 1 - k"] p(1) by (simp add: lv_def rev_nth)
  have "\<forall>i<length lv. \<forall>k<length lv. i \<noteq> k \<longrightarrow> set (lv ! i) \<inter> set (lv ! k) = {}"
    using len by (auto simp: nth)
  moreover have "\<forall>lvl\<in>set lv. sorted lvl" using p(2) by (simp add: lv_def)
  ultimately obtain rd cks where m: "merge_levels depth lv ([], []) = Inr (rd, cks)"
    "set (concat (take depth lv)) \<subseteq> set (concat cks)"
    using merge_levels_keep [of lv "[]" "[]" depth] by auto
  define k where "k = length pats + 1 - merge_level pats (ss ! i)"
  have k: "k < length lv" "k < depth" using assms(2) merge_level_bound [of pats "ss ! i"] by (auto simp: k_def len)
  have "i \<in> set (lv ! k)" using assms(1) merge_level_bound [of pats "ss ! i"] nth [OF k(1)] by (auto simp: k_def)
  moreover have "lv ! k \<in> set (take depth lv)" using k by (metis in_set_conv_nth length_take min_less_iff_conj nth_take)
  ultimately have "i \<in> set (concat (take depth lv))" by auto
  with m show ?thesis unfolding lv_def by blast
qed

text \<open>C31: with one of the bullet patterns the hierarchical merge never raises (its bisection never meets the
  target), and the text of every kept section whose level is among the lowest \<open>depth\<close> levels is in some group.\<close>

theorem hierarchical_merge_keeps:
  assumes "0 \<le> bull" and "bull < 5" and "i < length (filter kept_section (section_texts secs))"
    and "length (patterns bull) + 1 <
       depth + merge_level (patterns bull) (filter kept_section (section_texts secs) ! i)"
  shows "\<exists>groups. hierarchical_merge ntk bull secs depth = Inr groups \<and>
     (\<exists>g\<in>set groups. fst (filter kept_section (section_texts secs) ! i) \<in> set g)"
proof -
  let ?ss = "filter kept_section (section_texts secs)"
  obtain rd cks where m: "merge_levels depth (rev (level_lists (patterns bull) ?ss)) ([], []) = Inr (rd, cks)"
    "i \<in> set (concat cks)" using merged_sections [OF assms(3,4)] by blast
  define texts where "texts = map (\<lambda>ck. map (\<lambda>j. fst (?ss ! j)) (rev ck)) cks"
  have "section_texts secs \<noteq> []" using assms(3) by auto
  moreover have "cks \<noteq> []" using m(2) by auto
  ultimately have h: "hierarchical_merge ntk bull secs depth = Inr (map fst (group_chunks ntk texts [([], 0)]))"
    using assms(1) m(1) by (simp add: hierarchical_merge_def py_nth_patterns [OF assms(1,2)] texts_def Let_def)
  have "fst (?ss ! i) \<in> set (concat texts)" using m(2) by (auto simp: texts_def)
  then have "fst (?ss ! i) \<in> set (concat (map fst (group_chunks ntk texts [([], 0)])))"
    by (subst group_chunks_texts) auto
  with h show ?thesis by auto
qed

definition demo_short :: sections where
  "demo_short = Texts [''# One'', ''body'']"

theorem hierarchical_merge_keeps_witness:
  "\<exists>groups. hierarchical_merge length 4 demo_short 5 = Inr groups \<and> (\<exists>g\<in>set groups. ''body'' \<in> set g)"
proof -
  have "filter kept_section (section_texts demo_short) = section_texts demo_short" by code_simp
  moreover have "section_texts demo_short ! 1 = (''body'', [])" "length (section_texts demo_short) = 2"
    by (simp_all add: demo_short_def section_texts_def)
  moreover have "length (patterns 4) = 6" "merge_level (patterns 4) (''body'', []) = 7" unfolding patterns_4 by code_simp+
  ultimately show ?thesis using hierarchical_merge_keeps [of 4 1 demo_short 5 length] by simp
qed

end
