(* ===== verification/Merging.thy ===== *)
theory Merging
  imports Chunking
begin

text \<open>
  Merging texts to chunks (\<^verbatim>\<open>ragflow/rag/nlp/__init__.py\<close>): \<open>naive_merge\<close> and its variants with images
  and for Word documents, the custom delimiters in backticks, and the context of tables and images.  The number of
  tokens of a text (tiktoken) and the joining of two images (PIL) are parameters; images are values of any type,
  None where there is none.  The percentages are whole numbers, for which the source's floating-point
  comparisons and truncations are exact.
\<close>

section \<open>Delimiters\<close>

text \<open>
  The matches of \<open>`([^`]+)`\<close>: each with the text before it, and the text behind the last.
\<close>

definition tick :: char where "tick = CHR 0x60"

lemma shorter_tail: "s \<noteq> [] \<Longrightarrow> length (dropWhile P (tl s)) - Suc 0 < length s"
  using length_dropWhile_le [of P "tl s"] by (cases s) auto

function ticks :: "string \<Rightarrow> string \<Rightarrow> (string \<times> string) list \<times> string" where
  "ticks cur s =
     (if s = [] then ([], cur)
      else let ins = takeWhile (\<lambda>c. c \<noteq> tick) (tl s); rest = dropWhile (\<lambda>c. c \<noteq> tick) (tl s)
           in if hd s = tick \<and> ins \<noteq> [] \<and> rest \<noteq> []
              then (case ticks [] (tl rest) of (ms, final) \<Rightarrow> ((cur, ins) # ms, final))
              else ticks (cur @ [hd s]) (tl s))"
  by pat_completeness auto
termination
  by (relation "measure (\<lambda>(_, s). length s)") (auto intro: shorter_tail)

declare ticks.simps [simp del]

definition custom_delimiters :: "string \<Rightarrow> string list" where
  "custom_delimiters delimiter = map snd (fst (ticks [] delimiter))"

text \<open>\<open>sorted(set(ds), key=len, reverse=True)\<close>; which of two of the same length is first does not matter.\<close>

definition longest_first :: "string list \<Rightarrow> string list" where
  "longest_first ds = sort_key (\<lambda>d. - int (py_len d)) (remdups ds)"

text \<open>
  \<open>re.split\<close> at an alternation of literals in a group: the pieces, each with the delimiter behind it (none
  behind the last).
\<close>

function split_keep :: "string list \<Rightarrow> string \<Rightarrow> string \<Rightarrow> (string \<times> string) list" where
  "split_keep ds s cur =
     (case find (\<lambda>d. d \<noteq> [] \<and> starts_with s d) ds of
        Some d \<Rightarrow> (cur, d) # split_keep ds (drop (length d) s) []
      | None \<Rightarrow> if s = [] then [(cur, [])] else split_keep ds (tl s) (cur @ [hd s]))"
  by pat_completeness auto
termination
proof (relation "measure (\<lambda>(_, s, _). length s)", goal_cases)
  case (3 ds s cur d)
  then have "d \<noteq> []" "starts_with s d" by (auto simp: find_Some_iff)
  then have "length d \<le> length s" by (auto simp: starts_with_def prefix_length_le)
  with \<open>d \<noteq> []\<close> show ?case by (cases d) auto
qed auto

declare split_keep.simps [simp del]

text \<open>The code points of a text\<close>

fun code_points :: "string \<Rightarrow> string list" where
  "code_points [] = []"
| "code_points (c # cs) =
     (case code_points cs of
        [] \<Rightarrow> [[c]]
      | p # ps \<Rightarrow> if is_continuation (hd p) then (c # p) # ps else [c] # p # ps)"

text \<open>\<open>re.escape\<close>\<close>

definition re_special :: "string" where
  "re_special = ''()[]{}?*+-|^$.&~# '' @ [CHR 0x5C, CHR 0x09, lf, CHR 0x0D, CHR 0x0B, CHR 0x0C]"

definition re_escape :: "string \<Rightarrow> string" where
  "re_escape s = concat (map (\<lambda>c. if c \<in> set re_special then [backslash, c] else [c]) s)"

definition delimiter_list :: "string \<Rightarrow> string list" where
  "delimiter_list delimiters =
     (case ticks [] delimiters of
        (ms, final) \<Rightarrow> concat (map (\<lambda>(b, i). i # code_points b) ms) @ code_points final)"

definition get_delimiters :: "string \<Rightarrow> string" where
  "get_delimiters delimiters =
     join ''|'' (filter (\<lambda>d. d \<noteq> []) (map re_escape
       (filter (\<lambda>d. d \<noteq> []) (sort_key (\<lambda>d. - int (py_len d)) (delimiter_list delimiters)))))"

section \<open>Position tags\<close>

text \<open>\<open>RAGFlowPdfParser.remove_tag\<close>: the tags \<open>@@...##\<close> of tabs, digits, dots and minus signs\<close>

definition tag_char :: "char \<Rightarrow> bool" where
  "tag_char c \<longleftrightarrow> is_digit c \<or> c \<in> {CHR 0x09, CHR ''.'', CHR ''-''}"

definition tag_rest :: "string \<Rightarrow> string option" where
  "tag_rest s =
     (if starts_with s ''@@'' \<and> takeWhile tag_char (drop 2 s) \<noteq> [] \<and> starts_with (dropWhile tag_char (drop 2 s)) ''##''
      then Some (drop 2 (dropWhile tag_char (drop 2 s))) else None)"

lemma tag_rest_shorter: "tag_rest s = Some r \<Longrightarrow> length r < length s"
proof -
  assume "tag_rest s = Some r"
  then have "r = drop 2 (dropWhile tag_char (drop 2 s))" "s \<noteq> []"
    by (auto simp: tag_rest_def starts_with_def split: if_splits)
  then show "length r < length s" using length_dropWhile_le [of tag_char "drop 2 s"] by (cases s) auto
qed

function remove_tag :: "string \<Rightarrow> string" where
  "remove_tag s =
     (case tag_rest s of
        Some r \<Rightarrow> remove_tag r
      | None \<Rightarrow> if s = [] then [] else hd s # remove_tag (tl s))"
  by pat_completeness auto
termination by (relation "measure length") (auto simp: tag_rest_shorter)

declare remove_tag.simps [simp del]

section \<open>\<open>naive_merge\<close>\<close>

text \<open>\<open>s[i:]\<close> in code points; a negative index counts from the end.\<close>

definition py_from :: "int \<Rightarrow> string \<Rightarrow> string" where
  "py_from i s =
     (let ps = code_points s; k = (if i < 0 then max 0 (i + int (length ps)) else i)
      in concat (drop (nat k) ps))"

text \<open>\<open>int(n * (100 - p) / 100.)\<close> truncates towards zero.\<close>

definition percent_of :: "int \<Rightarrow> int \<Rightarrow> int" where
  "percent_of n p = (let m = n * (100 - p) in if m < 0 then - (- m div 100) else m div 100)"

definition overlap_of :: "int \<Rightarrow> string \<Rightarrow> string" where
  "overlap_of p ck = (let o1 = remove_tag ck in py_from (percent_of (int (length (code_points o1))) p) o1)"

text \<open>A chunk with its tokens; the chunks are kept latest first.\<close>

type_synonym chunk = "string \<times> int"

definition chunk_full :: "int \<Rightarrow> int \<Rightarrow> chunk \<Rightarrow> bool" where
  "chunk_full limit p ck \<longleftrightarrow> fst ck = [] \<or> limit * (100 - p) < 100 * snd ck"

definition tagged :: "string \<Rightarrow> string \<Rightarrow> string \<Rightarrow> string" where
  "tagged pos wh t = (if contains wh pos then t else t @ pos)"

fun add_chunk :: "(string \<Rightarrow> nat) \<Rightarrow> int \<Rightarrow> int \<Rightarrow> string \<times> string \<Rightarrow> chunk list \<Rightarrow> chunk list" where
  "add_chunk ntk limit p (t, pos0) (ck # cks) =
     (let tnum = int (ntk t); pos = (if ntk t < 8 then [] else pos0)
      in if chunk_full limit p ck
         then let t1 = overlap_of p (fst ck) @ t in (tagged pos t1 t1, tnum) # ck # cks
         else (fst ck @ tagged pos (fst ck) t, snd ck + tnum) # cks)"
| "add_chunk ntk limit p (t, pos0) [] = []"

definition custom_pieces :: "(string \<Rightarrow> nat) \<Rightarrow> string list \<Rightarrow> string \<times> string \<Rightarrow> string list" where
  "custom_pieces ntk ds sec =
     map (\<lambda>(sub, _). let text = lf # sub; pos = (if ntk text < 8 then [] else snd sec)
                     in tagged pos text text)
       (split_keep ds (fst sec) [])"

text \<open>The input is one text, texts or texts with position tags; a tag that is None or empty is the empty text.\<close>

datatype merge_input = OneText string | Sections sections

definition input_texts :: "merge_input \<Rightarrow> (string \<times> string) list" where
  "input_texts inp =
     (case inp of OneText t \<Rightarrow> (if t = [] then [] else [(t, [])]) | Sections s \<Rightarrow> section_texts s)"

definition naive_merge :: "(string \<Rightarrow> nat) \<Rightarrow> merge_input \<Rightarrow> int \<Rightarrow> string \<Rightarrow> int \<Rightarrow> string list" where
  "naive_merge ntk inp limit delimiter p =
     (let secs = input_texts inp; ds = custom_delimiters delimiter
      in if secs = [] then []
         else if ds \<noteq> [] then concat (map (custom_pieces ntk (longest_first ds)) secs)
         else rev (map fst (foldl (\<lambda>cks (sec, pos). add_chunk ntk limit p (lf # sec, pos) cks) [([], 0)] secs)))"

section \<open>Merging with images\<close>

definition concat_img :: "('i \<Rightarrow> 'i \<Rightarrow> 'i) \<Rightarrow> 'i option \<Rightarrow> 'i option \<Rightarrow> 'i option" where
  "concat_img paste a b =
     (case (a, b) of (None, _) \<Rightarrow> b | (Some x, None) \<Rightarrow> Some x | (Some x, Some y) \<Rightarrow> Some (paste x y))"

fun add_chunk_image ::
  "(string \<Rightarrow> nat) \<Rightarrow> ('i \<Rightarrow> 'i \<Rightarrow> 'i) \<Rightarrow> int \<Rightarrow> int \<Rightarrow> (string \<times> string) \<times> 'i option \<Rightarrow> (chunk \<times> 'i option) list \<Rightarrow>
     (chunk \<times> 'i option) list" where
  "add_chunk_image ntk paste limit p ((t, pos0), pic) ((ck, img) # cks) =
     (let tnum = int (ntk t); pos = (if ntk t < 8 then [] else pos0)
      in if chunk_full limit p ck
         then let t1 = overlap_of p (fst ck) @ t in ((tagged pos t1 t1, tnum), pic) # (ck, img) # cks
         else ((fst ck @ tagged pos (fst ck) t, snd ck + tnum),
               if img = None then pic else concat_img paste img pic) # cks)"
| "add_chunk_image ntk paste limit p s [] = []"

definition naive_merge_with_images ::
  "(string \<Rightarrow> nat) \<Rightarrow> ('i \<Rightarrow> 'i \<Rightarrow> 'i) \<Rightarrow> (string \<times> string) list \<Rightarrow> 'i option list \<Rightarrow> int \<Rightarrow> string \<Rightarrow> int \<Rightarrow>
     string list \<times> 'i option list" where
  "naive_merge_with_images ntk paste texts images limit delimiter p =
     (let ds = custom_delimiters delimiter
      in if texts = [] \<or> length texts \<noteq> length images then ([], [])
         else if ds \<noteq> []
         then let cs = concat (map (\<lambda>(sec, pic). map (\<lambda>t. (t, pic)) (custom_pieces ntk (longest_first ds) sec))
                        (zip texts images))
              in (map fst cs, map snd cs)
         else let cs = rev (foldl (\<lambda>cks ((sec, pos), pic). add_chunk_image ntk paste limit p ((lf # sec, pos), pic) cks)
                        [(([], 0), None)] (zip texts images))
              in (map (fst \<circ> fst) cs, map snd cs))"

section \<open>Word documents\<close>

datatype ck_type = CkText | CkImage | CkTable

record 'i dck =
  ck_text :: string
  ck_image :: "'i option"
  ck_type :: ck_type
  ck_tk :: int
  ck_above :: string
  ck_below :: string

definition new_ck :: "(string \<Rightarrow> nat) \<Rightarrow> ck_type \<Rightarrow> 'i option \<Rightarrow> string \<Rightarrow> 'i dck" where
  "new_ck ntk ty pic t =
     \<lparr> ck_text = t, ck_image = pic, ck_type = ty, ck_tk = int (ntk t), ck_above = [], ck_below = [] \<rparr>"

definition flush_seg :: "(string \<Rightarrow> nat) \<Rightarrow> string \<Rightarrow> 'i dck list" where
  "flush_seg ntk seg = (if strip_ws seg = [] then [] else [new_ck ntk CkText None (strip_ws seg)])"

text \<open>The pieces and delimiters of a text in turn: an empty piece or a delimiter ends the segment.\<close>

fun take_pieces :: "(string \<Rightarrow> nat) \<Rightarrow> string list \<Rightarrow> string list \<Rightarrow> string \<Rightarrow> 'i dck list \<times> string" where
  "take_pieces ntk ds [] seg = ([], seg)"
| "take_pieces ntk ds (sub # subs) seg =
     (if strip_ws sub = [] \<or> strip_ws sub \<in> set ds
      then (case take_pieces ntk ds subs [] of (cks, seg') \<Rightarrow> (flush_seg ntk seg @ cks, seg'))
      else take_pieces ntk ds subs (seg @ sub))"

definition split_flat :: "string list \<Rightarrow> string \<Rightarrow> string list" where
  "split_flat ds s =
     (let ps = split_keep ds s [] in concat (map (\<lambda>(t, d). [t, d]) (butlast ps)) @ [fst (last ps)])"

text \<open>A section: its text, image and table (rendered as text)\<close>

type_synonym 'i docx_section = "string \<times> 'i option \<times> string"

fun build_cks_from :: "(string \<Rightarrow> nat) \<Rightarrow> string list \<Rightarrow> 'i docx_section list \<Rightarrow> string \<Rightarrow> 'i dck list" where
  "build_cks_from ntk ds [] seg = (if ds = [] then [] else flush_seg ntk seg)"
| "build_cks_from ntk ds ((t, pic, table) # secs) seg =
     (let text = (if t = [] then [] else lf # t)
      in if table \<noteq> [] then new_ck ntk CkTable pic (text @ table) # build_cks_from ntk ds secs seg
         else if pic \<noteq> None then new_ck ntk CkImage pic text # build_cks_from ntk ds secs seg
         else if ds \<noteq> []
         then (case take_pieces ntk ds (split_flat ds text) seg of
                 (cks, seg') \<Rightarrow> cks @ build_cks_from ntk ds secs seg')
         else flush_seg ntk text @ build_cks_from ntk ds secs seg)"

definition build_cks :: "(string \<Rightarrow> nat) \<Rightarrow> 'i docx_section list \<Rightarrow> string \<Rightarrow> 'i dck list \<times> bool" where
  "build_cks ntk secs delimiter =
     (let ds = longest_first (custom_delimiters delimiter) in (build_cks_from ntk ds secs [], ds \<noteq> []))"

text \<open>The sentences of a text\<close>

definition sentence_ends :: "string list" where
  "sentence_ends =
     [[CHR 0xE3, CHR 0x80, CHR 0x82], ''!'', ''?'', [CHR 0xEF, CHR 0xBC, CHR 0x9F], [CHR 0xEF, CHR 0xBC, CHR 0x9B],
      [CHR 0xEF, CHR 0xBC, CHR 0x81], [lf], ''. '']"

definition sentences :: "string \<Rightarrow> string list" where
  "sentences s = map (\<lambda>(t, d). t @ d) (split_keep sentence_ends s [])"

fun take_until :: "(string \<Rightarrow> nat) \<Rightarrow> int \<Rightarrow> string \<Rightarrow> string list \<Rightarrow> string" where
  "take_until ntk need acc [] = acc"
| "take_until ntk need acc (s # ss) =
     (if need \<le> int (ntk (acc @ s)) then acc @ s else take_until ntk need (acc @ s) ss)"

fun take_until_back :: "(string \<Rightarrow> nat) \<Rightarrow> int \<Rightarrow> string \<Rightarrow> string list \<Rightarrow> string" where
  "take_until_back ntk need acc [] = acc"
| "take_until_back ntk need acc (s # ss) =
     (if need \<le> int (ntk (s @ acc)) then s @ acc else take_until_back ntk need (s @ acc) ss)"

definition take_sentences_from_start :: "(string \<Rightarrow> nat) \<Rightarrow> string \<Rightarrow> int \<Rightarrow> string" where
  "take_sentences_from_start ntk cnt need = take_until ntk need [] (sentences cnt)"

definition take_sentences_from_end :: "(string \<Rightarrow> nat) \<Rightarrow> string \<Rightarrow> int \<Rightarrow> string" where
  "take_sentences_from_end ntk cnt need = take_until_back ntk need [] (rev (sentences cnt))"

text \<open>The text before a chunk, from the chunks before it, nearest first; and the text behind it\<close>

fun context_above :: "(string \<Rightarrow> nat) \<Rightarrow> int \<Rightarrow> 'i dck list \<Rightarrow> string" where
  "context_above ntk remain [] = []"
| "context_above ntk remain (c # cs) =
     (if remain \<le> 0 then []
      else if ck_type c = CkText
      then if remain \<le> ck_tk c then take_sentences_from_end ntk (ck_text c) remain
           else context_above ntk (remain - ck_tk c) cs @ ck_text c
      else context_above ntk remain cs)"

fun context_below :: "(string \<Rightarrow> nat) \<Rightarrow> int \<Rightarrow> 'i dck list \<Rightarrow> string" where
  "context_below ntk remain [] = []"
| "context_below ntk remain (c # cs) =
     (if remain \<le> 0 then []
      else if ck_type c = CkText
      then if remain \<le> ck_tk c then take_sentences_from_start ntk (ck_text c) remain
           else ck_text c @ context_below ntk (remain - ck_tk c) cs
      else context_below ntk remain cs)"

definition add_context :: "(string \<Rightarrow> nat) \<Rightarrow> int \<Rightarrow> 'i dck list \<Rightarrow> nat \<Rightarrow> 'i dck list" where
  "add_context ntk size1 cks i =
     (if ck_type (cks ! i) = CkText then cks
      else cks[i := (cks ! i)\<lparr>ck_above := context_above ntk size1 (rev (take i cks)),
                               ck_below := context_below ntk size1 (drop (Suc i) cks)\<rparr>])"

text \<open>The merged chunks, the indices of the images among them, and the index of the last text chunk\<close>

definition append_text :: "'i dck \<Rightarrow> 'i dck \<Rightarrow> 'i dck" where
  "append_text a b = a\<lparr>ck_text := ck_text a @ ck_text b, ck_tk := ck_tk a + ck_tk b\<rparr>"

fun merge_cks :: "int \<Rightarrow> bool \<Rightarrow> 'i dck list \<Rightarrow> 'i dck list \<Rightarrow> nat list \<Rightarrow> nat option \<Rightarrow> 'i dck list \<times> nat list" where
  "merge_cks limit custom [] merged imgs prev = (merged, imgs)"
| "merge_cks limit custom (c # cs) merged imgs prev =
     (if ck_type c \<noteq> CkText
      then merge_cks limit custom cs (merged @ [c]) (if ck_type c = CkImage then imgs @ [length merged] else imgs) prev
      else case prev of
             None \<Rightarrow> merge_cks limit custom cs (merged @ [c]) imgs (Some (length merged))
           | Some k \<Rightarrow>
               if limit \<le> ck_tk (merged ! k) \<or> custom
               then merge_cks limit custom cs (merged @ [c]) imgs (Some (length merged))
               else merge_cks limit custom cs (merged[k := append_text (merged ! k) c]) imgs prev)"

definition indices_of :: "ck_type \<Rightarrow> 'i dck list \<Rightarrow> nat list" where
  "indices_of ty cks = filter (\<lambda>i. ck_type (cks ! i) = ty) [0..<length cks]"

definition naive_merge_docx ::
  "(string \<Rightarrow> nat) \<Rightarrow> 'i docx_section list \<Rightarrow> int \<Rightarrow> string \<Rightarrow> int \<Rightarrow> int \<Rightarrow> 'i dck list \<times> nat list" where
  "naive_merge_docx ntk secs limit delimiter table_ctx image_ctx =
     (if secs = [] then ([], [])
      else case build_cks ntk secs delimiter of
        (cks, custom) \<Rightarrow>
          let cks1 = (if 0 < table_ctx then foldl (add_context ntk table_ctx) cks (indices_of CkTable cks) else cks);
              cks2 = (if 0 < image_ctx then foldl (add_context ntk image_ctx) cks1 (indices_of CkImage cks) else cks1)
          in merge_cks limit custom cks2 [] [] None)"

end
