(* ===== verification/MergeSpec.thy ===== *)
theory MergeSpec
  imports Merging
begin

text \<open>
  What the merging of texts promises: the chunks of \<open>naive_merge\<close> are consecutive groups of sections cut as soon
  as the token limit is passed, images do not change the texts, and for Word documents no text is lost, tables and
  images keep their order, and the context of an image is the text next to it.
\<close>

section \<open>Greedy groups\<close>

text \<open>The tokens of sections, and a chunk made of a group of sections behind the overlap with the chunk before: each
  text after a line break, with or without its position tag\<close>

definition group_tokens :: "(string \<Rightarrow> nat) \<Rightarrow> (string \<times> string) list \<Rightarrow> int" where
  "group_tokens ntk g = (\<Sum>sec\<leftarrow>g. int (ntk (lf # fst sec)))"

definition chunk_of :: "int \<Rightarrow> string \<Rightarrow> (string \<times> string) list \<Rightarrow> string \<Rightarrow> bool" where
  "chunk_of p prev g c \<longleftrightarrow>
     (\<exists>ts. list_all2 (\<lambda>sec t. t = lf # fst sec \<or> t = lf # fst sec @ snd sec) g ts \<and> c = overlap_of p prev @ concat ts)"

fun well_merged :: "(string \<Rightarrow> nat) \<Rightarrow> int \<Rightarrow> int \<Rightarrow> string \<Rightarrow> (string \<times> string) list list \<Rightarrow> string list \<Rightarrow> bool" where
  "well_merged ntk limit p prev [] cs \<longleftrightarrow> cs = []"
| "well_merged ntk limit p prev (g # gs) cs \<longleftrightarrow>
     (case cs of [] \<Rightarrow> False
      | c # cs' \<Rightarrow> g \<noteq> [] \<and> chunk_of p prev g c \<and>
          100 * group_tokens ntk (butlast g) \<le> limit * (100 - p) \<and>
          (gs \<noteq> [] \<longrightarrow> limit * (100 - p) < 100 * group_tokens ntk g) \<and> well_merged ntk limit p c gs cs')"

lemma group_tokens_simps [simp]:
  "group_tokens ntk [] = 0" "group_tokens ntk (g @ h) = group_tokens ntk g + group_tokens ntk h"
  "group_tokens ntk [sec] = int (ntk (lf # fst sec))"
  by (simp_all add: group_tokens_def)

lemma tagged_cases: "tagged (if n < (8 :: nat) then [] else pos) wh t = t \<or> tagged (if n < 8 then [] else pos) wh t = t @ pos"
  by (auto simp: tagged_def)

lemma chunk_of_single: "\<exists>t. t \<in> {lf # s, lf # s @ pos} \<and> c = overlap_of p prev @ t \<Longrightarrow> chunk_of p prev [(s, pos)] c"
  unfolding chunk_of_def by (elim exE, rename_tac t, rule_tac x = "[t]" in exI) auto

lemma chunk_of_snoc:
  "chunk_of p prev g c \<Longrightarrow> t \<in> {lf # s, lf # s @ pos} \<Longrightarrow> chunk_of p prev (g @ [(s, pos)]) (c @ t)"
  unfolding chunk_of_def
  by (elim exE conjE, rename_tac ts, rule_tac x = "ts @ [t]" in exI) (auto intro!: list_all2_appendI)

lemma chunk_of_nonempty: "chunk_of p prev g c \<Longrightarrow> g \<noteq> [] \<Longrightarrow> c \<noteq> []"
  unfolding chunk_of_def by (cases g) (auto simp: list_all2_Cons1)

definition merge_step :: "(string \<Rightarrow> nat) \<Rightarrow> int \<Rightarrow> int \<Rightarrow> chunk list \<Rightarrow> string \<times> string \<Rightarrow> chunk list" where
  "merge_step ntk limit p cks sec = add_chunk ntk limit p (lf # fst sec, snd sec) cks"

lemma add_chunk_new:
  assumes "chunk_full limit p (c, t)"
  shows "\<exists>c2. merge_step ntk limit p ((c, t) # rest) sec = (c2, int (ntk (lf # fst sec))) # (c, t) # rest \<and>
     chunk_of p c [sec] c2"
proof -
  obtain s pos where sec: "sec = (s, pos)" by (cases sec)
  let ?t1 = "overlap_of p c @ lf # s"
  let ?c2 = "tagged (if ntk (lf # s) < 8 then [] else pos) ?t1 ?t1"
  have "?c2 = overlap_of p c @ lf # s \<or> ?c2 = overlap_of p c @ lf # s @ pos"
    using tagged_cases [of "ntk (lf # s)" pos ?t1 ?t1] by (simp only: append_assoc append_Cons)
  then have "chunk_of p c [(s, pos)] ?c2" by (intro chunk_of_single) blast
  with assms sec show ?thesis by (auto simp: merge_step_def Let_def)
qed

lemma add_chunk_append:
  assumes "\<not> chunk_full limit p (c, t)" and "chunk_of p prev g c"
  shows "\<exists>c2. merge_step ntk limit p ((c, t) # rest) sec = (c2, t + int (ntk (lf # fst sec))) # rest \<and>
     chunk_of p prev (g @ [sec]) c2"
proof -
  obtain s pos where sec: "sec = (s, pos)" by (cases sec)
  let ?c2 = "tagged (if ntk (lf # s) < 8 then [] else pos) c (lf # s)"
  have "?c2 \<in> {lf # s, lf # s @ pos}" using tagged_cases [of "ntk (lf # s)" pos c "lf # s"] by (simp only: append_Cons) blast
  from chunk_of_snoc [OF assms(2) this] assms(1) sec show ?thesis by (auto simp: merge_step_def Let_def)
qed

lemma merge_groups:
  assumes "chunk_of p prev g c" and "g \<noteq> []" and "100 * group_tokens ntk (butlast g) \<le> limit * (100 - p)"
    and "0 \<le> limit * (100 - p)"
  shows "\<exists>gs cs. rev (map fst (foldl (merge_step ntk limit p) ((c, group_tokens ntk g) # rest) secs)) =
       rev (map fst rest) @ cs \<and> concat gs = g @ secs \<and> gs \<noteq> [] \<and> well_merged ntk limit p prev gs cs"
  using assms(1-3)
proof (induction secs arbitrary: prev g c rest)
  case Nil
  then show ?case by (intro exI [of _ "[g]"] exI [of _ "[c]"]) auto
next
  case (Cons sec secs)
  show ?case
  proof (cases "chunk_full limit p (c, group_tokens ntk g)")
    case True
    obtain c2 where c2: "merge_step ntk limit p ((c, group_tokens ntk g) # rest) sec =
        (c2, group_tokens ntk [sec]) # (c, group_tokens ntk g) # rest" "chunk_of p c [sec] c2"
      using add_chunk_new [OF True, of ntk rest sec] by auto
    from Cons.IH [OF c2(2), of "(c, group_tokens ntk g) # rest"] assms(4) obtain gs cs where
      "rev (map fst (foldl (merge_step ntk limit p) ((c2, group_tokens ntk [sec]) # (c, group_tokens ntk g) # rest) secs)) =
         rev (map fst ((c, group_tokens ntk g) # rest)) @ cs"
      "concat gs = [sec] @ secs" "gs \<noteq> []" "well_merged ntk limit p c gs cs" by auto
    moreover have "limit * (100 - p) < 100 * group_tokens ntk g"
      using True chunk_of_nonempty [OF Cons.prems(1,2)] by (simp add: chunk_full_def)
    ultimately show ?thesis using Cons.prems c2(1)
      by (intro exI [of _ "g # gs"] exI [of _ "c # cs"]) simp
  next
    case False
    obtain c2 where c2: "merge_step ntk limit p ((c, group_tokens ntk g) # rest) sec =
        (c2, group_tokens ntk (g @ [sec])) # rest" "chunk_of p prev (g @ [sec]) c2"
      using add_chunk_append [OF False Cons.prems(1), of ntk rest sec] by auto
    have "100 * group_tokens ntk (butlast (g @ [sec])) \<le> limit * (100 - p)"
      using False by (simp add: chunk_full_def not_less)
    from Cons.IH [OF c2(2) _ this, of rest] c2(1) show ?thesis by simp
  qed
qed

text \<open>C32: for some input, no custom delimiter in backticks, a limit that is not negative and an overlap of at most
  100 percent, the chunks are an empty first chunk and then one chunk for each of
  consecutive groups of sections that make up the input: the overlap with the chunk before, then each text after a
  line break, with or without its position tag.  A group ends as soon as its tokens (the overlap not counted) pass the
  limit less the overlap; so without its last section a group stays within the limit, and with it it may pass it by that section.\<close>

theorem naive_merge_groups:
  assumes "input_texts inp \<noteq> []" and "custom_delimiters delimiter = []" and "0 \<le> limit" and "p \<le> 100"
  shows "\<exists>gs cs. naive_merge ntk inp limit delimiter p = [] # cs \<and> concat gs = input_texts inp \<and>
     well_merged ntk limit p [] gs cs"
proof -
  obtain sec secs where s: "input_texts inp = sec # secs" using assms(1) by (cases "input_texts inp") auto
  have "chunk_full limit p ([], 0)" by (simp add: chunk_full_def)
  from add_chunk_new [OF this, of ntk "[]" sec] obtain c where
    c: "merge_step ntk limit p [([], 0)] sec = (c, group_tokens ntk [sec]) # [([], 0)]" "chunk_of p [] [sec] c" by auto
  have f: "(\<lambda>cks (sec, pos). add_chunk ntk limit p (lf # sec, pos) cks) = merge_step ntk limit p"
    by (auto simp: merge_step_def fun_eq_iff)
  have "0 \<le> limit * (100 - p)" using assms(3,4) by simp
  with merge_groups [OF c(2), of ntk limit "[([], 0)]" secs] show ?thesis
    using assms(2) by (auto simp: naive_merge_def f s c(1))
qed

definition demo_texts :: merge_input where
  "demo_texts = Sections (Texts [''one two'', ''three'', ''four five six''])"

lemma demo_texts_merged:
  "naive_merge length demo_texts 6 [] 0 = [[], lf # ''one two'', lf # ''three'' @ lf # ''four five six'']"
  by code_simp

theorem naive_merge_groups_witness:
  "\<exists>gs cs. naive_merge length demo_texts 6 [] 0 = [] # cs \<and> concat gs = input_texts demo_texts \<and>
     well_merged length 6 0 [] gs cs"
proof -
  have "input_texts demo_texts \<noteq> []" "custom_delimiters [] = []" by code_simp+
  from naive_merge_groups [OF this, of 6 0 length] show ?thesis by simp
qed

text \<open>Without an overlap the chunks give the texts back.\<close>

lemma length_code_points_le: "py_from (int (length (code_points s))) s = []"
  by (simp add: py_from_def)

lemma overlap_0 [simp]: "overlap_of 0 s = []"
  by (simp add: overlap_of_def percent_of_def Let_def length_code_points_le)

section \<open>Images\<close>

lemma add_chunk_image_texts:
  "map fst (add_chunk_image ntk paste limit p ((t, pos), pic) cks) = add_chunk ntk limit p (t, pos) (map fst cks)"
  by (cases cks) (auto simp: Let_def)

lemma fold_image_texts:
  "length secs = length pics \<Longrightarrow>
     map fst (foldl (\<lambda>cks ((sec, pos), pic). add_chunk_image ntk paste limit p ((lf # sec, pos), pic) cks) cks (zip secs pics)) =
     foldl (\<lambda>cks (sec, pos). add_chunk ntk limit p (lf # sec, pos) cks) (map fst cks) secs"
  by (induction secs pics arbitrary: cks rule: list_induct2) (auto simp: add_chunk_image_texts split: prod.splits)

text \<open>Merging texts with images gives the same texts as merging without, and one image (or none) for
  each, provided there are as many images as texts.\<close>

theorem merge_images_texts:
  assumes "length pics = length texts"
  shows "fst (naive_merge_with_images ntk paste texts pics limit delimiter p) =
       naive_merge ntk (Sections (Placed texts)) limit delimiter p \<and>
     length (snd (naive_merge_with_images ntk paste texts pics limit delimiter p)) =
       length (fst (naive_merge_with_images ntk paste texts pics limit delimiter p))"
proof -
  have "map fst (concat (map (\<lambda>(sec, pic). map (\<lambda>t. (t, pic)) (custom_pieces ntk ds sec)) (zip texts pics))) =
      concat (map (custom_pieces ntk ds) texts)" for ds
    using assms by (induction pics texts rule: list_induct2) (auto simp: comp_def)
  moreover have "map (fst \<circ> fst) (rev (foldl (\<lambda>cks ((sec, pos), pic).
        add_chunk_image ntk paste limit p ((lf # sec, pos), pic) cks) [(([], 0), None)] (zip texts pics))) =
      rev (map fst (foldl (\<lambda>cks (sec, pos). add_chunk ntk limit p (lf # sec, pos) cks) [([], 0)] texts))"
    using fold_image_texts [OF assms [symmetric], of ntk paste limit p "[(([], 0), None)]"]
    by (simp add: rev_map [symmetric] map_map [symmetric] del: map_map)
  moreover have "length (snd (naive_merge_with_images ntk paste texts pics limit delimiter p)) =
      length (fst (naive_merge_with_images ntk paste texts pics limit delimiter p))"
    by (simp add: naive_merge_with_images_def Let_def)
  ultimately show ?thesis using assms
    by (simp add: naive_merge_with_images_def naive_merge_def input_texts_def section_texts_def Let_def del: map_map)
qed

theorem merge_images_texts_witness:
  "fst (naive_merge_with_images length (\<lambda>a b. a) [(''a'', []), (''b'', [])] [None, Some True] 9 [] 0) =
     naive_merge length (Sections (Placed [(''a'', []), (''b'', [])])) 9 [] 0"
  using merge_images_texts [of "[None, Some True]" "[(''a'', []), (''b'', [])]" length "\<lambda>a b. a" 9 "[]" 0] by simp

section \<open>Word documents\<close>

definition is_text :: "'i dck \<Rightarrow> bool" where
  "is_text c \<longleftrightarrow> ck_type c = CkText"

definition texts_of :: "'i dck list \<Rightarrow> string" where
  "texts_of cks = concat (map ck_text (filter is_text cks))"

lemma texts_of_simps [simp]:
  "texts_of [] = []" "texts_of (xs @ ys) = texts_of xs @ texts_of ys"
  "texts_of (c # cs) = (if is_text c then ck_text c else []) @ texts_of cs"
  by (simp_all add: texts_of_def)

lemma append_text_simps [simp]:
  "is_text (append_text a b) = is_text a" "ck_type (append_text a b) = ck_type a"
  "ck_text (append_text a b) = ck_text a @ ck_text b" "ck_tk (append_text a b) = ck_tk a + ck_tk b"
  by (simp_all add: append_text_def is_text_def)

text \<open>The chunk that takes the next text is the last text chunk, and no text chunk is behind it.\<close>

definition merge_ok :: "'i dck list \<Rightarrow> nat list \<Rightarrow> nat option \<Rightarrow> bool" where
  "merge_ok merged imgs prev \<longleftrightarrow>
     imgs = indices_of CkImage merged \<and>
     (case prev of None \<Rightarrow> filter is_text merged = []
      | Some k \<Rightarrow> k < length merged \<and> is_text (merged ! k) \<and> filter is_text (drop (Suc k) merged) = [])"

lemma indices_of_snoc:
  "indices_of ty (cks @ [c]) = indices_of ty cks @ (if ck_type c = ty then [length cks] else [])"
proof -
  have "filter (\<lambda>i. ck_type ((cks @ [c]) ! i) = ty) [0..<length cks] = filter (\<lambda>i. ck_type (cks ! i) = ty) [0..<length cks]"
    by (rule filter_cong) (auto simp: nth_append)
  then show ?thesis by (simp add: indices_of_def)
qed

lemma indices_of_update:
  "k < length cks \<Longrightarrow> ck_type c = ck_type (cks ! k) \<Longrightarrow> indices_of ty (cks[k := c]) = indices_of ty cks"
  unfolding indices_of_def by (auto simp: nth_list_update intro!: filter_cong)

lemma texts_of_none: "filter is_text xs = [] \<Longrightarrow> texts_of xs = []"
  by (simp add: texts_of_def)

lemma append_text_at:
  assumes "k < length merged" and "is_text (merged ! k)" and "filter is_text (drop (Suc k) merged) = []"
  shows "texts_of (merged[k := append_text (merged ! k) c]) = texts_of merged @ ck_text c \<and>
     filter (\<lambda>x. \<not> is_text x) (merged[k := append_text (merged ! k) c]) = filter (\<lambda>x. \<not> is_text x) merged"
proof -
  have m: "merged = take k merged @ merged ! k # drop (Suc k) merged" using assms(1) by (rule id_take_nth_drop)
  have u: "merged[k := append_text (merged ! k) c] =
      take k merged @ append_text (merged ! k) c # drop (Suc k) merged"
    using assms(1) by (rule upd_conv_take_nth_drop)
  have "texts_of merged = texts_of (take k merged) @ ck_text (merged ! k) @ texts_of (drop (Suc k) merged)"
    using assms(2) by (subst m) simp
  moreover have "filter (\<lambda>x. \<not> is_text x) merged =
      filter (\<lambda>x. \<not> is_text x) (take k merged) @ filter (\<lambda>x. \<not> is_text x) (drop (Suc k) merged)"
    using assms(2) by (subst m) simp
  ultimately show ?thesis using assms(2) texts_of_none [OF assms(3)] unfolding u by simp
qed

lemma merge_cks_spec:
  assumes "merge_ok merged imgs prev" and "merge_cks limit custom cks merged imgs prev = (merged', imgs')"
  shows "texts_of merged' = texts_of merged @ texts_of cks \<and>
     filter (\<lambda>x. \<not> is_text x) merged' = filter (\<lambda>x. \<not> is_text x) merged @ filter (\<lambda>x. \<not> is_text x) cks \<and>
     imgs' = indices_of CkImage merged'"
  using assms
proof (induction cks arbitrary: merged imgs prev)
  case (Cons c cks)
  consider (media) "\<not> is_text c" | (fresh) "is_text c" "prev = None \<or> (\<exists>k. prev = Some k \<and> (limit \<le> ck_tk (merged ! k) \<or> custom))"
    | (join) k where "is_text c" "prev = Some k" "\<not> limit \<le> ck_tk (merged ! k)" "\<not> custom" by (cases prev) auto
  then show ?case
  proof cases
    case media
    have "merge_ok (merged @ [c]) (if ck_type c = CkImage then imgs @ [length merged] else imgs) prev"
      using Cons.prems(1) media by (auto simp: merge_ok_def indices_of_snoc nth_append split: option.splits)
    from Cons.IH [OF this] Cons.prems(2) media show ?thesis by (simp add: is_text_def)
  next
    case fresh
    have "merge_ok (merged @ [c]) imgs (Some (length merged))"
      using Cons.prems(1) fresh(1) by (auto simp: merge_ok_def indices_of_snoc is_text_def)
    from Cons.IH [OF this] Cons.prems(2) fresh show ?thesis by (auto simp: is_text_def)
  next
    case join
    then have k: "k < length merged" "is_text (merged ! k)" "filter is_text (drop (Suc k) merged) = []"
      "imgs = indices_of CkImage merged" using Cons.prems(1) by (auto simp: merge_ok_def)
    then have "merge_ok (merged[k := append_text (merged ! k) c]) imgs (Some k)"
      by (simp add: merge_ok_def indices_of_update)
    from Cons.IH [OF this] Cons.prems(2) join append_text_at [OF k(1-3), of c] show ?thesis by (simp add: is_text_def)
  qed
qed (simp add: merge_ok_def)

text \<open>What the context leaves alone\<close>

definition ck_key :: "'i dck \<Rightarrow> ck_type \<times> 'i option \<times> string" where
  "ck_key c = (ck_type c, ck_image c, ck_text c)"

lemma map_update_same: "f x = f (xs ! i) \<Longrightarrow> map f (xs[i := x]) = map f xs"
  by (cases "i < length xs") (simp_all add: map_update list_update_beyond list_update_same_conv)

lemma add_context_keys: "map ck_key (add_context ntk n cks i) = map ck_key cks"
  by (simp add: add_context_def ck_key_def map_update_same)

lemma fold_context_keys: "map ck_key (foldl (add_context ntk n) cks is1) = map ck_key cks"
  by (induction is1 arbitrary: cks) (simp_all add: add_context_keys)

lemma keys_texts: "map ck_key xs = map ck_key ys \<Longrightarrow> texts_of xs = texts_of ys"
proof -
  have "texts_of cs = concat (map (\<lambda>(ty, _, t). if ty = CkText then t else []) (map ck_key cs))" for cs :: "'a dck list"
    by (induction cs) (simp_all add: ck_key_def is_text_def)
  then show "map ck_key xs = map ck_key ys \<Longrightarrow> texts_of xs = texts_of ys" by (simp only:)
qed

lemma keys_media:
  "map ck_key xs = map ck_key ys \<Longrightarrow>
     map ck_key (filter (\<lambda>c. \<not> is_text c) xs) = map ck_key (filter (\<lambda>c. \<not> is_text c) ys)"
proof -
  have "map ck_key (filter (\<lambda>c. \<not> is_text c) cs) = filter (\<lambda>(ty, _). ty \<noteq> CkText) (map ck_key cs)" for cs :: "'a dck list"
    by (induction cs) (simp_all add: ck_key_def is_text_def)
  then show "map ck_key xs = map ck_key ys \<Longrightarrow> ?thesis" by (simp only:)
qed

text \<open>The tables and images of the sections\<close>

definition media_of :: "'i docx_section list \<Rightarrow> (ck_type \<times> 'i option \<times> string) list" where
  "media_of secs =
     concat (map (\<lambda>(t, pic, table).
       let text = (if t = [] then [] else lf # t)
       in if table \<noteq> [] then [(CkTable, pic, text @ table)] else if pic \<noteq> None then [(CkImage, pic, text)] else []) secs)"

lemma flush_seg_text: "filter (\<lambda>c. \<not> is_text c) (flush_seg ntk seg) = []"
  by (simp add: flush_seg_def new_ck_def is_text_def)

lemma take_pieces_text: "filter (\<lambda>c. \<not> is_text c) (fst (take_pieces ntk ds subs seg)) = []"
  by (induction ntk ds subs seg rule: take_pieces.induct) (auto simp: flush_seg_text split: prod.splits)

lemma take_pieces_no_media: "take_pieces ntk ds subs seg = (cks, seg') \<Longrightarrow> filter (\<lambda>c. \<not> is_text c) cks = []"
  by (metis fst_conv take_pieces_text)

lemma build_cks_media: "map ck_key (filter (\<lambda>c. \<not> is_text c) (build_cks_from ntk ds secs seg)) = media_of secs"
proof (induction ntk ds secs seg rule: build_cks_from.induct)
  case (2 ntk ds t pic table secs seg)
  note IH = 2
  have new: "is_text (new_ck ntk ty im tx :: 'a dck) = (ty = CkText)" "ck_key (new_ck ntk ty im tx :: 'a dck) = (ty, im, tx)"
    for ty im tx by (simp_all add: new_ck_def is_text_def ck_key_def)
  obtain cks seg' where tp: "take_pieces ntk ds (split_flat ds (if t = [] then [] else lf # t)) seg = (cks :: 'a dck list, seg')"
    by (cases "take_pieces ntk ds (split_flat ds (if t = [] then [] else lf # t)) seg :: 'a dck list \<times> string")
  have m: "media_of ((t, pic, table) # secs) =
      (let text = (if t = [] then [] else lf # t)
       in if table \<noteq> [] then [(CkTable, pic, text @ table)] else if pic \<noteq> None then [(CkImage, pic, text)] else []) @ media_of secs"
    by (simp add: media_of_def)
  note simps = new tp flush_seg_text take_pieces_no_media [OF tp] Let_def
  consider "table \<noteq> []" | "table = []" "pic \<noteq> None" | "table = []" "pic = None" "ds \<noteq> []" | "table = []" "pic = None" "ds = []" by blast
  then show ?case
  proof cases
    case 1
    with IH(1) show ?thesis unfolding m by (simp add: simps)
  next
    case 2
    with IH(2) show ?thesis unfolding m by (simp add: simps)
  next
    case 3
    with IH(3) tp show ?thesis unfolding m by (simp add: simps)
  next
    case 4
    with IH(4) show ?thesis unfolding m by (simp add: simps)
  qed
qed (simp add: media_of_def flush_seg_text)

lemma split_keep_joins: "concat (map (\<lambda>(t, d). t @ d) (split_keep ds s cur)) = cur @ s"
proof (induction ds s cur rule: split_keep.induct)
  case (1 ds s cur)
  show ?case
  proof (cases "find (\<lambda>d. d \<noteq> [] \<and> starts_with s d) ds")
    case None
    with 1(1) show ?thesis by (subst split_keep.simps) (cases s, auto)
  next
    case (Some d)
    then have "starts_with s d" by (auto simp: find_Some_iff)
    then have "d @ drop (length d) s = s" by (auto simp: starts_with_def prefix_def)
    with 1(2) [OF Some] Some show ?thesis by (subst split_keep.simps) simp
  qed
qed

text \<open>The texts of the sections without table and image, and how delimiters cut them: into runs of pieces between pieces that
  are blank or a delimiter\<close>

definition plain_texts :: "'i docx_section list \<Rightarrow> string list" where
  "plain_texts secs = map fst (filter (\<lambda>(t, pic, table). pic = None \<and> table = []) secs)"

definition with_lf :: "string \<Rightarrow> string" where
  "with_lf t = (if t = [] then [] else lf # t)"

definition docx_pieces :: "string list \<Rightarrow> 'i docx_section list \<Rightarrow> string list" where
  "docx_pieces ds secs = concat (map (\<lambda>t. split_flat ds (with_lf t)) (plain_texts secs))"

fun runs :: "('a \<Rightarrow> bool) \<Rightarrow> 'a list \<Rightarrow> 'a list list" where
  "runs P [] = [[]]"
| "runs P (x # xs) = (if P x then [] # runs P xs else case runs P xs of [] \<Rightarrow> [[x]] | r # rs \<Rightarrow> (x # r) # rs)"

definition separates :: "string list \<Rightarrow> string \<Rightarrow> bool" where
  "separates ds sub \<longleftrightarrow> strip_ws sub = [] \<or> strip_ws sub \<in> set ds"

definition run_texts :: "string list \<Rightarrow> string list list \<Rightarrow> string list" where
  "run_texts ds rs = filter (\<lambda>t. t \<noteq> []) (map (\<lambda>r. strip_ws (concat r)) rs)"

lemma runs_nonempty: "runs P xs \<noteq> []"
  by (cases xs) (auto split: list.split)

text \<open>The runs with a text before the first one\<close>

definition behind :: "string \<Rightarrow> string list list \<Rightarrow> string list list" where
  "behind seg rs = (case rs of [] \<Rightarrow> [[seg]] | r # rs \<Rightarrow> (seg # r) # rs)"

lemma flush_texts: "map ck_text (flush_seg ntk seg) = run_texts ds [[seg]]"
  by (simp add: flush_seg_def new_ck_def run_texts_def)

lemma run_texts_append: "run_texts ds (rs @ qs) = run_texts ds rs @ run_texts ds qs"
  by (simp add: run_texts_def)

lemma take_pieces_runs:
  assumes "take_pieces ntk ds subs seg = (cks, seg')"
  shows "run_texts ds (behind seg (runs (separates ds) (subs @ rest))) =
     map ck_text cks @ run_texts ds (behind seg' (runs (separates ds) rest))"
  using assms
proof (induction ntk ds subs seg arbitrary: cks rule: take_pieces.induct)
  case (2 ntk ds sub subs seg)
  obtain r rs where r: "runs (separates ds) (subs @ rest) = r # rs"
    using runs_nonempty by (metis neq_Nil_conv)
  show ?case
  proof (cases "separates ds sub")
    case True
    then obtain cks0 where c: "take_pieces ntk ds subs [] = (cks0, seg')" "cks = flush_seg ntk seg @ cks0"
      using 2(3) by (auto simp: separates_def split: prod.splits)
    have "run_texts ds (behind [] (runs (separates ds) (subs @ rest))) =
        map ck_text cks0 @ run_texts ds (behind seg' (runs (separates ds) rest))"
      using True c(1) by (intro 2(1)) (simp_all add: separates_def)
    then show ?thesis using True c(2) r by (simp add: behind_def flush_texts [of ntk seg ds] run_texts_def)
  next
    case False
    then have "take_pieces ntk ds subs (seg @ sub) = (cks, seg')" using 2(3) by (simp add: separates_def)
    then have "run_texts ds (behind (seg @ sub) (runs (separates ds) (subs @ rest))) =
        map ck_text cks @ run_texts ds (behind seg' (runs (separates ds) rest))"
      using False by (intro 2(2)) (simp_all add: separates_def)
    then show ?thesis using False r by (simp add: behind_def run_texts_def)
  qed
qed simp

lemma texts_only: "filter (\<lambda>c. \<not> is_text c) cks = [] \<Longrightarrow> filter is_text cks = cks"
  by (auto simp: filter_empty_conv intro: filter_True)

lemma flush_only [simp]: "filter is_text (flush_seg ntk seg) = flush_seg ntk seg"
  by (rule texts_only) (rule flush_seg_text)

lemma build_texts_runs:
  assumes "ds \<noteq> []"
  shows "map ck_text (filter is_text (build_cks_from ntk ds secs seg)) =
     run_texts ds (behind seg (runs (separates ds) (docx_pieces ds secs)))"
  using assms
proof (induction ntk ds secs seg rule: build_cks_from.induct)
  case (1 ntk ds seg)
  then show ?case
    by (simp add: texts_only [OF flush_seg_text] docx_pieces_def plain_texts_def behind_def flush_texts [of ntk seg ds])
next
  case (2 ntk ds t pic table secs seg)
  have new: "is_text (new_ck ntk ty im tx :: 'a dck) = (ty = CkText)" for ty im tx
    by (simp add: new_ck_def is_text_def)
  obtain cks seg' where tp: "take_pieces ntk ds (split_flat ds (with_lf t)) seg = (cks :: 'a dck list, seg')"
    by (cases "take_pieces ntk ds (split_flat ds (with_lf t)) seg :: 'a dck list \<times> string")
  have skip: "docx_pieces ds ((t, pic, table) # secs) =
      (if pic = None \<and> table = [] then split_flat ds (with_lf t) else []) @ docx_pieces ds secs"
    by (simp add: docx_pieces_def plain_texts_def)
  show ?case
  proof (cases "pic = None \<and> table = []")
    case True
    have "map ck_text (filter is_text (build_cks_from ntk ds secs seg')) =
        run_texts ds (behind seg' (runs (separates ds) (docx_pieces ds secs)))"
      using 2(3) True tp 2(5) by (simp add: with_lf_def)
    moreover have "docx_pieces ds ((t, pic, table) # secs) = split_flat ds (with_lf t) @ docx_pieces ds secs"
      using True unfolding skip by simp
    ultimately show ?thesis
      using take_pieces_runs [OF tp, of "docx_pieces ds secs"] True tp 2(5)
      by (simp add: texts_only [OF take_pieces_no_media [OF tp]] with_lf_def)
  next
    case False
    then have "docx_pieces ds ((t, pic, table) # secs) = docx_pieces ds secs" unfolding skip by auto
    moreover have "filter is_text (build_cks_from ntk ds ((t, pic, table) # secs) seg) =
        filter is_text (build_cks_from ntk ds secs seg :: 'a dck list)"
      using False by (cases "table = []") (simp_all add: new Let_def)
    ultimately show ?thesis using 2(1,2,5) False by (cases "table = []") simp_all
  qed
qed

lemma behind_empty: "run_texts ds (behind [] rs) = run_texts ds rs"
  by (cases rs) (simp_all add: behind_def run_texts_def strip_plain_ends)

lemma strip_with_lf: "strip_ws (with_lf t) = strip_ws t"
  by (simp add: with_lf_def strip_ws_def) (subst lstrip_ws.simps, simp add: ws_head_def is_space_def lf_def code_def)

lemma build_texts_plain: "texts_of (build_cks_from ntk [] secs seg) = concat (map strip_ws (plain_texts secs))"
proof (induction secs arbitrary: seg)
  case (Cons s secs)
  obtain t pic table where s: "s = (t, pic, table)" by (cases s)
  have new: "is_text (new_ck ntk ty im tx :: 'a dck) = (ty = CkText)" for ty im tx
    by (simp add: new_ck_def is_text_def)
  have "texts_of (flush_seg ntk (with_lf t) :: 'a dck list) = strip_ws t"
    by (simp add: texts_of_def flush_texts [of ntk _ "[]"] run_texts_def strip_with_lf)
  with Cons show ?case by (auto simp: s plain_texts_def new Let_def with_lf_def)
qed (simp add: plain_texts_def)

lemma split_keep_last: "split_keep ds s cur \<noteq> [] \<and> snd (last (split_keep ds s cur)) = []"
proof (induction ds s cur rule: split_keep.induct)
  case (1 ds s cur)
  show ?case
  proof (cases "find (\<lambda>d. d \<noteq> [] \<and> starts_with s d) ds")
    case None
    with 1(1) show ?thesis by (subst (1 2) split_keep.simps) simp
  next
    case (Some d)
    with 1(2) [OF Some] show ?thesis by (subst (1 2) split_keep.simps) simp
  qed
qed

lemma split_flat_text: "concat (split_flat ds s) = s"
proof -
  let ?ps = "split_keep ds s []"
  have "concat (map (\<lambda>(t, d). t @ d) (butlast ?ps @ [last ?ps])) = s"
    using split_keep_joins [of ds s "[]"] split_keep_last [of ds s "[]"] by simp
  then have "concat (map (\<lambda>(t, d). t @ d) (butlast ?ps)) @ fst (last ?ps) = s"
    using split_keep_last [of ds s "[]"] by (simp add: split_def del: append_butlast_last_id)
  moreover have "concat (concat (map (\<lambda>(t, d). [t, d]) qs)) = concat (map (\<lambda>(t, d). t @ d) qs)" for qs :: "(string \<times> string) list"
    by (induction qs) auto
  ultimately show ?thesis by (simp add: split_flat_def Let_def)
qed

lemma merge_custom: "fst (merge_cks limit True cks merged imgs prev) = merged @ cks"
  by (induction cks arbitrary: merged imgs prev) (auto split: option.split)

lemma keys_text_list: "map ck_key xs = map ck_key ys \<Longrightarrow> map ck_text (filter is_text xs) = map ck_text (filter is_text ys)"
proof -
  have "map ck_text (filter is_text cs) = map (snd \<circ> snd) (filter (\<lambda>(ty, _). ty = CkText) (map ck_key cs))" for cs :: "'a dck list"
    by (induction cs) (simp_all add: ck_key_def is_text_def)
  then show "map ck_key xs = map ck_key ys \<Longrightarrow> ?thesis" by (simp only:)
qed

text \<open>C33: merging the sections of a Word document loses no text, table or image.  Without a delimiter in backticks the text
  chunks hold, in order, the texts of the sections without table and image, each stripped.  With delimiters the text chunks are
  exactly the stripped texts, blank ones left out, of the runs of pieces between delimiters and blank pieces, the last run included;
  all pieces together are the texts of the sections.  The tables and images come in the order of the document with the text before
  them, and the indices returned are those of the images.\<close>

theorem docx_merge_conserves:
  assumes "naive_merge_docx ntk secs limit delimiter table_ctx image_ctx = (merged, imgs)"
    and "ds = longest_first (custom_delimiters delimiter)"
  shows "(if ds = [] then texts_of merged = concat (map strip_ws (plain_texts secs))
      else map ck_text (filter is_text merged) = run_texts ds (runs (separates ds) (docx_pieces ds secs)) \<and>
        concat (docx_pieces ds secs) = concat (map with_lf (plain_texts secs))) \<and>
     map ck_key (filter (\<lambda>c. \<not> is_text c) merged) = media_of secs \<and> imgs = indices_of CkImage merged"
proof (cases "secs = []")
  case True
  with assms show ?thesis
    by (simp add: naive_merge_docx_def media_of_def indices_of_def plain_texts_def docx_pieces_def run_texts_def strip_plain_ends)
next
  case False
  define cks where "cks = (build_cks_from ntk ds secs [] :: 'a dck list)"
  have b: "build_cks ntk secs delimiter = (cks, ds \<noteq> [])" by (simp add: build_cks_def cks_def assms(2) Let_def)
  define cks1 where "cks1 = (if 0 < table_ctx then foldl (add_context ntk table_ctx) cks (indices_of CkTable cks) else cks)"
  define cks2 where "cks2 = (if 0 < image_ctx then foldl (add_context ntk image_ctx) cks1 (indices_of CkImage cks) else cks1)"
  have keys: "map ck_key cks2 = map ck_key cks" by (simp add: cks2_def cks1_def fold_context_keys)
  have run: "merge_cks limit (ds \<noteq> []) cks2 [] [] None = (merged, imgs)"
    unfolding cks2_def cks1_def using assms(1) False b by (simp add: naive_merge_docx_def Let_def split del: if_split)
  from merge_cks_spec [OF _ run] have spec:
    "texts_of merged = texts_of cks2" "filter (\<lambda>x. \<not> is_text x) merged = filter (\<lambda>x. \<not> is_text x) cks2"
    "imgs = indices_of CkImage merged" by (auto simp: merge_ok_def indices_of_def)
  have media: "map ck_key (filter (\<lambda>c. \<not> is_text c) merged) = media_of secs"
    using spec(2) keys_media [OF keys] by (simp add: cks_def build_cks_media)
  show ?thesis
  proof (cases "ds = []")
    case True
    have "texts_of merged = concat (map strip_ws (plain_texts secs))"
      using spec(1) keys_texts [OF keys] by (simp add: cks_def True build_texts_plain)
    with True media spec(3) show ?thesis by simp
  next
    case ds: False
    have "merged = cks2" using merge_custom [of limit cks2 "[]" "[]" None] run ds by simp
    then have "map ck_text (filter is_text merged) = run_texts ds (runs (separates ds) (docx_pieces ds secs))"
      using keys_text_list [OF keys] build_texts_runs [OF ds, of ntk secs "[]"] by (simp add: cks_def behind_empty)
    moreover have "concat (docx_pieces ds secs) = concat (map with_lf (plain_texts secs))"
    proof -
      have "concat (concat (map (\<lambda>t. split_flat ds (with_lf t)) ts)) = concat (map with_lf ts)" for ts
        by (induction ts) (simp_all add: split_flat_text)
      then show ?thesis by (simp add: docx_pieces_def)
    qed
    ultimately show ?thesis using ds media spec(3) by simp
  qed
qed

definition demo_docx :: "bool docx_section list" where
  "demo_docx = [(''before'', None, []), (''figure'', Some True, []), (''after'', None, [])]"

theorem docx_merge_conserves_witness:
  "\<exists>merged imgs. naive_merge_docx length demo_docx 99 [] 0 0 = (merged, imgs) \<and>
     texts_of merged = ''beforeafter'' \<and> map ck_key (filter (\<lambda>c. \<not> is_text c) merged) = media_of demo_docx"
proof -
  obtain merged imgs where m: "naive_merge_docx length demo_docx 99 [] 0 0 = (merged, imgs)"
    by (cases "naive_merge_docx length demo_docx 99 [] 0 0")
  have ds: "[] = longest_first (custom_delimiters [])" by code_simp
  have "concat (map strip_ws (plain_texts demo_docx)) = ''beforeafter''" by code_simp
  with docx_merge_conserves [OF m ds] m show ?thesis by simp
qed

text \<open>The text behind an image joins the text chunk before it: the order of text and image is lost.\<close>

lemma docx_text_moves:
  "map ck_text (fst (naive_merge_docx length demo_docx 99 [] 0 0)) = [''beforeafter'', lf # ''figure'']"
  by code_simp

section \<open>The context of a table or image\<close>

lemma sentences_join: "concat (sentences s) = s"
  using split_keep_joins [of sentence_ends s "[]"] by (simp add: sentences_def)

lemma take_until_prefix: "prefix (take_until ntk need acc ss) (acc @ concat ss)"
proof (induction ntk need acc ss rule: take_until.induct)
  case (2 ntk need acc s ss)
  then show ?case by (auto simp: prefix_def)
qed simp

lemma take_until_back_suffix: "suffix (take_until_back ntk need acc ss) (concat (rev ss) @ acc)"
proof (induction ntk need acc ss rule: take_until_back.induct)
  case (2 ntk need acc s ss)
  then show ?case by (auto simp: suffix_def)
qed simp

lemma sentences_start: "prefix (take_sentences_from_start ntk s need) s"
  using take_until_prefix [of ntk need "[]" "sentences s"] by (simp add: take_sentences_from_start_def sentences_join)

lemma sentences_end: "suffix (take_sentences_from_end ntk s need) s"
  using take_until_back_suffix [of ntk need "[]" "rev (sentences s)"]
  by (simp add: take_sentences_from_end_def sentences_join)

lemma prefix_same_append: "prefix a b \<Longrightarrow> prefix (c @ a) (c @ b)"
  by simp

lemma suffix_same_append: "suffix a b \<Longrightarrow> suffix (a @ c) (b @ c)"
  by simp

lemma context_below_prefix: "prefix (context_below ntk n cs) (texts_of cs)"
proof (induction ntk n cs rule: context_below.induct)
  case (2 ntk n c cs)
  consider "n \<le> 0" | "0 < n" "ck_type c \<noteq> CkText" | "0 < n" "ck_type c = CkText" "n \<le> ck_tk c"
    | "0 < n" "ck_type c = CkText" "\<not> n \<le> ck_tk c" by (meson not_le)
  then show ?case
  proof cases
    case 3
    with prefix_prefix [OF sentences_start [of ntk "ck_text c" n]] show ?thesis by (simp add: is_text_def)
  qed (use 2 in \<open>simp_all add: is_text_def\<close>)
qed simp

lemma context_above_suffix: "suffix (context_above ntk n cs) (texts_of (rev cs))"
proof (induction ntk n cs rule: context_above.induct)
  case (2 ntk n c cs)
  consider "n \<le> 0" | "0 < n" "ck_type c \<noteq> CkText" | "0 < n" "ck_type c = CkText" "n \<le> ck_tk c"
    | "0 < n" "ck_type c = CkText" "\<not> n \<le> ck_tk c" by (meson not_le)
  then show ?case
  proof cases
    case 3
    with suffix_appendI [OF sentences_end [of ntk "ck_text c" n]] show ?thesis by (simp add: is_text_def)
  qed (use 2 in \<open>simp_all add: is_text_def\<close>)
qed simp

text \<open>The context given to a table or image is text of the document right next to it: what is
  above ends the text before it and what is below begins the text behind it; no other chunk changes.\<close>

theorem docx_context_adjacent:
  assumes "i < length cks" and "ck_type (cks ! i) \<noteq> CkText"
  shows "suffix (ck_above (add_context ntk n cks i ! i)) (texts_of (take i cks)) \<and>
     prefix (ck_below (add_context ntk n cks i ! i)) (texts_of (drop (Suc i) cks)) \<and>
     (\<forall>j. j \<noteq> i \<longrightarrow> add_context ntk n cks i ! j = cks ! j)"
  using assms context_above_suffix [of ntk n "rev (take i cks)"] context_below_prefix [of ntk n "drop (Suc i) cks"]
  by (simp add: add_context_def)

theorem docx_context_adjacent_witness:
  "suffix (ck_above (add_context length 3 (fst (build_cks length demo_docx [])) 1 ! 1))
     (texts_of (take 1 (fst (build_cks length demo_docx []))))"
proof -
  have "1 < length (fst (build_cks length demo_docx []))" "ck_type (fst (build_cks length demo_docx []) ! 1) \<noteq> CkText"
    by code_simp+
  from docx_context_adjacent [OF this, of length 3] show ?thesis by blast
qed

end
