(* ===== verification/Otsl.thy ===== *)
theory Otsl
  imports Merging
begin

text \<open>
  MinerU's conversion of OTSL tables to HTML (\<^verbatim>\<open>MinerU/mineru/utils/format_utils.py\<close>): splitting the
  text at the tokens, completing the matrix of tokens, the cells with their row and column spans, the grid of a
  table and its HTML.  Tokens and texts are strings, as in the source; the accesses to lists that can fail are
  exceptions.
\<close>

section \<open>Tokens\<close>

definition OTSL_NL :: string where "OTSL_NL = ''<nl>''"
definition OTSL_FCEL :: string where "OTSL_FCEL = ''<fcel>''"
definition OTSL_ECEL :: string where "OTSL_ECEL = ''<ecel>''"
definition OTSL_LCEL :: string where "OTSL_LCEL = ''<lcel>''"
definition OTSL_UCEL :: string where "OTSL_UCEL = ''<ucel>''"
definition OTSL_XCEL :: string where "OTSL_XCEL = ''<xcel>''"

definition otsl_tokens :: "string list" where
  "otsl_tokens = [OTSL_NL, OTSL_FCEL, OTSL_ECEL, OTSL_LCEL, OTSL_UCEL, OTSL_XCEL]"

definition otsl_extract_tokens_and_text :: "string \<Rightarrow> string list \<times> string list" where
  "otsl_extract_tokens_and_text s =
     (map snd (butlast (split_keep otsl_tokens s [])),
      filter (\<lambda>part. strip_ws part \<noteq> []) (split_flat otsl_tokens s))"

section \<open>The matrix of tokens\<close>

text \<open>The runs of tokens between line breaks\<close>

fun split_rows :: "string list \<Rightarrow> string list \<Rightarrow> string list list" where
  "split_rows cur [] = (if cur = [] then [] else [cur])"
| "split_rows cur (t # ts) =
     (if t = OTSL_NL then (if cur = [] then [] else [cur]) @ split_rows [] ts else split_rows (cur @ [t]) ts)"

definition max_columns :: "string list list \<Rightarrow> nat" where
  "max_columns rows = foldl max 0 (map length rows)"

definition complete_rows :: "string list list \<Rightarrow> string list list" where
  "complete_rows rows = map (\<lambda>r. r @ replicate (max_columns rows - length r) OTSL_ECEL) rows"

text \<open>The texts rebuilt along the matrix: each token with the text behind it, as long as the texts follow the tokens\<close>

fun take_row :: "string list \<Rightarrow> string list \<Rightarrow> string list \<times> string list" where
  "take_row [] texts = ([], texts)"
| "take_row (tok # toks) texts =
     (case texts of
        t # rest \<Rightarrow>
          if t = tok
          then (case rest of
                  t2 # rest2 \<Rightarrow>
                    if t2 \<notin> set otsl_tokens
                    then (case take_row toks rest2 of (out, left) \<Rightarrow> (tok # t2 # out, left))
                    else (case take_row toks rest of (out, left) \<Rightarrow> (tok # out, left))
                | [] \<Rightarrow> (case take_row toks rest of (out, left) \<Rightarrow> (tok # out, left)))
          else (case take_row toks texts of (out, left) \<Rightarrow> (tok # out, left))
      | [] \<Rightarrow> (case take_row toks [] of (out, left) \<Rightarrow> (tok # out, left)))"

fun rebuild_texts :: "string list list \<Rightarrow> string list \<Rightarrow> string list" where
  "rebuild_texts [] texts = []"
| "rebuild_texts (row # rows) texts =
     (case take_row row texts of
        (out, left) \<Rightarrow>
          out @ OTSL_NL # rebuild_texts rows (case left of t # rest \<Rightarrow> (if t = OTSL_NL then rest else left) | [] \<Rightarrow> []))"

section \<open>Cells\<close>

record table_cell =
  row_span :: nat
  col_span :: nat
  start_row :: nat
  end_row :: nat
  start_col :: nat
  end_col :: nat
  cell_text :: string

definition at_res :: "'a list \<Rightarrow> nat \<Rightarrow> 'a res" where
  "at_res xs i = (if i < length xs then Inr (xs ! i) else Inl (Exc IndexErr ''list index out of range''))"

text \<open>The loops of \<open>count_right\<close> and \<open>count_down\<close>: the tokens of the kinds from a place on, whose first must exist\<close>

definition count_right :: "string list list \<Rightarrow> nat \<Rightarrow> nat \<Rightarrow> string list \<Rightarrow> nat res" where
  "count_right rows c r which =
     bindR (at_res rows r) (\<lambda>row. bindR (at_res row c) (\<lambda>_.
       Inr (length (takeWhile (\<lambda>t. t \<in> set which) (drop c row)))))"

fun run_down :: "string list list \<Rightarrow> nat \<Rightarrow> string list \<Rightarrow> nat res" where
  "run_down [] c which = Inr 0"
| "run_down (row # rows) c which =
     bindR (at_res row c) (\<lambda>t. if t \<in> set which then bindR (run_down rows c which) (\<lambda>n. Inr (Suc n)) else Inr 0)"

definition count_down :: "string list list \<Rightarrow> nat \<Rightarrow> nat \<Rightarrow> string list \<Rightarrow> nat res" where
  "count_down rows c r which = bindR (at_res rows r) (\<lambda>_. run_down (drop r rows) c which)"

text \<open>\<open>rest\<close> are the texts behind the token.\<close>

definition parse_cell :: "string list list \<Rightarrow> string \<Rightarrow> string list \<Rightarrow> nat \<Rightarrow> nat \<Rightarrow> table_cell res" where
  "parse_cell rows tok rest r c =
     bindR (if tok = OTSL_ECEL then Inr ([], 0) else bindR (at_res rest 0) (\<lambda>t. Inr (t, 1))) (\<lambda>(txt, off).
     let next_right = (if off < length rest then rest ! off else []);
         next_bottom = (if r + 1 < length rows \<and> c < length (rows ! (r + 1)) then rows ! (r + 1) ! c else [])
     in bindR (if next_right \<in> {OTSL_LCEL, OTSL_XCEL} then count_right rows (c + 1) r [OTSL_LCEL, OTSL_XCEL] else Inr 0) (\<lambda>cs.
        bindR (if next_bottom \<in> {OTSL_UCEL, OTSL_XCEL} then count_down rows c (r + 1) [OTSL_UCEL, OTSL_XCEL] else Inr 0) (\<lambda>rs.
          Inr \<lparr> row_span = 1 + rs, col_span = 1 + cs, start_row = r, end_row = r + (1 + rs),
                start_col = c, end_col = c + (1 + cs), cell_text = strip_ws txt \<rparr>)))"

fun parse_from :: "string list list \<Rightarrow> string list \<Rightarrow> nat \<Rightarrow> nat \<Rightarrow> table_cell list res" where
  "parse_from rows [] r c = Inr []"
| "parse_from rows (t # rest) r c =
     bindR (if t \<in> {OTSL_FCEL, OTSL_ECEL} then bindR (parse_cell rows t rest r c) (\<lambda>x. Inr [x]) else Inr []) (\<lambda>cell.
     bindR (if t = OTSL_NL then parse_from rows rest (r + 1) 0
            else if t \<in> set otsl_tokens then parse_from rows rest r (c + 1)
            else parse_from rows rest r c) (\<lambda>cells. Inr (cell @ cells)))"

definition otsl_parse_texts :: "string list \<Rightarrow> string list \<Rightarrow> (table_cell list \<times> string list list) res" where
  "otsl_parse_texts texts tokens =
     (let rows = complete_rows (split_rows [] tokens);
          texts' = (if rows = [] then texts else rebuild_texts rows texts)
      in bindR (parse_from rows texts' 0 0) (\<lambda>cells. Inr (cells, rows)))"

section \<open>The grid and its HTML\<close>

definition empty_cell :: "nat \<Rightarrow> nat \<Rightarrow> table_cell" where
  "empty_cell i j =
     \<lparr> row_span = 1, col_span = 1, start_row = i, end_row = i + 1, start_col = j, end_col = j + 1, cell_text = [] \<rparr>"

definition covers :: "nat \<Rightarrow> nat \<Rightarrow> table_cell \<Rightarrow> bool" where
  "covers i j c \<longleftrightarrow> start_row c \<le> i \<and> i < end_row c \<and> start_col c \<le> j \<and> j < end_col c"

text \<open>A place within the table shows the last cell that covers it.\<close>

definition grid_at :: "table_cell list \<Rightarrow> nat \<Rightarrow> nat \<Rightarrow> table_cell" where
  "grid_at cells i j = (case find (covers i j) (rev cells) of Some c \<Rightarrow> c | None \<Rightarrow> empty_cell i j)"

definition html_char :: "char \<Rightarrow> string" where
  "html_char c =
     (if c = CHR ''&'' then ''&amp;'' else if c = CHR ''<'' then ''&lt;'' else if c = CHR ''>'' then ''&gt;''
      else if c = dquote then ''&quot;'' else if c = squote then ''&#x27;'' else [c])"

definition html_escape :: "string \<Rightarrow> string" where
  "html_escape s = concat (map html_char s)"

definition span_attr :: "string \<Rightarrow> nat \<Rightarrow> string" where
  "span_attr name n = (if 1 < n then '' '' @ name @ [CHR ''='', dquote] @ show_nat n @ [dquote] else [])"

definition cell_html :: "table_cell \<Rightarrow> string" where
  "cell_html c =
     ''<td'' @ span_attr ''rowspan'' (row_span c) @ span_attr ''colspan'' (col_span c) @ ''>'' @
     html_escape (strip_ws (cell_text c)) @ ''</td>''"

definition row_html :: "table_cell list \<Rightarrow> nat \<Rightarrow> nat \<Rightarrow> string" where
  "row_html cells n i =
     ''<tr>'' @ concat (map (\<lambda>j. let c = grid_at cells i j in if start_row c = i \<and> start_col c = j then cell_html c else [])
       [0..<n]) @ ''</tr>''"

definition export_to_html :: "table_cell list \<Rightarrow> nat \<Rightarrow> nat \<Rightarrow> string" where
  "export_to_html cells nrows ncols =
     (if cells = [] then []
      else ''<table>'' @ concat (map (row_html cells ncols) [0..<nrows]) @ ''</table>'')"

definition convert_otsl_to_html :: "string \<Rightarrow> string res" where
  "convert_otsl_to_html s =
     (case otsl_extract_tokens_and_text s of
        (tokens, texts) \<Rightarrow>
          bindR (otsl_parse_texts texts tokens) (\<lambda>(cells, rows).
            Inr (export_to_html cells (length rows) (max_columns rows))))"

text \<open>\<open>s.split("\n\n")\<close>\<close>

fun split_blank :: "string \<Rightarrow> string \<Rightarrow> string list" where
  "split_blank cur [] = [cur]"
| "split_blank cur [c] = [cur @ [c]]"
| "split_blank cur (c # d # cs) =
     (if c = lf \<and> d = lf then cur # split_blank [] cs else split_blank (cur @ [c]) (d # cs))"

definition block_content_to_html :: "string \<Rightarrow> string res" where
  "block_content_to_html content1 =
     bindR (mapR (\<lambda>line. if contains line OTSL_FCEL \<or> contains line OTSL_ECEL then convert_otsl_to_html line else Inr line)
       (split_blank [] content1)) (\<lambda>ls. Inr (join [lf, lf] ls))"

end
