(* ===== verification/OtslSpec.thy ===== *)
theory OtslSpec
  imports Otsl
begin

text \<open>
  What the conversion of OTSL tables promises: a complete matrix of tokens, each filled cell with its text, becomes
  the HTML table in which every cell stands once, at its place, with the spans its continuation tokens give it.
  Behind an empty row, and in a filled cell without text, the conversion goes wrong.
\<close>

section \<open>Complete matrices\<close>

text \<open>A cell of the matrix: its token and its text\<close>

type_synonym ocell = "string \<times> string"

definition filled :: "string \<Rightarrow> bool" where
  "filled tok \<longleftrightarrow> tok \<in> {OTSL_FCEL, OTSL_ECEL}"

definition ocell_ok :: "ocell \<Rightarrow> bool" where
  "ocell_ok cell \<longleftrightarrow>
     (fst cell = OTSL_FCEL \<and> CHR ''<'' \<notin> set (snd cell) \<and> strip_ws (snd cell) \<noteq> []) \<or>
     (fst cell \<in> {OTSL_ECEL, OTSL_LCEL, OTSL_UCEL, OTSL_XCEL} \<and> snd cell = [])"

definition matrix_ok :: "ocell list list \<Rightarrow> nat \<Rightarrow> bool" where
  "matrix_ok rows n \<longleftrightarrow> 0 < n \<and> (\<forall>row\<in>set rows. length row = n \<and> (\<forall>cell\<in>set row. ocell_ok cell))"

definition encode_otsl :: "ocell list list \<Rightarrow> string" where
  "encode_otsl rows = concat (map (\<lambda>row. concat (map (\<lambda>(tok, txt). tok @ txt) row) @ OTSL_NL) rows)"

text \<open>The cell that starts at a place, by the continuation tokens to its right and below\<close>

definition toks :: "ocell list list \<Rightarrow> string list list" where
  "toks rows = map (map fst) rows"

definition cell_of :: "ocell list list \<Rightarrow> nat \<Rightarrow> nat \<Rightarrow> table_cell" where
  "cell_of rows r c =
     (let cs = length (takeWhile (\<lambda>t. t \<in> {OTSL_LCEL, OTSL_XCEL}) (drop (c + 1) (toks rows ! r)));
          rs = length (takeWhile (\<lambda>t. t \<in> {OTSL_UCEL, OTSL_XCEL}) (map (\<lambda>row. row ! c) (drop (r + 1) (toks rows))))
      in \<lparr> row_span = 1 + rs, col_span = 1 + cs, start_row = r, end_row = r + (1 + rs),
           start_col = c, end_col = c + (1 + cs), cell_text = strip_ws (snd (rows ! r ! c)) \<rparr>)"

definition cells_of :: "ocell list list \<Rightarrow> nat \<Rightarrow> table_cell list" where
  "cells_of rows n =
     concat (map (\<lambda>r. map (cell_of rows r) (filter (\<lambda>c. filled (toks rows ! r ! c)) [0..<n])) [0..<length rows])"

definition otsl_html :: "ocell list list \<Rightarrow> nat \<Rightarrow> string" where
  "otsl_html rows n =
     ''<table>'' @ concat (map (\<lambda>i. ''<tr>'' @ concat (map (\<lambda>j.
         if filled (toks rows ! i ! j) then cell_html (cell_of rows i j)
         else if list_ex (covers i j) (cells_of rows n) then [] else cell_html (empty_cell i j)) [0..<n]) @ ''</tr>'')
       [0..<length rows]) @ ''</table>''"

section \<open>Splitting at the tokens\<close>

lemmas otsl_defs = OTSL_NL_def OTSL_FCEL_def OTSL_ECEL_def OTSL_LCEL_def OTSL_UCEL_def OTSL_XCEL_def

lemma token_find: "tok \<in> set otsl_tokens \<Longrightarrow> find (\<lambda>d. d \<noteq> [] \<and> starts_with (tok @ s) d) otsl_tokens = Some tok"
proof -
  assume "tok \<in> set otsl_tokens"
  then consider "tok = OTSL_NL" | "tok = OTSL_FCEL" | "tok = OTSL_ECEL" | "tok = OTSL_LCEL" | "tok = OTSL_UCEL" | "tok = OTSL_XCEL"
    unfolding otsl_tokens_def list.set insert_iff empty_iff by metis
  then show ?thesis
    by cases (simp_all only: otsl_tokens_def otsl_defs starts_with_def find.simps append_Cons append_Nil Cons_prefix_Cons
        Nil_prefix char.inject simp_thms list.distinct if_True if_False)
qed

lemma no_token_find: "c \<noteq> CHR ''<'' \<Longrightarrow> find (\<lambda>d. d \<noteq> [] \<and> starts_with (c # s) d) otsl_tokens = None"
  by (auto simp: otsl_tokens_def otsl_defs starts_with_def)

lemma split_keep_token:
  "tok \<in> set otsl_tokens \<Longrightarrow> split_keep otsl_tokens (tok @ s) cur = (cur, tok) # split_keep otsl_tokens s []"
  by (subst split_keep.simps) (simp add: token_find)

lemma split_keep_text:
  "CHR ''<'' \<notin> set w \<Longrightarrow> split_keep otsl_tokens (w @ s) cur = split_keep otsl_tokens s (cur @ w)"
proof (induction w arbitrary: cur)
  case (Cons c w)
  then have "CHR ''<'' \<notin> set w" "c \<noteq> CHR ''<''" by auto
  with Cons.IH show ?case by (subst split_keep.simps) (simp add: no_token_find)
qed simp

text \<open>The pieces of a sequence of tokens with texts\<close>

fun pieces :: "string \<Rightarrow> ocell list \<Rightarrow> (string \<times> string) list" where
  "pieces cur [] = [(cur, [])]"
| "pieces cur (p # ps) = (cur, fst p) # pieces (snd p) ps"

definition seq_ok :: "ocell list \<Rightarrow> bool" where
  "seq_ok ps \<longleftrightarrow> (\<forall>p\<in>set ps. fst p \<in> set otsl_tokens \<and> CHR ''<'' \<notin> set (snd p))"

lemma find_Nil_token: "find (\<lambda>d. d \<noteq> [] \<and> starts_with [] d) otsl_tokens = None"
  by (auto simp: find_None_iff starts_with_def)

lemma split_keep_pieces:
  "seq_ok ps \<Longrightarrow> split_keep otsl_tokens (concat (map (\<lambda>(tok, txt). tok @ txt) ps)) cur = pieces cur ps"
proof (induction ps arbitrary: cur)
  case Nil
  then show ?case by (subst split_keep.simps) (simp add: find_Nil_token)
next
  case (Cons p ps)
  then show ?case by (cases p) (simp add: seq_ok_def split_keep_token split_keep_text [where cur = "[]", simplified])
qed

definition flat :: "ocell \<Rightarrow> string list" where
  "flat cell = fst cell # (if strip_ws (snd cell) = [] then [] else [snd cell])"

lemma pieces_nonempty [simp]: "pieces cur ps \<noteq> []"
  by (cases ps) auto

lemma pieces_tokens: "map snd (butlast (pieces cur ps)) = map fst ps"
  by (induction ps arbitrary: cur) auto

lemma strip_ws_Nil [simp]: "strip_ws [] = []"
  by (simp add: strip_ws_def lstrip_ws.simps rstrip_ws.simps ws_head_def ws_tail_def)

lemma strip_tokens: "tok \<in> set otsl_tokens \<Longrightarrow> strip_ws tok \<noteq> []"
proof -
  have "list_all (\<lambda>tok. strip_ws tok \<noteq> []) otsl_tokens" by code_simp
  then show "tok \<in> set otsl_tokens \<Longrightarrow> strip_ws tok \<noteq> []" by (simp add: list_all_iff)
qed

lemma pieces_texts:
  "seq_ok ps \<Longrightarrow>
     filter (\<lambda>part. strip_ws part \<noteq> []) (concat (map (\<lambda>(t, d). [t, d]) (butlast (pieces cur ps))) @ [fst (last (pieces cur ps))]) =
     (if strip_ws cur = [] then [] else [cur]) @ concat (map flat ps)"
proof (induction ps arbitrary: cur)
  case (Cons p ps)
  have "strip_ws (fst p) \<noteq> []" using Cons.prems strip_tokens by (simp add: seq_ok_def)
  moreover have "seq_ok ps" using Cons.prems by (simp add: seq_ok_def)
  ultimately show ?case using Cons.IH [of "snd p"] by (simp add: flat_def)
qed simp

lemma extract_pieces:
  assumes "seq_ok ps"
  shows "otsl_extract_tokens_and_text (concat (map (\<lambda>(tok, txt). tok @ txt) ps)) = (map fst ps, concat (map flat ps))"
  using pieces_texts [OF assms, of "[]"]
  by (simp add: otsl_extract_tokens_and_text_def split_flat_def Let_def split_keep_pieces [OF assms] pieces_tokens)

section \<open>The matrix is rebuilt\<close>

definition row_seq :: "ocell list \<Rightarrow> ocell list" where
  "row_seq row = row @ [(OTSL_NL, [])]"

lemma row_seq_simps [simp]:
  "map fst (row_seq row) = map fst row @ [OTSL_NL]" "concat (map flat (row_seq row)) = concat (map flat row) @ [OTSL_NL]"
  by (simp_all add: row_seq_def flat_def)

lemma encode_seq: "encode_otsl rows = concat (map (\<lambda>(tok, txt). tok @ txt) (concat (map row_seq rows)))"
  by (induction rows) (auto simp: encode_otsl_def row_seq_def)

lemma ocell_tokens: "ocell_ok cell \<Longrightarrow> fst cell \<in> set otsl_tokens \<and> fst cell \<noteq> OTSL_NL \<and> CHR ''<'' \<notin> set (snd cell)"
  by (auto simp: ocell_ok_def otsl_tokens_def otsl_defs)

lemma matrix_seq: "matrix_ok rows n \<Longrightarrow> seq_ok (concat (map row_seq rows))"
  using ocell_tokens by (fastforce simp: matrix_ok_def seq_ok_def row_seq_def otsl_tokens_def)

lemma split_rows_run:
  "\<forall>t\<in>set ts. t \<noteq> OTSL_NL \<Longrightarrow> split_rows cur (ts @ OTSL_NL # us) = (if cur @ ts = [] then [] else [cur @ ts]) @ split_rows [] us"
  by (induction ts arbitrary: cur) auto

lemma split_rows_matrix:
  assumes "matrix_ok rows n"
  shows "split_rows [] (map fst (concat (map row_seq rows))) = toks rows"
  using assms
proof (induction rows)
  case (Cons row rows)
  have "\<forall>t\<in>set (map fst row). t \<noteq> OTSL_NL" "map fst row \<noteq> []" "matrix_ok rows n"
    using Cons.prems ocell_tokens by (auto simp: matrix_ok_def)
  with split_rows_run [of "map fst row" "[]" "map fst (concat (map row_seq rows))"] Cons.IH show ?case
    by (simp add: toks_def)
qed (simp add: toks_def)

lemma max_columns_matrix: "matrix_ok rows n \<Longrightarrow> rows \<noteq> [] \<Longrightarrow> max_columns (toks rows) = n"
proof -
  have "foldl max k (map length rs) = max k n" if "\<forall>r\<in>set rs. length r = n" "rs \<noteq> []" for rs :: "string list list" and k
    using that
  proof (induction rs arbitrary: k)
    case (Cons r rs)
    then show ?case by (cases "rs = []") auto
  qed simp
  then have "foldl max 0 (map length (toks rows)) = max 0 n" if "matrix_ok rows n" "rows \<noteq> []"
  proof -
    have "\<forall>r\<in>set (toks rows). length r = n" "toks rows \<noteq> []" using that by (auto simp: matrix_ok_def toks_def)
    then show ?thesis by (rule \<open>\<And>rs k. \<lbrakk>\<forall>r\<in>set rs. length r = n; rs \<noteq> []\<rbrakk> \<Longrightarrow> foldl max k (map length rs) = max k n\<close>)
  qed
  then show "matrix_ok rows n \<Longrightarrow> rows \<noteq> [] \<Longrightarrow> max_columns (toks rows) = n"
    by (simp add: max_columns_def)
qed

lemma complete_matrix: "matrix_ok rows n \<Longrightarrow> complete_rows (toks rows) = toks rows"
proof (cases "rows = []")
  case False
  assume m: "matrix_ok rows n"
  then have "r @ replicate (n - length r) OTSL_ECEL = r" if "r \<in> set (toks rows)" for r
    using that by (auto simp: toks_def matrix_ok_def)
  with max_columns_matrix [OF m False] show ?thesis by (simp add: complete_rows_def map_idI)
qed (simp add: complete_rows_def toks_def)

lemma text_not_token: "CHR ''<'' \<notin> set txt \<Longrightarrow> txt \<notin> set otsl_tokens"
  by (auto simp: otsl_tokens_def otsl_defs)

lemma flat_hd_token:
  "\<forall>cell\<in>set row. ocell_ok cell \<Longrightarrow> \<exists>t us. concat (map flat row) @ OTSL_NL # vs = t # us \<and> t \<in> set otsl_tokens"
  using ocell_tokens by (cases row) (auto simp: flat_def otsl_tokens_def)

lemma take_row_matrix:
  "\<forall>cell\<in>set row. ocell_ok cell \<Longrightarrow>
     take_row (map fst row) (concat (map flat row) @ OTSL_NL # us) = (concat (map flat row), OTSL_NL # us)"
proof (induction row)
  case (Cons cell row)
  have IH: "take_row (map fst row) (concat (map flat row) @ OTSL_NL # us) = (concat (map flat row), OTSL_NL # us)"
    using Cons by simp
  obtain t vs where t: "concat (map flat row) @ OTSL_NL # us = t # vs" "t \<in> set otsl_tokens"
    using flat_hd_token [of row us] Cons.prems by auto
  show ?case
  proof (cases "strip_ws (snd cell) = []")
    case True
    then have "flat cell = [fst cell]" by (simp add: flat_def)
    moreover have "take_row (map fst (cell # row)) (fst cell # t # vs) = (fst cell # concat (map flat row), OTSL_NL # us)"
      using IH t by simp
    ultimately show ?thesis using t(1) by simp
  next
    case False
    have "snd cell \<notin> set otsl_tokens" using Cons.prems ocell_tokens [of cell] text_not_token by auto
    moreover have "flat cell = [fst cell, snd cell]" using False by (simp add: flat_def)
    ultimately show ?thesis using IH by simp
  qed
qed simp

lemma toks_Cons [simp]: "toks (row # rows) = map fst row # toks rows" "toks [] = []"
  by (simp_all add: toks_def)

definition flat_rows :: "ocell list list \<Rightarrow> string list" where
  "flat_rows rows = concat (map (\<lambda>row. concat (map flat row) @ [OTSL_NL]) rows)"

lemma flat_rows_seq: "concat (map flat (concat (map row_seq rows))) = flat_rows rows"
  by (induction rows) (simp_all add: flat_rows_def)

lemma rebuild_matrix:
  "\<forall>row\<in>set rows. \<forall>cell\<in>set row. ocell_ok cell \<Longrightarrow> rebuild_texts (toks rows) (flat_rows rows) = flat_rows rows"
proof (induction rows)
  case (Cons row rows)
  have "flat_rows (row # rows) = concat (map flat row) @ OTSL_NL # flat_rows rows" by (simp add: flat_rows_def)
  moreover have "take_row (map fst row) (concat (map flat row) @ OTSL_NL # flat_rows rows) =
      (concat (map flat row), OTSL_NL # flat_rows rows)" using Cons.prems by (intro take_row_matrix) simp
  ultimately show ?case using Cons by simp
qed (simp add: flat_rows_def)

section \<open>The cells\<close>

lemma takeWhile_head: "(if hd (xs @ [z]) \<in> S then length (takeWhile (\<lambda>t. t \<in> S) xs) else 0) = length (takeWhile (\<lambda>t. t \<in> S) xs)"
  by (cases xs) auto

lemma run_down_matrix:
  "\<forall>row\<in>set rows. c < length row \<Longrightarrow>
     run_down rows c which = Inr (length (takeWhile (\<lambda>t. t \<in> set which) (map (\<lambda>row. row ! c) rows)))"
  by (induction rows) (auto simp: at_res_def)

lemma count_right_matrix:
  "r < length rows \<Longrightarrow> c < length (rows ! r) \<Longrightarrow>
     count_right rows c r which = Inr (length (takeWhile (\<lambda>t. t \<in> set which) (drop c (rows ! r))))"
  by (simp add: count_right_def at_res_def)

lemma count_down_matrix:
  "r < length rows \<Longrightarrow> \<forall>row\<in>set rows. c < length row \<Longrightarrow>
     count_down rows c r which = Inr (length (takeWhile (\<lambda>t. t \<in> set which) (map (\<lambda>row. row ! c) (drop r rows))))"
proof -
  assume "r < length rows" "\<forall>row\<in>set rows. c < length row"
  then have "\<forall>row\<in>set (drop r rows). c < length row" by (meson in_set_dropD)
  from run_down_matrix [OF this] \<open>r < length rows\<close> show ?thesis by (simp add: count_down_def at_res_def)
qed

lemma toks_nth: "r < length rows \<Longrightarrow> toks rows ! r = map fst (rows ! r)"
  by (simp add: toks_def)

lemma length_toks [simp]: "length (toks rows) = length rows"
  by (simp add: toks_def)

text \<open>The first text behind a cell is the token of the next cell in the row or a line break.\<close>

lemma next_token:
  "hd (concat (map flat cells) @ OTSL_NL # us) = hd (map fst cells @ [OTSL_NL])"
  by (cases cells) (simp_all add: flat_def)

lemma takeWhile_hd:
  "z \<notin> S \<Longrightarrow> hd (xs @ [z]) \<notin> S \<Longrightarrow> takeWhile (\<lambda>t. t \<in> S) xs = []"
  by (cases xs) auto

lemma matrix_cell: "matrix_ok rows n \<Longrightarrow> r < length rows \<Longrightarrow> c < n \<Longrightarrow> ocell_ok (rows ! r ! c)"
  by (metis matrix_ok_def nth_mem)

lemma parse_cell_matrix:
  assumes "matrix_ok rows n" and "r < length rows" and "c < n" and "filled (fst (rows ! r ! c))"
  shows "parse_cell (toks rows) (fst (rows ! r ! c))
     (tl (flat (rows ! r ! c)) @ concat (map flat (drop (c + 1) (rows ! r))) @ OTSL_NL # us) r c = Inr (cell_of rows r c)"
proof -
  let ?cell = "rows ! r ! c" and ?rest = "concat (map flat (drop (c + 1) (rows ! r))) @ OTSL_NL # us"
  have len: "length (rows ! r) = n" using assms(1,2) by (auto simp: matrix_ok_def)
  have ok: "ocell_ok ?cell" using assms(1-3) by (rule matrix_cell)
  have lens: "\<forall>row\<in>set (toks rows). c < length row" using assms(1,3) by (auto simp: matrix_ok_def toks_def)
  have ne: "?rest \<noteq> []" by simp
  define off where "off = length (tl (flat ?cell))"
  have txt_eq: "(if fst ?cell = OTSL_ECEL then Inr ([], 0) else bindR (at_res (tl (flat ?cell) @ ?rest) 0) (\<lambda>t. Inr (t, 1))) =
      Inr (snd ?cell, off)"
  proof -
    consider "fst ?cell = OTSL_FCEL" "strip_ws (snd ?cell) \<noteq> []" | "fst ?cell = OTSL_ECEL" "snd ?cell = []"
      using ok assms(4) by (auto simp: ocell_ok_def filled_def otsl_defs)
    then show ?thesis
      by cases (auto simp: flat_def at_res_def off_def otsl_defs)
  qed
  have nr: "(if off < length (tl (flat ?cell) @ ?rest) then (tl (flat ?cell) @ ?rest) ! off else []) =
      hd (map fst (drop (c + 1) (rows ! r)) @ [OTSL_NL])"
    using ne next_token [of "drop (c + 1) (rows ! r)" us] by (simp add: off_def nth_append hd_conv_nth)
  have right: "(if hd (map fst (drop (c + 1) (rows ! r)) @ [OTSL_NL]) \<in> {OTSL_LCEL, OTSL_XCEL}
       then count_right (toks rows) (c + 1) r [OTSL_LCEL, OTSL_XCEL] else Inr 0) =
     Inr (length (takeWhile (\<lambda>t. t \<in> {OTSL_LCEL, OTSL_XCEL}) (drop (c + 1) (toks rows ! r))))"
  proof (cases "hd (map fst (drop (c + 1) (rows ! r)) @ [OTSL_NL]) \<in> {OTSL_LCEL, OTSL_XCEL}")
    case True
    have "c + 1 < n"
    proof (rule ccontr)
      assume "\<not> c + 1 < n"
      then have "drop (c + 1) (rows ! r) = []" using len by simp
      with True show False by (simp add: otsl_defs)
    qed
    then show ?thesis using True assms(2) len by (simp add: count_right_matrix toks_nth)
  next
    case False
    have "takeWhile (\<lambda>t. t \<in> {OTSL_LCEL, OTSL_XCEL}) (map fst (drop (c + 1) (rows ! r))) = []"
      using False by (intro takeWhile_hd [of OTSL_NL]) (auto simp: otsl_defs)
    then show ?thesis using False assms(2) by (simp add: toks_nth drop_map)
  qed
  have down: "(if (if r + 1 < length (toks rows) \<and> c < length (toks rows ! (r + 1)) then toks rows ! (r + 1) ! c else []) \<in>
          {OTSL_UCEL, OTSL_XCEL} then count_down (toks rows) c (r + 1) [OTSL_UCEL, OTSL_XCEL] else Inr 0) =
     Inr (length (takeWhile (\<lambda>t. t \<in> {OTSL_UCEL, OTSL_XCEL}) (map (\<lambda>row. row ! c) (drop (r + 1) (toks rows)))))"
  proof (cases "r + 1 < length rows")
    case True
    then have l: "c < length (toks rows ! (r + 1))" using lens by simp
    have d: "drop (r + 1) (toks rows) = toks rows ! (r + 1) # drop (r + 2) (toks rows)"
      using True by (simp add: Cons_nth_drop_Suc)
    show ?thesis
    proof (cases "toks rows ! (r + 1) ! c \<in> {OTSL_UCEL, OTSL_XCEL}")
      case True
      with \<open>r + 1 < length rows\<close> l lens count_down_matrix [of "r + 1" "toks rows" c "[OTSL_UCEL, OTSL_XCEL]"]
      show ?thesis by simp
    next
      case False
      then show ?thesis using \<open>r + 1 < length rows\<close> l unfolding d by simp
    qed
  next
    case False
    then show ?thesis by (simp add: otsl_defs)
  qed
  show ?thesis
    unfolding parse_cell_def txt_eq bindR_simps prod.case Let_def nr right down cell_of_def by simp
qed

lemma parse_row:
  assumes "matrix_ok rows n" and "r < length rows"
  shows "c \<le> n \<Longrightarrow> parse_from (toks rows) (concat (map flat (drop c (rows ! r))) @ OTSL_NL # us) r c =
     bindR (parse_from (toks rows) us (r + 1) 0) (\<lambda>cs.
       Inr (map (cell_of rows r) (filter (\<lambda>c. filled (toks rows ! r ! c)) [c..<n]) @ cs))"
proof (induction "n - c" arbitrary: c)
  case 0
  have "length (rows ! r) = n" using assms by (auto simp: matrix_ok_def)
  moreover have "c = n" using 0 by simp
  ultimately have e: "drop c (rows ! r) = []" "[c..<n] = []" by auto
  show ?case unfolding e by (simp add: otsl_defs bindR_def split: sum.splits)
next
  case (Suc m)
  have len: "length (rows ! r) = n" and c: "c < n" using assms Suc.hyps(2) by (auto simp: matrix_ok_def)
  let ?cell = "rows ! r ! c" and ?rest = "concat (map flat (drop (c + 1) (rows ! r))) @ OTSL_NL # us"
  have ok: "ocell_ok ?cell" using assms c by (rule matrix_cell)
  have d: "drop c (rows ! r) = ?cell # drop (c + 1) (rows ! r)" using c len by (simp add: Cons_nth_drop_Suc)
  have u: "[c..<n] = c # [c + 1..<n]" using c by (simp add: upt_rec)
  have IH: "parse_from (toks rows) ?rest r (c + 1) = bindR (parse_from (toks rows) us (r + 1) 0) (\<lambda>cs.
       Inr (map (cell_of rows r) (filter (\<lambda>c. filled (toks rows ! r ! c)) [c + 1..<n]) @ cs))"
    using Suc.hyps(2) c by (intro Suc.hyps(1)) auto
  have flat: "flat ?cell = fst ?cell # tl (flat ?cell)" by (simp add: flat_def)
  have tail: "parse_from (toks rows) (tl (flat ?cell) @ ?rest) r (c + 1) = parse_from (toks rows) ?rest r (c + 1)"
  proof -
    have "snd ?cell \<notin> set otsl_tokens" using ocell_tokens [OF ok] text_not_token by blast
    then have "snd ?cell \<notin> {OTSL_FCEL, OTSL_ECEL}" "snd ?cell \<noteq> OTSL_NL" "snd ?cell \<notin> set otsl_tokens"
      by (auto simp: otsl_tokens_def)
    then show ?thesis by (simp add: flat_def bindR_def split: sum.splits)
  qed
  have tk: "fst ?cell \<noteq> OTSL_NL" "fst ?cell \<in> set otsl_tokens" using ocell_tokens [OF ok] by auto
  have step: "parse_from (toks rows) (fst ?cell # tl (flat ?cell) @ ?rest) r c =
      bindR (if filled (fst ?cell) then Inr [cell_of rows r c] else Inr []) (\<lambda>cell.
      bindR (parse_from (toks rows) ?rest r (c + 1)) (\<lambda>cells. Inr (cell @ cells)))"
    using parse_cell_matrix [OF assms c, of us] tk tail by (auto simp: filled_def)
  have tc: "toks rows ! r ! c = fst ?cell" using assms(2) c len by (simp add: toks_nth)
  have l: "concat (map flat (drop c (rows ! r))) @ OTSL_NL # us = fst ?cell # tl (flat ?cell) @ ?rest"
    using flat unfolding d by (metis append_Cons append_assoc concat.simps(2) list.simps(9))
  show ?case
    unfolding l step IH u
    by (cases "parse_from (toks rows) us (r + 1) 0"; cases "filled (fst ?cell)") (simp_all only: tc bindR_simps filter.simps list.map if_True if_False append.simps)
qed

lemma parse_rows:
  assumes "matrix_ok rows n"
  shows "r \<le> length rows \<Longrightarrow> parse_from (toks rows) (flat_rows (drop r rows)) r 0 =
     Inr (concat (map (\<lambda>r. map (cell_of rows r) (filter (\<lambda>c. filled (toks rows ! r ! c)) [0..<n])) [r..<length rows]))"
proof (induction "length rows - r" arbitrary: r)
  case 0
  then show ?case by (simp add: flat_rows_def)
next
  case (Suc m)
  then have r: "r < length rows" by simp
  have f: "flat_rows (drop r rows) = concat (map flat (rows ! r)) @ OTSL_NL # flat_rows (drop (r + 1) rows)"
    using r by (simp add: flat_rows_def Cons_nth_drop_Suc [symmetric])
  have u: "[r..<length rows] = r # [r + 1..<length rows]" using r by (simp add: upt_rec)
  have "parse_from (toks rows) (flat_rows (drop (r + 1) rows)) (r + 1) 0 = Inr (concat (map (\<lambda>r. map (cell_of rows r)
      (filter (\<lambda>c. filled (toks rows ! r ! c)) [0..<n])) [r + 1..<length rows]))"
    using Suc.hyps(2) r by (intro Suc.hyps(1)) auto
  with parse_row [OF assms r, of 0 "flat_rows (drop (r + 1) rows)"] show ?case by (simp add: f u)
qed

section \<open>The grid\<close>

lemma cell_of_start [simp]:
  "start_row (cell_of rows r c) = r" "start_col (cell_of rows r c) = c" "covers r c (cell_of rows r c)"
  by (simp_all add: cell_of_def Let_def covers_def)

lemma covers_cell_of: "covers i j (cell_of rows r c) \<Longrightarrow> r \<le> i \<and> c \<le> j"
  by (simp add: covers_def)

lemma find_rev_last:
  "P x \<Longrightarrow> \<forall>y\<in>set bs. \<not> P y \<Longrightarrow> find P (rev (as1 @ x # bs)) = Some x"
  by (induction bs rule: rev_induct) auto

lemma cells_of_split:
  assumes "i < length rows" and "j < n" and "filled (toks rows ! i ! j)"
  shows "\<exists>as1 bs. cells_of rows n = as1 @ cell_of rows i j # bs \<and>
     (\<forall>y\<in>set bs. \<exists>r c. y = cell_of rows r c \<and> (i < r \<or> r = i \<and> j < c))"
proof -
  define row where "row = (\<lambda>r. map (cell_of rows r) (filter (\<lambda>c. filled (toks rows ! r ! c)) [0..<n]))"
  have "[0..<length rows] = [0..<i] @ i # [i + 1..<length rows]" using assms(1) by (metis Suc_eq_plus1 less_imp_le_nat upt_add_eq_append upt_conv_Cons le0 le_add_diff_inverse add_0)
  moreover have "[0..<n] = [0..<j] @ j # [j + 1..<n]" using assms(2) by (metis Suc_eq_plus1 less_imp_le_nat upt_add_eq_append upt_conv_Cons le0 le_add_diff_inverse add_0)
  then have "row i = map (cell_of rows i) (filter (\<lambda>c. filled (toks rows ! i ! c)) [0..<j]) @ cell_of rows i j #
      map (cell_of rows i) (filter (\<lambda>c. filled (toks rows ! i ! c)) [j + 1..<n])"
    using assms(3) by (simp add: row_def)
  ultimately have "cells_of rows n = (concat (map row [0..<i]) @ map (cell_of rows i) (filter (\<lambda>c. filled (toks rows ! i ! c)) [0..<j])) @
      cell_of rows i j # (map (cell_of rows i) (filter (\<lambda>c. filled (toks rows ! i ! c)) [j + 1..<n]) @
      concat (map row [i + 1..<length rows]))"
    unfolding cells_of_def row_def [symmetric] by simp
  moreover have "\<exists>r c. y = cell_of rows r c \<and> (i < r \<or> r = i \<and> j < c)"
    if "y \<in> set (map (cell_of rows i) (filter (\<lambda>c. filled (toks rows ! i ! c)) [j + 1..<n]) @ concat (map row [i + 1..<length rows]))"
    for y
  proof -
    from that consider c where "c \<in> {j + 1..<n}" "y = cell_of rows i c"
      | r c where "r \<in> {i + 1..<length rows}" "y = cell_of rows r c"
      unfolding row_def by (auto simp del: upt_Suc)
    then show ?thesis
    proof cases
      case 1
      then show ?thesis by (intro exI [of _ i] exI [of _ c]) simp
    next
      case 2
      then show ?thesis by (intro exI [of _ r] exI [of _ c]) simp
    qed
  qed
  ultimately show ?thesis by blast
qed

lemma grid_filled:
  assumes "i < length rows" and "j < n" and "filled (toks rows ! i ! j)"
  shows "grid_at (cells_of rows n) i j = cell_of rows i j"
proof -
  obtain as1 bs where s: "cells_of rows n = as1 @ cell_of rows i j # bs"
    "\<forall>y\<in>set bs. \<exists>r c. y = cell_of rows r c \<and> (i < r \<or> r = i \<and> j < c)"
    using cells_of_split [OF assms] by blast
  have "\<forall>y\<in>set bs. \<not> covers i j y" using s(2) covers_cell_of by fastforce
  then have "find (covers i j) (rev (cells_of rows n)) = Some (cell_of rows i j)"
    unfolding s(1) by (intro find_rev_last) simp_all
  then show ?thesis by (simp add: grid_at_def)
qed

lemma cells_of_in: "x \<in> set (cells_of rows n) \<Longrightarrow> \<exists>r c. x = cell_of rows r c \<and> filled (toks rows ! r ! c)"
  by (auto simp: cells_of_def)

lemma grid_shown:
  assumes "i < length rows" and "j < n"
  shows "(let c = grid_at (cells_of rows n) i j in if start_row c = i \<and> start_col c = j then cell_html c else []) =
     (if filled (toks rows ! i ! j) then cell_html (cell_of rows i j)
      else if list_ex (covers i j) (cells_of rows n) then [] else cell_html (empty_cell i j))"
proof (cases "filled (toks rows ! i ! j)")
  case True
  with grid_filled [OF assms True] show ?thesis by simp
next
  case False
  show ?thesis
  proof (cases "find (covers i j) (rev (cells_of rows n))")
    case None
    then have "\<not> list_ex (covers i j) (cells_of rows n)" by (simp add: find_None_iff list_ex_iff)
    with None False show ?thesis by (simp add: grid_at_def empty_cell_def)
  next
    case (Some x)
    then have x: "x \<in> set (cells_of rows n)" "covers i j x" by (metis find_Some_iff nth_mem set_rev)+
    then obtain r c where rc: "x = cell_of rows r c" "filled (toks rows ! r ! c)" using cells_of_in by blast
    then have "\<not> (start_row x = i \<and> start_col x = j)" using False by auto
    moreover have "list_ex (covers i j) (cells_of rows n)" using x by (auto simp: list_ex_iff)
    ultimately show ?thesis using Some False by (auto simp: grid_at_def Let_def)
  qed
qed

lemma export_matrix:
  "cells_of rows n \<noteq> [] \<Longrightarrow> export_to_html (cells_of rows n) (length rows) n = otsl_html rows n"
proof -
  have row: "row_html (cells_of rows n) n i = ''<tr>'' @ concat (map (\<lambda>j.
         if filled (toks rows ! i ! j) then cell_html (cell_of rows i j)
         else if list_ex (covers i j) (cells_of rows n) then [] else cell_html (empty_cell i j)) [0..<n]) @ ''</tr>''"
    if "i < length rows" for i
  proof -
    have "map (\<lambda>j. let c = grid_at (cells_of rows n) i j in if start_row c = i \<and> start_col c = j then cell_html c else [])
        [0..<n] = map (\<lambda>j. if filled (toks rows ! i ! j) then cell_html (cell_of rows i j)
         else if list_ex (covers i j) (cells_of rows n) then [] else cell_html (empty_cell i j)) [0..<n]"
      using grid_shown [OF that] by (intro map_cong) auto
    then show ?thesis unfolding row_html_def by (rule arg_cong)
  qed
  have "map (row_html (cells_of rows n) n) [0..<length rows] = map (\<lambda>i. ''<tr>'' @ concat (map (\<lambda>j.
         if filled (toks rows ! i ! j) then cell_html (cell_of rows i j)
         else if list_ex (covers i j) (cells_of rows n) then [] else cell_html (empty_cell i j)) [0..<n]) @ ''</tr>'')
      [0..<length rows]"
    using row by (intro map_cong refl) (simp only: set_upt atLeastLessThan_iff)
  then show "cells_of rows n \<noteq> [] \<Longrightarrow> ?thesis"
    unfolding export_to_html_def otsl_html_def by (simp only: if_False)
qed

text \<open>C34: the OTSL text of a complete matrix, whose filled cells have their texts, never makes the conversion
  raise, and gives the table of its rows in which each filled or empty cell stands once, at its place, with its text
  escaped and the row and column spans of the continuation tokens right of it and below it; a continuation token is
  covered by a cell, or else an empty cell of its own.\<close>

theorem otsl_to_html:
  assumes "matrix_ok rows n" and "cells_of rows n \<noteq> []"
  shows "convert_otsl_to_html (encode_otsl rows) = Inr (otsl_html rows n)"
proof -
  have ne: "rows \<noteq> []" using assms(2) by (auto simp: cells_of_def)
  have toks_ne: "toks rows \<noteq> []" using ne by (metis length_0_conv length_toks)
  have e: "otsl_extract_tokens_and_text (encode_otsl rows) = (map fst (concat (map row_seq rows)), flat_rows rows)"
    using extract_pieces [OF matrix_seq [OF assms(1)]] by (simp add: encode_seq flat_rows_seq)
  have r: "complete_rows (split_rows [] (map fst (concat (map row_seq rows)))) = toks rows"
    using split_rows_matrix [OF assms(1)] complete_matrix [OF assms(1)] by simp
  have b: "rebuild_texts (toks rows) (flat_rows rows) = flat_rows rows"
    using assms(1) by (intro rebuild_matrix) (auto simp: matrix_ok_def)
  have "otsl_parse_texts (flat_rows rows) (map fst (concat (map row_seq rows))) = Inr (cells_of rows n, toks rows)"
    using parse_rows [OF assms(1), of 0] r b ne toks_ne by (simp add: otsl_parse_texts_def Let_def cells_of_def)
  then show ?thesis
    using export_matrix [OF assms(2)] max_columns_matrix [OF assms(1) ne] e by (simp add: convert_otsl_to_html_def)
qed

definition demo_matrix :: "ocell list list" where
  "demo_matrix =
     [[(OTSL_FCEL, ''a''), (OTSL_LCEL, []), (OTSL_FCEL, ''b'')],
      [(OTSL_FCEL, ''c&d''), (OTSL_ECEL, []), (OTSL_UCEL, [])]]"

lemma demo_matrix_html:
  "otsl_html demo_matrix 3 =
     ''<table><tr><td colspan='' @ [dquote] @ ''2'' @ [dquote] @ ''>a</td><td rowspan='' @ [dquote] @ ''2'' @ [dquote] @
     ''>b</td></tr><tr><td>c&amp;d</td><td></td></tr></table>''"
  by code_simp

theorem otsl_to_html_witness:
  "convert_otsl_to_html (encode_otsl demo_matrix) = Inr (otsl_html demo_matrix 3)"
proof -
  have "strip_ws ''a'' \<noteq> []" "strip_ws ''b'' \<noteq> []" "strip_ws ''c&d'' \<noteq> []" by code_simp+
  then have "matrix_ok demo_matrix 3" by (simp add: matrix_ok_def demo_matrix_def ocell_ok_def)
  moreover have "cells_of demo_matrix 3 \<noteq> []" by code_simp
  ultimately show ?thesis by (rule otsl_to_html)
qed

text \<open>Outside complete matrices the texts lose their tokens: a filled cell without text shows the token behind it, and
  behind an empty row no text is found any more.\<close>

lemma otsl_empty_cell:
  "convert_otsl_to_html ''<fcel><fcel>a<nl>'' = Inr ''<table><tr><td>&lt;fcel&gt;</td><td>a</td></tr></table>''"
  by code_simp

lemma otsl_empty_row:
  "convert_otsl_to_html ''<fcel>a<nl><nl><fcel>b<nl>'' =
     Inr ''<table><tr><td>a</td></tr><tr><td>&lt;nl&gt;</td></tr></table>''"
  by code_simp

end
