(* ===== verification/Memory.thy ===== *)
theory Memory
  imports PyValue
begin

text \<open>
  The long-term memory of agents: \<^verbatim>\<open>ragflow/api/db/joint_services/memory_message_service.py\<close> and what it calls in
  \<^verbatim>\<open>ragflow/memory/services/messages.py\<close>, \<^verbatim>\<open>ragflow/memory/utils/es_conn.py\<close> and
  \<^verbatim>\<open>ragflow/rag/utils/redis_conn.py\<close>.  The state is what the two services keep: the messages of each
  Elasticsearch index and the Redis keys with their expiry.  What the services answer to a request (time-outs, refused
  documents), the order in which Elasticsearch returns hits, the moment of a time stamp, the embedding and extraction models and
  \<open>sys.getsizeof\<close> are the record \<open>mem_env\<close>.
\<close>

section \<open>The services\<close>

text \<open>The components of a vector: numpy's scalars of a fresh embedding, Python's floats when it comes back from JSON\<close>

datatype pyfloat = NpFloat rat | JsonFloat rat

record message =
  mm_id :: int
  mm_type :: string
  mm_source :: int
  mm_memory :: string
  mm_user :: string
  mm_agent :: string
  mm_session :: string
  mm_content :: string
  mm_valid :: string
  mm_invalid :: "string option"
  mm_forget :: "string option"
  mm_status :: bool
  mm_embed :: "pyfloat list"

record memory_row =
  mr_id :: string
  mr_tenant :: string
  mr_type :: nat
  mr_size :: int
  mr_policy :: string

record dialogue =
  dg_user :: "string option"
  dg_agent :: string
  dg_session :: string
  dg_input :: "string option"
  dg_response :: "string option"

record extracted =
  ex_type :: string
  ex_content :: string
  ex_valid :: string
  ex_invalid :: string

text \<open>The answer to one bulk or delete request: done (with the error of each refused document), timed out (the server may
  have applied it or not), another exception\<close>

datatype bulk_try = BulkDone "string \<Rightarrow> string option" | BulkTimeout "string \<Rightarrow> bool" | BulkRaised string
datatype del_try = DelDone | DelTimeout bool | DelRaised

text \<open>One entry of \<open>OrderByExpr\<close>\<close>

datatype msg_order = ByAsc string | ByDesc string

record mem_env =
  m_now :: int
  m_stamp :: string
  str_size :: "string \<Rightarrow> int"
  num_size :: "pyfloat \<Rightarrow> int"
  embed_text :: "string \<Rightarrow> rat list"
  create_ok :: bool
  es_sort :: "msg_order \<Rightarrow> message list \<Rightarrow> message list"
  es_moment :: "string \<Rightarrow> int"
  bulk_tries :: "bulk_try list"
  del_tries :: "del_try list"
  ask_llm :: "memory_row \<Rightarrow> string \<Rightarrow> string \<Rightarrow> (string \<times> pydict list) list res"
  iso_to_ymd :: "pyval \<Rightarrow> string"
  queue_ok :: bool
  new_task_id :: "int \<Rightarrow> string"
  m_rt :: pyrt

record mem_world =
  mw_memories :: "memory_row list"
  mw_index :: "(string \<times> message list) list"
  mw_redis :: "(string \<times> int \<times> int option) list"
  mw_reports :: "(string \<times> rat \<times> string) list"
  mw_tasks :: "(string \<times> string \<times> string) list"
  mw_queue :: "(string \<times> string \<times> int) list"

type_synonym 'a mmeth = "(mem_world, 'a) meth"

section \<open>Redis\<close>

definition live :: "int \<Rightarrow> int \<times> int option \<Rightarrow> bool" where
  "live now ve = (case snd ve of None \<Rightarrow> True | Some e \<Rightarrow> now < e)"

definition rd_entry :: "int \<Rightarrow> string \<Rightarrow> (string \<times> int \<times> int option) list \<Rightarrow> (int \<times> int option) option" where
  "rd_entry now k r = (case dget r k of Some ve \<Rightarrow> (if live now ve then Some ve else None) | None \<Rightarrow> None)"

definition rd_get :: "int \<Rightarrow> string \<Rightarrow> (string \<times> int \<times> int option) list \<Rightarrow> int option" where
  "rd_get now k r = map_option fst (rd_entry now k r)"

text \<open>\<open>RedisDB.set\<close> sets an expiry of an hour; \<open>INCRBY\<close> keeps the expiry and creates a missing key without one.\<close>

definition rd_set :: "int \<Rightarrow> string \<Rightarrow> int \<Rightarrow> (string \<times> int \<times> int option) list \<Rightarrow> (string \<times> int \<times> int option) list" where
  "rd_set now k v r = dset k (v, Some (now + 3600)) r"

definition rd_incrby :: "int \<Rightarrow> string \<Rightarrow> int \<Rightarrow> (string \<times> int \<times> int option) list \<Rightarrow> (string \<times> int \<times> int option) list" where
  "rd_incrby now k n r =
     (case rd_entry now k r of
        Some (v, e) \<Rightarrow> dset k (v + n, e) r
      | None \<Rightarrow> dset k (n, None) r)"

definition id_key :: string where "id_key = ''id_generator:memory''"

definition generate_auto_increment_id :: "mem_env \<Rightarrow> int mmeth" where
  "generate_auto_increment_id env =
     (\<lambda>w. let r = rd_incrby (m_now env) id_key 1 (mw_redis w);
              next_id = (case rd_get (m_now env) id_key r of Some v \<Rightarrow> v | None \<Rightarrow> 0)
          in if next_id = 1 then (Inr 2, w\<lparr>mw_redis := dset id_key (2, None) r\<rparr>)
             else (Inr next_id, w\<lparr>mw_redis := r\<rparr>))"

section \<open>The message store\<close>

definition mem_index :: "string \<Rightarrow> string" where
  "mem_index uid = ''memory_'' @ uid"

definition doc_id :: "message \<Rightarrow> string" where
  "doc_id m = mm_memory m @ ''_'' @ show_int (mm_id m)"

definition has_index :: "string \<Rightarrow> mem_world \<Rightarrow> bool" where
  "has_index uid w = has_key (mw_index w) (mem_index uid)"

definition docs_of :: "string \<Rightarrow> mem_world \<Rightarrow> message list" where
  "docs_of uid w = dget_or (mw_index w) (mem_index uid) []"

text \<open>A document is JSON: the vector loses its numpy scalars.  A document with the id of another replaces it.\<close>

fun json_float :: "pyfloat \<Rightarrow> pyfloat" where
  "json_float (NpFloat x) = JsonFloat x"
| "json_float (JsonFloat x) = JsonFloat x"

definition as_stored :: "message \<Rightarrow> message" where
  "as_stored m = m\<lparr>mm_embed := map json_float (mm_embed m)\<rparr>"

definition put_doc :: "message \<Rightarrow> message list \<Rightarrow> message list" where
  "put_doc m docs =
     (if list_ex (\<lambda>d. doc_id d = doc_id m) docs then map (\<lambda>d. if doc_id d = doc_id m then m else d) docs else docs @ [m])"

definition put_docs :: "message list \<Rightarrow> message list \<Rightarrow> message list" where
  "put_docs ms docs = foldl (\<lambda>ds m. put_doc m ds) docs ms"

fun es_insert :: "bulk_try list \<Rightarrow> message list \<Rightarrow> string list \<Rightarrow> message list \<Rightarrow> string list \<times> message list" where
  "es_insert [] ms res docs = (res, docs)"
| "es_insert (BulkDone err # ts) ms res docs =
     (concat (map (\<lambda>m. case err (doc_id m) of None \<Rightarrow> [] | Some e \<Rightarrow> [doc_id m @ '':'' @ e]) ms),
      put_docs (map as_stored (filter (\<lambda>m. err (doc_id m) = None) ms)) docs)"
| "es_insert (BulkTimeout applied # ts) ms res docs =
     es_insert ts ms [] (put_docs (map as_stored (filter (\<lambda>m. applied (doc_id m)) ms)) docs)"
| "es_insert (BulkRaised e # ts) ms res docs = es_insert ts ms [e] docs"

definition insert_message :: "mem_env \<Rightarrow> message list \<Rightarrow> string \<Rightarrow> string list mmeth" where
  "insert_message env ms uid =
     (\<lambda>w. case es_insert (take 2 (bulk_tries env)) ms [] (docs_of uid w) of
            (res, docs) \<Rightarrow> (Inr res, w\<lparr>mw_index := dset (mem_index uid) docs (mw_index w)\<rparr>))"

fun es_delete :: "del_try list \<Rightarrow> (message \<Rightarrow> bool) \<Rightarrow> message list \<Rightarrow> message list" where
  "es_delete [] P docs = docs"
| "es_delete (DelDone # ts) P docs = filter (\<lambda>m. \<not> P m) docs"
| "es_delete (DelTimeout applied # ts) P docs = es_delete ts P (if applied then filter (\<lambda>m. \<not> P m) docs else docs)"
| "es_delete (DelRaised # ts) P docs = es_delete ts P docs"

definition delete_messages :: "mem_env \<Rightarrow> int list \<Rightarrow> string \<Rightarrow> string \<Rightarrow> unit mmeth" where
  "delete_messages env ids uid mid =
     modM (\<lambda>w. w\<lparr>mw_index := dset (mem_index uid)
       (es_delete (take 2 (del_tries env)) (\<lambda>m. mm_id m \<in> set ids \<and> mm_memory m = mid) (docs_of uid w)) (mw_index w)\<rparr>)"

section \<open>Sizes\<close>

definition calculate_message_size :: "mem_env \<Rightarrow> message \<Rightarrow> int res" where
  "calculate_message_size env m =
     (case mm_embed m of
        [] \<Rightarrow> Inl (Exc IndexErr ''list index out of range'')
      | x # xs \<Rightarrow> Inr (str_size env (mm_content m) + num_size env x * int (length (x # xs))))"

fun tally :: "mem_env \<Rightarrow> message list \<Rightarrow> (string \<times> int) list \<Rightarrow> (string \<times> int) list res" where
  "tally env [] d = Inr d"
| "tally env (m # ms) d =
     bindR (calculate_message_size env m) (\<lambda>n.
       tally env ms (dset (mm_memory m) (case dget d (mm_memory m) of Some k \<Rightarrow> (if k \<noteq> 0 then k + n else n) | None \<Rightarrow> n) d))"

definition calculate_memory_size :: "mem_env \<Rightarrow> string list \<Rightarrow> string list \<Rightarrow> mem_world \<Rightarrow> (string \<times> int) list res" where
  "calculate_memory_size env mids uids w =
     tally env (take (2048 * length mids) (es_sort env (ByDesc ''valid_at'')
       (filter (\<lambda>m. mm_memory m \<in> set mids) (concat (map (\<lambda>u. docs_of u w) uids))))) []"

definition size_key :: "string \<Rightarrow> string" where
  "size_key mid = ''memory_'' @ mid"

definition get_memory_size_cache :: "mem_env \<Rightarrow> string \<Rightarrow> string \<Rightarrow> int mmeth" where
  "get_memory_size_cache env mid uid =
     (\<lambda>w. case rd_get (m_now env) (size_key mid) (mw_redis w) of
            Some v \<Rightarrow> (Inr v, w)
          | None \<Rightarrow>
              (case calculate_memory_size env [mid] [uid] w of
                 Inl e \<Rightarrow> (Inl e, w)
               | Inr d \<Rightarrow> (Inr (dget_or d mid 0), w\<lparr>mw_redis := rd_set (m_now env) (size_key mid) (dget_or d mid 0) (mw_redis w)\<rparr>)))"

definition increase_memory_size_cache :: "mem_env \<Rightarrow> string \<Rightarrow> int \<Rightarrow> unit mmeth" where
  "increase_memory_size_cache env mid n = modM (\<lambda>w. w\<lparr>mw_redis := rd_incrby (m_now env) (size_key mid) n (mw_redis w)\<rparr>)"

definition decrease_memory_size_cache :: "mem_env \<Rightarrow> string \<Rightarrow> int \<Rightarrow> unit mmeth" where
  "decrease_memory_size_cache env mid n = modM (\<lambda>w. w\<lparr>mw_redis := rd_incrby (m_now env) (size_key mid) (- n) (mw_redis w)\<rparr>)"

section \<open>Picking the messages to forget\<close>

text \<open>The loop over the hits: take messages while their size is below the target.\<close>

fun take_size :: "mem_env \<Rightarrow> int \<Rightarrow> message list \<Rightarrow> int list \<times> int \<Rightarrow> (int list \<times> int) res" where
  "take_size env target [] acc = Inr acc"
| "take_size env target (m # ms) acc =
     (if snd acc < target
      then bindR (calculate_message_size env m) (\<lambda>n. take_size env target ms (fst acc @ [mm_id m], snd acc + n))
      else Inr acc)"

definition forgotten_messages :: "mem_env \<Rightarrow> string \<Rightarrow> string \<Rightarrow> mem_world \<Rightarrow> message list" where
  "forgotten_messages env uid mid w =
     take 512 (es_sort env (ByAsc ''forget_at'') (filter (\<lambda>m. mm_forget m \<noteq> None \<and> mm_memory m = mid) (docs_of uid w)))"

definition oldest_messages :: "mem_env \<Rightarrow> string \<Rightarrow> string \<Rightarrow> mem_world \<Rightarrow> message list" where
  "oldest_messages env uid mid w =
     take 512 (es_sort env (ByAsc ''valid_at'') (filter (\<lambda>m. mm_forget m = None \<and> mm_memory m = mid) (docs_of uid w)))"

definition pick_messages_to_delete_by_fifo :: "mem_env \<Rightarrow> string \<Rightarrow> string \<Rightarrow> int \<Rightarrow> mem_world \<Rightarrow> (int list \<times> int) res" where
  "pick_messages_to_delete_by_fifo env mid uid size_to_delete w =
     bindR (if has_index uid w then take_size env size_to_delete (forgotten_messages env uid mid w) ([], 0) else Inr ([], 0)) (\<lambda>(ids, cur).
       if has_index uid w \<and> size_to_delete \<le> cur then Inr (ids, cur)
       else if has_index uid w then take_size env size_to_delete (oldest_messages env uid mid w) (ids, cur)
       else Inl (type_err ''NoneType object is not subscriptable''))"

section \<open>Saving\<close>

definition report_progress :: "mem_env \<Rightarrow> string option \<Rightarrow> rat \<Rightarrow> string \<Rightarrow> unit mmeth" where
  "report_progress env tid p msg =
     (case tid of
        Some (c # cs) \<Rightarrow> modM (\<lambda>w. w\<lparr>mw_reports := mw_reports w @ [(c # cs, p, m_stamp env @ '' '' @ msg)]\<rparr>)
      | _ \<Rightarrow> retM ())"

definition fail_with :: "mem_env \<Rightarrow> string option \<Rightarrow> string \<Rightarrow> (bool \<times> string) mmeth" where
  "fail_with env tid msg = seqM (report_progress env tid (- 1) msg) (retM (False, msg))"

definition limit_msg :: string where
  "limit_msg = ''Failed to insert message into memory. Memory size reached limit and cannot decide which to delete.''"

definition make_room :: "mem_env \<Rightarrow> memory_row \<Rightarrow> int \<Rightarrow> int \<Rightarrow> bool mmeth" where
  "make_room env mem new_size cur_size =
     (if new_size + cur_size \<le> mr_size mem then retM True
      else if mr_policy mem = ''FIFO''
      then bindM (readM (pick_messages_to_delete_by_fifo env (mr_id mem) (mr_tenant mem) (cur_size + new_size - mr_size mem)))
             (\<lambda>(ids, freed). seqM (delete_messages env ids (mr_tenant mem) (mr_id mem))
               (seqM (decrease_memory_size_cache env (mr_id mem) freed) (retM True)))
      else retM False)"

definition store_messages :: "mem_env \<Rightarrow> memory_row \<Rightarrow> message list \<Rightarrow> string option \<Rightarrow> int \<Rightarrow> (bool \<times> string) mmeth" where
  "store_messages env mem ms tid new_size =
     bindM (insert_message env ms (mr_tenant mem)) (\<lambda>fails.
       if fails \<noteq> [] then fail_with env tid (''Failed to insert message into memory. Details: '' @ join ''; '' fails)
       else seqM (report_progress env tid (95 / 100) ''Saved messages to storage.'')
              (seqM (increase_memory_size_cache env (mr_id mem) new_size) (retM (True, ''Message saved successfully.''))))"

definition ensure_index :: "mem_env \<Rightarrow> memory_row \<Rightarrow> bool mmeth" where
  "ensure_index env mem =
     (\<lambda>w. if has_index (mr_tenant mem) w then (Inr True, w)
          else if create_ok env then (Inr True, w\<lparr>mw_index := dset (mem_index (mr_tenant mem)) [] (mw_index w)\<rparr>)
          else (Inr False, w))"

definition total_size :: "mem_env \<Rightarrow> message list \<Rightarrow> int res" where
  "total_size env ms = bindR (mapR (calculate_message_size env) ms) (\<lambda>ns. Inr (sum_list ns))"

definition embed_and_save :: "mem_env \<Rightarrow> memory_row \<Rightarrow> message list \<Rightarrow> string option \<Rightarrow> (bool \<times> string) mmeth" where
  "embed_and_save env mem message_list tid =
     (let ms = map (\<lambda>m. m\<lparr>mm_embed := map NpFloat (embed_text env (mm_content m))\<rparr>) message_list in
      seqM (report_progress env tid (65 / 100) ''Prepared embedding model.'')
     (seqM (report_progress env tid (85 / 100) ''Embedded extracted content.'')
     (if ms = [] then raiseM IndexErr ''list index out of range''
      else bindM (ensure_index env mem) (\<lambda>created.
        if \<not> created then fail_with env tid ''Failed to create message index.''
        else bindM (liftM (total_size env ms)) (\<lambda>new_size.
             bindM (get_memory_size_cache env (mr_tenant mem) (mr_id mem)) (\<lambda>cur_size.
             bindM (make_room env mem new_size cur_size) (\<lambda>room.
               if room then store_messages env mem ms tid new_size else fail_with env tid limit_msg)))))))"

section \<open>Messages of a dialogue\<close>

definition opt_text :: "string option \<Rightarrow> string" where
  "opt_text t = (case t of None \<Rightarrow> ''None'' | Some s \<Rightarrow> s)"

definition raw_message :: "mem_env \<Rightarrow> string \<Rightarrow> dialogue \<Rightarrow> int \<Rightarrow> message" where
  "raw_message env mid d i =
     \<lparr> mm_id = i, mm_type = ''raw'', mm_source = 0, mm_memory = mid, mm_user = (case dg_user d of Some u \<Rightarrow> u | None \<Rightarrow> []),
       mm_agent = dg_agent d, mm_session = dg_session d,
       mm_content = ''User Input: '' @ opt_text (dg_input d) @ [lf] @ ''Agent Response: '' @ opt_text (dg_response d),
       mm_valid = m_stamp env, mm_invalid = None, mm_forget = None, mm_status = True, mm_embed = [] \<rparr>"

definition extracted_message :: "string \<Rightarrow> dialogue \<Rightarrow> int \<Rightarrow> extracted \<Rightarrow> int \<Rightarrow> message" where
  "extracted_message mid d source x i =
     \<lparr> mm_id = i, mm_type = ex_type x, mm_source = source, mm_memory = mid,
       mm_user = (case dg_user d of Some u \<Rightarrow> u | None \<Rightarrow> []), mm_agent = dg_agent d, mm_session = dg_session d,
       mm_content = ex_content x, mm_valid = ex_valid x,
       mm_invalid = (if ex_invalid x \<noteq> [] then Some (ex_invalid x) else None), mm_forget = None, mm_status = True, mm_embed = [] \<rparr>"

fun number_messages :: "mem_env \<Rightarrow> (int \<Rightarrow> message) list \<Rightarrow> message list mmeth" where
  "number_messages env [] = retM []"
| "number_messages env (f # fs) =
     bindM (generate_auto_increment_id env) (\<lambda>i. bindM (number_messages env fs) (\<lambda>ms. retM (f i # ms)))"

definition get_by_memory_id :: "string \<Rightarrow> mem_world \<Rightarrow> memory_row option" where
  "get_by_memory_id mid w = find (\<lambda>m. mr_id m = mid) (mw_memories w)"

text \<open>\<open>extract_by_llm\<close>: the answer of the model, message type by message type\<close>

definition extracted_of :: "mem_env \<Rightarrow> string \<times> pydict \<Rightarrow> extracted res" where
  "extracted_of env tc =
     bindR (case dget (snd tc) ''content'' of Some v \<Rightarrow> as_str ''content'' v | None \<Rightarrow> Inl (key_err ''content'')) (\<lambda>c.
     bindR (case dget (snd tc) ''valid_at'' of Some v \<Rightarrow> Inr (iso_to_ymd env v) | None \<Rightarrow> Inl (key_err ''valid_at'')) (\<lambda>t.
       Inr \<lparr> ex_type = fst tc, ex_content = c, ex_valid = t,
             ex_invalid = (let v = dget_or (snd tc) ''invalid_at'' PNone in if truthy v then iso_to_ymd env v else []) \<rparr>))"

definition extract_by_llm :: "mem_env \<Rightarrow> memory_row \<Rightarrow> dialogue \<Rightarrow> string option \<Rightarrow> extracted list mmeth" where
  "extract_by_llm env mem d tid =
     seqM (report_progress env tid (15 / 100) ''Prepared prompts and LLM.'')
    (bindM (liftM (ask_llm env mem (case dg_input d of Some s \<Rightarrow> s | None \<Rightarrow> []) (case dg_response d of Some s \<Rightarrow> s | None \<Rightarrow> []))) (\<lambda>js.
     seqM (report_progress env tid (35 / 100) ''Get extracted result from LLM.'')
       (liftM (mapR (extracted_of env) (concat (map (\<lambda>(t, cs). map (Pair t) cs) js))))))"

definition save_to_memory :: "mem_env \<Rightarrow> string \<Rightarrow> dialogue \<Rightarrow> (bool \<times> string) mmeth" where
  "save_to_memory env mid d =
     bindM (readM (\<lambda>w. Inr (get_by_memory_id mid w))) (\<lambda>found.
       case found of
         None \<Rightarrow> retM (False, ''Memory '' @ [squote] @ mid @ [squote] @ '' not found.'')
       | Some mem \<Rightarrow>
           bindM (if mr_type mem \<noteq> 1 then extract_by_llm env mem d None else retM []) (\<lambda>xs.
           bindM (generate_auto_increment_id env) (\<lambda>raw.
           bindM (number_messages env (map (extracted_message mid d raw) xs)) (\<lambda>ms.
             embed_and_save env mem (raw_message env mid d raw # ms) None))))"

definition save_extracted_to_memory_only :: "mem_env \<Rightarrow> string \<Rightarrow> dialogue \<Rightarrow> int \<Rightarrow> string option \<Rightarrow> (bool \<times> string) mmeth" where
  "save_extracted_to_memory_only env mid d source tid =
     bindM (readM (\<lambda>w. Inr (get_by_memory_id mid w))) (\<lambda>found.
       case found of
         None \<Rightarrow> fail_with env tid (''Memory '' @ [squote] @ mid @ [squote] @ '' not found.'')
       | Some mem \<Rightarrow>
           if mr_type mem = 1
           then (let msg = ''Memory '' @ [squote] @ mid @ [squote] @ '' don'' @ [squote] @ ''t need to extract.''
                 in seqM (report_progress env tid 1 msg) (retM (True, msg)))
           else bindM (extract_by_llm env mem d tid) (\<lambda>xs.
                bindM (number_messages env (map (extracted_message mid d source) xs)) (\<lambda>ms.
                  if ms = []
                  then seqM (report_progress env tid 1 ''No memory extracted from raw message.'')
                         (retM (True, ''No memory extracted from raw message.''))
                  else seqM (report_progress env tid (50 / 100)
                         (''Extracted '' @ show_nat (length ms) @ '' messages from raw dialogue.''))
                         (embed_and_save env mem ms tid))))"

section \<open>Queued saving\<close>

definition queue_one :: "mem_env \<Rightarrow> memory_row \<Rightarrow> dialogue \<Rightarrow> (bool \<times> string) mmeth" where
  "queue_one env mem d =
     bindM (generate_auto_increment_id env) (\<lambda>raw.
     bindM (embed_and_save env mem [raw_message env (mr_id mem) d raw] None) (\<lambda>(ok, msg).
       if \<not> ok then retM (False, msg)
       else seqM (modM (\<lambda>w. w\<lparr>mw_tasks := mw_tasks w @ [(new_task_id env raw, mr_id mem, show_int raw)]\<rparr>))
         (if queue_ok env
          then seqM (modM (\<lambda>w. w\<lparr>mw_queue := mw_queue w @ [(new_task_id env raw, mr_id mem, raw)]\<rparr>)) (retM (True, msg))
          else retM (False, ''Can'' @ [squote] @ ''t access Redis.''))))"

fun queue_all :: "mem_env \<Rightarrow> dialogue \<Rightarrow> string list \<Rightarrow> (string list \<times> (string \<times> string) list) mmeth" where
  "queue_all env d [] = retM ([], [])"
| "queue_all env d (mid # mids) =
     bindM (readM (\<lambda>w. Inr (get_by_memory_id mid w))) (\<lambda>found.
       case found of
         None \<Rightarrow> bindM (queue_all env d mids) (\<lambda>(nf, fl). retM (mid # nf, fl))
       | Some mem \<Rightarrow>
           bindM (queue_one env mem d) (\<lambda>(ok, msg).
           bindM (queue_all env d mids) (\<lambda>(nf, fl). retM (nf, if ok then fl else (mid, msg) # fl))))"

definition queue_save_to_memory_task :: "mem_env \<Rightarrow> string list \<Rightarrow> dialogue \<Rightarrow> (bool \<times> string) mmeth" where
  "queue_save_to_memory_task env mids d =
     bindM (queue_all env d mids) (\<lambda>(nf, fl).
       let err = (if nf \<noteq> [] then ''Memory '' @ py_repr (m_rt env) (PList (map PStr nf)) @ '' not found.'' else []) @
                 concat (map (\<lambda>(m, msg). ''Memory '' @ m @ '' failed. Detail: '' @ msg) fl)
       in retM (if err \<noteq> [] then (False, err) else (True, ''All add to task.'')))"

definition handle_save_to_memory_task :: "mem_env \<Rightarrow> string \<Rightarrow> rat option \<Rightarrow> string \<Rightarrow> int \<Rightarrow> dialogue \<Rightarrow> (bool \<times> string) mmeth" where
  "handle_save_to_memory_task env tid progress mid source d =
     (case progress of
        None \<Rightarrow> retM (False, ''Task '' @ tid @ '' is not found.'')
      | Some p \<Rightarrow>
          if p = - 1 then retM (False, ''Task '' @ tid @ '' is already failed.'')
          else bindM (save_extracted_to_memory_only env mid d source (Some tid)) (\<lambda>(ok, msg).
                 if ok then seqM (report_progress env (Some tid) 1 msg) (retM (True, msg))
                 else fail_with env (Some tid) msg))"

section \<open>At startup\<close>

text \<open>\<open>get_max_message_id\<close>\<close>

definition get_max_message_id :: "mem_env \<Rightarrow> mem_world \<Rightarrow> int" where
  "get_max_message_id env w =
     (case take 1 (es_sort env (ByDesc ''message_id'') (filter (\<lambda>m. mm_memory m \<in> mr_id ` set (mw_memories w))
            (concat (map (\<lambda>u. docs_of u w) (remdups (map mr_tenant (mw_memories w))))))) of
        [] \<Rightarrow> 1
      | m # _ \<Rightarrow> mm_id m)"

definition init_message_id_sequence :: "mem_env \<Rightarrow> mem_world \<Rightarrow> mem_world" where
  "init_message_id_sequence env w =
     (if rd_get (m_now env) id_key (mw_redis w) \<noteq> None then w
      else w\<lparr>mw_redis := rd_set (m_now env) id_key
               (if mw_memories w = [] then 1 else get_max_message_id env w) (mw_redis w)\<rparr>)"

definition init_memory_size_cache :: "mem_env \<Rightarrow> unit mmeth" where
  "init_memory_size_cache env =
     (\<lambda>w. forM (\<lambda>m. bindM (get_memory_size_cache env (mr_id m) (mr_tenant m)) (\<lambda>_. retM ())) (mw_memories w) w)"

end
