(* ===== verification/MemorySpec.thy ===== *)
theory MemorySpec
  imports Memory "HOL-Library.Multiset"
begin

text \<open>
  What the memory of an agent keeps: the messages the size limit makes it forget, the size cache against the stored
  messages, and what becomes of message ids and of the limit.
\<close>

section \<open>Sizes\<close>

definition bytes :: "mem_env \<Rightarrow> message \<Rightarrow> int" where
  "bytes env m = str_size env (mm_content m) + num_size env (hd (mm_embed m)) * int (length (mm_embed m))"

definition total_bytes :: "mem_env \<Rightarrow> message list \<Rightarrow> int" where
  "total_bytes env ms = sum_list (map (bytes env) ms)"

lemma total_bytes_simps [simp]:
  "total_bytes env [] = 0"
  "total_bytes env (m # ms) = bytes env m + total_bytes env ms"
  "total_bytes env (ms @ ns) = total_bytes env ms + total_bytes env ns"
  by (simp_all add: total_bytes_def)

lemma size_bytes: "mm_embed m \<noteq> [] \<Longrightarrow> calculate_message_size env m = Inr (bytes env m)"
  by (auto simp: calculate_message_size_def bytes_def split: list.split)

lemma total_size_bytes: "\<forall>m\<in>set ms. mm_embed m \<noteq> [] \<Longrightarrow> total_size env ms = Inr (total_bytes env ms)"
proof -
  assume "\<forall>m\<in>set ms. mm_embed m \<noteq> []"
  then have "mapR (calculate_message_size env) ms = Inr (map (bytes env) ms)"
    by (induction ms) (simp_all add: size_bytes)
  then show ?thesis by (simp add: total_size_def total_bytes_def)
qed

section \<open>The messages picked\<close>

definition shortest_prefix :: "mem_env \<Rightarrow> int \<Rightarrow> message list \<Rightarrow> nat \<Rightarrow> bool" where
  "shortest_prefix env target ms n \<longleftrightarrow>
     n \<le> length ms \<and> (target \<le> total_bytes env (take n ms) \<or> n = length ms) \<and>
     (\<forall>k<n. total_bytes env (take k ms) < target)"

lemma take_size_prefix:
  "\<forall>m\<in>set ms. mm_embed m \<noteq> [] \<Longrightarrow>
     \<exists>n. take_size env target ms (ids, cur) = Inr (ids @ map mm_id (take n ms), cur + total_bytes env (take n ms)) \<and>
       shortest_prefix env (target - cur) ms n"
proof (induction ms arbitrary: ids cur)
  case Nil
  then show ?case by (simp add: shortest_prefix_def)
next
  case (Cons m ms)
  show ?case
  proof (cases "cur < target")
    case False
    then show ?thesis by (intro exI [of _ 0]) (simp add: shortest_prefix_def)
  next
    case True
    obtain n where n: "take_size env target ms (ids @ [mm_id m], cur + bytes env m) =
        Inr ((ids @ [mm_id m]) @ map mm_id (take n ms), cur + bytes env m + total_bytes env (take n ms))"
      and p: "shortest_prefix env (target - (cur + bytes env m)) ms n"
      using Cons by (metis list.set_intros(2))
    have "shortest_prefix env (target - cur) (m # ms) (Suc n)"
      using p True unfolding shortest_prefix_def by (auto simp: less_Suc_eq_0_disj)
    with n True Cons.prems show ?thesis by (intro exI [of _ "Suc n"]) (simp add: size_bytes)
  qed
qed

lemma prefix_append:
  assumes "shortest_prefix env t xs n" and "total_bytes env (take n xs) < t"
    and "shortest_prefix env (t - total_bytes env (take n xs)) ys k"
  shows "shortest_prefix env t (xs @ ys) (length xs + k) \<and> n = length xs"
proof -
  have n: "n = length xs" using assms(1,2) by (auto simp: shortest_prefix_def)
  have "total_bytes env (take j (xs @ ys)) < t" if "j < length xs + k" for j
  proof (cases "j < length xs")
    case True
    then show ?thesis using assms(1) n by (simp add: shortest_prefix_def)
  next
    case False
    with that have "j - length xs < k" by simp
    with assms(3) have "total_bytes env (take (j - length xs) ys) < t - total_bytes env xs"
      by (simp add: shortest_prefix_def n)
    with False show ?thesis by simp
  qed
  with assms(3) n show ?thesis by (auto simp: shortest_prefix_def)
qed

lemma prefix_done:
  "shortest_prefix env t xs n \<Longrightarrow> t \<le> total_bytes env (take n xs) \<Longrightarrow> shortest_prefix env t (xs @ ys) n"
  unfolding shortest_prefix_def by (auto simp: take_append)

text \<open>Elasticsearch returns the hits of a query sorted as asked: ascending or descending by the value of a field that all have.\<close>

definition sort_value :: "mem_env \<Rightarrow> string \<Rightarrow> message \<Rightarrow> int option" where
  "sort_value env f m =
     (if f = ''valid_at'' then Some (es_moment env (mm_valid m))
      else if f = ''forget_at'' then map_option (es_moment env) (mm_forget m)
      else if f = ''message_id'' then Some (mm_id m) else None)"

definition before :: "mem_env \<Rightarrow> string \<Rightarrow> message \<Rightarrow> message \<Rightarrow> bool" where
  "before env f m n \<longleftrightarrow>
     (case (sort_value env f m, sort_value env f n) of (Some x, Some y) \<Rightarrow> x \<le> y | _ \<Rightarrow> False)"

definition sorts :: "mem_env \<Rightarrow> bool" where
  "sorts env \<longleftrightarrow>
     (\<forall>k xs. mset (es_sort env k xs) = mset xs) \<and>
     (\<forall>f xs. (\<forall>m\<in>set xs. sort_value env f m \<noteq> None) \<longrightarrow>
        sorted_wrt (before env f) (es_sort env (ByAsc f) xs) \<and> sorted_wrt (\<lambda>m n. before env f n m) (es_sort env (ByDesc f) xs))"

lemma sorts_mset: "sorts env \<Longrightarrow> mset (es_sort env k xs) = mset xs"
  by (simp add: sorts_def)

lemma sorts_set: "sorts env \<Longrightarrow> set (es_sort env k xs) = set xs"
  by (metis sorts_mset set_mset_mset)

lemma sorts_length: "sorts env \<Longrightarrow> length (es_sort env k xs) = length xs"
  by (metis sorts_mset size_mset)

text \<open>The messages taken first come before all the others.\<close>

lemma sorted_taken:
  assumes "sorts env" and "\<forall>m\<in>set xs. sort_value env f m \<noteq> None" and "m \<in> set (take n (es_sort env (ByAsc f) xs))"
    and "m' \<in> set xs" and "m' \<notin> set (take n (es_sort env (ByAsc f) xs))"
  shows "before env f m m'"
proof -
  let ?s = "es_sort env (ByAsc f) xs"
  have "sorted_wrt (before env f) (take n ?s @ drop n ?s)" using assms(1,2) by (simp add: sorts_def)
  moreover have "m' \<in> set (take n ?s @ drop n ?s)" using assms(1,4) by (simp add: sorts_set)
  ultimately show ?thesis using assms(3,5) by (auto simp: sorted_wrt_append simp del: append_take_drop_id)
qed

definition candidates :: "mem_env \<Rightarrow> string \<Rightarrow> string \<Rightarrow> mem_world \<Rightarrow> message list" where
  "candidates env uid mid w = forgotten_messages env uid mid w @ oldest_messages env uid mid w"

lemma candidates_set:
  "sorts env \<Longrightarrow> set (candidates env uid mid w) \<subseteq> {m \<in> set (docs_of uid w). mm_memory m = mid}"
  unfolding candidates_def forgotten_messages_def oldest_messages_def
  by (auto dest!: in_set_takeD simp: sorts_set)

lemma pick_prefix:
  assumes "sorts env" and "has_index uid w" and "\<forall>m\<in>set (docs_of uid w). mm_embed m \<noteq> []"
  shows "\<exists>n. pick_messages_to_delete_by_fifo env mid uid t w =
      Inr (map mm_id (take n (candidates env uid mid w)), total_bytes env (take n (candidates env uid mid w))) \<and>
    shortest_prefix env t (candidates env uid mid w) n"
proof -
  let ?f = "forgotten_messages env uid mid w" and ?o = "oldest_messages env uid mid w"
  have "\<forall>m\<in>set ?f. mm_embed m \<noteq> []" "\<forall>m\<in>set ?o. mm_embed m \<noteq> []"
    using candidates_set [OF assms(1), of uid mid w] assms(3) by (auto simp: candidates_def)
  then obtain n k where n: "take_size env t ?f ([], 0) = Inr (map mm_id (take n ?f), total_bytes env (take n ?f))"
      "shortest_prefix env t ?f n"
    and k: "take_size env t ?o (map mm_id (take n ?f), total_bytes env (take n ?f)) =
        Inr (map mm_id (take n ?f) @ map mm_id (take k ?o), total_bytes env (take n ?f) + total_bytes env (take k ?o))"
      "shortest_prefix env (t - total_bytes env (take n ?f)) ?o k"
    using take_size_prefix [of ?f env t "[]" 0] take_size_prefix [of ?o env t] by (metis add_0 append_Nil diff_zero)
  show ?thesis
  proof (cases "t \<le> total_bytes env (take n ?f)")
    case True
    have "n \<le> length ?f" using n(2) by (simp add: shortest_prefix_def)
    with True n assms(2) prefix_done [OF n(2) True, of ?o] show ?thesis
      by (intro exI [of _ n]) (simp add: pick_messages_to_delete_by_fifo_def candidates_def)
  next
    case False
    then have "total_bytes env (take n ?f) < t" by simp
    from prefix_append [OF n(2) this k(2)] False n k assms(2) show ?thesis
      by (intro exI [of _ "length ?f + k"]) (auto simp: pick_messages_to_delete_by_fifo_def candidates_def)
  qed
qed

text \<open>The two groups of messages of a memory, and a pick of one of them: \<open>picks_first\<close> says the messages picked are of the
  grp and come before the others of the grp by the field.\<close>

definition forgotten_of :: "string \<Rightarrow> message list \<Rightarrow> message list" where
  "forgotten_of mid docs = filter (\<lambda>m. mm_forget m \<noteq> None \<and> mm_memory m = mid) docs"

definition kept_of :: "string \<Rightarrow> message list \<Rightarrow> message list" where
  "kept_of mid docs = filter (\<lambda>m. mm_forget m = None \<and> mm_memory m = mid) docs"

definition picks_first :: "mem_env \<Rightarrow> string \<Rightarrow> message list \<Rightarrow> message list \<Rightarrow> bool" where
  "picks_first env f grp ps \<longleftrightarrow>
     mset ps \<subseteq># mset grp \<and> length ps \<le> 512 \<and> sorted_wrt (before env f) ps \<and>
     (\<forall>m\<in>set ps. \<forall>m'\<in>set grp - set ps. before env f m m')"

lemma taken_sorted:
  assumes "sorts env" and "\<forall>m\<in>set xs. sort_value env f m \<noteq> None" and "n \<le> 512"
  shows "picks_first env f xs (take n (es_sort env (ByAsc f) xs))"
proof -
  have "mset (take n (es_sort env (ByAsc f) xs)) \<subseteq># mset (es_sort env (ByAsc f) xs)"
    by (metis append_take_drop_id mset_append mset_subset_eq_add_left)
  moreover have "sorted_wrt (before env f) (take n (es_sort env (ByAsc f) xs))"
    using assms(1,2) by (simp add: sorts_def sorted_wrt_take)
  ultimately show ?thesis
    using assms sorted_taken [OF assms(1,2)] by (auto simp: picks_first_def sorts_mset)
qed

text \<open>C36: making room picks the forgotten messages of the memory first, those forgotten earliest before the others, and
  then messages not forgotten, the oldest before the others, at most 512 of each kind and no second kind before the first is
  used up.  The picks are just enough: without the last one their size stays below the target, and they reach it or nothing
  is left to pick.  The size reported is theirs.\<close>

theorem fifo_pick:
  assumes "sorts env" and "has_index uid w" and "\<forall>m\<in>set (docs_of uid w). mm_embed m \<noteq> []"
  shows "\<exists>fs os. pick_messages_to_delete_by_fifo env mid uid t w = Inr (map mm_id (fs @ os), total_bytes env (fs @ os)) \<and>
    picks_first env ''forget_at'' (forgotten_of mid (docs_of uid w)) fs \<and> picks_first env ''valid_at'' (kept_of mid (docs_of uid w)) os \<and>
    (os \<noteq> [] \<longrightarrow> length fs = min 512 (length (forgotten_of mid (docs_of uid w)))) \<and>
    (\<forall>k<length (fs @ os). total_bytes env (take k (fs @ os)) < t) \<and>
    (t \<le> total_bytes env (fs @ os) \<or>
       length fs = min 512 (length (forgotten_of mid (docs_of uid w))) \<and> length os = min 512 (length (kept_of mid (docs_of uid w))))"
proof -
  let ?F = "forgotten_messages env uid mid w" and ?O = "oldest_messages env uid mid w"
  let ?g = "forgotten_of mid (docs_of uid w)" and ?h = "kept_of mid (docs_of uid w)"
  obtain n where n: "pick_messages_to_delete_by_fifo env mid uid t w =
      Inr (map mm_id (take n (?F @ ?O)), total_bytes env (take n (?F @ ?O)))"
    "shortest_prefix env t (?F @ ?O) n"
    using pick_prefix [OF assms] unfolding candidates_def by blast
  let ?fs = "take n ?F" and ?os = "take (n - length ?F) ?O"
  have F: "?F = take 512 (es_sort env (ByAsc ''forget_at'') ?g)" "length ?F = min 512 (length ?g)"
    using sorts_length [OF assms(1)] by (simp_all add: forgotten_messages_def forgotten_of_def)
  have O: "?O = take 512 (es_sort env (ByAsc ''valid_at'') ?h)" "length ?O = min 512 (length ?h)"
    using sorts_length [OF assms(1)] by (simp_all add: oldest_messages_def kept_of_def)
  have "picks_first env ''forget_at'' ?g (take (min n 512) (es_sort env (ByAsc ''forget_at'') ?g))"
    by (rule taken_sorted [OF assms(1)]) (auto simp: forgotten_of_def sort_value_def)
  then have tf: "picks_first env ''forget_at'' ?g ?fs" by (simp add: F(1) min.commute)
  have "picks_first env ''valid_at'' ?h (take (min (n - length ?F) 512) (es_sort env (ByAsc ''valid_at'') ?h))"
    by (rule taken_sorted [OF assms(1)]) (auto simp: sort_value_def)
  then have to: "picks_first env ''valid_at'' ?h ?os" by (simp add: O(1) min.commute)
  have eq: "take n (?F @ ?O) = ?fs @ ?os" by simp
  have "length (?fs @ ?os) \<le> n" by simp
  then have "\<forall>k<length (?fs @ ?os). total_bytes env (take k (?fs @ ?os)) < t"
    using n(2) unfolding shortest_prefix_def eq [symmetric] by (metis take_take min.absorb1 order_less_imp_le order_less_le_trans)
  moreover have "?os \<noteq> [] \<longrightarrow> length ?fs = min 512 (length ?g)" using F(2) by auto
  moreover have "t \<le> total_bytes env (?fs @ ?os) \<or> length ?fs = min 512 (length ?g) \<and> length ?os = min 512 (length ?h)"
    using n(2) F(2) O(2) unfolding shortest_prefix_def eq [symmetric] by auto
  ultimately show ?thesis using n(1) tf to unfolding eq by (intro exI [of _ ?fs] exI [of _ ?os] conjI)
qed

section \<open>Document ids\<close>

lemma show_int_chars: "CHR ''_'' \<notin> set (show_int i)"
proof -
  have "CHR ''_'' \<notin> set (show_nat n)" for n
    using show_nat_digits [of n] by (auto simp: list_all_iff is_digit_def code_def)
  then show ?thesis by (simp add: show_int_def)
qed

lemma split_last:
  assumes "x @ CHR ''_'' # s = y @ CHR ''_'' # t" and "CHR ''_'' \<notin> set s" and "CHR ''_'' \<notin> set t"
  shows "x = y \<and> s = t"
proof -
  have "takeWhile (\<lambda>c. c \<noteq> CHR ''_'') (rev (z @ CHR ''_'' # u)) = rev u" if "CHR ''_'' \<notin> set u" for z u
  proof -
    have "takeWhile (\<lambda>c. c \<noteq> CHR ''_'') (rev u @ CHR ''_'' # rev z) = rev u @ takeWhile (\<lambda>c. c \<noteq> CHR ''_'') (CHR ''_'' # rev z)"
      using that by (intro takeWhile_append2) auto
    then show ?thesis by simp
  qed
  then have "rev s = rev t" using assms by metis
  with assms(1) show ?thesis by simp
qed

lemma show_int_inj: "show_int i = show_int j \<Longrightarrow> i = j"
proof -
  assume e: "show_int i = show_int j"
  have "hd (show_nat n) \<noteq> CHR ''-''" for n
    using show_nat_digits [of n] show_nat_nonempty [of n] by (cases "show_nat n") (auto simp: is_digit_def code_def)
  then have "i < 0 \<longleftrightarrow> j < 0" using e by (auto simp: show_int_def split: if_splits) (metis list.sel(1))+
  then show ?thesis using e by (auto simp: show_int_def show_nat_inj split: if_splits)
qed

lemma doc_id_inj: "doc_id m = doc_id n \<longleftrightarrow> mm_memory m = mm_memory n \<and> mm_id m = mm_id n"
proof
  assume "doc_id m = doc_id n"
  then have "mm_memory m @ CHR ''_'' # show_int (mm_id m) = mm_memory n @ CHR ''_'' # show_int (mm_id n)"
    by (simp add: doc_id_def)
  from split_last [OF this show_int_chars show_int_chars]
  show "mm_memory m = mm_memory n \<and> mm_id m = mm_id n" by (blast intro: show_int_inj)
qed (simp add: doc_id_def)

lemma put_fresh: "doc_id m \<notin> doc_id ` set docs \<Longrightarrow> put_doc m docs = docs @ [m]"
proof -
  assume "doc_id m \<notin> doc_id ` set docs"
  then have "\<not> list_ex (\<lambda>d. doc_id d = doc_id m) docs" unfolding list_ex_iff image_iff by metis
  then show ?thesis by (simp only: put_doc_def if_False)
qed

lemma put_docs_fresh:
  "distinct (map doc_id ms) \<Longrightarrow> set (map doc_id ms) \<inter> doc_id ` set docs = {} \<Longrightarrow> put_docs ms docs = docs @ ms"
proof (induction ms arbitrary: docs)
  case (Cons m ms)
  have "put_doc m docs = docs @ [m]" using Cons.prems by (intro put_fresh) auto
  moreover have "put_docs ms (docs @ [m]) = (docs @ [m]) @ ms" using Cons.prems by (intro Cons.IH) auto
  ultimately show ?case by (simp add: put_docs_def)
qed (simp add: put_docs_def)

section \<open>The size cache\<close>

definition mine :: "string \<Rightarrow> message list \<Rightarrow> message list" where
  "mine mid docs = filter (\<lambda>m. mm_memory m = mid) docs"

definition my_docs :: "memory_row \<Rightarrow> mem_world \<Rightarrow> message list" where
  "my_docs mem w = mine (mr_id mem) (docs_of (mr_tenant mem) w)"

text \<open>The size in the cache is that of the stored messages and \<open>d\<close> bytes more.\<close>

definition cache_over :: "mem_env \<Rightarrow> memory_row \<Rightarrow> int \<Rightarrow> mem_world \<Rightarrow> bool" where
  "cache_over env mem d w \<longleftrightarrow>
     rd_get (m_now env) (size_key (mr_id mem)) (mw_redis w) = Some (total_bytes env (my_docs mem w) + d)"

definition store_wf :: "memory_row \<Rightarrow> mem_world \<Rightarrow> bool" where
  "store_wf mem w \<longleftrightarrow>
     list_all (\<lambda>ids. list_all (\<lambda>m. mm_embed m \<noteq> []) (snd ids)) (mw_index w) \<and> distinct (map mm_id (my_docs mem w))"

text \<open>Services that answer: every document is accepted, deletions succeed, texts have embeddings\<close>

definition healthy :: "mem_env \<Rightarrow> bool" where
  "healthy env \<longleftrightarrow>
     sorts env \<and> (\<exists>bs. bulk_tries env = BulkDone (\<lambda>_. None) # bs) \<and> (\<exists>ds. del_tries env = DelDone # ds) \<and>
     (\<forall>s. embed_text env s \<noteq> [])"

lemma size_key_inj [simp]: "size_key a = size_key b \<longleftrightarrow> a = b"
  by (simp add: size_key_def)

lemma rd_get_set: "0 < n \<Longrightarrow> rd_get now k (dset k' (v, Some (now + n)) r) = (if k = k' then Some v else rd_get now k r)"
  by (simp add: rd_get_def rd_entry_def live_def)

lemma rd_get_incr:
  "rd_get now k (rd_incrby now k' n r) = (if k = k' then Some ((case rd_get now k' r of Some v \<Rightarrow> v | None \<Rightarrow> 0) + n) else rd_get now k r)"
  by (auto simp: rd_get_def rd_entry_def rd_incrby_def live_def split: option.splits)

lemma docs_of_set [simp]: "docs_of u (w\<lparr>mw_index := dset (mem_index u') ds (mw_index w)\<rparr>) = (if u = u' then ds else docs_of u w)"
  by (simp add: docs_of_def mem_index_def)

lemma docs_of_other [simp]:
  "docs_of u (w\<lparr>mw_redis := r\<rparr>) = docs_of u w" "docs_of u (w\<lparr>mw_reports := p\<rparr>) = docs_of u w"
  by (simp_all add: docs_of_def)

lemma store_embeds: "store_wf mem w \<Longrightarrow> m \<in> set (docs_of u w) \<Longrightarrow> mm_embed m \<noteq> []"
proof -
  assume wf: "store_wf mem w" and m: "m \<in> set (docs_of u w)"
  from m obtain ds where "dget (mw_index w) (mem_index u) = Some ds" "m \<in> set ds"
    by (cases "dget (mw_index w) (mem_index u)") (auto simp: docs_of_def dget_or_def)
  then have "(mem_index u, ds) \<in> set (mw_index w)" by (intro map_of_SomeD)
  with wf \<open>m \<in> set ds\<close> show ?thesis by (fastforce simp: store_wf_def list_all_iff)
qed

lemma tally_ok: "\<forall>m\<in>set ms. mm_embed m \<noteq> [] \<Longrightarrow> \<exists>d'. tally env ms d = Inr d'"
  by (induction ms arbitrary: d) (simp_all add: size_bytes)

lemma cache_read:
  assumes "store_wf mem w" and "sorts env"
  obtains v r where "get_memory_size_cache env mid u w = (Inr v, w\<lparr>mw_redis := r\<rparr>)"
    and "\<And>k. k \<noteq> size_key mid \<Longrightarrow> rd_get (m_now env) k r = rd_get (m_now env) k (mw_redis w)"
proof (cases "rd_get (m_now env) (size_key mid) (mw_redis w)")
  case (Some v)
  then have "get_memory_size_cache env mid u w = (Inr v, w\<lparr>mw_redis := mw_redis w\<rparr>)" by (simp add: get_memory_size_cache_def)
  then show ?thesis by (rule that) simp
next
  case None
  let ?hits = "take (2048 * length [mid]) (es_sort env (ByDesc ''valid_at'') (filter (\<lambda>m. mm_memory m \<in> set [mid]) (concat (map (\<lambda>u. docs_of u w) [u]))))"
  have "\<forall>m\<in>set ?hits. mm_embed m \<noteq> []"
  proof
    fix m assume "m \<in> set ?hits"
    then have "m \<in> set (docs_of u w)" using assms(2) by (auto dest!: in_set_takeD simp: sorts_set)
    then show "mm_embed m \<noteq> []" by (rule store_embeds [OF assms(1)])
  qed
  then obtain d where "calculate_memory_size env [mid] [u] w = Inr d"
    unfolding calculate_memory_size_def using tally_ok by blast
  then have "get_memory_size_cache env mid u w =
      (Inr (dget_or d mid 0), w\<lparr>mw_redis := rd_set (m_now env) (size_key mid) (dget_or d mid 0) (mw_redis w)\<rparr>)"
    using None by (simp add: get_memory_size_cache_def)
  then show ?thesis by (rule that) (simp add: rd_set_def rd_get_set)
qed

section \<open>Making room and storing\<close>

definition picked :: "mem_env \<Rightarrow> memory_row \<Rightarrow> mem_world \<Rightarrow> nat \<Rightarrow> message list" where
  "picked env mem w n = take n (candidates env (mr_tenant mem) (mr_id mem) w)"

definition without :: "message list \<Rightarrow> message list \<Rightarrow> message list" where
  "without ps docs = filter (\<lambda>m. mm_id m \<notin> set (map mm_id ps)) docs"

lemma total_bytes_filter: "total_bytes env (filter P ms) + total_bytes env (filter (\<lambda>m. \<not> P m) ms) = total_bytes env ms"
  by (induction ms) simp_all

lemma total_bytes_mset: "mset xs = mset ys \<Longrightarrow> total_bytes env xs = total_bytes env ys"
  unfolding total_bytes_def by (metis mset_map sum_mset_sum_list)

lemma mset_take_subset: "mset (take n xs) \<subseteq># mset xs"
proof -
  have "mset (take n xs) \<subseteq># mset (take n xs) + mset (drop n xs)" by simp
  also have "\<dots> = mset (take n xs @ drop n xs)" by (simp only: mset_append)
  finally show ?thesis by (simp only: append_take_drop_id)
qed

lemma candidates_mset:
  assumes "sorts env"
  shows "mset (candidates env (mr_tenant mem) (mr_id mem) w) \<subseteq># mset (my_docs mem w)"
proof -
  let ?f = "filter (\<lambda>m. mm_forget m \<noteq> None \<and> mm_memory m = mr_id mem) (docs_of (mr_tenant mem) w)"
  let ?o = "filter (\<lambda>m. mm_forget m = None \<and> mm_memory m = mr_id mem) (docs_of (mr_tenant mem) w)"
  have take: "mset (take n (es_sort env k xs)) \<subseteq># mset xs" for n k xs
    using mset_take_subset [of n "es_sort env k xs"] assms by (simp add: sorts_mset)
  have "mset (filter (\<lambda>m. mm_forget m \<noteq> None \<and> mm_memory m = k) ds) + mset (filter (\<lambda>m. mm_forget m = None \<and> mm_memory m = k) ds) =
      mset (filter (\<lambda>m. mm_memory m = k) ds)" for k ds
    by (induction ds) auto
  then have "mset ?f + mset ?o = mset (my_docs mem w)" unfolding my_docs_def mine_def .
  then show ?thesis
    unfolding candidates_def forgotten_messages_def oldest_messages_def mset_append
    using subset_mset.add_mono [OF take [of 512 "ByAsc ''forget_at''" ?f] take [of 512 "ByAsc ''valid_at''" ?o]] by simp
qed

lemma freed_bytes:
  assumes "sorts env" and "distinct (map mm_id (my_docs mem w))"
  shows "total_bytes env (without (picked env mem w n) (my_docs mem w)) =
      total_bytes env (my_docs mem w) - total_bytes env (picked env mem w n)"
proof -
  let ?P = "picked env mem w n" and ?D = "my_docs mem w"
  have sub: "mset ?P \<subseteq># mset ?D"
    unfolding picked_def using mset_take_subset candidates_mset [OF assms(1)] by (rule subset_mset.order_trans)
  obtain M where M: "mset ?D = mset ?P + M" using sub by (auto simp: mset_subset_eq_exists_conv)
  obtain R where "mset R = M" using ex_mset by blast
  with M have R: "mset ?D = mset (?P @ R)" by simp
  then have "mset (map mm_id ?D) = mset (map mm_id (?P @ R))" by (simp only: mset_map)
  from mset_eq_imp_distinct_iff [OF this] have d: "distinct (map mm_id (?P @ R))" using assms(2) by simp
  have "filter (\<lambda>m. mm_id m \<in> set (map mm_id ?P)) (?P @ R) = ?P"
    using d by (auto simp: filter_empty_conv filter_id_conv)
  moreover have "mset (filter (\<lambda>m. mm_id m \<in> set (map mm_id ?P)) ?D) = mset (filter (\<lambda>m. mm_id m \<in> set (map mm_id ?P)) (?P @ R))"
    by (simp only: mset_filter R)
  ultimately have "mset (filter (\<lambda>m. mm_id m \<in> set (map mm_id ?P)) ?D) = mset ?P" by (simp only:)
  then have "total_bytes env (filter (\<lambda>m. mm_id m \<in> set (map mm_id ?P)) ?D) = total_bytes env ?P" by (rule total_bytes_mset)
  with total_bytes_filter [of env "\<lambda>m. mm_id m \<in> set (map mm_id ?P)" ?D] show ?thesis by (simp add: without_def)
qed

lemma my_docs_other [simp]:
  "my_docs mem (w\<lparr>mw_redis := r\<rparr>) = my_docs mem w" "my_docs mem (w\<lparr>mw_reports := p\<rparr>) = my_docs mem w"
  by (simp_all add: my_docs_def)

lemma my_docs_set [simp]:
  "my_docs mem (w\<lparr>mw_index := dset (mem_index (mr_tenant mem)) ds (mw_index w)\<rparr>) = mine (mr_id mem) ds"
  by (simp add: my_docs_def)

lemma candidates_other [simp]:
  "candidates env u mid (w\<lparr>mw_redis := r\<rparr>) = candidates env u mid w" "candidates env u mid (w\<lparr>mw_reports := p\<rparr>) = candidates env u mid w"
  by (simp_all add: candidates_def forgotten_messages_def oldest_messages_def)

lemma has_index_other [simp]:
  "has_index u (w\<lparr>mw_redis := r\<rparr>) = has_index u w" "has_index u (w\<lparr>mw_reports := p\<rparr>) = has_index u w"
  by (simp_all add: has_index_def)

lemma has_index_set [simp]: "has_index u w \<Longrightarrow> has_index u (w\<lparr>mw_index := dset k ds (mw_index w)\<rparr>)"
  by (simp add: has_index_def)

lemma store_wf_other [simp]:
  "store_wf mem (w\<lparr>mw_redis := r\<rparr>) = store_wf mem w" "store_wf mem (w\<lparr>mw_reports := p\<rparr>) = store_wf mem w"
  by (simp_all add: store_wf_def)

lemma list_all_dset: "list_all P d \<Longrightarrow> P (k, v) \<Longrightarrow> list_all P (dset k v d)"
  by (induction d) auto

lemma store_wf_set:
  "store_wf mem w \<Longrightarrow> list_all (\<lambda>m. mm_embed m \<noteq> []) ds \<Longrightarrow> distinct (map mm_id (mine (mr_id mem) ds)) \<Longrightarrow>
     store_wf mem (w\<lparr>mw_index := dset (mem_index (mr_tenant mem)) ds (mw_index w)\<rparr>)"
  by (simp add: store_wf_def list_all_dset)

lemma mine_without:
  "mine mid (filter (\<lambda>m. \<not> (mm_id m \<in> set (map mm_id ps) \<and> mm_memory m = mid)) docs) = without ps (mine mid docs)"
  by (induction docs) (auto simp: mine_def without_def)

text \<open>What making room does: nothing when there is room, else it takes the picked messages out of the store and the cache.\<close>

lemma make_room_spec:
  assumes "healthy env" and "store_wf mem w" and "has_index (mr_tenant mem) w" and "cache_over env mem d w"
  shows "\<exists>b w' n. make_room env mem new cur w = (Inr b, w') \<and> store_wf mem w' \<and> has_index (mr_tenant mem) w' \<and>
     cache_over env mem d w' \<and>
     my_docs mem w' = (if b \<and> mr_size mem < new + cur then without (picked env mem w n) (my_docs mem w) else my_docs mem w) \<and>
     (\<not> b \<longrightarrow> w' = w) \<and>
     shortest_prefix env (cur + new - mr_size mem) (candidates env (mr_tenant mem) (mr_id mem) w) n"
proof -
  have perm: "sorts env" using assms(1) by (simp add: healthy_def)
  obtain n where p: "pick_messages_to_delete_by_fifo env (mr_id mem) (mr_tenant mem) (cur + new - mr_size mem) w =
      Inr (map mm_id (picked env mem w n), total_bytes env (picked env mem w n))"
    and sp: "shortest_prefix env (cur + new - mr_size mem) (candidates env (mr_tenant mem) (mr_id mem) w) n"
    using pick_prefix [OF perm assms(3), of "mr_id mem" "cur + new - mr_size mem"] store_embeds [OF assms(2)]
    unfolding picked_def by blast
  consider "new + cur \<le> mr_size mem" | "mr_size mem < new + cur" "mr_policy mem \<noteq> ''FIFO''"
    | "mr_size mem < new + cur" "mr_policy mem = ''FIFO''" by linarith
  then show ?thesis
  proof cases
    case 1
    then have "make_room env mem new cur w = (Inr True, w)" by (simp add: make_room_def)
    with 1 sp assms show ?thesis by auto
  next
    case 2
    then have "make_room env mem new cur w = (Inr False, w)" by (simp add: make_room_def)
    with sp assms show ?thesis by auto
  next
    case 3
    let ?ds = "filter (\<lambda>m. \<not> (mm_id m \<in> set (map mm_id (picked env mem w n)) \<and> mm_memory m = mr_id mem)) (docs_of (mr_tenant mem) w)"
    let ?w1 = "w\<lparr>mw_index := dset (mem_index (mr_tenant mem)) ?ds (mw_index w)\<rparr>"
    let ?w2 = "?w1\<lparr>mw_redis := rd_incrby (m_now env) (size_key (mr_id mem)) (- total_bytes env (picked env mem w n)) (mw_redis ?w1)\<rparr>"
    obtain dels where "del_tries env = DelDone # dels" using assms(1) by (auto simp: healthy_def)
    then have "take 2 (del_tries env) = DelDone # take 1 dels" by simp
    then have "delete_messages env (map mm_id (picked env mem w n)) (mr_tenant mem) (mr_id mem) w = (Inr (), ?w1)"
      unfolding delete_messages_def by (simp only: es_delete.simps meth_simps)
    then have m: "make_room env mem new cur w = (Inr True, ?w2)"
      using 3 p by (simp add: make_room_def bindM_def seqM_def decrease_memory_size_cache_def)
    have docs: "my_docs mem ?w2 = without (picked env mem w n) (my_docs mem w)"
      by (simp only: my_docs_other my_docs_set mine_without) (simp add: my_docs_def)
    have d: "distinct (map mm_id (my_docs mem w))" using assms(2) by (simp add: store_wf_def)
    have "list_all (\<lambda>m. mm_embed m \<noteq> []) ?ds" using store_embeds [OF assms(2)] by (auto simp: list_all_iff)
    moreover have "distinct (map mm_id (mine (mr_id mem) ?ds))"
      using d unfolding mine_without by (auto simp: my_docs_def without_def distinct_map intro: inj_on_subset)
    ultimately have "store_wf mem ?w1" by (intro store_wf_set assms(2))
    moreover have "cache_over env mem d ?w2"
      using assms(4) freed_bytes [OF perm d, of n] docs by (simp add: cache_over_def rd_get_incr)
    ultimately show ?thesis
      using 3 sp m docs assms(3) by (intro exI [of _ True] exI [of _ ?w2] exI [of _ n]) simp
  qed
qed

text \<open>Storing: fresh messages are appended and counted.\<close>

definition fresh_for :: "memory_row \<Rightarrow> mem_world \<Rightarrow> message list \<Rightarrow> bool" where
  "fresh_for mem w ms \<longleftrightarrow>
     list_all (\<lambda>m. mm_memory m = mr_id mem) ms \<and> distinct (map mm_id ms) \<and>
     set (map mm_id ms) \<inter> set (map mm_id (my_docs mem w)) = {}"

lemma as_stored_simps [simp]:
  "mm_id (as_stored m) = mm_id m" "mm_memory (as_stored m) = mm_memory m" "doc_id (as_stored m) = doc_id m"
  "mm_embed (as_stored m) = map json_float (mm_embed m)" "mm_content (as_stored m) = mm_content m"
  by (simp_all add: as_stored_def doc_id_def)

lemma fresh_stored: "fresh_for mem w (map as_stored ms) \<longleftrightarrow> fresh_for mem w ms"
  by (simp add: fresh_for_def list_all_iff comp_def)

lemma fresh_put:
  assumes "fresh_for mem w ms"
  shows "put_docs ms (docs_of (mr_tenant mem) w) = docs_of (mr_tenant mem) w @ ms"
proof (rule put_docs_fresh)
  have "inj_on doc_id (set ms) \<longleftrightarrow> inj_on mm_id (set ms)"
    using assms by (auto simp: fresh_for_def list_all_iff doc_id_inj inj_on_def)
  then show "distinct (map doc_id ms)" using assms by (auto simp: fresh_for_def distinct_map)
  show "set (map doc_id ms) \<inter> doc_id ` set (docs_of (mr_tenant mem) w) = {}"
  proof (rule ccontr)
    assume "set (map doc_id ms) \<inter> doc_id ` set (docs_of (mr_tenant mem) w) \<noteq> {}"
    then obtain m d where md: "m \<in> set ms" "d \<in> set (docs_of (mr_tenant mem) w)" "doc_id m = doc_id d" by auto
    then have "mm_memory d = mr_id mem" "mm_id m = mm_id d"
      using assms by (auto simp: fresh_for_def list_all_iff doc_id_inj)
    with md have "mm_id m \<in> set (map mm_id (my_docs mem w))" by (auto simp: my_docs_def mine_def)
    with assms md(1) show False by (auto simp: fresh_for_def)
  qed
qed

lemma report_state:
  obtains p where "report_progress env tid q msg w = (Inr (), w\<lparr>mw_reports := p\<rparr>)"
proof (cases "tid = None \<or> tid = Some []")
  case True
  then have "report_progress env tid q msg w = (Inr (), w\<lparr>mw_reports := mw_reports w\<rparr>)"
    by (auto simp: report_progress_def)
  then show ?thesis by (rule that)
next
  case False
  then obtain c cs where "tid = Some (c # cs)" by (metis neq_Nil_conv not_None_eq)
  then show ?thesis using that by (simp add: report_progress_def)
qed

text \<open>The bytes a batch is counted with beyond its size in the store\<close>

definition surplus :: "mem_env \<Rightarrow> message list \<Rightarrow> int" where
  "surplus env ms = total_bytes env ms - total_bytes env (map as_stored ms)"

lemma store_spec:
  assumes "healthy env" and "store_wf mem w" and "cache_over env mem d w" and "fresh_for mem w ms"
    and "\<forall>m\<in>set ms. mm_embed m \<noteq> []"
  shows "\<exists>w'. store_messages env mem ms tid (total_bytes env ms) w = (Inr (True, ''Message saved successfully.''), w') \<and>
     store_wf mem w' \<and> cache_over env mem (d + surplus env ms) w' \<and> my_docs mem w' = my_docs mem w @ map as_stored ms"
proof -
  let ?new = "map as_stored ms"
  let ?ds = "docs_of (mr_tenant mem) w @ ?new"
  let ?w1 = "w\<lparr>mw_index := dset (mem_index (mr_tenant mem)) ?ds (mw_index w)\<rparr>"
  have fr: "fresh_for mem w ?new" using assms(4) by (simp only: fresh_stored)
  obtain bs where "bulk_tries env = BulkDone (\<lambda>_. None) # bs" using assms(1) by (auto simp: healthy_def)
  then have "take 2 (bulk_tries env) = BulkDone (\<lambda>_. None) # take 1 bs" by simp
  then have i: "insert_message env ms (mr_tenant mem) w = (Inr [], ?w1)"
    using fresh_put [OF fr] by (simp add: insert_message_def)
  obtain p where p: "report_progress env tid (95 / 100) ''Saved messages to storage.'' ?w1 = (Inr (), ?w1\<lparr>mw_reports := p\<rparr>)"
    by (rule report_state)
  let ?w2 = "?w1\<lparr>mw_reports := p\<rparr>"
  let ?w3 = "?w2\<lparr>mw_redis := rd_incrby (m_now env) (size_key (mr_id mem)) (total_bytes env ms) (mw_redis ?w2)\<rparr>"
  have s: "store_messages env mem ms tid (total_bytes env ms) w = (Inr (True, ''Message saved successfully.''), ?w3)"
    using i p by (simp add: store_messages_def bindM_def seqM_def increase_memory_size_cache_def)
  have mine: "mine (mr_id mem) ?new = ?new"
    using fr by (auto simp: fresh_for_def mine_def list_all_iff intro: filter_True)
  have d: "my_docs mem ?w3 = my_docs mem w @ ?new"
    by (simp only: my_docs_other my_docs_set) (simp add: my_docs_def mine_def mine [unfolded mine_def])
  have "mine (mr_id mem) ?ds = my_docs mem w @ ?new" using mine by (simp add: my_docs_def mine_def)
  then have "distinct (map mm_id (mine (mr_id mem) ?ds))"
    using assms(2) fr by (auto simp: store_wf_def fresh_for_def)
  moreover have "list_all (\<lambda>m. mm_embed m \<noteq> []) ?ds"
    using store_embeds [OF assms(2)] assms(5) by (auto simp: list_all_iff)
  ultimately have "store_wf mem ?w1" by (intro store_wf_set assms(2))
  moreover have "cache_over env mem (d + surplus env ms) ?w3"
    using assms(3) d by (simp add: cache_over_def rd_get_incr surplus_def)
  ultimately show ?thesis using s d by (intro exI [of _ ?w3]) simp
qed

definition with_embeddings :: "mem_env \<Rightarrow> message list \<Rightarrow> message list" where
  "with_embeddings env ms = map (\<lambda>m. m\<lparr>mm_embed := map NpFloat (embed_text env (mm_content m))\<rparr>) ms"

text \<open>What CPython and numpy say of the size of one component\<close>

definition cpython_sizes :: "mem_env \<Rightarrow> bool" where
  "cpython_sizes env \<longleftrightarrow> (\<forall>x. num_size env (NpFloat x) = 32 \<and> num_size env (JsonFloat x) = 24)"

definition vector_components :: "mem_env \<Rightarrow> message list \<Rightarrow> int" where
  "vector_components env ms = sum_list (map (\<lambda>m. int (length (embed_text env (mm_content m)))) ms)"

lemma surplus_components:
  assumes "cpython_sizes env" and "\<forall>s. embed_text env s \<noteq> []"
  shows "surplus env (with_embeddings env ms) = 8 * vector_components env ms"
proof (induction ms)
  case (Cons m ms)
  have "num_size env (hd (map NpFloat (embed_text env (mm_content m)))) = 32"
    "num_size env (hd (map json_float (map NpFloat (embed_text env (mm_content m))))) = 24"
    using assms by (simp_all add: cpython_sizes_def hd_map)
  with Cons show ?case by (simp add: surplus_def with_embeddings_def vector_components_def bytes_def)
qed (simp add: surplus_def with_embeddings_def vector_components_def)

text \<open>What a save stores\<close>

definition stored_form :: "mem_env \<Rightarrow> message list \<Rightarrow> message list" where
  "stored_form env ms = map as_stored (with_embeddings env ms)"

text \<open>C35: while the services answer and its key has not expired, a save of fresh messages stores them all behind the
  others, or, for a memory that must not forget, says so and changes nothing.  Only when the size read under the
  name of the tenant and the new messages pass the limit does it remove messages, the shortest run of the candidates that
  reaches the excess.  The size cache does not stay that of the stored
  messages: fresh vectors are counted with numpy's scalars of 32 bytes, stored and forgotten ones with floats of 24, so
  each save leaves it 8 bytes per component of its vectors further above, and forgetting never takes them back.\<close>

theorem save_accounts:
  assumes "healthy env" and "cpython_sizes env" and "store_wf mem w" and "cache_over env mem d w"
    and "has_index (mr_tenant mem) w" and "mr_id mem \<noteq> mr_tenant mem" and "ms \<noteq> []" and "fresh_for mem w ms"
  shows "\<exists>ok msg w' n t. embed_and_save env mem ms tid w = (Inr (ok, msg), w') \<and> store_wf mem w' \<and>
     (ok \<longleftrightarrow> t \<le> 0 \<or> mr_policy mem = ''FIFO'') \<and>
     (\<forall>v. rd_get (m_now env) (size_key (mr_tenant mem)) (mw_redis w) = Some v \<longrightarrow>
        t = v + total_bytes env (with_embeddings env ms) - mr_size mem) \<and>
     shortest_prefix env t (candidates env (mr_tenant mem) (mr_id mem) w) n \<and>
     my_docs mem w' = (if ok then (if 0 < t then without (picked env mem w n) (my_docs mem w) else my_docs mem w) @
         stored_form env ms else my_docs mem w) \<and>
     cache_over env mem (if ok then d + 8 * vector_components env ms else d) w'"
proof -
  let ?ms = "with_embeddings env ms"
  have emb: "\<forall>m\<in>set ?ms. mm_embed m \<noteq> []" using assms(1) by (auto simp: healthy_def with_embeddings_def)
  have ids: "map mm_id ?ms = map mm_id ms" by (simp add: with_embeddings_def)
  have fr: "fresh_for mem v ?ms" if "set (map mm_id (my_docs mem v)) \<subseteq> set (map mm_id (my_docs mem w))" for v
    using assms(8) that ids by (auto simp: fresh_for_def with_embeddings_def list_all_iff comp_def)
  obtain p1 where r1: "report_progress env tid (65 / 100) ''Prepared embedding model.'' w = (Inr (), w\<lparr>mw_reports := p1\<rparr>)"
    by (rule report_state)
  obtain p2 where r2: "report_progress env tid (85 / 100) ''Embedded extracted content.'' (w\<lparr>mw_reports := p1\<rparr>) =
      (Inr (), w\<lparr>mw_reports := p1, mw_reports := p2\<rparr>)"
    by (rule report_state)
  let ?w1 = "w\<lparr>mw_reports := p2\<rparr>"
  have wf1: "store_wf mem ?w1" using assms(3) by simp
  obtain cur r where c: "get_memory_size_cache env (mr_tenant mem) (mr_id mem) ?w1 = (Inr cur, ?w1\<lparr>mw_redis := r\<rparr>)"
    and r: "\<And>k. k \<noteq> size_key (mr_tenant mem) \<Longrightarrow> rd_get (m_now env) k r = rd_get (m_now env) k (mw_redis ?w1)"
    using cache_read [OF wf1] assms(1) unfolding healthy_def by metis
  have cur: "cur = v" if "rd_get (m_now env) (size_key (mr_tenant mem)) (mw_redis w) = Some v" for v
    using c that by (simp add: get_memory_size_cache_def)
  let ?w2 = "?w1\<lparr>mw_redis := r\<rparr>" and ?t = "cur + total_bytes env ?ms - mr_size mem"
  have over: "cache_over env mem d ?w2" using assms(4,6) r by (simp add: cache_over_def)
  have "store_wf mem ?w2" "has_index (mr_tenant mem) ?w2" using assms(3,5) by simp_all
  from make_room_spec [OF assms(1) this over, of "total_bytes env ?ms" cur]
  obtain b w3 n where m: "make_room env mem (total_bytes env ?ms) cur ?w2 = (Inr b, w3)" "store_wf mem w3"
      "cache_over env mem d w3" "\<not> b \<longrightarrow> w3 = ?w2"
    and d: "my_docs mem w3 = (if b \<and> mr_size mem < total_bytes env ?ms + cur then without (picked env mem ?w2 n) (my_docs mem ?w2)
        else my_docs mem ?w2)"
    and s: "shortest_prefix env ?t (candidates env (mr_tenant mem) (mr_id mem) ?w2) n"
    by (elim exE conjE) (rule that)
  have docs: "my_docs mem w3 = (if b \<and> 0 < ?t then without (picked env mem w n) (my_docs mem w) else my_docs mem w)"
    using d by (simp add: picked_def add.commute)
  have sp: "shortest_prefix env ?t (candidates env (mr_tenant mem) (mr_id mem) w) n" using s by simp
  have pol: "b \<longleftrightarrow> ?t \<le> 0 \<or> mr_policy mem = ''FIFO''"
    using m(1) by (auto simp: make_room_def bindM_def seqM_def delete_messages_def decrease_memory_size_cache_def
        split: if_splits sum.splits prod.splits)
  have run: "embed_and_save env mem ms tid w =
      (if b then store_messages env mem ?ms tid (total_bytes env ?ms) w3 else fail_with env tid limit_msg w3)"
    using r1 r2 assms(5,7) c m(1) total_size_bytes [OF emb]
    by (simp add: embed_and_save_def Let_def seqM_def bindM_def ensure_index_def with_embeddings_def)
  have more: "surplus env ?ms = 8 * vector_components env ms"
    using surplus_components [OF assms(2)] assms(1) by (simp add: healthy_def)
  show ?thesis
  proof (cases b)
    case True
    have sub: "set (map mm_id (my_docs mem w3)) \<subseteq> set (map mm_id (my_docs mem w))"
      unfolding docs by (auto simp: without_def)
    obtain w4 where "store_messages env mem ?ms tid (total_bytes env ?ms) w3 = (Inr (True, ''Message saved successfully.''), w4)"
        "store_wf mem w4" "cache_over env mem (d + 8 * vector_components env ms) w4" "my_docs mem w4 = my_docs mem w3 @ map as_stored ?ms"
      using store_spec [OF assms(1) m(2,3) fr [OF sub] emb] unfolding more by blast
    with True run docs pol cur sp show ?thesis
      by (intro exI [of _ True] exI exI [of _ w4] exI [of _ n] exI [of _ ?t]) (simp add: stored_form_def)
  next
    case False
    obtain p3 where "report_progress env tid (- 1) limit_msg w3 = (Inr (), w3\<lparr>mw_reports := p3\<rparr>)" by (rule report_state)
    then have "embed_and_save env mem ms tid w = (Inr (False, limit_msg), w3\<lparr>mw_reports := p3\<rparr>)"
      using run False by (simp add: fail_with_def seqM_def bindM_def)
    moreover have "cache_over env mem d (w3\<lparr>mw_reports := p3\<rparr>)" using m(3) by (simp add: cache_over_def)
    ultimately show ?thesis
      using False m(2) docs pol cur sp
      by (intro exI [of _ False] exI exI [of _ "w3\<lparr>mw_reports := p3\<rparr>"] exI [of _ n] exI [of _ ?t]) simp
  qed
qed

section \<open>The limit\<close>

text \<open>The size the limit is tested with is read under the tenant's name, where no memory keeps its size.\<close>

definition tenant_size_zero :: "mem_env \<Rightarrow> memory_row \<Rightarrow> mem_world \<Rightarrow> bool" where
  "tenant_size_zero env mem w \<longleftrightarrow>
     (case rd_get (m_now env) (size_key (mr_tenant mem)) (mw_redis w) of Some v \<Rightarrow> v = 0 | None \<Rightarrow> docs_of (mr_id mem) w = [])"

lemma tenant_size_read:
  assumes "sorts env" and "tenant_size_zero env mem w"
  obtains r where "get_memory_size_cache env (mr_tenant mem) (mr_id mem) w = (Inr 0, w\<lparr>mw_redis := r\<rparr>)"
    and "rd_get (m_now env) (size_key (mr_tenant mem)) r = Some 0"
proof (cases "rd_get (m_now env) (size_key (mr_tenant mem)) (mw_redis w)")
  case (Some v)
  with assms(2) have "v = 0" by (simp add: tenant_size_zero_def)
  with Some have "get_memory_size_cache env (mr_tenant mem) (mr_id mem) w = (Inr 0, w\<lparr>mw_redis := mw_redis w\<rparr>)"
    by (simp add: get_memory_size_cache_def)
  then show ?thesis by (rule that) (simp add: Some \<open>v = 0\<close>)
next
  case None
  have "es_sort env k [] = []" for k using assms(1) by (metis sorts_mset mset.simps(1) mset_zero_iff)
  then have "get_memory_size_cache env (mr_tenant mem) (mr_id mem) w =
      (Inr 0, w\<lparr>mw_redis := rd_set (m_now env) (size_key (mr_tenant mem)) 0 (mw_redis w)\<rparr>)"
    using None assms(2) by (simp add: get_memory_size_cache_def calculate_memory_size_def tenant_size_zero_def dget_or_def)
  then show ?thesis by (rule that) (simp add: rd_set_def rd_get_set)
qed

text \<open>A batch that fits the limit of the memory on its own is stored and nothing is forgotten,
  however much the memory holds already, and the next batch finds the same situation: the size limit bounds single
  batches only.\<close>

theorem limit_not_enforced:
  assumes "healthy env" and "tenant_size_zero env mem w" and "has_index (mr_tenant mem) w" and "mr_id mem \<noteq> mr_tenant mem"
    and "ms \<noteq> []" and "fresh_for mem w ms" and "total_bytes env (with_embeddings env ms) \<le> mr_size mem"
  shows "\<exists>w'. embed_and_save env mem ms tid w = (Inr (True, ''Message saved successfully.''), w') \<and>
     docs_of (mr_tenant mem) w' = docs_of (mr_tenant mem) w @ stored_form env ms \<and> tenant_size_zero env mem w'"
proof -
  let ?ms = "with_embeddings env ms" and ?u = "mr_tenant mem"
  have emb: "\<forall>m\<in>set ?ms. mm_embed m \<noteq> []" using assms(1) by (auto simp: healthy_def with_embeddings_def)
  have fr: "fresh_for mem w ?ms" using assms(6) by (auto simp: fresh_for_def with_embeddings_def list_all_iff comp_def)
  obtain p1 where r1: "report_progress env tid (65 / 100) ''Prepared embedding model.'' w = (Inr (), w\<lparr>mw_reports := p1\<rparr>)"
    by (rule report_state)
  obtain p2 where r2: "report_progress env tid (85 / 100) ''Embedded extracted content.'' (w\<lparr>mw_reports := p1\<rparr>) =
      (Inr (), w\<lparr>mw_reports := p1, mw_reports := p2\<rparr>)"
    by (rule report_state)
  let ?w1 = "w\<lparr>mw_reports := p2\<rparr>"
  have "tenant_size_zero env mem ?w1" using assms(2) by (simp add: tenant_size_zero_def split: option.splits)
  then obtain r where c: "get_memory_size_cache env ?u (mr_id mem) ?w1 = (Inr 0, ?w1\<lparr>mw_redis := r\<rparr>)"
    and r: "rd_get (m_now env) (size_key ?u) r = Some 0"
    using tenant_size_read [of env mem ?w1] assms(1) unfolding healthy_def by blast
  let ?w2 = "?w1\<lparr>mw_redis := r\<rparr>" and ?ds = "docs_of ?u w @ map as_stored ?ms"
  let ?w3 = "?w2\<lparr>mw_index := dset (mem_index ?u) ?ds (mw_index ?w2)\<rparr>"
  obtain bs where "bulk_tries env = BulkDone (\<lambda>_. None) # bs" using assms(1) by (auto simp: healthy_def)
  then have "take 2 (bulk_tries env) = BulkDone (\<lambda>_. None) # take 1 bs" by simp
  moreover have "put_docs (map as_stored ?ms) (docs_of ?u ?w2) = ?ds"
    using fresh_put [of mem w "map as_stored ?ms"] fr by (simp only: fresh_stored docs_of_other)
  ultimately have i: "insert_message env ?ms ?u ?w2 = (Inr [], ?w3)" by (simp add: insert_message_def)
  obtain p3 where p3: "report_progress env tid (95 / 100) ''Saved messages to storage.'' ?w3 = (Inr (), ?w3\<lparr>mw_reports := p3\<rparr>)"
    by (rule report_state)
  let ?w4 = "?w3\<lparr>mw_reports := p3\<rparr>"
  let ?w5 = "?w4\<lparr>mw_redis := rd_incrby (m_now env) (size_key (mr_id mem)) (total_bytes env ?ms) (mw_redis ?w4)\<rparr>"
  have "store_messages env mem ?ms tid (total_bytes env ?ms) ?w2 = (Inr (True, ''Message saved successfully.''), ?w5)"
    using i p3 by (simp add: store_messages_def bindM_def seqM_def increase_memory_size_cache_def)
  then have "embed_and_save env mem ms tid w = (Inr (True, ''Message saved successfully.''), ?w5)"
    using r1 r2 c assms(3,5,7) total_size_bytes [OF emb]
    by (simp add: embed_and_save_def Let_def seqM_def bindM_def ensure_index_def with_embeddings_def make_room_def)
  moreover have "tenant_size_zero env mem ?w5" using r assms(4) by (simp add: tenant_size_zero_def rd_get_incr)
  moreover have "docs_of ?u ?w5 = docs_of ?u w @ stored_form env ms" by (simp add: stored_form_def)
  ultimately show ?thesis by blast
qed

section \<open>Message ids\<close>






text \<open>A message with an id in use replaces the message that has it; two time-outs count as a stored batch.\<close>

lemma same_id_replaces: "mine mid (put_doc m [d]) = [m]" if "doc_id d = doc_id m" "mm_memory m = mid"
  using that by (simp add: put_doc_def mine_def)

lemma timeouts_lose_messages: "es_insert [BulkTimeout (\<lambda>_. False), BulkTimeout (\<lambda>_. False)] ms [] docs = ([], docs)"
  by (simp add: put_docs_def)

section \<open>An example\<close>

definition by_field :: "string \<Rightarrow> message list \<Rightarrow> message list" where
  "by_field f ms =
     sort_key (\<lambda>m. if f = ''valid_at'' then int (length (mm_valid m))
                    else if f = ''forget_at'' then (case mm_forget m of None \<Rightarrow> 0 | Some s \<Rightarrow> int (length s)) else mm_id m) ms"

definition mem_demo :: mem_env where
  "mem_demo =
     \<lparr> m_now = 0, m_stamp = ''now'', str_size = (\<lambda>s. int (length s)), num_size = (\<lambda>x. case x of NpFloat _ \<Rightarrow> 32 | JsonFloat _ \<Rightarrow> 24), embed_text = (\<lambda>_. [1, 0]),
       create_ok = True, es_sort = (\<lambda>k ms. case k of ByAsc f \<Rightarrow> by_field f ms | ByDesc f \<Rightarrow> rev (by_field f ms)), es_moment = (\<lambda>s. int (length s)), bulk_tries = [BulkDone (\<lambda>_. None)], del_tries = [DelDone],
       ask_llm = (\<lambda>_ _ _. Inr []), iso_to_ymd = (\<lambda>_. []), queue_ok = True, new_task_id = show_int, m_rt = plain_rt \<rparr>"

definition demo_memory :: memory_row where
  "demo_memory = \<lparr> mr_id = ''m'', mr_tenant = ''t'', mr_type = 1, mr_size = 100, mr_policy = ''FIFO'' \<rparr>"

definition demo_message :: "int \<Rightarrow> message" where
  "demo_message i =
     \<lparr> mm_id = i, mm_type = ''raw'', mm_source = 0, mm_memory = ''m'', mm_user = [], mm_agent = ''a'', mm_session = ''s'',
       mm_content = ''hello'', mm_valid = ''v'', mm_invalid = None, mm_forget = None, mm_status = True, mm_embed = [JsonFloat 1, JsonFloat 0] \<rparr>"

definition demo_world :: mem_world where
  "demo_world =
     \<lparr> mw_memories = [demo_memory], mw_index = [(''memory_t'', [demo_message 2, demo_message 3])],
       mw_redis = [(''memory_m'', 106, None)], mw_reports = [], mw_tasks = [], mw_queue = [] \<rparr>"

lemmas demo_defs = mem_demo_def demo_memory_def demo_message_def demo_world_def

lemma demo_sorts: "sorts mem_demo"
proof -
  have "sorted_wrt (before mem_demo f) (by_field f xs)" if "\<forall>m\<in>set xs. sort_value mem_demo f m \<noteq> None" for f xs
  proof -
    let ?k = "\<lambda>m. if f = ''valid_at'' then int (length (mm_valid m))
        else if f = ''forget_at'' then (case mm_forget m of None \<Rightarrow> 0 | Some s \<Rightarrow> int (length s)) else mm_id m"
    have "sorted_wrt (\<lambda>x y. ?k x \<le> ?k y) (sort_key ?k xs)" using sorted_sort_key [of ?k xs] by (simp only: sorted_map)
    then show ?thesis unfolding by_field_def
      by (rule sorted_wrt_mono_rel [rotated])
        (use that in \<open>auto simp: before_def sort_value_def mem_demo_def split: if_splits option.splits\<close>)
  qed
  then show ?thesis
    by (simp add: sorts_def mem_demo_def sorted_wrt_rev by_field_def split: msg_order.split)
qed

lemma demo_healthy: "healthy mem_demo"
  using demo_sorts by (simp add: healthy_def mem_demo_def)

lemma demo_docs: "docs_of ''t'' demo_world = [demo_message 2, demo_message 3]"
  by (simp add: docs_of_def dget_or_def mem_index_def demo_world_def)

lemma demo_store: "store_wf demo_memory demo_world"
  by (simp add: store_wf_def my_docs_def mine_def docs_of_def dget_or_def mem_index_def demo_defs)

lemma demo_index: "has_index ''t'' demo_world"
  by (simp add: has_index_def has_key_def mem_index_def demo_world_def)

lemma demo_fresh: "fresh_for demo_memory demo_world [demo_message 4]"
  by (simp add: fresh_for_def my_docs_def mine_def docs_of_def dget_or_def mem_index_def demo_defs)

theorem fifo_pick_witness:
  "\<exists>fs os. pick_messages_to_delete_by_fifo mem_demo ''m'' ''t'' 8 demo_world =
     Inr (map mm_id (fs @ os), total_bytes mem_demo (fs @ os)) \<and> 8 \<le> total_bytes mem_demo (fs @ os) \<and> length (fs @ os) = 1"
proof -
  let ?g = "forgotten_of ''m'' (docs_of ''t'' demo_world)" and ?h = "kept_of ''m'' (docs_of ''t'' demo_world)"
  have g: "?g = []" "?h = [demo_message 2, demo_message 3]"
    by (simp_all add: demo_docs forgotten_of_def kept_of_def demo_message_def)
  have "\<forall>m\<in>set (docs_of ''t'' demo_world). mm_embed m \<noteq> []" by (simp add: demo_docs demo_message_def)
  from fifo_pick [OF demo_sorts demo_index this, of "''m''" 8] obtain fs os where p:
    "pick_messages_to_delete_by_fifo mem_demo ''m'' ''t'' 8 demo_world = Inr (map mm_id (fs @ os), total_bytes mem_demo (fs @ os))"
    "picks_first mem_demo ''forget_at'' ?g fs" "picks_first mem_demo ''valid_at'' ?h os"
    "\<forall>k<length (fs @ os). total_bytes mem_demo (take k (fs @ os)) < 8"
    "8 \<le> total_bytes mem_demo (fs @ os) \<or> length fs = min 512 (length ?g) \<and> length os = min 512 (length ?h)" by blast
  have fs: "fs = []" using p(2) g by (simp add: picks_first_def)
  have os: "set os \<subseteq> {demo_message 2, demo_message 3}"
    using p(3) g by (auto simp: picks_first_def dest!: set_mset_mono)
  have big: "bytes mem_demo (demo_message i) = 53" for i by (simp add: bytes_def demo_defs)
  have one: "length os \<le> 1"
  proof (rule ccontr)
    assume "\<not> length os \<le> 1"
    then obtain x y zs where xy: "os = x # y # zs" by (cases os; cases "tl os") auto
    then have "total_bytes mem_demo [x] < 8" using p(4) fs by (auto dest: spec [of _ 1])
    moreover have "total_bytes mem_demo [x] = 53" using os big xy by auto
    ultimately show False by simp
  qed
  have "os \<noteq> []" using p(5) fs g by auto
  then obtain x where x: "os = [x]" using one by (cases os) auto
  then have "total_bytes mem_demo os = 53" using os big by auto
  with p(1) fs x show ?thesis by (intro exI [of _ fs] exI [of _ os]) simp
qed

theorem save_accounts_witness:
  "\<exists>ok msg w'. embed_and_save mem_demo demo_memory [demo_message 4] None demo_world = (Inr (ok, msg), w') \<and> ok \<and>
     cache_over mem_demo demo_memory 16 w'"
proof -
  have "cache_over mem_demo demo_memory 0 demo_world"
    by (simp add: cache_over_def rd_get_def rd_entry_def live_def size_key_def my_docs_def mine_def docs_of_def dget_or_def
        mem_index_def bytes_def demo_defs)
  moreover have "has_index (mr_tenant demo_memory) demo_world" "mr_id demo_memory \<noteq> mr_tenant demo_memory" "mr_policy demo_memory = ''FIFO''"
    using demo_index by (simp_all add: demo_memory_def)
  moreover have "cpython_sizes mem_demo" "vector_components mem_demo [demo_message 4] = 2"
    by (simp_all add: cpython_sizes_def vector_components_def demo_defs)
  ultimately show ?thesis
    using save_accounts [OF demo_healthy _ demo_store, of 0 "[demo_message 4]" None] demo_fresh by force
qed

theorem limit_not_enforced_witness:
  "\<exists>w'. embed_and_save mem_demo demo_memory [demo_message 4] None demo_world = (Inr (True, ''Message saved successfully.''), w') \<and>
     length (docs_of ''t'' w') = 3"
proof -
  have "tenant_size_zero mem_demo demo_memory demo_world"
    by (simp add: tenant_size_zero_def rd_get_def rd_entry_def size_key_def docs_of_def dget_or_def mem_index_def demo_defs)
  moreover have "total_bytes mem_demo (with_embeddings mem_demo [demo_message 4]) \<le> mr_size demo_memory"
    by (simp add: with_embeddings_def bytes_def demo_defs)
  moreover have "has_index (mr_tenant demo_memory) demo_world" "mr_id demo_memory \<noteq> mr_tenant demo_memory"
    using demo_index by (simp_all add: demo_memory_def)
  ultimately obtain w' where "embed_and_save mem_demo demo_memory [demo_message 4] None demo_world =
      (Inr (True, ''Message saved successfully.''), w')"
    "docs_of (mr_tenant demo_memory) w' = docs_of (mr_tenant demo_memory) demo_world @ stored_form mem_demo [demo_message 4]"
    using limit_not_enforced [OF demo_healthy, of demo_memory demo_world "[demo_message 4]" None] demo_fresh by blast
  then show ?thesis
    using demo_docs by (intro exI [of _ w']) (simp add: demo_memory_def stored_form_def with_embeddings_def)
qed


end
