(* ===== verification/MidJson.thy ===== *)
theory MidJson
  imports Merging
begin

text \<open>
  MinerU's middle JSON and what its writers share: pages of paragraphs, blocks, lines and spans as the
  backends of \<^verbatim>\<open>MinerU/mineru/backend\<close> fill them, the character conversions of \<^verbatim>\<open>mineru/utils/char_utils.py\<close>, the
  language test of \<^verbatim>\<open>mineru/utils/language.py\<close>, and the joining of spans to the text of a paragraph.  A key
  the writers subscript and that may be missing is an option; \<open>.get\<close> with an empty default is an option too.
  Boxes and page sizes are the integers the backends make of them.
\<close>

section \<open>The data\<close>

record span =
  sp_type :: string
  sp_content :: "string option"
  sp_html :: "string option"
  sp_image :: "string option"

record line =
  ln_spans :: "span list"
  ln_start :: bool

record block =
  bk_type :: string
  bk_lines :: "line list option"
  bk_cross :: bool
  bk_deleted :: bool

type_synonym box = "int \<times> int \<times> int \<times> int"

record para = block +
  pa_blocks :: "block list option"
  pa_level :: "int option"
  pa_sub_type :: "string option"
  pa_guess :: "string option"
  pa_box :: "box option"

record page =
  pg_paras :: "para list option"
  pg_discarded :: "para list option"
  pg_idx :: "int option"
  pg_size :: "(int \<times> int) option"

text \<open>
  What the writers take from outside: the language detector, the text without control characters
  (\<open>unicodedata\<close>), lower case beyond ASCII, the delimiters of formulas from the configuration, and the two switches
  for formulas and tables.
\<close>

record mk_env =
  me_detect :: "string \<Rightarrow> string res"
  me_printable :: "string \<Rightarrow> string"
  me_wide_lower :: "string \<Rightarrow> bool"
  me_delimiters :: "((string \<times> string) \<times> (string \<times> string)) option"
  me_formula :: bool
  me_table :: bool

definition need :: "string \<Rightarrow> 'a option \<Rightarrow> 'a res" where
  "need k ov = (case ov of None \<Rightarrow> Inl (key_err k) | Some x \<Rightarrow> Inr x)"

lemma need_simps [simp]: "need k (Some x) = Inr x" "need k None = Inl (key_err k)"
  by (simp_all add: need_def)

lemma need_Inr [py_bind]: "need k ov = Inr x \<longleftrightarrow> ov = Some x"
  by (cases ov) simp_all

definition get_text :: "string option \<Rightarrow> string" where
  "get_text ov = (case ov of None \<Rightarrow> [] | Some s \<Rightarrow> s)"

text \<open>A loop over a list that updates a state and may raise\<close>

fun loopR :: "('a \<Rightarrow> 's \<Rightarrow> 's res) \<Rightarrow> 'a list \<Rightarrow> 's \<Rightarrow> 's res" where
  "loopR f [] s = Inr s"
| "loopR f (x # xs) s = bindR (f x s) (loopR f xs)"

section \<open>Characters\<close>

definition wide_code :: "char \<Rightarrow> char \<Rightarrow> nat" where
  "wide_code b c = 61440 + (code b - 128) * 64 + (code c - 128)"

text \<open>The code points U+FF00 to U+FF7F are the bytes EF BC xx and EF BD xx.\<close>

fun half_with :: "(nat \<Rightarrow> bool) \<Rightarrow> string \<Rightarrow> string" where
  "half_with P (a # b # c # s) =
     (if a = CHR 0xEF \<and> b \<in> {CHR 0xBC, CHR 0xBD} \<and> is_continuation c \<and> P (wide_code b c)
      then char_of (wide_code b c - 65248) # half_with P s
      else a # half_with P (b # c # s))"
| "half_with P s = s"

definition wide_alnum :: "nat \<Rightarrow> bool" where
  "wide_alnum n \<longleftrightarrow> (65313 \<le> n \<and> n \<le> 65338) \<or> (65345 \<le> n \<and> n \<le> 65370) \<or> (65296 \<le> n \<and> n \<le> 65305)"

definition full_to_half_exclude_marks :: "string \<Rightarrow> string" where
  "full_to_half_exclude_marks s = half_with wide_alnum s"

definition full_to_half :: "string \<Rightarrow> string" where
  "full_to_half s = half_with (\<lambda>n. 65281 \<le> n \<and> n \<le> 65374) s"

definition is_hyphen_at_line_end :: "string \<Rightarrow> bool" where
  "is_hyphen_at_line_end s =
     (case rev (rstrip_ws s) of
        h # c # _ \<Rightarrow> h = CHR ''-'' \<and> is_alpha c
      | _ \<Rightarrow> False)"

text \<open>\<open>s[0].islower()\<close> of a text that is not empty\<close>

definition first_lower :: "mk_env \<Rightarrow> string \<Rightarrow> bool" where
  "first_lower env s =
     (case s of
        [] \<Rightarrow> False
      | c # _ \<Rightarrow> if code c < 128 then 97 \<le> code c \<and> code c \<le> 122 else me_wide_lower env s)"

section \<open>The language of a text\<close>

definition detect_lang :: "mk_env \<Rightarrow> string \<Rightarrow> string res" where
  "detect_lang env t =
     (if t = [] then Inr []
      else let u = filter (\<lambda>c. c \<noteq> lf) t
           in case me_detect env u of
                Inr l \<Rightarrow> Inr (lower l)
              | Inl _ \<Rightarrow> bindR (me_detect env (me_printable env u)) (\<lambda>l. Inr (lower l)))"

definition cjk_langs :: "string list" where
  "cjk_langs = [''zh'', ''ja'', ''ko'']"

section \<open>The text of a paragraph\<close>

definition lines_of :: "'a block_scheme \<Rightarrow> line list res" where
  "lines_of b = need ''lines'' (bk_lines b)"

text \<open>The first pass writes the half-width form back into the text spans and collects the text.\<close>

definition half_span :: "span \<Rightarrow> span res" where
  "half_span sp =
     (if sp_type sp = ''text''
      then bindR (need ''content'' (sp_content sp)) (\<lambda>c.
             Inr (sp\<lparr>sp_content := Some (full_to_half_exclude_marks c)\<rparr>))
      else Inr sp)"

definition half_lines :: "line list \<Rightarrow> line list res" where
  "half_lines ls =
     mapR (\<lambda>l. bindR (mapR half_span (ln_spans l)) (\<lambda>sps. Inr (l\<lparr>ln_spans := sps\<rparr>))) ls"

definition all_spans :: "line list \<Rightarrow> span list" where
  "all_spans ls = concat (map ln_spans ls)"

definition block_text :: "line list \<Rightarrow> string" where
  "block_text ls =
     concat (map (\<lambda>sp. if sp_type sp = ''text'' then get_text (sp_content sp) else []) (all_spans ls))"

text \<open>The next line begins with a text span in lower case.\<close>

definition next_lower :: "mk_env \<Rightarrow> line list \<Rightarrow> bool" where
  "next_lower env ls =
     (case ls of
        [] \<Rightarrow> False
      | l # _ \<Rightarrow>
          (case ln_spans l of
             [] \<Rightarrow> False
           | sp # _ \<Rightarrow> sp_type sp = ''text'' \<and> first_lower env (get_text (sp_content sp))))"

text \<open>
  What a span adds to the text of its paragraph: \<open>lastp\<close> is the last span of its line, \<open>nl\<close> the test of the next
  line.
\<close>

definition joined_span :: "bool \<Rightarrow> bool \<Rightarrow> bool \<Rightarrow> string \<Rightarrow> string \<Rightarrow> string" where
  "joined_span cjk lastp nl ty content =
     (if content = [] then []
      else if ty = ''interline_equation'' then content
      else if cjk
      then if lastp \<and> ty \<noteq> ''inline_equation'' then content else content @ '' ''
      else if ty \<in> {''text'', ''inline_equation''}
      then if lastp \<and> ty = ''text'' \<and> is_hyphen_at_line_end content
           then if nl then butlast content else content
           else content @ '' ''
      else [])"

fun span_texts :: "(span \<Rightarrow> string res) \<Rightarrow> bool \<Rightarrow> bool \<Rightarrow> span list \<Rightarrow> string res" where
  "span_texts piece cjk nl [] = Inr []"
| "span_texts piece cjk nl (sp # sps) =
     bindR (piece sp) (\<lambda>c.
     bindR (span_texts piece cjk nl sps) (\<lambda>t.
       Inr (joined_span cjk (sps = []) nl (sp_type sp) (strip_ws c) @ t)))"

definition default_delimiters :: "(string \<times> string) \<times> (string \<times> string)" where
  "default_delimiters = ((''$$'', ''$$''), (''$'', ''$''))"

definition delimiters :: "mk_env \<Rightarrow> (string \<times> string) \<times> (string \<times> string)" where
  "delimiters env = (case me_delimiters env of None \<Rightarrow> default_delimiters | Some d \<Rightarrow> d)"

definition inline_math :: "mk_env \<Rightarrow> string \<Rightarrow> string" where
  "inline_math env c = (let (l, r) = snd (delimiters env) in l @ c @ r)"

definition display_math :: "mk_env \<Rightarrow> string \<Rightarrow> string" where
  "display_math env c = (let (l, r) = fst (delimiters env) in [lf] @ l @ [lf] @ c @ [lf] @ r @ [lf])"

definition image_link :: "string \<Rightarrow> string \<Rightarrow> string" where
  "image_link bucket p = ''![]('' @ bucket @ ''/'' @ p @ '')''"

section \<open>Helpers of the two writers\<close>

definition get_title_level :: "para \<Rightarrow> nat" where
  "get_title_level b =
     (let l = (case pa_level b of None \<Rightarrow> 1 | Some l \<Rightarrow> l)
      in if 4 < l then 4 else if l < 1 then 0 else nat l)"

definition blocks_of :: "para \<Rightarrow> block list res" where
  "blocks_of p = need ''blocks'' (pa_blocks p)"

text \<open>The spans of one type in the blocks of one type\<close>

definition body_spans :: "string \<Rightarrow> string \<Rightarrow> block list \<Rightarrow> span list res" where
  "body_spans bty sty bs =
     bindR (mapR lines_of (filter (\<lambda>b. bk_type b = bty) bs)) (\<lambda>lss.
       Inr (filter (\<lambda>sp. sp_type sp = sty) (concat (map all_spans lss))))"

text \<open>\<open>d[k].append(v)\<close>\<close>

definition push :: "string \<Rightarrow> pyval \<Rightarrow> pydict \<Rightarrow> pydict" where
  "push k v d = (case dget d k of Some (PList xs) \<Rightarrow> dset k (PList (xs @ [v])) d | _ \<Rightarrow> d)"

text \<open>
  \<open>int(x * 1000 / w)\<close>: the quotient is cut towards zero.  For integers below 2^43 the rounding of the division does
  not reach the next integer.
\<close>

definition scaled :: "int \<Rightarrow> int \<Rightarrow> int res" where
  "scaled x w =
     (if w = 0 then Inl (Exc ZeroDivisionErr ''division by zero'')
      else Inr (sgn x * sgn w * (\<bar>x * 1000\<bar> div \<bar>w\<bar>)))"

definition add_box :: "(int \<times> int) option \<Rightarrow> box option \<Rightarrow> pydict \<Rightarrow> pydict res" where
  "add_box size_opt box_opt d =
     (case size_opt of
        None \<Rightarrow> Inl (type_err ''cannot unpack non-iterable NoneType object'')
      | Some (w, h) \<Rightarrow>
          (case box_opt of
             None \<Rightarrow> Inr d
           | Some (x0, y0, x1, y1) \<Rightarrow>
               bindR (mapR (\<lambda>(x, w). scaled x w) [(x0, w), (y0, h), (x1, w), (y1, h)]) (\<lambda>b.
                 Inr (dset ''bbox'' (PList (map PInt b)) d))))"

definition index_val :: "int option \<Rightarrow> pyval" where
  "index_val ov = (case ov of None \<Rightarrow> PNone | Some i \<Rightarrow> PInt i)"

section \<open>Pages\<close>

text \<open>What a writer returns\<close>

datatype made = Markdown string | Entries "pydict list" | PageEntries "pydict list list" | NoOutput

definition layout_blocks :: "page \<Rightarrow> para list" where
  "layout_blocks pg = (case pg_paras pg of None \<Rightarrow> [] | Some ps \<Rightarrow> ps)"

definition page_blocks :: "page \<Rightarrow> para list" where
  "page_blocks pg = layout_blocks pg @ (case pg_discarded pg of None \<Rightarrow> [] | Some ps \<Rightarrow> ps)"

end
