(* ===== verification/MkVlm.thy ===== *)
theory MkVlm
  imports MidJson
begin

text \<open>
  The writer of the vision-model backend (\<^verbatim>\<open>MinerU/mineru/backend/vlm/vlm_middle_json_mkcontent.py\<close>): the text of
  a paragraph, Markdown, the content list and its second version.
\<close>

section \<open>Text\<close>

definition span_piece :: "mk_env \<Rightarrow> bool \<Rightarrow> string \<Rightarrow> span \<Rightarrow> string res" where
  "span_piece env formula bucket sp =
     (if sp_type sp = ''text'' then need ''content'' (sp_content sp)
      else if sp_type sp = ''inline_equation''
      then bindR (need ''content'' (sp_content sp)) (\<lambda>c. Inr (inline_math env c))
      else if sp_type sp = ''interline_equation''
      then if formula then bindR (need ''content'' (sp_content sp)) (\<lambda>c. Inr (display_math env c))
           else Inr (if get_text (sp_image sp) \<noteq> [] then image_link bucket (get_text (sp_image sp)) else [])
      else Inr [])"

fun line_texts :: "mk_env \<Rightarrow> (span \<Rightarrow> string res) \<Rightarrow> bool \<Rightarrow> line list \<Rightarrow> string res" where
  "line_texts env piece cjk [] = Inr []"
| "line_texts env piece cjk (l # ls) =
     bindR (span_texts piece cjk (next_lower env ls) (ln_spans l)) (\<lambda>s.
     bindR (line_texts env piece cjk ls) (\<lambda>t. Inr (s @ t)))"

definition merge_para_with_text :: "mk_env \<Rightarrow> bool \<Rightarrow> string \<Rightarrow> 'a block_scheme \<Rightarrow> string res" where
  "merge_para_with_text env formula bucket b =
     bindR (lines_of b) (\<lambda>ls0.
     bindR (half_lines ls0) (\<lambda>ls.
     bindR (detect_lang env (block_text ls)) (\<lambda>lang.
       line_texts env (span_piece env formula bucket) (lang \<in> set cjk_langs) ls)))"

text \<open>The calls with the default arguments\<close>

abbreviation plain_text :: "mk_env \<Rightarrow> 'a block_scheme \<Rightarrow> string res" where
  "plain_text env b \<equiv> merge_para_with_text env True [] b"

section \<open>Markdown\<close>

text \<open>The texts of the blocks of one type, each wrapped by \<open>f\<close>\<close>

definition sub_texts :: "mk_env \<Rightarrow> string \<Rightarrow> (string \<Rightarrow> string) \<Rightarrow> block list \<Rightarrow> string res" where
  "sub_texts env ty f bs =
     bindR (mapR (plain_text env) (filter (\<lambda>b. bk_type b = ty) bs)) (\<lambda>ts. Inr (concat (map f ts)))"

definition two_spaces_lf :: string where
  "two_spaces_lf = ''  '' @ [lf]"

definition list_text :: "mk_env \<Rightarrow> string \<Rightarrow> block list \<Rightarrow> string res" where
  "list_text env bucket bs =
     bindR (mapR (merge_para_with_text env (me_formula env) bucket) bs) (\<lambda>ts.
       Inr (concat (map (\<lambda>t. t @ two_spaces_lf) ts)))"

definition image_links :: "string \<Rightarrow> span list \<Rightarrow> string" where
  "image_links bucket sps =
     concat (map (\<lambda>sp. if get_text (sp_image sp) \<noteq> [] then image_link bucket (get_text (sp_image sp)) else []) sps)"

definition image_text :: "mk_env \<Rightarrow> string \<Rightarrow> block list \<Rightarrow> string res" where
  "image_text env bucket bs =
     (if list_ex (\<lambda>b. bk_type b = ''image_footnote'') bs
      then bindR (sub_texts env ''image_caption'' (\<lambda>t. t @ two_spaces_lf) bs) (\<lambda>c.
           bindR (body_spans ''image_body'' ''image'' bs) (\<lambda>sps.
           bindR (sub_texts env ''image_footnote'' (\<lambda>t. two_spaces_lf @ t) bs) (\<lambda>f.
             Inr (c @ image_links bucket sps @ f))))
      else bindR (body_spans ''image_body'' ''image'' bs) (\<lambda>sps.
           bindR (sub_texts env ''image_caption'' (\<lambda>t. two_spaces_lf @ t) bs) (\<lambda>c.
             Inr (image_links bucket sps @ c))))"

definition table_span_text :: "bool \<Rightarrow> string \<Rightarrow> span \<Rightarrow> string" where
  "table_span_text table bucket sp =
     (if table \<and> get_text (sp_html sp) \<noteq> [] then [lf] @ get_text (sp_html sp) @ [lf]
      else if get_text (sp_image sp) \<noteq> [] then image_link bucket (get_text (sp_image sp))
      else [])"

definition table_text :: "mk_env \<Rightarrow> string \<Rightarrow> block list \<Rightarrow> string res" where
  "table_text env bucket bs =
     bindR (sub_texts env ''table_caption'' (\<lambda>t. t @ two_spaces_lf) bs) (\<lambda>c.
     bindR (body_spans ''table_body'' ''table'' bs) (\<lambda>sps.
     bindR (sub_texts env ''table_footnote'' (\<lambda>t. [lf] @ t @ ''  '') bs) (\<lambda>f.
       Inr (c @ concat (map (table_span_text (me_table env) bucket) sps) @ f))))"

definition code_body_text :: "mk_env \<Rightarrow> para \<Rightarrow> string \<Rightarrow> block \<Rightarrow> string res" where
  "code_body_text env p sub b =
     (if sub = ''code''
      then bindR (need ''guess_lang'' (pa_guess p)) (\<lambda>g.
           bindR (plain_text env b) (\<lambda>t. Inr (''```'' @ g @ [lf] @ t @ [lf] @ ''```'')))
      else if sub = ''algorithm'' then plain_text env b
      else Inr [])"

definition code_text :: "mk_env \<Rightarrow> para \<Rightarrow> string res" where
  "code_text env p =
     bindR (need ''sub_type'' (pa_sub_type p)) (\<lambda>sub.
     bindR (blocks_of p) (\<lambda>bs.
     bindR (sub_texts env ''code_caption'' (\<lambda>t. t @ two_spaces_lf) bs) (\<lambda>c.
     bindR (mapR (code_body_text env p sub) (filter (\<lambda>b. bk_type b = ''code_body'') bs)) (\<lambda>ts.
       Inr (c @ concat ts)))))"

text \<open>The text of a paragraph before it is stripped; \<open>None\<close> leaves the paragraph out.\<close>

definition para_markdown :: "mk_env \<Rightarrow> string \<Rightarrow> string \<Rightarrow> para \<Rightarrow> string option res" where
  "para_markdown env mode bucket p =
     (let ty = bk_type p; some = (\<lambda>m. bindR m (\<lambda>t. Inr (Some t)))
      in if ty \<in> {''text'', ''interline_equation'', ''phonetic'', ''ref_text''}
         then some (merge_para_with_text env (me_formula env) bucket p)
         else if ty = ''list'' then some (bindR (blocks_of p) (list_text env bucket))
         else if ty = ''title''
         then some (bindR (plain_text env p) (\<lambda>t. Inr (replicate (get_title_level p) CHR ''#'' @ '' '' @ t)))
         else if ty = ''image''
         then if mode = ''nlp_markdown'' then Inr None
              else if mode = ''mm_markdown'' then some (bindR (blocks_of p) (image_text env bucket))
              else Inr (Some [])
         else if ty = ''table''
         then if mode = ''nlp_markdown'' then Inr None
              else if mode = ''mm_markdown'' then some (bindR (blocks_of p) (table_text env bucket))
              else Inr (Some [])
         else if ty = ''code'' then some (code_text env p)
         else Inr (Some []))"

fun mk_blocks_to_markdown :: "mk_env \<Rightarrow> string \<Rightarrow> string \<Rightarrow> para list \<Rightarrow> string list res" where
  "mk_blocks_to_markdown env mode bucket [] = Inr []"
| "mk_blocks_to_markdown env mode bucket (p # ps) =
     bindR (para_markdown env mode bucket p) (\<lambda>ov.
     bindR (mk_blocks_to_markdown env mode bucket ps) (\<lambda>rest.
       Inr (case ov of
              None \<Rightarrow> rest
            | Some t \<Rightarrow> if strip_ws t = [] then rest else strip_ws t # rest)))"

section \<open>The content list\<close>

text \<open>A caption or a footnote is appended to its list.\<close>

definition push_text :: "mk_env \<Rightarrow> string \<Rightarrow> block \<Rightarrow> pydict \<Rightarrow> pydict res" where
  "push_text env ty b d =
     (if bk_type b = ty then bindR (plain_text env b) (\<lambda>t. Inr (push ty (PStr t) d)) else Inr d)"

definition set_image :: "string \<Rightarrow> span \<Rightarrow> pydict \<Rightarrow> pydict" where
  "set_image bucket sp d =
     (if get_text (sp_image sp) \<noteq> [] then dset ''img_path'' (PStr (bucket @ ''/'' @ get_text (sp_image sp))) d else d)"

definition set_html :: "span \<Rightarrow> pydict \<Rightarrow> pydict" where
  "set_html sp d = (if get_text (sp_html sp) \<noteq> [] then dset ''table_body'' (PStr (get_text (sp_html sp))) d else d)"

definition image_entry :: "mk_env \<Rightarrow> string \<Rightarrow> block \<Rightarrow> pydict \<Rightarrow> pydict res" where
  "image_entry env bucket b d =
     bindR (body_spans ''image_body'' ''image'' [b]) (\<lambda>sps.
     bindR (push_text env ''image_caption'' b (fold (set_image bucket) sps d)) (push_text env ''image_footnote'' b))"

definition table_entry :: "mk_env \<Rightarrow> string \<Rightarrow> block \<Rightarrow> pydict \<Rightarrow> pydict res" where
  "table_entry env bucket b d =
     bindR (body_spans ''table_body'' ''table'' [b]) (\<lambda>sps.
     bindR (push_text env ''table_caption'' b (fold (\<lambda>sp d. set_image bucket sp (set_html sp d)) sps d))
           (push_text env ''table_footnote'' b))"

definition code_entry :: "mk_env \<Rightarrow> para \<Rightarrow> string \<Rightarrow> block \<Rightarrow> pydict \<Rightarrow> pydict res" where
  "code_entry env p sub b d =
     bindR (if bk_type b = ''code_body''
            then bindR (plain_text env b) (\<lambda>t.
                   let d = dset ''code_body'' (PStr t) d
                   in if sub = ''code''
                      then bindR (need ''guess_lang'' (pa_guess p)) (\<lambda>g. Inr (dset ''guess_lang'' (PStr g) d))
                      else Inr d)
            else Inr d)
       (push_text env ''code_caption'' b)"

definition list_entry :: "mk_env \<Rightarrow> block \<Rightarrow> pydict \<Rightarrow> pydict res" where
  "list_entry env b d =
     bindR (plain_text env b) (\<lambda>t. Inr (if strip_ws t \<noteq> [] then push ''list_items'' (PStr t) d else d))"

definition para_entry :: "mk_env \<Rightarrow> string \<Rightarrow> para \<Rightarrow> pydict res" where
  "para_entry env bucket p =
     (let ty = bk_type p
      in if ty \<in> {''text'', ''ref_text'', ''phonetic'', ''header'', ''footer'', ''page_number'', ''aside_text'',
                  ''page_footnote''}
         then bindR (plain_text env p) (\<lambda>t. Inr [(''type'', PStr ty), (''text'', PStr t)])
         else if ty = ''list''
         then bindR (blocks_of p) (\<lambda>bs.
                loopR (list_entry env) bs
                  [(''type'', PStr ty), (''sub_type'', PStr (get_text (pa_sub_type p))), (''list_items'', PList [])])
         else if ty = ''title''
         then bindR (plain_text env p) (\<lambda>t.
                let d = [(''type'', PStr ''text''), (''text'', PStr t)]; l = get_title_level p
                in Inr (if l \<noteq> 0 then dset ''text_level'' (PInt (int l)) d else d))
         else if ty = ''interline_equation''
         then bindR (plain_text env p) (\<lambda>t.
                Inr [(''type'', PStr ''equation''), (''text'', PStr t), (''text_format'', PStr ''latex'')])
         else if ty = ''image''
         then bindR (blocks_of p) (\<lambda>bs.
                loopR (image_entry env bucket) bs
                  [(''type'', PStr ''image''), (''img_path'', PStr []), (''image_caption'', PList []),
                   (''image_footnote'', PList [])])
         else if ty = ''table''
         then bindR (blocks_of p) (\<lambda>bs.
                loopR (table_entry env bucket) bs
                  [(''type'', PStr ''table''), (''img_path'', PStr []), (''table_caption'', PList []),
                   (''table_footnote'', PList [])])
         else if ty = ''code''
         then bindR (need ''sub_type'' (pa_sub_type p)) (\<lambda>sub.
              bindR (blocks_of p) (\<lambda>bs.
                loopR (code_entry env p sub) bs
                  [(''type'', PStr ''code''), (''sub_type'', PStr sub), (''code_caption'', PList [])]))
         else Inr [])"

definition make_blocks_to_content_list ::
  "mk_env \<Rightarrow> string \<Rightarrow> int option \<Rightarrow> (int \<times> int) option \<Rightarrow> para \<Rightarrow> pydict res" where
  "make_blocks_to_content_list env bucket page_idx page_size p =
     bindR (para_entry env bucket p) (\<lambda>d.
     bindR (add_box page_size (pa_box p) d) (\<lambda>d.
       Inr (dset ''page_idx'' (index_val page_idx) d)))"

section \<open>The second version of the content list\<close>

text \<open>The last character of a text is taken off.\<close>

definition drop_last_char :: "string \<Rightarrow> string" where
  "drop_last_char s = concat (butlast (code_points s))"

definition v2_text :: "mk_env \<Rightarrow> bool \<Rightarrow> bool \<Rightarrow> bool \<Rightarrow> string \<Rightarrow> string" where
  "v2_text env cjk lastp nl c =
     (if cjk then if lastp then c else c @ '' ''
      else if lastp \<and> is_hyphen_at_line_end c then if nl then drop_last_char c else c
      else c @ '' '')"

text \<open>A text behind a text is joined to it.\<close>

definition add_v2_text :: "string \<Rightarrow> (string \<times> string) list \<Rightarrow> (string \<times> string) list" where
  "add_v2_text t out =
     (if out \<noteq> [] \<and> fst (last out) = ''text'' then butlast out @ [(''text'', snd (last out) @ t)]
      else out @ [(''text'', t)])"

definition v2_span ::
  "mk_env \<Rightarrow> bool \<Rightarrow> string \<Rightarrow> bool \<Rightarrow> bool \<Rightarrow> span \<Rightarrow> (string \<times> string) list \<Rightarrow> (string \<times> string) list" where
  "v2_span env cjk ptype lastp nl sp out =
     (let c = get_text (sp_content sp)
      in if strip_ws c = [] then out
         else if sp_type sp = ''text'' \<and> ptype \<noteq> ''phonetic'' then add_v2_text (v2_text env cjk lastp nl c) out
         else if sp_type sp = ''text'' \<or> sp_type sp = ''phonetic'' then out @ [(''phonetic'', c)]
         else if sp_type sp \<in> {''inline_equation'', ''equation_inline''} then out @ [(''equation_inline'', c)]
         else out)"

fun v2_spans ::
  "mk_env \<Rightarrow> bool \<Rightarrow> string \<Rightarrow> bool \<Rightarrow> span list \<Rightarrow> (string \<times> string) list \<Rightarrow> (string \<times> string) list" where
  "v2_spans env cjk ptype nl [] out = out"
| "v2_spans env cjk ptype nl (sp # sps) out =
     v2_spans env cjk ptype nl sps (v2_span env cjk ptype (sps = []) nl sp out)"

fun v2_lines ::
  "mk_env \<Rightarrow> bool \<Rightarrow> string \<Rightarrow> line list \<Rightarrow> (string \<times> string) list \<Rightarrow> (string \<times> string) list" where
  "v2_lines env cjk ptype [] out = out"
| "v2_lines env cjk ptype (l # ls) out =
     v2_lines env cjk ptype ls (v2_spans env cjk ptype (next_lower env ls) (ln_spans l) out)"

definition merge_para_with_text_v2 :: "mk_env \<Rightarrow> 'a block_scheme \<Rightarrow> (string \<times> string) list res" where
  "merge_para_with_text_v2 env b =
     bindR (lines_of b) (\<lambda>ls0.
     bindR (half_lines ls0) (\<lambda>ls.
     bindR (detect_lang env (block_text ls)) (\<lambda>lang.
       Inr (v2_lines env (lang \<in> set cjk_langs) (bk_type b) ls []))))"

definition v2_val :: "(string \<times> string) list \<Rightarrow> pyval" where
  "v2_val ts = PList (map (\<lambda>(ty, c). PDict [(''type'', PStr ty), (''content'', PStr c)]) ts)"

text \<open>\<open>get_body_data\<close>: the image path and the content of the first span of a known type\<close>

fun data_of_spans :: "span list \<Rightarrow> string \<times> string" where
  "data_of_spans [] = ([], [])"
| "data_of_spans (sp # sps) =
     (if sp_type sp = ''table'' then (get_text (sp_image sp), get_text (sp_html sp))
      else if sp_type sp = ''image'' then (get_text (sp_image sp), [])
      else if sp_type sp = ''interline_equation'' then (get_text (sp_image sp), get_text (sp_content sp))
      else if sp_type sp = ''text'' then ([], get_text (sp_content sp))
      else data_of_spans sps)"

definition lines_or_none :: "'a block_scheme \<Rightarrow> line list" where
  "lines_or_none b = (case bk_lines b of None \<Rightarrow> [] | Some ls \<Rightarrow> ls)"

fun body_data_in :: "block list \<Rightarrow> string \<times> string" where
  "body_data_in [] = ([], [])"
| "body_data_in (b # bs) =
     (if bk_type b \<in> {''image_body'', ''table_body'', ''code_body''}
      then let r = data_of_spans (all_spans (lines_or_none b)) in if r \<noteq> ([], []) then r else body_data_in bs
      else body_data_in bs)"

definition get_body_data :: "para \<Rightarrow> string \<times> string" where
  "get_body_data p =
     (case pa_blocks p of
        Some bs \<Rightarrow> body_data_in bs
      | None \<Rightarrow> data_of_spans (all_spans (lines_or_none p)))"

definition path_val :: "string \<Rightarrow> string \<Rightarrow> pyval" where
  "path_val bucket p = PDict [(''path'', PStr (bucket @ ''/'' @ p))]"

text \<open>The spans of the captions of one type are collected in one list.\<close>

definition v2_collect :: "mk_env \<Rightarrow> string \<Rightarrow> block \<Rightarrow> (string \<times> string) list \<Rightarrow> (string \<times> string) list res" where
  "v2_collect env ty b out =
     (if bk_type b = ty then bindR (merge_para_with_text_v2 env b) (\<lambda>ts. Inr (out @ ts)) else Inr out)"

definition v2_notes ::
  "mk_env \<Rightarrow> string \<Rightarrow> string \<Rightarrow> block list \<Rightarrow> ((string \<times> string) list \<times> (string \<times> string) list) res" where
  "v2_notes env cty fty bs =
     loopR (\<lambda>b (cap, foot).
       bindR (v2_collect env cty b cap) (\<lambda>cap. bindR (v2_collect env fty b foot) (\<lambda>foot. Inr (cap, foot)))) bs ([], [])"

fun count_sub :: "string \<Rightarrow> string \<Rightarrow> nat" where
  "count_sub p [] = 0"
| "count_sub p (c # s) = (if starts_with (c # s) p then 1 else 0) + count_sub p s"

definition table_shape :: "string \<Rightarrow> string \<times> nat" where
  "table_shape html =
     (let nest = (if 1 < count_sub ''<table'' html then 2 else 1)
      in (if contains html ''colspan'' \<or> contains html ''rowspan'' \<or> 1 < nest then ''complex_table''
          else ''simple_table'', nest))"

definition margin_type :: "string \<Rightarrow> string option" where
  "margin_type ty =
     map_of [(''header'', ''page_header''), (''footer'', ''page_footer''), (''aside_text'', ''page_aside_text''),
             (''page_number'', ''page_number''), (''page_footnote'', ''page_footnote'')] ty"

definition v2_entry :: "string \<Rightarrow> pydict \<Rightarrow> pydict" where
  "v2_entry ty c = [(''type'', PStr ty), (''content'', PDict c)]"

definition code_parts ::
  "mk_env \<Rightarrow> block list \<Rightarrow> ((string \<times> string) list \<times> (string \<times> string) list) res" where
  "code_parts env bs =
     loopR (\<lambda>b (cap, body).
       bindR (v2_collect env ''code_caption'' b cap) (\<lambda>cap.
         if bk_type b = ''code_body'' then bindR (merge_para_with_text_v2 env b) (\<lambda>ts. Inr (cap, ts))
         else Inr (cap, body))) bs ([], [])"

definition code_entry_v2 :: "mk_env \<Rightarrow> para \<Rightarrow> pydict res" where
  "code_entry_v2 env p =
     bindR (blocks_of p) (\<lambda>bs.
     bindR (code_parts env bs) (\<lambda>(cap, body).
     bindR (need ''sub_type'' (pa_sub_type p)) (\<lambda>sub.
       if sub = ''code''
       then Inr (v2_entry ''code''
              [(''code_caption'', v2_val cap), (''code_content'', v2_val body),
               (''code_language'', PStr (case pa_guess p of None \<Rightarrow> ''txt'' | Some g \<Rightarrow> g))])
       else if sub = ''algorithm''
       then Inr (v2_entry ''algorithm'' [(''algorithm_caption'', v2_val cap), (''algorithm_content'', v2_val body)])
       else Inl (Exc ValueErr (''Unknown code sub_type: '' @ sub)))))"

definition list_entry_v2 :: "mk_env \<Rightarrow> para \<Rightarrow> pydict res" where
  "list_entry_v2 env p =
     bindR (case pa_sub_type p of
              None \<Rightarrow> Inr ''text_list''
            | Some s \<Rightarrow> if s = ''ref_text'' then Inr ''reference_list''
                        else if s = ''text'' then Inr ''text_list''
                        else Inl (Exc ValueErr (''Unknown list sub_type: '' @ s))) (\<lambda>lty.
     bindR (blocks_of p) (\<lambda>bs.
     bindR (mapR (merge_para_with_text_v2 env) bs) (\<lambda>items.
       Inr (v2_entry ''list''
              [(''list_type'', PStr lty),
               (''list_items'',
                  PList (map (\<lambda>it. PDict [(''item_type'', PStr ''text''), (''item_content'', v2_val it)])
                           (filter (\<lambda>it. it \<noteq> []) items)))]))))"

definition para_entry_v2 :: "mk_env \<Rightarrow> string \<Rightarrow> para \<Rightarrow> pydict res" where
  "para_entry_v2 env bucket p =
     (let ty = bk_type p; (img, data) = get_body_data p
      in case margin_type ty of
           Some cty \<Rightarrow>
             bindR (merge_para_with_text_v2 env p) (\<lambda>ts. Inr (v2_entry cty [(cty @ ''_content'', v2_val ts)]))
         | None \<Rightarrow>
             if ty = ''title''
             then bindR (merge_para_with_text_v2 env p) (\<lambda>ts.
                    Inr (if get_title_level p \<noteq> 0
                         then v2_entry ''title''
                                [(''title_content'', v2_val ts), (''level'', PInt (int (get_title_level p)))]
                         else v2_entry ''paragraph'' [(''paragraph_content'', v2_val ts)]))
             else if ty \<in> {''text'', ''phonetic''}
             then bindR (merge_para_with_text_v2 env p) (\<lambda>ts.
                    Inr (v2_entry ''paragraph'' [(''paragraph_content'', v2_val ts)]))
             else if ty = ''interline_equation''
             then Inr (v2_entry ''equation_interline''
                    [(''math_content'', PStr data), (''math_type'', PStr ''latex''),
                     (''image_source'', path_val bucket img)])
             else if ty = ''image''
             then bindR (blocks_of p) (\<lambda>bs.
                  bindR (v2_notes env ''image_caption'' ''image_footnote'' bs) (\<lambda>(cap, foot).
                    Inr (v2_entry ''image''
                      [(''image_source'', path_val bucket img), (''image_caption'', v2_val cap),
                       (''image_footnote'', v2_val foot)])))
             else if ty = ''table''
             then bindR (blocks_of p) (\<lambda>bs.
                  bindR (v2_notes env ''table_caption'' ''table_footnote'' bs) (\<lambda>(cap, foot).
                    Inr (v2_entry ''table''
                      [(''image_source'', path_val bucket img), (''table_caption'', v2_val cap),
                       (''table_footnote'', v2_val foot), (''html'', PStr data),
                       (''table_type'', PStr (fst (table_shape data))),
                       (''table_nest_level'', PInt (int (snd (table_shape data))))])))
             else if ty = ''code'' then code_entry_v2 env p
             else if ty = ''ref_text''
             then bindR (merge_para_with_text_v2 env p) (\<lambda>ts.
                    Inr (v2_entry ''list''
                      [(''list_type'', PStr ''reference_list''),
                       (''list_items'',
                          PList [PDict [(''item_type'', PStr ''text''), (''item_content'', v2_val ts)]])]))
             else if ty = ''list'' then list_entry_v2 env p
             else Inr [])"

definition make_blocks_to_content_list_v2 ::
  "mk_env \<Rightarrow> string \<Rightarrow> (int \<times> int) option \<Rightarrow> para \<Rightarrow> pydict res" where
  "make_blocks_to_content_list_v2 env bucket page_size p =
     bindR (para_entry_v2 env bucket p) (add_box page_size (pa_box p))"

section \<open>The writer\<close>

definition page_entries :: "mk_env \<Rightarrow> string \<Rightarrow> page \<Rightarrow> pydict list res" where
  "page_entries env bucket pg =
     mapR (make_blocks_to_content_list env bucket (pg_idx pg) (pg_size pg)) (page_blocks pg)"

definition page_entries_v2 :: "mk_env \<Rightarrow> string \<Rightarrow> page \<Rightarrow> pydict list res" where
  "page_entries_v2 env bucket pg = mapR (make_blocks_to_content_list_v2 env bucket (pg_size pg)) (page_blocks pg)"

definition union_make :: "mk_env \<Rightarrow> string \<Rightarrow> string \<Rightarrow> page list \<Rightarrow> made res" where
  "union_make env mode bucket pages =
     (if mode \<in> {''mm_markdown'', ''nlp_markdown''}
      then bindR (mapR (\<lambda>pg. mk_blocks_to_markdown env mode bucket (layout_blocks pg)) pages) (\<lambda>mds.
             Inr (Markdown (join [lf, lf] (concat mds))))
      else if mode = ''content_list''
      then bindR (mapR (page_entries env bucket) pages) (\<lambda>es. Inr (Entries (concat es)))
      else if mode = ''content_list_v2''
      then bindR (mapR (page_entries_v2 env bucket) pages) (\<lambda>es. Inr (PageEntries es))
      else Inr NoOutput)"

end
