(* ===== verification/MkPipeline.thy ===== *)
theory MkPipeline
  imports MidJson
begin

text \<open>
  The writer of the pipeline backend (\<^verbatim>\<open>MinerU/mineru/backend/pipeline/pipeline_middle_json_mkcontent.py\<close>).  It
  escapes the characters Markdown gives a meaning, breaks a list before each of its items, and leaves out empty
  formulas.
\<close>

section \<open>Text\<close>

definition special_chars :: string where
  "special_chars = ''*`~$''"

definition escape_special_markdown_char :: "string \<Rightarrow> string" where
  "escape_special_markdown_char s = fold (\<lambda>c t. replace_char c [backslash, c] t) special_chars s"

definition span_piece :: "mk_env \<Rightarrow> span \<Rightarrow> string res" where
  "span_piece env sp =
     (if sp_type sp = ''text''
      then bindR (need ''content'' (sp_content sp)) (\<lambda>c. Inr (escape_special_markdown_char c))
      else if sp_type sp = ''inline_equation''
      then Inr (if get_text (sp_content sp) \<noteq> [] then inline_math env (get_text (sp_content sp)) else [])
      else if sp_type sp = ''interline_equation''
      then Inr (if get_text (sp_content sp) \<noteq> [] then display_math env (get_text (sp_content sp)) else [])
      else Inr [])"

definition item_break :: string where
  "item_break = ''  '' @ [lf]"

text \<open>\<open>head\<close> is the first line; a later line that starts an item is set off.\<close>

fun line_texts :: "mk_env \<Rightarrow> bool \<Rightarrow> bool \<Rightarrow> line list \<Rightarrow> string res" where
  "line_texts env cjk head [] = Inr []"
| "line_texts env cjk head (l # ls) =
     bindR (span_texts (span_piece env) cjk (next_lower env ls) (ln_spans l)) (\<lambda>s.
     bindR (line_texts env cjk False ls) (\<lambda>t.
       Inr ((if \<not> head \<and> ln_start l then item_break else []) @ s @ t)))"

definition merge_para_with_text :: "mk_env \<Rightarrow> 'a block_scheme \<Rightarrow> string res" where
  "merge_para_with_text env b =
     bindR (lines_of b) (\<lambda>ls0.
     bindR (half_lines ls0) (\<lambda>ls.
     bindR (detect_lang env (block_text ls)) (\<lambda>lang. line_texts env (lang \<in> set cjk_langs) True ls)))"

section \<open>Markdown\<close>

definition sub_texts :: "mk_env \<Rightarrow> string \<Rightarrow> (string \<Rightarrow> string) \<Rightarrow> block list \<Rightarrow> string res" where
  "sub_texts env ty f bs =
     bindR (mapR (merge_para_with_text env) (filter (\<lambda>b. bk_type b = ty) bs)) (\<lambda>ts. Inr (concat (map f ts)))"

definition image_links :: "string \<Rightarrow> span list \<Rightarrow> string" where
  "image_links bucket sps =
     concat (map (\<lambda>sp. if get_text (sp_image sp) \<noteq> [] then image_link bucket (get_text (sp_image sp)) else []) sps)"

definition image_text :: "mk_env \<Rightarrow> string \<Rightarrow> block list \<Rightarrow> string res" where
  "image_text env bucket bs =
     (if list_ex (\<lambda>b. bk_type b = ''image_footnote'') bs
      then bindR (sub_texts env ''image_caption'' (\<lambda>t. t @ item_break) bs) (\<lambda>c.
           bindR (body_spans ''image_body'' ''image'' bs) (\<lambda>sps.
           bindR (sub_texts env ''image_footnote'' (\<lambda>t. item_break @ t) bs) (\<lambda>f.
             Inr (c @ image_links bucket sps @ f))))
      else bindR (body_spans ''image_body'' ''image'' bs) (\<lambda>sps.
           bindR (sub_texts env ''image_caption'' (\<lambda>t. item_break @ t) bs) (\<lambda>c.
             Inr (image_links bucket sps @ c))))"

definition table_span_text :: "string \<Rightarrow> span \<Rightarrow> string" where
  "table_span_text bucket sp =
     (if get_text (sp_html sp) \<noteq> [] then [lf] @ get_text (sp_html sp) @ [lf]
      else if get_text (sp_image sp) \<noteq> [] then image_link bucket (get_text (sp_image sp))
      else [])"

definition table_text :: "mk_env \<Rightarrow> string \<Rightarrow> block list \<Rightarrow> string res" where
  "table_text env bucket bs =
     bindR (sub_texts env ''table_caption'' (\<lambda>t. t @ item_break) bs) (\<lambda>c.
     bindR (body_spans ''table_body'' ''table'' bs) (\<lambda>sps.
     bindR (sub_texts env ''table_footnote'' (\<lambda>t. [lf] @ t @ ''  '') bs) (\<lambda>f.
       Inr (c @ concat (map (table_span_text bucket) sps) @ f))))"

text \<open>The first span of the first line, if there is one\<close>

definition head_span :: "line list \<Rightarrow> span option" where
  "head_span ls =
     (case ls of [] \<Rightarrow> None | l # _ \<Rightarrow> (case ln_spans l of [] \<Rightarrow> None | sp # _ \<Rightarrow> Some sp))"

definition equation_text :: "mk_env \<Rightarrow> string \<Rightarrow> para \<Rightarrow> string option res" where
  "equation_text env bucket p =
     bindR (lines_of p) (\<lambda>ls.
       case head_span ls of
         None \<Rightarrow> Inr None
       | Some sp \<Rightarrow>
           if get_text (sp_content sp) \<noteq> [] then bindR (merge_para_with_text env p) (\<lambda>t. Inr (Some t))
           else bindR (need ''image_path'' (sp_image sp)) (\<lambda>i. Inr (Some (image_link bucket i))))"

definition para_markdown :: "mk_env \<Rightarrow> string \<Rightarrow> string \<Rightarrow> para \<Rightarrow> string option res" where
  "para_markdown env mode bucket p =
     (let ty = bk_type p; some = (\<lambda>m. bindR m (\<lambda>t. Inr (Some t)))
      in if ty \<in> {''text'', ''list'', ''index''} then some (merge_para_with_text env p)
         else if ty = ''title''
         then some (bindR (merge_para_with_text env p) (\<lambda>t.
                Inr (replicate (get_title_level p) CHR ''#'' @ '' '' @ t)))
         else if ty = ''interline_equation'' then equation_text env bucket p
         else if ty = ''image''
         then if mode = ''nlp_markdown'' then Inr None
              else if mode = ''mm_markdown'' then some (bindR (blocks_of p) (image_text env bucket))
              else Inr (Some [])
         else if ty = ''table''
         then if mode = ''nlp_markdown'' then Inr None
              else if mode = ''mm_markdown'' then some (bindR (blocks_of p) (table_text env bucket))
              else Inr (Some [])
         else Inr (Some []))"

fun make_blocks_to_markdown :: "mk_env \<Rightarrow> string \<Rightarrow> string \<Rightarrow> para list \<Rightarrow> string list res" where
  "make_blocks_to_markdown env mode bucket [] = Inr []"
| "make_blocks_to_markdown env mode bucket (p # ps) =
     bindR (para_markdown env mode bucket p) (\<lambda>ov.
     bindR (make_blocks_to_markdown env mode bucket ps) (\<lambda>rest.
       Inr (case ov of
              None \<Rightarrow> rest
            | Some t \<Rightarrow> if strip_ws t = [] then rest else strip_ws t # rest)))"

section \<open>The content list\<close>

definition push_text :: "mk_env \<Rightarrow> string \<Rightarrow> block \<Rightarrow> pydict \<Rightarrow> pydict res" where
  "push_text env ty b d =
     (if bk_type b = ty then bindR (merge_para_with_text env b) (\<lambda>t. Inr (push ty (PStr t) d)) else Inr d)"

definition set_image :: "string \<Rightarrow> span \<Rightarrow> pydict \<Rightarrow> pydict" where
  "set_image bucket sp d =
     (if get_text (sp_image sp) \<noteq> [] then dset ''img_path'' (PStr (bucket @ ''/'' @ get_text (sp_image sp))) d else d)"

definition set_html :: "span \<Rightarrow> pydict \<Rightarrow> pydict" where
  "set_html sp d = (if get_text (sp_html sp) \<noteq> [] then dset ''table_body'' (PStr (get_text (sp_html sp))) d else d)"

definition image_entry :: "mk_env \<Rightarrow> string \<Rightarrow> block \<Rightarrow> pydict \<Rightarrow> pydict res" where
  "image_entry env bucket b d =
     bindR (body_spans ''image_body'' ''image'' [b]) (\<lambda>sps.
     bindR (push_text env ''image_caption'' b (fold (set_image bucket) sps d)) (push_text env ''image_footnote'' b))"

definition table_entry :: "mk_env \<Rightarrow> string \<Rightarrow> block \<Rightarrow> pydict \<Rightarrow> pydict res" where
  "table_entry env bucket b d =
     bindR (body_spans ''table_body'' ''table'' [b]) (\<lambda>sps.
     bindR (push_text env ''table_caption'' b (fold (\<lambda>sp d. set_image bucket sp (set_html sp d)) sps d))
           (push_text env ''table_footnote'' b))"

definition equation_entry :: "mk_env \<Rightarrow> string \<Rightarrow> para \<Rightarrow> pydict option res" where
  "equation_entry env bucket p =
     bindR (lines_of p) (\<lambda>ls.
       case head_span ls of
         None \<Rightarrow> Inr None
       | Some sp \<Rightarrow>
           let d = [(''type'', PStr ''equation''), (''img_path'', PStr (bucket @ ''/'' @ get_text (sp_image sp)))]
           in if get_text (sp_content sp) \<noteq> []
              then bindR (merge_para_with_text env p) (\<lambda>t.
                     Inr (Some (dset ''text_format'' (PStr ''latex'') (dset ''text'' (PStr t) d))))
              else Inr (Some d))"

text \<open>The entry of a paragraph without its box and page; \<open>None\<close> is a formula without lines.\<close>

definition para_entry :: "mk_env \<Rightarrow> string \<Rightarrow> para \<Rightarrow> pydict option res" where
  "para_entry env bucket p =
     (let ty = bk_type p; some = (\<lambda>m. bindR m (\<lambda>d. Inr (Some d)))
      in if ty \<in> {''text'', ''list'', ''index''}
         then some (bindR (merge_para_with_text env p) (\<lambda>t. Inr [(''type'', PStr ''text''), (''text'', PStr t)]))
         else if ty = ''discarded''
         then some (bindR (merge_para_with_text env p) (\<lambda>t. Inr [(''type'', PStr ty), (''text'', PStr t)]))
         else if ty = ''title''
         then some (bindR (merge_para_with_text env p) (\<lambda>t.
                let d = [(''type'', PStr ''text''), (''text'', PStr t)]; l = get_title_level p
                in Inr (if l \<noteq> 0 then dset ''text_level'' (PInt (int l)) d else d)))
         else if ty = ''interline_equation'' then equation_entry env bucket p
         else if ty = ''image''
         then some (bindR (blocks_of p) (\<lambda>bs.
                loopR (image_entry env bucket) bs
                  [(''type'', PStr ''image''), (''img_path'', PStr []), (''image_caption'', PList []),
                   (''image_footnote'', PList [])]))
         else if ty = ''table''
         then some (bindR (blocks_of p) (\<lambda>bs.
                loopR (table_entry env bucket) bs
                  [(''type'', PStr ''table''), (''img_path'', PStr []), (''table_caption'', PList []),
                   (''table_footnote'', PList [])]))
         else Inr (Some []))"

definition make_blocks_to_content_list ::
  "mk_env \<Rightarrow> string \<Rightarrow> int option \<Rightarrow> (int \<times> int) option \<Rightarrow> para \<Rightarrow> pydict option res" where
  "make_blocks_to_content_list env bucket page_idx page_size p =
     bindR (para_entry env bucket p) (\<lambda>ov.
       case ov of
         None \<Rightarrow> Inr None
       | Some d \<Rightarrow>
           bindR (add_box page_size (pa_box p) d) (\<lambda>d. Inr (Some (dset ''page_idx'' (index_val page_idx) d))))"

section \<open>The writer\<close>

definition page_entries :: "mk_env \<Rightarrow> string \<Rightarrow> page \<Rightarrow> pydict list res" where
  "page_entries env bucket pg =
     bindR (mapR (make_blocks_to_content_list env bucket (pg_idx pg) (pg_size pg)) (page_blocks pg)) (\<lambda>os.
       Inr (concat (map (\<lambda>ov. case ov of None \<Rightarrow> [] | Some d \<Rightarrow> [d]) os)))"

definition union_make :: "mk_env \<Rightarrow> string \<Rightarrow> string \<Rightarrow> page list \<Rightarrow> made res" where
  "union_make env mode bucket pages =
     (if mode \<in> {''mm_markdown'', ''nlp_markdown''}
      then bindR (mapR (\<lambda>pg. make_blocks_to_markdown env mode bucket (layout_blocks pg)) pages) (\<lambda>mds.
             Inr (Markdown (join [lf, lf] (concat mds))))
      else if mode = ''content_list''
      then bindR (mapR (page_entries env bucket) pages) (\<lambda>es. Inr (Entries (concat es)))
      else Inr NoOutput)"

end
