(* ===== verification/MkSpec.thy ===== *)
theory MkSpec
  imports MkVlm MkPipeline
begin

text \<open>
  What MinerU's writers keep: but for white space and hyphens at line ends the text of a paragraph is the texts of its spans
  in order; the content lists have one entry for each block; the Markdown for language models is that of
  the pages without images and tables.
\<close>

section \<open>White space\<close>

text \<open>UTF-8, the bytes of every text: a lead byte and as many continuation bytes as it asks for\<close>

definition trail :: "char \<Rightarrow> nat option" where
  "trail c =
     (if code c < 128 then Some 0 else if 194 \<le> code c \<and> code c < 224 then Some 1
      else if 224 \<le> code c \<and> code c < 240 then Some 2 else if 240 \<le> code c \<and> code c < 245 then Some 3 else None)"

function utf8 :: "string \<Rightarrow> bool" where
  "utf8 [] = True"
| "utf8 (c # cs) =
     (case trail c of
        None \<Rightarrow> False
      | Some n \<Rightarrow> n \<le> length cs \<and> list_all is_continuation (take n cs) \<and> utf8 (drop n cs))"
  by pat_completeness auto
termination by (relation "measure length") auto

definition starts_char :: "string \<Rightarrow> bool" where
  "starts_char s \<longleftrightarrow> s = [] \<or> \<not> is_continuation (hd s)"

text \<open>A text without its white space, that of Unicode included\<close>

function dense :: "string \<Rightarrow> string" where
  "dense [] = []"
| "dense (c # cs) =
     (if ws_head (c # cs) = 0 then c # dense cs else dense (drop (ws_head (c # cs)) (c # cs)))"
  by pat_completeness auto
termination by (relation "measure length") auto

lemma utf8_starts: "utf8 s \<Longrightarrow> starts_char s"
  by (cases s) (auto simp: starts_char_def trail_def is_continuation_def split: option.splits if_splits)

lemma starts_char_prefix: "starts_char s \<Longrightarrow> prefix t s \<Longrightarrow> starts_char t"
  by (cases t) (auto simp: starts_char_def prefix_def)

lemma starts_char_append: "starts_char s \<Longrightarrow> starts_char t \<Longrightarrow> starts_char (s @ t)"
  by (cases s) (auto simp: starts_char_def)

lemma wide_shape: "w \<in> set wide_spaces \<Longrightarrow> trail (hd w) = Some (length (tl w)) \<and> list_all is_continuation (tl w)"
proof -
  have "list_all (\<lambda>w. trail (hd w) = Some (length (tl w)) \<and> list_all is_continuation (tl w)) wide_spaces" by code_simp
  then show "w \<in> set wide_spaces \<Longrightarrow> ?thesis" by (simp add: list_all_iff)
qed

lemma utf8_drop_head: "utf8 s \<Longrightarrow> utf8 (drop (ws_head s) s)"
proof (cases "0 < ws_head s")
  case True
  assume u: "utf8 s"
  from True show ?thesis
  proof (cases rule: ws_head_cases)
    case 1
    then show ?thesis using u by (cases s) (auto simp: ws_head_def trail_def is_space_def)
  next
    case (2 w)
    then obtain t where s: "s = w @ t" by (auto simp: starts_with_def prefix_def)
    obtain c v where w: "w = c # v" using wide_hd [OF 2(1)] by (cases w) auto
    with wide_shape [OF 2(1)] u s 2 show ?thesis by (simp add: ws_head_wide)
  qed
qed simp

lemma utf8_lstrip: "utf8 s \<Longrightarrow> utf8 (lstrip_ws s)"
proof (induction s rule: lstrip_ws.induct)
  case (1 s)
  show ?case
  proof (cases "ws_head s = 0")
    case True
    then show ?thesis using "1.prems" by (simp add: lstrip_id)
  next
    case False
    then show ?thesis using 1(1) [OF False utf8_drop_head [OF "1.prems"]] by (subst lstrip_ws.simps) simp
  qed
qed

lemma starts_strip: "utf8 s \<Longrightarrow> starts_char (strip_ws s)"
  unfolding strip_ws_def by (rule starts_char_prefix [OF utf8_starts [OF utf8_lstrip] prefix_rstrip])

text \<open>White space never lies across the border of two texts.\<close>

lemma ws_head_border:
  assumes "s \<noteq> []" and "starts_char t" and "ws_head s = 0"
  shows "ws_head (s @ t) = 0"
proof (rule ccontr)
  assume "ws_head (s @ t) \<noteq> 0"
  then have "0 < ws_head (s @ t)" by simp
  then show False
  proof (cases rule: ws_head_cases)
    case 1
    then show ?thesis using assms by (simp add: ws_head_def)
  next
    case (2 w)
    have "\<not> prefix w s" using ws_head_wide [of w s] wide_hd [OF 2(1)] 2(1) assms(3) by (auto simp: starts_with_def)
    moreover have "prefix w (s @ t)" using 2(2) by (simp add: starts_with_def)
    ultimately obtain u where u: "w = s @ u" "u \<noteq> []" "prefix u t"
      by (metis append_Nil2 prefix_append prefix_order.refl)
    then have "hd u \<in> set (tl w)" using assms(1) by (cases s) auto
    then have "is_continuation (hd u)" using wide_shape [OF 2(1)] by (simp add: list_all_iff)
    moreover have "hd u = hd t" "t \<noteq> []" using u(2,3) by (auto simp: prefix_def)
    ultimately show ?thesis using assms(2) by (simp add: starts_char_def)
  qed
qed

lemma dense_append: "starts_char t \<Longrightarrow> dense (s @ t) = dense s @ dense t"
proof (induction s rule: dense.induct)
  case (2 c cs)
  show ?case
  proof (cases "ws_head (c # cs) = 0")
    case True
    then show ?thesis using 2 ws_head_border [of "c # cs" t] by simp
  next
    case False
    then have "ws_head (c # cs @ t) = ws_head (c # cs)" using ws_head_append [of "c # cs" t] by simp
    moreover have "drop (ws_head (c # cs)) (c # cs @ t) = drop (ws_head (c # cs)) (c # cs) @ t"
      using ws_head_le [of "c # cs"] drop_append [of "ws_head (c # cs)" "c # cs" t] by simp
    ultimately show ?thesis using 2(2) [OF False 2(3)] False by simp
  qed
qed simp

lemma dense_head: "dense (drop (ws_head s) s) = dense s"
  by (cases s) auto

lemma dense_lstrip [simp]: "dense (lstrip_ws s) = dense s"
proof (induction s rule: lstrip_ws.induct)
  case (1 s)
  then show ?case by (subst lstrip_ws.simps) (auto simp: dense_head)
qed

lemma dense_wide: "w \<in> set wide_spaces \<Longrightarrow> dense w = [] \<and> starts_char w"
  using ws_head_wide [of w w] wide_hd [of w] wide_shape [of w] dense_head [of w]
  by (auto simp: starts_with_def starts_char_def is_continuation_def trail_def split: if_splits)

lemma dense_tail: "dense (take (length s - ws_tail s) s) = dense s"
proof (cases "ws_tail s = 0")
  case False
  let ?p = "take (length s - ws_tail s) s" and ?w = "drop (length s - ws_tail s) s"
  have "dense ?w = [] \<and> starts_char ?w"
  proof (cases "is_space (last s) \<and> s \<noteq> []")
    case True
    then have "?w = [last s]" by (cases s rule: rev_cases) (auto simp: ws_tail_def)
    with True show ?thesis by (auto simp: ws_head_def starts_char_def is_space_def is_continuation_def)
  next
    case notsp: False
    then obtain w where w: "find (ends_with s) wide_spaces = Some w" "ws_tail s = length w"
      using False by (auto simp: ws_tail_def split: if_splits option.splits)
    then have "w \<in> set wide_spaces" "suffix w s" by (auto simp: find_Some_iff ends_with_def)
    then show ?thesis using w(2) dense_wide by (auto simp: suffix_def)
  qed
  then have "dense (?p @ ?w) = dense ?p" by (simp only: dense_append append_Nil2)
  then show ?thesis by simp
qed simp

lemma dense_rstrip [simp]: "dense (rstrip_ws s) = dense s"
proof (induction s rule: rstrip_ws.induct)
  case (1 s)
  then show ?case by (subst rstrip_ws.simps) (auto simp: dense_tail)
qed

lemma dense_strip [simp]: "dense (strip_ws s) = dense s"
  by (simp add: strip_ws_def)

lemma dense_blank: "dense (s @ '' '') = dense s"
proof -
  have "starts_char '' ''" "dense '' '' = []" by code_simp+
  then show ?thesis by (simp add: dense_append)
qed

lemma rstrip_done: "ws_tail (rstrip_ws s) = 0"
proof (induction s rule: rstrip_ws.induct)
  case (1 s)
  then show ?case by (subst rstrip_ws.simps) simp
qed

lemma rstrip_strip [simp]: "rstrip_ws (strip_ws s) = strip_ws s"
  by (subst rstrip_ws.simps) (simp add: strip_ws_def rstrip_done)

section \<open>The text of a paragraph\<close>

text \<open>A text ends in a letter and a hyphen.\<close>

definition hyphened :: "string \<Rightarrow> bool" where
  "hyphened s \<longleftrightarrow> (\<exists>c. is_alpha c \<and> suffix [c, CHR ''-''] (strip_ws s))"

lemma hyphen_at_end: "is_hyphen_at_line_end (strip_ws s) \<longleftrightarrow> hyphened s"
proof -
  have "(\<exists>c. is_alpha c \<and> suffix [c, CHR ''-''] t) \<longleftrightarrow> (case rev t of h # c # _ \<Rightarrow> h = CHR ''-'' \<and> is_alpha c | _ \<Rightarrow> False)"
    for t :: string
  proof (cases t rule: rev_cases)
    case (snoc u h)
    then show ?thesis by (cases u rule: rev_cases) (auto simp: suffix_def)
  qed simp
  then show ?thesis by (simp add: hyphened_def is_hyphen_at_line_end_def)
qed

lemma dense_hyphen: "hyphened s \<Longrightarrow> dense s = dense (butlast (strip_ws s)) @ ''-''"
proof -
  assume "hyphened s"
  then obtain u where "strip_ws s = u @ ''-''" "butlast (strip_ws s) = u"
    by (auto simp: hyphened_def suffix_def butlast_append)
  moreover have "starts_char ''-''" "dense ''-'' = ''-''" by code_simp+
  ultimately show ?thesis using dense_strip [of s] by (metis dense_append)
qed

definition joinable :: "string \<Rightarrow> bool" where
  "joinable ty \<longleftrightarrow> ty \<in> {''text'', ''inline_equation'', ''interline_equation''}"

text \<open>A span loses its hyphen under exactly these conditions.\<close>

definition cut_hyphen :: "bool \<Rightarrow> bool \<Rightarrow> string \<Rightarrow> string \<Rightarrow> bool" where
  "cut_hyphen cjk nl ty s \<longleftrightarrow> \<not> cjk \<and> nl \<and> ty = ''text'' \<and> hyphened s"

lemma strip_empty [simp]: "strip_ws [] = []"
  by (simp add: strip_plain_ends)

lemma dense_joined:
  assumes "joinable ty \<or> s = []"
  shows "dense (joined_span cjk lastp nl ty (strip_ws s)) =
     (if lastp \<and> cut_hyphen cjk nl ty s then butlast (dense s) else dense s)"
proof (cases "strip_ws s = []")
  case True
  then have "dense s = []" using dense_strip [of s] by simp
  then show ?thesis using True by (simp add: joined_span_def)
next
  case False
  then have ty: "joinable ty" using assms by auto
  have b: "dense (strip_ws s @ '' '') = dense s" by (simp only: dense_blank dense_strip)
  have c: "hyphened s \<Longrightarrow> dense (butlast (strip_ws s)) = butlast (dense s)" by (simp add: dense_hyphen butlast_append)
  show ?thesis using False ty b c
    by (auto simp: joined_span_def cut_hyphen_def joinable_def hyphen_at_end)
qed

lemma starts_joined:
  assumes "starts_char (strip_ws s)"
  shows "starts_char (joined_span cjk lastp nl ty (strip_ws s))"
proof -
  have "starts_char '' ''" by code_simp
  then show ?thesis using assms starts_char_prefix [OF assms, of "butlast (strip_ws s)"] starts_char_append [OF assms, of "'' ''"]
    by (auto simp: joined_span_def starts_char_def [of "[]"] prefixeq_butlast)
qed

text \<open>What a line shows: its spans in order, less a hyphen at its end\<close>

definition line_shown :: "(span \<Rightarrow> string) \<Rightarrow> bool \<Rightarrow> bool \<Rightarrow> span list \<Rightarrow> string" where
  "line_shown src cjk nl sps =
     (let t = concat (map (\<lambda>sp. dense (src sp)) sps)
      in if sps \<noteq> [] \<and> cut_hyphen cjk nl (sp_type (last sps)) (src (last sps)) then butlast t else t)"

definition piece_of :: "(span \<Rightarrow> string res) \<Rightarrow> (span \<Rightarrow> string) \<Rightarrow> span \<Rightarrow> span \<Rightarrow> bool" where
  "piece_of piece src sp sp' \<longleftrightarrow>
     piece sp' = Inr (src sp) \<and> sp_type sp' = sp_type sp \<and> (joinable (sp_type sp) \<or> src sp = []) \<and> utf8 (src sp)"

lemma span_texts_shown:
  assumes "span_texts piece cjk nl (map h sps) = Inr s" and "\<forall>sp\<in>set sps. piece_of piece src sp (h sp)"
  shows "dense s = line_shown src cjk nl sps \<and> starts_char s"
  using assms
proof (induction sps arbitrary: s)
  case Nil
  then show ?case by (simp add: line_shown_def starts_char_def)
next
  case (Cons sp sps)
  let ?j = "joined_span cjk (sps = []) nl (sp_type sp) (strip_ws (src sp))"
  have sp: "piece_of piece src sp (h sp)" using Cons.prems(2) by simp
  then obtain t where t: "span_texts piece cjk nl (map h sps) = Inr t" "s = ?j @ t"
    using Cons.prems(1) by (auto simp: bindR_eq_Inr piece_of_def)
  have IH: "dense t = line_shown src cjk nl sps" "starts_char t" using Cons.IH [OF t(1)] Cons.prems(2) by auto
  have d: "dense ?j = (if sps = [] \<and> cut_hyphen cjk nl (sp_type sp) (src sp) then butlast (dense (src sp)) else dense (src sp))"
    using sp by (intro dense_joined) (simp add: piece_of_def)
  have "starts_char ?j" using sp by (intro starts_joined starts_strip) (simp add: piece_of_def)
  then have start: "starts_char s" using t(2) IH(2) by (simp add: starts_char_append)
  have full: "concat (map (\<lambda>sp. dense (src sp)) sps) \<noteq> []"
    if "sps \<noteq> []" "cut_hyphen cjk nl (sp_type (last sps)) (src (last sps))"
    using that dense_hyphen [of "src (last sps)"] last_in_set [OF that(1)] by (force simp: cut_hyphen_def)
  show ?case
  proof (cases "sps = []")
    case True
    then show ?thesis using start t d IH by (simp add: line_shown_def dense_append)
  next
    case False
    then show ?thesis using start t d IH full 
      by (simp add: line_shown_def dense_append Let_def butlast_append del: concat_eq_Nil_conv Nil_eq_concat_conv)
  qed
qed

lemma span_texts_total:
  "\<forall>sp\<in>set sps. \<exists>c. piece sp = Inr c \<Longrightarrow> \<exists>s. span_texts piece cjk nl sps = Inr s"
  by (induction sps) auto

section \<open>Half-width spans\<close>

definition half_of :: "span \<Rightarrow> span" where
  "half_of sp =
     (if sp_type sp = ''text'' then sp\<lparr>sp_content := map_option full_to_half_exclude_marks (sp_content sp)\<rparr> else sp)"

definition half_line :: "line \<Rightarrow> line" where
  "half_line l = l\<lparr>ln_spans := map half_of (ln_spans l)\<rparr>"

lemma half_of_simps [simp]: "sp_type (half_of sp) = sp_type sp" "sp_image (half_of sp) = sp_image sp"
  by (simp_all add: half_of_def)

lemma half_line_start [simp]: "ln_start (half_line l) = ln_start l" "ln_spans (half_line l) = map half_of (ln_spans l)"
  by (simp_all add: half_line_def)

definition with_content :: "span \<Rightarrow> bool" where
  "with_content sp \<longleftrightarrow> sp_type sp = ''text'' \<longrightarrow> sp_content sp \<noteq> None"

lemma half_span_ok: "with_content sp \<Longrightarrow> half_span sp = Inr (half_of sp)"
  by (auto simp: half_span_def half_of_def with_content_def)

lemma mapR_total: "(\<And>x. x \<in> set xs \<Longrightarrow> f x = Inr (g x)) \<Longrightarrow> mapR f xs = Inr (map g xs)"
  by (induction xs) auto

lemma half_lines_ok:
  assumes "\<forall>sp\<in>set (all_spans ls). with_content sp"
  shows "half_lines ls = Inr (map half_line ls)"
  unfolding half_lines_def
proof (rule mapR_total)
  fix l assume "l \<in> set ls"
  with assms have "\<forall>sp\<in>set (ln_spans l). with_content sp" by (auto simp: all_spans_def)
  then have "mapR half_span (ln_spans l) = Inr (map half_of (ln_spans l))"
    by (intro mapR_total half_span_ok) simp
  then show "bindR (mapR half_span (ln_spans l)) (\<lambda>sps. Inr (l\<lparr>ln_spans := sps\<rparr>)) = Inr (half_line l)"
    by (simp add: half_line_def)
qed

lemma all_spans_simps [simp]: "all_spans [] = []" "all_spans (l # ls) = ln_spans l @ all_spans ls"
  by (simp_all add: all_spans_def)

lemma all_spans_half: "all_spans (map half_line ls) = map half_of (all_spans ls)"
  by (induction ls) simp_all

text \<open>The detector answers.\<close>

definition detects :: "mk_env \<Rightarrow> bool" where
  "detects env \<longleftrightarrow> (\<forall>t. \<exists>l. me_detect env t = Inr l)"

lemma detect_lang_total: "detects env \<Longrightarrow> \<exists>l. detect_lang env t = Inr l"
  by (auto simp: detects_def detect_lang_def Let_def split: sum.splits) (metis Inl_Inr_False)

text \<open>A later line begins with a text in lower case.\<close>

definition low_start :: "mk_env \<Rightarrow> line \<Rightarrow> bool" where
  "low_start env l \<longleftrightarrow>
     (case ln_spans l of
        [] \<Rightarrow> False
      | sp # _ \<Rightarrow>
          sp_type sp = ''text'' \<and> first_lower env (full_to_half_exclude_marks (get_text (sp_content sp))))"

lemma half_empty [simp]: "full_to_half_exclude_marks [] = []"
  by (simp add: full_to_half_exclude_marks_def)

lemma next_lower_half: "next_lower env (map half_line ls) \<longleftrightarrow> ls \<noteq> [] \<and> low_start env (hd ls)"
  by (cases ls) (auto simp: next_lower_def low_start_def half_of_def get_text_def split: list.splits option.splits)

text \<open>What a paragraph shows\<close>

fun lines_shown :: "mk_env \<Rightarrow> (span \<Rightarrow> string) \<Rightarrow> bool \<Rightarrow> line list \<Rightarrow> string" where
  "lines_shown env src cjk [] = []"
| "lines_shown env src cjk (l # ls) =
     line_shown src cjk (ls \<noteq> [] \<and> low_start env (hd ls)) (ln_spans l) @ lines_shown env src cjk ls"

section \<open>The writer of the vision-model backend\<close>

definition vlm_source :: "mk_env \<Rightarrow> bool \<Rightarrow> string \<Rightarrow> span \<Rightarrow> string" where
  "vlm_source env formula bucket sp =
     (let c = get_text (sp_content sp)
      in if sp_type sp = ''text'' then full_to_half_exclude_marks c
         else if sp_type sp = ''inline_equation'' then inline_math env c
         else if sp_type sp = ''interline_equation''
         then if formula then display_math env c
              else if get_text (sp_image sp) \<noteq> [] then image_link bucket (get_text (sp_image sp)) else []
         else [])"

definition vlm_ready :: "bool \<Rightarrow> span \<Rightarrow> bool" where
  "vlm_ready formula sp \<longleftrightarrow>
     sp_type sp \<in> {''text'', ''inline_equation''} \<or> (sp_type sp = ''interline_equation'' \<and> formula)
       \<longrightarrow> sp_content sp \<noteq> None"

lemma vlm_piece_ok:
  assumes "vlm_ready formula sp"
  shows "MkVlm.span_piece env formula bucket (half_of sp) = Inr (vlm_source env formula bucket sp)"
  using assms
  by (auto simp: MkVlm.span_piece_def vlm_source_def vlm_ready_def half_of_def get_text_def Let_def)

lemma vlm_piece:
  assumes "vlm_ready formula sp" and "utf8 (vlm_source env formula bucket sp)"
  shows "piece_of (MkVlm.span_piece env formula bucket) (vlm_source env formula bucket) sp (half_of sp)"
  using assms vlm_piece_ok [OF assms(1)]
  by (auto simp: piece_of_def vlm_source_def joinable_def Let_def)

lemma vlm_lines_shown:
  assumes "MkVlm.line_texts env piece cjk (map half_line ls) = Inr s"
    and "\<forall>sp\<in>set (all_spans ls). piece_of piece src sp (half_of sp)"
  shows "dense s = lines_shown env src cjk ls \<and> starts_char s"
  using assms
proof (induction ls arbitrary: s)
  case Nil
  then show ?case by (simp add: starts_char_def)
next
  case (Cons l ls)
  from Cons.prems(1) obtain u t where u:
      "span_texts piece cjk (next_lower env (map half_line ls)) (map half_of (ln_spans l)) = Inr u"
      "MkVlm.line_texts env piece cjk (map half_line ls) = Inr t" "s = u @ t"
    by (auto simp: bindR_eq_Inr)
  have "dense u = line_shown src cjk (ls \<noteq> [] \<and> low_start env (hd ls)) (ln_spans l) \<and> starts_char u"
    using span_texts_shown [OF u(1), where src = src] Cons.prems(2) by (simp add: next_lower_half)
  with Cons.IH [OF u(2)] Cons.prems(2) u(3) show ?case by (simp add: dense_append starts_char_append)
qed

lemma vlm_lines_total:
  assumes "\<forall>sp\<in>set (all_spans ls). \<exists>c. piece (half_of sp) = Inr c"
  shows "\<exists>s. MkVlm.line_texts env piece cjk (map half_line ls) = Inr s"
  using assms
proof (induction ls)
  case (Cons l ls)
  from Cons.prems have "\<forall>sp\<in>set (map half_of (ln_spans l)). \<exists>c. piece sp = Inr c"
    by auto
  from span_texts_total [OF this, of cjk "next_lower env (map half_line ls)"] obtain u where
    "span_texts piece cjk (next_lower env (map half_line ls)) (map half_of (ln_spans l)) = Inr u" ..
  with Cons show ?case by auto
qed simp

text \<open>C39: while the language detector answers, the text of a block whose text and formula spans have contents is
  made without an exception.  White space apart (that of Unicode as well) it is the texts of its spans in order (full-width
  letters and digits turned to ASCII, formulas in their delimiters), less exactly those hyphens that stand behind a letter at the
  end of a line whose last span is text, in a language written with blanks, before a line that starts in lower case.
\<close>

theorem vlm_text_kept:
  assumes "detects env" and "bk_lines b = Some ls"
    and "\<forall>sp\<in>set (all_spans ls). vlm_ready formula sp \<and> utf8 (vlm_source env formula bucket sp)"
  shows "\<exists>s lang. MkVlm.merge_para_with_text env formula bucket b = Inr s
       \<and> detect_lang env (block_text (map half_line ls)) = Inr lang
       \<and> dense s = lines_shown env (vlm_source env formula bucket) (lang \<in> set cjk_langs) ls"
proof -
  have half: "half_lines ls = Inr (map half_line ls)"
    using assms(3) by (intro half_lines_ok) (auto simp: vlm_ready_def with_content_def)
  have pieces: "\<forall>sp\<in>set (all_spans ls).
      piece_of (MkVlm.span_piece env formula bucket) (vlm_source env formula bucket) sp (half_of sp)"
    using assms(3) vlm_piece by blast
  obtain lang where lang: "detect_lang env (block_text (map half_line ls)) = Inr lang"
    using detect_lang_total [OF assms(1)] by blast
  obtain s where s: "MkVlm.line_texts env (MkVlm.span_piece env formula bucket) (lang \<in> set cjk_langs)
      (map half_line ls) = Inr s"
    using vlm_lines_total [of ls "MkVlm.span_piece env formula bucket"] pieces unfolding piece_of_def by blast
  then have "MkVlm.merge_para_with_text env formula bucket b = Inr s"
    using half lang assms(2) by (simp add: MkVlm.merge_para_with_text_def lines_of_def)
  then show ?thesis
    using lang vlm_lines_shown [OF s pieces] by blast
qed

definition demo_env :: mk_env where
  "demo_env = \<lparr>me_detect = (\<lambda>t. Inr ''EN''), me_printable = (\<lambda>t. t), me_wide_lower = (\<lambda>t. False),
     me_delimiters = None, me_formula = True, me_table = True\<rparr>"

definition text_span :: "string \<Rightarrow> span" where
  "text_span c = \<lparr>sp_type = ''text'', sp_content = Some c, sp_html = None, sp_image = None\<rparr>"

definition line_of :: "span list \<Rightarrow> line" where
  "line_of sps = \<lparr>ln_spans = sps, ln_start = False\<rparr>"

definition demo_lines :: "line list" where
  "demo_lines = [line_of [text_span ''A well-hyphen-''], line_of [text_span ''ated word'']]"

definition demo_block :: block where
  "demo_block = \<lparr>bk_type = ''text'', bk_lines = Some demo_lines, bk_cross = False, bk_deleted = False\<rparr>"

lemma vlm_text_kept_witness:
  "\<exists>s. MkVlm.merge_para_with_text demo_env True [] demo_block = Inr s \<and> dense s = ''Awell-hyphenatedword''"
proof -
  have ready: "list_all (\<lambda>sp. vlm_ready True sp \<and> utf8 (vlm_source demo_env True [] sp)) (all_spans demo_lines)"
    by code_simp
  have "detects demo_env" "bk_lines demo_block = Some demo_lines"
      "\<forall>sp\<in>set (all_spans demo_lines). vlm_ready True sp \<and> utf8 (vlm_source demo_env True [] sp)"
    using ready by (simp_all add: demo_env_def detects_def demo_block_def list_all_iff)
  from vlm_text_kept [OF this] obtain s lang where
    s: "MkVlm.merge_para_with_text demo_env True [] demo_block = Inr s"
    "detect_lang demo_env (block_text (map half_line demo_lines)) = Inr lang"
    "dense s = lines_shown demo_env (vlm_source demo_env True []) (lang \<in> set cjk_langs) demo_lines" by blast
  have "detect_lang demo_env (block_text (map half_line demo_lines)) = Inr ''en''" by code_simp
  moreover have "lines_shown demo_env (vlm_source demo_env True []) (''en'' \<in> set cjk_langs) demo_lines =
      ''Awell-hyphenatedword''" by code_simp
  ultimately show ?thesis using s by (metis sum.inject(2))
qed

section \<open>The writer of the pipeline backend\<close>

definition escaped :: "string \<Rightarrow> string" where
  "escaped s = concat (map (\<lambda>c. if c \<in> set special_chars then [backslash, c] else [c]) s)"

lemma escape_escaped: "escape_special_markdown_char s = escaped s"
  by (induction s)
     (auto simp: escape_special_markdown_char_def escaped_def special_chars_def replace_char_def backslash_def)

definition pipe_source :: "mk_env \<Rightarrow> span \<Rightarrow> string" where
  "pipe_source env sp =
     (let c = get_text (sp_content sp)
      in if sp_type sp = ''text'' then escaped (full_to_half_exclude_marks c)
         else if c = [] then []
         else if sp_type sp = ''inline_equation'' then inline_math env c
         else if sp_type sp = ''interline_equation'' then display_math env c
         else [])"

lemma escaped_Nil [simp]: "escaped [] = []"
  by (simp add: escaped_def)

lemma pipe_piece:
  assumes "with_content sp" and "utf8 (pipe_source env sp)"
  shows "piece_of (MkPipeline.span_piece env) (pipe_source env) sp (half_of sp)"
  using assms
  by (auto simp: piece_of_def MkPipeline.span_piece_def pipe_source_def with_content_def half_of_def get_text_def
      joinable_def escape_escaped Let_def)

lemma item_break_dense: "dense item_break = []" "starts_char item_break"
  by code_simp+

lemma pipe_lines_shown:
  assumes "MkPipeline.line_texts env cjk hd1 (map half_line ls) = Inr s"
    and "\<forall>sp\<in>set (all_spans ls). piece_of (MkPipeline.span_piece env) src sp (half_of sp)"
  shows "dense s = lines_shown env src cjk ls \<and> starts_char s"
  using assms
proof (induction ls arbitrary: s hd1)
  case Nil
  then show ?case by (simp add: starts_char_def)
next
  case (Cons l ls)
  from Cons.prems(1) obtain u t where u:
      "span_texts (MkPipeline.span_piece env) cjk (next_lower env (map half_line ls)) (map half_of (ln_spans l)) = Inr u"
      "MkPipeline.line_texts env cjk False (map half_line ls) = Inr t"
      "s = (if \<not> hd1 \<and> ln_start l then item_break else []) @ u @ t"
    by (auto simp: bindR_eq_Inr)
  have "dense u = line_shown src cjk (ls \<noteq> [] \<and> low_start env (hd ls)) (ln_spans l) \<and> starts_char u"
    using span_texts_shown [OF u(1), where src = src] Cons.prems(2) by (simp add: next_lower_half)
  with Cons.IH [OF u(2)] Cons.prems(2) u(3) item_break_dense show ?case
    by (simp add: dense_append starts_char_append)
qed

lemma pipe_lines_total:
  assumes "\<forall>sp\<in>set (all_spans ls). piece_of (MkPipeline.span_piece env) src sp (half_of sp)"
  shows "\<exists>s. MkPipeline.line_texts env cjk hd1 (map half_line ls) = Inr s"
  using assms
proof (induction ls arbitrary: hd1)
  case (Cons l ls)
  from Cons.prems have "\<forall>sp\<in>set (map half_of (ln_spans l)). \<exists>c. MkPipeline.span_piece env sp = Inr c"
    by (auto simp: piece_of_def)
  from span_texts_total [OF this, of cjk "next_lower env (map half_line ls)"] obtain u where
    "span_texts (MkPipeline.span_piece env) cjk (next_lower env (map half_line ls))
       (map half_of (ln_spans l)) = Inr u" ..
  with Cons.prems Cons.IH [of False] show ?case by auto
qed simp

text \<open>The same of the pipeline's writer, where every character Markdown gives a meaning is written behind
  one backslash and formulas without contents are left out.
\<close>

theorem pipeline_text_kept:
  assumes "detects env" and "bk_lines b = Some ls"
    and "\<forall>sp\<in>set (all_spans ls). with_content sp \<and> utf8 (pipe_source env sp)"
  shows "\<exists>s lang. MkPipeline.merge_para_with_text env b = Inr s
       \<and> detect_lang env (block_text (map half_line ls)) = Inr lang
       \<and> dense s = lines_shown env (pipe_source env) (lang \<in> set cjk_langs) ls"
proof -
  have ok: "\<forall>sp\<in>set (all_spans ls). with_content sp" using assms(3) by blast
  have pieces: "\<forall>sp\<in>set (all_spans ls). piece_of (MkPipeline.span_piece env) (pipe_source env) sp (half_of sp)"
    using assms(3) pipe_piece by blast
  obtain lang where lang: "detect_lang env (block_text (map half_line ls)) = Inr lang"
    using detect_lang_total [OF assms(1)] by blast
  obtain s where s: "MkPipeline.line_texts env (lang \<in> set cjk_langs) True (map half_line ls) = Inr s"
    using pipe_lines_total [OF pieces] by blast
  then have "MkPipeline.merge_para_with_text env b = Inr s"
    using half_lines_ok [OF ok] lang assms(2) by (simp add: MkPipeline.merge_para_with_text_def lines_of_def)
  then show ?thesis
    using lang pipe_lines_shown [OF s pieces] by blast
qed

definition star_lines :: "line list" where
  "star_lines = [line_of [text_span ''2 * 3'']]"

lemma pipeline_text_kept_witness:
  "\<exists>s. MkPipeline.merge_para_with_text demo_env (demo_block\<lparr>bk_lines := Some star_lines\<rparr>) = Inr s
     \<and> dense s = ''2'' @ [backslash] @ ''*3''"
proof -
  let ?b = "demo_block\<lparr>bk_lines := Some star_lines\<rparr>"
  have ready: "list_all (\<lambda>sp. with_content sp \<and> utf8 (pipe_source demo_env sp)) (all_spans star_lines)"
    by code_simp
  have "detects demo_env" "bk_lines ?b = Some star_lines"
      "\<forall>sp\<in>set (all_spans star_lines). with_content sp \<and> utf8 (pipe_source demo_env sp)"
    using ready by (simp_all add: demo_env_def detects_def list_all_iff)
  from pipeline_text_kept [OF this] obtain s lang where
    s: "MkPipeline.merge_para_with_text demo_env ?b = Inr s"
    "detect_lang demo_env (block_text (map half_line star_lines)) = Inr lang"
    "dense s = lines_shown demo_env (pipe_source demo_env) (lang \<in> set cjk_langs) star_lines" by blast
  have "detect_lang demo_env (block_text (map half_line star_lines)) = Inr ''en''" by code_simp
  moreover have "lines_shown demo_env (pipe_source demo_env) (''en'' \<in> set cjk_langs) star_lines =
      ''2'' @ [backslash] @ ''*3''" by code_simp
  ultimately show ?thesis using s by (metis sum.inject(2))
qed

section \<open>The content list\<close>

text \<open>The type of the entry of a block\<close>

definition vlm_entry_type :: "para \<Rightarrow> string option" where
  "vlm_entry_type p =
     (let ty = bk_type p
      in if ty = ''title'' then Some ''text''
         else if ty = ''interline_equation'' then Some ''equation''
         else if ty \<in> {''text'', ''ref_text'', ''phonetic'', ''header'', ''footer'', ''page_number'', ''aside_text'',
                  ''page_footnote'', ''list'', ''image'', ''table'', ''code''} then Some ty
         else None)"

definition type_entry :: "pydict \<Rightarrow> string option" where
  "type_entry d = (case dget d ''type'' of Some (PStr t) \<Rightarrow> Some t | _ \<Rightarrow> None)"

lemma type_entry_simps [simp]:
  "type_entry [] = None"
  "type_entry ((''type'', PStr t) # d) = Some t"
  "k \<noteq> ''type'' \<Longrightarrow> type_entry (dset k v d) = type_entry d"
  "k \<noteq> ''type'' \<Longrightarrow> type_entry (push k v d) = type_entry d"
  by (auto simp: type_entry_def push_def dget_dset split: option.splits pyval.splits)

lemma loop_type:
  assumes "loopR f xs s = Inr s'" and "\<And>x s s'. f x s = Inr s' \<Longrightarrow> type_entry s' = type_entry s"
  shows "type_entry s' = type_entry s"
  using assms(1)
proof (induction xs arbitrary: s)
  case (Cons x xs)
  then obtain t where "f x s = Inr t" "loopR f xs t = Inr s'" by (auto simp: bindR_eq_Inr)
  with Cons.IH assms(2) show ?case by metis
qed simp

lemma fold_type [simp]:
  assumes "\<And>x d. type_entry (f x d) = type_entry d"
  shows "type_entry (fold f xs d) = type_entry d"
  by (induction xs arbitrary: d) (simp_all add: assms)

lemma vlm_push_type: "MkVlm.push_text env ty b d = Inr d' \<Longrightarrow> ty \<noteq> ''type'' \<Longrightarrow> type_entry d' = type_entry d"
  by (auto simp: MkVlm.push_text_def bindR_eq_Inr split: if_splits)

lemma vlm_set_type [simp]:
  "type_entry (MkVlm.set_image bucket sp d) = type_entry d" "type_entry (MkVlm.set_html sp d) = type_entry d"
  by (simp_all add: MkVlm.set_image_def MkVlm.set_html_def)

lemma vlm_image_type: "MkVlm.image_entry env bucket b d = Inr d' \<Longrightarrow> type_entry d' = type_entry d"
  by (auto simp: MkVlm.image_entry_def bindR_eq_Inr dest!: vlm_push_type)

lemma vlm_table_type: "MkVlm.table_entry env bucket b d = Inr d' \<Longrightarrow> type_entry d' = type_entry d"
  by (auto simp: MkVlm.table_entry_def bindR_eq_Inr dest!: vlm_push_type)

lemma vlm_code_type: "MkVlm.code_entry env p sub b d = Inr d' \<Longrightarrow> type_entry d' = type_entry d"
  by (auto simp: MkVlm.code_entry_def Let_def bindR_eq_Inr dest!: vlm_push_type split: if_splits)

lemma vlm_list_type: "MkVlm.list_entry env b d = Inr d' \<Longrightarrow> type_entry d' = type_entry d"
  by (auto simp: MkVlm.list_entry_def bindR_eq_Inr split: if_splits)

lemma vlm_loop_types:
  "loopR (MkVlm.list_entry env) bs d = Inr d' \<Longrightarrow> type_entry d' = type_entry d"
  "loopR (MkVlm.image_entry env bucket) bs d = Inr d' \<Longrightarrow> type_entry d' = type_entry d"
  "loopR (MkVlm.table_entry env bucket) bs d = Inr d' \<Longrightarrow> type_entry d' = type_entry d"
  "loopR (MkVlm.code_entry env p sub) bs d = Inr d' \<Longrightarrow> type_entry d' = type_entry d"
  by (erule loop_type; rule vlm_list_type vlm_image_type vlm_table_type vlm_code_type; assumption)+

lemma vlm_para_type:
  assumes "MkVlm.para_entry env bucket p = Inr d"
  shows "type_entry d = vlm_entry_type p"
proof -
  consider "bk_type p = ''list''" | "bk_type p = ''image''" | "bk_type p = ''table''" | "bk_type p = ''code''"
    | "bk_type p \<notin> {''list'', ''image'', ''table'', ''code''}" by blast
  then show ?thesis
  proof cases
    case 5
    with assms show ?thesis
      by (auto simp: MkVlm.para_entry_def vlm_entry_type_def Let_def bindR_eq_Inr split: if_splits)
  qed (use assms in \<open>auto simp: MkVlm.para_entry_def vlm_entry_type_def bindR_eq_Inr
         dest!: vlm_loop_types\<close>)
qed

lemma add_box_type:
  assumes "add_box size_opt box d = Inr d'"
  shows "type_entry d' = type_entry d"
  using assms by (auto simp: add_box_def bindR_eq_Inr split: option.splits prod.splits)

lemma vlm_entry_tags:
  assumes "MkVlm.make_blocks_to_content_list env bucket idx sz p = Inr d"
  shows "type_entry d = vlm_entry_type p \<and> dget d ''page_idx'' = Some (index_val idx)"
  using assms add_box_type vlm_para_type
  by (auto simp: MkVlm.make_blocks_to_content_list_def bindR_eq_Inr dget_dset)

lemma mapR_list_all2: "mapR f xs = Inr ys \<longleftrightarrow> list_all2 (\<lambda>x y. f x = Inr y) xs ys"
  by (induction xs arbitrary: ys) (auto simp: bindR_eq_Inr list_all2_Cons1)

lemma mapR_map_eq:
  assumes "mapR f xs = Inr ys" and "\<And>x y. f x = Inr y \<Longrightarrow> g y = h x"
  shows "map g ys = map h xs"
  using assms(1) by (induction xs arbitrary: ys) (auto simp: bindR_eq_Inr assms(2))

text \<open>
  Blocks the writer can print: the captions, bodies and texts have lines, text and formula spans have contents, a
  paragraph with parts has them, and code says what it is.
\<close>

definition block_ready :: "'a block_scheme \<Rightarrow> bool" where
  "block_ready b \<longleftrightarrow> (\<exists>ls. bk_lines b = Some ls \<and> (\<forall>sp\<in>set (all_spans ls). vlm_ready True sp))"

definition para_ready :: "para \<Rightarrow> bool" where
  "para_ready p \<longleftrightarrow>
     (if bk_type p \<in> {''list'', ''image'', ''table'', ''code''}
      then (\<exists>bs. pa_blocks p = Some bs \<and> (\<forall>b\<in>set bs. block_ready b))
         \<and> (bk_type p = ''code'' \<longrightarrow> pa_sub_type p \<noteq> None \<and> pa_guess p \<noteq> None)
      else block_ready p)"

definition page_ready :: "page \<Rightarrow> bool" where
  "page_ready pg \<longleftrightarrow>
     (\<exists>w h. pg_size pg = Some (w, h) \<and> w \<noteq> 0 \<and> h \<noteq> 0) \<and> (\<forall>p\<in>set (page_blocks pg). para_ready p)"

lemma merge_total:
  assumes "detects env" and "block_ready b"
  shows "\<exists>s. MkVlm.merge_para_with_text env formula bucket b = Inr s"
proof -
  from assms(2) obtain ls where ls: "bk_lines b = Some ls" "\<forall>sp\<in>set (all_spans ls). vlm_ready True sp"
    by (auto simp: block_ready_def)
  then have ready: "\<forall>sp\<in>set (all_spans ls). vlm_ready formula sp" by (auto simp: vlm_ready_def)
  have half: "half_lines ls = Inr (map half_line ls)"
    using ls(2) by (intro half_lines_ok) (auto simp: vlm_ready_def with_content_def)
  obtain lang where "detect_lang env (block_text (map half_line ls)) = Inr lang"
    using detect_lang_total [OF assms(1)] by blast
  moreover have "\<forall>sp\<in>set (all_spans ls). \<exists>c. MkVlm.span_piece env formula bucket (half_of sp) = Inr c"
    using ready vlm_piece_ok by blast
  ultimately show ?thesis using half ls(1) vlm_lines_total
    by (simp add: MkVlm.merge_para_with_text_def lines_of_def)
qed

lemma loopR_total:
  assumes "\<And>x s. x \<in> set xs \<Longrightarrow> \<exists>s'. f x s = Inr s'"
  shows "\<exists>s'. loopR f xs s = Inr s'"
  using assms
proof (induction xs arbitrary: s)
  case (Cons x xs)
  from Cons.prems [of x s] obtain t where "f x s = Inr t" by auto
  with Cons.IH [of t] Cons.prems show ?case by simp
qed simp

lemma mapR_ex:
  assumes "\<And>x. x \<in> set xs \<Longrightarrow> \<exists>y. f x = Inr y"
  shows "\<exists>ys. mapR f xs = Inr ys"
  using assms by (induction xs) (auto, metis bindR_simps(2) list.set_intros(1))

lemma ready_lines: "block_ready b \<Longrightarrow> \<exists>ls. lines_of b = Inr ls"
  by (auto simp: block_ready_def lines_of_def)

lemma body_spans_total:
  assumes "\<And>b. b \<in> set bs \<Longrightarrow> block_ready b"
  shows "\<exists>sps. body_spans bty sty bs = Inr sps"
proof -
  have "\<exists>lss. mapR lines_of (filter (\<lambda>b. bk_type b = bty) bs) = Inr lss"
    by (rule mapR_ex) (use assms ready_lines in auto)
  then show ?thesis by (auto simp: body_spans_def)
qed

lemma push_total: "detects env \<Longrightarrow> block_ready b \<Longrightarrow> \<exists>d'. MkVlm.push_text env ty b d = Inr d'"
  using merge_total [of env b True "[]"] by (auto simp: MkVlm.push_text_def)

lemma entry_totals:
  assumes "detects env" and "block_ready b"
  shows "\<exists>d'. MkVlm.list_entry env b d = Inr d'"
    and "\<exists>d'. MkVlm.image_entry env bucket b d = Inr d'"
    and "\<exists>d'. MkVlm.table_entry env bucket b d = Inr d'"
    and "pa_guess p \<noteq> None \<Longrightarrow> \<exists>d'. MkVlm.code_entry env p sub b d = Inr d'"
proof -
  note push = push_total [OF assms]
  obtain t where t: "MkVlm.merge_para_with_text env True [] b = Inr t" using merge_total [OF assms] by blast
  then show "\<exists>d'. MkVlm.list_entry env b d = Inr d'" by (simp add: MkVlm.list_entry_def)
  have sps: "\<exists>sps. body_spans bty sty [b] = Inr sps" for bty sty
    using assms(2) by (intro body_spans_total) simp
  have two: "\<exists>d2. bindR (MkVlm.push_text env ty1 b d) (MkVlm.push_text env ty2 b) = Inr d2" for ty1 ty2 d
    using push [of ty1 d] push [of ty2] by auto
  show "\<exists>d'. MkVlm.image_entry env bucket b d = Inr d'"
    using sps [of "''image_body''" "''image''"] two by (auto simp: MkVlm.image_entry_def)
  show "\<exists>d'. MkVlm.table_entry env bucket b d = Inr d'"
    using sps [of "''table_body''" "''table''"] two by (auto simp: MkVlm.table_entry_def)
  show "\<exists>d'. MkVlm.code_entry env p sub b d = Inr d'" if "pa_guess p \<noteq> None"
    using that t push [of "''code_caption''"] by (auto simp: MkVlm.code_entry_def Let_def)
qed

lemma para_entry_total:
  assumes "detects env" and "para_ready p"
  shows "\<exists>d. MkVlm.para_entry env bucket p = Inr d"
proof (cases "bk_type p \<in> {''list'', ''image'', ''table'', ''code''}")
  case True
  with assms(2) obtain bs where bs: "pa_blocks p = Some bs" "\<forall>b\<in>set bs. block_ready b"
    "bk_type p = ''code'' \<longrightarrow> pa_sub_type p \<noteq> None \<and> pa_guess p \<noteq> None"
    by (auto simp: para_ready_def)
  have "\<exists>d'. loopR (MkVlm.list_entry env) bs d = Inr d'" "\<exists>d'. loopR (MkVlm.image_entry env bucket) bs d = Inr d'"
    "\<exists>d'. loopR (MkVlm.table_entry env bucket) bs d = Inr d'"
    "pa_guess p \<noteq> None \<Longrightarrow> \<exists>d'. loopR (MkVlm.code_entry env p sub) bs d = Inr d'" for d sub
    using entry_totals [OF assms(1)] bs(2) by (intro loopR_total; blast)+
  with True bs(1,3) show ?thesis by (auto simp: MkVlm.para_entry_def blocks_of_def)
next
  case False
  with assms obtain t where "MkVlm.merge_para_with_text env True [] p = Inr t"
    using merge_total [of env p] by (auto simp: para_ready_def)
  with False show ?thesis by (auto simp: MkVlm.para_entry_def Let_def)
qed

lemma add_box_total: "w \<noteq> 0 \<Longrightarrow> h \<noteq> 0 \<Longrightarrow> \<exists>d'. add_box (Some (w, h)) box d = Inr d'"
  by (auto simp: add_box_def scaled_def split: option.splits)

lemma vlm_entry_total:
  assumes "detects env" and "page_ready pg" and "p \<in> set (page_blocks pg)"
  shows "\<exists>d. MkVlm.make_blocks_to_content_list env bucket (pg_idx pg) (pg_size pg) p = Inr d"
proof -
  have "para_ready p" using assms(2,3) by (simp add: page_ready_def)
  then obtain d where d: "MkVlm.para_entry env bucket p = Inr d" using para_entry_total [OF assms(1)] by blast
  obtain w h where "pg_size pg = Some (w, h)" "w \<noteq> 0" "h \<noteq> 0" using assms(2) by (auto simp: page_ready_def)
  with d add_box_total [of w h "pa_box p" d] show ?thesis by (auto simp: MkVlm.make_blocks_to_content_list_def)
qed

text \<open>C40: while the language detector answers, the content list of pages that are complete (texts have
  their contents, composite blocks their parts, pages a size) is made without an exception, and it has exactly
  one entry for each block of the pages, first the layout and then the discarded blocks of each page, in
  order, each with the type that belongs to its block and the index of its page.
\<close>

theorem content_list_entries:
  assumes "detects env" and "\<forall>pg\<in>set pages. page_ready pg"
  shows "\<exists>es. MkVlm.union_make env ''content_list'' bucket pages = Inr (Entries es)
     \<and> map (\<lambda>d. (type_entry d, dget d ''page_idx'')) es
       = concat (map (\<lambda>pg. map (\<lambda>p. (vlm_entry_type p, Some (index_val (pg_idx pg)))) (page_blocks pg)) pages)"
proof -
  let ?tags = "\<lambda>d. (type_entry d, dget d ''page_idx'')"
  let ?of = "\<lambda>pg. map (\<lambda>p. (vlm_entry_type p, Some (index_val (pg_idx pg)))) (page_blocks pg)"
  have "\<exists>ess. mapR (MkVlm.page_entries env bucket) pages = Inr ess"
    using assms vlm_entry_total unfolding MkVlm.page_entries_def by (intro mapR_ex) blast
  then obtain ess where ess: "mapR (MkVlm.page_entries env bucket) pages = Inr ess" by blast
  have "map (map ?tags) ess = map ?of pages"
    by (rule mapR_map_eq [OF ess(1)]) (auto simp: MkVlm.page_entries_def vlm_entry_tags elim!: mapR_map_eq)
  then have "map ?tags (concat ess) = concat (map ?of pages)" unfolding map_concat by simp
  with ess show ?thesis by (simp add: MkVlm.union_make_def)
qed

definition demo_para :: "string \<Rightarrow> string \<Rightarrow> para" where
  "demo_para ty t = \<lparr>bk_type = ty, bk_lines = Some [line_of [text_span t]], bk_cross = False, bk_deleted = False,
     pa_blocks = None, pa_level = None, pa_sub_type = None, pa_guess = None, pa_box = Some (0, 0, 10, 10)\<rparr>"

lemma page_demo_ready: "ty \<in> {''title'', ''text'', ''footer''} \<Longrightarrow> para_ready (demo_para ty t)"
  by (auto simp: demo_para_def para_ready_def block_ready_def line_of_def text_span_def vlm_ready_def)

definition demo_page :: page where
  "demo_page = \<lparr>pg_paras = Some [demo_para ''title'' ''Head'', demo_para ''text'' ''body''],
     pg_discarded = Some [demo_para ''footer'' ''1''], pg_idx = Some 0, pg_size = Some (100, 200)\<rparr>"

lemma content_list_entries_witness:
  "\<exists>es. MkVlm.union_make demo_env ''content_list'' [] [demo_page] = Inr (Entries es)
     \<and> map type_entry es = [Some ''text'', Some ''text'', Some ''footer'']"
proof -
  have "detects demo_env" "\<forall>pg\<in>set [demo_page]. page_ready pg"
    by (simp add: demo_env_def detects_def)
      (simp add: demo_page_def page_ready_def page_blocks_def layout_blocks_def page_demo_ready)
  from content_list_entries [OF this, of "[]"] obtain es where
    es: "MkVlm.union_make demo_env ''content_list'' [] [demo_page] = Inr (Entries es)"
    "map (\<lambda>d. (type_entry d, dget d ''page_idx'')) es
      = map (\<lambda>p. (vlm_entry_type p, Some (index_val (pg_idx demo_page)))) (page_blocks demo_page)" by auto
  have "map type_entry es = map vlm_entry_type (page_blocks demo_page)"
    using arg_cong [OF es(2), of "map fst"] by (simp add: comp_def)
  then have "map type_entry es = [Some ''text'', Some ''text'', Some ''footer'']"
    by (simp add: demo_page_def page_blocks_def layout_blocks_def demo_para_def vlm_entry_type_def)
  then show ?thesis using es(1) by (intro exI [of _ es] conjI)
qed

section \<open>Markdown for language models\<close>

definition no_media :: "page \<Rightarrow> page" where
  "no_media pg = pg\<lparr>pg_paras := map_option (filter (\<lambda>p. bk_type p \<notin> {''image'', ''table''})) (pg_paras pg)\<rparr>"

lemma layout_no_media: "layout_blocks (no_media pg) = filter (\<lambda>p. bk_type p \<notin> {''image'', ''table''}) (layout_blocks pg)"
  by (cases "pg_paras pg") (simp_all add: layout_blocks_def no_media_def)

lemma vlm_nlp_media: "bk_type p \<in> {''image'', ''table''} \<Longrightarrow> MkVlm.para_markdown env ''nlp_markdown'' bucket p = Inr None"
  by (auto simp: MkVlm.para_markdown_def Let_def)

lemma vlm_mode_text:
  "bk_type p \<notin> {''image'', ''table''} \<Longrightarrow>
     MkVlm.para_markdown env mode bucket p = MkVlm.para_markdown env ''mm_markdown'' bucket p"
  by (simp add: MkVlm.para_markdown_def Let_def)

lemma vlm_nlp_markdown:
  "MkVlm.mk_blocks_to_markdown env ''nlp_markdown'' bucket ps
   = MkVlm.mk_blocks_to_markdown env ''mm_markdown'' bucket (filter (\<lambda>p. bk_type p \<notin> {''image'', ''table''}) ps)"
proof (induction ps)
  case (Cons p ps)
  show ?case
  proof (cases "bk_type p \<in> {''image'', ''table''}")
    case True
    have "bindR (MkVlm.mk_blocks_to_markdown env ''nlp_markdown'' bucket ps) Inr
        = MkVlm.mk_blocks_to_markdown env ''nlp_markdown'' bucket ps" by (simp add: bindR_def split: sum.splits)
    with True Cons vlm_nlp_media [OF True] show ?thesis by auto
  next
    case False
    with Cons vlm_mode_text [OF False, of env "''nlp_markdown''"] show ?thesis by simp
  qed
qed simp

lemma pipe_nlp_media: "bk_type p \<in> {''image'', ''table''} \<Longrightarrow> MkPipeline.para_markdown env ''nlp_markdown'' bucket p = Inr None"
  by (auto simp: MkPipeline.para_markdown_def Let_def)

lemma pipe_mode_text:
  "bk_type p \<notin> {''image'', ''table''} \<Longrightarrow>
     MkPipeline.para_markdown env mode bucket p = MkPipeline.para_markdown env ''mm_markdown'' bucket p"
  by (simp add: MkPipeline.para_markdown_def Let_def)

lemma pipe_nlp_markdown:
  "MkPipeline.make_blocks_to_markdown env ''nlp_markdown'' bucket ps
   = MkPipeline.make_blocks_to_markdown env ''mm_markdown'' bucket (filter (\<lambda>p. bk_type p \<notin> {''image'', ''table''}) ps)"
proof (induction ps)
  case (Cons p ps)
  show ?case
  proof (cases "bk_type p \<in> {''image'', ''table''}")
    case True
    have "bindR (MkPipeline.make_blocks_to_markdown env ''nlp_markdown'' bucket ps) Inr
        = MkPipeline.make_blocks_to_markdown env ''nlp_markdown'' bucket ps" by (simp add: bindR_def split: sum.splits)
    with True Cons pipe_nlp_media [OF True] show ?thesis by auto
  next
    case False
    with Cons pipe_mode_text [OF False, of env "''nlp_markdown''"] show ?thesis by simp
  qed
qed simp

text \<open>In both backends the Markdown without media is, exceptions included, the Markdown with media of the
  same pages without their image and table blocks.
\<close>

theorem nlp_markdown:
  "MkVlm.union_make env ''nlp_markdown'' bucket pages = MkVlm.union_make env ''mm_markdown'' bucket (map no_media pages)
   \<and> MkPipeline.union_make env ''nlp_markdown'' bucket pages
     = MkPipeline.union_make env ''mm_markdown'' bucket (map no_media pages)"
proof -
  have map: "mapR f (map g xs) = mapR (\<lambda>x. f (g x)) xs" for f :: "page \<Rightarrow> string list res" and g xs
    by (induction xs) simp_all
  show ?thesis
    by (simp add: MkVlm.union_make_def MkPipeline.union_make_def map layout_no_media vlm_nlp_markdown pipe_nlp_markdown)
qed

section \<open>A hyphen before a blank\<close>

definition plain :: "string \<Rightarrow> bool" where
  "plain s \<longleftrightarrow> s \<noteq> [] \<and> list_all is_alpha s"

lemma half_ascii: "CHR 0xEF \<notin> set s \<Longrightarrow> half_with P s = s"
  by (induction P s rule: half_with.induct) auto

lemma alpha_char: "is_alpha c \<Longrightarrow> c \<noteq> CHR 0xEF \<and> \<not> is_space c \<and> code c < 128 \<and> \<not> is_continuation c"
  by (auto simp: is_alpha_def is_space_def is_continuation_def) (simp_all add: code_def)

lemma not_alpha_dash: "is_alpha c \<Longrightarrow> c \<noteq> CHR ''-''"
  by (auto simp: is_alpha_def code_def)

lemma half_plain: "list_all is_alpha w \<Longrightarrow> CHR 0xEF \<notin> set r \<Longrightarrow> full_to_half_exclude_marks (w @ r) = w @ r"
  unfolding full_to_half_exclude_marks_def by (rule half_ascii) (auto simp: list_all_iff dest!: bspec alpha_char)

lemma points_ascii: "\<forall>c\<in>set s. \<not> is_continuation c \<Longrightarrow> code_points s = map (\<lambda>c. [c]) s"
  by (induction s) (auto split: list.splits)

lemma strip_plain:
  assumes "plain w" and "r \<noteq> [] \<longrightarrow> \<not> is_space (last r) \<and> code (last r) < 128"
  shows "strip_ws (w @ r) = w @ r" and "strip_ws (w @ r @ '' '') = w @ r"
proof -
  from assms(1) obtain c v where w: "w = c # v" "is_alpha c" by (cases w) (auto simp: plain_def)
  have "is_alpha (last w)" using assms(1) by (simp add: plain_def list_all_iff)
  then have "\<not> is_space (last (w @ r)) \<and> code (last (w @ r)) < 128"
    using assms alpha_char by (cases "r = []") auto
  then have "ws_tail (w @ r) = 0" using w by (simp add: ws_tail_def)
  then have r: "rstrip_ws (w @ r) = w @ r" by (subst rstrip_ws.simps) simp
  moreover have "rstrip_ws (w @ r @ '' '') = w @ r"
    using r w by (subst rstrip_ws.simps) (simp add: ws_tail_def is_space_def code_def)
  moreover have "lstrip_ws (w @ u) = w @ u" for u
    using alpha_char [OF w(2)] w(1) by (subst lstrip_ws.simps) (simp add: ws_head_def)
  ultimately show "strip_ws (w @ r) = w @ r" "strip_ws (w @ r @ '' '') = w @ r"
    by (simp_all add: strip_ws_def)
qed

lemma hyphen_plain:
  assumes "plain w"
  shows "is_hyphen_at_line_end (w @ ''-'')" and "is_hyphen_at_line_end (w @ ''- '')"
    and "\<not> is_hyphen_at_line_end w"
proof -
  from assms obtain u c where w: "w = u @ [c]" "is_alpha c"
    by (cases w rule: rev_cases) (auto simp: plain_def)
  have "strip_ws (w @ ''-'') = w @ ''-''" "strip_ws (w @ ''- '') = w @ ''-''" "strip_ws w = w"
    using strip_plain [OF assms, of "''-''"] strip_plain(1) [OF assms, of "[]"]
    by (simp_all add: is_space_def code_def)
  note r = this
  have dash: "rstrip_ws (w @ ''-'') = w @ ''-''" by (metis r(1) rstrip_strip)
  moreover have "rstrip_ws (w @ ''- '') = rstrip_ws (w @ ''-'')"
    by (subst rstrip_ws.simps) (simp add: ws_tail_def is_space_def code_def)
  moreover have "rstrip_ws w = w" by (metis r(3) rstrip_strip)
  ultimately show "is_hyphen_at_line_end (w @ ''-'')" "is_hyphen_at_line_end (w @ ''- '')"
    "\<not> is_hyphen_at_line_end w"
    using w not_alpha_dash [OF w(2)] by (auto simp: is_hyphen_at_line_end_def split: list.splits)
qed

text \<open>
  A word broken over two lines, with a blank behind the hyphen: the first writer joins the word, its second version takes
  the blank off and keeps the hyphen inside the word.
\<close>

theorem v2_keeps_hyphen:
  assumes w: "plain w" and x: "plain x" "97 \<le> code (hd x)"
    and lang: "\<And>t. me_detect env t = Inr l" "lower l \<notin> set cjk_langs"
    and b: "bk_type b = ''text''"
      "bk_lines b = Some [line_of [text_span (w @ ''- '')], line_of [text_span x]]"
  shows "MkVlm.merge_para_with_text env formula bucket b = Inr (w @ x @ '' '')
       \<and> merge_para_with_text_v2 env b = Inr [(''text'', w @ ''-'' @ x @ '' '')]"
proof -
  let ?ls = "[line_of [text_span (w @ ''- '')], line_of [text_span x]]"
  have low: "first_lower env x" using x by (cases x) (auto simp: first_lower_def plain_def is_alpha_def)
  have "full_to_half_exclude_marks (w @ ''- '') = w @ ''- ''" "full_to_half_exclude_marks x = x"
    using half_plain [of w "''- ''"] half_plain [of x "[]"] w x by (simp_all add: plain_def)
  then have half: "half_lines ?ls = Inr ?ls"
    by (simp add: half_lines_def half_span_def line_of_def text_span_def)
  obtain l' where l': "detect_lang env (block_text ?ls) = Inr l'" "l' \<notin> set cjk_langs"
    by (rule that [of "if block_text ?ls = [] then [] else lower l"])
       (use lang in \<open>simp_all add: detect_lang_def Let_def\<close>, simp add: cjk_langs_def)
  have strips: "strip_ws (w @ ''- '') = w @ ''-''" "strip_ws x = x" "w \<noteq> []" "x \<noteq> []"
    using strip_plain(2) [OF w, of "''-''"] strip_plain(1) [OF x(1), of "[]"] w x
    by (simp_all add: is_space_def code_def plain_def)
  have pts: "drop_last_char (w @ ''- '') = w @ ''-''"
  proof -
    have "\<forall>c\<in>set (w @ ''- ''). \<not> is_continuation c"
      using w alpha_char by (auto simp: plain_def list_all_iff is_continuation_def code_def)
    then show ?thesis by (simp add: drop_last_char_def points_ascii butlast_append comp_def)
  qed
  have nl: "next_lower env [line_of [text_span x]]"
    using low by (simp add: next_lower_def line_of_def text_span_def get_text_def)
  show ?thesis
    using half l' strips pts nl hyphen_plain [OF w] hyphen_plain(3) [OF x(1)] b
    by (simp add: MkVlm.merge_para_with_text_def merge_para_with_text_v2_def lines_of_def line_of_def text_span_def
        MkVlm.span_piece_def joined_span_def v2_span_def v2_text_def add_v2_text_def get_text_def next_lower_def
        butlast_append)
qed

end
