(* ===== verification/Tables.thy ===== *)
theory Tables
  imports MkVlm
begin

text \<open>
  Merging tables that run over a page break (\<^verbatim>\<open>MinerU/mineru/utils/table_merge.py\<close>).  A parsed table is its
  rows of cells and the place behind the last row of its first body (or of the table), where rows are appended.
  Parsing and printing of HTML are parameters.  The half-width form the caption test writes back into the spans is not kept: the
  writers make it again.
\<close>

section \<open>Tables\<close>

record tcell =
  tc_colspan :: "string option"
  tc_rowspan :: "string option"
  tc_text :: string

type_synonym trow = "tcell list"

record htable =
  ht_rows :: "trow list"
  ht_end :: "nat option"

record table_env =
  te_mk :: mk_env
  te_parse :: "string \<Rightarrow> htable"
  te_render :: "htable \<Rightarrow> string"

text \<open>\<open>int(cell.get("colspan", 1))\<close>\<close>

definition span_num :: "string option \<Rightarrow> int res" where
  "span_num ov =
     (case ov of
        None \<Rightarrow> Inr 1
      | Some s \<Rightarrow>
          (case int_of_str s of
             None \<Rightarrow> Inl (Exc ValueErr (''invalid literal for int() with base 10: '' @ repr_str s))
           | Some n \<Rightarrow> Inr n))"

abbreviation colspan :: "tcell \<Rightarrow> int res" where
  "colspan c \<equiv> span_num (tc_colspan c)"

abbreviation rowspan :: "tcell \<Rightarrow> int res" where
  "rowspan c \<equiv> span_num (tc_rowspan c)"

section \<open>Columns\<close>

text \<open>The places taken by the cells so far are pairs of a row and a column.\<close>

type_synonym places = "(int \<times> int) list"

function free_col :: "places \<Rightarrow> int \<Rightarrow> int \<Rightarrow> int" where
  "free_col occ r c = (if (r, c) \<in> set occ then free_col occ r (c + 1) else c)"
  by pat_completeness auto
termination
proof (relation "measure (\<lambda>(occ, r, c). card {p \<in> set occ. c \<le> snd p})", simp, goal_cases)
  case (1 occ r c)
  then have "{p \<in> set occ. c + 1 \<le> snd p} \<subset> {p \<in> set occ. c \<le> snd p}" by force
  then show ?case by (simp add: psubset_card_mono)
qed

declare free_col.simps [simp del]

definition taken :: "int \<Rightarrow> int \<Rightarrow> int \<Rightarrow> int \<Rightarrow> places" where
  "taken r c rs cs = List.product [r..r + rs - 1] [c..c + cs - 1]"

text \<open>The cells of row \<open>r\<close> from column \<open>c\<close> on: the column behind them, the places, and the largest column so far\<close>

fun place_cells :: "int \<Rightarrow> trow \<Rightarrow> int \<times> places \<times> int \<Rightarrow> (int \<times> places \<times> int) res" where
  "place_cells r [] s = Inr s"
| "place_cells r (x # xs) (c, occ, mx) =
     bindR (colspan x) (\<lambda>cs.
     bindR (rowspan x) (\<lambda>rs.
       let c0 = free_col occ r c
       in place_cells r xs (c0 + cs, taken r c0 rs cs @ occ, max mx (c0 + cs))))"

fun total_from :: "int \<Rightarrow> trow list \<Rightarrow> places \<Rightarrow> int \<Rightarrow> int res" where
  "total_from r [] occ mx = Inr mx"
| "total_from r (row # rows) occ mx =
     bindR (place_cells r row (0, occ, mx)) (\<lambda>(c, occ, mx). total_from (r + 1) rows occ mx)"

definition calculate_table_total_columns :: "htable \<Rightarrow> int res" where
  "calculate_table_total_columns t = total_from 0 (ht_rows t) [] 0"

definition row_width :: "places \<Rightarrow> int \<Rightarrow> int" where
  "row_width occ r =
     (let cs = map snd (filter (\<lambda>p. fst p = r) occ) in if cs = [] then 0 else Max (set cs) + 1)"

fun widths_from :: "int \<Rightarrow> trow list \<Rightarrow> places \<Rightarrow> int list res" where
  "widths_from r [] occ = Inr []"
| "widths_from r (row # rows) occ =
     bindR (place_cells r row (0, occ, 0)) (\<lambda>(c, occ, mx).
     bindR (widths_from (r + 1) rows occ) (\<lambda>ws. Inr (row_width occ r # ws)))"

definition build_table_occupied_matrix :: "htable \<Rightarrow> int list res" where
  "build_table_occupied_matrix t = widths_from 0 (ht_rows t) []"

definition width_at :: "int list \<Rightarrow> nat \<Rightarrow> int" where
  "width_at ws i = (if i < length ws then ws ! i else 0)"

definition calculate_row_effective_columns :: "htable \<Rightarrow> nat \<Rightarrow> int res" where
  "calculate_row_effective_columns t i = bindR (build_table_occupied_matrix t) (\<lambda>ws. Inr (width_at ws i))"

definition calculate_row_columns :: "trow \<Rightarrow> int res" where
  "calculate_row_columns row = bindR (mapR colspan row) (\<lambda>cs. Inr (sum_list cs))"

definition calculate_visual_columns :: "trow \<Rightarrow> nat" where
  "calculate_visual_columns row = length row"

section \<open>Headers\<close>

text \<open>\<open>''.join(s.split())\<close>\<close>

function squash :: "string \<Rightarrow> string" where
  "squash s =
     (if s = [] then []
      else if 0 < ws_head s then squash (drop (ws_head s) s)
      else hd s # squash (tl s))"
  by pat_completeness auto
termination
  by (relation "measure length") auto

declare squash.simps [simp del]

definition cell_key :: "tcell \<Rightarrow> string" where
  "cell_key c = squash (full_to_half (tc_text c))"

fun cells_match :: "(tcell \<times> tcell) list \<Rightarrow> bool res" where
  "cells_match [] = Inr True"
| "cells_match ((c1, c2) # cs) =
     bindR (colspan c1) (\<lambda>a1.
     bindR (rowspan c1) (\<lambda>b1.
     bindR (colspan c2) (\<lambda>a2.
     bindR (rowspan c2) (\<lambda>b2.
       if a1 \<noteq> a2 \<or> b1 \<noteq> b2 \<or> cell_key c1 \<noteq> cell_key c2 then Inr False else cells_match cs))))"

definition structure_match :: "int list \<Rightarrow> int list \<Rightarrow> nat \<Rightarrow> trow \<Rightarrow> trow \<Rightarrow> bool res" where
  "structure_match ws1 ws2 i r1 r2 =
     (if length r1 \<noteq> length r2 then Inr False
      else if width_at ws1 i \<noteq> width_at ws2 i then Inr False
      else cells_match (zip r1 r2))"

definition visual_match :: "int list \<Rightarrow> int list \<Rightarrow> nat \<Rightarrow> trow \<Rightarrow> trow \<Rightarrow> bool res" where
  "visual_match ws1 ws2 i r1 r2 =
     Inr (map cell_key r1 = map cell_key r2 \<and> width_at ws1 i = width_at ws2 i)"

definition max_header_rows :: nat where
  "max_header_rows = 5"

text \<open>The number of matching rows before the first that does not match\<close>

fun leading_rows :: "(nat \<Rightarrow> trow \<Rightarrow> trow \<Rightarrow> bool res) \<Rightarrow> nat \<Rightarrow> (trow \<times> trow) list \<Rightarrow> nat res" where
  "leading_rows ok i [] = Inr 0"
| "leading_rows ok i ((r1, r2) # ps) =
     bindR (ok i r1 r2) (\<lambda>b. if b then bindR (leading_rows ok (Suc i) ps) (\<lambda>n. Inr (Suc n)) else Inr 0)"

definition header_texts :: "nat \<Rightarrow> trow list \<Rightarrow> string list list" where
  "header_texts n rows = map (map (\<lambda>c. full_to_half (strip_ws (tc_text c)))) (take n rows)"

definition detect_table_headers_visual :: "htable \<Rightarrow> htable \<Rightarrow> (nat \<times> bool \<times> string list list) res" where
  "detect_table_headers_visual t1 t2 =
     bindR (build_table_occupied_matrix t1) (\<lambda>ws1.
     bindR (build_table_occupied_matrix t2) (\<lambda>ws2.
     bindR (leading_rows (visual_match ws1 ws2) 0 (take max_header_rows (zip (ht_rows t1) (ht_rows t2))))
       (\<lambda>n. Inr (n, n \<noteq> 0, header_texts n (ht_rows t1)))))"

definition detect_table_headers :: "htable \<Rightarrow> htable \<Rightarrow> (nat \<times> bool \<times> string list list) res" where
  "detect_table_headers t1 t2 =
     bindR (build_table_occupied_matrix t1) (\<lambda>ws1.
     bindR (build_table_occupied_matrix t2) (\<lambda>ws2.
     bindR (leading_rows (structure_match ws1 ws2) 0 (take max_header_rows (zip (ht_rows t1) (ht_rows t2))))
       (\<lambda>n.
          if n = 0 then detect_table_headers_visual t1 t2
          else Inr (n, True, header_texts n (ht_rows t1)))))"

section \<open>May two tables be merged?\<close>

definition CONTINUATION_END_MARKERS :: "string list" where
  "CONTINUATION_END_MARKERS =
     [[CHR ''('', CHR 0xE7, CHR 0xBB, CHR 0xAD, CHR '')''],
      [CHR ''('', CHR 0xE7, CHR 0xBB, CHR 0xAD, CHR 0xE8, CHR 0xA1, CHR 0xA8, CHR '')''],
      [CHR ''('', CHR 0xE7, CHR 0xBB, CHR 0xAD, CHR 0xE4, CHR 0xB8, CHR 0x8A, CHR 0xE8, CHR 0xA1, CHR 0xA8, CHR '')''],
      ''(continued)'',
      ''(cont.)'',
      ''(cont'' @ [CHR 0xE2, CHR 0x80, CHR 0x99] @ ''d)'',
      ''('' @ [CHR 0xE2, CHR 0x80, CHR 0xA6] @ ''continued)'',
      [CHR 0xE7, CHR 0xBB, CHR 0xAD, CHR 0xE8, CHR 0xA1, CHR 0xA8]]"

definition CONTINUATION_INLINE_MARKERS :: "string list" where
  "CONTINUATION_INLINE_MARKERS = [''(continued)'']"

definition continues :: "string \<Rightarrow> bool" where
  "continues t \<longleftrightarrow>
     list_ex (\<lambda>m. ends_with t (lower m)) CONTINUATION_END_MARKERS
     \<or> list_ex (\<lambda>m. contains t (lower m)) CONTINUATION_INLINE_MARKERS"

definition caption_continues :: "table_env \<Rightarrow> block \<Rightarrow> bool res" where
  "caption_continues env b =
     bindR (plain_text (te_mk env) b) (\<lambda>t. Inr (continues (lower (full_to_half (strip_ws t)))))"

definition of_type :: "string \<Rightarrow> block list \<Rightarrow> block list" where
  "of_type ty bs = filter (\<lambda>b. bk_type b = ty) bs"

definition captions_allow :: "table_env \<Rightarrow> block list \<Rightarrow> block list \<Rightarrow> bool res" where
  "captions_allow env cur prev =
     (let n = length (of_type ''table_footnote'' prev); caps = of_type ''table_caption'' cur
      in if caps \<noteq> []
         then bindR (anyR (caption_continues env) caps) (\<lambda>b. Inr (b \<and> n \<le> 1))
         else Inr (n = 0))"

text \<open>The first span of a table body that has one\<close>

definition body_head :: "block \<Rightarrow> span option res" where
  "body_head b =
     (if bk_type b = ''table_body''
      then bindR (lines_of b) (\<lambda>ls.
             Inr (case ls of [] \<Rightarrow> None | l # _ \<Rightarrow> (case ln_spans l of [] \<Rightarrow> None | sp # _ \<Rightarrow> Some sp)))
      else Inr None)"

text \<open>The HTML of a table is that of its last body.\<close>

definition table_html :: "block list \<Rightarrow> string res" where
  "table_html bs =
     loopR (\<lambda>b html. bindR (body_head b) (\<lambda>h.
       Inr (case h of None \<Rightarrow> html | Some sp \<Rightarrow> get_text (sp_html sp)))) bs []"

text \<open>
  \<open>abs(w1 - w2) / min(w1, w2) >= 0.1\<close>; on integers below 2^50 the rounding of the quotient does not cross the
  limit.
\<close>

definition widths_differ :: "int \<Rightarrow> int \<Rightarrow> bool res" where
  "widths_differ w1 w2 =
     (let m = min w1 w2
      in if m = 0 then Inl (Exc ZeroDivisionErr ''division by zero'')
         else Inr (0 < m \<and> m \<le> 10 * \<bar>w1 - w2\<bar>))"

definition box_width :: "box \<Rightarrow> int" where
  "box_width b = (let (x0, y0, x1, y1) = b in x1 - x0)"

definition last_filled :: "trow list \<Rightarrow> nat option" where
  "last_filled rows = find (\<lambda>i. rows ! i \<noteq> []) (rev [0..<length rows])"

definition check_rows_match :: "htable \<Rightarrow> htable \<Rightarrow> bool res" where
  "check_rows_match t1 t2 =
     (if ht_rows t1 = [] \<or> ht_rows t2 = [] then Inr False
      else bindR (detect_table_headers t1 t2) (\<lambda>(n, _).
        case last_filled (ht_rows t1) of
          None \<Rightarrow> Inr False
        | Some i \<Rightarrow>
            if length (ht_rows t2) \<le> n then Inr False
            else bindR (calculate_row_effective_columns t1 i) (\<lambda>e1.
                 bindR (calculate_row_effective_columns t2 n) (\<lambda>e2.
                 bindR (calculate_row_columns (ht_rows t1 ! i)) (\<lambda>c1.
                 bindR (calculate_row_columns (ht_rows t2 ! n)) (\<lambda>c2.
                   Inr (e1 = e2 \<or> c1 = c2
                      \<or> calculate_visual_columns (ht_rows t1 ! i) = calculate_visual_columns (ht_rows t2 ! n))))))))"

text \<open>The two parsed tables, the earlier one first, when they may be merged\<close>

definition can_merge_tables :: "table_env \<Rightarrow> para \<Rightarrow> para \<Rightarrow> (htable \<times> htable) option res" where
  "can_merge_tables env cur prev =
     bindR (blocks_of prev) (\<lambda>pbs.
     bindR (blocks_of cur) (\<lambda>cbs.
     bindR (captions_allow env cbs pbs) (\<lambda>ok.
       if \<not> ok then Inr None
       else
         bindR (table_html cbs) (\<lambda>chtml.
         bindR (table_html pbs) (\<lambda>phtml.
           if chtml = [] \<or> phtml = [] then Inr None
           else
             bindR (need ''bbox'' (pa_box cur)) (\<lambda>b1.
             bindR (need ''bbox'' (pa_box prev)) (\<lambda>b2.
             bindR (widths_differ (box_width b1) (box_width b2)) (\<lambda>wide.
               if wide then Inr None
               else
                 let t1 = te_parse env phtml; t2 = te_parse env chtml
                 in bindR (calculate_table_total_columns t1) (\<lambda>n1.
                    bindR (calculate_table_total_columns t2) (\<lambda>n2.
                    bindR (check_rows_match t1 t2) (\<lambda>rm.
                      Inr (if n1 = n2 \<or> rm then Some (t1, t2) else None))))))))))))"

section \<open>Merging\<close>

fun same_colspans :: "(tcell \<times> tcell) list \<Rightarrow> bool res" where
  "same_colspans [] = Inr True"
| "same_colspans ((c1, c2) # cs) =
     bindR (colspan c1) (\<lambda>a. bindR (colspan c2) (\<lambda>b. if a \<noteq> b then Inr False else same_colspans cs))"

definition check_row_columns_match :: "trow \<Rightarrow> trow \<Rightarrow> bool res" where
  "check_row_columns_match r1 r2 = (if length r1 \<noteq> length r2 then Inr False else same_colspans (zip r1 r2))"

definition set_colspan :: "int \<Rightarrow> tcell \<Rightarrow> tcell" where
  "set_colspan n c = c\<lparr>tc_colspan := Some (show_int n)\<rparr>"

text \<open>The colspans of the reference row, where they are more than one\<close>

definition take_structure :: "int list \<Rightarrow> trow \<Rightarrow> trow" where
  "take_structure ref row =
     (if length row \<le> length ref
      then map (\<lambda>(n, c). if 1 < n then set_colspan n c else c) (zip ref row)
      else row)"

definition widen_last :: "int \<Rightarrow> trow \<Rightarrow> trow res" where
  "widen_last diff row =
     (if 0 < diff
      then bindR (colspan (last row)) (\<lambda>n. Inr (butlast row @ [set_colspan (n + diff) (last row)]))
      else Inr row)"

definition adjust_row :: "int list \<Rightarrow> nat \<Rightarrow> int \<Rightarrow> trow \<Rightarrow> int \<Rightarrow> trow \<Rightarrow> trow res" where
  "adjust_row ref visual target refrow width row =
     (if row = [] then Inr row
      else bindR (calculate_row_columns row) (\<lambda>n.
             if target \<le> width \<or> target \<le> n then Inr row
             else bindR (if calculate_visual_columns row = visual then check_row_columns_match row refrow else Inr False)
                    (\<lambda>same. if same then Inr (take_structure ref row) else widen_last (target - width) row)))"

definition adjust_table_rows_colspan ::
  "htable \<Rightarrow> nat \<Rightarrow> int list \<Rightarrow> nat \<Rightarrow> int \<Rightarrow> trow \<Rightarrow> htable res" where
  "adjust_table_rows_colspan t start ref visual target refrow =
     bindR (build_table_occupied_matrix t) (\<lambda>ws.
     bindR (mapR (\<lambda>i. adjust_row ref visual target refrow (width_at ws i) (ht_rows t ! i)) [start..<length (ht_rows t)])
       (\<lambda>rows. Inr (t\<lparr>ht_rows := take start (ht_rows t) @ rows\<rparr>)))"

text \<open>The rows are fitted to the wider table; \<open>n\<close> is the number of header rows.\<close>

definition fit_tables :: "nat \<Rightarrow> htable \<Rightarrow> htable \<Rightarrow> (htable \<times> htable) res" where
  "fit_tables n t1 t2 =
     (let rows1 = ht_rows t1; rows2 = ht_rows t2
      in if rows1 \<noteq> [] \<and> rows2 \<noteq> [] \<and> n < length rows2
         then bindR (calculate_table_total_columns t1) (\<lambda>n1.
              bindR (calculate_table_total_columns t2) (\<lambda>n2.
                if n2 \<le> n1
                then bindR (mapR colspan (last rows1)) (\<lambda>ref.
                     bindR (adjust_table_rows_colspan t2 n ref (calculate_visual_columns (last rows1)) n1 (rows2 ! n))
                       (\<lambda>t2. Inr (t1, t2)))
                else bindR (mapR colspan (rows2 ! n)) (\<lambda>ref.
                     bindR (adjust_table_rows_colspan t1 0 ref (calculate_visual_columns (rows2 ! n)) n2 (last rows1))
                       (\<lambda>t1. Inr (t1, t2)))))
         else Inr (t1, t2))"

definition append_rows :: "htable \<Rightarrow> htable \<Rightarrow> nat \<Rightarrow> htable" where
  "append_rows t1 t2 n =
     (case (ht_end t1, ht_end t2) of
        (Some k, Some _) \<Rightarrow>
          let new = drop n (ht_rows t2)
          in \<lparr>ht_rows = take k (ht_rows t1) @ new @ drop k (ht_rows t1), ht_end = Some (k + length new)\<rparr>
      | _ \<Rightarrow> t1)"

definition perform_table_merge :: "htable \<Rightarrow> htable \<Rightarrow> block list \<Rightarrow> block list \<Rightarrow> (htable \<times> block list) res" where
  "perform_table_merge t1 t2 pbs notes =
     bindR (detect_table_headers t1 t2) (\<lambda>(n, _).
     bindR (fit_tables n t1 t2) (\<lambda>(t1, t2).
       Inr (append_rows t1 t2 n,
            filter (\<lambda>b. bk_type b \<noteq> ''table_footnote'') pbs @ map (\<lambda>b. b\<lparr>bk_cross := True\<rparr>) notes)))"

section \<open>Pages\<close>

definition set_head_html :: "string \<Rightarrow> block \<Rightarrow> block" where
  "set_head_html html b =
     (case bk_lines b of
        Some (l # ls) \<Rightarrow>
          (case ln_spans l of
             sp # sps \<Rightarrow> b\<lparr>bk_lines := Some (l\<lparr>ln_spans := sp\<lparr>sp_html := Some html\<rparr> # sps\<rparr> # ls)\<rparr>
           | [] \<Rightarrow> b)
      | _ \<Rightarrow> b)"

text \<open>The first body with a span gets the merged HTML.\<close>

fun put_html :: "string \<Rightarrow> block list \<Rightarrow> block list res" where
  "put_html html [] = Inr []"
| "put_html html (b # bs) =
     bindR (body_head b) (\<lambda>h.
       case h of
         None \<Rightarrow> bindR (put_html html bs) (\<lambda>bs. Inr (b # bs))
       | Some _ \<Rightarrow> Inr (set_head_html html b # bs))"

definition clear_block :: "block \<Rightarrow> block" where
  "clear_block b = b\<lparr>bk_lines := Some [], bk_deleted := True\<rparr>"

definition merge_pair :: "table_env \<Rightarrow> para \<Rightarrow> para \<Rightarrow> (para \<times> para) res" where
  "merge_pair env prev cur =
     bindR (blocks_of cur) (\<lambda>cbs.
     bindR (can_merge_tables env cur prev) (\<lambda>m.
       case m of
         None \<Rightarrow> Inr (prev, cur)
       | Some (t1, t2) \<Rightarrow>
           bindR (blocks_of prev) (\<lambda>pbs.
           bindR (perform_table_merge t1 t2 pbs (of_type ''table_footnote'' cbs)) (\<lambda>(t, pbs).
           bindR (put_html (te_render env t) pbs) (\<lambda>pbs.
             Inr (prev\<lparr>pa_blocks := Some pbs\<rparr>, cur\<lparr>pa_blocks := Some (map clear_block cbs)\<rparr>))))))"

definition merge_pages :: "table_env \<Rightarrow> page \<Rightarrow> page \<Rightarrow> (page \<times> page) res" where
  "merge_pages env prev cur =
     bindR (need ''para_blocks'' (pg_paras cur)) (\<lambda>cps.
       if cps = [] \<or> bk_type (hd cps) \<noteq> ''table'' then Inr (prev, cur)
       else bindR (need ''para_blocks'' (pg_paras prev)) (\<lambda>pps.
         if pps = [] \<or> bk_type (last pps) \<noteq> ''table'' then Inr (prev, cur)
         else bindR (merge_pair env (last pps) (hd cps)) (\<lambda>(p, c).
                Inr (prev\<lparr>pg_paras := Some (butlast pps @ [p])\<rparr>, cur\<lparr>pg_paras := Some (c # tl cps)\<rparr>))))"

text \<open>From the last page to the first, each page with the one before it\<close>

fun merge_table :: "table_env \<Rightarrow> page list \<Rightarrow> page list res" where
  "merge_table env (p # q # ps) =
     bindR (merge_table env (q # ps)) (\<lambda>rest.
     bindR (merge_pages env p (hd rest)) (\<lambda>(p, q). Inr (p # q # tl rest)))"
| "merge_table env ps = Inr ps"

end
