(* ===== verification/TablesSpec.thy ===== *)
theory TablesSpec
  imports Tables MkSpec
begin

text \<open>
  What the merging of tables over pages promises: the two ways of counting columns agree; a merged table has all rows of
  both, header rows that are repeated apart; rows of a narrow table get the width of the wider one; and over
  all pages no row of a table is lost or invented and nothing but tables changes.
\<close>

section \<open>Counting columns\<close>

definition span_ok :: "string option \<Rightarrow> bool" where
  "span_ok ov \<longleftrightarrow> (\<exists>n. span_num ov = Inr n \<and> 1 \<le> n)"

definition cell_ok :: "tcell \<Rightarrow> bool" where
  "cell_ok c \<longleftrightarrow> span_ok (tc_colspan c) \<and> span_ok (tc_rowspan c)"

definition table_ok :: "htable \<Rightarrow> bool" where
  "table_ok t \<longleftrightarrow> (\<forall>row\<in>set (ht_rows t). \<forall>c\<in>set row. cell_ok c)"

lemma taken_iff: "(a, b) \<in> set (taken r c rs cs) \<longleftrightarrow> r \<le> a \<and> a < r + rs \<and> c \<le> b \<and> b < c + cs"
  by (auto simp: taken_def)

lemma free_col_ge: "c \<le> free_col occ r c"
proof (induction occ r c rule: free_col.induct)
  case (1 occ r c)
  then show ?case by (subst free_col.simps) force
qed

text \<open>The places stay below the largest column, and a new largest column is taken in the row.\<close>

lemma place_cells_columns:
  assumes "\<forall>c\<in>set xs. cell_ok c" and "\<forall>p\<in>set occ. snd p < mx"
  shows "\<exists>c' occ' mx'. place_cells r xs (c, occ, mx) = Inr (c', occ', mx')
       \<and> (\<forall>mx0. \<exists>mx1. place_cells r xs (c, occ, mx0) = Inr (c', occ', mx1))
       \<and> set occ \<subseteq> set occ' \<and> (\<forall>p\<in>set occ'. snd p < mx') \<and> mx \<le> mx' \<and> (mx' = mx \<or> (r, mx' - 1) \<in> set occ')"
  using assms
proof (induction xs arbitrary: c occ mx)
  case (Cons x xs)
  from Cons.prems(1) obtain cs rs where n: "colspan x = Inr cs" "1 \<le> cs" "rowspan x = Inr rs" "1 \<le> rs"
    by (auto simp: cell_ok_def span_ok_def)
  let ?c = "free_col occ r c"
  let ?occ = "taken r ?c rs cs @ occ"
  let ?mx = "max mx (?c + cs)"
  have below: "\<forall>p\<in>set ?occ. snd p < ?mx" using Cons.prems(2) by (auto simp: taken_iff)
  from Cons.IH [OF _ below, of "?c + cs"] Cons.prems(1) obtain c' occ' mx' where
    ih: "place_cells r xs (?c + cs, ?occ, ?mx) = Inr (c', occ', mx')"
      "\<forall>mx0. \<exists>mx1. place_cells r xs (?c + cs, ?occ, mx0) = Inr (c', occ', mx1)"
      "set ?occ \<subseteq> set occ'" "\<forall>p\<in>set occ'. snd p < mx'" "?mx \<le> mx'" "mx' = ?mx \<or> (r, mx' - 1) \<in> set occ'"
    by auto
  have "(r, ?c + cs - 1) \<in> set ?occ" using n by (simp add: taken_iff)
  then have "mx' = mx \<or> (r, mx' - 1) \<in> set occ'" using ih(3,5,6) by (auto simp: max_def split: if_splits)
  moreover have "\<forall>mx0. \<exists>mx1. place_cells r (x # xs) (c, occ, mx0) = Inr (c', occ', mx1)"
    using ih(2) n by (simp add: Let_def)
  ultimately show ?case using ih n by (auto simp: Let_def)
qed auto

lemma row_width_max:
  assumes "\<forall>p\<in>set occ. snd p < mx'" and "mx \<le> mx'" and "mx' = mx \<or> (r, mx' - 1) \<in> set occ" and "0 \<le> mx"
  shows "max mx (row_width occ r) = mx'"
proof (cases "map snd (filter (\<lambda>p. fst p = r) occ) = []")
  case True
  then have "(r, mx' - 1) \<notin> set occ" by (auto simp: filter_empty_conv)
  with assms True show ?thesis by (simp add: row_width_def)
next
  case False
  let ?cs = "map snd (filter (\<lambda>p. fst p = r) occ)"
  have w: "row_width occ r = Max (set ?cs) + 1" using False by (simp add: row_width_def)
  have "Max (set ?cs) \<in> set ?cs" using False by (intro Max_in) (simp_all only: set_empty finite_set not_False_eq_True)
  then have le: "row_width occ r \<le> mx'" using assms(1) w by auto
  show ?thesis
  proof (cases "mx' = mx")
    case True
    with le show ?thesis by simp
  next
    case False
    with assms(3) have "mx' - 1 \<in> set ?cs" by force
    then have "mx' - 1 \<le> Max (set ?cs)" by (intro Max_ge) auto
    with le w assms(2) show ?thesis by simp
  qed
qed

lemma total_widths:
  assumes "\<forall>row\<in>set rows. \<forall>c\<in>set row. cell_ok c" and "\<forall>p\<in>set occ. snd p < mx" and "0 \<le> mx"
  shows "\<exists>ws. widths_from r rows occ = Inr ws \<and> total_from r rows occ mx = Inr (fold max ws mx)
       \<and> length ws = length rows"
  using assms
proof (induction rows arbitrary: r occ mx)
  case (Cons row rows)
  from Cons.prems have "\<forall>c\<in>set row. cell_ok c" by simp
  from place_cells_columns [OF this Cons.prems(2), of r 0] obtain c occ' mx' where
    p: "place_cells r row (0, occ, mx) = Inr (c, occ', mx')"
      "\<forall>mx0. \<exists>mx1. place_cells r row (0, occ, mx0) = Inr (c, occ', mx1)"
      "\<forall>p\<in>set occ'. snd p < mx'" "mx \<le> mx'" "mx' = mx \<or> (r, mx' - 1) \<in> set occ'" by blast
  from p(2) obtain mx1 where p0: "place_cells r row (0, occ, 0) = Inr (c, occ', mx1)" by blast
  have "0 \<le> mx'" using p(4) Cons.prems(3) by simp
  from Cons.IH [OF _ p(3) this, of "r + 1"] Cons.prems(1) obtain ws where
    ws: "widths_from (r + 1) rows occ' = Inr ws" "total_from (r + 1) rows occ' mx' = Inr (fold max ws mx')"
      "length ws = length rows" by auto
  have "max mx (row_width occ' r) = mx'" by (rule row_width_max [OF p(3-5) Cons.prems(3)])
  with p(1) p0 ws show ?case by (simp add: max.commute)
qed simp

lemma total_columns:
  assumes "table_ok t"
  shows "\<exists>ws. build_table_occupied_matrix t = Inr ws \<and> length ws = length (ht_rows t)
       \<and> calculate_table_total_columns t = Inr (Max (insert 0 (set ws)))"
proof -
  from assms total_widths [of "ht_rows t" "[]" 0 0] obtain ws where
    ws: "widths_from 0 (ht_rows t) [] = Inr ws" "total_from 0 (ht_rows t) [] 0 = Inr (fold max ws 0)"
      "length ws = length (ht_rows t)" by (auto simp: table_ok_def)
  have "fold max ws 0 = Max (insert 0 (set ws))" using Max.set_eq_fold [of 0 ws] by simp
  with ws show ?thesis by (simp add: build_table_occupied_matrix_def calculate_table_total_columns_def)
qed

text \<open>C38: on a table whose spans are positive numbers the total number of columns and the effective columns of its
  rows are computed without an exception, there is one width for each row, and the total is the largest of them.
\<close>

theorem columns_agree:
  assumes "table_ok t"
  shows "\<exists>ws. build_table_occupied_matrix t = Inr ws \<and> length ws = length (ht_rows t)
       \<and> calculate_table_total_columns t = Inr (Max (insert 0 (set ws)))"
  using total_columns [OF assms] .

lemma columns_agree_total:
  "table_ok t \<Longrightarrow> \<exists>ws. build_table_occupied_matrix t = Inr ws \<and> (\<exists>n. calculate_table_total_columns t = Inr n)"
  using total_widths [of "ht_rows t" "[]" 0 0]
  by (auto simp: table_ok_def build_table_occupied_matrix_def calculate_table_total_columns_def)

definition cell :: "string \<Rightarrow> tcell" where
  "cell s = \<lparr>tc_colspan = None, tc_rowspan = None, tc_text = s\<rparr>"

lemma cell_ok_cell [simp]: "cell_ok (cell s)"
  by (simp add: cell_ok_def cell_def span_ok_def span_num_def)

definition demo_table :: htable where
  "demo_table = \<lparr>ht_rows = [[cell ''name'', cell ''value''], [cell ''a'', cell ''1'']], ht_end = Some 2\<rparr>"

lemma demo_table_ok: "table_ok demo_table"
  by (simp add: table_ok_def demo_table_def)

lemma columns_agree_witness:
  "\<exists>ws. build_table_occupied_matrix demo_table = Inr ws \<and> calculate_table_total_columns demo_table = Inr (Max (insert 0 (set ws)))"
  using columns_agree [of demo_table] by (auto simp: table_ok_def demo_table_def)

section \<open>Header rows\<close>

definition row_texts :: "htable \<Rightarrow> string list list" where
  "row_texts t = map (map tc_text) (ht_rows t)"

definition text_key :: "string \<Rightarrow> string" where
  "text_key s = squash (full_to_half s)"

definition row_keys :: "htable \<Rightarrow> string list list" where
  "row_keys t = map (map text_key) (row_texts t)"

lemma row_keys_cells: "row_keys t = map (map cell_key) (ht_rows t)"
  by (simp add: row_keys_def row_texts_def cell_key_def text_key_def comp_def)

lemma leading_rows_match:
  assumes "leading_rows ok i ps = Inr n"
  shows "n \<le> length ps \<and> (\<forall>j<n. ok (i + j) (fst (ps ! j)) (snd (ps ! j)) = Inr True)"
  using assms
proof (induction ok i ps arbitrary: n rule: leading_rows.induct)
  case (2 ok i r1 r2 ps)
  from 2(2) obtain b where b: "ok i r1 r2 = Inr b" by (auto simp: bindR_eq_Inr)
  show ?case
  proof (cases b)
    case True
    with 2(2) b obtain m where m: "leading_rows ok (Suc i) ps = Inr m" "n = Suc m" by (auto simp: bindR_eq_Inr)
    from 2(1) [OF b True m(1)] m(2) b True show ?thesis by (auto simp: less_Suc_eq_0_disj)
  next
    case False
    with 2(2) b show ?thesis by simp
  qed
qed simp

lemma cells_match_keys:
  "cells_match (zip r1 r2) = Inr True \<Longrightarrow> length r1 = length r2 \<Longrightarrow> map cell_key r1 = map cell_key r2"
proof (induction "zip r1 r2" arbitrary: r1 r2 rule: cells_match.induct)
  case (2 c1 c2 cs)
  then obtain s1 s2 where r: "r1 = c1 # s1" "r2 = c2 # s2" "cs = zip s1 s2"
    by (cases r1; cases r2) auto
  with 2 show ?case by (auto simp: bindR_eq_Inr split: if_splits)
qed (auto simp: zip_eq_Nil_iff)

lemma structure_keys: "structure_match ws1 ws2 i r1 r2 = Inr True \<Longrightarrow> map cell_key r1 = map cell_key r2"
  by (auto simp: structure_match_def cells_match_keys split: if_splits)

lemma visual_keys: "visual_match ws1 ws2 i r1 r2 = Inr True \<Longrightarrow> map cell_key r1 = map cell_key r2"
  by (simp add: visual_match_def)

lemma leading_keys:
  assumes "leading_rows ok 0 (take max_header_rows (zip rows1 rows2)) = Inr n"
    and "\<And>i r1 r2. ok i r1 r2 = Inr True \<Longrightarrow> map cell_key r1 = map cell_key r2"
  shows "n \<le> 5 \<and> n \<le> length rows1 \<and> n \<le> length rows2
       \<and> (\<forall>j<n. map cell_key (rows1 ! j) = map cell_key (rows2 ! j))"
proof -
  note m = leading_rows_match [OF assms(1)]
  then have n: "n \<le> 5" "n \<le> length rows1" "n \<le> length rows2" by (simp_all add: max_header_rows_def)
  have "map cell_key (rows1 ! j) = map cell_key (rows2 ! j)" if "j < n" for j
    using m n that assms(2) [of j "rows1 ! j" "rows2 ! j"] by (auto simp: max_header_rows_def)
  with n show ?thesis by blast
qed

lemma detect_headers:
  assumes "detect_table_headers t1 t2 = Inr (n, m, txts)"
  shows "n \<le> 5 \<and> n \<le> length (ht_rows t1) \<and> n \<le> length (ht_rows t2)
       \<and> (\<forall>j<n. map cell_key (ht_rows t1 ! j) = map cell_key (ht_rows t2 ! j))"
proof -
  let ?ps = "take max_header_rows (zip (ht_rows t1) (ht_rows t2))"
  from assms obtain ws1 ws2 k where k: "leading_rows (structure_match ws1 ws2) 0 ?ps = Inr k"
    "(if k = 0 then detect_table_headers_visual t1 t2 else Inr (k, True, header_texts k (ht_rows t1))) = Inr (n, m, txts)"
    by (auto simp only: detect_table_headers_def bindR_eq_Inr)
  show ?thesis
  proof (cases "k = 0")
    case True
    with k(2) obtain ws1 ws2 where "leading_rows (visual_match ws1 ws2) 0 ?ps = Inr n"
      by (auto simp: detect_table_headers_visual_def bindR_eq_Inr)
    then show ?thesis by (rule leading_keys) (rule visual_keys)
  next
    case False
    with k show ?thesis using leading_keys [OF k(1) structure_keys] by simp
  qed
qed

text \<open>Two rows in the same place that are the same: spans and texts of their cells, and their width in the table\<close>

definition same_row :: "htable \<Rightarrow> htable \<Rightarrow> nat \<Rightarrow> bool" where
  "same_row t1 t2 j \<longleftrightarrow>
     map (\<lambda>c. (colspan c, rowspan c, cell_key c)) (ht_rows t1 ! j) = map (\<lambda>c. (colspan c, rowspan c, cell_key c)) (ht_rows t2 ! j) \<and>
     calculate_row_effective_columns t1 j = calculate_row_effective_columns t2 j"

text \<open>The number of rows in which the second table repeats the first: five at most, all with the same texts, and the next
  row is not the same in both.\<close>

definition repeats :: "htable \<Rightarrow> htable \<Rightarrow> nat \<Rightarrow> bool" where
  "repeats t1 t2 n \<longleftrightarrow>
     n \<le> 5 \<and> n \<le> length (ht_rows t1) \<and> n \<le> length (ht_rows t2) \<and> take n (row_keys t2) = take n (row_keys t1) \<and>
     (n < 5 \<and> n < length (ht_rows t1) \<and> n < length (ht_rows t2) \<longrightarrow> \<not> same_row t1 t2 n)"

lemma leading_rows_stop:
  assumes "leading_rows ok i ps = Inr n" and "n < length ps"
  shows "ok (i + n) (fst (ps ! n)) (snd (ps ! n)) = Inr False"
  using assms
proof (induction ok i ps arbitrary: n rule: leading_rows.induct)
  case (2 ok i r1 r2 ps)
  from 2(2) obtain b where b: "ok i r1 r2 = Inr b" by (auto simp: bindR_eq_Inr)
  show ?case
  proof (cases b)
    case True
    with 2(2) b obtain m where m: "leading_rows ok (Suc i) ps = Inr m" "n = Suc m" by (auto simp: bindR_eq_Inr)
    with 2(1) [OF b True m(1)] 2(3) show ?thesis by simp
  next
    case False
    with 2(2) b show ?thesis by simp
  qed
qed simp

lemma cells_match_same:
  "map (\<lambda>c. (colspan c, rowspan c, cell_key c)) r1 = map (\<lambda>c. (colspan c, rowspan c, cell_key c)) r2 \<Longrightarrow>
     cells_match (zip r1 r2) \<noteq> Inr False"
proof (induction "zip r1 r2" arbitrary: r1 r2 rule: cells_match.induct)
  case (2 c1 c2 cs)
  then obtain s1 s2 where r: "r1 = c1 # s1" "r2 = c2 # s2" "cs = zip s1 s2"
    by (cases r1; cases r2) auto
  have "cells_match (zip s1 s2) \<noteq> Inr False" if "colspan c2 = Inr a" "rowspan c2 = Inr b" for a b
    using 2(1) [of a b a b] 2(3) that r by auto
  with 2(3) r show ?case by (auto simp: bindR_eq_Inr split: if_splits)
qed (auto simp: zip_eq_Nil_iff)

lemma detect_repeats:
  assumes "detect_table_headers t1 t2 = Inr (n, m, txts)"
  shows "repeats t1 t2 n"
proof -
  let ?ps = "take max_header_rows (zip (ht_rows t1) (ht_rows t2))"
  from assms obtain ws1 ws2 k where ws: "build_table_occupied_matrix t1 = Inr ws1" "build_table_occupied_matrix t2 = Inr ws2"
    and k: "leading_rows (structure_match ws1 ws2) 0 ?ps = Inr k"
    "(if k = 0 then detect_table_headers_visual t1 t2 else Inr (k, True, header_texts k (ht_rows t1))) = Inr (n, m, txts)"
    by (auto simp only: detect_table_headers_def bindR_eq_Inr)
  have "\<not> same_row t1 t2 n" if n: "n < 5" "n < length (ht_rows t1)" "n < length (ht_rows t2)"
  proof
    assume same: "same_row t1 t2 n"
    have len: "n < length ?ps" and at: "?ps ! n = (ht_rows t1 ! n, ht_rows t2 ! n)" using n by (simp_all add: max_header_rows_def)
    have w: "width_at ws1 n = width_at ws2 n"
      using same ws by (simp add: same_row_def calculate_row_effective_columns_def)
    have keys: "map cell_key (ht_rows t1 ! n) = map cell_key (ht_rows t2 ! n)"
    proof -
      have "map (snd \<circ> snd) (map (\<lambda>c. (colspan c, rowspan c, cell_key c)) (ht_rows t1 ! n)) =
          map (snd \<circ> snd) (map (\<lambda>c. (colspan c, rowspan c, cell_key c)) (ht_rows t2 ! n))"
        using same by (simp only: same_row_def)
      then show ?thesis by (simp add: comp_def)
    qed
    show False
    proof (cases "k = 0")
      case True
      with k(2) ws have "leading_rows (visual_match ws1 ws2) 0 ?ps = Inr n"
        by (auto simp: detect_table_headers_visual_def bindR_eq_Inr)
      from leading_rows_stop [OF this len] show False using keys w at by (simp add: visual_match_def)
    next
      case False
      with k have "leading_rows (structure_match ws1 ws2) 0 ?ps = Inr n" by simp
      from leading_rows_stop [OF this len] have "structure_match ws1 ws2 n (ht_rows t1 ! n) (ht_rows t2 ! n) = Inr False"
        using at by simp
      then show False
        using cells_match_same [of "ht_rows t1 ! n" "ht_rows t2 ! n"] same w map_eq_imp_length_eq [OF keys]
        by (simp add: structure_match_def same_row_def)
    qed
  qed
  moreover have "take n (row_keys t2) = take n (row_keys t1)"
    using detect_headers [OF assms] by (intro nth_equalityI) (auto simp: row_keys_cells)
  ultimately show ?thesis using detect_headers [OF assms] by (auto simp: repeats_def)
qed

section \<open>Fitting the rows\<close>

lemma set_colspan_text [simp]: "tc_text (set_colspan n c) = tc_text c" "tc_rowspan (set_colspan n c) = tc_rowspan c"
  by (simp_all add: set_colspan_def)

lemma take_structure_texts: "map tc_text (take_structure ref row) = map tc_text row"
proof (cases "length row \<le> length ref")
  case True
  then have "map tc_text (map (\<lambda>(n, c). if 1 < n then set_colspan n c else c) (zip ref row)) = map tc_text row"
    by (intro nth_equalityI) (auto simp: case_prod_beta)
  with True show ?thesis by (simp add: take_structure_def)
qed (simp add: take_structure_def)

lemma texts_last: "row \<noteq> [] \<Longrightarrow> map tc_text (butlast row @ [set_colspan n (last row)]) = map tc_text row"
  by (induction row) auto

lemma widen_last_cases:
  assumes "widen_last diff row = Inr row'"
  shows "row' = row \<or> (\<exists>n. 0 < diff \<and> colspan (last row) = Inr n \<and> row' = butlast row @ [set_colspan (n + diff) (last row)])"
  using assms by (cases "0 < diff") (auto simp: widen_last_def bindR_eq_Inr)

lemma adjust_row_cases:
  assumes "adjust_row ref visual target refrow width row = Inr row'"
  shows "row' = row \<or> row' = take_structure ref row
       \<or> (\<exists>n. row \<noteq> [] \<and> width < target \<and> colspan (last row) = Inr n
             \<and> row' = butlast row @ [set_colspan (n + (target - width)) (last row)])"
proof (cases "row = []")
  case False
  with assms obtain n where n: "(if target \<le> width \<or> target \<le> n then Inr row
      else bindR (if calculate_visual_columns row = visual then check_row_columns_match row refrow else Inr False)
        (\<lambda>same. if same then Inr (take_structure ref row) else widen_last (target - width) row)) = Inr row'"
    by (auto simp only: adjust_row_def bindR_eq_Inr if_False)
  show ?thesis
  proof (cases "target \<le> width \<or> target \<le> n")
    case True
    with n show ?thesis by simp
  next
    case nt: False
    with n obtain same where "(if same then Inr (take_structure ref row) else widen_last (target - width) row) = Inr row'"
      by (auto simp only: if_False bindR_eq_Inr)
    then show ?thesis using False widen_last_cases [of "target - width" row row'] by (cases same) auto
  qed
qed (use assms in \<open>simp add: adjust_row_def\<close>)

lemma adjust_row_texts:
  "adjust_row ref visual target refrow width row = Inr row' \<Longrightarrow> map tc_text row' = map tc_text row"
  using adjust_row_cases texts_last take_structure_texts by metis

lemma map_nth_from: "map (\<lambda>i. f (xs ! i)) [k..<length xs] = map f (drop k xs)"
  by (intro nth_equalityI) auto

lemma adjust_table_texts:
  assumes "adjust_table_rows_colspan t start ref visual target refrow = Inr t'"
  shows "row_texts t' = row_texts t \<and> ht_end t' = ht_end t"
proof -
  from assms obtain ws rows where r:
    "mapR (\<lambda>i. adjust_row ref visual target refrow (width_at ws i) (ht_rows t ! i)) [start..<length (ht_rows t)] = Inr rows"
    "t' = t\<lparr>ht_rows := take start (ht_rows t) @ rows\<rparr>"
    by (auto simp: adjust_table_rows_colspan_def bindR_eq_Inr)
  have "map (map tc_text) rows = map (\<lambda>i. map tc_text (ht_rows t ! i)) [start..<length (ht_rows t)]"
    by (rule mapR_map_eq [OF r(1) adjust_row_texts])
  also have "\<dots> = drop start (row_texts t)" by (simp add: map_nth_from row_texts_def drop_map)
  finally show ?thesis using r(2) by (simp add: row_texts_def take_map [symmetric] drop_map [symmetric])
qed

lemma fit_tables_texts:
  assumes "fit_tables n t1 t2 = Inr (t1', t2')"
  shows "row_texts t1' = row_texts t1 \<and> row_texts t2' = row_texts t2 \<and> ht_end t1' = ht_end t1 \<and> ht_end t2' = ht_end t2"
  using assms unfolding fit_tables_def
  by (auto simp: Let_def bindR_eq_Inr dest!: adjust_table_texts split: if_splits)

section \<open>Merging always returns\<close>

definition returns :: "'a res \<Rightarrow> bool" where
  "returns m \<longleftrightarrow> (\<exists>x. m = Inr x)"

lemma returns_simps [simp]:
  "returns (Inr x)"
  "returns (bindR m f) \<longleftrightarrow> (\<exists>x. m = Inr x \<and> returns (f x))"
  "returns (if b then m else m') \<longleftrightarrow> (b \<longrightarrow> returns m) \<and> (\<not> b \<longrightarrow> returns m')"
  by (auto simp: returns_def bindR_eq_Inr)

lemma returnsD: "returns m \<Longrightarrow> \<exists>x. m = Inr x"
  by (simp add: returns_def)

lemma mapR_set: "mapR f xs = Inr ys \<Longrightarrow> y \<in> set ys \<Longrightarrow> \<exists>x\<in>set xs. f x = Inr y"
  by (induction xs arbitrary: ys) (auto simp: bindR_eq_Inr)

lemma int_of_show: "0 \<le> n \<Longrightarrow> int_of_str (show_int n) = Some n"
  using int_of_str_show_nat [of "nat n"] by (simp add: show_int_def)

lemma set_colspan_ok: "cell_ok c \<Longrightarrow> 1 \<le> n \<Longrightarrow> cell_ok (set_colspan n c)"
  by (simp add: cell_ok_def span_ok_def set_colspan_def span_num_def int_of_show)

lemma colspan_set [simp]: "0 \<le> n \<Longrightarrow> colspan (set_colspan n c) = Inr n"
  by (simp add: set_colspan_def span_num_def int_of_show)

lemma cell_ok_spans: "cell_ok c \<Longrightarrow> (\<exists>n. colspan c = Inr n \<and> 1 \<le> n) \<and> (\<exists>n. rowspan c = Inr n \<and> 1 \<le> n)"
  by (simp add: cell_ok_def span_ok_def)

definition row_ok :: "trow \<Rightarrow> bool" where
  "row_ok row \<longleftrightarrow> (\<forall>c\<in>set row. cell_ok c)"

lemma table_ok_rows: "table_ok t \<longleftrightarrow> (\<forall>row\<in>set (ht_rows t). row_ok row)"
  by (simp add: table_ok_def row_ok_def)

lemma row_colspans: "row_ok row \<Longrightarrow> \<exists>ns. mapR colspan row = Inr ns"
  by (rule mapR_ex) (use cell_ok_spans in \<open>auto simp: row_ok_def\<close>)

lemma row_columns_total: "row_ok row \<Longrightarrow> \<exists>n. calculate_row_columns row = Inr n"
  using row_colspans [of row] by (auto simp: calculate_row_columns_def)

lemma cells_match_total: "\<forall>(c1, c2)\<in>set cs. cell_ok c1 \<and> cell_ok c2 \<Longrightarrow> returns (cells_match cs)"
proof (induction cs rule: cells_match.induct)
  case (2 c1 c2 cs)
  then obtain a1 b1 a2 b2 where "colspan c1 = Inr a1" "rowspan c1 = Inr b1" "colspan c2 = Inr a2" "rowspan c2 = Inr b2"
    using cell_ok_spans [of c1] cell_ok_spans [of c2] by auto
  moreover from 2 this have "a1 = a2 \<and> b1 = b2 \<and> cell_key c1 = cell_key c2 \<Longrightarrow> returns (cells_match cs)" by auto
  ultimately show ?case by auto
qed simp

lemma same_colspans_total: "\<forall>(c1, c2)\<in>set cs. cell_ok c1 \<and> cell_ok c2 \<Longrightarrow> returns (same_colspans cs)"
proof (induction cs rule: same_colspans.induct)
  case (2 c1 c2 cs)
  then obtain a1 a2 where "colspan c1 = Inr a1" "colspan c2 = Inr a2"
    using cell_ok_spans [of c1] cell_ok_spans [of c2] by auto
  moreover from 2 this have "a1 = a2 \<Longrightarrow> returns (same_colspans cs)" by auto
  ultimately show ?case by auto
qed simp

lemma zip_ok: "row_ok r1 \<Longrightarrow> row_ok r2 \<Longrightarrow> \<forall>(c1, c2)\<in>set (zip r1 r2). cell_ok c1 \<and> cell_ok c2"
  by (auto simp: row_ok_def dest: set_zip_leftD set_zip_rightD)

lemma leading_rows_total:
  assumes "\<And>i r1 r2. (r1, r2) \<in> set ps \<Longrightarrow> \<exists>b. ok i r1 r2 = Inr b"
  shows "\<exists>n. leading_rows ok i ps = Inr n"
  using assms
proof (induction ps arbitrary: i)
  case (Cons p ps)
  obtain r1 r2 where p: "p = (r1, r2)" by (cases p)
  from Cons.prems [of r1 r2 i] p obtain b where "ok i r1 r2 = Inr b" by auto
  moreover from Cons obtain n where "leading_rows ok (Suc i) ps = Inr n" by (metis list.set_intros(2))
  ultimately show ?case using p by simp
qed simp

lemma detect_total:
  assumes "table_ok t1" and "table_ok t2"
  shows "\<exists>n m txts. detect_table_headers t1 t2 = Inr (n, m, txts)"
proof -
  from columns_agree_total [OF assms(1)] columns_agree_total [OF assms(2)] obtain ws1 ws2 where
    ws: "build_table_occupied_matrix t1 = Inr ws1" "build_table_occupied_matrix t2 = Inr ws2" by blast
  let ?ps = "take max_header_rows (zip (ht_rows t1) (ht_rows t2))"
  have ok: "row_ok r1 \<and> row_ok r2" if "(r1, r2) \<in> set ?ps" for r1 r2
    using that assms by (auto simp: table_ok_rows dest!: in_set_takeD dest: set_zip_leftD set_zip_rightD)
  have "\<exists>n. leading_rows (structure_match ws1 ws2) 0 ?ps = Inr n"
    by (rule leading_rows_total) (use ok cells_match_total [OF zip_ok] in \<open>intro returnsD, simp add: structure_match_def\<close>)
  moreover have "\<exists>n. leading_rows (visual_match ws1 ws2) 0 ?ps = Inr n"
    by (rule leading_rows_total) (simp add: visual_match_def)
  ultimately show ?thesis using ws
    by (auto simp: detect_table_headers_def detect_table_headers_visual_def)
qed

lemma adjust_row_total:
  assumes "row_ok row" and "row_ok refrow"
  shows "\<exists>row'. adjust_row ref visual target refrow width row = Inr row' \<and> row_ok row'"
proof -
  have total: "\<exists>row'. adjust_row ref visual target refrow width row = Inr row'"
  proof (cases "row = []")
    case False
    obtain n where n: "calculate_row_columns row = Inr n" using row_columns_total [OF assms(1)] by blast
    obtain b where b: "(if calculate_visual_columns row = visual then check_row_columns_match row refrow else Inr False) = Inr b"
      using same_colspans_total [OF zip_ok [OF assms]] returnsD
      by (metis (mono_tags) check_row_columns_match_def returns_simps(1,3))
    from False assms(1) obtain m where "colspan (last row) = Inr m"
      using cell_ok_spans [of "last row"] by (auto simp: row_ok_def)
    with n b False show ?thesis by (simp add: adjust_row_def widen_last_def)
  qed (simp add: adjust_row_def)
  then obtain row' where r: "adjust_row ref visual target refrow width row = Inr row'" by blast
  have "row_ok (take_structure ref row)"
    using assms(1) set_colspan_ok by (auto simp: row_ok_def take_structure_def dest!: set_zip_rightD)
  moreover have "row_ok (butlast row @ [set_colspan (n + (target - width)) (last row)])"
    if "row \<noteq> []" "width < target" "colspan (last row) = Inr n" for n
  proof -
    have "cell_ok (last row)" using assms(1) that(1) by (simp add: row_ok_def)
    with cell_ok_spans [of "last row"] that(2,3) have "cell_ok (set_colspan (n + (target - width)) (last row))"
      by (intro set_colspan_ok) auto
    with assms(1) show ?thesis by (auto simp: row_ok_def dest: in_set_butlastD)
  qed
  ultimately show ?thesis using adjust_row_cases [OF r] assms(1) r by auto
qed

lemma adjust_table_total:
  assumes "table_ok t" and "row_ok refrow"
  shows "\<exists>t'. adjust_table_rows_colspan t start ref visual target refrow = Inr t' \<and> table_ok t'"
proof -
  obtain ws where ws: "build_table_occupied_matrix t = Inr ws" using columns_agree_total [OF assms(1)] by blast
  let ?f = "\<lambda>i. adjust_row ref visual target refrow (width_at ws i) (ht_rows t ! i)"
  have f: "\<exists>row'. ?f i = Inr row' \<and> row_ok row'" if "i \<in> set [start..<length (ht_rows t)]" for i
    using that assms by (intro adjust_row_total) (auto simp: table_ok_rows)
  then obtain rows where rows: "mapR ?f [start..<length (ht_rows t)] = Inr rows"
    using mapR_ex [of "[start..<length (ht_rows t)]" ?f] by blast
  have "\<forall>r\<in>set rows. row_ok r"
  proof
    fix r assume "r \<in> set rows"
    from mapR_set [OF rows this] obtain i where i: "i \<in> set [start..<length (ht_rows t)]" "?f i = Inr r" by blast
    with f [OF i(1)] show "row_ok r" by simp
  qed
  with rows ws assms(1) show ?thesis
    by (auto simp: adjust_table_rows_colspan_def table_ok_rows dest: in_set_takeD)
qed

lemma fit_tables_total:
  assumes "table_ok t1" and "table_ok t2"
  shows "\<exists>t1' t2'. fit_tables n t1 t2 = Inr (t1', t2') \<and> table_ok t1' \<and> table_ok t2'"
proof (cases "ht_rows t1 \<noteq> [] \<and> ht_rows t2 \<noteq> [] \<and> n < length (ht_rows t2)")
  case True
  from columns_agree_total [OF assms(1)] columns_agree_total [OF assms(2)] obtain n1 n2 where
    ns: "calculate_table_total_columns t1 = Inr n1" "calculate_table_total_columns t2 = Inr n2" by blast
  have rows: "row_ok (last (ht_rows t1))" "row_ok (ht_rows t2 ! n)"
    using True assms by (simp_all add: table_ok_rows)
  then obtain ref1 ref2 where refs: "mapR colspan (last (ht_rows t1)) = Inr ref1" "mapR colspan (ht_rows t2 ! n) = Inr ref2"
    using row_colspans by blast
  obtain t2' where t2': "adjust_table_rows_colspan t2 n ref1 (calculate_visual_columns (last (ht_rows t1))) n1
      (ht_rows t2 ! n) = Inr t2'" "table_ok t2'"
    using adjust_table_total [OF assms(2) rows(2)] by blast
  obtain t1' where t1': "adjust_table_rows_colspan t1 0 ref2 (calculate_visual_columns (ht_rows t2 ! n)) n2
      (last (ht_rows t1)) = Inr t1'" "table_ok t1'"
    using adjust_table_total [OF assms(1) rows(1)] by blast
  show ?thesis
    using True ns refs t1' t2' assms by (cases "n2 \<le> n1") (simp_all add: fit_tables_def Let_def)
next
  case False
  then have "fit_tables n t1 t2 = Inr (t1, t2)" by (simp only: fit_tables_def Let_def if_False)
  with assms show ?thesis by blast
qed

lemma append_rows_ok: "table_ok t1 \<Longrightarrow> table_ok t2 \<Longrightarrow> table_ok (append_rows t1 t2 n)"
  by (auto simp: append_rows_def table_ok_rows Let_def split: option.splits dest: in_set_takeD in_set_dropD)

lemma append_rows_texts:
  assumes "ht_end t1 = Some k" and "ht_end t2 \<noteq> None"
  shows "row_texts (append_rows t1 t2 n) = take k (row_texts t1) @ drop n (row_texts t2) @ drop k (row_texts t1)
       \<and> ht_end (append_rows t1 t2 n) = Some (k + (length (row_texts t2) - n))"
  using assms by (auto simp: append_rows_def Let_def row_texts_def simp flip: take_map drop_map)

lemma merge_rows:
  assumes "table_ok t1" and "table_ok t2" and "ht_end t1 = Some k" and "ht_end t2 \<noteq> None"
  shows "\<exists>t n. perform_table_merge t1 t2 pbs notes =
           Inr (t, filter (\<lambda>b. bk_type b \<noteq> ''table_footnote'') pbs @ map (\<lambda>b. b\<lparr>bk_cross := True\<rparr>) notes)
       \<and> table_ok t \<and> ht_end t = Some (k + (length (row_texts t2) - n)) \<and> repeats t1 t2 n
       \<and> row_texts t = take k (row_texts t1) @ drop n (row_texts t2) @ drop k (row_texts t1)"
proof -
  obtain n m txts where d: "detect_table_headers t1 t2 = Inr (n, m, txts)"
    using detect_total [OF assms(1,2)] by blast
  obtain t1' t2' where f: "fit_tables n t1 t2 = Inr (t1', t2')" "table_ok t1'" "table_ok t2'"
    using fit_tables_total [OF assms(1,2)] by blast
  note same = fit_tables_texts [OF f(1)]
  have "perform_table_merge t1 t2 pbs notes =
      Inr (append_rows t1' t2' n, filter (\<lambda>b. bk_type b \<noteq> ''table_footnote'') pbs @ map (\<lambda>b. b\<lparr>bk_cross := True\<rparr>) notes)"
    using d f(1) by (simp add: perform_table_merge_def)
  then show ?thesis
    using append_rows_texts [of t1' k t2' n] append_rows_ok [OF f(2,3)] same assms(3,4) detect_repeats [OF d] by metis
qed

text \<open>Merging two tables with bodies and positive spans never raises; it puts the rows of the second, from the first
  row that does not repeat a header, behind the body of the first, with all texts unchanged and in order; the
  rows left out, five at most, have the texts of the rows of the first table in the same place up to white
  space and character width.  The footnotes of the second table replace those of the first.
\<close>

theorem merged_rows:
  assumes "table_ok t1" and "table_ok t2" and "ht_end t1 = Some k" and "ht_end t2 \<noteq> None"
  shows "\<exists>t n. perform_table_merge t1 t2 pbs notes =
           Inr (t, filter (\<lambda>b. bk_type b \<noteq> ''table_footnote'') pbs @ map (\<lambda>b. b\<lparr>bk_cross := True\<rparr>) notes)
       \<and> table_ok t \<and> n \<le> 5
       \<and> row_texts t = take k (row_texts t1) @ drop n (row_texts t2) @ drop k (row_texts t1)
       \<and> take n (row_keys t2) = take n (row_keys t1)"
  using merge_rows [OF assms, of pbs "notes"] unfolding repeats_def by blast

lemma merged_rows_witness:
  "\<exists>t n. perform_table_merge demo_table demo_table [] [] = Inr (t, []) \<and> n \<le> 5
     \<and> row_texts t = row_texts demo_table @ drop n (row_texts demo_table)"
  using merged_rows [of demo_table demo_table 2 "[]" "[]"]
  by (auto simp: table_ok_def demo_table_def row_texts_def)

section \<open>Tables without spans\<close>

definition plain_row :: "trow \<Rightarrow> bool" where
  "plain_row row \<longleftrightarrow> (\<forall>c\<in>set row. tc_colspan c = None \<and> tc_rowspan c = None)"

lemma span_num_None [simp]: "span_num None = Inr 1"
  by (simp add: span_num_def)

lemma plain_row_ok: "plain_row row \<Longrightarrow> row_ok row"
  by (auto simp: plain_row_def row_ok_def cell_ok_def span_ok_def span_num_def)

lemma free_col_free: "(r, c) \<notin> set occ \<Longrightarrow> free_col occ r c = c"
  by (subst free_col.simps) simp

lemma place_plain:
  assumes "plain_row xs" and "\<forall>p\<in>set occ. fst p < r \<or> (fst p = r \<and> snd p < c)"
  shows "\<exists>occ' mx'. place_cells r xs (c, occ, mx) = Inr (c + int (length xs), occ', mx')
       \<and> set occ' = set occ \<union> {r} \<times> {c..<c + int (length xs)}"
  using assms
proof (induction xs arbitrary: c occ mx)
  case (Cons x xs)
  have x: "colspan x = Inr 1" "rowspan x = Inr 1" "plain_row xs"
    using Cons.prems(1) by (simp_all add: plain_row_def)
  have "free_col occ r c = c" using Cons.prems(2) by (intro free_col_free) force
  moreover have "taken r c 1 1 = [(r, c)]" by (simp add: taken_def)
  moreover have "\<forall>p\<in>set ((r, c) # occ). fst p < r \<or> (fst p = r \<and> snd p < c + 1)"
    using Cons.prems(2) by force
  from Cons.IH [OF x(3) this, of "max mx (c + 1)"] obtain occ' mx' where
    "place_cells r xs (c + 1, (r, c) # occ, max mx (c + 1)) = Inr (c + 1 + int (length xs), occ', mx')"
    "set occ' = set ((r, c) # occ) \<union> {r} \<times> {c + 1..<c + 1 + int (length xs)}" by blast
  ultimately show ?case using x by (auto simp: Let_def add.assoc)
qed simp

lemma row_width_plain:
  assumes "\<forall>p\<in>set occ. fst p < r" and "set occ' = set occ \<union> {r} \<times> {0..<int n}"
  shows "row_width occ' r = int n"
proof -
  let ?cs = "map snd (filter (\<lambda>p. fst p = r) occ')"
  have "{p \<in> set occ'. fst p = r} = {r} \<times> {0..<int n}" unfolding assms(2) using assms(1) by auto
  then have cs: "set ?cs = {0..<int n}" by (simp only: set_map set_filter) (auto simp: image_iff)
  show ?thesis
  proof (cases "n = 0")
    case True
    then have "?cs = []" using cs by (simp only: set_empty [symmetric]) simp
    with True show ?thesis by (simp add: row_width_def)
  next
    case False
    have "Max (set ?cs) = int n - 1" unfolding cs using False by (intro Max_eqI) auto
    moreover have "?cs \<noteq> []" using cs False by (simp only: set_empty [symmetric]) simp
    ultimately show ?thesis by (simp only: row_width_def Let_def if_False)
  qed
qed

lemma widths_plain:
  assumes "\<forall>row\<in>set rows. plain_row row" and "\<forall>p\<in>set occ. fst p < r"
  shows "widths_from r rows occ = Inr (map (\<lambda>row. int (length row)) rows)"
  using assms
proof (induction rows arbitrary: r occ)
  case (Cons row rows)
  have below: "\<forall>p\<in>set occ. fst p < r \<or> (fst p = r \<and> snd p < 0)" using Cons.prems(2) by auto
  from Cons.prems(1) place_plain [OF _ below, of row 0] obtain occ' mx' where
    p: "place_cells r row (0, occ, 0) = Inr (int (length row), occ', mx')"
      "set occ' = set occ \<union> {r} \<times> {0..<int (length row)}" by auto
  from p(2) Cons.prems(2) have "\<forall>p\<in>set occ'. fst p < r + 1" by force
  from Cons.IH [OF _ this] Cons.prems(1) p row_width_plain [OF Cons.prems(2) p(2)] show ?case by simp
qed simp

lemma plain_table:
  assumes "\<forall>row\<in>set (ht_rows t). plain_row row"
  shows "build_table_occupied_matrix t = Inr (map (\<lambda>row. int (length row)) (ht_rows t))"
  unfolding build_table_occupied_matrix_def by (rule widths_plain [OF assms]) simp

lemma plain_columns: "plain_row row \<Longrightarrow> mapR colspan row = Inr (replicate (length row) 1)"
  by (induction row) (auto simp: plain_row_def)

lemma row_columns_Cons: "colspan c = Inr n \<Longrightarrow> calculate_row_columns row = Inr m \<Longrightarrow> calculate_row_columns (c # row) = Inr (n + m)"
  by (auto simp: calculate_row_columns_def bindR_eq_Inr)

lemma plain_row_columns: "plain_row row \<Longrightarrow> calculate_row_columns row = Inr (int (length row))"
  by (simp add: calculate_row_columns_def plain_columns sum_list_replicate)

lemma structure_columns:
  assumes "plain_row row" and "length row = length ref" and "\<forall>n\<in>set ref. 1 \<le> n"
  shows "calculate_row_columns (take_structure ref row) = Inr (sum_list ref)"
proof -
  have "mapR colspan (map (\<lambda>(n, c). if 1 < n then set_colspan n c else c) (zip ref row)) = Inr ref"
    using assms(2,1,3)
  proof (induction ref row rule: list_induct2')
    case (4 n ref c row)
    then show ?case by (auto simp: plain_row_def)
  qed auto
  with assms(2) show ?thesis by (simp add: take_structure_def calculate_row_columns_def)
qed

lemma widened_columns:
  assumes "plain_row row" and "row \<noteq> []" and "0 \<le> n"
  shows "calculate_row_columns (butlast row @ [set_colspan n (last row)]) = Inr (int (length row) - 1 + n)"
  using assms
proof (induction row)
  case (Cons c row)
  show ?case
  proof (cases "row = []")
    case True
    with Cons.prems show ?thesis by (simp add: calculate_row_columns_def)
  next
    case False
    have "colspan c = Inr 1" using Cons.prems(1) by (simp add: plain_row_def)
    moreover have "calculate_row_columns (butlast row @ [set_colspan n (last row)]) = Inr (int (length row) - 1 + n)"
      using Cons False by (simp add: plain_row_def)
    ultimately show ?thesis using False row_columns_Cons by simp
  qed
qed simp

lemma fitted_row:
  assumes "plain_row row" and "row \<noteq> []" and "int (length row) \<le> target"
    and "\<forall>n\<in>set ref. 1 \<le> n" and "sum_list ref = target"
    and "adjust_row ref (length ref) target refrow (int (length row)) row = Inr row'"
  shows "calculate_row_columns row' = Inr target"
proof (cases "target \<le> int (length row)")
  case True
  with assms plain_row_columns [OF assms(1)] show ?thesis by (simp add: adjust_row_def)
next
  case False
  with assms(2,6) plain_row_columns [OF assms(1)] obtain same where
    s: "(if length row = length ref then check_row_columns_match row refrow else Inr False) = Inr same"
      "(if same then Inr (take_structure ref row) else widen_last (target - int (length row)) row) = Inr row'"
    by (auto simp only: adjust_row_def if_False bindR_eq_Inr calculate_visual_columns_def)
       (auto simp: bindR_eq_Inr)
  show ?thesis
  proof (cases same)
    case True
    then have "length row = length ref" using s(1) by (metis Inr_inject)
    with True s(2) structure_columns [OF assms(1) _ assms(4)] assms(5) show ?thesis by auto
  next
    case f: False
    have "colspan (last row) = Inr 1" using assms(1,2) by (simp add: plain_row_def)
    with f s(2) False have "row' = butlast row @ [set_colspan (1 + (target - int (length row))) (last row)]"
      by (simp add: widen_last_def)
    with widened_columns [OF assms(1,2), of "1 + (target - int (length row))"] False show ?thesis by simp
  qed
qed

definition all_wide :: "int \<Rightarrow> htable \<Rightarrow> bool" where
  "all_wide n t \<longleftrightarrow> (\<forall>row\<in>set (ht_rows t). calculate_row_columns row = Inr n)"

lemma last_structure:
  assumes "table_ok t" and "ht_rows t \<noteq> []" and "all_wide n t"
  shows "\<exists>ref. mapR colspan (last (ht_rows t)) = Inr ref \<and> (\<forall>n\<in>set ref. 1 \<le> n) \<and> sum_list ref = n
       \<and> length ref = length (last (ht_rows t))"
proof -
  have l: "row_ok (last (ht_rows t))" "calculate_row_columns (last (ht_rows t)) = Inr n"
    using assms by (simp_all add: table_ok_rows all_wide_def)
  obtain ref where ref: "mapR colspan (last (ht_rows t)) = Inr ref" using row_colspans [OF l(1)] by blast
  have "1 \<le> n" if "n \<in> set ref" for n
    using mapR_set [OF ref that] l(1) cell_ok_spans by (fastforce simp: row_ok_def)
  with ref l(2) mapR_length [OF ref] show ?thesis by (auto simp: calculate_row_columns_def)
qed

text \<open>When every row of a table has as many columns as the table and the rows of the next are filled, have no
  spans and are no wider, merging them gives a table in which every row, those added among them, has that number
  of columns.
\<close>

theorem merged_columns:
  assumes "table_ok t1" and "ht_rows t1 \<noteq> []" and "all_wide m t1" and "calculate_table_total_columns t1 = Inr m"
    and "\<forall>row\<in>set (ht_rows t2). plain_row row \<and> row \<noteq> [] \<and> int (length row) \<le> m"
    and "ht_end t1 = Some k" and "ht_end t2 \<noteq> None"
  shows "\<exists>t bs. perform_table_merge t1 t2 pbs notes = Inr (t, bs) \<and> all_wide m t"
proof -
  have ok2: "table_ok t2" using assms(5) plain_row_ok by (auto simp: table_ok_rows)
  from merge_rows [OF assms(1) ok2 assms(6,7)] obtain t where t: "perform_table_merge t1 t2 pbs notes =
      Inr (t, filter (\<lambda>b. bk_type b \<noteq> ''table_footnote'') pbs @ map (\<lambda>b. b\<lparr>bk_cross := True\<rparr>) notes)" by metis
  then obtain n ms txts t1' t2' where d: "detect_table_headers t1 t2 = Inr (n, ms, txts)"
    "fit_tables n t1 t2 = Inr (t1', t2')" "t = append_rows t1' t2' n"
    by (auto simp: perform_table_merge_def bindR_eq_Inr)
  have rows: "t1' = t1 \<and> (\<forall>row\<in>set (drop n (ht_rows t2')). calculate_row_columns row = Inr m)"
  proof (cases "n < length (ht_rows t2)")
    case False
    then have "fit_tables n t1 t2 = Inr (t1, t2)" by (simp add: fit_tables_def)
    with d(2) False show ?thesis by simp
  next
    case True
    let ?rows = "ht_rows t2"
    obtain ref where ref: "mapR colspan (last (ht_rows t1)) = Inr ref" "\<forall>n\<in>set ref. 1 \<le> n" "sum_list ref = m"
      "length ref = length (last (ht_rows t1))" using last_structure [OF assms(1-3)] by blast
    let ?ws = "map (\<lambda>row. int (length row)) ?rows"
    have ws: "build_table_occupied_matrix t2 = Inr ?ws" using assms(5) by (intro plain_table) simp
    obtain m2 where m2: "calculate_table_total_columns t2 = Inr m2" "m2 = Max (insert 0 (set ?ws))"
      using total_columns [OF ok2] ws by auto
    have "0 \<le> m" using assms(5) True by (metis nth_mem of_nat_0_le_iff order_trans)
    then have "m2 \<le> m" using assms(5) m2(2) by auto
    then obtain "t1' = t1" and adj: "adjust_table_rows_colspan t2 n ref (length ref) m (?rows ! n) = Inr t2'"
      using d(2) True assms(2,4) m2(1) ref(1,4)
      by (auto simp: fit_tables_def Let_def bindR_eq_Inr calculate_visual_columns_def split: if_splits)
    moreover have "calculate_row_columns row = Inr m" if "row \<in> set (drop n (ht_rows t2'))" for row
    proof -
      from adj ws obtain new where new:
        "mapR (\<lambda>i. adjust_row ref (length ref) m (?rows ! n) (width_at ?ws i) (?rows ! i)) [n..<length ?rows] = Inr new"
        "ht_rows t2' = take n ?rows @ new"
        by (auto simp: adjust_table_rows_colspan_def bindR_eq_Inr)
      then have "row \<in> set new" using that True by simp
      from mapR_set [OF new(1) this] obtain i where i: "n \<le> i" "i < length ?rows"
        "adjust_row ref (length ref) m (?rows ! n) (int (length (?rows ! i))) (?rows ! i) = Inr row"
        by (auto simp: width_at_def)
      with assms(5) ref(2,3) show ?thesis by (intro fitted_row) auto
    qed
    ultimately show ?thesis by blast
  qed
  have "all_wide m t"
    using rows assms(3) d(3)
    by (auto simp: all_wide_def append_rows_def Let_def split: option.splits dest: in_set_takeD in_set_dropD)
  with t show ?thesis by blast
qed

lemma merged_columns_witness:
  "\<exists>t bs. perform_table_merge demo_table \<lparr>ht_rows = [[cell ''c'']], ht_end = Some 1\<rparr> [] [] = Inr (t, bs) \<and> all_wide 2 t"
proof (rule merged_columns)
  show "table_ok demo_table" by (rule demo_table_ok)
  show "calculate_table_total_columns demo_table = Inr 2"
  proof -
    have "build_table_occupied_matrix demo_table = Inr [2, 2]"
      using plain_table [of demo_table] by (simp add: demo_table_def plain_row_def cell_def)
    then show ?thesis using total_columns [OF demo_table_ok] by fastforce
  qed
qed (auto simp: demo_table_def all_wide_def calculate_row_columns_def cell_def plain_row_def)

end
