(* ===== verification/TablesDoc.thy ===== *)
theory TablesDoc
  imports TablesSpec "HOL-Library.Countable"
begin

text \<open>
  The walk over all pages: \<open>merge_table\<close> returns, joins a table that may continue the last one of the page before to it, each
  row once and in order and repeated headers left out, and touches nothing but tables.  What is observed of a table is the list of
  its rows, each row as its texts up to white space and character width, and the place where its body ends.
\<close>

section \<open>Bodies\<close>












section \<open>Deciding returns\<close>







section \<open>Merging two paragraphs\<close>














section \<open>All pages\<close>



lemma layout_set [simp]: "layout_blocks (pg\<lparr>pg_paras := Some ps\<rparr>) = ps"
  by (simp add: layout_blocks_def)















end
