(* ===== verification/Search.thy ===== *)
theory Search
  imports PyValue DocTasks DataOps
begin

text \<open>
  Retrieval of chunks (\<^verbatim>\<open>ragflow/rag/nlp/search.py\<close>, class \<open>Dealer\<close>): the query sent to the document store,
  its fall-backs, the scores of the hits and the page of the ranking a caller gets.  The document store, the
  tokenizer, the query builder, the models and what NumPy computes (shape, square root, order of an
  argsort, similarity of vectors) are parameters, the record \<open>dealer\<close>.
\<close>

section \<open>Floating-point values with infinities and NaN\<close>

datatype flt = Fin rat | PInf | MInf | NaN

fun flt_neg :: "flt \<Rightarrow> flt" where
  "flt_neg (Fin q) = Fin (- q)"
| "flt_neg PInf = MInf"
| "flt_neg MInf = PInf"
| "flt_neg NaN = NaN"

fun flt_add :: "pyrt \<Rightarrow> flt \<Rightarrow> flt \<Rightarrow> flt" where
  "flt_add rt (Fin a) (Fin b) = Fin (fround rt (a + b))"
| "flt_add rt NaN y = NaN"
| "flt_add rt x NaN = NaN"
| "flt_add rt PInf MInf = NaN"
| "flt_add rt MInf PInf = NaN"
| "flt_add rt PInf y = PInf"
| "flt_add rt MInf y = MInf"
| "flt_add rt x PInf = PInf"
| "flt_add rt x MInf = MInf"

definition flt_inf :: "rat \<Rightarrow> flt" where
  "flt_inf q = (if q = 0 then NaN else if 0 < q then PInf else MInf)"

fun flt_mul :: "pyrt \<Rightarrow> flt \<Rightarrow> flt \<Rightarrow> flt" where
  "flt_mul rt (Fin a) (Fin b) = Fin (fround rt (a * b))"
| "flt_mul rt NaN y = NaN"
| "flt_mul rt x NaN = NaN"
| "flt_mul rt (Fin a) PInf = flt_inf a"
| "flt_mul rt (Fin a) MInf = flt_inf (- a)"
| "flt_mul rt PInf (Fin b) = flt_inf b"
| "flt_mul rt MInf (Fin b) = flt_inf (- b)"
| "flt_mul rt PInf PInf = PInf"
| "flt_mul rt MInf MInf = PInf"
| "flt_mul rt _ _ = MInf"

text \<open>Division of NumPy floats: by zero it gives an infinity or NaN and does not raise.\<close>

definition np_div :: "pyrt \<Rightarrow> rat \<Rightarrow> rat \<Rightarrow> flt" where
  "np_div rt a b = (if b = 0 then flt_inf a else Fin (fround rt (a / b)))"

fun flt_le :: "flt \<Rightarrow> flt \<Rightarrow> bool" where
  "flt_le NaN y = False"
| "flt_le x NaN = False"
| "flt_le MInf y = True"
| "flt_le x PInf = True"
| "flt_le (Fin a) (Fin b) = (a \<le> b)"
| "flt_le _ _ = False"

fun flt_less :: "flt \<Rightarrow> flt \<Rightarrow> bool" where
  "flt_less NaN y = False"
| "flt_less x NaN = False"
| "flt_less x y = (\<not> flt_le y x)"

text \<open>\<open>get_float\<close>\<close>

definition get_float :: "pyrt \<Rightarrow> pyval \<Rightarrow> flt" where
  "get_float rt v = (case py_float rt v of Inr q \<Rightarrow> Fin q | Inl _ \<Rightarrow> MInf)"

text \<open>Elementwise operations on arrays: an array of one element goes with one of any length.\<close>

definition np_zip :: "(flt \<Rightarrow> flt \<Rightarrow> flt) \<Rightarrow> flt list \<Rightarrow> flt list \<Rightarrow> flt list res" where
  "np_zip f xs ys =
     (if length xs = length ys then Inr (map2 f xs ys)
      else if length xs = 1 then Inr (map (f (hd xs)) ys)
      else if length ys = 1 then Inr (map (\<lambda>x. f x (hd ys)) xs)
      else Inl (Exc ValueErr ''operands could not be broadcast together''))"

section \<open>Queries to the document store\<close>

datatype order_field = Asc string | Desc string

datatype 'm match_expr =
    MatchText 'm
  | MatchDense string "flt list" int pyval
  | Fusion string int string

record 'm ds_query =
  q_fields :: "pyval list"
  q_highlight :: "pyval list"
  q_condition :: pydict
  q_match :: "'m option match_expr list"
  q_order :: "order_field list"
  q_offset :: int
  q_limit :: int
  q_index :: "string list"
  q_kbs :: "string list"
  q_aggs :: "string list"
  q_rank :: "(string \<times> rat) list option"

record hits =
  h_total :: int
  h_ids :: "string list"
  h_vector :: "flt list"
  h_field :: "(string \<times> pydict) list"
  h_highlight :: "(string \<times> string) list"
  h_aggs :: "(string \<times> int) list"
  h_keywords :: "string list"

record ('m, 'r) dealer =
  d_rt :: pyrt
  d_infinity :: bool
  d_question :: "string \<Rightarrow> rat \<Rightarrow> ('m option \<times> string list) res"
  d_paragraph :: "string \<Rightarrow> string list \<Rightarrow> int \<Rightarrow> 'm"
  d_search :: "'m ds_query \<Rightarrow> 'r res"
  d_get :: "string \<Rightarrow> string \<Rightarrow> string list \<Rightarrow> pydict option res"
  d_exists :: "string \<Rightarrow> string \<Rightarrow> bool"
  d_total :: "'r \<Rightarrow> int"
  d_ids :: "'r \<Rightarrow> string list"
  d_fields :: "'r \<Rightarrow> pyval list \<Rightarrow> (string \<times> pydict) list"
  d_highlight :: "'r \<Rightarrow> string list \<Rightarrow> (string \<times> string) list"
  d_aggs :: "'r \<Rightarrow> string \<Rightarrow> (string \<times> int) list"
  d_fine :: "string \<Rightarrow> string"
  d_set_order :: "string list \<Rightarrow> string list"
  d_shape :: "pyval \<Rightarrow> nat list res"
  d_sqrt :: "rat \<Rightarrow> rat"
  d_sum :: "rat list \<Rightarrow> rat"
  d_eval :: "string \<Rightarrow> (string \<times> rat) list res"
  d_hybrid :: "flt list \<Rightarrow> flt list list \<Rightarrow> string list \<Rightarrow> string list list \<Rightarrow> rat \<Rightarrow> rat \<Rightarrow>
                 (flt list \<times> flt list \<times> flt list) res"
  d_token_sim :: "string list \<Rightarrow> string list list \<Rightarrow> flt list"
  d_tidy :: "string \<Rightarrow> string"
  d_argsort :: "flt list \<Rightarrow> nat list"
  d_mean :: "flt list \<Rightarrow> flt"

definition PAGERANK_FLD :: string where "PAGERANK_FLD = ''pagerank_fea''"
definition TAG_FLD :: string where "TAG_FLD = ''tag_feas''"

definition index_name :: "string \<Rightarrow> string" where
  "index_name uid = ''ragflow_'' @ uid"

definition given :: "pydict \<Rightarrow> string \<Rightarrow> pyval option" where
  "given req k = (case dget req k of Some v \<Rightarrow> if v = PNone then None else Some v | None \<Rightarrow> None)"

definition get_filters :: "pydict \<Rightarrow> pydict" where
  "get_filters req =
     foldl (\<lambda>cond kf. case given req (fst kf) of Some v \<Rightarrow> dset (snd kf) v cond | None \<Rightarrow> cond) []
       ([(''kb_ids'', ''kb_id''), (''doc_ids'', ''doc_id'')] @
        map (\<lambda>k. (k, k)) [''knowledge_graph_kwd'', ''available_int'', ''entity_kwd'', ''from_entity_kwd'',
          ''to_entity_kwd'', ''removed_kwd''])"

definition dense_column :: "nat \<Rightarrow> string" where
  "dense_column n = ''q_'' @ show_nat n @ ''_vec''"

definition get_vector ::
  "('m, 'r) dealer \<Rightarrow> (string \<Rightarrow> pyval res) \<Rightarrow> string \<Rightarrow> int \<Rightarrow> pyval \<Rightarrow> 'm option match_expr res" where
  "get_vector D emb txt topk similarity =
     bindR (emb txt) (\<lambda>qv. bindR (d_shape D qv) (\<lambda>shape.
       if 1 < length shape then Inl (Exc PlainException ''Dealer.get_vector returned array's shape'')
       else bindR (iter_vals qv) (\<lambda>vs.
         Inr (MatchDense (dense_column (length vs)) (map (get_float (d_rt D)) vs) topk similarity))))"

fun embedding_data :: "'m match_expr \<Rightarrow> flt list" where
  "embedding_data (MatchDense c v n s) = v"
| "embedding_data _ = []"

fun with_similarity :: "pyval \<Rightarrow> 'm match_expr \<Rightarrow> 'm match_expr" where
  "with_similarity s (MatchDense c v n _) = MatchDense c v n s"
| "with_similarity s e = e"

definition default_fields :: "pyval list" where
  "default_fields = map PStr [''docnm_kwd'', ''content_ltks'', ''kb_id'', ''img_id'', ''title_tks'', ''important_kwd'',
     ''position_int'', ''doc_id'', ''page_num_int'', ''top_int'', ''create_timestamp_flt'', ''knowledge_graph_kwd'',
     ''question_kwd'', ''question_tks'', ''doc_type_kwd'', ''available_int'', ''content_with_weight'', ''mom_id'',
     PAGERANK_FLD, TAG_FLD]"

definition as_list :: "pyval \<Rightarrow> pyval list res" where
  "as_list v = (case v of PList xs \<Rightarrow> Inr xs | _ \<Rightarrow> Inl (type_err ''can only concatenate list''))"

definition as_text :: "pyval \<Rightarrow> string res" where
  "as_text v = (case v of PStr s \<Rightarrow> Inr s | _ \<Rightarrow> Inl (type_err ''expected string or bytes-like object''))"

text \<open>The keywords of the query and their parts of at least two characters, as a set kept in the order it grows\<close>

definition add_new :: "string list \<Rightarrow> string \<Rightarrow> string list" where
  "add_new kwds k = (if k \<in> set kwds then kwds else kwds @ [k])"

definition add_keyword :: "('m, 'r) dealer \<Rightarrow> string list \<Rightarrow> string \<Rightarrow> string list" where
  "add_keyword D kwds k =
     foldl add_new (add_new kwds k) (filter (\<lambda>w. 2 \<le> py_len w) (words (d_fine D k)))"

section \<open>Search\<close>

text \<open>
  A request that was answered: the store's result, its total, the fields asked for, the query vector and
  the keywords.
\<close>

definition search_plain ::
  "('m, 'r) dealer \<Rightarrow> pydict \<Rightarrow> 'm ds_query \<Rightarrow> ('r \<times> int \<times> pyval list \<times> flt list \<times> string list) res" where
  "search_plain D req q =
     bindR (d_search D (q\<lparr>q_order := if truthy (dget_or req ''sort'' PNone)
        then [Asc ''page_num_int'', Asc ''top_int'', Desc ''create_timestamp_flt''] else []\<rparr>)) (\<lambda>r.
       Inr (r, d_total D r, q_fields q, [], []))"

definition highlight_fields :: "pyval \<Rightarrow> pyval list" where
  "highlight_fields hl =
     (if \<not> truthy hl then [] else case hl of PList xs \<Rightarrow> xs | _ \<Rightarrow> [PStr ''content_ltks'', PStr ''title_tks''])"

text \<open>With no hit at all the query is tried again: without any match when documents are given, else with lower bounds.\<close>

definition search_again ::
  "('m, 'r) dealer \<Rightarrow> string \<Rightarrow> 'm option match_expr \<Rightarrow> 'm ds_query \<Rightarrow> 'r \<Rightarrow> 'r res" where
  "search_again D qst dense q r =
     (if d_total D r \<noteq> 0 then Inr r
      else if truthy (dget_or (q_condition q) ''doc_id'' PNone)
      then d_search D (q\<lparr>q_highlight := [], q_match := [], q_rank := None\<rparr>)
      else bindR (d_question D qst (1 / 10)) (\<lambda>(m, _).
        d_search D (q\<lparr>q_match := [MatchText m, with_similarity (PFloat (17 / 100)) dense] @ drop 2 (q_match q)\<rparr>)))"

definition search_text ::
  "('m, 'r) dealer \<Rightarrow> pydict \<Rightarrow> string \<Rightarrow> int \<Rightarrow> (string \<Rightarrow> pyval res) option \<Rightarrow> pyval \<Rightarrow>
   (string \<times> rat) list option \<Rightarrow> 'm ds_query \<Rightarrow> ('r \<times> int \<times> pyval list \<times> flt list \<times> string list) res" where
  "search_text D req qst topk emb hl rank q =
     bindR (d_question D qst (3 / 10)) (\<lambda>(m, keywords).
       let q1 = q\<lparr>q_highlight := highlight_fields hl, q_rank := rank\<rparr>;
           kwds = foldl (add_keyword D) [] keywords
       in case emb of
            None \<Rightarrow> bindR (d_search D (q1\<lparr>q_match := [MatchText m]\<rparr>)) (\<lambda>r.
                      Inr (r, d_total D r, q_fields q, [], kwds))
          | Some enc \<Rightarrow>
              bindR (get_vector D enc qst topk (dget_or req ''similarity'' (PFloat (1 / 10)))) (\<lambda>dense.
                let vec = embedding_data dense;
                    src = q_fields q @ (if d_infinity D then [] else [PStr (dense_column (length vec))]);
                    q2 = q1\<lparr>q_fields := src,
                            q_match := [MatchText m, dense, Fusion ''weighted_sum'' topk ''0.05,0.95'']\<rparr>
                in bindR (d_search D q2) (\<lambda>r. bindR (search_again D qst dense q2 r) (\<lambda>r2.
                     Inr (r2, d_total D r2, src, vec, kwds)))))"

definition search ::
  "('m, 'r) dealer \<Rightarrow> pydict \<Rightarrow> string list \<Rightarrow> string list \<Rightarrow> (string \<Rightarrow> pyval res) option \<Rightarrow> pyval \<Rightarrow>
   (string \<times> rat) list option \<Rightarrow> hits res" where
  "search D req indices kbs emb hl rank =
     bindR (py_int (dget_or req ''page'' (PInt 1))) (\<lambda>page.
     bindR (py_int (dget_or req ''topk'' (PInt 1024))) (\<lambda>topk.
     bindR (py_int (dget_or req ''size'' (PInt topk))) (\<lambda>ps.
     bindR (as_list (dget_or req ''fields'' (PList default_fields))) (\<lambda>src.
       let qst = dget_or req ''question'' (PStr []);
           q = \<lparr> q_fields = src, q_highlight = [], q_condition = get_filters req, q_match = [], q_order = [],
                 q_offset = (page - 1) * ps, q_limit = ps, q_index = indices, q_kbs = kbs, q_aggs = [],
                 q_rank = None \<rparr>
       in bindR (if \<not> truthy qst then search_plain D req q
                 else bindR (as_text qst) (\<lambda>txt. search_text D req txt topk emb hl rank q))
          (\<lambda>(r, n, fields, vec, kwds).
             let keywords = d_set_order D kwds
             in Inr \<lparr> h_total = n, h_ids = d_ids D r, h_vector = vec,
                      h_field = d_fields D r (fields @ [PStr ''_score'']),
                      h_highlight = d_highlight D r keywords, h_aggs = d_aggs D r ''docnm_kwd'',
                      h_keywords = keywords \<rparr>)))))"

section \<open>Scores\<close>

definition field_of :: "hits \<Rightarrow> string \<Rightarrow> pydict res" where
  "field_of hs i = (case dget (h_field hs) i of None \<Rightarrow> Inl (key_err i) | Some d \<Rightarrow> Inr d)"

text \<open>\<open>d.get(k, '''').split()\<close>\<close>

definition split_of :: "pydict \<Rightarrow> string \<Rightarrow> string list res" where
  "split_of d k = bindR (as_str ''split'' (dget_or d k (PStr []))) (\<lambda>s. Inr (words s))"

definition ranks_of :: "('m, 'r) dealer \<Rightarrow> hits \<Rightarrow> flt list res" where
  "ranks_of D hs =
     mapR (\<lambda>i. bindR (field_of hs i) (\<lambda>d.
       bindR (py_float (d_rt D) (dget_or d PAGERANK_FLD (PInt 0))) (\<lambda>x. Inr (Fin x)))) (h_ids hs)"

definition tag_terms :: "('m, 'r) dealer \<Rightarrow> (string \<times> rat) list \<Rightarrow> (string \<times> rat) list \<Rightarrow> rat \<times> rat" where
  "tag_terms D query tags =
     foldl (\<lambda>(nor, denor) (t, sc).
       (case dget query t of Some x \<Rightarrow> fround (d_rt D) (nor + fround (d_rt D) (x * sc)) | None \<Rightarrow> nor,
        fround (d_rt D) (denor + fround (d_rt D) (sc * sc)))) (0, 0) tags"

definition query_norm :: "('m, 'r) dealer \<Rightarrow> (string \<times> rat) list \<Rightarrow> rat" where
  "query_norm D query =
     d_sqrt D (d_sum D (map (\<lambda>ts. fround (d_rt D) (snd ts * snd ts))
       (filter (\<lambda>ts. fst ts \<noteq> PAGERANK_FLD) query)))"

definition tag_score :: "('m, 'r) dealer \<Rightarrow> (string \<times> rat) list \<Rightarrow> pydict \<Rightarrow> flt res" where
  "tag_score D query d =
     (if \<not> truthy (dget_or d TAG_FLD PNone) then Inr (Fin 0)
      else bindR (as_text (dget_or d TAG_FLD PNone)) (\<lambda>s. bindR (d_eval D s) (\<lambda>tags.
        let (nor, denor) = tag_terms D query tags
        in Inr (if denor = 0 then Fin 0
                else case np_div (d_rt D) nor (d_sqrt D denor) of
                       Fin x \<Rightarrow> np_div (d_rt D) x (query_norm D query)
                     | y \<Rightarrow> y))))"

definition rank_feature_scores :: "('m, 'r) dealer \<Rightarrow> (string \<times> rat) list option \<Rightarrow> hits \<Rightarrow> flt list res" where
  "rank_feature_scores D rank hs =
     bindR (ranks_of D hs) (\<lambda>pr.
       case rank of
         None \<Rightarrow> Inr pr
       | Some [] \<Rightarrow> Inr pr
       | Some query \<Rightarrow> bindR (mapR (\<lambda>i. bindR (field_of hs i) (tag_score D query)) (h_ids hs)) (\<lambda>ts.
           np_zip (flt_add (d_rt D)) (map (\<lambda>x. flt_mul (d_rt D) x (Fin 10)) ts) pr))"

definition vector_of :: "('m, 'r) dealer \<Rightarrow> hits \<Rightarrow> pydict \<Rightarrow> flt list res" where
  "vector_of D hs d =
     (case dget d (dense_column (length (h_vector hs))) of
        None \<Rightarrow> Inr (replicate (length (h_vector hs)) (Fin 0))
      | Some (PStr s) \<Rightarrow> Inr (map (get_float (d_rt D) \<circ> PStr) (split_on (CHR 0x09) s))
      | Some v \<Rightarrow> bindR (iter_vals v) (mapR (\<lambda>x. bindR (py_float (d_rt D) x) (\<lambda>q. Inr (Fin q)))))"

definition important :: "pydict \<Rightarrow> string list res" where
  "important d =
     (case dget_or d ''important_kwd'' (PList []) of
        PStr s \<Rightarrow> Inr [s]
      | PList xs \<Rightarrow> mapR as_text xs
      | _ \<Rightarrow> Inl (type_err ''can only concatenate list''))"

definition times :: "nat \<Rightarrow> 'a list \<Rightarrow> 'a list" where
  "times n xs = concat (replicate n xs)"

text \<open>\<open>list(OrderedDict.fromkeys(xs))\<close>\<close>

definition unique :: "string list \<Rightarrow> string list" where
  "unique xs = foldl add_new [] xs"

definition content_tokens :: "pydict \<Rightarrow> string list res" where
  "content_tokens d =
     (case dget d ''content_ltks'' of
        None \<Rightarrow> Inl (key_err ''content_ltks'')
      | Some v \<Rightarrow> bindR (as_str ''split'' v) (\<lambda>s. Inr (words s)))"

definition weighted_tokens :: "pydict \<Rightarrow> string list res" where
  "weighted_tokens d =
     bindR (content_tokens d) (\<lambda>c. bindR (split_of d ''title_tks'') (\<lambda>t. bindR (split_of d ''question_tks'') (\<lambda>q.
       bindR (important d) (\<lambda>i. Inr (unique c @ times 2 t @ times 5 i @ times 6 q)))))"

definition model_tokens :: "pydict \<Rightarrow> string list res" where
  "model_tokens d =
     bindR (content_tokens d) (\<lambda>c. bindR (split_of d ''title_tks'') (\<lambda>t.
       bindR (important d) (\<lambda>i. Inr (c @ t @ i))))"

definition over_hits :: "hits \<Rightarrow> (pydict \<Rightarrow> 'a res) \<Rightarrow> 'a list res" where
  "over_hits hs f = mapR (\<lambda>i. bindR (field_of hs i) f) (h_ids hs)"

type_synonym scores = "flt list \<times> flt list \<times> flt list"

definition rerank ::
  "('m, 'r) dealer \<Rightarrow> hits \<Rightarrow> string \<Rightarrow> rat \<Rightarrow> rat \<Rightarrow> (string \<times> rat) list option \<Rightarrow> scores res" where
  "rerank D hs query tkw vtw rank =
     bindR (d_question D query (6 / 10)) (\<lambda>(_, keywords). bindR (over_hits hs (vector_of D hs)) (\<lambda>embd.
       if embd = [] then Inr ([], [], [])
       else bindR (over_hits hs weighted_tokens) (\<lambda>tw. bindR (rank_feature_scores D rank hs) (\<lambda>fea.
         bindR (d_hybrid D (h_vector hs) embd keywords tw tkw vtw) (\<lambda>(sim, tksim, vtsim).
           bindR (np_zip (flt_add (d_rt D)) sim fea) (\<lambda>s. Inr (s, tksim, vtsim)))))))"

type_synonym reranker = "string \<Rightarrow> string list \<Rightarrow> flt list res"

definition rerank_by_model ::
  "('m, 'r) dealer \<Rightarrow> reranker \<Rightarrow> hits \<Rightarrow> string \<Rightarrow> rat \<Rightarrow> rat \<Rightarrow> (string \<times> rat) list option \<Rightarrow> scores res" where
  "rerank_by_model D mdl hs query tkw vtw rank =
     bindR (d_question D query (6 / 10)) (\<lambda>(_, keywords). bindR (over_hits hs model_tokens) (\<lambda>tw.
       let tksim = d_token_sim D keywords tw; w = flt_mul (d_rt D)
       in bindR (mdl query (map (\<lambda>tks. d_tidy D (join '' '' tks)) tw)) (\<lambda>vtsim.
            bindR (rank_feature_scores D rank hs) (\<lambda>fea.
              bindR (np_zip (flt_add (d_rt D)) (map (w (Fin tkw)) tksim) (map (w (Fin vtw)) vtsim)) (\<lambda>s.
                bindR (np_zip (flt_add (d_rt D)) s fea) (\<lambda>s2. Inr (s2, tksim, vtsim)))))))"

section \<open>Retrieval\<close>

record rargs =
  a_question :: string
  a_tenants :: "string list"
  a_kbs :: "string list"
  a_page :: int
  a_page_size :: int
  a_threshold :: rat
  a_weight :: rat
  a_top :: int
  a_docs :: pyval
  a_aggs :: bool
  a_highlight :: pyval
  a_rank :: "(string \<times> rat) list option"

record hit_chunk =
  hc_id :: string
  hc_data :: pydict
  hc_sim :: flt
  hc_vsim :: flt
  hc_tsim :: flt

record doc_agg =
  g_name :: pyval
  g_doc :: pyval
  g_count :: nat

record ranks =
  r_total :: nat
  r_chunks :: "hit_chunk list"
  r_aggs :: "doc_agg list"

text \<open>\<open>math.ceil(a / b)\<close>: the quotient is rounded to a float first.\<close>

definition ceil_div :: "pyrt \<Rightarrow> int \<Rightarrow> int \<Rightarrow> int" where
  "ceil_div rt a b = \<lceil>fround rt (of_int a / of_int b)\<rceil>"

definition rerank_limit :: "pyrt \<Rightarrow> int \<Rightarrow> int" where
  "rerank_limit rt ps = max 30 (if 1 < ps then ceil_div rt 64 ps * ps else 1)"

definition retrieval_req :: "pyrt \<Rightarrow> rargs \<Rightarrow> pydict" where
  "retrieval_req rt a =
     [(''kb_ids'', PList (map PStr (a_kbs a))), (''doc_ids'', a_docs a),
      (''page'', PInt (ceil_div rt (a_page_size a * a_page a) (rerank_limit rt (a_page_size a)))),
      (''size'', PInt (rerank_limit rt (a_page_size a))), (''question'', PStr (a_question a)),
      (''vector'', PBool True), (''topk'', PInt (a_top a)), (''similarity'', PFloat (a_threshold a)),
      (''available_int'', PInt 1)]"

definition engine_score :: "pyrt \<Rightarrow> pydict \<Rightarrow> flt res" where
  "engine_score rt d =
     (case dget_or d ''_score'' (PFloat 0) of
        PNone \<Rightarrow> Inr (Fin 0)
      | v \<Rightarrow> bindR (py_float rt v) (\<lambda>x. Inr (Fin x)))"

definition score_hits :: "('m, 'r) dealer \<Rightarrow> reranker option \<Rightarrow> rargs \<Rightarrow> hits \<Rightarrow> scores res" where
  "score_hits D mdl a hs =
     (let tkw = fround (d_rt D) (1 - a_weight a)
      in case (mdl, 0 < h_total hs) of
           (Some m, True) \<Rightarrow> rerank_by_model D m hs (a_question a) tkw (a_weight a) (a_rank a)
         | _ \<Rightarrow>
             if d_infinity D
             then bindR (over_hits hs (engine_score (d_rt D))) (\<lambda>s. Inr (s, s, s))
             else rerank D hs (a_question a) tkw (a_weight a) (a_rank a))"

text \<open>Both rerankers leave the important keywords of a hit as a list.\<close>

definition list_keywords :: "pydict \<Rightarrow> pydict" where
  "list_keywords d =
     (case dget d ''important_kwd'' of Some (PStr s) \<Rightarrow> dset ''important_kwd'' (PList [PStr s]) d | _ \<Rightarrow> d)"

definition scored_hits :: "('m, 'r) dealer \<Rightarrow> reranker option \<Rightarrow> hits \<Rightarrow> hits" where
  "scored_hits D mdl hs =
     (if d_infinity D \<and> (mdl = None \<or> h_total hs \<le> 0) then hs
      else hs\<lparr>h_field := map (\<lambda>(i, d). (i, if i \<in> set (h_ids hs) then list_keywords d else d)) (h_field hs)\<rparr>)"

definition post_threshold :: "rargs \<Rightarrow> rat" where
  "post_threshold a = (if truthy (a_docs a) then 0 else if a_weight a \<le> 0 then 0 else a_threshold a)"

text \<open>The positions of the hits above the threshold, best first\<close>

definition valid_positions :: "('m, 'r) dealer \<Rightarrow> rargs \<Rightarrow> flt list \<Rightarrow> nat list" where
  "valid_positions D a sim =
     filter (\<lambda>i. flt_le (Fin (post_threshold a)) (sim ! i)) (d_argsort D (map flt_neg sim))"

definition index_err :: pyexc where
  "index_err = Exc IndexErr ''index out of bounds''"

definition item :: "'a list \<Rightarrow> nat \<Rightarrow> 'a res" where
  "item xs i = (if i < length xs then Inr (xs ! i) else Inl index_err)"

definition required :: "pydict \<Rightarrow> string \<Rightarrow> pyval res" where
  "required d k = subscript (PDict d) k"

definition hit_data :: "('m, 'r) dealer \<Rightarrow> hits \<Rightarrow> pydict \<Rightarrow> pydict res" where
  "hit_data D hs d =
     bindR (required d ''content_ltks'') (\<lambda>ltks. bindR (required d ''content_with_weight'') (\<lambda>cww.
       bindR (required d ''kb_id'') (\<lambda>kb. Inr
         [(''content_ltks'', ltks), (''content_with_weight'', cww), (''doc_id'', dget_or d ''doc_id'' (PStr [])),
          (''docnm_kwd'', dget_or d ''docnm_kwd'' (PStr [])), (''kb_id'', kb),
          (''important_kwd'', dget_or d ''important_kwd'' (PList [])), (''image_id'', dget_or d ''img_id'' (PStr [])),
          (''vector'', dget_or d (dense_column (length (h_vector hs)))
             (PList (replicate (length (h_vector hs)) (PFloat 0)))),
          (''positions'', dget_or d ''position_int'' (PList [])),
          (''doc_type_kwd'', dget_or d ''doc_type_kwd'' (PStr [])), (''mom_id'', dget_or d ''mom_id'' (PStr []))])))"

definition add_highlight :: "('m, 'r) dealer \<Rightarrow> rargs \<Rightarrow> hits \<Rightarrow> string \<Rightarrow> pydict \<Rightarrow> pydict" where
  "add_highlight D a hs i d =
     (if truthy (a_highlight a) \<and> h_highlight hs \<noteq> []
      then dset ''highlight'' (case dget (h_highlight hs) i of
             Some t \<Rightarrow> PStr (d_tidy D t)
           | None \<Rightarrow> dget_or d ''content_with_weight'' PNone) d
      else d)"

definition hit_chunk_of :: "('m, 'r) dealer \<Rightarrow> rargs \<Rightarrow> hits \<Rightarrow> scores \<Rightarrow> nat \<Rightarrow> hit_chunk res" where
  "hit_chunk_of D a hs sc i =
     bindR (item (h_ids hs) i) (\<lambda>cid. bindR (field_of hs cid) (\<lambda>d. bindR (hit_data D hs d) (\<lambda>data.
       bindR (item (fst sc) i) (\<lambda>s. bindR (item (snd (snd sc)) i) (\<lambda>v. bindR (item (fst (snd sc)) i) (\<lambda>t.
         Inr \<lparr> hc_id = cid, hc_data = add_highlight D a hs cid data, hc_sim = s, hc_vsim = v,
               hc_tsim = t \<rparr>))))))"

fun count_doc :: "pyval \<Rightarrow> pyval \<Rightarrow> doc_agg list \<Rightarrow> doc_agg list" where
  "count_doc nm did [] = [\<lparr> g_name = nm, g_doc = did, g_count = 1 \<rparr>]"
| "count_doc nm did (g # gs) =
     (if py_eq (g_name g) nm then g\<lparr>g_count := Suc (g_count g)\<rparr> # gs else g # count_doc nm did gs)"

definition doc_aggs :: "hits \<Rightarrow> nat list \<Rightarrow> doc_agg list res" where
  "doc_aggs hs valid =
     bindR (mapR (\<lambda>i. bindR (item (h_ids hs) i) (field_of hs)) valid) (\<lambda>ds.
       Inr (sort_key (\<lambda>g. - int (g_count g))
         (foldl (\<lambda>gs d. count_doc (dget_or d ''docnm_kwd'' (PStr [])) (dget_or d ''doc_id'' (PStr [])) gs) [] ds)))"

text \<open>\<open>xs[b:b + n]\<close>\<close>

definition py_clip :: "int \<Rightarrow> nat \<Rightarrow> nat" where
  "py_clip i n = nat (min (int n) (if i < 0 then max 0 (i + int n) else i))"

definition py_slice :: "int \<Rightarrow> int \<Rightarrow> 'a list \<Rightarrow> 'a list" where
  "py_slice b e xs = take (py_clip e (length xs) - py_clip b (length xs)) (drop (py_clip b (length xs)) xs)"

definition page_positions :: "pyrt \<Rightarrow> rargs \<Rightarrow> nat list \<Rightarrow> nat list" where
  "page_positions rt a valid =
     (let ps = a_page_size a;
          max_pages = max (rerank_limit rt ps div max ps 1) 1;
          begin_at = ((a_page a - 1) mod max_pages) * ps
      in py_slice begin_at (begin_at + ps) valid)"

definition no_ranks :: ranks where
  "no_ranks = \<lparr> r_total = 0, r_chunks = [], r_aggs = [] \<rparr>"

definition rank_page :: "('m, 'r) dealer \<Rightarrow> rargs \<Rightarrow> hits \<Rightarrow> scores \<Rightarrow> ranks res" where
  "rank_page D a hs sc =
     (let valid = valid_positions D a (fst sc)
      in if fst sc = [] \<or> valid = [] then Inr no_ranks
         else bindR (mapR (hit_chunk_of D a hs sc) (page_positions (d_rt D) a valid)) (\<lambda>cs.
           bindR (if a_aggs a then doc_aggs hs valid else Inr []) (\<lambda>gs.
             Inr \<lparr> r_total = length valid, r_chunks = cs, r_aggs = gs \<rparr>)))"

definition retrieval ::
  "('m, 'r) dealer \<Rightarrow> (string \<Rightarrow> pyval res) option \<Rightarrow> reranker option \<Rightarrow> rargs \<Rightarrow> ranks res" where
  "retrieval D emb mdl a =
     (if a_question a = [] then Inr no_ranks
      else bindR (search D (retrieval_req (d_rt D) a) (map index_name (a_tenants a)) (a_kbs a) emb
             (a_highlight a) (a_rank a)) (\<lambda>hs.
        bindR (score_hits D mdl a hs) (rank_page D a (scored_hits D mdl hs))))"

end
