(* ===== verification/Citations.thy ===== *)
theory Citations
  imports Search Merging
begin

text \<open>
  The citations of an answer (\<^verbatim>\<open>Dealer.insert_citations\<close> of \<^verbatim>\<open>ragflow/rag/nlp/search.py\<close>) and the similarity of
  weighted tokens behind them (\<^verbatim>\<open>ragflow/rag/nlp/query.py\<close>).  A text is cut into lists of code points.
\<close>

section \<open>Similarity of weighted tokens\<close>

type_synonym weights = "(string \<times> rat) list"

definition add_weight :: "pyrt \<Rightarrow> string \<Rightarrow> rat \<Rightarrow> weights \<Rightarrow> weights" where
  "add_weight rt t x d = dset t (fround rt (dget_or d t 0 + x)) d"

fun to_dict_from :: "pyrt \<Rightarrow> weights \<Rightarrow> weights \<Rightarrow> weights" where
  "to_dict_from rt d [] = d"
| "to_dict_from rt d ((t, c) # wts) =
     (let d1 = add_weight rt t (fround rt (c * fround rt (4 / 10))) d
      in to_dict_from rt
           (case wts of [] \<Rightarrow> d1
            | (t2, c2) # _ \<Rightarrow> add_weight rt (t @ t2) (fround rt (max c c2 * fround rt (6 / 10))) d1) wts)"

definition to_dict :: "pyrt \<Rightarrow> (string list \<Rightarrow> weights) \<Rightarrow> string list \<Rightarrow> weights" where
  "to_dict rt weigh tks = to_dict_from rt [] (weigh tks)"

definition total_weight :: "pyrt \<Rightarrow> weights \<Rightarrow> rat" where
  "total_weight rt ws = foldl (\<lambda>s kv. fround rt (s + snd kv)) (fround rt (1 / 10 ^ 9)) ws"

definition similarity :: "pyrt \<Rightarrow> weights \<Rightarrow> weights \<Rightarrow> rat" where
  "similarity rt qtwt dtwt =
     fround rt (total_weight rt (filter (\<lambda>kv. has_key dtwt (fst kv)) qtwt) / total_weight rt qtwt)"

definition token_similarity :: "pyrt \<Rightarrow> (string list \<Rightarrow> weights) \<Rightarrow> string list \<Rightarrow> string list list \<Rightarrow> rat list" where
  "token_similarity rt weigh atks btkss =
     map (similarity rt (to_dict rt weigh atks)) (map (to_dict rt weigh) btkss)"

text \<open>The cosines of the vectors and their sum are the libraries'.\<close>

definition hybrid_similarity ::
  "pyrt \<Rightarrow> (string list \<Rightarrow> weights) \<Rightarrow> (flt list \<Rightarrow> flt list list \<Rightarrow> flt list res) \<Rightarrow> (flt list \<Rightarrow> flt) \<Rightarrow>
   flt list \<Rightarrow> flt list list \<Rightarrow> string list \<Rightarrow> string list list \<Rightarrow> rat \<Rightarrow> rat \<Rightarrow> scores res" where
  "hybrid_similarity rt weigh cosine np_sum avec bvecs atks btkss tkw vtw =
     bindR (cosine avec bvecs) (\<lambda>sims.
       let tksim = map Fin (token_similarity rt weigh atks btkss)
       in if np_sum sims = Fin 0 then Inr (tksim, tksim, sims)
          else bindR (np_zip (flt_add rt) (map (\<lambda>x. flt_mul rt x (Fin vtw)) sims)
                 (map (\<lambda>x. flt_mul rt x (Fin tkw)) tksim)) (\<lambda>s. Inr (s, tksim, sims)))"

section \<open>Sentences\<close>

text \<open>The marks that end a sentence: U+FF1B, U+3002, U+FF1F, U+FF01 and the Arabic U+060C, U+061B, U+061F, U+06D4\<close>

definition wide_marks :: "string list" where
  "wide_marks = [[CHR 0xEF, CHR 0xBC, CHR 0x9B], [CHR 0xE3, CHR 0x80, CHR 0x82], [CHR 0xEF, CHR 0xBC, CHR 0x9F],
     [CHR 0xEF, CHR 0xBC, CHR 0x81]]"

definition arabic_marks :: "string list" where
  "arabic_marks = [[CHR 0xD8, CHR 0x8C], [CHR 0xD8, CHR 0x9B], [CHR 0xD8, CHR 0x9F]]"

definition stop_marks :: "string list" where
  "stop_marks = wide_marks @ arabic_marks @ [[CHR 0xDB, CHR 0x94], ''!'', [lf]]"

definition word_marks :: "string list" where
  "word_marks = arabic_marks @ [''.'', ''?'', '';'', ''!'']"

text \<open>Lower-case letters and U+0600 to U+06FF, whose encodings are two bytes with a lead from D8 to DB\<close>

definition word_end :: "string \<Rightarrow> bool" where
  "word_end p =
     (case p of
        [c] \<Rightarrow> 97 \<le> code c \<and> code c \<le> 122
      | [c, d] \<Rightarrow> 0xD8 \<le> code c \<and> code c \<le> 0xDB
      | _ \<Rightarrow> False)"

text \<open>The length of the boundary a text starts with, by the two alternatives of the pattern; 0 is none.\<close>

fun boundary :: "string list \<Rightarrow> nat" where
  "boundary (p # q # ps) =
     (if p \<noteq> ''|'' \<and> q \<in> set stop_marks then 2
      else if word_end p \<and> q \<in> set word_marks \<and> ps \<noteq> [] \<and> hd ps \<in> {'' '', [lf]} then 3 else 0)"
| "boundary _ = 0"

text \<open>\<open>re.split\<close> with the boundary as group\<close>

function split_sentences :: "string list \<Rightarrow> string list \<Rightarrow> string list list" where
  "split_sentences acc [] = [acc]"
| "split_sentences acc (p # ps) =
     (let n = boundary (p # ps)
      in if n = 0 then split_sentences (acc @ [p]) ps
         else acc # take n (p # ps) # split_sentences [] (drop n (p # ps)))"
  by pat_completeness auto
termination by (relation "measure (\<lambda>(a, ps). length ps)") auto

definition fence :: "string list" where
  "fence = [[CHR 0x60], [CHR 0x60], [CHR 0x60]]"

function split_fences :: "string list \<Rightarrow> string list \<Rightarrow> string list list" where
  "split_fences acc [] = [acc]"
| "split_fences acc (p # ps) =
     (if prefix fence (p # ps) then acc # fence # split_fences [] (drop 2 ps)
      else split_fences (acc @ [p]) ps)"
  by pat_completeness auto
termination by (relation "measure (\<lambda>(a, ps). length ps)") auto

text \<open>A code block is one piece with a line break behind it; the other pieces are split to sentences.\<close>

function code_blocks :: "string list list \<Rightarrow> string list list" where
  "code_blocks [] = []"
| "code_blocks (p # ps) =
     (if p = fence
      then let body = takeWhile (\<lambda>x. x \<noteq> fence) ps; rest = drop (length body) ps
           in (fence @ concat body @ concat (take 1 rest) @ [[lf]]) # code_blocks (drop 1 rest)
      else split_sentences [] p @ code_blocks ps)"
  by pat_completeness auto
termination by (relation "measure length") auto

text \<open>The first character of a boundary goes to the piece before it.\<close>

fun shift_first :: "string list \<Rightarrow> string list list \<Rightarrow> string list list" where
  "shift_first prev [] = [prev]"
| "shift_first prev (p # ps) =
     (if boundary p \<noteq> 0 then (prev @ [hd p]) # shift_first (tl p) ps else prev # shift_first p ps)"

definition answer_pieces :: "string \<Rightarrow> string list list" where
  "answer_pieces answer =
     (let cps = code_points answer; parts = split_fences [] cps;
          ps = (if 3 \<le> length parts then code_blocks parts else split_sentences [] cps)
      in case ps of [] \<Rightarrow> [] | q # qs \<Rightarrow> shift_first q qs)"

section \<open>Citations\<close>

record ('m, 'r) citer = "('m, 'r) dealer" +
  c_encode :: "string list \<Rightarrow> flt list list res"
  c_rm_www :: "string \<Rightarrow> string"
  c_tokenize :: "string \<Rightarrow> string"

definition assertion :: "bool \<Rightarrow> unit res" where
  "assertion b = (if b then Inr () else Inl (Exc AssertionErr []))"

definition tokens_of :: "('m, 'r) citer \<Rightarrow> string \<Rightarrow> string list" where
  "tokens_of C t = words (c_tokenize C (c_rm_www C t))"

definition fit_vectors :: "nat \<Rightarrow> flt list list \<Rightarrow> flt list list" where
  "fit_vectors n vs = map (\<lambda>v. if length v = n then v else replicate n (Fin 0)) vs"

text \<open>\<open>np.max\<close>: NaN if there is one\<close>

fun np_max :: "flt list \<Rightarrow> flt res" where
  "np_max [] = Inl (Exc ValueErr ''zero-size array to reduction operation maximum which has no identity'')"
| "np_max [x] = Inr x"
| "np_max (x # y # ys) =
     bindR (np_max (y # ys)) (\<lambda>m. Inr (if x = NaN \<or> m = NaN then NaN else if flt_less m x then x else m))"

definition cites_of :: "('m, 'r) citer \<Rightarrow> nat \<Rightarrow> flt list \<Rightarrow> flt \<Rightarrow> string list res" where
  "cites_of C n sim mx =
     bindR (mapR (item sim) [0..<n]) (\<lambda>ss.
       Inr (take 4 (d_set_order C (map (\<lambda>i. show_nat i) (filter (\<lambda>i. flt_less mx (ss ! i)) [0..<n])))))"

text \<open>One pass over the sentences with the threshold \<open>thr\<close>; a sentence is its index among the pieces and its text.\<close>

definition cite_piece ::
  "('m, 'r) citer \<Rightarrow> rat \<Rightarrow> rat \<Rightarrow> flt list list \<Rightarrow> string list list \<Rightarrow> rat \<Rightarrow> flt list \<Rightarrow> string \<Rightarrow>
   string list option res" where
  "cite_piece C tkw vtw chunk_v tks thr v t =
     bindR (d_hybrid C v chunk_v (tokens_of C t) tks tkw vtw) (\<lambda>(sim, _, _).
       bindR (np_max sim) (\<lambda>m.
         let mx = flt_mul (d_rt C) m (Fin (fround (d_rt C) (99 / 100)))
         in if flt_less mx (Fin thr) then Inr None
            else bindR (cites_of C (length chunk_v) sim mx) (\<lambda>cs. Inr (Some cs))))"

text \<open>\<open>for i, a in enumerate(pieces_)\<close>: \<open>ans_v[i]\<close> is read for each.\<close>

definition cite_pass ::
  "('m, 'r) citer \<Rightarrow> rat \<Rightarrow> rat \<Rightarrow> flt list list \<Rightarrow> string list list \<Rightarrow> flt list list \<Rightarrow> (nat \<times> string) list \<Rightarrow> rat \<Rightarrow>
   (nat \<times> string list) list res" where
  "cite_pass C tkw vtw chunk_v tks ans_v sents thr =
     bindR (mapR (\<lambda>(j, i, t). bindR (item ans_v j) (\<lambda>v.
         bindR (cite_piece C tkw vtw chunk_v tks thr v t) (\<lambda>cs. Inr (i, cs)))) (enumerate 0 sents)) (\<lambda>xs.
       Inr (concat (map (\<lambda>(i, c). case c of None \<Rightarrow> [] | Some cs \<Rightarrow> [(i, cs)]) xs)))"

text \<open>
  The thresholds of the loop: 0.63, and four fifths of the last while it is above 0.3.  They are four;
  the list of eight candidates is cut where the test of the loop fails.
\<close>

fun iterates :: "('a \<Rightarrow> 'a) \<Rightarrow> nat \<Rightarrow> 'a \<Rightarrow> 'a list" where
  "iterates f 0 x = []"
| "iterates f (Suc n) x = x # iterates f n (f x)"

definition thresholds :: "pyrt \<Rightarrow> rat list" where
  "thresholds rt =
     takeWhile (\<lambda>t. fround rt (3 / 10) < t)
       (iterates (\<lambda>t. fround rt (t * fround rt (4 / 5))) 8 (fround rt (63 / 100)))"

fun cite_rounds :: "(rat \<Rightarrow> (nat \<times> string list) list res) \<Rightarrow> rat list \<Rightarrow> (nat \<times> string list) list res" where
  "cite_rounds once [] = Inr []"
| "cite_rounds once (thr # thrs) =
     bindR (once thr) (\<lambda>cites. if cites = [] then cite_rounds once thrs else Inr cites)"

definition cite_mark :: "string \<Rightarrow> string" where
  "cite_mark c = '' [ID:'' @ c @ '']''"

text \<open>The marks behind one piece: those chunks that were not cited before\<close>

fun put_cites :: "string list \<Rightarrow> string \<times> string list \<Rightarrow> string \<times> string list" where
  "put_cites [] acc = acc"
| "put_cites (c # cs) (out, seen) =
     put_cites cs (if c \<in> set seen then (out, seen) else (out @ cite_mark c, seen @ [c]))"

definition put_piece :: "(nat \<times> string list) list \<Rightarrow> string \<times> string list \<Rightarrow> nat \<times> string \<Rightarrow> string \<times> string list" where
  "put_piece cites acc ip = put_cites (dget_or cites (fst ip) []) (fst acc @ snd ip, snd acc)"

text \<open>\<open>assert int(c) < len(chunk_v)\<close> for each citation of a piece, before its marks are written\<close>

definition check_cites :: "nat \<Rightarrow> string list \<Rightarrow> unit res" where
  "check_cites n cs =
     bindR (mapR (\<lambda>c. case int_of_str c of None \<Rightarrow> Inl (Exc ValueErr ''invalid literal for int() with base 10'')
                      | Some k \<Rightarrow> assertion (k < int n)) cs) (\<lambda>_. Inr ())"

fun put_pieces ::
  "nat \<Rightarrow> (nat \<times> string list) list \<Rightarrow> string \<times> string list \<Rightarrow> (nat \<times> string) list \<Rightarrow> (string \<times> string list) res" where
  "put_pieces n cites acc [] = Inr acc"
| "put_pieces n cites acc (ip # ips) =
     bindR (check_cites n (dget_or cites (fst ip) [])) (\<lambda>_. put_pieces n cites (put_piece cites acc ip) ips)"

definition insert_citations ::
  "('m, 'r) citer \<Rightarrow> string \<Rightarrow> string list \<Rightarrow> flt list list \<Rightarrow> rat \<Rightarrow> rat \<Rightarrow> (string \<times> string list) res" where
  "insert_citations C answer chunks chunk_v tkw vtw =
     bindR (assertion (length chunks = length chunk_v)) (\<lambda>_.
       if chunks = [] then Inr (answer, [])
       else
         let pieces = map concat (answer_pieces answer);
             sents = filter (\<lambda>(i, t). 5 \<le> py_len t) (enumerate 0 pieces)
         in if sents = [] then Inr (answer, [])
            else bindR (c_encode C (map snd sents)) (\<lambda>ans_v. bindR (item ans_v 0) (\<lambda>v0.
              let vs = fit_vectors (length v0) chunk_v
              in bindR (assertion (length v0 = length (hd vs))) (\<lambda>_.
                   bindR (cite_rounds (cite_pass C tkw vtw vs (map (tokens_of C) chunks) ans_v sents)
                            (thresholds (d_rt C))) (\<lambda>cites.
                     put_pieces (length vs) cites ([], []) (enumerate 0 pieces))))))"

end
