(* ===== verification/Recall.thy ===== *)
theory Recall
  imports Search
begin

text \<open>
  The other readers of the document store in \<^verbatim>\<open>ragflow/rag/nlp/search.py\<close>: the chunks of a document page by page,
  the tags of a knowledge base, and the two passes over the chunks a retrieval found, by the table of
  contents and by the parents of chunks.
\<close>

section \<open>The chunks of a document\<close>

definition list_fields :: "('m, 'r) dealer \<Rightarrow> string list \<Rightarrow> bool \<Rightarrow> pyval list" where
  "list_fields D flds by_position =
     map PStr (d_set_order D (unique (flds @
       (if by_position then [''page_num_int'', ''position_int'', ''top_int''] else []))))"

definition list_query :: "('m, 'r) dealer \<Rightarrow> string \<Rightarrow> string \<Rightarrow> string list \<Rightarrow> string list \<Rightarrow> bool \<Rightarrow> 'm ds_query" where
  "list_query D doc tenant kbs flds by_position =
     \<lparr> q_fields = list_fields D flds by_position, q_highlight = [], q_condition = [(''doc_id'', PStr doc)],
       q_match = [],
       q_order = (if by_position then [Asc ''page_num_int'', Asc ''position_int'', Asc ''top_int''] else []),
       q_offset = 0, q_limit = 0, q_index = [index_name tenant], q_kbs = kbs, q_aggs = [], q_rank = None \<rparr>"

definition fetch :: "('m, 'r) dealer \<Rightarrow> 'm ds_query \<Rightarrow> int \<Rightarrow> int \<Rightarrow> (string \<times> pydict) list res" where
  "fetch D q p cap =
     bindR (d_search D (q\<lparr>q_offset := p, q_limit := cap\<rparr>)) (\<lambda>r.
       Inr (map (\<lambda>(i, d). (i, dset ''id'' (PStr i) d)) (d_fields D r (q_fields q))))"

function chunk_pages :: "('m, 'r) dealer \<Rightarrow> 'm ds_query \<Rightarrow> int \<Rightarrow> int \<Rightarrow> pydict list res" where
  "chunk_pages D q maxc p =
     (if maxc \<le> p then Inr []
      else let cap = min 128 (maxc - p)
           in bindR (fetch D q p cap) (\<lambda>ds.
                if ds = [] \<or> int (length ds) < cap then Inr (map snd ds)
                else bindR (chunk_pages D q maxc (p + 128)) (\<lambda>rest. Inr (map snd ds @ rest))))"
  by pat_completeness auto
termination by (relation "measure (\<lambda>(D, q, m, p). nat (m - p))") auto

declare chunk_pages.simps [simp del]

definition chunk_list ::
  "('m, 'r) dealer \<Rightarrow> string \<Rightarrow> string \<Rightarrow> string list \<Rightarrow> int \<Rightarrow> int \<Rightarrow> string list \<Rightarrow> bool \<Rightarrow> pydict list res" where
  "chunk_list D doc tenant kbs maxc start flds by_position =
     chunk_pages D (list_query D doc tenant kbs flds by_position) maxc start"

section \<open>Tags\<close>

definition tag_agg_query :: "'m option match_expr list \<Rightarrow> string list \<Rightarrow> string list \<Rightarrow> 'm ds_query" where
  "tag_agg_query ms indices kbs =
     \<lparr> q_fields = [], q_highlight = [], q_condition = [], q_match = ms, q_order = [], q_offset = 0, q_limit = 0,
       q_index = indices, q_kbs = kbs, q_aggs = [''tag_kwd''], q_rank = None \<rparr>"

definition tag_counts ::
  "('m, 'r) dealer \<Rightarrow> 'm option match_expr list \<Rightarrow> string list \<Rightarrow> string list \<Rightarrow> (string \<times> int) list res" where
  "tag_counts D ms indices kbs =
     bindR (d_search D (tag_agg_query ms indices kbs)) (\<lambda>r. Inr (d_aggs D r ''tag_kwd''))"

definition all_tags :: "('m, 'r) dealer \<Rightarrow> string \<Rightarrow> string list \<Rightarrow> (string \<times> int) list res" where
  "all_tags D tenant kbs =
     (case kbs of
        [] \<Rightarrow> Inl index_err
      | kb # _ \<Rightarrow> if d_exists D (index_name tenant) kb then tag_counts D [] [index_name tenant] kbs else Inr [])"

definition count_sum :: "(string \<times> int) list \<Rightarrow> int" where
  "count_sum aggs = sum_list (map snd aggs)"

definition all_tags_in_portion ::
  "('m, 'r) dealer \<Rightarrow> string \<Rightarrow> string list \<Rightarrow> int \<Rightarrow> (string \<times> flt) list res" where
  "all_tags_in_portion D tenant kbs S =
     bindR (tag_counts D [] [index_name tenant] kbs) (\<lambda>aggs.
       Inr (dset_all [] (map (\<lambda>(t, c). (t, np_div (d_rt D) (of_int (c + 1)) (of_int (count_sum aggs + S)))) aggs)))"

text \<open>\<open>round(x)\<close>: halves go to the even neighbour.\<close>

definition round_even :: "rat \<Rightarrow> int" where
  "round_even x =
     (let f = \<lfloor>x\<rfloor>; r = x - of_int f
      in if r < 1 / 2 then f else if 1 / 2 < r then f + 1 else if even f then f else f + 1)"

definition tag_weight :: "pyrt \<Rightarrow> int \<Rightarrow> (string \<times> rat) list \<Rightarrow> string \<times> int \<Rightarrow> string \<times> int" where
  "tag_weight rt total_count tags ac =
     (let prior = max (fround rt (1 / 1000000)) (dget_or tags (fst ac) (fround rt (1 / 10000)));
          share = fround rt (fround rt (fround rt (1 / 10) * of_int (snd ac + 1)) / of_int total_count)
      in (fst ac, round_even (fround rt (share / prior))))"

definition top_tags :: "pyrt \<Rightarrow> int \<Rightarrow> (string \<times> rat) list \<Rightarrow> nat \<Rightarrow> (string \<times> int) list \<Rightarrow> (string \<times> int) list" where
  "top_tags rt S tags n aggs =
     take n (sort_key (\<lambda>ac. - snd ac) (map (tag_weight rt (count_sum aggs + S) tags) aggs))"

definition tag_name :: "string \<Rightarrow> string" where
  "tag_name t = replace_char CHR ''.'' ''_'' t"

definition tag_query ::
  "('m, 'r) dealer \<Rightarrow> string \<Rightarrow> string list \<Rightarrow> string list \<Rightarrow> (string \<times> rat) list \<Rightarrow> nat \<Rightarrow> int \<Rightarrow>
   (string \<times> int) list res" where
  "tag_query D question tenants kbs tags n S =
     bindR (d_question D question 0) (\<lambda>(m, _).
       bindR (tag_counts D [MatchText m] (map index_name tenants) kbs) (\<lambda>aggs.
         Inr (dset_all [] (map (\<lambda>(a, c). (tag_name a, max 1 c)) (top_tags (d_rt D) S tags n aggs)))))"

text \<open>\<open>tag_content\<close> also writes the tags into the chunk.\<close>

definition tag_content ::
  "('m, 'r) dealer \<Rightarrow> string \<Rightarrow> string list \<Rightarrow> (string \<times> rat) list \<Rightarrow> nat \<Rightarrow> int \<Rightarrow> int \<Rightarrow> (pydict, bool) meth" where
  "tag_content D tenant kbs tags n keywords_topn S = (\<lambda>d.
     bindM (readM (\<lambda>d. bindR (required d ''title_tks'') (\<lambda>t. bindR (as_text t) (\<lambda>tt.
         bindR (required d ''content_ltks'') (\<lambda>c. bindR (as_text c) (\<lambda>ct. bindR (important d) (\<lambda>ks.
           tag_counts D [MatchText (Some (d_paragraph D (tt @ '' '' @ ct) ks keywords_topn))] [index_name tenant] kbs)))))))
       (\<lambda>aggs. if aggs = [] then retM False
         else bindM (modM (dset TAG_FLD (PDict (dset_all [] (map (\<lambda>(a, c). (tag_name a, PInt c))
                (filter (\<lambda>ac. 0 < snd ac) (top_tags (d_rt D) S tags n aggs)))))))
              (\<lambda>_. retM True)) d)"

section \<open>Chunks by the table of contents\<close>

definition chunk_field :: "hit_chunk \<Rightarrow> string \<Rightarrow> pyval res" where
  "chunk_field ck k = required (hc_data ck) k"

definition by_score :: "hit_chunk list \<Rightarrow> hit_chunk list" where
  "by_score cks = sort_stable (\<lambda>a b. flt_less (flt_neg (hc_sim a)) (flt_neg (hc_sim b))) cks"

definition vector_key :: "pydict \<Rightarrow> (string \<times> pyval) option" where
  "vector_key d = List.find (\<lambda>kv. ends_with (fst kv) ''_vec'') d"

definition len_of :: "pyval \<Rightarrow> nat res" where
  "len_of v =
     (case v of
        PList xs \<Rightarrow> Inr (length xs)
      | PStr s \<Rightarrow> Inr (py_len s)
      | PDict d \<Rightarrow> Inr (length d)
      | _ \<Rightarrow> Inl (type_err (''object of type '' @ type_name v @ '' has no len()'')))"

definition zero_vec :: "nat \<Rightarrow> pyval" where
  "zero_vec n = PList (replicate n (PFloat 0))"

text \<open>
  The vector of a new chunk: the first value under a key that ends in \<open>_vec\<close>, else zeros; the size of the
  vector found is the size of the zeros from then on.
\<close>

definition found_vector :: "pydict \<Rightarrow> nat \<Rightarrow> (pyval \<times> nat) res" where
  "found_vector d n =
     (case vector_key d of
        None \<Rightarrow> Inr (zero_vec n, n)
      | Some (k, v) \<Rightarrow> bindR (len_of v) (\<lambda>m. Inr (v, m)))"

definition found_chunk :: "pyval \<Rightarrow> string \<Rightarrow> flt \<Rightarrow> pydict \<Rightarrow> nat \<Rightarrow> (hit_chunk \<times> nat) res" where
  "found_chunk doc cid sim d n =
     bindR (required d ''content_ltks'') (\<lambda>ltks. bindR (required d ''content_with_weight'') (\<lambda>cww.
       bindR (required d ''kb_id'') (\<lambda>kb. bindR (found_vector d n) (\<lambda>(vec, m). Inr
         (\<lparr> hc_id = cid,
            hc_data = [(''content_ltks'', ltks), (''content_with_weight'', cww), (''doc_id'', doc),
              (''docnm_kwd'', dget_or d ''docnm_kwd'' (PStr [])), (''kb_id'', kb),
              (''important_kwd'', dget_or d ''important_kwd'' (PList [])), (''image_id'', dget_or d ''img_id'' (PStr [])),
              (''vector'', vec), (''positions'', dget_or d ''position_int'' (PList [])),
              (''doc_type_kwd'', dget_or d ''doc_type_kwd'' (PStr []))],
            hc_sim = sim, hc_vsim = sim, hc_tsim = sim \<rparr>, m)))))"

definition doc_ranks :: "pyrt \<Rightarrow> hit_chunk list \<Rightarrow> ((pyval \<times> flt) list \<times> (pyval \<times> pyval) list) res" where
  "doc_ranks rt cks =
     bindR (mapR (\<lambda>ck. bindR (chunk_field ck ''doc_id'') (\<lambda>d. bindR (chunk_field ck ''kb_id'') (\<lambda>kb.
         Inr (d, kb, hc_sim ck)))) cks) (\<lambda>xs.
       Inr (foldl (\<lambda>(rs, kbs) (d, kb, s).
         (dset d (flt_add rt (dget_or rs d (Fin 0)) s) rs, dset d kb kbs)) ([], []) xs))"

definition best_doc :: "(pyval \<times> flt) list \<Rightarrow> pyval" where
  "best_doc rs = fst (hd (sort_stable (\<lambda>a b. flt_less (flt_neg (snd a)) (flt_neg (snd b))) rs))"

text \<open>A chunk whose content is no JSON list is logged and passed over.\<close>

definition toc_entries :: "pyrt \<Rightarrow> (string \<times> pydict) list \<Rightarrow> pyval list" where
  "toc_entries rt ds =
     concat (map (\<lambda>(_, d). case dget d ''content_with_weight'' of
       Some (PStr s) \<Rightarrow> (case json_loads rt s of
           Some v \<Rightarrow> (case iter_vals v of Inr xs \<Rightarrow> xs | Inl _ \<Rightarrow> [])
         | None \<Rightarrow> [])
     | _ \<Rightarrow> []) ds)"

definition last_index :: "hit_chunk list \<Rightarrow> string \<Rightarrow> nat option" where
  "last_index cks cid = (case filter (\<lambda>i. hc_id (cks ! i) = cid) [0..<length cks] of [] \<Rightarrow> None | js \<Rightarrow> Some (last js))"

fun add_relevant ::
  "('m, 'r) dealer \<Rightarrow> string \<Rightarrow> string list \<Rightarrow> pyval \<Rightarrow> (string \<Rightarrow> nat option) \<Rightarrow> nat \<Rightarrow> (string \<times> flt) list \<Rightarrow>
   hit_chunk list \<Rightarrow> hit_chunk list res" where
  "add_relevant D index kbs doc at_id n [] cks = Inr cks"
| "add_relevant D index kbs doc at_id n ((cid, sim) # ids) cks =
     (case at_id cid of
        Some i \<Rightarrow> add_relevant D index kbs doc at_id n ids
                    (cks[i := (cks ! i)\<lparr>hc_sim := flt_add (d_rt D) (hc_sim (cks ! i)) sim\<rparr>])
      | None \<Rightarrow> bindR (d_get D cid index kbs) (\<lambda>found. case found of
            None \<Rightarrow> add_relevant D index kbs doc at_id n ids cks
          | Some [] \<Rightarrow> add_relevant D index kbs doc at_id n ids cks
          | Some d \<Rightarrow> bindR (found_chunk doc cid sim d n) (\<lambda>(ck, m).
              add_relevant D index kbs doc at_id m ids (cks @ [ck]))))"

definition toc_query :: "pyval \<Rightarrow> string list \<Rightarrow> string list \<Rightarrow> 'm ds_query" where
  "toc_query doc indices kbs =
     \<lparr> q_fields = [PStr ''content_with_weight''], q_highlight = [],
       q_condition = [(''doc_id'', doc), (''toc_kwd'', PStr ''toc'')], q_match = [], q_order = [], q_offset = 0,
       q_limit = 128, q_index = indices, q_kbs = kbs, q_aggs = [], q_rank = None \<rparr>"

definition retrieval_by_toc ::
  "('m, 'r) dealer \<Rightarrow> (pyval list \<Rightarrow> nat \<Rightarrow> (string \<times> flt) list res) \<Rightarrow> hit_chunk list \<Rightarrow> string list \<Rightarrow> nat \<Rightarrow>
   hit_chunk list res" where
  "retrieval_by_toc D relevant cks tenants topn =
     (if cks = [] then Inr []
      else bindR (doc_ranks (d_rt D) cks) (\<lambda>(rs, kbmap).
        let doc = best_doc rs; indices = map index_name tenants
        in bindR (as_text (dget_or kbmap doc PNone)) (\<lambda>kb.
             bindR (d_search D (toc_query doc indices [kb])) (\<lambda>r.
               let toc = toc_entries (d_rt D) (d_fields D r [PStr ''content_with_weight''])
               in if toc = [] then Inr cks
                  else bindR (relevant toc (topn * 2)) (\<lambda>ids.
                    if ids = [] then Inr cks
                    else bindR (if indices = [] then Inl index_err else Inr (hd indices)) (\<lambda>index.
                      bindR (add_relevant D index [kb] doc (last_index cks) 1024 ids cks) (\<lambda>out.
                        Inr (take topn (by_score out)))))))))"

section \<open>Chunks by their parents\<close>

definition mom_of :: "hit_chunk \<Rightarrow> string option" where
  "mom_of ck =
     (case dget (hc_data ck) ''mom_id'' of
        Some (PStr s) \<Rightarrow> if strip_ws s = [] then None else Some s
      | _ \<Rightarrow> None)"

definition add_child :: "(string \<times> hit_chunk list) list \<Rightarrow> hit_chunk \<Rightarrow> (string \<times> hit_chunk list) list" where
  "add_child g ck = (case mom_of ck of None \<Rightarrow> g | Some m \<Rightarrow> dset m (dget_or g m [] @ [ck]) g)"

definition mom_chunks :: "hit_chunk list \<Rightarrow> (string \<times> hit_chunk list) list" where
  "mom_chunks cks = foldl add_child [] cks"

definition parent_or_err :: "pydict option \<Rightarrow> pydict res" where
  "parent_or_err p =
     (case p of None \<Rightarrow> Inl (type_err ''NoneType object is not subscriptable'') | Some d \<Rightarrow> Inr d)"

definition parent_chunk ::
  "('m, 'r) dealer \<Rightarrow> string \<Rightarrow> string \<times> hit_chunk list \<Rightarrow> nat \<Rightarrow> (hit_chunk \<times> nat) res" where
  "parent_chunk D index mc n =
     (let cks = snd mc; mean = d_mean D (map hc_sim cks)
      in bindR (mapR (\<lambda>ck. bindR (chunk_field ck ''kb_id'') as_text) cks) (\<lambda>kbs.
         bindR (d_get D (fst mc) index kbs) (\<lambda>p.
         bindR (mapR (\<lambda>ck. bindR (chunk_field ck ''content_ltks'') as_text) cks) (\<lambda>ltks.
         bindR (parent_or_err p) (\<lambda>d.
         bindR (required d ''content_with_weight'') (\<lambda>cww.
         bindR (required d ''doc_id'') (\<lambda>doc.
         bindR (required d ''kb_id'') (\<lambda>kb.
         bindR (mapR (\<lambda>ck. iter_vals (dget_or (hc_data ck) ''important_kwd'' (PList []))) cks) (\<lambda>kwds.
         bindR (found_vector (hc_data (hd cks)) n) (\<lambda>(vec, m). Inr
           (\<lparr> hc_id = fst mc,
              hc_data = [(''content_ltks'', PStr (join '' '' ltks)), (''content_with_weight'', cww), (''doc_id'', doc),
                (''docnm_kwd'', dget_or d ''docnm_kwd'' (PStr [])), (''kb_id'', kb),
                (''important_kwd'', PList (concat kwds)), (''image_id'', dget_or d ''img_id'' (PStr [])),
                (''vector'', vec), (''positions'', dget_or d ''position_int'' (PList [])),
                (''doc_type_kwd'', dget_or d ''doc_type_kwd'' (PStr []))],
              hc_sim = mean, hc_vsim = mean, hc_tsim = mean \<rparr>, m)))))))))))"

fun parent_chunks ::
  "('m, 'r) dealer \<Rightarrow> string \<Rightarrow> nat \<Rightarrow> (string \<times> hit_chunk list) list \<Rightarrow> hit_chunk list res" where
  "parent_chunks D index n [] = Inr []"
| "parent_chunks D index n (mc # mcs) =
     bindR (parent_chunk D index mc n) (\<lambda>(p, m). bindR (parent_chunks D index m mcs) (\<lambda>ps. Inr (p # ps)))"

definition retrieval_by_children :: "('m, 'r) dealer \<Rightarrow> hit_chunk list \<Rightarrow> string list \<Rightarrow> hit_chunk list res" where
  "retrieval_by_children D cks tenants =
     (if mom_chunks cks = [] then Inr cks
      else bindR (case tenants of [] \<Rightarrow> Inl index_err | t # _ \<Rightarrow> Inr (index_name t)) (\<lambda>index.
        bindR (parent_chunks D index 1024 (mom_chunks cks)) (\<lambda>ps.
          Inr (by_score (filter (\<lambda>ck. mom_of ck = None) cks @ ps)))))"

end
