(* ===== verification/SearchSpec.thy ===== *)
theory SearchSpec
  imports Search "HOL-Library.Multiset" "HOL-Library.Product_Lexorder"
begin

text \<open>
  What a caller of \<open>retrieval\<close> gets page by page, and what happens to a chunk with tags when the question has
  none.
\<close>

section \<open>Slices\<close>

lemma py_slice_nat: "0 \<le> b \<Longrightarrow> 0 \<le> n \<Longrightarrow> py_slice b (b + n) xs = take (nat n) (drop (nat b) xs)"
proof -
  assume "0 \<le> b" and "0 \<le> n"
  then have e: "py_clip b (length xs) = min (length xs) (nat b)"
    "py_clip (b + n) (length xs) = min (length xs) (nat b + nat n)"
    by (auto simp: py_clip_def nat_add_distrib)
  show ?thesis
  proof (cases "nat b \<le> length xs")
    case True
    then have "take (min (length xs) (nat b + nat n) - nat b) (drop (nat b) xs) = take (nat n) (drop (nat b) xs)"
      by (cases "nat b + nat n \<le> length xs") simp_all
    with True show ?thesis by (simp add: py_slice_def e)
  next
    case False
    then show ?thesis by (simp add: py_slice_def e)
  qed
qed

lemma concat_slices: "concat (map (\<lambda>i. take n (drop (i * n) xs)) [0..<m]) = take (m * n) xs"
proof (induction m)
  case (Suc m)
  then show ?case by (simp add: take_add [symmetric] add.commute)
qed simp

lemma mapR_all2:
  assumes "\<And>x. x \<in> set xs \<Longrightarrow> \<exists>y. f x = Inr y \<and> P x y"
  shows "\<exists>ys. mapR f xs = Inr ys \<and> list_all2 P xs ys"
  using assms
proof (induction xs)
  case (Cons x xs)
  from Cons.IH Cons.prems obtain ys where ys: "mapR f xs = Inr ys" "list_all2 P xs ys" by auto
  from Cons.prems [of x] obtain y where "f x = Inr y" "P x y" by auto
  with ys show ?case by (intro exI [of _ "y # ys"]) simp
qed simp

lemma mapR_map: "mapR f (map g xs) = mapR (\<lambda>x. f (g x)) xs"
  by (induction xs) simp_all

lemma concat_map_map: "concat (map (\<lambda>x. map f (g x)) xs) = map f (concat (map g xs))"
  by (induction xs) simp_all

section \<open>The window of a page\<close>

text \<open>
  The quotient of two integers of moderate size, rounded to a double, has the ceiling of the exact quotient:
  it is an integer or at least \<open>2 ^ -26\<close> off the next one, and doubles below \<open>2 ^ 26\<close> are closer than that.
\<close>

definition ceil_exact :: "pyrt \<Rightarrow> bool" where
  "ceil_exact rt \<longleftrightarrow>
     (\<forall>a b. 0 < b \<and> b \<le> 2 ^ 26 \<and> 0 \<le> a \<and> a \<le> 2 ^ 26 \<longrightarrow> ceil_div rt a b = \<lceil>rat_of_int a / rat_of_int b\<rceil>)"

definition pages_in_window :: "pyrt \<Rightarrow> int \<Rightarrow> int" where
  "pages_in_window rt ps = rerank_limit rt ps div ps"

lemma ceil_quot: "0 < b \<Longrightarrow> \<lceil>rat_of_int a / rat_of_int b\<rceil> = - ((- a) div b)"
  by (rule ceiling_divide_eq_div)

lemma limit_multiple:
  assumes "ceil_exact rt" and "1 \<le> ps" and "ps \<le> 2 ^ 26"
  shows "rerank_limit rt ps = pages_in_window rt ps * ps" and "1 \<le> pages_in_window rt ps"
    and "rerank_limit rt ps \<le> 64 + ps"
proof -
  have "\<exists>m\<ge>1. rerank_limit rt ps = m * ps \<and> m * ps \<le> 64 + ps"
  proof (cases "ps = 1")
    case True
    then show ?thesis by (intro exI [of _ 30]) (simp add: rerank_limit_def)
  next
    case False
    define m where "m = - ((- 64) div ps)"
    have c: "ceil_div rt 64 ps = m"
      using assms False unfolding ceil_exact_def m_def by (simp add: ceil_quot)
    have eq: "m * ps = 64 + (- 64) mod ps"
      unfolding m_def using div_mult_mod_eq [of "- 64" ps] by (simp only: minus_mult_left [symmetric])
    with assms have "64 \<le> m * ps" "m * ps \<le> 64 + ps" by (simp_all add: order_less_imp_le)
    moreover have "1 \<le> m"
    proof (rule ccontr)
      assume "\<not> 1 \<le> m"
      with assms(2) have "m * ps \<le> 0" by (simp add: mult_nonpos_nonneg)
      with \<open>64 \<le> m * ps\<close> show False by simp
    qed
    ultimately show ?thesis using False assms by (intro exI [of _ m]) (simp add: rerank_limit_def c)
  qed
  then obtain m where m: "1 \<le> m" "rerank_limit rt ps = m * ps" "m * ps \<le> 64 + ps" by blast
  with assms have "pages_in_window rt ps = m" by (simp add: pages_in_window_def)
  with m show "rerank_limit rt ps = pages_in_window rt ps * ps" "1 \<le> pages_in_window rt ps"
    "rerank_limit rt ps \<le> 64 + ps" by simp_all
qed

lemma window_of_page:
  assumes "ceil_exact rt" and "1 \<le> ps" and "ps * p \<le> 2 ^ 26" and "ps \<le> 2 ^ 25"
    and "mp = pages_in_window rt ps" and "p = (w - 1) * mp + 1 + i" and "0 \<le> i" and "i < mp" and "1 \<le> w"
  shows "ceil_div rt (ps * p) (rerank_limit rt ps) = w"
proof -
  note lm = limit_multiple [OF assms(1,2)]
  from assms(4) have lim: "rerank_limit rt ps = mp * ps" "1 \<le> mp" "mp * ps \<le> 2 ^ 26"
    using lm assms(5) by simp_all
  have "0 \<le> (w - 1) * mp" using assms(9) lim(2) by simp
  then have p: "1 \<le> p" using assms(6,7) by simp
  have "ceil_div rt (ps * p) (mp * ps) = \<lceil>rat_of_int (ps * p) / rat_of_int (mp * ps)\<rceil>"
    using assms(1,2,3) lim(2,3) p unfolding ceil_exact_def by simp
  also have "\<dots> = - ((- (ps * p)) div (mp * ps))"
    using assms(2) lim(2) by (intro ceil_quot) simp
  also have "(- (ps * p)) div (mp * ps) = (- p) div mp"
    using assms(2) div_mult_mult1 [of ps "- p" mp] by (simp add: mult.commute)
  also have "(- p) div mp = - w"
  proof -
    have "- p = (- w) * mp + (mp - 1 - i)" using assms(6) by (simp add: algebra_simps)
    moreover have "0 \<le> mp - 1 - i" "mp - 1 - i < mp" using assms(7,8) by simp_all
    ultimately show ?thesis by (metis div_pos_pos_trivial div_mult_self3 add.commute add_0 less_irrefl order.strict_trans1)
  qed
  finally show ?thesis by (simp add: lim(1))
qed

section \<open>One page of the ranking\<close>

definition complete_hits :: "hits \<Rightarrow> bool" where
  "complete_hits hs \<longleftrightarrow>
     list_all (\<lambda>i. case dget (h_field hs) i of
         None \<Rightarrow> False
       | Some d \<Rightarrow> has_key d ''content_ltks'' \<and> has_key d ''content_with_weight'' \<and> has_key d ''kb_id'') (h_ids hs)"

definition score_lengths :: "nat \<Rightarrow> scores \<Rightarrow> bool" where
  "score_lengths n sc \<longleftrightarrow> length (fst sc) = n \<and> length (fst (snd sc)) = n \<and> length (snd (snd sc)) = n"

text \<open>\<open>np.argsort\<close>: all positions, in an order that never puts a larger value first\<close>

definition argsort_law :: "('m, 'r) dealer \<Rightarrow> bool" where
  "argsort_law D \<longleftrightarrow>
     (\<forall>xs. mset (d_argsort D xs) = mset [0..<length xs] \<and>
           sorted_wrt (\<lambda>i j. \<not> flt_less (xs ! j) (xs ! i)) (d_argsort D xs))"

lemma scored_ids [simp]: "h_ids (scored_hits D mdl hs) = h_ids hs"
  by (simp add: scored_hits_def)

lemma dget_map_snd: "dget (map (\<lambda>(i, d). (i, f i d)) xs) k = map_option (f k) (dget xs k)"
  by (induction xs) auto

lemma list_keywords_keys: "has_key d k \<Longrightarrow> has_key (list_keywords d) k"
  by (auto simp: list_keywords_def split: option.splits pyval.splits)

lemma field_scored:
  assumes "complete_hits hs" and "i \<in> set (h_ids hs)"
  obtains d where "field_of (scored_hits D mdl hs) i = Inr d" and "has_key d ''content_ltks''"
    and "has_key d ''content_with_weight''" and "has_key d ''kb_id''"
proof -
  from assms obtain d where d: "dget (h_field hs) i = Some d" "has_key d ''content_ltks''"
    "has_key d ''content_with_weight''" "has_key d ''kb_id''"
    unfolding complete_hits_def list_all_iff by (metis (no_types, lifting) option.case_eq_if option.collapse)
  show thesis
  proof (cases "d_infinity D \<and> (mdl = None \<or> h_total hs \<le> 0)")
    case True
    with d show ?thesis by (intro that [of d]) (simp_all add: field_of_def scored_hits_def)
  next
    case False
    then have "h_field (scored_hits D mdl hs) =
        map (\<lambda>(i, d). (i, if i \<in> set (h_ids hs) then list_keywords d else d)) (h_field hs)"
      unfolding scored_hits_def by (simp only: if_False) simp
    with d assms(2) show ?thesis
      by (intro that [of "list_keywords d"]) (simp_all add: field_of_def dget_map_snd list_keywords_keys)
  qed
qed

lemma required_key: "has_key d k \<Longrightarrow> \<exists>v. required d k = Inr v"
  by (auto simp: required_def has_key_def)

lemma hit_data_total:
  assumes "has_key d ''content_ltks''" and "has_key d ''content_with_weight''" and "has_key d ''kb_id''"
  shows "\<exists>x. hit_data D hs d = Inr x"
proof -
  obtain a where a: "required d ''content_ltks'' = Inr a" using required_key [OF assms(1)] by blast
  obtain b where b: "required d ''content_with_weight'' = Inr b" using required_key [OF assms(2)] by blast
  obtain c where c: "required d ''kb_id'' = Inr c" using required_key [OF assms(3)] by blast
  show ?thesis unfolding hit_data_def a b c bindR_simps by blast
qed

lemma hit_chunk_total:
  assumes "complete_hits hs" and "score_lengths (length (h_ids hs)) sc" and "i < length (h_ids hs)"
  shows "\<exists>c. hit_chunk_of D a (scored_hits D mdl hs) sc i = Inr c \<and> hc_id c = h_ids hs ! i \<and> hc_sim c = fst sc ! i"
proof -
  from assms(3) have "h_ids hs ! i \<in> set (h_ids hs)" by simp
  then obtain d where d: "field_of (scored_hits D mdl hs) (h_ids hs ! i) = Inr d" "has_key d ''content_ltks''"
    "has_key d ''content_with_weight''" "has_key d ''kb_id''"
    by (rule field_scored [OF assms(1)])
  obtain x where x: "hit_data D (scored_hits D mdl hs) d = Inr x" using hit_data_total [OF d(2-4)] by blast
  have it: "item (h_ids hs) i = Inr (h_ids hs ! i)" "item (fst sc) i = Inr (fst sc ! i)"
    "item (snd (snd sc)) i = Inr (snd (snd sc) ! i)" "item (fst (snd sc)) i = Inr (fst (snd sc) ! i)"
    using assms(2,3) by (simp_all add: item_def score_lengths_def)
  show ?thesis by (simp add: hit_chunk_of_def it d(1) x)
qed

lemma doc_aggs_total:
  assumes "complete_hits hs" and "\<forall>i\<in>set valid. i < length (h_ids hs)"
  shows "\<exists>gs. doc_aggs (scored_hits D mdl hs) valid = Inr gs"
proof -
  have ex: "\<exists>d. bindR (item (h_ids hs) i) (field_of (scored_hits D mdl hs)) = Inr d \<and> True" if "i \<in> set valid" for i
  proof -
    have i: "i < length (h_ids hs)" using assms(2) that by blast
    then have "h_ids hs ! i \<in> set (h_ids hs)" by simp
    then obtain d where "field_of (scored_hits D mdl hs) (h_ids hs ! i) = Inr d"
      by (rule field_scored [OF assms(1)])
    with i show ?thesis by (simp add: item_def)
  qed
  obtain ds where "mapR (\<lambda>i. bindR (item (h_ids hs) i) (field_of (scored_hits D mdl hs))) valid = Inr ds"
    using mapR_all2 [of valid "\<lambda>i. bindR (item (h_ids hs) i) (field_of (scored_hits D mdl hs))" "\<lambda>i d. True"] ex
    by blast
  then show ?thesis by (simp add: doc_aggs_def)
qed

lemma valid_bounds:
  assumes "argsort_law D"
  shows "\<forall>i\<in>set (valid_positions D a sim). i < length sim"
proof -
  have "set (d_argsort D xs) = {0..<length xs}" for xs
    using assms unfolding argsort_law_def by (metis atLeastLessThan_upt mset_eq_setD)
  then show ?thesis by (auto simp: valid_positions_def)
qed

lemma valid_length: "argsort_law D \<Longrightarrow> length (valid_positions D a sim) \<le> length sim"
proof -
  assume "argsort_law D"
  then have "mset (d_argsort D (map flt_neg sim)) = mset [0..<length sim]"
    unfolding argsort_law_def by (metis length_map)
  then have "length (d_argsort D (map flt_neg sim)) = length sim"
    using mset_eq_length by fastforce
  then show ?thesis unfolding valid_positions_def by (metis length_filter_le)
qed

lemma rank_page_total:
  assumes "argsort_law D" and "complete_hits hs" and "score_lengths (length (h_ids hs)) sc"
    and "1 \<le> a_page_size a" and "1 \<le> pages_in_window (d_rt D) (a_page_size a)"
    and "valid = valid_positions D a (fst sc)"
    and "k = nat ((a_page a - 1) mod pages_in_window (d_rt D) (a_page_size a))"
  shows "\<exists>r. rank_page D a (scored_hits D mdl hs) sc = Inr r \<and> r_total r = length valid \<and>
     map hc_id (r_chunks r) = map ((!) (h_ids hs)) (take (nat (a_page_size a)) (drop (k * nat (a_page_size a)) valid)) \<and>
     map hc_sim (r_chunks r) = map ((!) (fst sc)) (take (nat (a_page_size a)) (drop (k * nat (a_page_size a)) valid))"
proof -
  let ?pos = "take (nat (a_page_size a)) (drop (k * nat (a_page_size a)) valid)"
  let ?mp = "pages_in_window (d_rt D) (a_page_size a)"
  have len: "length (fst sc) = length (h_ids hs)" using assms(3) by (simp add: score_lengths_def)
  have vb: "\<forall>i\<in>set valid. i < length (h_ids hs)" using valid_bounds [OF assms(1), of a "fst sc"] unfolding assms(6) len .
  show ?thesis
  proof (cases "fst sc = [] \<or> valid = []")
    case True
    with vb len have v: "valid = []" by auto
    with True assms(6) show ?thesis by (simp add: rank_page_def Let_def no_ranks_def)
  next
    case False
    have "max (rerank_limit (d_rt D) (a_page_size a) div max (a_page_size a) 1) 1 = ?mp"
      using assms(4,5) by (simp add: pages_in_window_def)
    moreover have "0 \<le> (a_page a - 1) mod ?mp" using assms(5) by simp
    ultimately have pos: "page_positions (d_rt D) a valid = ?pos"
      using assms(4,7) by (simp add: page_positions_def Let_def py_slice_nat nat_mult_distrib)
    have ex: "\<exists>c. hit_chunk_of D a (scored_hits D mdl hs) sc i = Inr c \<and>
        (hc_id c = h_ids hs ! i \<and> hc_sim c = fst sc ! i)" if "i \<in> set ?pos" for i
    proof -
      from that have "i \<in> set valid" by (meson in_set_dropD in_set_takeD)
      with vb have "i < length (h_ids hs)" by blast
      then show ?thesis by (rule hit_chunk_total [OF assms(2,3)])
    qed
    obtain cs where cs: "mapR (hit_chunk_of D a (scored_hits D mdl hs) sc) ?pos = Inr cs"
      "list_all2 (\<lambda>i c. hc_id c = h_ids hs ! i \<and> hc_sim c = fst sc ! i) ?pos cs"
      using mapR_all2 [of ?pos "hit_chunk_of D a (scored_hits D mdl hs) sc"
        "\<lambda>i c. hc_id c = h_ids hs ! i \<and> hc_sim c = fst sc ! i"] ex by blast
    have ids: "map hc_id cs = map ((!) (h_ids hs)) ?pos" "map hc_sim cs = map ((!) (fst sc)) ?pos"
      using cs(2) by (induction rule: list_all2_induct) simp_all
    obtain gs where gs: "(if a_aggs a then doc_aggs (scored_hits D mdl hs) valid else Inr []) = Inr gs"
      using doc_aggs_total [OF assms(2) vb, of D mdl] by (cases "a_aggs a") auto
    have "rank_page D a (scored_hits D mdl hs) sc = Inr \<lparr> r_total = length valid, r_chunks = cs, r_aggs = gs \<rparr>"
      using False by (simp add: rank_page_def Let_def assms(6) [symmetric] pos cs(1) gs)
    with ids show ?thesis by simp
  qed
qed

section \<open>All pages of a window\<close>

lemma window_pages: "0 \<le> n \<Longrightarrow> [b + 1..b + n] = map (\<lambda>i. b + 1 + int i) [0..<nat n]" for n :: int
  by (rule nth_equalityI) auto

lemma score_hits_page [simp]: "score_hits D mdl (a\<lparr>a_page := p\<rparr>) hs = score_hits D mdl a hs"
  by (cases mdl; cases "0 < h_total hs") (simp_all add: score_hits_def Let_def)

lemma valid_positions_page [simp]: "valid_positions D (a\<lparr>a_page := p\<rparr>) sim = valid_positions D a sim"
  by (simp add: valid_positions_def post_threshold_def)

lemma valid_values:
  assumes "argsort_law D" and "length sim = length ids"
  shows "mset (map ((!) ids) (valid_positions D a sim)) =
     mset (map fst (filter (\<lambda>x. flt_le (Fin (post_threshold a)) (snd x)) (zip ids sim)))"
    and "sorted_wrt (\<lambda>x y. \<not> flt_less x y) (map ((!) sim) (valid_positions D a sim))"
proof -
  let ?P = "\<lambda>i. flt_le (Fin (post_threshold a)) (sim ! i)"
  have neg: "flt_less (flt_neg x) (flt_neg y) = flt_less y x" for x y by (cases x; cases y) auto
  have law: "mset (d_argsort D (map flt_neg sim)) = mset [0..<length sim]"
    "sorted_wrt (\<lambda>i j. \<not> flt_less (map flt_neg sim ! j) (map flt_neg sim ! i)) (d_argsort D (map flt_neg sim))"
    using assms(1) unfolding argsort_law_def by (metis length_map)+
  have "mset (valid_positions D a sim) = mset (filter ?P [0..<length sim])"
    unfolding valid_positions_def by (simp only: mset_filter law(1))
  then have "mset (map ((!) ids) (valid_positions D a sim)) = mset (map ((!) ids) (filter ?P [0..<length sim]))"
    by simp
  also have "map ((!) ids) (filter ?P [0..<length sim]) =
      map fst (filter (\<lambda>x. flt_le (Fin (post_threshold a)) (snd x)) (zip ids sim))"
  proof -
    have "zip ids sim = map (\<lambda>i. (ids ! i, sim ! i)) [0..<length sim]"
      using assms(2) by (intro nth_equalityI) simp_all
    then show ?thesis by (simp add: filter_map comp_def)
  qed
  finally show "mset (map ((!) ids) (valid_positions D a sim)) =
     mset (map fst (filter (\<lambda>x. flt_le (Fin (post_threshold a)) (snd x)) (zip ids sim)))" .
  have set: "set (d_argsort D (map flt_neg sim)) = {0..<length sim}"
    using law(1) by (metis atLeastLessThan_upt mset_eq_setD)
  have "sorted_wrt (\<lambda>i j. \<not> flt_less (sim ! i) (sim ! j)) (d_argsort D (map flt_neg sim))"
    using law(2) by (rule sorted_wrt_mono_rel [rotated]) (use set neg in auto)
  then have "sorted_wrt (\<lambda>i j. \<not> flt_less (sim ! i) (sim ! j)) (valid_positions D a sim)"
    unfolding valid_positions_def by (rule sorted_wrt_filter)
  then show "sorted_wrt (\<lambda>x y. \<not> flt_less x y) (map ((!) sim) (valid_positions D a sim))"
    by (simp add: sorted_wrt_map)
qed

definition page_of_window :: "('m, 'r) dealer \<Rightarrow> rargs \<Rightarrow> hits \<Rightarrow> flt list \<Rightarrow> nat \<Rightarrow> ranks \<Rightarrow> bool" where
  "page_of_window D a hs sim k r \<longleftrightarrow>
     (let valid = valid_positions D a sim;
          pos = take (nat (a_page_size a)) (drop (k * nat (a_page_size a)) valid)
      in r_total r = length valid \<and> map hc_id (r_chunks r) = map ((!) (h_ids hs)) pos \<and>
         map hc_sim (r_chunks r) = map ((!) sim) pos)"

lemma pages_concat:
  assumes "list_all2 (page_of_window D a hs sim) [0..<m] rs" and "length (valid_positions D a sim) \<le> m * nat (a_page_size a)"
  shows "concat (map (\<lambda>r. map hc_id (r_chunks r)) rs) = map ((!) (h_ids hs)) (valid_positions D a sim)"
    and "concat (map (\<lambda>r. map hc_sim (r_chunks r)) rs) = map ((!) sim) (valid_positions D a sim)"
    and "\<forall>r\<in>set rs. r_total r = length (valid_positions D a sim)"
proof -
  let ?v = "valid_positions D a sim"
  let ?pos = "\<lambda>k. take (nat (a_page_size a)) (drop (k * nat (a_page_size a)) ?v)"
  have all: "concat (map ?pos [0..<m]) = ?v" using assms(2) by (simp add: concat_slices)
  have "map (\<lambda>r. map hc_id (r_chunks r)) rs = map (\<lambda>k. map ((!) (h_ids hs)) (?pos k)) [0..<m]"
    using assms(1) by (induction rule: list_all2_induct) (simp_all add: page_of_window_def Let_def)
  then show "concat (map (\<lambda>r. map hc_id (r_chunks r)) rs) = map ((!) (h_ids hs)) ?v"
    by (simp add: all concat_map_map)
  have "map (\<lambda>r. map hc_sim (r_chunks r)) rs = map (\<lambda>k. map ((!) sim) (?pos k)) [0..<m]"
    using assms(1) by (induction rule: list_all2_induct) (simp_all add: page_of_window_def Let_def)
  then show "concat (map (\<lambda>r. map hc_sim (r_chunks r)) rs) = map ((!) sim) ?v"
    by (simp add: all concat_map_map)
  show "\<forall>r\<in>set rs. r_total r = length ?v"
    using assms(1) by (induction rule: list_all2_induct) (simp_all add: page_of_window_def Let_def)
qed

definition window_search ::
  "('m, 'r) dealer \<Rightarrow> (string \<Rightarrow> pyval res) option \<Rightarrow> rargs \<Rightarrow> int \<Rightarrow> hits res" where
  "window_search D emb a w =
     search D (retrieval_req (d_rt D) (a\<lparr>a_page := (w - 1) * pages_in_window (d_rt D) (a_page_size a) + 1\<rparr>))
       (map index_name (a_tenants a)) (a_kbs a) emb (a_highlight a) (a_rank a)"

lemma retrieval_in_window:
  assumes "argsort_law D" and "ceil_exact (d_rt D)" and "a_question a \<noteq> []" and "1 \<le> a_page_size a"
    and "a_page_size a \<le> 2 ^ 25" and "1 \<le> w" and "n = pages_in_window (d_rt D) (a_page_size a)"
    and "a_page_size a * (w * n) \<le> 2 ^ 26" and "window_search D emb a w = Inr hs"
    and "score_hits D mdl a hs = Inr sc" and "complete_hits hs" and "score_lengths (length (h_ids hs)) sc"
    and "k < nat n"
  shows "\<exists>r. retrieval D emb mdl (a\<lparr>a_page := (w - 1) * n + 1 + int k\<rparr>) = Inr r \<and>
     page_of_window D a hs (fst sc) k r"
proof -
  let ?a = "a\<lparr>a_page := (w - 1) * n + 1 + int k\<rparr>"
  have n1: "1 \<le> n" using limit_multiple(2) [OF assms(2,4)] assms(5,7) by simp
  have win: "ceil_div (d_rt D) (a_page_size a * p) (rerank_limit (d_rt D) (a_page_size a)) = w"
    if "p = (w - 1) * n + 1 + i" "0 \<le> i" "i < n" for p i
  proof -
    have "p \<le> w * n" using that by (simp add: algebra_simps)
    with assms(4) have "a_page_size a * p \<le> a_page_size a * (w * n)" by simp
    with assms(8) have "a_page_size a * p \<le> 2 ^ 26" by simp
    from window_of_page [OF assms(2,4) this assms(5,7) that assms(6)] show ?thesis .
  qed
  have "retrieval_req (d_rt D) ?a = retrieval_req (d_rt D) (a\<lparr>a_page := (w - 1) * n + 1\<rparr>)"
    using win [of "(w - 1) * n + 1 + int k" "int k"] win [of "(w - 1) * n + 1" 0] assms(13) n1
    by (simp add: retrieval_req_def)
  then have s: "search D (retrieval_req (d_rt D) ?a) (map index_name (a_tenants a)) (a_kbs a) emb (a_highlight a)
      (a_rank a) = Inr hs"
    using assms(9) unfolding window_search_def assms(7) by simp
  have "((w - 1) * n + 1 + int k - 1) mod n = int k" using assms(13) n1 by simp
  then have k: "k = nat ((a_page ?a - 1) mod pages_in_window (d_rt D) (a_page_size ?a))"
    using assms(7) by simp
  have ps: "1 \<le> a_page_size ?a" "1 \<le> pages_in_window (d_rt D) (a_page_size ?a)" using assms(4,7) n1 by simp_all
  obtain r where r: "rank_page D ?a (scored_hits D mdl hs) sc = Inr r"
    "page_of_window D a hs (fst sc) k r"
    using rank_page_total [OF assms(1,11,12) ps refl k, of mdl] by (auto simp: page_of_window_def Let_def)
  have "retrieval D emb mdl ?a = Inr r"
    using assms(3,10) by (simp add: retrieval_def s r(1))
  with r(2) show ?thesis by blast
qed

text \<open>C13: the pages of one window of the ranking together hold every hit of its search whose similarity reaches the
  threshold, each on exactly one page, best first over the pages; no page raises, and each page reports the
  number of the hits of its window as the total.\<close>

theorem pages_of_window:
  assumes "argsort_law D" and "ceil_exact (d_rt D)" and "a_question a \<noteq> []" and "1 \<le> a_page_size a"
    and "a_page_size a \<le> 2 ^ 25" and "1 \<le> w" and "n = pages_in_window (d_rt D) (a_page_size a)"
    and "a_page_size a * (w * n) \<le> 2 ^ 26" and "window_search D emb a w = Inr hs"
    and "score_hits D mdl a hs = Inr sc" and "complete_hits hs" and "score_lengths (length (h_ids hs)) sc"
    and "int (length (h_ids hs)) \<le> rerank_limit (d_rt D) (a_page_size a)"
  shows "\<exists>rs. mapR (\<lambda>p. retrieval D emb mdl (a\<lparr>a_page := p\<rparr>)) [(w - 1) * n + 1..w * n] = Inr rs \<and>
     mset (concat (map (\<lambda>r. map hc_id (r_chunks r)) rs)) =
       mset (map fst (filter (\<lambda>x. flt_le (Fin (post_threshold a)) (snd x)) (zip (h_ids hs) (fst sc)))) \<and>
     sorted_wrt (\<lambda>x y. \<not> flt_less x y) (concat (map (\<lambda>r. map hc_sim (r_chunks r)) rs)) \<and>
     (\<forall>r\<in>set rs. r_total r = length (concat (map r_chunks rs)) \<and> r_total r \<le> nat (rerank_limit (d_rt D) (a_page_size a)))"
proof -
  let ?v = "valid_positions D a (fst sc)"
  have len: "length (fst sc) = length (h_ids hs)" using assms(12) by (simp add: score_lengths_def)
  have n1: "1 \<le> n" using limit_multiple(2) [OF assms(2,4)] assms(5,7) by simp
  have "[(w - 1) * n + 1..w * n] = map (\<lambda>i. (w - 1) * n + 1 + int i) [0..<nat n]"
    using window_pages [of n "(w - 1) * n"] n1 by (simp add: algebra_simps)
  moreover obtain rs where rs: "mapR (\<lambda>k. retrieval D emb mdl (a\<lparr>a_page := (w - 1) * n + 1 + int k\<rparr>)) [0..<nat n] = Inr rs"
    "list_all2 (page_of_window D a hs (fst sc)) [0..<nat n] rs"
    using mapR_all2 [of "[0..<nat n]" "\<lambda>k. retrieval D emb mdl (a\<lparr>a_page := (w - 1) * n + 1 + int k\<rparr>)"
        "page_of_window D a hs (fst sc)"] retrieval_in_window [OF assms(1-12)] by auto
  ultimately have all: "mapR (\<lambda>p. retrieval D emb mdl (a\<lparr>a_page := p\<rparr>)) [(w - 1) * n + 1..w * n] = Inr rs"
    by (simp only: mapR_map)
  have "length ?v \<le> length (h_ids hs)"
    using valid_length [OF assms(1), of a "fst sc"] by (simp only: len)
  moreover have "nat (rerank_limit (d_rt D) (a_page_size a)) = nat n * nat (a_page_size a)"
    using limit_multiple(1) [OF assms(2,4)] assms(5,7) n1 by (simp add: nat_mult_distrib)
  ultimately have v: "length ?v \<le> nat n * nat (a_page_size a)" "length ?v \<le> nat (rerank_limit (d_rt D) (a_page_size a))"
    using assms(13) by simp_all
  note cat = pages_concat [OF rs(2) v(1)]
  have "length (concat (map r_chunks rs)) = length ?v"
    using arg_cong [OF cat(1), of length] by (simp add: length_concat comp_def)
  with all cat v(2) valid_values [OF assms(1) len, of a] show ?thesis by (intro exI [of _ rs]) simp
qed

section \<open>Tags without a question about them\<close>

lemma tag_terms_miss:
  assumes "\<forall>t\<in>fst ` set tags. dget query t = None"
  shows "fst (foldl (\<lambda>(nor, denor) (t, sc).
       (case dget query t of Some x \<Rightarrow> fround (d_rt D) (nor + fround (d_rt D) (x * sc)) | None \<Rightarrow> nor,
        fround (d_rt D) (denor + fround (d_rt D) (sc * sc)))) (z, y) tags) = z"
  using assms by (induction tags arbitrary: y) (auto split: prod.splits)

text \<open>Square root and sum of NumPy at nothing, and zero as a float\<close>

definition zero_laws :: "('m, 'r) dealer \<Rightarrow> bool" where
  "zero_laws D \<longleftrightarrow> fround (d_rt D) 0 = 0 \<and> d_sum D [] = 0 \<and> d_sqrt D 0 = 0"

definition has_tags :: "('m, 'r) dealer \<Rightarrow> pydict \<Rightarrow> bool" where
  "has_tags D d \<longleftrightarrow>
     (case dget d TAG_FLD of
        Some (PStr s) \<Rightarrow>
          s \<noteq> [] \<and>
          (case d_eval D s of
             Inr tags \<Rightarrow> PAGERANK_FLD \<notin> fst ` set tags \<and> d_sqrt D (snd (tag_terms D [] tags)) \<noteq> 0
           | Inl _ \<Rightarrow> False)
      | _ \<Rightarrow> False)"

lemma tag_terms_denor: "snd (tag_terms D query tags) = snd (tag_terms D [] tags)"
proof -
  have "snd (foldl (\<lambda>(nor, denor) (t, sc).
       (case dget query t of Some x \<Rightarrow> fround (d_rt D) (nor + fround (d_rt D) (x * sc)) | None \<Rightarrow> nor,
        fround (d_rt D) (denor + fround (d_rt D) (sc * sc)))) (z, y) tags) =
     snd (foldl (\<lambda>(nor, denor) (t, sc).
       (case dget [] t of Some x \<Rightarrow> fround (d_rt D) (nor + fround (d_rt D) (x * sc)) | None \<Rightarrow> nor,
        fround (d_rt D) (denor + fround (d_rt D) (sc * sc)))) (z2, y) tags)" for z z2 y
    by (induction tags arbitrary: z z2 y) (auto split: prod.splits)
  then show ?thesis by (simp add: tag_terms_def)
qed

lemma tag_score_NaN:
  assumes "zero_laws D" and "has_tags D d"
  shows "tag_score D [(PAGERANK_FLD, x)] d = Inr NaN"
proof -
  let ?q = "[(PAGERANK_FLD, x)]"
  from assms(2) obtain s tags where s: "dget d TAG_FLD = Some (PStr s)" "s \<noteq> []" "d_eval D s = Inr tags"
    "PAGERANK_FLD \<notin> fst ` set tags" "d_sqrt D (snd (tag_terms D [] tags)) \<noteq> 0"
    unfolding has_tags_def by (auto split: option.splits pyval.splits sum.splits)
  have "\<forall>t\<in>fst ` set tags. dget ?q t = None" using s(4) by (simp add: image_iff) metis
  then have "fst (tag_terms D ?q tags) = 0" unfolding tag_terms_def by (rule tag_terms_miss)
  moreover have "snd (tag_terms D ?q tags) = snd (tag_terms D [] tags)" by (rule tag_terms_denor)
  ultimately obtain denor where t: "tag_terms D ?q tags = (0, denor)" "d_sqrt D denor \<noteq> 0"
    using s(5) by (cases "tag_terms D ?q tags") auto
  with assms(1) have "denor \<noteq> 0" by (auto simp: zero_laws_def)
  moreover have "query_norm D ?q = 0" using assms(1) by (simp add: query_norm_def zero_laws_def)
  moreover have "np_div (d_rt D) 0 (d_sqrt D denor) = Fin 0" using t(2) assms(1) by (simp add: np_div_def zero_laws_def)
  moreover have "np_div (d_rt D) 0 0 = NaN" by (simp add: np_div_def flt_inf_def)
  ultimately show ?thesis by (simp add: tag_score_def dget_or_def s(1,2,3) as_text_def t(1))
qed

lemma np_zip_NaN:
  assumes "np_zip (flt_add rt) xs ys = Inr zs" and "i < length ys" and "ys ! i = NaN" and "i < length zs"
  shows "zs ! i = NaN"
proof -
  have nan: "flt_add rt x NaN = NaN" for x by (cases x) simp_all
  show ?thesis
  proof (cases "length xs = length ys")
    case True
    with assms have "zs = map2 (flt_add rt) xs ys" by (simp add: np_zip_def)
    with True assms(2,3) show ?thesis by (simp add: nan)
  next
    case False
    show ?thesis
    proof (cases "length xs = 1")
      case True
      with False assms(1) have "zs = map (flt_add rt (hd xs)) ys" by (simp add: np_zip_def)
      with assms(2,3) show ?thesis by (simp add: nan)
    next
      case no: False
      with False assms(1) have one: "length ys = 1" and zs: "zs = map (\<lambda>x. flt_add rt x (hd ys)) xs"
        by (auto simp: np_zip_def split: if_splits)
      from one assms(2,3) have "hd ys = NaN" by (cases ys) auto
      with zs assms(4) show ?thesis by (simp add: nan)
    qed
  qed
qed

lemma mapR_nth: "mapR f xs = Inr ys \<Longrightarrow> i < length xs \<Longrightarrow> f (xs ! i) = Inr (ys ! i)"
  by (induction xs arbitrary: ys i) (auto simp: bindR_eq_Inr less_Suc_eq_0_disj)

lemma feature_NaN:
  assumes "zero_laws D" and "rank_feature_scores D (Some [(PAGERANK_FLD, x)]) hs = Inr fea"
    and "i < length (h_ids hs)" and "dget (h_field hs) (h_ids hs ! i) = Some d" and "has_tags D d"
  shows "length fea = length (h_ids hs)" and "fea ! i = NaN"
proof -
  from assms(2) obtain pr ts where pr: "ranks_of D hs = Inr pr"
    and ts: "mapR (\<lambda>i. bindR (field_of hs i) (tag_score D [(PAGERANK_FLD, x)])) (h_ids hs) = Inr ts"
    and fea: "np_zip (flt_add (d_rt D)) (map (\<lambda>x. flt_mul (d_rt D) x (Fin 10)) ts) pr = Inr fea"
    by (auto simp: rank_feature_scores_def bindR_eq_Inr)
  have len: "length pr = length (h_ids hs)" "length ts = length (h_ids hs)"
    using mapR_length [OF ts] mapR_length [OF pr [unfolded ranks_of_def]] by simp_all
  with fea have f: "fea = map2 (flt_add (d_rt D)) (map (\<lambda>x. flt_mul (d_rt D) x (Fin 10)) ts) pr"
    by (simp add: np_zip_def)
  with len show "length fea = length (h_ids hs)" by simp
  have "ts ! i = NaN"
    using mapR_nth [OF ts assms(3)] assms(4) tag_score_NaN [OF assms(1,5), of x] by (simp add: field_of_def)
  then show "fea ! i = NaN" using f len assms(3) by simp
qed

text \<open>C18: on a store other than Infinity, without a rerank model and with the default rank features (page rank
  only), a hit that carries tags is on no page, whatever its similarity: its tag score is zero divided by the norm
  zero of the asked tags, NaN, which no threshold lets pass.  (Infinity's own scores are used as they are, without
  rank features.)\<close>

theorem tagged_hit_dropped:
  assumes "zero_laws D" and "\<not> d_infinity D" and "a_rank a = Some [(PAGERANK_FLD, x)]"
    and "search D (retrieval_req (d_rt D) a) (map index_name (a_tenants a)) (a_kbs a) emb (a_highlight a) (a_rank a) = Inr hs"
    and "i < length (h_ids hs)" and "distinct (h_ids hs)"
    and "dget (h_field hs) (h_ids hs ! i) = Some d" and "has_tags D d"
    and "retrieval D emb None a = Inr r"
  shows "h_ids hs ! i \<notin> set (map hc_id (r_chunks r))"
proof (cases "a_question a = []")
  case True
  with assms(9) have "r = no_ranks" by (simp add: retrieval_def)
  then show ?thesis by (simp add: no_ranks_def)
next
  case False
  with assms(4,9) obtain sc where sc: "score_hits D None a hs = Inr sc" "rank_page D a (scored_hits D None hs) sc = Inr r"
    by (auto simp: retrieval_def bindR_eq_Inr)
  let ?tkw = "fround (d_rt D) (1 - a_weight a)"
  from sc(1) assms(2,3) have "rerank D hs (a_question a) ?tkw (a_weight a) (Some [(PAGERANK_FLD, x)]) = Inr sc"
    by (simp add: score_hits_def Let_def)
  then have nan: "i < length (fst sc) \<longrightarrow> fst sc ! i = NaN"
    using feature_NaN [OF assms(1) _ assms(5,7,8), of x]
    by (auto simp: rerank_def bindR_eq_Inr assms(5) split: if_splits dest!: np_zip_NaN)
  show ?thesis
  proof
    assume "h_ids hs ! i \<in> set (map hc_id (r_chunks r))"
    then obtain c where c: "c \<in> set (r_chunks r)" "hc_id c = h_ids hs ! i" by auto
    from sc(2) c(1) obtain cs where
      cs: "mapR (hit_chunk_of D a (scored_hits D None hs) sc) (page_positions (d_rt D) a (valid_positions D a (fst sc))) = Inr cs"
        "c \<in> set cs"
      by (auto simp: rank_page_def Let_def bindR_eq_Inr no_ranks_def split: if_splits)
    let ?pos = "page_positions (d_rt D) a (valid_positions D a (fst sc))"
    from cs obtain k where k: "k < length cs" "cs ! k = c" by (auto simp: in_set_conv_nth)
    then have kp: "k < length ?pos" using mapR_length [OF cs(1)] by simp
    from mapR_nth [OF cs(1) kp] k(2) have h: "hit_chunk_of D a (scored_hits D None hs) sc (?pos ! k) = Inr c" by simp
    then have j: "?pos ! k < length (h_ids hs)" "hc_id c = h_ids hs ! (?pos ! k)" "?pos ! k < length (fst sc)"
      by (auto simp: hit_chunk_of_def bindR_eq_Inr item_def split: if_splits)
    with c(2) assms(5,6) have "?pos ! k = i" by (simp add: nth_eq_iff_index_eq)
    with j(3) nan have "fst sc ! (?pos ! k) = NaN" by simp
    moreover have "?pos ! k \<in> set (valid_positions D a (fst sc))"
      using nth_mem [OF kp] unfolding page_positions_def py_slice_def Let_def by (meson in_set_dropD in_set_takeD)
    ultimately show False by (simp add: valid_positions_def)
  qed
qed

section \<open>Witnesses\<close>

text \<open>A store with two hits; \<open>argsort\<close> sorts by a key that puts NaN last.\<close>

fun flt_key :: "flt \<Rightarrow> nat \<times> rat" where
  "flt_key MInf = (0, 0)"
| "flt_key (Fin q) = (1, q)"
| "flt_key PInf = (2, 0)"
| "flt_key NaN = (3, 0)"

definition demo_hit :: "string \<Rightarrow> pydict" where
  "demo_hit i = [(''content_ltks'', PStr ''w''), (''content_with_weight'', PStr i), (''kb_id'', PStr ''k''),
     (''_score'', PFloat (1 / 2))] @ (if i = ''b'' then [(TAG_FLD, PStr ''t'')] else [])"

definition demo_dealer :: "bool \<Rightarrow> (unit, unit) dealer" where
  "demo_dealer norm_by =
     \<lparr> d_rt = plain_rt, d_infinity = norm_by, d_question = (\<lambda>q m. Inr (None, [])), d_paragraph = (\<lambda>s ks n. ()),
       d_search = (\<lambda>q. Inr ()), d_get = (\<lambda>i x kbs. Inr None), d_exists = (\<lambda>x kb. True), d_total = (\<lambda>r. 2),
       d_ids = (\<lambda>r. [''a'', ''b'']),
       d_fields = (\<lambda>r flds. [(''a'', demo_hit ''a''), (''b'', demo_hit ''b'')]),
       d_highlight = (\<lambda>r ks. []), d_aggs = (\<lambda>r f. []), d_fine = id, d_set_order = id, d_shape = (\<lambda>v. Inr [0]),
       d_sqrt = id, d_sum = sum_list, d_eval = (\<lambda>s. Inr [(''music'', 1)]),
       d_hybrid = (\<lambda>v vs ks tks t w. Inr (map (\<lambda>_. Fin (1 / 2)) vs, map (\<lambda>_. Fin 0) vs, map (\<lambda>_. Fin 0) vs)),
       d_token_sim = (\<lambda>ks tks. map (\<lambda>_. Fin 0) tks), d_tidy = id,
       d_argsort = (\<lambda>xs. sort_key (\<lambda>i. flt_key (xs ! i)) [0..<length xs]), d_mean = (\<lambda>xs. Fin 0) \<rparr>"

lemma demo_argsort: "argsort_law (demo_dealer norm_by)"
proof -
  have key: "flt_key x \<le> flt_key y \<Longrightarrow> \<not> flt_less y x" for x y
    by (cases x; cases y) (auto simp: less_eq_prod_def)
  have "sorted_wrt (\<lambda>i j. \<not> flt_less (xs ! j) (xs ! i)) (sort_key (\<lambda>i. flt_key (xs ! i)) ys)" for xs ys
  proof -
    have "sorted_wrt (\<lambda>i j. flt_key (xs ! i) \<le> flt_key (xs ! j)) (sort_key (\<lambda>i. flt_key (xs ! i)) ys)"
      using sorted_sort_key [of "\<lambda>i. flt_key (xs ! i)" ys] by (simp add: sorted_map)
    then show ?thesis by (rule sorted_wrt_mono_rel [rotated]) (rule key)
  qed
  then show ?thesis by (simp add: argsort_law_def demo_dealer_def)
qed

lemma demo_ceil: "ceil_exact plain_rt"
  by (simp add: ceil_exact_def ceil_div_def plain_rt_def)

definition demo_args :: rargs where
  "demo_args = \<lparr> a_question = ''q'', a_tenants = [''t''], a_kbs = [''k''], a_page = 1, a_page_size = 10, a_threshold = 1 / 5,
     a_weight = 1 / 2, a_top = 1024, a_docs = PNone, a_aggs = True, a_highlight = PBool False,
     a_rank = Some [(PAGERANK_FLD, 10)] \<rparr>"

definition demo_hits :: hits where
  "demo_hits = \<lparr> h_total = 2, h_ids = [''a'', ''b''], h_vector = [],
     h_field = [(''a'', demo_hit ''a''), (''b'', demo_hit ''b'')], h_highlight = [], h_aggs = [], h_keywords = [] \<rparr>"

lemma demo_search:
  "search (demo_dealer norm_by) (retrieval_req plain_rt (demo_args\<lparr>a_page := p\<rparr>)) ts kbs None hl rank = Inr demo_hits"
  by (simp add: search_def retrieval_req_def demo_args_def dget_or_def py_int_def as_list_def as_text_def
      search_text_def demo_dealer_def demo_hits_def Let_def)

lemma demo_hit_fields:
  "dget (demo_hit i) ''_score'' = Some (PFloat (1 / 2))" "dget (demo_hit i) ''content_ltks'' = Some (PStr ''w'')"
  "dget (demo_hit i) ''content_with_weight'' = Some (PStr i)" "dget (demo_hit i) ''kb_id'' = Some (PStr ''k'')"
  "dget (demo_hit ''b'') TAG_FLD = Some (PStr ''t'')" "dget (demo_hit ''a'') TAG_FLD = None"
  by (simp_all add: demo_hit_def TAG_FLD_def)

lemma demo_complete: "complete_hits demo_hits"
  by (simp add: complete_hits_def demo_hits_def has_key_def demo_hit_fields)

lemma demo_scores:
  "score_hits (demo_dealer True) None demo_args demo_hits =
     Inr ([Fin (1 / 2), Fin (1 / 2)], [Fin (1 / 2), Fin (1 / 2)], [Fin (1 / 2), Fin (1 / 2)])"
  by (simp add: score_hits_def Let_def demo_dealer_def over_hits_def demo_hits_def field_of_def engine_score_def
      dget_or_def demo_hit_fields py_float_def)

lemma demo_limit: "rerank_limit plain_rt 10 = 70" "pages_in_window plain_rt 10 = 7"
proof -
  have "\<lceil>32 / 5 :: rat\<rceil> = 7" by (rule ceiling_unique) simp_all
  then show "rerank_limit plain_rt 10 = 70" "pages_in_window plain_rt 10 = 7"
    by (simp_all add: rerank_limit_def pages_in_window_def ceil_div_def plain_rt_def)
qed

theorem pages_of_window_witness:
  "\<exists>rs. mapR (\<lambda>p. retrieval (demo_dealer True) None None (demo_args\<lparr>a_page := p\<rparr>)) [1..7] = Inr rs \<and>
     mset (concat (map (\<lambda>r. map hc_id (r_chunks r)) rs)) = {#''a'', ''b''#}"
proof -
  have sel: "a_page_size demo_args = 10" "d_rt (demo_dealer True) = plain_rt" "a_question demo_args = ''q''"
    by (simp_all add: demo_args_def demo_dealer_def)
  have w: "window_search (demo_dealer True) None demo_args 1 = Inr demo_hits"
    by (simp add: window_search_def sel(2) demo_search)
  have thr: "post_threshold demo_args = 1 / 5" by (simp add: post_threshold_def demo_args_def)
  show ?thesis
    using pages_of_window [OF demo_argsort, where a = demo_args and w = 1 and n = 7 and emb = None and mdl = None
        and hs = demo_hits, OF _ _ _ _ _ _ _ w demo_scores demo_complete]
    by (simp add: sel demo_ceil demo_limit thr score_lengths_def) (auto simp: demo_hits_def)
qed

lemma demo_rt: "d_rt (demo_dealer b) = plain_rt" "fround plain_rt = id"
  by (simp_all add: demo_dealer_def plain_rt_def)

lemma demo_zero: "zero_laws (demo_dealer b)"
  by (simp add: zero_laws_def demo_dealer_def plain_rt_def)

lemma demo_tags: "has_tags (demo_dealer b) (demo_hit ''b'')"
proof -
  have e: "d_eval (demo_dealer b) t = Inr [(''music'', 1)]" "d_sqrt (demo_dealer b) = id" for t
    by (simp_all add: demo_dealer_def)
  have "snd (tag_terms (demo_dealer b) [] [(''music'', 1)]) = 1" by (simp add: tag_terms_def demo_rt)
  then show ?thesis by (simp add: has_tags_def demo_hit_fields e PAGERANK_FLD_def)
qed

lemma demo_more_fields:
  "dget (demo_hit i) PAGERANK_FLD = None" "dget (demo_hit i) ''title_tks'' = None"
  "dget (demo_hit i) ''question_tks'' = None" "dget (demo_hit i) ''important_kwd'' = None"
  "dget (demo_hit i) (dense_column 0) = None"
  by (simp_all add: demo_hit_def TAG_FLD_def PAGERANK_FLD_def dense_column_def)

lemma demo_features:
  "rank_feature_scores (demo_dealer b) (Some [(PAGERANK_FLD, 10)]) demo_hits = Inr [Fin 0, NaN]"
  using tag_score_NaN [OF demo_zero demo_tags, of b 10]
  by (simp add: rank_feature_scores_def ranks_of_def demo_hits_def field_of_def dget_or_def demo_more_fields demo_rt
      py_float_def np_zip_def) (simp add: tag_score_def dget_or_def demo_hit_fields demo_rt)

lemma demo_rerank:
  "score_hits (demo_dealer False) None demo_args demo_hits = Inr ([Fin (1 / 2), NaN], [Fin 0, Fin 0], [Fin 0, Fin 0])"
proof -
  have inf: "\<not> d_infinity (demo_dealer False)" by (simp add: demo_dealer_def)
  have q: "d_question (demo_dealer False) t m = Inr (None, [])" for t m by (simp add: demo_dealer_def)
  have hyb: "d_hybrid (demo_dealer False) v vs ks tks t w =
      Inr (map (\<lambda>_. Fin (1 / 2)) vs, map (\<lambda>_. Fin 0) vs, map (\<lambda>_. Fin 0) vs)" for v vs ks tks t w
    by (simp add: demo_dealer_def)
  have v: "over_hits demo_hits (vector_of (demo_dealer False) demo_hits) = Inr [[], []]"
    by (simp add: over_hits_def demo_hits_def field_of_def vector_of_def demo_more_fields)
  have tk: "weighted_tokens (demo_hit i) = Inr [''w'']" for i
    by (simp add: weighted_tokens_def content_tokens_def split_of_def important_def dget_or_def demo_hit_fields
        demo_more_fields words_def unique_def add_new_def times_def)
      (simp add: is_space_def code_def)
  have t: "over_hits demo_hits weighted_tokens = Inr [[''w''], [''w'']]"
    by (simp add: over_hits_def demo_hits_def field_of_def tk)
  have "rerank (demo_dealer False) demo_hits q tkw w (Some [(PAGERANK_FLD, 10)]) =
      Inr ([Fin (1 / 2), NaN], [Fin 0, Fin 0], [Fin 0, Fin 0])" for q tkw w
    by (simp add: rerank_def q v t demo_features hyb np_zip_def demo_rt)
  then show ?thesis by (simp add: score_hits_def Let_def inf demo_args_def)
qed

lemma demo_search_first:
  "search (demo_dealer b) (retrieval_req (d_rt (demo_dealer b)) demo_args) ts kbs None hl rank = Inr demo_hits"
proof -
  have "demo_args\<lparr>a_page := 1\<rparr> = demo_args" by (simp add: demo_args_def)
  then show ?thesis using demo_search [of b 1 ts kbs hl rank] unfolding demo_rt(1) by (simp only:)
qed

lemma demo_page: "\<exists>r. retrieval (demo_dealer False) None None demo_args = Inr r \<and> map hc_id (r_chunks r) = [''a'']"
proof -
  let ?sc = "([Fin (1 / 2), NaN], [Fin 0, Fin 0], [Fin 0, Fin 0])"
  have sel: "a_page_size demo_args = 10" "a_page demo_args = 1" "post_threshold demo_args = 1 / 5"
    by (simp_all add: demo_args_def post_threshold_def)
  have v: "valid_positions (demo_dealer False) demo_args (fst ?sc) = [0]"
    unfolding valid_positions_def sel(3)
    by (simp add: demo_dealer_def less_eq_prod_def)
  have sc: "score_lengths (length (h_ids demo_hits)) ?sc" by (simp add: score_lengths_def demo_hits_def)
  have ps: "1 \<le> a_page_size demo_args" "1 \<le> pages_in_window (d_rt (demo_dealer False)) (a_page_size demo_args)"
    by (simp_all add: sel demo_rt demo_limit)
  have k: "0 = nat ((a_page demo_args - 1) mod pages_in_window (d_rt (demo_dealer False)) (a_page_size demo_args))"
    by (simp add: sel)
  obtain r where r: "rank_page (demo_dealer False) demo_args (scored_hits (demo_dealer False) None demo_hits) ?sc = Inr r"
    "map hc_id (r_chunks r) = map ((!) (h_ids demo_hits)) (take (nat 10) (drop (0 * nat 10) [0]))"
    using rank_page_total [OF demo_argsort demo_complete sc ps v [symmetric] k, of None] unfolding sel by blast
  from r(2) have "map hc_id (r_chunks r) = [''a'']" by (simp add: demo_hits_def)
  moreover have q: "(a_question demo_args = []) = False" by (simp add: demo_args_def)
  have "retrieval (demo_dealer False) None None demo_args = Inr r"
    unfolding retrieval_def q if_False demo_search_first bindR_simps demo_rerank r(1) ..
  ultimately show ?thesis by (intro exI [of _ r] conjI)
qed

theorem tagged_hit_dropped_witness:
  "\<exists>r. retrieval (demo_dealer False) None None demo_args = Inr r \<and> ''a'' \<in> set (map hc_id (r_chunks r)) \<and>
     ''b'' \<notin> set (map hc_id (r_chunks r))"
proof -
  obtain r where r: "retrieval (demo_dealer False) None None demo_args = Inr r" "map hc_id (r_chunks r) = [''a'']"
    using demo_page by (elim exE conjE) (rule that)
  have d: "dget (h_field demo_hits) (h_ids demo_hits ! 1) = Some (demo_hit ''b'')" by (simp add: demo_hits_def)
  have inf: "\<not> d_infinity (demo_dealer False)" by (simp add: demo_dealer_def)
  have rank: "a_rank demo_args = Some [(PAGERANK_FLD, 10)]" by (simp add: demo_args_def)
  have ids: "1 < length (h_ids demo_hits)" "distinct (h_ids demo_hits)" by (simp_all add: demo_hits_def)
  have "h_ids demo_hits ! 1 \<notin> set (map hc_id (r_chunks r))"
    using tagged_hit_dropped [OF demo_zero inf rank demo_search_first ids d demo_tags r(1)] .
  then have "''b'' \<notin> set (map hc_id (r_chunks r))" by (simp add: demo_hits_def del: set_map)
  moreover have "''a'' \<in> set (map hc_id (r_chunks r))" unfolding r(2) by simp
  ultimately show ?thesis using r(1) by (intro exI [of _ r] conjI)
qed

end
