(* ===== verification/RecallSpec.thy ===== *)
theory RecallSpec
  imports Recall SearchSpec DataOpsSpec
begin

text \<open>
  The listing of a document is the store's, however it is fetched; children found by a retrieval give way
  to their parents.
\<close>

section \<open>Listing\<close>

text \<open>A store that answers a page of a listing with that part of it\<close>

definition lists_pages :: "('m, 'r) dealer \<Rightarrow> 'm ds_query \<Rightarrow> (string \<times> pydict) list \<Rightarrow> bool" where
  "lists_pages D q docs \<longleftrightarrow>
     (\<forall>p n. 0 \<le> p \<and> 0 < n \<and> n \<le> 128 \<longrightarrow>
        (\<exists>r. d_search D (q\<lparr>q_offset := p, q_limit := n\<rparr>) = Inr r \<and>
             d_fields D r (q_fields q) = take (nat n) (drop (nat p) docs)))"

definition with_id :: "string \<times> pydict \<Rightarrow> pydict" where
  "with_id idd = dset ''id'' (PStr (fst idd)) (snd idd)"

lemma fetch_page:
  assumes "lists_pages D q docs" and "0 \<le> p" and "0 < n" and "n \<le> 128"
  shows "\<exists>ds. fetch D q p n = Inr ds \<and> map snd ds = map with_id (take (nat n) (drop (nat p) docs)) \<and>
     length ds = min (nat n) (length docs - nat p)"
proof -
  from assms obtain r where r: "d_search D (q\<lparr>q_offset := p, q_limit := n\<rparr>) = Inr r"
    "d_fields D r (q_fields q) = take (nat n) (drop (nat p) docs)"
    unfolding lists_pages_def by blast
  have "fetch D q p n = Inr (map (\<lambda>(i, d). (i, dset ''id'' (PStr i) d)) (take (nat n) (drop (nat p) docs)))"
    by (simp add: fetch_def r)
  then show ?thesis by (auto simp: with_id_def comp_def case_prod_beta min.commute)
qed

lemma chunk_pages_take:
  assumes "lists_pages D q docs" and "0 \<le> p"
  shows "chunk_pages D q maxc p = Inr (map with_id (take (nat (maxc - p)) (drop (nat p) docs)))"
  using assms
proof (induction D q maxc p rule: chunk_pages.induct)
  case (1 D q maxc p)
  show ?case
  proof (cases "maxc \<le> p")
    case True
    then show ?thesis by (subst chunk_pages.simps) simp
  next
    case False
    define n where "n = min 128 (maxc - p)"
    with False have n: "0 < n" "n \<le> 128" by simp_all
    have step: "chunk_pages D q maxc p = bindR (fetch D q p n) (\<lambda>ds.
        if ds = [] \<or> int (length ds) < n then Inr (map snd ds)
        else bindR (chunk_pages D q maxc (p + 128)) (\<lambda>rest. Inr (map snd ds @ rest)))"
      unfolding n_def by (subst chunk_pages.simps) (simp only: False if_False Let_def)
    from fetch_page [OF 1(2,3) n] obtain ds where ds: "fetch D q p n = Inr ds"
      "map snd ds = map with_id (take (nat n) (drop (nat p) docs))"
      "length ds = min (nat n) (length docs - nat p)" by blast
    show ?thesis
    proof (cases "ds = [] \<or> int (length ds) < n")
      case True
      then have "length docs - nat p \<le> nat n" using ds(3) n(1) by auto
      moreover have "nat n \<le> nat (maxc - p)" using n_def by simp
      ultimately have "take (nat n) (drop (nat p) docs) = take (nat (maxc - p)) (drop (nat p) docs)" by simp
      with True ds(1,2) show ?thesis unfolding step by simp
    next
      case full: False
      then have "nat n \<le> length docs - nat p" using ds(3) by auto
      from 1(1) [OF False n_def ds(1) full] 1(2,3)
      have rest: "chunk_pages D q maxc (p + 128) = Inr (map with_id (take (nat (maxc - (p + 128))) (drop (nat (p + 128)) docs)))"
        by simp
      have "take (nat n) (drop (nat p) docs) @ take (nat (maxc - (p + 128))) (drop (nat (p + 128)) docs) =
          take (nat (maxc - p)) (drop (nat p) docs)"
      proof (cases "maxc - p \<le> 128")
        case True
        then show ?thesis by (simp add: n_def)
      next
        case False
        then have e: "nat n = 128" "nat (maxc - p) = 128 + nat (maxc - (p + 128))" "nat (p + 128) = 128 + nat p"
          using 1(3) by (simp_all add: n_def nat_add_distrib flip: nat_add_distrib)
        show ?thesis unfolding e take_add by simp
      qed
      then show ?thesis
        unfolding step ds(1) rest bindR_simps ds(2) by (simp only: full if_False bindR_simps map_append [symmetric])
    qed
  qed
qed

text \<open>C15: fetched page by page of at most 128, the chunks of a document are those of the store's listing from the
  offset up to the maximum, in its order, each with its id: no page is left out or read twice.\<close>

theorem chunk_list_all:
  assumes "lists_pages D (list_query D doc tenant kbs flds by_position) docs" and "0 \<le> start"
  shows "chunk_list D doc tenant kbs maxc start flds by_position =
     Inr (map with_id (take (nat (maxc - start)) (drop (nat start) docs)))"
  unfolding chunk_list_def by (rule chunk_pages_take [OF assms])

text \<open>A store of three documents that answers with the offset and limit it was asked for\<close>

definition shelf :: "(string \<times> pydict) list" where
  "shelf = [(''a'', []), (''b'', []), (''c'', [])]"

definition shelf_dealer :: "(unit, nat \<times> nat) dealer" where
  "shelf_dealer =
     \<lparr> d_rt = plain_rt, d_infinity = True, d_question = (\<lambda>q m. Inr (None, [])), d_paragraph = (\<lambda>s ks n. ()),
       d_search = (\<lambda>q. Inr (nat (q_offset q), nat (q_limit q))),
       d_get = (\<lambda>i x kbs. Inr (Some [(''content_with_weight'', PStr i), (''doc_id'', PStr ''d''), (''kb_id'', PStr ''k'')])),
       d_exists = (\<lambda>x kb. True), d_total = (\<lambda>r. 3), d_ids = (\<lambda>r. map fst (take (snd r) (drop (fst r) shelf))),
       d_fields = (\<lambda>r flds. take (snd r) (drop (fst r) shelf)), d_highlight = (\<lambda>r ks. []), d_aggs = (\<lambda>r f. []),
       d_fine = id, d_set_order = id, d_shape = (\<lambda>v. Inr [0]), d_sqrt = id, d_sum = sum_list,
       d_eval = (\<lambda>s. Inr []), d_hybrid = (\<lambda>v vs ks tks t w. Inr ([], [], [])), d_token_sim = (\<lambda>ks tks. []),
       d_tidy = id, d_argsort = (\<lambda>xs. []), 
       d_mean = (\<lambda>xs. Fin (sum_list (map (\<lambda>x. case x of Fin q \<Rightarrow> q | _ \<Rightarrow> 0) xs) / of_nat (length xs))) \<rparr>"

theorem chunk_list_all_witness:
  "chunk_list shelf_dealer ''d'' ''t'' [''k''] 1024 1 [''x''] False =
     Inr [[(''id'', PStr ''b'')], [(''id'', PStr ''c'')]]"
proof -
  have "lists_pages shelf_dealer (list_query shelf_dealer ''d'' ''t'' [''k''] [''x''] False) shelf"
    by (simp add: lists_pages_def shelf_dealer_def)
  from chunk_list_all [OF this, of 1 1024] show ?thesis
    by (simp add: shelf_def with_id_def eval_nat_numeral)
qed

section \<open>Children and parents\<close>










text \<open>Children as a retrieval returns them, and parents the store knows\<close>

definition child_ok :: "hit_chunk \<Rightarrow> bool" where
  "child_ok ck \<longleftrightarrow>
     (\<exists>c k ks. dget (hc_data ck) ''content_ltks'' = Some (PStr c) \<and> dget (hc_data ck) ''kb_id'' = Some (PStr k) \<and>
        dget_or (hc_data ck) ''important_kwd'' (PList []) = PList ks) \<and> vector_key (hc_data ck) = None"














text \<open>A parent the store no longer has is subscripted all the same.\<close>

lemma missing_parent_raises:
  assumes "mom_of ck = Some m" and "child_ok ck" and "\<And>kbs. d_get D m (index_name t) kbs = Inr None"
  shows "\<exists>msg. retrieval_by_children D [ck] (t # ts) = Inl (Exc TypeErr msg)"
proof -
  from assms(2) obtain c k where ck: "dget (hc_data ck) ''content_ltks'' = Some (PStr c)"
    "dget (hc_data ck) ''kb_id'' = Some (PStr k)" by (auto simp: child_ok_def)
  have "mom_chunks [ck] = [(m, [ck])]" by (simp add: mom_chunks_def add_child_def assms(1) dget_or_def)
  then show ?thesis
    by (simp add: retrieval_by_children_def parent_chunk_def Let_def chunk_field_def required_def ck as_text_def
        assms(3) parent_or_err_def type_err_def)
qed

end
