(* ===== verification/CitationSpec.thy ===== *)
theory CitationSpec
  imports Citations RecallSpec
begin

text \<open>
  Citing an answer keeps its text; the similarity of weighted tokens lies between 0 and 1.
\<close>

section \<open>Pieces\<close>





definition no_lf :: "string \<Rightarrow> string" where
  "no_lf s = filter (\<lambda>c. c \<noteq> lf) s"

lemma no_lf_append [simp]: "no_lf (s @ t) = no_lf s @ no_lf t"
  by (simp add: no_lf_def)

lemma no_lf_lf [simp]: "no_lf (lf # s) = no_lf s"
  by (simp add: no_lf_def)


lemma boundary_Nil [simp]: "boundary [] = 0"
  by simp


lemma split_sentences_nonempty: "split_sentences acc ps \<noteq> []"
  by (induction acc ps rule: split_sentences.induct) (simp_all add: Let_def)


section \<open>Marks\<close>




section \<open>Citing\<close>




















section \<open>Similarity\<close>

text \<open>Rounding to floats is monotone, and exact on floats, one and zero among them.\<close>

definition rounding_laws :: "pyrt \<Rightarrow> bool" where
  "rounding_laws rt \<longleftrightarrow>
     (\<forall>x y. x \<le> y \<longrightarrow> fround rt x \<le> fround rt y) \<and> (\<forall>x. fround rt (fround rt x) = fround rt x) \<and>
     fround rt 0 = 0 \<and> fround rt 1 = 1 \<and> 0 < fround rt (1 / 10 ^ 9)"

lemma fround_mono: "rounding_laws rt \<Longrightarrow> x \<le> y \<Longrightarrow> fround rt x \<le> fround rt y"
  by (simp add: rounding_laws_def)

lemma sum_fixed:
  assumes "rounding_laws rt" and "fround rt s = s"
  shows "fround rt (foldl (\<lambda>s kv. fround rt (s + snd kv)) s ws) = foldl (\<lambda>s kv. fround rt (s + snd kv)) s ws"
  using assms(2)
proof (induction ws arbitrary: s)
  case (Cons w ws)
  have "fround rt (fround rt (s + snd w)) = fround rt (s + snd w)" using assms(1) by (simp add: rounding_laws_def)
  with Cons.IH show ?case by simp
qed simp

lemma sum_part:
  assumes "rounding_laws rt" and "list_all (\<lambda>kv. 0 \<le> snd kv) ws" and "s \<le> t" and "fround rt s = s"
  shows "foldl (\<lambda>s kv. fround rt (s + snd kv)) s (filter P ws) \<le> foldl (\<lambda>s kv. fround rt (s + snd kv)) t ws"
  using assms(2-4)
proof (induction ws arbitrary: s t)
  case (Cons w ws)
  have idem: "fround rt (fround rt x) = fround rt x" for x using assms(1) by (simp add: rounding_laws_def)
  show ?case
  proof (cases "P w")
    case True
    have "fround rt (s + snd w) \<le> fround rt (t + snd w)" using Cons.prems(2) by (intro fround_mono [OF assms(1)]) simp
    with True Cons.IH [of "fround rt (s + snd w)" "fround rt (t + snd w)"] Cons.prems idem show ?thesis by simp
  next
    case False
    have "s \<le> t + snd w" using Cons.prems(1,2) by simp
    then have "fround rt s \<le> fround rt (t + snd w)" by (rule fround_mono [OF assms(1)])
    with Cons.prems(3) have "s \<le> fround rt (t + snd w)" by simp
    with False Cons.IH [of s "fround rt (t + snd w)"] Cons.prems show ?thesis by simp
  qed
qed simp

lemma total_weight_pos:
  assumes "rounding_laws rt" and "list_all (\<lambda>kv. 0 \<le> snd kv) ws"
  shows "0 < total_weight rt ws"
proof -
  have "fround rt (1 / 10 ^ 9) \<le> total_weight rt ws"
    using sum_part [OF assms order_refl, of "fround rt (1 / 10 ^ 9)" "\<lambda>_. False"] assms(1)
    by (simp add: total_weight_def rounding_laws_def)
  with assms(1) show ?thesis by (simp add: rounding_laws_def)
qed

definition nonneg :: "(string list \<Rightarrow> weights) \<Rightarrow> bool" where
  "nonneg weigh \<longleftrightarrow> (\<forall>tks. list_all (\<lambda>kv. 0 \<le> snd kv) (weigh tks))"

lemma add_weight_nonneg:
  assumes "rounding_laws rt" and "list_all (\<lambda>kv. 0 \<le> snd kv) d" and "0 \<le> x"
  shows "list_all (\<lambda>kv. 0 \<le> snd kv) (add_weight rt t x d)"
proof -
  have "0 \<le> dget_or d t 0"
    using assms(2) by (auto simp: dget_or_def list_all_iff split: option.split dest!: map_of_SomeD)
  with assms(3) have "fround rt 0 \<le> fround rt (dget_or d t 0 + x)" by (intro fround_mono [OF assms(1)]) simp
  then have x: "0 \<le> fround rt (dget_or d t 0 + x)" using assms(1) by (simp add: rounding_laws_def)
  have "list_all (\<lambda>kv. 0 \<le> snd kv) e \<Longrightarrow> 0 \<le> v \<Longrightarrow> list_all (\<lambda>kv. 0 \<le> snd kv) (dset t v e)" for e and v :: rat
    by (induction e) auto
  with assms(2) x show ?thesis by (simp add: add_weight_def)
qed

lemma fround_nonneg: "rounding_laws rt \<Longrightarrow> 0 \<le> x \<Longrightarrow> 0 \<le> fround rt x"
  using fround_mono [of rt 0 x] by (simp add: rounding_laws_def)

lemma to_dict_nonneg:
  assumes "rounding_laws rt" and "list_all (\<lambda>kv. 0 \<le> snd kv) d" and "list_all (\<lambda>kv. 0 \<le> snd kv) wts"
  shows "list_all (\<lambda>kv. 0 \<le> snd kv) (to_dict_from rt d wts)"
  using assms(2,3)
proof (induction wts arbitrary: d)
  case (Cons tc wts)
  obtain t c where tc: "tc = (t, c)" by (cases tc)
  have pos: "0 \<le> fround rt (x * fround rt y)" if "0 \<le> x" "0 \<le> y" for x y :: rat
    using that by (intro fround_nonneg [OF assms(1)] mult_nonneg_nonneg)
  let ?d1 = "add_weight rt t (fround rt (c * fround rt (4 / 10))) d"
  have d1: "list_all (\<lambda>kv. 0 \<le> snd kv) ?d1"
    using Cons.prems tc pos [of c "4 / 10"] by (intro add_weight_nonneg [OF assms(1)]) simp_all
  show ?case
  proof (cases wts)
    case Nil
    with d1 show ?thesis by (simp add: tc Let_def)
  next
    case (Cons tc2 rest)
    obtain t2 c2 where tc2: "tc2 = (t2, c2)" by (cases tc2)
    have "0 \<le> max c c2" using Cons.prems(2) Cons tc tc2 by (simp add: le_max_iff_disj)
    then have "list_all (\<lambda>kv. 0 \<le> snd kv) (add_weight rt (t @ t2) (fround rt (max c c2 * fround rt (6 / 10))) ?d1)"
      using pos [of "max c c2" "6 / 10"] by (intro add_weight_nonneg [OF assms(1) d1]) simp_all
    from Cons.IH [OF this] Cons.prems(2) show ?thesis by (simp add: tc Cons tc2 Let_def)
  qed
qed simp

text \<open>C17: with weights that are not negative the token similarity of a question to each chunk lies between 0 and 1,
  one for each chunk in order, and is 1 for a chunk that has every weighted token of the question.\<close>

theorem similarity_bounds:
  assumes "rounding_laws rt" and "nonneg weigh"
  shows "list_all2 (\<lambda>btks x. 0 \<le> x \<and> x \<le> 1 \<and>
       (set (map fst (to_dict rt weigh atks)) \<subseteq> set (map fst (to_dict rt weigh btks)) \<longrightarrow> x = 1))
     btkss (token_similarity rt weigh atks btkss)"
proof -
  let ?q = "to_dict rt weigh atks"
  have q: "list_all (\<lambda>kv. 0 \<le> snd kv) ?q"
    using assms(2) to_dict_nonneg [OF assms(1)] by (simp add: to_dict_def nonneg_def)
  have one: "fround rt 1 = 1" using assms(1) by (simp add: rounding_laws_def)
  have each: "0 \<le> similarity rt ?q d \<and> similarity rt ?q d \<le> 1 \<and> (set (map fst ?q) \<subseteq> set (map fst d) \<longrightarrow> similarity rt ?q d = 1)"
    for d
  proof -
    let ?part = "filter (\<lambda>kv. has_key d (fst kv)) ?q"
    have part: "list_all (\<lambda>kv. 0 \<le> snd kv) ?part" using q by (simp add: list_all_iff)
    have pos: "0 < total_weight rt ?q" "0 < total_weight rt ?part"
      using total_weight_pos [OF assms(1)] q part by blast+
    have "fround rt (fround rt (1 / 10 ^ 9)) = fround rt (1 / 10 ^ 9)" using assms(1) by (simp add: rounding_laws_def)
    then have "total_weight rt ?part \<le> total_weight rt ?q"
      unfolding total_weight_def by (rule sum_part [OF assms(1) q order_refl])
    with pos have "total_weight rt ?part / total_weight rt ?q \<le> 1" by simp
    then have "similarity rt ?q d \<le> 1"
      using fround_mono [OF assms(1), of "total_weight rt ?part / total_weight rt ?q" 1] one by (simp add: similarity_def)
    moreover have "0 \<le> similarity rt ?q d"
      using pos unfolding similarity_def by (intro fround_nonneg [OF assms(1)]) simp
    moreover have "similarity rt ?q d = 1" if "set (map fst ?q) \<subseteq> set (map fst d)"
    proof -
      have "?part = ?q" using that by (auto simp: filter_id_conv has_key_iff)
      with pos one show ?thesis by (simp add: similarity_def)
    qed
    ultimately show ?thesis by blast
  qed
  show ?thesis unfolding token_similarity_def list_all2_map2 by (simp add: each list_all2_refl list.rel_refl)
qed

theorem similarity_bounds_witness:
  "list_all2 (\<lambda>btks x. 0 \<le> x \<and> x \<le> 1) [[''b''], [''a'']]
     (token_similarity plain_rt (map (\<lambda>t. (t, 1))) [''a''] [[''b''], [''a'']])"
proof -
  have "rounding_laws plain_rt" by (simp add: rounding_laws_def plain_rt_def)
  moreover have "nonneg (map (\<lambda>t. (t, 1)))" by (simp add: nonneg_def list_all_iff)
  ultimately have "list_all2 (\<lambda>btks x. 0 \<le> x \<and> x \<le> 1 \<and>
       (set (map fst (to_dict plain_rt (map (\<lambda>t. (t, 1))) [''a''])) \<subseteq>
        set (map fst (to_dict plain_rt (map (\<lambda>t. (t, 1))) btks)) \<longrightarrow> x = 1)) [[''b''], [''a'']]
     (token_similarity plain_rt (map (\<lambda>t. (t, 1))) [''a''] [[''b''], [''a'']])"
    by (rule similarity_bounds)
  then show ?thesis by (rule list_all2_mono) simp
qed

end
