(* ===== verification/Prompts.thy ===== *)
theory Prompts
  imports Search CanvasState
begin

text \<open>
  What goes into the prompts of RAGFlow (\<^verbatim>\<open>ragflow/rag/prompts/generator.py\<close>): messages cut to the context of the
  model, knowledge and memories up to a number of tokens, batches of chunks, answers read as JSON, and the
  table of contents laid over the sections of a document.  The tokenizer, the language model, its cache and
  the JSON repair library are parameters.
\<close>

section \<open>Tokens\<close>

record tok =
  tk_encode :: "string \<Rightarrow> nat list res"
  tk_decode :: "nat list \<Rightarrow> string"

definition num_tokens :: "tok \<Rightarrow> string \<Rightarrow> nat" where
  "num_tokens T s = (case tk_encode T s of Inr ts \<Rightarrow> length ts | Inl _ \<Rightarrow> 0)"

definition num_tokens_val :: "tok \<Rightarrow> pyval \<Rightarrow> nat" where
  "num_tokens_val T v = (case v of PStr s \<Rightarrow> num_tokens T s | _ \<Rightarrow> 0)"

section \<open>Messages\<close>

record msg =
  m_role :: string
  m_content :: string

definition count_msgs :: "tok \<Rightarrow> msg list \<Rightarrow> nat" where
  "count_msgs T ms = sum_list (map (\<lambda>m. num_tokens T (m_content m)) ms)"

text \<open>
  The messages kept are references to those of the caller: a system message at the end is kept twice and both
  change together, so they are positions in the caller's list.
\<close>

definition kept_positions :: "msg list \<Rightarrow> nat list" where
  "kept_positions ms =
     filter (\<lambda>i. m_role (ms ! i) = ''system'') [0..<length ms] @ (if 1 < length ms then [length ms - 1] else [])"

definition set_content :: "nat \<Rightarrow> string \<Rightarrow> msg list \<Rightarrow> msg list" where
  "set_content i s ms = ms[i := (ms ! i)\<lparr>m_content := s\<rparr>]"

definition cut_message :: "tok \<Rightarrow> int \<Rightarrow> msg list \<Rightarrow> nat list \<Rightarrow> nat \<Rightarrow> (int \<times> msg list) res" where
  "cut_message T max_length ms ps i =
     bindR (tk_encode T (m_content (ms ! i))) (\<lambda>ts.
       let ll2 = num_tokens T (m_content (ms ! last ps));
           ms2 = set_content i (tk_decode T (py_slice 0 (max_length - int ll2) ts)) ms
       in Inr (max_length, map ((!) ms2) ps))"

definition message_fit_in :: "pyrt \<Rightarrow> tok \<Rightarrow> msg list \<Rightarrow> int \<Rightarrow> (int \<times> msg list) res" where
  "message_fit_in rt T ms max_length =
     (let c = int (count_msgs T ms)
      in if c < max_length then Inr (c, ms)
         else let ps = kept_positions ms; c2 = int (count_msgs T (map ((!) ms) ps))
              in if c2 < max_length then Inr (c2, map ((!) ms) ps)
                 else if ps = [] then Inl index_err
                 else let ll = num_tokens T (m_content (ms ! hd ps)); ll2 = num_tokens T (m_content (ms ! last ps))
                      in if ll + ll2 = 0 then Inl (Exc ZeroDivisionErr ''division by zero'')
                         else if fround rt (8 / 10) < fround rt (of_nat ll / of_nat (ll + ll2))
                         then cut_message T max_length ms ps (hd ps)
                         else cut_message T max_length ms ps (last ps))"

definition form_message :: "string \<Rightarrow> string \<Rightarrow> msg list" where
  "form_message sys user = [\<lparr> m_role = ''system'', m_content = sys \<rparr>, \<lparr> m_role = ''user'', m_content = user \<rparr>]"

text \<open>The last six messages by default, each cut to 2048 characters; an ASCII upper case is enough for the comparison.\<close>

definition upper_ascii :: "string \<Rightarrow> string" where
  "upper_ascii s = map (\<lambda>c. if 97 \<le> code c \<and> code c \<le> 122 then char_of (code c - 32) else c) s"

fun take_points :: "nat \<Rightarrow> string \<Rightarrow> string" where
  "take_points n [] = []"
| "take_points n (c # cs) =
     (if is_continuation c then c # take_points n cs
      else case n of 0 \<Rightarrow> [] | Suc k \<Rightarrow> c # take_points k cs)"

definition history_entry :: "msg \<Rightarrow> string" where
  "history_entry h =
     (if m_role h = ''system'' then []
      else [lf] @ (if upper_ascii (m_role h) = ''USER'' then ''USER'' else ''AGENT'') @ '': '' @
           take_points 2048 (m_content h) @ (if 2048 < py_len (m_content h) then ''...'' else []))"

definition form_history :: "msg list \<Rightarrow> int \<Rightarrow> string" where
  "form_history hs start = concat (map history_entry (py_slice start (int (length hs)) hs))"

section \<open>Knowledge and memories\<close>

definition budget :: "pyrt \<Rightarrow> int \<Rightarrow> rat" where
  "budget rt max_tokens = fround rt (of_int max_tokens * fround rt (97 / 100))"

text \<open>
  How many chunks are shown: the empty ones are passed over in the count, the one that passes the budget is
  counted and ends it.
\<close>

fun count_chunks :: "pyrt \<Rightarrow> tok \<Rightarrow> int \<Rightarrow> nat \<Rightarrow> pyval list \<Rightarrow> nat" where
  "count_chunks rt T max_tokens used [] = 0"
| "count_chunks rt T max_tokens used (c # cs) =
     (if \<not> truthy c then count_chunks rt T max_tokens used cs
      else let u = used + num_tokens_val T c
           in if budget rt max_tokens < of_nat u then 1 else Suc (count_chunks rt T max_tokens u cs))"

text \<open>The branches of the tree drawing, U+251C and U+2514 with two U+2500\<close>

definition tree_dash :: string where
  "tree_dash = [CHR 0xE2, CHR 0x94, CHR 0x80]"

definition tree_node :: string where
  "tree_node = [CHR 0xE2, CHR 0x94, CHR 0x9C] @ tree_dash @ tree_dash @ '' ''"

definition tree_leaf :: string where
  "tree_leaf = [CHR 0xE2, CHR 0x94, CHR 0x94] @ tree_dash @ tree_dash @ '' ''"

text \<open>Runs of line breaks become one blank.\<close>

fun flat_lines :: "string \<Rightarrow> string" where
  "flat_lines [] = []"
| "flat_lines (c # cs) =
     (if c \<noteq> lf then c # flat_lines cs
      else if cs \<noteq> [] \<and> hd cs = lf then flat_lines cs else CHR '' '' # flat_lines cs)"

definition draw_node :: "pyrt \<Rightarrow> string \<Rightarrow> pyval \<Rightarrow> string" where
  "draw_node rt k line =
     (if line = PNone \<or> py_str rt line = [] then []
      else [lf] @ tree_node @ k @ '': '' @ flat_lines (py_str rt line))"

definition draw_chunk ::
  "pyrt \<Rightarrow> (string \<Rightarrow> nat) option \<Rightarrow> (pyval \<times> pydict) list \<Rightarrow> nat \<Rightarrow> pydict \<Rightarrow> string res" where
  "draw_chunk rt hash docs i ck =
     bindR (case hash of
        None \<Rightarrow> Inr (show_nat i)
      | Some h \<Rightarrow> bindR (as_str ''encode'' (get_value ck ''id'' ''chunk_id'')) (\<lambda>s. Inr (show_nat (h s mod 500)))) (\<lambda>n.
      bindR (as_text (get_value ck ''content'' ''content_with_weight'')) (\<lambda>content.
        Inr ([lf] @ ''ID: '' @ n @ draw_node rt ''Title'' (get_value ck ''docnm_kwd'' ''document_name'') @
             draw_node rt ''URL'' (dget_or ck ''url'' PNone) @
             concat (map (\<lambda>(k, v). draw_node rt k v)
               (dget_or docs (get_value ck ''doc_id'' ''document_id'') [])) @
             [lf] @ tree_leaf @ ''Content:'' @ [lf] @ content)))"

definition kb_prompt ::
  "pyrt \<Rightarrow> tok \<Rightarrow> (pyval list \<Rightarrow> (pyval \<times> pydict) list res) \<Rightarrow> (string \<Rightarrow> nat) option \<Rightarrow> pydict list \<Rightarrow> int \<Rightarrow>
   string list res" where
  "kb_prompt rt T metas hash chunks max_tokens =
     (let n = count_chunks rt T max_tokens 0 (map (\<lambda>ck. get_value ck ''content'' ''content_with_weight'') chunks);
          shown = take n chunks
      in bindR (metas (map (\<lambda>ck. get_value ck ''doc_id'' ''document_id'') shown)) (\<lambda>docs.
           mapR (\<lambda>(i, ck). draw_chunk rt hash docs i ck) (enumerate 0 shown)))"

fun memory_prompt_from :: "pyrt \<Rightarrow> tok \<Rightarrow> int \<Rightarrow> nat \<Rightarrow> string list \<Rightarrow> string list" where
  "memory_prompt_from rt T max_tokens used [] = []"
| "memory_prompt_from rt T max_tokens used (c # cs) =
     (let n = num_tokens T c
      in if budget rt max_tokens < of_nat (used + n) then []
         else c # memory_prompt_from rt T max_tokens (used + n) cs)"

definition memory_prompt :: "pyrt \<Rightarrow> tok \<Rightarrow> string list \<Rightarrow> int \<Rightarrow> string list" where
  "memory_prompt rt T contents max_tokens = memory_prompt_from rt T max_tokens 0 contents"

section \<open>Batches\<close>

fun split_from :: "tok \<Rightarrow> int \<Rightarrow> (nat \<times> string) list \<Rightarrow> nat \<Rightarrow> (nat \<times> string) list \<Rightarrow> (nat \<times> string) list list" where
  "split_from T max_length batch n [] = (if batch = [] then [] else [batch])"
| "split_from T max_length batch n (c # cs) =
     (let t = num_tokens T (snd c)
      in if max_length < int (n + t) then batch # split_from T max_length [c] t cs
         else split_from T max_length (batch @ [c]) (n + t) cs)"

definition split_chunks :: "tok \<Rightarrow> string list \<Rightarrow> int \<Rightarrow> (nat \<times> string) list list" where
  "split_chunks T chunks max_length = split_from T max_length [] 0 (enumerate 0 chunks)"

section \<open>Answers as JSON\<close>

fun after_last :: "string \<Rightarrow> string \<Rightarrow> string option" where
  "after_last p [] = None"
| "after_last p (c # cs) =
     (case after_last p cs of
        Some r \<Rightarrow> Some r
      | None \<Rightarrow> if prefix p (c # cs) then Some (drop (length p) (c # cs)) else None)"

definition json_fence :: string where
  "json_fence = replicate 3 (CHR 0x60) @ ''json'' @ [lf]"

function drop_fences :: "string \<Rightarrow> string" where
  "drop_fences [] = []"
| "drop_fences (c # cs) =
     (if prefix json_fence (c # cs) then drop_fences (drop 7 cs)
      else if prefix (replicate 3 (CHR 0x60)) (c # cs) \<and> list_all ((=) lf) (drop 2 cs) then []
      else c # drop_fences cs)"
  by pat_completeness auto
termination by (relation "measure length") auto

text \<open>The pattern takes everything up to the last end of the model's thinking, fences of JSON, and a fence at the end.\<close>

definition clean_answer :: "string \<Rightarrow> string" where
  "clean_answer a = drop_fences (case after_last ''</think>'' a of Some r \<Rightarrow> r | None \<Rightarrow> a)"

record 'w llm =
  l_rt :: pyrt
  l_tok :: tok
  l_max :: int
  l_chat :: "msg list \<Rightarrow> ('w, string) meth"
  l_loads :: "string \<Rightarrow> pyval res"
  l_cached :: "string \<Rightarrow> string \<Rightarrow> 'w \<Rightarrow> string option"
  l_store :: "string \<Rightarrow> string \<Rightarrow> string \<Rightarrow> 'w \<Rightarrow> 'w"

definition retry_note :: "string \<Rightarrow> string \<Rightarrow> string" where
  "retry_note ans err =
     [lf] @ ''Generated JSON is as following:'' @ [lf] @ ans @ [lf] @ ''But exception while loading:'' @ [lf] @ err @
     [lf] @ ''Please reconsider and correct it.''"

definition add_note :: "string \<Rightarrow> string \<Rightarrow> msg list \<Rightarrow> msg list" where
  "add_note ans err ms =
     (if ans \<noteq> [] \<and> err \<noteq> [] \<and> ms \<noteq> []
      then set_content (length ms - 1) (m_content (last ms) @ retry_note ans err) ms else ms)"

fun gen_attempts ::
  "'w llm \<Rightarrow> string \<Rightarrow> string \<Rightarrow> nat \<Rightarrow> msg list \<Rightarrow> string \<Rightarrow> string \<Rightarrow> ('w, pyval option) meth" where
  "gen_attempts L sys user 0 ms ans err = retM None"
| "gen_attempts L sys user (Suc n) ms ans err =
     (let ms2 = add_note ans err ms
      in bindM (l_chat L ms2) (\<lambda>raw.
           let a = clean_answer raw
           in case l_loads L a of
                Inr v \<Rightarrow> seqM (modM (l_store L sys a user)) (retM (Some v))
              | Inl e \<Rightarrow> gen_attempts L sys user n ms2 a (err @ exc_msg e)))"

definition gen_json :: "'w llm \<Rightarrow> string \<Rightarrow> string \<Rightarrow> nat \<Rightarrow> ('w, pyval option) meth" where
  "gen_json L sys user max_retry = (\<lambda>w.
     case l_cached L sys user w of
       Some c \<Rightarrow> (if c \<noteq> [] then liftM (bindR (l_loads L c) (\<lambda>v. Inr (Some v))) w
                  else bindM (liftM (message_fit_in (l_rt L) (l_tok L) (form_message sys user) (l_max L)))
                         (\<lambda>(_, ms). gen_attempts L sys user max_retry ms [] []) w)
     | None \<Rightarrow> bindM (liftM (message_fit_in (l_rt L) (l_tok L) (form_message sys user) (l_max L)))
                 (\<lambda>(_, ms). gen_attempts L sys user max_retry ms [] []) w)"

end
