(* ===== verification/PromptsSpec.thy ===== *)
theory PromptsSpec
  imports Prompts SearchSpec
begin

text \<open>
  What is left of messages, knowledge, memories and chunks under a limit of tokens.
\<close>

section \<open>Messages\<close>

lemma count_two: "count_msgs T [s, u] = num_tokens T (m_content s) + num_tokens T (m_content u)"
  by (simp add: count_msgs_def)

lemma kept_two: "m_role s = ''system'' \<Longrightarrow> m_role u \<noteq> ''system'' \<Longrightarrow> kept_positions [s, u] = [0, 1]"
  by (simp add: kept_positions_def)

lemma slice_to:
  "length (py_slice 0 k xs) = (if 0 \<le> k then min (length xs) (nat k) else nat (int (length xs) + k))"
proof (cases "0 \<le> k")
  case True
  then show ?thesis using py_slice_nat [of 0 k xs] by simp
next
  case False
  then show ?thesis by (simp add: py_slice_def py_clip_def)
qed

text \<open>C19: a system and a user message that together reach the limit: when the system message is more than
  four fifths it is cut so that both fill the limit; otherwise the user message is cut, to what its own
  tokens leave of the limit: of a user message within the limit at most the difference is kept, of a longer one
  as many tokens as the limit, so that the system message is on top of it.\<close>

theorem fit_two:
  assumes "m_role s = ''system''" and "m_role u \<noteq> ''system''" and "tk_encode T (m_content s) = Inr ts"
    and "tk_encode T (m_content u) = Inr us" and "limit \<le> int (length ts + length us)" and "0 < length ts + length us"
    and "long_system \<longleftrightarrow> fround rt (8 / 10) < fround rt (of_nat (length ts) / of_nat (length ts + length us))"
  shows "\<exists>ks. message_fit_in rt T [s, u] limit =
       Inr (limit, if long_system then [s\<lparr>m_content := tk_decode T ks\<rparr>, u] else [s, u\<lparr>m_content := tk_decode T ks\<rparr>]) \<and>
     (long_system \<longrightarrow> prefix ks ts \<and>
        (int (length us) \<le> limit \<longrightarrow> int (length ks + length us) = limit)) \<and>
     (\<not> long_system \<longrightarrow> prefix ks us \<and>
        (int (length us) \<le> limit \<longrightarrow> length ks = min (length us) (nat (limit - int (length us)))) \<and>
        (0 \<le> limit \<and> limit < int (length us) \<longrightarrow> int (length ts + length ks) = int (length ts) + limit))"
proof -
  let ?ks = "py_slice 0 (limit - int (length us)) (if long_system then ts else us)"
  have n: "num_tokens T (m_content s) = length ts" "num_tokens T (m_content u) = length us"
    using assms(3,4) by (simp_all add: num_tokens_def)
  have c: "\<not> int (count_msgs T [s, u]) < limit" using assms(5) by (simp add: count_two n)
  have pos: "kept_positions [s, u] = [0, 1]" using assms(1,2) by (rule kept_two)
  have same: "map ((!) [s, u]) [0, 1] = [s, u]" by simp
  have nz: "ts = [] \<longrightarrow> us \<noteq> []" using assms(6) by auto
  have fit: "message_fit_in rt T [s, u] limit =
      Inr (limit, if long_system then [s\<lparr>m_content := tk_decode T ?ks\<rparr>, u] else [s, u\<lparr>m_content := tk_decode T ?ks\<rparr>])"
    using c assms(7)
    by (simp add: message_fit_in_def Let_def pos n nz cut_message_def set_content_def assms(3,4)
        del: of_nat_add)
  have pre: "prefix (py_slice 0 k xs) xs" for k and xs :: "nat list"
    by (simp add: py_slice_def py_clip_def take_is_prefix)
  show ?thesis
    using fit pre assms(5) by (intro exI [of _ ?ks]) (auto simp: slice_to)
qed

definition demo_tok :: tok where
  "demo_tok = \<lparr> tk_encode = (\<lambda>s. Inr (map code s)), tk_decode = map char_of \<rparr>"

theorem fit_two_witness:
  "\<exists>ks :: nat list. message_fit_in plain_rt demo_tok (form_message ''ab'' ''cdefg'') 4 =
     Inr (4, [\<lparr> m_role = ''system'', m_content = ''ab'' \<rparr>, \<lparr> m_role = ''user'', m_content = map char_of ks \<rparr>]) \<and>
     int (2 + length ks) = 6"
proof -
  let ?s = "\<lparr> m_role = ''system'', m_content = ''ab'' \<rparr>" and ?u = "\<lparr> m_role = ''user'', m_content = ''cdefg'' \<rparr>"
  have e: "tk_encode demo_tok (m_content ?s) = Inr (map code ''ab'')"
    "tk_encode demo_tok (m_content ?u) = Inr (map code ''cdefg'')"
    by (simp_all add: demo_tok_def)
  have short: "False \<longleftrightarrow> fround plain_rt (8 / 10) <
      fround plain_rt (of_nat (length (map code ''ab'')) / of_nat (length (map code ''ab'') + length (map code ''cdefg'')))"
    by (simp add: plain_rt_def)
  obtain ks where "message_fit_in plain_rt demo_tok [?s, ?u] 4 = Inr (4, [?s, ?u\<lparr>m_content := tk_decode demo_tok ks\<rparr>])"
    "int (length (map code ''ab'') + length ks) = int (length (map code ''ab'')) + 4"
    using fit_two [OF _ _ e _ _ short, of 4] by (simp add: short [symmetric]) blast
  then show ?thesis by (intro exI [of _ ks]) (simp add: form_message_def demo_tok_def)
qed

text \<open>A single long message of a user is dropped as a whole.\<close>

lemma fit_single:
  assumes "m_role u \<noteq> ''system''" and "0 < limit" and "limit \<le> int (num_tokens T (m_content u))"
  shows "message_fit_in rt T [u] limit = Inr (0, [])"
  using assms by (simp add: message_fit_in_def Let_def kept_positions_def count_msgs_def)

section \<open>Knowledge\<close>

definition content_of :: "pydict \<Rightarrow> pyval" where
  "content_of ck = get_value ck ''content'' ''content_with_weight''"

definition tokens_upto :: "tok \<Rightarrow> nat \<Rightarrow> pyval list \<Rightarrow> nat" where
  "tokens_upto T k cs = sum_list (map (num_tokens_val T) (take k cs))"

lemma count_chunks_spec:
  assumes "list_all truthy cs"
  shows "count_chunks rt T m used cs \<le> length cs \<and>
     (\<forall>k. 0 < k \<and> k < count_chunks rt T m used cs \<longrightarrow> of_nat (used + tokens_upto T k cs) \<le> budget rt m) \<and>
     (count_chunks rt T m used cs < length cs \<longrightarrow>
        budget rt m < of_nat (used + tokens_upto T (count_chunks rt T m used cs) cs))"
  using assms
proof (induction cs arbitrary: used)
  case (Cons c cs)
  let ?u = "used + num_tokens_val T c"
  show ?case
  proof (cases "budget rt m < of_nat ?u")
    case True
    with Cons.prems show ?thesis by (simp add: Let_def tokens_upto_def)
  next
    case False
    let ?n = "count_chunks rt T m ?u cs"
    have n: "count_chunks rt T m used (c # cs) = Suc ?n" using False Cons.prems by (simp add: Let_def)
    have step: "used + tokens_upto T (Suc k) (c # cs) = ?u + tokens_upto T k cs" for k
      by (simp add: tokens_upto_def)
    have IH: "?n \<le> length cs" "\<forall>k. 0 < k \<and> k < ?n \<longrightarrow> of_nat (?u + tokens_upto T k cs) \<le> budget rt m"
      "?n < length cs \<longrightarrow> budget rt m < of_nat (?u + tokens_upto T ?n cs)"
      using Cons.IH [of ?u] Cons.prems by simp_all
    have "of_nat (used + tokens_upto T k (c # cs)) \<le> budget rt m" if "0 < k" "k < Suc ?n" for k
    proof (cases k)
      case (Suc i)
      show ?thesis
      proof (cases "i = 0")
        case True
        with False Suc show ?thesis by (simp add: tokens_upto_def)
      next
        case False
        with IH(2) that Suc step show ?thesis by (metis Suc_less_eq neq0_conv)
      qed
    qed (use that in simp)
    moreover have "Suc ?n < length (c # cs) \<longrightarrow> budget rt m < of_nat (used + tokens_upto T (Suc ?n) (c # cs))"
      using IH(3) unfolding step by simp
    ultimately show ?thesis unfolding n using IH(1) by simp
  qed
qed simp

text \<open>With texts for contents, the prompt shows chunks from the front in their order without an
  exception: all but the last of them stay within 97 percent of the limit, and when any chunk is left out the
  last one shown has passed it.\<close>

theorem kb_prompt_budget:
  assumes "\<forall>ck\<in>set chunks. \<exists>s. content_of ck = PStr s \<and> s \<noteq> []" and "\<And>ds. \<exists>m. metas ds = Inr m"
  shows "\<exists>ps. kb_prompt rt T metas None chunks limit = Inr ps \<and> length ps \<le> length chunks \<and>
     (\<forall>i<length ps. \<exists>docs. draw_chunk rt None docs i (chunks ! i) = Inr (ps ! i)) \<and>
     (\<forall>k. 0 < k \<and> k < length ps \<longrightarrow> of_nat (tokens_upto T k (map content_of chunks)) \<le> budget rt limit) \<and>
     (length ps < length chunks \<longrightarrow> budget rt limit < of_nat (tokens_upto T (length ps) (map content_of chunks)))"
proof -
  let ?cs = "map content_of chunks"
  let ?n = "count_chunks rt T limit 0 ?cs"
  have "list_all truthy ?cs" using assms(1) by (auto simp: list_all_iff)
  note spec = count_chunks_spec [OF this, of rt T limit 0]
  obtain docs where docs: "metas (map (\<lambda>ck. get_value ck ''doc_id'' ''document_id'') (take ?n chunks)) = Inr docs"
    using assms(2) by blast
  let ?f = "\<lambda>(i, ck). draw_chunk rt None docs i ck"
  have "\<exists>y. ?f x = Inr y \<and> draw_chunk rt None docs (fst x) (snd x) = Inr y" if "x \<in> set (enumerate 0 (take ?n chunks))" for x
  proof -
    obtain i ck where x: "x = (i, ck)" by (cases x)
    with that have "ck \<in> set chunks" by (auto simp: in_set_enumerate_eq)
    with assms(1) obtain s where "get_value ck ''content'' ''content_with_weight'' = PStr s" unfolding content_of_def by blast
    then show ?thesis by (simp add: x draw_chunk_def as_text_def)
  qed
  from mapR_all2 [of "enumerate 0 (take ?n chunks)" ?f "\<lambda>x y. draw_chunk rt None docs (fst x) (snd x) = Inr y", OF this]
  obtain ps where ps: "mapR ?f (enumerate 0 (take ?n chunks)) = Inr ps"
    "list_all2 (\<lambda>x y. draw_chunk rt None docs (fst x) (snd x) = Inr y) (enumerate 0 (take ?n chunks)) ps" by blast
  have len: "length ps = ?n" using list_all2_lengthD [OF ps(2)] spec by simp
  have each: "draw_chunk rt None docs i (chunks ! i) = Inr (ps ! i)" if "i < length ps" for i
  proof -
    have "i < length (take ?n chunks)" using that len spec by simp
    then have "enumerate 0 (take ?n chunks) ! i = (i, chunks ! i)" by (simp add: nth_enumerate_eq)
    with list_all2_nthD2 [OF ps(2) that] show ?thesis by simp
  qed
  have "kb_prompt rt T metas None chunks limit = Inr ps"
    using docs ps(1) by (simp add: kb_prompt_def Let_def content_of_def [abs_def, symmetric])
  with len each spec show ?thesis by (intro exI [of _ ps]) auto
qed

theorem kb_prompt_budget_witness:
  "\<exists>ps. kb_prompt plain_rt demo_tok (\<lambda>ds. Inr []) None [[(''content'', PStr ''ab'')], [(''content'', PStr ''c'')]] 1 = Inr ps \<and>
     (length ps < 2 \<longrightarrow> budget plain_rt 1 < of_nat (tokens_upto demo_tok (length ps) [PStr ''ab'', PStr ''c'']))"
proof -
  let ?chunks = "[[(''content'', PStr ''ab'')], [(''content'', PStr ''c'')]]"
  have c: "map content_of ?chunks = [PStr ''ab'', PStr ''c'']" by (simp add: content_of_def get_value_def dget_or_def)
  then have texts: "\<forall>ck\<in>set ?chunks. \<exists>s. content_of ck = PStr s \<and> s \<noteq> []" by simp
  have metas: "\<exists>m. Inr [] = (Inr m :: (pyval \<times> pydict) list res)" for ds :: "pyval list" by blast
  obtain ps where "kb_prompt plain_rt demo_tok (\<lambda>ds. Inr []) None ?chunks 1 = Inr ps"
    "length ps < length ?chunks \<longrightarrow>
       budget plain_rt 1 < of_nat (tokens_upto demo_tok (length ps) (map content_of ?chunks))"
    using kb_prompt_budget [OF texts, of "\<lambda>ds. Inr []", OF metas, of plain_rt demo_tok 1]
    by (elim exE conjE) (rule that)
  then show ?thesis unfolding c by (intro exI [of _ ps]) simp
qed

text \<open>An empty chunk in front takes the place of a chunk that fits.\<close>

lemma kb_empty_first:
  assumes "\<not> budget rt m < of_nat (num_tokens T s)" and "s \<noteq> []"
  shows "count_chunks rt T m 0 [PStr [], PStr s] = 1"
  using assms by (simp add: num_tokens_val_def Let_def)

section \<open>Memories and batches\<close>

lemma memory_prompt_prefix:
  "prefix (memory_prompt_from rt T m used cs) cs \<and>
   (memory_prompt_from rt T m used cs \<noteq> [] \<longrightarrow>
      of_nat (used + sum_list (map (num_tokens T) (memory_prompt_from rt T m used cs))) \<le> budget rt m)"
proof (induction cs arbitrary: used)
  case (Cons c cs)
  show ?case
  proof (cases "budget rt m < of_nat (used + num_tokens T c)")
    case True
    then show ?thesis by (simp add: Let_def)
  next
    case False
    with Cons.IH [of "used + num_tokens T c"] show ?thesis
      by (cases "memory_prompt_from rt T m (used + num_tokens T c) cs = []") (simp_all add: Let_def add.assoc)
  qed
qed simp

lemma split_from_spec:
  assumes "n = sum_list (map (\<lambda>c. num_tokens T (snd c)) batch)" and "int n \<le> m \<or> length batch \<le> 1"
  shows "concat (split_from T m batch n cs) = batch @ cs \<and>
     (\<forall>b\<in>set (split_from T m batch n cs). int (sum_list (map (\<lambda>c. num_tokens T (snd c)) b)) \<le> m \<or> length b \<le> 1)"
  using assms
proof (induction cs arbitrary: batch n)
  case Nil
  then show ?case by simp
next
  case (Cons c cs)
  let ?t = "num_tokens T (snd c)"
  show ?case
  proof (cases "m < int (n + ?t)")
    case True
    with Cons.IH [of ?t "[c]"] Cons.prems show ?thesis by (simp add: Let_def)
  next
    case False
    with Cons.IH [of "n + ?t" "batch @ [c]"] Cons.prems(1) show ?thesis by (simp add: Let_def)
  qed
qed

text \<open>The batches of chunks are the chunks with their numbers, in order, and a batch is within the
  limit unless it is a single chunk.\<close>

theorem batches_conserve:
  "concat (split_chunks T chunks m) = enumerate 0 chunks \<and>
   (\<forall>b\<in>set (split_chunks T chunks m). int (sum_list (map (\<lambda>c. num_tokens T (snd c)) b)) \<le> m \<or> length b \<le> 1)"
  using split_from_spec [of 0 T "[]" m "enumerate 0 chunks"] by (simp add: split_chunks_def)

theorem batches_conserve_witness:
  "split_chunks demo_tok [''ab'', ''cde'', ''f''] 4 = [[(0, ''ab'')], [(1, ''cde''), (2, ''f'')]] \<and>
   list_all (\<lambda>b. int (sum_list (map (\<lambda>c. num_tokens demo_tok (snd c)) b)) \<le> 4 \<or> length b \<le> 1)
     (split_chunks demo_tok [''ab'', ''cde'', ''f''] 4)"
proof
  show "split_chunks demo_tok [''ab'', ''cde'', ''f''] 4 = [[(0, ''ab'')], [(1, ''cde''), (2, ''f'')]]" by code_simp
qed (use batches_conserve [of demo_tok "[''ab'', ''cde'', ''f'']" 4] in \<open>simp add: list_all_iff\<close>)

section \<open>Attempts\<close>

text \<open>A model is asked at most as often as the attempts allow; \<open>calls\<close> counts what was asked.\<close>

definition counts :: "('w \<Rightarrow> nat) \<Rightarrow> 'w llm \<Rightarrow> bool" where
  "counts calls L \<longleftrightarrow>
     (\<forall>ms w. calls (snd (l_chat L ms w)) = Suc (calls w)) \<and> (\<forall>s a u w. calls (l_store L s a u w) = calls w)"

lemma attempts_bound:
  assumes "counts calls L"
  shows "calls (snd (gen_attempts L sys user n ms ans err w)) \<le> calls w + n"
proof (induction n arbitrary: ms ans err w)
  case (Suc n)
  obtain r w1 where chat: "l_chat L (add_note ans err ms) w = (r, w1)" by (cases "l_chat L (add_note ans err ms) w")
  have c: "calls w1 = Suc (calls w)" using assms chat unfolding counts_def by (metis snd_conv)
  show ?case
  proof (cases r)
    case (Inl e)
    then show ?thesis by (simp add: Let_def bindM_def chat c)
  next
    case (Inr raw)
    show ?thesis
    proof (cases "l_loads L (clean_answer raw)")
      case (Inl e)
      with Inr Suc.IH [of "add_note ans err ms" "clean_answer raw" "err @ exc_msg e" w1] show ?thesis
        by (simp add: Let_def bindM_def chat c)
    next
      case (Inr v)
      with \<open>r = Inr raw\<close> assms show ?thesis
        by (simp add: Let_def bindM_def seqM_def chat c counts_def)
    qed
  qed
qed simp

end
