(* ===== verification/TocIndex.thy ===== *)
theory TocIndex
  imports Prompts
begin

text \<open>
  The table of contents of a document (\<^verbatim>\<open>ragflow/rag/prompts/generator.py\<close>): finding the section of each entry, and the
  chunks that belong to a question.
\<close>

section \<open>Sections of the entries\<close>

record toc_item =
  ti_structure :: string
  ti_title :: string
  ti_indices :: "nat list"

definition squeeze :: "string \<Rightarrow> string" where
  "squeeze s = filter (\<lambda>c. c \<noteq> CHR '' '') s"

definition add_index :: "string \<Rightarrow> nat \<Rightarrow> (string \<times> nat list) list \<Rightarrow> (string \<times> nat list) list" where
  "add_index k i m = dset k (dget_or m k [] @ [i]) m"

definition toc_map :: "toc_item list \<Rightarrow> (string \<times> nat list) list" where
  "toc_map toc =
     foldl (\<lambda>m (i, it). add_index (strip_ws (ti_title it)) i (add_index (squeeze (ti_structure it @ ti_title it)) i m)) []
       (enumerate 0 toc)"

definition add_section :: "(string \<times> nat list) list \<Rightarrow> nat \<times> string \<Rightarrow> toc_item list \<Rightarrow> toc_item list" where
  "add_section m isec toc =
     foldl (\<lambda>t j. t[j := (t ! j)\<lparr>ti_indices := ti_indices (t ! j) @ [fst isec]\<rparr>]) toc
       (dget_or m (squeeze (strip_ws (snd isec))) [])"

definition match_sections :: "toc_item list \<Rightarrow> string list \<Rightarrow> toc_item list" where
  "match_sections toc sections =
     foldl (\<lambda>t isec. add_section (toc_map toc) isec t) (map (\<lambda>it. it\<lparr>ti_indices := []\<rparr>) toc) (enumerate 0 sections)"

text \<open>
  All assignments of sections to entries that do not go back, by depth-first search; a pth ends early at an
  entry all of whose sections lie before the last one taken.
\<close>

type_synonym toc_path = "(nat \<times> nat) list"

fun all_paths :: "nat \<Rightarrow> nat list list \<Rightarrow> toc_path \<Rightarrow> toc_path list" where
  "all_paths start [] pth = (if pth = [] then [] else [pth])"
| "all_paths start (ind # rest) pth =
     (if ind = [] then all_paths (Suc start) rest pth
      else let js = filter (\<lambda>j. pth = [] \<or> fst (last pth) \<le> j) ind
           in if js = [] then (if pth = [] then [] else [pth])
              else concat (map (\<lambda>j. all_paths (Suc start) rest (pth @ [(j, start)])) js))"

text \<open>\<open>max(..., key=len)\<close>: the first of the longest; of nothing it raises.\<close>

fun longest :: "toc_path list \<Rightarrow> toc_path res" where
  "longest [] = Inl (Exc ValueErr ''max() iterable argument is empty'')"
| "longest (p # ps) = Inr (foldl (\<lambda>b q. if length b < length q then q else b) p ps)"

definition assign_path :: "toc_path \<Rightarrow> toc_item list \<Rightarrow> toc_item list" where
  "assign_path pth toc =
     foldl (\<lambda>t (j, i). t[i := (t ! i)\<lparr>ti_indices := [j]\<rparr>]) (map (\<lambda>it. it\<lparr>ti_indices := []\<rparr>) toc) pth"

text \<open>The sections the model is asked about for an entry without one: from the entry before to the next entry found\<close>

definition window_start :: "toc_item list \<Rightarrow> nat \<Rightarrow> nat" where
  "window_start toc i = (if 0 < i \<and> ti_indices (toc ! (i - 1)) \<noteq> [] then last (ti_indices (toc ! (i - 1))) else 0)"

definition window_end :: "toc_item list \<Rightarrow> nat \<Rightarrow> nat \<Rightarrow> nat" where
  "window_end toc i n =
     (case dropWhile (\<lambda>it. ti_indices it = []) (drop (Suc i) toc) of
        [] \<Rightarrow> n
      | it # _ \<Rightarrow> hd (ti_indices it))"

text \<open>\<open>ask\<close> is the question to the model, with its answer's key \<open>exist\<close> compared; it may raise.\<close>

type_synonym 'w asker = "string \<Rightarrow> string \<Rightarrow> string \<Rightarrow> ('w, bool) meth"

fun ask_sections :: "'w asker \<Rightarrow> toc_item \<Rightarrow> (nat \<times> string) list \<Rightarrow> ('w, nat option) meth" where
  "ask_sections ask it [] = retM None"
| "ask_sections ask it ((j, sec) # secs) =
     bindM (ask (ti_structure it) (ti_title it) sec) (\<lambda>yes.
       if yes then retM (Some j) else ask_sections ask it secs)"

definition find_entry :: "'w asker \<Rightarrow> string list \<Rightarrow> toc_item list \<Rightarrow> nat \<Rightarrow> ('w, toc_item list) meth" where
  "find_entry ask sections toc i =
     (if ti_indices (toc ! i) \<noteq> [] then retM toc
      else let st = window_start toc i; e = min (Suc (window_end toc i (length sections))) (length sections)
           in bindM (ask_sections ask (toc ! i) (map (\<lambda>j. (j, sections ! j)) [st..<e])) (\<lambda>found.
                case found of
                  None \<Rightarrow> retM toc
                | Some j \<Rightarrow> retM (toc[i := (toc ! i)\<lparr>ti_indices := [j]\<rparr>])))"

fun find_entries :: "'w asker \<Rightarrow> string list \<Rightarrow> nat list \<Rightarrow> toc_item list \<Rightarrow> ('w, toc_item list) meth" where
  "find_entries ask sections [] toc = retM toc"
| "find_entries ask sections (i # ns) toc =
     bindM (find_entry ask sections toc i) (\<lambda>t. find_entries ask sections ns t)"

definition table_of_contents_index :: "'w asker \<Rightarrow> toc_item list \<Rightarrow> string list \<Rightarrow> ('w, toc_item list) meth" where
  "table_of_contents_index ask toc sections =
     (if toc = [] \<or> sections = [] then retM []
      else bindM (liftM (longest (all_paths 0 (map ti_indices (match_sections toc sections)) []))) (\<lambda>pth.
        find_entries ask sections [0..<length toc] (assign_path pth toc)))"

section \<open>Chunks of the entries a question is about\<close>

text \<open>\<open>ans\<close> is the answer of the model: scores for the entries, in their order; the chunk ids are texts.\<close>

definition entry_score :: "pyval \<Rightarrow> pyval option" where
  "entry_score v =
     (case v of PDict d \<Rightarrow> Some (dget_or d ''score'' (PInt (- 1))) | _ \<Rightarrow> None)"

definition ids_of_entry :: "pyval \<Rightarrow> string list res" where
  "ids_of_entry ti = bindR (get_key ti ''ids'' (PList [])) (\<lambda>v. bindR (iter_vals v) (mapR as_text))"

definition scored_entry :: "pyrt \<Rightarrow> pyval \<times> pyval \<Rightarrow> (string \<times> rat) list res" where
  "scored_entry rt ti_sc =
     (case entry_score (snd ti_sc) of
        None \<Rightarrow> Inr []
      | Some sc \<Rightarrow> bindR (py_cmp LT sc (PInt 1)) (\<lambda>low.
          if low then Inr []
          else bindR (ids_of_entry (fst ti_sc)) (\<lambda>ids.
            case num_val sc of
              Some q \<Rightarrow> Inr (map (\<lambda>i. (i, fround rt (q / 5))) ids)
            | None \<Rightarrow> Inl (type_err ''unsupported operand type(s) for /''))))"

definition id_scores :: "(string \<times> rat) list \<Rightarrow> (string \<times> rat list) list" where
  "id_scores xs = foldl (\<lambda>m (i, s). dset i (dget_or m i [] @ [s]) m) [] xs"

definition relevant_ids ::
  "pyrt \<Rightarrow> (rat list \<Rightarrow> rat) \<Rightarrow> pyval list \<Rightarrow> pyval list \<Rightarrow> nat \<Rightarrow> (string \<times> rat) list res" where
  "relevant_ids rt mean toc ans topn =
     bindR (mapR (scored_entry rt) (zip toc ans)) (\<lambda>xss.
       Inr (take topn (filter (\<lambda>p. fround rt (3 / 10) \<le> snd p)
         (map (\<lambda>(i, ss). (i, mean ss)) (id_scores (concat xss))))))"

text \<open>Any exception, one of the model included, gives no chunks.\<close>

definition relevant_chunks_with_toc ::
  "pyrt \<Rightarrow> (rat list \<Rightarrow> rat) \<Rightarrow> ('w, pyval) meth \<Rightarrow> pyval list \<Rightarrow> nat \<Rightarrow> ('w, (string \<times> rat) list) meth" where
  "relevant_chunks_with_toc rt mean answer toc topn =
     catchM (bindM answer (\<lambda>a. liftM (bindR (iter_vals a) (\<lambda>xs. relevant_ids rt mean toc xs topn)))) (\<lambda>_. retM [])"

end
