(* ===== verification/TocSpec.thy ===== *)
theory TocSpec
  imports TocIndex SearchSpec
begin

text \<open>
  What the index of a table of contents holds: an entry has at most one section, and the sections matched by
  title go forward.
\<close>

section \<open>Paths\<close>

definition path_ok :: "nat list list \<Rightarrow> toc_path \<Rightarrow> bool" where
  "path_ok inds p \<longleftrightarrow>
     sorted (map fst p) \<and> sorted_wrt (<) (map snd p) \<and>
     (\<forall>(j, i)\<in>set p. i < length inds \<and> j \<in> set (inds ! i))"

lemma path_ok_snoc:
  assumes "path_ok inds p" and "p = [] \<or> fst (last p) \<le> j" and "\<forall>(j, i)\<in>set p. i < start" and "start < length inds"
    and "j \<in> set (inds ! start)"
  shows "path_ok inds (p @ [(j, start)])"
proof -
  have "\<forall>x\<in>set (map fst p). x \<le> j"
  proof (cases p rule: rev_cases)
    case (snoc q x)
    then have "sorted (map fst q @ [fst x])" "fst x \<le> j" using assms(1,2) by (simp_all add: path_ok_def)
    then show ?thesis by (auto simp: snoc sorted_append)
  qed simp
  with assms show ?thesis by (auto simp: path_ok_def sorted_append sorted_wrt_append)
qed

lemma all_paths_ok:
  assumes "p \<in> set (all_paths start rest pre)" and "path_ok inds pre" and "\<forall>(j, i)\<in>set pre. i < start"
    and "rest = drop start inds"
  shows "path_ok inds p \<and> prefix pre p \<and> p \<noteq> []"
  using assms
proof (induction start rest pre rule: all_paths.induct)
  case (1 start pre)
  then show ?case by (simp split: if_splits)
next
  case (2 start ind rest pre)
  have start: "start < length inds" "ind = inds ! start" "rest = drop (Suc start) inds"
    using 2(6) by (metis drop_eq_Nil list.simps(3) not_le, metis hd_drop_conv_nth drop_eq_Nil list.sel(1) list.simps(3) not_le,
        metis drop_Suc list.sel(3) tl_drop)
  let ?js = "filter (\<lambda>j. pre = [] \<or> fst (last pre) \<le> j) ind"
  show ?case
  proof (cases "ind = []")
    case True
    with 2(1) 2(3-5) start(3) show ?thesis by (auto simp: less_Suc_eq)
  next
    case False
    show ?thesis
    proof (cases "?js = []")
      case True
      with 2(3,4) False show ?thesis by (simp add: Let_def split: if_splits)
    next
      case some: False
      with 2(3) False obtain j where j: "j \<in> set ?js" "p \<in> set (all_paths (Suc start) rest (pre @ [(j, start)]))"
        by (auto simp: Let_def)
      then have "path_ok inds (pre @ [(j, start)])"
        using 2(4,5) start by (intro path_ok_snoc) auto
      moreover have "\<forall>(j', i)\<in>set (pre @ [(j, start)]). i < Suc start" using 2(5) by auto
      ultimately have "path_ok inds p \<and> prefix (pre @ [(j, start)]) p \<and> p \<noteq> []"
        using 2(2) [OF False refl some] j start(3) by blast
      then show ?thesis by (meson append_prefixD)
    qed
  qed
qed

text \<open>The entries that some section matches, from a position on\<close>

fun matched :: "nat \<Rightarrow> nat list list \<Rightarrow> nat list" where
  "matched start [] = []"
| "matched start (ind # rest) = (if ind = [] then matched (Suc start) rest else start # matched (Suc start) rest)"

lemma matched_ge: "i \<in> set (matched start rest) \<Longrightarrow> start \<le> i"
  by (induction start rest rule: matched.induct) (auto split: if_splits dest: Suc_leD)

text \<open>
  An assignment that goes through the matched entries in turn, from the first on and leaving none out, to sections
  that never go back
\<close>

definition in_turn :: "nat list list \<Rightarrow> toc_path \<Rightarrow> bool" where
  "in_turn inds q \<longleftrightarrow> path_ok inds q \<and> map snd q = take (length q) (matched 0 inds)"

lemma all_paths_in_turn:
  "p \<in> set (all_paths start rest pre) \<Longrightarrow> \<exists>q. p = pre @ q \<and> map snd q = take (length q) (matched start rest)"
proof (induction start rest pre rule: all_paths.induct)
  case (1 start pre)
  then show ?case by (auto split: if_splits)
next
  case (2 start ind rest pre)
  let ?js = "filter (\<lambda>j. pre = [] \<or> fst (last pre) \<le> j) ind"
  show ?case
  proof (cases "ind = []")
    case True
    with 2(1,3) show ?thesis by simp
  next
    case False
    show ?thesis
    proof (cases "?js = []")
      case True
      with 2(3) False have "p = pre" by (simp add: Let_def split: if_splits)
      then show ?thesis by (intro exI [of _ "[]"]) simp
    next
      case some: False
      with 2(3) False obtain j where j: "j \<in> set ?js" "p \<in> set (all_paths (Suc start) rest (pre @ [(j, start)]))"
        by (auto simp: Let_def)
      then obtain q where "p = (pre @ [(j, start)]) @ q" "map snd q = take (length q) (matched (Suc start) rest)"
        using 2(2) [OF False refl some] by blast
      with False show ?thesis by (intro exI [of _ "(j, start) # q"]) simp
    qed
  qed
qed

lemma all_paths_complete:
  assumes "map snd q = take (length q) (matched start rest)" and "\<forall>(j, i)\<in>set q. j \<in> set (rest ! (i - start))"
    and "sorted (map fst (pre @ q))" and "pre @ q \<noteq> []"
  shows "\<exists>r\<in>set (all_paths start rest pre). length pre + length q \<le> length r"
  using assms
proof (induction start rest pre arbitrary: q rule: all_paths.induct)
  case (1 start pre)
  then show ?case by auto
next
  case (2 start ind rest pre)
  let ?js = "filter (\<lambda>j. pre = [] \<or> fst (last pre) \<le> j) ind"
  have later: "\<forall>(j, i)\<in>set u. j \<in> set (rest ! (i - Suc start))"
    if "map snd u = take (length u) (matched (Suc start) rest)" "\<forall>(j, i)\<in>set u. j \<in> set ((ind # rest) ! (i - start))" for u
  proof (intro ballI)
    fix x assume x: "x \<in> set u"
    obtain j i where ji: "x = (j, i)" by (cases x)
    have "i \<in> set (map snd u)" using x ji by force
    then have "i \<in> set (matched (Suc start) rest)" unfolding that(1) by (rule in_set_takeD)
    then have "Suc start \<le> i" by (rule matched_ge)
    then have "(ind # rest) ! (i - start) = rest ! (i - Suc start)" by (simp add: nth_Cons')
    with that(2) x ji show "case x of (j, i) \<Rightarrow> j \<in> set (rest ! (i - Suc start))" by auto
  qed
  show ?case
  proof (cases "ind = []")
    case True
    then have m: "map snd q = take (length q) (matched (Suc start) rest)" using 2(3) by simp
    from 2(1) [OF True m later [OF m 2(4)] 2(5,6)] True show ?thesis by simp
  next
    case False
    show ?thesis
    proof (cases "?js = []")
      case True
      have "q = []"
      proof (cases q)
        case (Cons x u)
        obtain j i where x: "x = (j, i)" by (cases x)
        have "i = start" using 2(3) False by (simp add: Cons x)
        then have "j \<in> set ind" using 2(4) by (simp add: Cons x)
        moreover have "pre = [] \<or> fst (last pre) \<le> j"
        proof (cases pre rule: rev_cases)
          case (snoc v y)
          then show ?thesis using 2(5) by (simp add: Cons x sorted_append)
        qed simp
        ultimately have "j \<in> set ?js" by simp
        with True show ?thesis by simp
      qed
      with 2(6) True False show ?thesis by (simp add: Let_def)
    next
      case some: False
      obtain j u where j: "j \<in> set ?js" and u: "map snd u = take (length u) (matched (Suc start) rest)"
        "\<forall>(j, i)\<in>set u. j \<in> set (rest ! (i - Suc start))" "sorted (map fst ((pre @ [(j, start)]) @ u))" "length q \<le> Suc (length u)"
      proof (cases q)
        case Nil
        obtain j js where js: "?js = j # js" using some by (cases ?js) auto
        then have j: "j \<in> set ?js" by simp
        have "sorted (map fst (pre @ [(j, start)]))"
        proof (cases pre rule: rev_cases)
          case (snoc v y)
          then have "fst y \<le> j" using j by simp
          then show ?thesis using 2(5) Nil by (auto simp: snoc sorted_append)
        qed simp
        then show ?thesis using j Nil that [of j "[]"] by simp
      next
        case (Cons x u)
        obtain j i where x: "x = (j, i)" by (cases x)
        have i: "i = start" and m: "map snd u = take (length u) (matched (Suc start) rest)"
          using 2(3) False by (simp_all add: Cons x)
        have "j \<in> set ind" using 2(4) by (simp add: Cons x i)
        moreover have "pre = [] \<or> fst (last pre) \<le> j"
        proof (cases pre rule: rev_cases)
          case (snoc v y)
          then show ?thesis using 2(5) by (simp add: Cons x sorted_append)
        qed simp
        ultimately have j: "j \<in> set ?js" by simp
        have l: "\<forall>(j, i)\<in>set u. j \<in> set (rest ! (i - Suc start))" using later [OF m] 2(4) by (simp add: Cons)
        have "sorted (map fst ((pre @ [(j, start)]) @ u))" using 2(5) by (simp add: Cons x i)
        then show ?thesis using j l m that [of j u] by (simp add: Cons)
      qed
      have "\<exists>r\<in>set (all_paths (Suc start) rest (pre @ [(j, start)])). length (pre @ [(j, start)]) + length u \<le> length r"
        by (rule 2(2) [OF False refl some j u(1,2,3)]) simp
      then obtain r where r: "r \<in> set (all_paths (Suc start) rest (pre @ [(j, start)]))" "length pre + length q \<le> length r"
        using u(4) by auto
      moreover have "r \<in> set (all_paths start (ind # rest) pre)" using r(1) j False some by (auto simp: Let_def)
      ultimately show ?thesis by blast
    qed
  qed
qed

lemma all_paths_some:
  assumes "pre \<noteq> [] \<or> (\<exists>ind\<in>set rest. ind \<noteq> [])"
  shows "all_paths start rest pre \<noteq> []"
  using assms
proof (induction start rest pre rule: all_paths.induct)
  case (2 start ind rest pre)
  let ?js = "filter (\<lambda>j. pre = [] \<or> fst (last pre) \<le> j) ind"
  show ?case
  proof (cases "ind = []")
    case True
    with 2(1,3) show ?thesis by simp
  next
    case False
    show ?thesis
    proof (cases "?js = []")
      case True
      with False have "pre \<noteq> []" by (auto simp: filter_empty_conv)
      with True False show ?thesis by (simp add: Let_def)
    next
      case some: False
      then obtain j js where js: "?js = j # js" by (cases ?js) auto
      then have "j \<in> set ?js" by simp
      from 2(2) [OF False refl some this] have "all_paths (Suc start) rest (pre @ [(j, start)]) \<noteq> []" by simp
      with False js show ?thesis by (simp add: Let_def)
    qed
  qed
qed simp

lemma longest_spec:
  assumes "ps \<noteq> []"
  shows "\<exists>p. longest ps = Inr p \<and> p \<in> set ps \<and> (\<forall>q\<in>set ps. length q \<le> length p)"
proof -
  obtain p qs where ps: "ps = p # qs" using assms by (cases ps) auto
  have "(foldl (\<lambda>b q. if length b < length q then q else b) p qs) \<in> set (p # qs) \<and>
      (\<forall>q\<in>set (p # qs). length q \<le> length (foldl (\<lambda>b q. if length b < length q then q else b) p qs))" for p qs
  proof (induction qs arbitrary: p)
    case (Cons q qs)
    then show ?case
      by (cases "length p < length q") (auto, meson less_imp_le order_trans, meson not_le order_trans)
  qed simp
  then show ?thesis by (simp add: ps)
qed

section \<open>Entries\<close>

definition same_entries :: "toc_item list \<Rightarrow> toc_item list \<Rightarrow> bool" where
  "same_entries t u \<longleftrightarrow>
     map (\<lambda>it. (ti_structure it, ti_title it)) t = map (\<lambda>it. (ti_structure it, ti_title it)) u"

lemma same_entries_refl [simp]: "same_entries t t"
  by (simp add: same_entries_def)

lemma same_entries_trans: "same_entries t u \<Longrightarrow> same_entries u v \<Longrightarrow> same_entries t v"
  by (simp add: same_entries_def)

lemma same_entries_length: "same_entries t u \<Longrightarrow> length t = length u"
  unfolding same_entries_def by (metis length_map)

lemma same_entries_update: "same_entries t (t[i := (t ! i)\<lparr>ti_indices := js\<rparr>])"
proof (cases "i < length t")
  case True
  then show ?thesis unfolding same_entries_def by (simp add: map_update) (metis (no_types, lifting) list_update_id map_update)
next
  case False
  then show ?thesis by (simp add: list_update_beyond)
qed

definition indices_below :: "nat \<Rightarrow> toc_item list \<Rightarrow> bool" where
  "indices_below n t \<longleftrightarrow> (\<forall>it\<in>set t. \<forall>j\<in>set (ti_indices it). j < n)"

lemma indices_below_update:
  assumes "indices_below n t" and "\<forall>j\<in>set js. j < n"
  shows "indices_below n (t[i := (t ! i)\<lparr>ti_indices := js\<rparr>])"
  using assms unfolding indices_below_def by (auto dest!: set_update_subset_insert [THEN subsetD])

lemma match_sections_below: "indices_below (length sections) (match_sections toc sections)"
  "same_entries toc (match_sections toc sections)"
proof -
  let ?m = "toc_map toc"
  have inner: "indices_below n (foldl (\<lambda>t j. t[j := (t ! j)\<lparr>ti_indices := ti_indices (t ! j) @ [k]\<rparr>]) t ks) \<and>
      same_entries t (foldl (\<lambda>t j. t[j := (t ! j)\<lparr>ti_indices := ti_indices (t ! j) @ [k]\<rparr>]) t ks)"
    if "indices_below n t" "k < n" for n k ks t
    using that
  proof (induction ks arbitrary: t)
    case (Cons j ks)
    let ?u = "t[j := (t ! j)\<lparr>ti_indices := ti_indices (t ! j) @ [k]\<rparr>]"
    have "indices_below n ?u"
    proof (cases "j < length t")
      case True
      then have "\<forall>x\<in>set (ti_indices (t ! j) @ [k]). x < n" using Cons.prems by (auto simp: indices_below_def)
      with Cons.prems(1) show ?thesis by (rule indices_below_update)
    next
      case False
      with Cons.prems show ?thesis by (simp add: list_update_beyond)
    qed
    from Cons.IH [OF this Cons.prems(2)] same_entries_update [of t j] show ?case
      by (auto intro: same_entries_trans)
  qed simp
  have outer: "indices_below n (foldl (\<lambda>t isec. add_section ?m isec t) t xs) \<and>
      same_entries t (foldl (\<lambda>t isec. add_section ?m isec t) t xs)"
    if "indices_below n t" "\<forall>x\<in>set xs. fst x < n" for n t xs
    using that
  proof (induction xs arbitrary: t)
    case (Cons x xs)
    have x: "indices_below n (add_section ?m x t)" "same_entries t (add_section ?m x t)"
      using inner [of n t "fst x"] Cons.prems by (simp_all add: add_section_def)
    with Cons.IH [OF x(1)] Cons.prems(2) show ?case by (auto intro: same_entries_trans)
  qed simp
  let ?t = "map (\<lambda>it. it\<lparr>ti_indices := []\<rparr>) toc"
  have "indices_below (length sections) ?t" by (simp add: indices_below_def)
  moreover have "\<forall>x\<in>set (enumerate 0 sections). fst x < length sections" by (auto simp: in_set_enumerate_eq)
  ultimately have "indices_below (length sections) (match_sections toc sections) \<and>
      same_entries ?t (match_sections toc sections)"
    unfolding match_sections_def by (rule outer)
  moreover have "same_entries toc ?t" by (simp add: same_entries_def)
  ultimately show "indices_below (length sections) (match_sections toc sections)"
    "same_entries toc (match_sections toc sections)" by (auto intro: same_entries_trans)
qed

lemma assign_path_spec:
  assumes "sorted_wrt (<) (map snd p)"
  shows "same_entries toc (assign_path p toc)"
    and "i < length toc \<Longrightarrow> ti_indices (assign_path p toc ! i) = (case map_of (map (\<lambda>(j, i). (i, j)) p) i of None \<Rightarrow> [] | Some j \<Rightarrow> [j])"
proof -
  let ?set = "\<lambda>t (j, i). t[i := (t ! i)\<lparr>ti_indices := [j]\<rparr>]"
  have step: "same_entries t (foldl ?set t p) \<and>
      (i < length t \<longrightarrow> ti_indices (foldl ?set t p ! i) =
         (case map_of (map (\<lambda>(j, i). (i, j)) p) i of None \<Rightarrow> ti_indices (t ! i) | Some j \<Rightarrow> [j]))" for t i
    using assms
  proof (induction p arbitrary: t)
    case (Cons ji p)
    obtain j k where ji: "ji = (j, k)" by (cases ji)
    let ?u = "t[k := (t ! k)\<lparr>ti_indices := [j]\<rparr>]"
    have later: "k \<notin> snd ` set p" using Cons.prems by (auto simp: ji)
    then have none: "map_of (map (\<lambda>(j, i). (i, j)) p) k = None" by (force simp: map_of_eq_None_iff)
    have IH: "same_entries ?u (foldl ?set ?u p)"
      "i < length t \<longrightarrow> ti_indices (foldl ?set ?u p ! i) =
         (case map_of (map (\<lambda>(j, i). (i, j)) p) i of None \<Rightarrow> ti_indices (?u ! i) | Some j \<Rightarrow> [j])"
      using Cons.IH [of ?u] Cons.prems by simp_all
    have "same_entries t (foldl ?set t (ji # p))"
      using same_entries_trans [OF same_entries_update IH(1)] by (simp add: ji)
    moreover have "ti_indices (foldl ?set t (ji # p) ! i) =
        (case map_of (map (\<lambda>(j, i). (i, j)) (ji # p)) i of None \<Rightarrow> ti_indices (t ! i) | Some j \<Rightarrow> [j])" if "i < length t"
    proof (cases "i = k")
      case True
      with IH(2) that none show ?thesis by (simp add: ji)
    next
      case False
      then have "?u ! i = t ! i" by simp
      with IH(2) that False show ?thesis by (simp add: ji cong: option.case_cong)
    qed
    ultimately show ?case by blast
  qed simp
  have "same_entries toc (map (\<lambda>it. it\<lparr>ti_indices := []\<rparr>) toc)" by (simp add: same_entries_def)
  with step [of "map (\<lambda>it. it\<lparr>ti_indices := []\<rparr>) toc"] show "same_entries toc (assign_path p toc)"
    unfolding assign_path_def by (auto intro: same_entries_trans)
  show "ti_indices (assign_path p toc ! i) = (case map_of (map (\<lambda>(j, i). (i, j)) p) i of None \<Rightarrow> [] | Some j \<Rightarrow> [j])"
    if "i < length toc"
    using step [of "map (\<lambda>it. it\<lparr>ti_indices := []\<rparr>) toc" i] that unfolding assign_path_def by (simp cong: option.case_cong)
qed

section \<open>Asking the model\<close>

definition answers :: "'w asker \<Rightarrow> bool" where
  "answers ask \<longleftrightarrow> (\<forall>st ti sec w. \<exists>b v. ask st ti sec w = (Inr b, v))"

lemma ask_sections_total:
  assumes "answers ask"
  shows "\<exists>r v. ask_sections ask it secs w = (Inr r, v) \<and> (\<forall>j. r = Some j \<longrightarrow> j \<in> fst ` set secs)"
proof (induction secs arbitrary: w)
  case (Cons x secs)
  obtain j sec where x: "x = (j, sec)" by (cases x)
  obtain b v where b: "ask (ti_structure it) (ti_title it) sec w = (Inr b, v)" using assms unfolding answers_def by blast
  obtain r u where "ask_sections ask it secs v = (Inr r, u)" "\<forall>j. r = Some j \<longrightarrow> j \<in> fst ` set secs"
    using Cons.IH [of v] by blast
  with b show ?case by (cases b) (simp_all add: x bindM_def)
qed simp

text \<open>What asking may do to the entries: entries with a section keep it, others may get one.\<close>

definition fills :: "nat \<Rightarrow> toc_item list \<Rightarrow> toc_item list \<Rightarrow> bool" where
  "fills n t u \<longleftrightarrow>
     same_entries t u \<and>
     (\<forall>i<length t. ti_indices (u ! i) = ti_indices (t ! i) \<or> ti_indices (t ! i) = [] \<and> (\<exists>j<n. ti_indices (u ! i) = [j]))"

lemma fills_refl: "fills n t t"
  by (simp add: fills_def)

lemma fills_trans: "fills n t u \<Longrightarrow> fills n u v \<Longrightarrow> fills n t v"
proof -
  assume t: "fills n t u" and u: "fills n u v"
  then have len: "length u = length t" using same_entries_length [of t u] by (simp add: fills_def)
  have "ti_indices (v ! i) = ti_indices (t ! i) \<or> ti_indices (t ! i) = [] \<and> (\<exists>j<n. ti_indices (v ! i) = [j])"
    if i: "i < length t" for i
  proof -
    have "ti_indices (u ! i) = ti_indices (t ! i) \<or> ti_indices (t ! i) = [] \<and> (\<exists>j<n. ti_indices (u ! i) = [j])"
      "ti_indices (v ! i) = ti_indices (u ! i) \<or> ti_indices (u ! i) = [] \<and> (\<exists>j<n. ti_indices (v ! i) = [j])"
      using t u i len by (simp_all add: fills_def)
    then show ?thesis by auto
  qed
  then show "fills n t v" using t u same_entries_trans unfolding fills_def by blast
qed

lemma fills_update:
  assumes "ti_indices (t ! i) = []" and "j < n"
  shows "fills n t (t[i := (t ! i)\<lparr>ti_indices := [j]\<rparr>])"
proof -
  let ?u = "t[i := (t ! i)\<lparr>ti_indices := [j]\<rparr>]"
  have "ti_indices (?u ! k) = ti_indices (t ! k) \<or> ti_indices (t ! k) = [] \<and> (\<exists>j<n. ti_indices (?u ! k) = [j])"
    if "k < length t" for k
    using that assms by (cases "k = i") simp_all
  then show ?thesis unfolding fills_def using same_entries_update by blast
qed

lemma find_entry_total:
  assumes "answers ask"
  shows "\<exists>u v. find_entry ask sections t i w = (Inr u, v) \<and> fills (length sections) t u"
proof (cases "ti_indices (t ! i) = []")
  case False
  then show ?thesis by (simp add: find_entry_def fills_refl)
next
  case True
  let ?secs = "map (\<lambda>j. (j, sections ! j)) [window_start t i..<min (Suc (window_end t i (length sections))) (length sections)]"
  obtain r v where r: "ask_sections ask (t ! i) ?secs w = (Inr r, v)" "\<forall>j. r = Some j \<longrightarrow> j \<in> fst ` set ?secs"
    using ask_sections_total [OF assms] by blast
  show ?thesis
  proof (cases r)
    case None
    with r(1) True show ?thesis by (simp add: find_entry_def Let_def bindM_def fills_refl)
  next
    case (Some j)
    then have j: "j < length sections" using r(2) by auto
    have "find_entry ask sections t i w = (Inr (t[i := (t ! i)\<lparr>ti_indices := [j]\<rparr>]), v)"
      using r(1) Some True by (simp add: find_entry_def Let_def bindM_def)
    with fills_update [OF True j] show ?thesis by blast
  qed
qed

lemma find_entries_total:
  assumes "answers ask"
  shows "\<exists>u v. find_entries ask sections ns t w = (Inr u, v) \<and> fills (length sections) t u"
proof (induction ns arbitrary: t w)
  case Nil
  then show ?case by (simp add: fills_refl)
next
  case (Cons i ns)
  obtain u v where u: "find_entry ask sections t i w = (Inr u, v)" "fills (length sections) t u"
    using find_entry_total [OF assms] by blast
  obtain u' v' where "find_entries ask sections ns u v = (Inr u', v')" "fills (length sections) u u'"
    using Cons.IH by blast
  with u show ?case by (auto simp: bindM_def intro: fills_trans)
qed

lemma path_lookup:
  fixes p :: toc_path
  assumes "sorted_wrt (<) (map snd p)"
  shows "map_of (map (\<lambda>(j, i). (i, j)) p) i = Some j \<longleftrightarrow> (j, i) \<in> set p"
proof -
  have eq: "map fst (map (\<lambda>(j, i). (i, j)) p) = map snd p" by (induction p) auto
  have "distinct (map snd p)" using strict_sorted_iff [THEN iffD1, OF assms] by blast
  then have "distinct (map fst (map (\<lambda>(j, i). (i, j)) p))" by (simp only: eq)
  then show ?thesis by (auto simp: map_of_eq_Some_iff)
qed

text \<open>C20: when some title matches a section and the model answers, the index is made without an exception: the entries
  keep their structures and titles, each has at most one section and it exists.  Kept as it is is an
  assignment of the matched entries in turn, from the first one on and without leaving one out, to sections that never go back, and
  no assignment of this kind is longer.\<close>

theorem toc_index_forward:
  assumes "answers ask" and "\<exists>it\<in>set (match_sections toc sections). ti_indices it \<noteq> []"
  shows "\<exists>out p v. table_of_contents_index ask toc sections w = (Inr out, v) \<and> same_entries toc out \<and>
     (\<forall>it\<in>set out. ti_indices it = [] \<or> (\<exists>j<length sections. ti_indices it = [j])) \<and>
     in_turn (map ti_indices (match_sections toc sections)) p \<and>
     (\<forall>q. in_turn (map ti_indices (match_sections toc sections)) q \<longrightarrow> length q \<le> length p) \<and>
     (\<forall>(j, i)\<in>set p. ti_indices (out ! i) = [j])"
proof -
  let ?inds = "map ti_indices (match_sections toc sections)"
  note match = match_sections_below(1) [of sections toc] match_sections_below(2) [of toc sections]
  have len: "length ?inds = length toc" using same_entries_length [OF match(2)] by simp
  have "all_paths 0 ?inds [] \<noteq> []" by (rule all_paths_some) (use assms(2) in auto)
  then obtain p where p: "longest (all_paths 0 ?inds []) = Inr p" "p \<in> set (all_paths 0 ?inds [])"
    "\<forall>q\<in>set (all_paths 0 ?inds []). length q \<le> length p" using longest_spec by blast
  have ok: "path_ok ?inds p" using all_paths_ok [OF p(2), of ?inds] by (simp add: path_ok_def)
  then have srt: "sorted_wrt (<) (map snd p)" by (simp add: path_ok_def)
  have turn: "in_turn ?inds p" using ok all_paths_in_turn [OF p(2)] by (auto simp: in_turn_def)
  have most: "length q \<le> length p" if "in_turn ?inds q" for q
  proof (cases "q = []")
    case False
    have "\<exists>r\<in>set (all_paths 0 ?inds []). length q \<le> length r"
      using all_paths_complete [of q 0 ?inds "[]"] that False by (auto simp: in_turn_def path_ok_def)
    with p(3) show ?thesis by fastforce
  qed simp
  let ?t = "assign_path p toc"
  obtain out v where out: "find_entries ask sections [0..<length toc] ?t w = (Inr out, v)" "fills (length sections) ?t out"
    using find_entries_total [OF assms(1)] by blast
  have same: "same_entries toc out"
    using assign_path_spec(1) [OF srt] out(2) same_entries_trans unfolding fills_def by blast
  have tlen: "length ?t = length toc" using same_entries_length [OF assign_path_spec(1) [OF srt, of toc]] by simp
  have entry: "i < length toc \<and> j < length sections \<and> ti_indices (out ! i) = [j]" if ji: "(j, i) \<in> set p" for i j
  proof -
    have i: "i < length toc" "j \<in> set (?inds ! i)" using ok ji len by (auto simp: path_ok_def)
    then have "match_sections toc sections ! i \<in> set (match_sections toc sections)" using len by simp
    then have "j < length sections" using match(1) i len by (auto simp: indices_below_def)
    moreover have "ti_indices (?t ! i) = [j]"
      using assign_path_spec(2) [OF srt i(1)] ji path_lookup [OF srt, of i j] by simp
    ultimately show ?thesis using out(2) i tlen unfolding fills_def by (metis list.distinct(1))
  qed
  have one: "ti_indices (out ! i) = [] \<or> (\<exists>j<length sections. ti_indices (out ! i) = [j])" if i: "i < length toc" for i
  proof (cases "map_of (map (\<lambda>(j, i). (i, j)) p) i")
    case None
    then have "ti_indices (?t ! i) = []" using assign_path_spec(2) [OF srt i] by simp
    with out(2) i tlen show ?thesis unfolding fills_def by metis
  next
    case (Some j)
    then show ?thesis using entry path_lookup [OF srt] by blast
  qed
  have "toc \<noteq> []" "sections \<noteq> []"
    using assms(2) match(1) same_entries_length [OF match(2)] by (auto simp: indices_below_def)
  with p(1) out(1) have "table_of_contents_index ask toc sections w = (Inr out, v)"
    by (simp add: table_of_contents_index_def bindM_def)
  moreover have "\<forall>it\<in>set out. ti_indices it = [] \<or> (\<exists>j<length sections. ti_indices it = [j])"
    using one same_entries_length [OF same] by (metis in_set_conv_nth)
  moreover have "\<forall>(j, i)\<in>set p. ti_indices (out ! i) = [j]" using entry by blast
  ultimately show ?thesis
    using same turn most by (intro exI [of _ out] exI [of _ p] exI [of _ v] conjI allI impI)
qed

text \<open>Without any match the longest of no paths is asked for.\<close>

lemma no_match_raises:
  assumes "toc \<noteq> []" and "sections \<noteq> []" and "\<forall>it\<in>set (match_sections toc sections). ti_indices it = []"
  shows "\<exists>m. table_of_contents_index ask toc sections w = (Inl (Exc ValueErr m), w)"
proof -
  have "\<forall>ind\<in>set rest. ind = [] \<Longrightarrow> all_paths start rest [] = []" for start rest
    by (induction rest arbitrary: start) simp_all
  with assms have "all_paths 0 (map ti_indices (match_sections toc sections)) [] = []" by simp
  with assms(1,2) show ?thesis
    by (intro exI [of _ "''max() iterable argument is empty''"]) (simp add: table_of_contents_index_def bindM_def)
qed

text \<open>An assignment that leaves an entry out can be longer: the search does not look for those.\<close>

lemma skipping_is_longer:
  "longest (all_paths 0 [[5], [1], [2], [3]] []) = Inr [(5, 0)] \<and> path_ok [[5], [1], [2], [3]] [(1, 1), (2, 2), (3, 3)]"
  by (simp add: path_ok_def)

definition demo_toc :: "toc_item list" where
  "demo_toc = [\<lparr> ti_structure = ''1'', ti_title = ''Intro'', ti_indices = [] \<rparr>]"

definition refuse :: "unit asker" where
  "refuse = (\<lambda>st ti sec w. (Inr False, w))"

theorem toc_index_forward_witness:
  "\<exists>out v. table_of_contents_index refuse demo_toc [''Intro''] () = (Inr out, v) \<and> same_entries demo_toc out"
proof -
  have a: "answers refuse" unfolding answers_def refuse_def by blast
  have "list_ex (\<lambda>it. ti_indices it \<noteq> []) (match_sections demo_toc [''Intro''])" by code_simp
  then have m: "\<exists>it\<in>set (match_sections demo_toc [''Intro'']). ti_indices it \<noteq> []" by (simp only: list_ex_iff)
  obtain out v where "table_of_contents_index refuse demo_toc [''Intro''] () = (Inr out, v)" "same_entries demo_toc out"
    using toc_index_forward [OF a m, of "()"] by (elim exE conjE) (rule that)
  then show ?thesis by (intro exI conjI)
qed

text \<open>A title with a blank inside matches no section that is the title alone, for its key keeps the blank.\<close>

lemma spaced_title_unmatched:
  "ti_indices (hd (match_sections [\<lparr> ti_structure = ''1'', ti_title = ''A B'', ti_indices = [] \<rparr>] [''A B''])) = []"
  by code_simp

end
