(* ===== verification/MdParser.thy ===== *)
theory MdParser
  imports Merging JsonParser
begin

text \<open>
  The elements of a Markdown text (\<^verbatim>\<open>ragflow/deepdoc/parser/markdown_parser.py\<close>) and the sections with images the
  naive chunker makes of them (class \<open>Markdown\<close> of \<^verbatim>\<open>ragflow/rag/app/naive.py\<close>).  A line has no line break, so the
  \<open>.*$\<close> at the end of the patterns always matches.  The loading of an image, the pasting of two and the HTML parser are parameters.
\<close>

section \<open>Lines\<close>

text \<open>The word characters and decimal digits of Unicode beyond ASCII\<close>

record uni =
  uc_word :: "string \<Rightarrow> bool"
  uc_digit :: "string \<Rightarrow> bool"

definition is_dec :: "uni \<Rightarrow> string \<Rightarrow> bool" where
  "is_dec U p \<longleftrightarrow> (if length p = 1 then is_digit (hd p) else uc_digit U p)"

definition is_word :: "uni \<Rightarrow> string \<Rightarrow> bool" where
  "is_word U p \<longleftrightarrow> (if length p = 1 then is_digit (hd p) \<or> is_alpha (hd p) \<or> p = ''_'' else uc_word U p)"

definition blank :: "string \<Rightarrow> bool" where
  "blank l \<longleftrightarrow> strip_ws l = []"

definition then_space :: "string \<Rightarrow> bool" where
  "then_space s \<longleftrightarrow> 0 < ws_head s"

text \<open>\<open>^#{1,6}\s+.*$\<close>\<close>

definition is_header :: "string \<Rightarrow> bool" where
  "is_header l \<longleftrightarrow>
     (let n = length (takeWhile (\<lambda>c. c = CHR ''#'') l) in 1 \<le> n \<and> n \<le> 6 \<and> then_space (drop n l))"

definition is_fence :: "string \<Rightarrow> bool" where
  "is_fence l \<longleftrightarrow> starts_with (strip_ws l) [tick, tick, tick]"

definition is_quote :: "string \<Rightarrow> bool" where
  "is_quote l \<longleftrightarrow> starts_with (strip_ws l) ''>''"

text \<open>\<open>^\s*[-*+]\s+.*$\<close> and \<open>^\s*\d+\.\s+.*$\<close>\<close>

definition is_bullet :: "string \<Rightarrow> bool" where
  "is_bullet l \<longleftrightarrow>
     (case lstrip_ws l of [] \<Rightarrow> False | c # s \<Rightarrow> c \<in> set ''-*+'' \<and> then_space s)"

definition is_numbered :: "uni \<Rightarrow> string \<Rightarrow> bool" where
  "is_numbered U l \<longleftrightarrow>
     (let ps = code_points (lstrip_ws l); rest = concat (dropWhile (is_dec U) ps)
      in takeWhile (is_dec U) ps \<noteq> [] \<and> starts_with rest ''.'' \<and> then_space (tl rest))"

definition list_item :: "uni \<Rightarrow> string \<Rightarrow> bool" where
  "list_item U l \<longleftrightarrow> is_bullet l \<or> is_numbered U l"

text \<open>The number of spaces a line starts with\<close>

definition indent :: "string \<Rightarrow> nat" where
  "indent l = py_len (take (length l - length (lstrip_ws l)) l)"

text \<open>\<open>^\s+\w+.*$\<close>\<close>

definition indented_word :: "uni \<Rightarrow> string \<Rightarrow> bool" where
  "indented_word U l \<longleftrightarrow>
     1 \<le> indent l \<and> (case code_points (lstrip_ws l) of [] \<Rightarrow> False | p # _ \<Rightarrow> is_word U p)"

text \<open>What continues a list behind its first line\<close>

definition list_goes_on :: "uni \<Rightarrow> string \<Rightarrow> bool" where
  "list_goes_on U l \<longleftrightarrow>
     list_item U l \<or> blank l \<or> (2 \<le> indent l \<and> is_bullet l) \<or> (2 \<le> indent l \<and> is_numbered U l) \<or> indented_word U l"

definition block_start :: "uni \<Rightarrow> string \<Rightarrow> bool" where
  "block_start U l \<longleftrightarrow> is_header l \<or> is_fence l \<or> list_item U l \<or> is_quote l"

section \<open>Elements\<close>

record element =
  el_type :: "string option"
  el_content :: string
  el_start :: nat
  el_end :: nat

definition block_at :: "string \<Rightarrow> string list \<Rightarrow> nat \<Rightarrow> element" where
  "block_at ty content_lines i =
     \<lparr> el_type = Some ty, el_content = join [lf] content_lines, el_start = i, el_end = i + (length content_lines - 1) \<rparr>"

definition extract_header :: "string list \<Rightarrow> nat \<Rightarrow> element" where
  "extract_header lines i = block_at ''header'' [lines ! i] i"

fun upto_fence :: "string list \<Rightarrow> string list" where
  "upto_fence [] = []"
| "upto_fence (l # ls) = l # (if is_fence l then [] else upto_fence ls)"

definition extract_code_block :: "string list \<Rightarrow> nat \<Rightarrow> element" where
  "extract_code_block lines i = block_at ''code_block'' (lines ! i # upto_fence (drop (Suc i) lines)) i"

definition extract_list_block :: "uni \<Rightarrow> string list \<Rightarrow> nat \<Rightarrow> element" where
  "extract_list_block U lines i =
     block_at ''list_block''
       (if list_item U (lines ! i) then lines ! i # takeWhile (list_goes_on U) (drop (Suc i) lines) else []) i"

definition extract_blockquote :: "string list \<Rightarrow> nat \<Rightarrow> element" where
  "extract_blockquote lines i =
     block_at ''blockquote''
       (if is_quote (lines ! i)
        then lines ! i # takeWhile (\<lambda>l. is_quote l \<or> blank l) (drop (Suc i) lines) else []) i"

fun text_rest :: "uni \<Rightarrow> string list \<Rightarrow> string list" where
  "text_rest U [] = []"
| "text_rest U (l # ls) =
     (if block_start U l then []
      else if blank l \<and> ls \<noteq> [] \<and> block_start U (hd ls) then []
      else l # text_rest U ls)"

definition extract_text_block :: "uni \<Rightarrow> string list \<Rightarrow> nat \<Rightarrow> element" where
  "extract_text_block U lines i = block_at ''text_block'' (lines ! i # text_rest U (drop (Suc i) lines)) i"

definition element_at :: "uni \<Rightarrow> string list \<Rightarrow> nat \<Rightarrow> element option" where
  "element_at U lines i =
     (let l = lines ! i
      in if is_header l then Some (extract_header lines i)
         else if is_fence l then Some (extract_code_block lines i)
         else if list_item U l then Some (extract_list_block U lines i)
         else if is_quote l then Some (extract_blockquote lines i)
         else if \<not> blank l then Some (extract_text_block U lines i)
         else None)"

lemma start_of_element: "element_at U lines i = Some e \<Longrightarrow> el_start e = i \<and> i \<le> el_end e"
  by (auto simp: element_at_def Let_def block_at_def extract_header_def extract_code_block_def
      extract_list_block_def extract_blockquote_def extract_text_block_def split: if_splits)

function elements_from :: "uni \<Rightarrow> string list \<Rightarrow> nat \<Rightarrow> element list" where
  "elements_from U lines i =
     (if length lines \<le> i then []
      else case element_at U lines i of
          None \<Rightarrow> elements_from U lines (Suc i)
        | Some e \<Rightarrow> e # elements_from U lines (Suc (el_end e)))"
  by pat_completeness auto
termination
  by (relation "measure (\<lambda>(_, lines, i). length lines - i)") (auto dest: start_of_element)

declare elements_from.simps [simp del]

text \<open>
  A delimiter in backticks cuts the text instead; the lines of a section are those of its first and last
  character before it is stripped.
\<close>

definition md_delimiters :: "string \<Rightarrow> string list" where
  "md_delimiters delimiter = longest_first (custom_delimiters delimiter)"

definition count_lf :: "string \<Rightarrow> nat" where
  "count_lf s = length (filter (\<lambda>c. c = lf) s)"

fun delimited :: "string \<Rightarrow> (string \<times> string) list \<Rightarrow> element list" where
  "delimited ahead [] = []"
| "delimited ahead ((p, d) # ps) =
     (if p \<noteq> [] \<and> strip_ws p \<noteq> []
      then [\<lparr> el_type = None, el_content = strip_ws p, el_start = count_lf ahead, el_end = count_lf (ahead @ p) \<rparr>]
      else []) @ delimited (ahead @ p @ d) ps"

definition extract_elements :: "uni \<Rightarrow> string \<Rightarrow> string \<Rightarrow> element list" where
  "extract_elements U content delimiter =
     (let lines = split_on lf content; dels = md_delimiters delimiter
      in if dels \<noteq> [] then delimited [] (split_keep dels (join [lf] lines) [])
         else filter (\<lambda>e. strip_ws (el_content e) \<noteq> []) (elements_from U lines 0))"

text \<open>\<open>include_meta=False\<close>: the contents only\<close>

definition extract_contents :: "uni \<Rightarrow> string \<Rightarrow> string \<Rightarrow> string list" where
  "extract_contents U content delimiter =
     (let lines = split_on lf content; dels = md_delimiters delimiter
      in if dels \<noteq> []
         then map strip_ws (filter (\<lambda>p. p \<noteq> [] \<and> strip_ws p \<noteq> []) (map fst (split_keep dels (join [lf] lines) [])))
         else filter (\<lambda>s. strip_ws s \<noteq> []) (map el_content (elements_from U lines 0)))"

section \<open>Images\<close>

text \<open>\<open>!\[[^\]]*\]\(([^)\s]+)\<close> and \<open>src=["\\\']([^"\\\'>\\s]+)\<close> ignoring case: the second class leaves out the
  backslash and the letter s.\<close>

fun url_span :: "string \<Rightarrow> string \<times> string" where
  "url_span [] = ([], [])"
| "url_span (c # cs) =
     (if c = CHR '')'' \<or> 0 < ws_head (c # cs) then ([], c # cs)
      else (case url_span cs of (u, r) \<Rightarrow> (c # u, r)))"

definition md_img :: "string \<Rightarrow> (string \<times> string) option" where
  "md_img s =
     (let rest = dropWhile (\<lambda>c. c \<noteq> CHR '']'') (drop 2 s); (u, r) = url_span (drop 2 rest)
      in if starts_with s ''!['' \<and> starts_with rest '']('' \<and> u \<noteq> [] then Some (u, r) else None)"

definition src_stop :: "char \<Rightarrow> bool" where
  "src_stop c \<longleftrightarrow> c \<in> {dquote, backslash, squote, CHR ''>'', CHR ''s'', CHR ''S''}"

definition html_img :: "string \<Rightarrow> (string \<times> string) option" where
  "html_img s =
     (let rest = drop 5 s; u = takeWhile (\<lambda>c. \<not> src_stop c) rest
      in if starts_with (lower s) ''src='' \<and> 4 < length s \<and> s ! 4 \<in> {dquote, backslash, squote} \<and> u \<noteq> []
         then Some (u, dropWhile (\<lambda>c. \<not> src_stop c) rest) else None)"

lemma url_span_shorter: "url_span s = (u, r) \<Longrightarrow> length r \<le> length s"
  by (induction s arbitrary: u r) (auto split: if_splits prod.splits)

lemma md_img_shorter: "md_img s = Some (u, r) \<Longrightarrow> length r < length s"
proof -
  let ?rest = "dropWhile (\<lambda>c. c \<noteq> CHR '']'') (drop 2 s)"
  assume m: "md_img s = Some (u, r)"
  then have "2 \<le> length s"
    by (auto simp: md_img_def Let_def starts_with_def split: if_splits prod.splits dest: prefix_length_le)
  have "url_span (drop 2 ?rest) = (u, r)" using m by (auto simp: md_img_def Let_def split: if_splits prod.splits)
  from url_span_shorter [OF this] have "length r \<le> length ?rest" by simp
  also have "\<dots> \<le> length (drop 2 s)" by (rule length_dropWhile_le)
  finally show "length r < length s" using \<open>2 \<le> length s\<close> by simp
qed

lemma html_img_shorter: "html_img s = Some (u, r) \<Longrightarrow> length r < length s"
proof -
  assume "html_img s = Some (u, r)"
  then have "4 < length s" and r: "r = dropWhile (\<lambda>c. \<not> src_stop c) (drop 5 s)"
    by (auto simp: html_img_def Let_def split: if_splits)
  have "length r \<le> length (drop 5 s)" unfolding r by (rule length_dropWhile_le)
  with \<open>4 < length s\<close> show "length r < length s" by simp
qed

text \<open>\<open>findall\<close>: the leftmost matches, each behind the one before\<close>

function md_imgs :: "string \<Rightarrow> string list" where
  "md_imgs s =
     (case md_img s of
        Some (u, r) \<Rightarrow> u # md_imgs r
      | None \<Rightarrow> if s = [] then [] else md_imgs (tl s))"
  by pat_completeness auto
termination by (relation "measure length") (auto simp: md_img_shorter)

function html_imgs :: "string \<Rightarrow> string list" where
  "html_imgs s =
     (case html_img s of
        Some (u, r) \<Rightarrow> u # html_imgs r
      | None \<Rightarrow> if s = [] then [] else html_imgs (tl s))"
  by pat_completeness auto
termination by (relation "measure length") (auto simp: html_img_shorter)

declare md_imgs.simps [simp del] html_imgs.simps [simp del]

type_synonym img_ref = "string \<times> nat"

definition add_ref :: "img_ref \<Rightarrow> img_ref list \<Rightarrow> img_ref list" where
  "add_ref r rs = (if r \<in> set rs then rs else rs @ [r])"

definition line_refs :: "nat \<times> string \<Rightarrow> img_ref list \<Rightarrow> img_ref list" where
  "line_refs il rs = fold (\<lambda>u. add_ref (u, fst il)) (md_imgs (snd il) @ html_imgs (snd il)) rs"

text \<open>\<open>text.find\<close>\<close>

fun find_sub :: "string \<Rightarrow> string \<Rightarrow> nat option" where
  "find_sub pat [] = (if pat = [] then Some 0 else None)"
| "find_sub pat (c # cs) =
     (if starts_with (c # cs) pat then Some 0 else map_option Suc (find_sub pat cs))"

definition line_of_pos :: "string \<Rightarrow> nat \<Rightarrow> nat" where
  "line_of_pos t pos =
     (let offs = filter (\<lambda>i. t ! i = lf) [0..<length t] @ [length t]
      in case find (\<lambda>i. pos \<le> offs ! i) [0..<length offs] of Some i \<Rightarrow> i | None \<Rightarrow> 0)"

text \<open>The image tags the HTML parser finds: the source, where there is one, and the tag printed; the parser may raise.\<close>

definition tag_ref :: "string \<Rightarrow> string option \<times> string \<Rightarrow> img_ref list \<Rightarrow> img_ref list" where
  "tag_ref t it rs =
     (case fst it of
        None \<Rightarrow> rs
      | Some src \<Rightarrow>
          if src = [] then rs
          else let pos = (case find_sub (snd it) t of Some p \<Rightarrow> p
                          | None \<Rightarrow> (case find_sub src t of Some p \<Rightarrow> p | None \<Rightarrow> 0))
               in add_ref (src, line_of_pos t pos) rs)"

definition extract_image_urls_with_lines :: "(string \<Rightarrow> (string option \<times> string) list res) \<Rightarrow> string \<Rightarrow> img_ref list" where
  "extract_image_urls_with_lines soup t =
     (let rs = fold line_refs (enumerate 0 (splitlines t)) []
      in case soup t of Inl _ \<Rightarrow> rs | Inr tags \<Rightarrow> fold (tag_ref t) tags rs)"

text \<open>
  Loading with a cache, in which an image that could not be loaded is None.
\<close>

fun load_images :: "(string \<Rightarrow> 'i option) \<Rightarrow> string list \<Rightarrow> (string \<times> 'i option) list \<Rightarrow> 'i list \<times> (string \<times> 'i option) list" where
  "load_images load [] cache = ([], cache)"
| "load_images load (u # us) cache =
     (let img = (case dget cache u of Some i \<Rightarrow> i | None \<Rightarrow> load u);
          cache' = (if has_key cache u then cache else dset u img cache);
          (imgs, c) = load_images load us cache'
      in ((case img of Some i \<Rightarrow> i # imgs | None \<Rightarrow> imgs), c))"

definition combine_images :: "('i \<Rightarrow> 'i \<Rightarrow> 'i) \<Rightarrow> 'i list \<Rightarrow> 'i option" where
  "combine_images paste imgs =
     (case imgs of [] \<Rightarrow> None
      | i # is \<Rightarrow> foldl (\<lambda>a b. concat_img paste a (Some b)) (Some i) is)"

definition refs_of :: "img_ref list \<Rightarrow> element \<Rightarrow> string list" where
  "refs_of refs e = map fst (filter (\<lambda>r. el_start e \<le> snd r \<and> snd r \<le> el_end e) refs)"

fun section_images ::
  "(string \<Rightarrow> 'i option) \<Rightarrow> ('i \<Rightarrow> 'i \<Rightarrow> 'i) \<Rightarrow> img_ref list \<Rightarrow> element list \<Rightarrow> (string \<times> 'i option) list \<Rightarrow> 'i option list" where
  "section_images load paste refs [] cache = []"
| "section_images load paste refs (e # es) cache =
     (let us = refs_of refs e;
          (imgs, cache') = (if us \<noteq> [] then load_images load us cache else ([], cache))
      in combine_images paste imgs # section_images load paste refs es cache')"

definition markdown_sections ::
  "uni \<Rightarrow> (string \<Rightarrow> (string option \<times> string) list res) \<Rightarrow> (string \<Rightarrow> 'i option) \<Rightarrow> ('i \<Rightarrow> 'i \<Rightarrow> 'i) \<Rightarrow>
     string \<Rightarrow> string \<Rightarrow> (string \<times> string) list \<times> 'i option list" where
  "markdown_sections U soup load paste txt delimiter =
     (let es = extract_elements U txt delimiter; refs = extract_image_urls_with_lines soup txt
      in (map (\<lambda>e. (el_content e, [])) es, section_images load paste refs es []))"

end
