(* ===== verification/MdSpec.thy ===== *)
theory MdSpec
  imports MdParser
begin

text \<open>
  The elements of a Markdown text cover its lines; an image on a line that is not blank is in one section.
\<close>

section \<open>White space at the ends\<close>

lemma blank_iff: "blank l \<longleftrightarrow> lstrip_ws l = []"
proof -
  have "rstrip_ws [] = []" by (subst rstrip_ws.simps) (simp add: ws_tail_def)
  then show ?thesis using rstrip_empty [of "lstrip_ws l"] ws_head_lstrip [of l]
    by (auto simp: blank_def strip_ws_def)
qed

lemma lstrip_before_lf: "lstrip_ws s \<noteq> [] \<Longrightarrow> lstrip_ws (s @ lf # t) \<noteq> []"
proof (induction s rule: lstrip_ws.induct)
  case (1 s)
  show ?case
  proof (cases "ws_head s = 0")
    case True
    then have "s \<noteq> []" using "1.prems" by (subst (asm) lstrip_ws.simps) simp
    then show ?thesis using lstrip_id [OF ws_head_before_lf [OF _ True]] by simp
  next
    case False
    have same: "ws_head (s @ lf # t) = ws_head s" using False by (intro ws_head_append) simp
    have "lstrip_ws (drop (ws_head s) s) \<noteq> []" using "1.prems" False by (subst (asm) lstrip_ws.simps) simp
    from "1.IH" [OF False this] ws_head_le [of s] False show ?thesis
      by (subst lstrip_ws.simps) (simp add: same)
  qed
qed

section \<open>Lines\<close>

lemma space_not_continuation: "0 < ws_head s \<Longrightarrow> \<not> is_continuation (hd s)"
proof -
  have wide: "list_all (\<lambda>w. \<not> is_continuation (hd w)) wide_spaces" by code_simp
  assume "0 < ws_head s"
  then show ?thesis
  proof (cases rule: ws_head_cases)
    case (2 w)
    then have "hd s = hd w" using wide_hd [of w] by (auto simp: starts_with_def prefix_def)
    with 2 wide show ?thesis by (simp add: list_all_iff)
  qed (auto simp: is_space_def is_continuation_def)
qed

lemma header_hash: "is_header l \<Longrightarrow> \<exists>s. l = CHR ''#'' # s \<and> s \<noteq> [] \<and> \<not> is_continuation (hd s)"
proof -
  assume h: "is_header l"
  then obtain s where l: "l = CHR ''#'' # s" by (cases l) (auto simp: is_header_def Let_def split: if_splits)
  let ?n = "length (takeWhile (\<lambda>c. c = CHR ''#'') s)"
  have w: "0 < ws_head (drop ?n s)" using h by (simp add: is_header_def Let_def l then_space_def)
  then have "drop ?n s \<noteq> []" by (auto simp: ws_head_def)
  then have "s \<noteq> []" by auto
  moreover have "\<not> is_continuation (hd s)"
  proof (cases "?n = 0")
    case True
    then show ?thesis using space_not_continuation [OF w] by simp
  next
    case False
    then have "hd s = CHR ''#''" using \<open>s \<noteq> []\<close> by (cases s) (auto split: if_splits)
    then show ?thesis by (simp add: is_continuation_def code_def)
  qed
  ultimately show ?thesis using l by blast
qed

lemma first_code_point: "s \<noteq> [] \<Longrightarrow> \<not> is_continuation (hd s) \<Longrightarrow> \<exists>ps. code_points (c # s) = [c] # ps"
  by (cases s) (auto split: list.splits)

lemma hash_facts:
  assumes "is_header l"
  shows "\<not> blank l" "\<not> list_item U l" "\<not> is_quote l" "\<not> is_fence l" "indent l = 0"
proof -
  obtain s where l: "l = CHR ''#'' # s" and s: "s \<noteq> []" "\<not> is_continuation (hd s)" using header_hash [OF assms] by blast
  have h: "ws_head l = 0" by (simp add: ws_head_def l is_space_def code_def)
  note ls = lstrip_id [OF h]
  show b: "\<not> blank l" unfolding blank_iff ls using l by simp
  then have "rstrip_ws l \<noteq> []" by (simp add: blank_def strip_ws_def ls)
  then obtain t where "strip_ws l = CHR ''#'' # t"
    using prefix_rstrip [of l] unfolding strip_ws_def ls by (cases "rstrip_ws l") (auto simp: l)
  then show "\<not> is_quote l" "\<not> is_fence l"
    by (simp_all add: is_quote_def is_fence_def starts_with_def tick_def)
  show "indent l = 0" by (simp add: indent_def ls py_len_def)
  have "\<not> is_bullet l" unfolding is_bullet_def ls by (simp add: l)
  moreover obtain ps where cp: "code_points l = ''#'' # ps" using first_code_point [OF s, of "CHR ''#''"] l by auto
  have "\<not> is_numbered U l"
    unfolding is_numbered_def ls cp by (simp add: is_dec_def is_digit_def code_def)
  ultimately show "\<not> list_item U l" by (simp add: list_item_def)
qed

lemma header_ends_list: "is_header l \<Longrightarrow> \<not> list_goes_on U l"
  using hash_facts [of l] by (simp add: list_goes_on_def indented_word_def list_item_def)

section \<open>Blocks\<close>

lemma prefix_upto_fence: "prefix (upto_fence ls) ls"
  by (induction ls) auto

lemma prefix_text_rest: "prefix (text_rest U ls) ls"
  by (induction ls) auto

lemma text_rest_start: "l \<in> set (text_rest U ls) \<Longrightarrow> \<not> is_header l"
  by (induction ls) (auto simp: block_start_def split: if_splits)

lemma prefix_takeWhile: "prefix (takeWhile P xs) xs"
  by (metis prefixI takeWhile_dropWhile_id)

lemma list_lines_not_header: "l \<in> set (takeWhile (list_goes_on U) ls) \<Longrightarrow> \<not> is_header l"
  using header_ends_list set_takeWhileD by fastforce

lemma quote_lines_not_header: "l \<in> set (takeWhile (\<lambda>l. is_quote l \<or> blank l) ls) \<Longrightarrow> \<not> is_header l"
  using hash_facts set_takeWhileD by fastforce

text \<open>What each element is: lines of the text from its first one on\<close>

definition spans :: "string list \<Rightarrow> element \<Rightarrow> bool" where
  "spans lines e \<longleftrightarrow>
     el_start e \<le> el_end e \<and> el_end e < length lines \<and>
     el_content e = join [lf] (take (Suc (el_end e) - el_start e) (drop (el_start e) lines))"

lemma block_spans:
  assumes "i < length lines" and "prefix ls (drop (Suc i) lines)"
  shows "spans lines (block_at ty (lines ! i # ls) i)"
proof -
  have d: "drop i lines = lines ! i # drop (Suc i) lines" using assms(1) by (simp add: Cons_nth_drop_Suc)
  obtain zs where z: "drop (Suc i) lines = ls @ zs" using assms(2) by (auto simp: prefix_def)
  then have "length lines - Suc i = length ls + length zs" by (metis length_append length_drop)
  then have "i + length ls < length lines" using assms(1) by simp
  then show ?thesis by (simp add: spans_def block_at_def d z)
qed

text \<open>Whatever the kind of the element at a line, its lines hold no header but a first one, unless it is code.\<close>

lemma element_cases:
  assumes "element_at U lines i = Some e"
  obtains ty ls where "e = block_at ty (lines ! i # ls) i" and "prefix ls (drop (Suc i) lines)"
    and "ty = ''code_block'' \<or> (\<forall>l\<in>set ls. \<not> is_header l)"
    and "is_header (lines ! i) \<Longrightarrow> ty = ''header'' \<and> ls = []"
  using assms
  by (auto simp: element_at_def Let_def extract_header_def extract_code_block_def extract_list_block_def
      extract_blockquote_def extract_text_block_def split: if_splits
      intro: that prefix_upto_fence prefix_text_rest prefix_takeWhile list_lines_not_header
        quote_lines_not_header dest: text_rest_start list_lines_not_header quote_lines_not_header)

lemma element_none: "element_at U lines i = None \<Longrightarrow> blank (lines ! i)"
  by (auto simp: element_at_def Let_def split: if_splits)

lemma element_first: "element_at U lines i = Some e \<Longrightarrow> \<not> blank (lines ! i)"
proof
  assume e: "element_at U lines i = Some e" and b: "blank (lines ! i)"
  then have "lstrip_ws (lines ! i) = []" by (simp add: blank_iff)
  then have "\<not> list_item U (lines ! i)" by (simp add: list_item_def is_bullet_def is_numbered_def Let_def)
  moreover have "\<not> is_header (lines ! i)" using b hash_facts(1) by blast
  ultimately show False using e b
    by (auto simp: element_at_def Let_def blank_def is_quote_def is_fence_def starts_with_def split: if_splits)
qed

section \<open>The elements of a text\<close>

definition element_ok :: "string list \<Rightarrow> element \<Rightarrow> bool" where
  "element_ok lines e \<longleftrightarrow>
     spans lines e \<and> \<not> blank (lines ! el_start e) \<and>
     (\<forall>j. el_start e \<le> j \<and> j \<le> el_end e \<and> is_header (lines ! j) \<longrightarrow>
        el_type e = Some ''code_block'' \<or> (el_type e = Some ''header'' \<and> el_start e = j \<and> el_end e = j))"

lemma element_at_ok:
  assumes "element_at U lines i = Some e" and "i < length lines"
  shows "element_ok lines e"
proof -
  obtain ty ls where e: "e = block_at ty (lines ! i # ls) i" and p: "prefix ls (drop (Suc i) lines)"
    and h: "ty = ''code_block'' \<or> (\<forall>l\<in>set ls. \<not> is_header l)" "is_header (lines ! i) \<Longrightarrow> ty = ''header'' \<and> ls = []"
    using element_cases [OF assms(1)] by metis
  have n: "lines ! j \<in> set ls" if "i < j" "j \<le> i + length ls" for j
  proof -
    obtain zs where "drop (Suc i) lines = ls @ zs" using p by (auto simp: prefix_def)
    moreover have "lines ! j = drop (Suc i) lines ! (j - Suc i)" using that assms(2) by simp
    moreover have "j - Suc i < length ls" using that by linarith
    ultimately show ?thesis by (simp add: nth_append)
  qed
  have hdr: "ty = ''code_block'' \<or> (ty = ''header'' \<and> j = i \<and> ls = [])"
    if "i \<le> j" "j \<le> i + length ls" "is_header (lines ! j)" for j
    using h n [of j] that by (cases "j = i") auto
  have "el_type e = Some ''code_block'' \<or> (el_type e = Some ''header'' \<and> el_start e = j \<and> el_end e = j)"
    if "el_start e \<le> j \<and> j \<le> el_end e \<and> is_header (lines ! j)" for j
  proof -
    have "i \<le> j" "j \<le> i + length ls" "is_header (lines ! j)" using that by (simp_all add: e block_at_def)
    from hdr [OF this] show ?thesis by (elim disjE) (simp_all add: e block_at_def)
  qed
  moreover have "spans lines e" unfolding e by (rule block_spans [OF assms(2) p])
  moreover have "el_start e = i" by (simp add: e block_at_def)
  ultimately show ?thesis using element_first [OF assms(1)] unfolding element_ok_def by blast
qed

definition covered :: "element list \<Rightarrow> nat \<Rightarrow> bool" where
  "covered es j \<longleftrightarrow> (\<exists>e\<in>set es. el_start e \<le> j \<and> j \<le> el_end e)"

lemma elements_from_ok:
  "(\<forall>e\<in>set (elements_from U lines i). element_ok lines e \<and> i \<le> el_start e) \<and>
   sorted_wrt (\<lambda>a b. el_end a < el_start b) (elements_from U lines i) \<and>
   (\<forall>j. i \<le> j \<and> j < length lines \<and> \<not> blank (lines ! j) \<longrightarrow> covered (elements_from U lines i) j)"
proof (induction U lines i rule: elements_from.induct)
  case (1 U lines i)
  show ?case
  proof (cases "length lines \<le> i")
    case True
    then have "elements_from U lines i = []" by (subst elements_from.simps) simp
    with True show ?thesis by auto
  next
    case out: False
    show ?thesis
    proof (cases "element_at U lines i")
      case None
      then have f: "elements_from U lines i = elements_from U lines (Suc i)"
        using out by (subst elements_from.simps) simp
      have b: "blank (lines ! i)" using None by (rule element_none)
      have "covered (elements_from U lines (Suc i)) j" if "i \<le> j" "j < length lines" "\<not> blank (lines ! j)" for j
        using 1(1) [OF out None] that b by (cases "j = i") auto
      with 1(1) [OF out None] show ?thesis unfolding f by auto
    next
      case (Some e)
      then have f: "elements_from U lines i = e # elements_from U lines (Suc (el_end e))"
        using out by (subst elements_from.simps) simp
      have e: "element_ok lines e" "el_start e = i" "i \<le> el_end e"
        using element_at_ok [OF Some] start_of_element [OF Some] out by auto
      have "covered (e # elements_from U lines (Suc (el_end e))) j"
        if "i \<le> j" "j < length lines" "\<not> blank (lines ! j)" for j
        using 1(2) [OF out Some] that e by (cases "j \<le> el_end e") (auto simp: covered_def)
      with 1(2) [OF out Some] e show ?thesis unfolding f by fastforce
    qed
  qed
qed

lemma join_first: "\<exists>t. join [lf] (w # ws) = w \<or> join [lf] (w # ws) = w @ lf # t"
  by (cases ws) auto

lemma element_ok_content: "element_ok lines e \<Longrightarrow> strip_ws (el_content e) \<noteq> []"
proof -
  assume e: "element_ok lines e"
  then have n: "el_start e < length lines" and nb: "lstrip_ws (lines ! el_start e) \<noteq> []"
    by (auto simp: element_ok_def spans_def blank_iff)
  have "Suc (el_end e) - el_start e = Suc (el_end e - el_start e)" using e by (auto simp: element_ok_def spans_def)
  then have "el_content e = join [lf] (lines ! el_start e # take (el_end e - el_start e) (drop (Suc (el_start e)) lines))"
    using e n by (simp add: element_ok_def spans_def Cons_nth_drop_Suc [symmetric])
  then have "lstrip_ws (el_content e) \<noteq> []" using join_first lstrip_before_lf nb by metis
  then show ?thesis using blank_iff by (simp add: blank_def)
qed

lemma nothing_filtered:
  "filter (\<lambda>e. strip_ws (el_content e) \<noteq> []) (elements_from U lines i) = elements_from U lines i"
  using elements_from_ok [of U lines i] element_ok_content by (auto simp: filter_id_conv)

lemma one_element:
  assumes "sorted_wrt (\<lambda>a b. el_end a < el_start b) es" and "\<forall>e\<in>set es. el_start e \<le> el_end e" and "covered es j"
  shows "\<exists>!e. e \<in> set es \<and> el_start e \<le> j \<and> j \<le> el_end e"
  using assms
proof (induction es)
  case (Cons a es)
  show ?case
  proof (cases "j \<le> el_end a \<and> el_start a \<le> j")
    case True
    then have "\<forall>e\<in>set es. j < el_start e" using Cons.prems(1) by auto
    then show ?thesis using True by (intro ex1I [of _ a]) auto
  next
    case False
    then have "covered es j" using Cons.prems(3) by (auto simp: covered_def)
    from Cons.IH [OF _ _ this] Cons.prems(1,2) have "\<exists>!e. e \<in> set es \<and> el_start e \<le> j \<and> j \<le> el_end e" by simp
    then show ?thesis using False by auto
  qed
qed (simp add: covered_def)

text \<open>C21: without a delimiter in backticks the elements of a Markdown text are disjoint and in order,
  each holds consecutive lines of the text as they are, from a line that is not blank on, and every line that is
  not blank is in exactly one element.  A header is an element of its own unless it stands in a code block.\<close>

theorem md_elements_cover:
  assumes "md_delimiters delimiter = []"
  shows "sorted_wrt (\<lambda>a b. el_end a < el_start b) (extract_elements U content delimiter) \<and>
     (\<forall>e\<in>set (extract_elements U content delimiter). element_ok (split_on lf content) e) \<and>
     (\<forall>j<length (split_on lf content). \<not> blank (split_on lf content ! j) \<longrightarrow>
        (\<exists>!e. e \<in> set (extract_elements U content delimiter) \<and> el_start e \<le> j \<and> j \<le> el_end e))"
proof -
  let ?es = "elements_from U (split_on lf content) 0"
  have x: "extract_elements U content delimiter = ?es"
    using assms nothing_filtered [of U "split_on lf content" 0] by (simp add: extract_elements_def Let_def)
  have ok: "\<forall>e\<in>set ?es. element_ok (split_on lf content) e" "sorted_wrt (\<lambda>a b. el_end a < el_start b) ?es"
    and c: "\<And>j. j < length (split_on lf content) \<Longrightarrow> \<not> blank (split_on lf content ! j) \<Longrightarrow> covered ?es j"
    using elements_from_ok [of U "split_on lf content" 0] by auto
  have "\<forall>e\<in>set ?es. el_start e \<le> el_end e" using ok(1) by (auto simp: element_ok_def spans_def)
  from one_element [OF ok(2) this] c ok show ?thesis unfolding x by blast
qed

definition ascii_only :: uni where
  "ascii_only = \<lparr> uc_word = (\<lambda>p. False), uc_digit = (\<lambda>p. False) \<rparr>"

definition demo_md :: string where
  "demo_md = join [lf] [''# A'', ''text'', [], ''more'', [], ''- one'', ''  two'', [tick, tick, tick], ''# no'', [tick, tick, tick], ''## B'']"

lemma demo_md_elements:
  "map (\<lambda>e. (the (el_type e), el_start e, el_end e)) (extract_elements ascii_only demo_md []) =
   [(''header'', 0, 0), (''text_block'', 1, 3), (''list_block'', 5, 6), (''code_block'', 7, 9), (''header'', 10, 10)]"
  by code_simp

theorem md_elements_cover_witness:
  "sorted_wrt (\<lambda>a b. el_end a < el_start b) (extract_elements ascii_only demo_md []) \<and>
   list_all (element_ok (split_on lf demo_md)) (extract_elements ascii_only demo_md []) \<and>
   (\<exists>!e. e \<in> set (extract_elements ascii_only demo_md []) \<and> el_start e \<le> 3 \<and> 3 \<le> el_end e)"
proof -
  have d: "md_delimiters [] = []" "3 < length (split_on lf demo_md)" "\<not> blank (split_on lf demo_md ! 3)" by code_simp+
  from md_elements_cover [OF d(1), of ascii_only demo_md] d(2,3) show ?thesis by (simp add: list_all_iff)
qed

lemma delimited_contents:
  "map el_content (delimited b ps) = map strip_ws (filter (\<lambda>p. p \<noteq> [] \<and> strip_ws p \<noteq> []) (map fst ps))"
  by (induction b ps rule: delimited.induct) auto

text \<open>The contents without their lines are those of the elements, with a delimiter in backticks or without.\<close>

lemma md_contents: "extract_contents U content delimiter = map el_content (extract_elements U content delimiter)"
  by (simp add: extract_contents_def extract_elements_def Let_def delimited_contents filter_map comp_def)

section \<open>Images\<close>

lemma section_images_length: "length (section_images load paste refs es cache) = length es"
  by (induction es arbitrary: cache) (auto simp: Let_def split: prod.splits)

text \<open>Each section has its image or none.\<close>

lemma sections_with_images:
  "markdown_sections U soup load paste txt delimiter = (secs, imgs) \<Longrightarrow> length imgs = length secs"
  by (auto simp: markdown_sections_def Let_def section_images_length)

text \<open>An image on a line that is not blank belongs to exactly one section.\<close>

lemma image_in_one_section:
  assumes "md_delimiters delimiter = []" and "(u, j) \<in> set refs" and "j < length (split_on lf content)"
    and "\<not> blank (split_on lf content ! j)"
  shows "\<exists>!e. e \<in> set (extract_elements U content delimiter) \<and> (u, j) \<in> set refs \<and> el_start e \<le> j \<and> j \<le> el_end e"
proof -
  let ?es = "elements_from U (split_on lf content) 0"
  have x: "extract_elements U content delimiter = ?es"
    using assms(1) nothing_filtered [of U "split_on lf content" 0] by (simp add: extract_elements_def Let_def)
  have "covered ?es j" and s: "sorted_wrt (\<lambda>a b. el_end a < el_start b) ?es" "\<forall>e\<in>set ?es. el_start e \<le> el_end e"
    using elements_from_ok [of U "split_on lf content" 0] assms(3,4) by (auto simp: element_ok_def spans_def)
  from one_element [OF s this(1)] assms(2) show ?thesis unfolding x by simp
qed

text \<open>A source in an \<open>img\<close> tag is cut at its first letter s.\<close>

lemma img_source_cut:
  "html_imgs (''<img src='' @ [dquote] @ ''http://a/b.png'' @ [dquote] @ ''>'') = [''http://a/b.png'']"
  "html_imgs (''<img src='' @ [dquote] @ ''https://a/b.png'' @ [dquote] @ ''>'') = [''http'']"
  by code_simp+

end
