(* ===== verification/TextParsers.thy ===== *)
theory TextParsers
  imports Merging Search
begin

text \<open>
  Plain text and HTML to sections: \<^verbatim>\<open>ragflow/deepdoc/parser/txt_parser.py\<close> and
  \<^verbatim>\<open>ragflow/deepdoc/parser/html_parser.py\<close>.  The delimiters are those behind the decoding of escapes.  HTML comes as the
  tree its parser gives, without styles, scripts and comments; parsing a text as HTML, printing a table with its
  entities resolved, and the tokenizers are parameters.
\<close>

section \<open>Plain text\<close>

text \<open>The chunks with their tokens, latest first\<close>

fun add_text :: "(string \<Rightarrow> nat) \<Rightarrow> int \<Rightarrow> string \<Rightarrow> (string \<times> int) list \<Rightarrow> (string \<times> int) list" where
  "add_text ntk limit t ((c, n) # cks) =
     (if limit < n then (t, int (ntk t)) # (c, n) # cks
      else ((if c \<noteq> [] then c @ lf # t else c @ t), n + int (ntk t)) # cks)"
| "add_text ntk limit t [] = []"

text \<open>
  \<open>re.split\<close> with the delimiters in a group; without delimiters the empty expression matches between all code points.
\<close>

definition txt_pieces :: "string list \<Rightarrow> string \<Rightarrow> string list" where
  "txt_pieces ds txt =
     (if ds = [] then [[], []] @ concat (map (\<lambda>p. [p, []]) (code_points txt)) @ [[]]
      else split_flat ds txt)"

text \<open>\<open>re.match(f"^{dels}$", sec)\<close>: the anchors belong to the first and the last alternative only.\<close>

definition only_delimiter :: "string list \<Rightarrow> string \<Rightarrow> bool" where
  "only_delimiter ds sec \<longleftrightarrow>
     (let d = (if ds = [] then [] else last ds)
      in list_ex (starts_with sec) (butlast ds) \<or> sec = d \<or> sec = d @ [lf])"

definition parser_txt :: "(string \<Rightarrow> nat) \<Rightarrow> string \<Rightarrow> int \<Rightarrow> string \<Rightarrow> string list" where
  "parser_txt ntk txt limit delimiter =
     (let ds = filter (\<lambda>d. d \<noteq> []) (delimiter_list delimiter);
          secs = filter (\<lambda>s. \<not> only_delimiter ds s) (txt_pieces ds txt)
      in rev (map fst (foldl (\<lambda>cks s. add_text ntk limit s cks) [([], 0)] secs)))"

section \<open>HTML: reading the tree\<close>

datatype dom = DText string | DTag string "dom list"

record html_item =
  hi_content :: string
  hi_tag :: string
  hi_block :: "string option"

definition block_tags :: "string list" where
  "block_tags =
     [''h1'', ''h2'', ''h3'', ''h4'', ''h5'', ''h6'', ''p'', ''div'', ''article'', ''section'', ''aside'', ''ul'', ''ol'', ''li'',
      ''table'', ''pre'', ''code'', ''blockquote'', ''figure'', ''figcaption'']"

text \<open>
  \<open>read_text_recursively\<close>: what it returns and what it has put to the result, the number of ids drawn so far
  last.  \<open>parse\<close> gives the children of a text parsed as HTML when it has a tag; \<open>fresh\<close> is the id drawn as the n-th.
  A text that is HTML again is parsed and read in turn, as deep as the fuel.
\<close>

record html_env =
  he_parse :: "string \<Rightarrow> dom list option"
  he_show :: "dom \<Rightarrow> string"
  he_fresh :: "nat \<Rightarrow> string"

type_synonym html_out = "html_item list \<times> nat"

function read_node ::
    "html_env \<Rightarrow> nat \<Rightarrow> string option \<Rightarrow> string option \<Rightarrow> dom \<Rightarrow> html_out \<Rightarrow> (html_item list \<times> html_out) option"
  and read_nodes :: "html_env \<Rightarrow> nat \<Rightarrow> string option \<Rightarrow> string option \<Rightarrow> dom list \<Rightarrow> html_out \<Rightarrow> html_out option" where
  "read_node E n parent bid (DText t) out =
     (let content = strip_ws t
      in if content = [] then Some ([], out)
         else case he_parse E content of
             Some kids \<Rightarrow>
               (case n of
                  0 \<Rightarrow> None
                | Suc m \<Rightarrow> map_option (\<lambda>o1. ([], o1)) (read_nodes E m (Some ''[document]'') bid kids out))
           | None \<Rightarrow>
               Some ([\<lparr> hi_content = content, hi_tag = (case parent of Some p \<Rightarrow> if p = [] then ''inner_text'' else p
                        | None \<Rightarrow> ''inner_text''), hi_block = bid \<rparr>], out))"
| "read_node E n parent bid (DTag name kids) (items, k) =
     (if lower name = ''table''
      then Some ([\<lparr> hi_content = he_show E (DTag name kids), hi_tag = ''table'', hi_block = None \<rparr>], (items, Suc k))
      else let (bid', k') = (if lower name \<in> set block_tags then (Some (he_fresh E k), Suc k) else (bid, k))
           in map_option (\<lambda>o1. ([], o1)) (read_nodes E n (Some name) bid' kids (items, k')))"
| "read_nodes E n parent bid [] out = Some out"
| "read_nodes E n parent bid (d # ds) out =
     (case read_node E n parent bid d out of
        None \<Rightarrow> None
      | Some (got, (items, k)) \<Rightarrow> read_nodes E n parent bid ds (items @ got, k))"
  by pat_completeness auto
termination
  by (relation "measures [\<lambda>x. (case x of Inl (_, n, _) \<Rightarrow> n | Inr (_, n, _) \<Rightarrow> n),
       \<lambda>x. (case x of Inl (_, _, _, _, d, _) \<Rightarrow> 2 * size d | Inr (_, _, _, _, ds, _) \<Rightarrow> Suc (2 * size_list size ds))]") auto

section \<open>HTML: blocks\<close>

definition title_tags :: "(string \<times> string) list" where
  "title_tags =
     [(''h1'', ''#''), (''h2'', ''##''), (''h3'', ''###''), (''h4'', ''#####''), (''h5'', ''#####''), (''h6'', ''######'')]"

definition with_title :: "html_item \<Rightarrow> string" where
  "with_title it = (case dget title_tags (hi_tag it) of Some m \<Rightarrow> m @ '' '' @ hi_content it | None \<Rightarrow> hi_content it)"

definition spaced :: "string \<Rightarrow> string \<Rightarrow> string" where
  "spaced cur t = cur @ (if cur \<noteq> [] then '' '' else []) @ t"

text \<open>The blocks so far, the block under way, the tables and the last block id\<close>

type_synonym merge_state = "string list \<times> string \<times> html_item list \<times> string option"

definition merge_item :: "html_item \<Rightarrow> merge_state \<Rightarrow> merge_state" where
  "merge_item it st =
     (case st of (blocks, cur, tables, last_id) \<Rightarrow>
        (case hi_block it of
           Some b \<Rightarrow>
             if last_id \<noteq> Some b
             then (if last_id \<noteq> None then blocks @ [cur] else blocks, with_title it, tables, Some b)
             else (blocks, spaced cur (with_title it), tables, last_id)
         | None \<Rightarrow>
             if hi_tag it = ''table'' then (blocks, cur, tables @ [it], last_id)
             else (blocks, spaced cur (hi_content it), tables, last_id)))"

definition merge_block_text :: "html_item list \<Rightarrow> string list \<times> html_item list" where
  "merge_block_text items =
     (case fold merge_item items ([], [], [], None) of
        (blocks, cur, tables, _) \<Rightarrow> (if cur \<noteq> [] then blocks @ [cur] else blocks, tables))"

section \<open>HTML: chunks\<close>

text \<open>The loop that cuts a long block: for a limit that is not positive it need not end.\<close>

partial_function (option) cut_tokens :: "int \<Rightarrow> string list \<Rightarrow> int \<Rightarrow> string list option" where
  "cut_tokens n toks start =
     (if start < int (length toks)
      then Option.bind (cut_tokens n toks (start + n))
             (\<lambda>cs. Some (join '' '' (py_slice start (start + n) toks) # cs))
      else Some [])"

definition block_tokens :: "(string \<Rightarrow> string) \<Rightarrow> string \<Rightarrow> string list" where
  "block_tokens tokenize b = split_on CHR '' '' (tokenize b)"

definition token_count :: "(string \<Rightarrow> string) \<Rightarrow> string \<Rightarrow> int" where
  "token_count tokenize b = (if tokenize b \<noteq> [] then int (length (block_tokens tokenize b)) else 0)"

definition chunk_step ::
  "(string \<Rightarrow> string) \<Rightarrow> int \<Rightarrow> string \<Rightarrow> string list \<times> string \<times> int \<Rightarrow> (string list \<times> string \<times> int) option" where
  "chunk_step tokenize n b st =
     (case st of (chunks, cur, cnt) \<Rightarrow>
        let c = token_count tokenize b
        in if n < c
           then Option.bind (cut_tokens n (block_tokens tokenize b) 0)
                  (\<lambda>cs. Some ((if cur \<noteq> [] then chunks @ [cur] else chunks) @ cs, [], 0))
           else if cnt + c \<le> n then Some (chunks, cur @ (if cur \<noteq> [] then [lf] else []) @ b, cnt + c)
           else Some (chunks @ [cur], b, c))"

fun chunk_blocks ::
  "(string \<Rightarrow> string) \<Rightarrow> int \<Rightarrow> string list \<Rightarrow> string list \<times> string \<times> int \<Rightarrow> (string list \<times> string \<times> int) option" where
  "chunk_blocks tokenize n [] st = Some st"
| "chunk_blocks tokenize n (b # bs) st = Option.bind (chunk_step tokenize n b st) (chunk_blocks tokenize n bs)"

definition chunk_block :: "(string \<Rightarrow> string) \<Rightarrow> string list \<Rightarrow> int \<Rightarrow> string list option" where
  "chunk_block tokenize blocks n =
     Option.bind (chunk_blocks tokenize n blocks ([], [], 0))
       (\<lambda>(chunks, cur, cnt). Some (if cur \<noteq> [] then chunks @ [cur] else chunks))"

definition html_sections :: "html_env \<Rightarrow> (string \<Rightarrow> string) \<Rightarrow> nat \<Rightarrow> dom \<Rightarrow> int \<Rightarrow> string list option" where
  "html_sections E tokenize fuel body n =
     Option.bind (read_node E fuel None None body ([], 0)) (\<lambda>(got, (items, k)).
       (case merge_block_text items of (blocks, tables) \<Rightarrow>
          map_option (\<lambda>cs. cs @ map hi_content tables) (chunk_block tokenize blocks n)))"

end
