(* ===== verification/TextSpec.thy ===== *)
theory TextSpec
  imports TextParsers SearchSpec
begin

text \<open>
  What the sections of plain text and HTML hold: groups of texts under the limit, blocks with their titles,
  and what is lost.
\<close>

lemma join_snoc: "ws \<noteq> [] \<Longrightarrow> join sep (ws @ [w]) = join sep ws @ sep @ w"
  by (induction sep ws rule: join.induct) auto

lemma join_empty_iff: "[] \<notin> set ws \<Longrightarrow> join sep ws = [] \<longleftrightarrow> ws = []"
  by (induction sep ws rule: join.induct) auto

section \<open>Plain text\<close>

definition text_tokens :: "(string \<Rightarrow> nat) \<Rightarrow> string list \<Rightarrow> int" where
  "text_tokens ntk g = int (sum_list (map ntk g))"

text \<open>The text of a group: empty texts at its front leave nothing, behind a text they leave a line break.\<close>

definition group_text :: "string list \<Rightarrow> string" where
  "group_text g = join [lf] (dropWhile (\<lambda>t. t = []) g)"

lemma group_text_snoc:
  "group_text (g @ [t]) = (if group_text g \<noteq> [] then group_text g @ lf # t else group_text g @ t)"
proof (cases "\<forall>x\<in>set g. x = []")
  case True
  then have "dropWhile (\<lambda>t. t = []) g = []" by (simp only: dropWhile_eq_Nil_conv)
  then have "group_text g = []" by (simp only: group_text_def join.simps)
  moreover have "group_text (g @ [t]) = t" using True by (simp add: group_text_def dropWhile_append)
  ultimately show ?thesis by simp
next
  case False
  then have d: "dropWhile (\<lambda>t. t = []) g \<noteq> []" by (auto simp: dropWhile_eq_Nil_conv)
  then have "hd (dropWhile (\<lambda>t. t = []) g) \<noteq> []" by (rule hd_dropWhile)
  with d have "join [lf] (dropWhile (\<lambda>t. t = []) g) \<noteq> []"
    by (cases "dropWhile (\<lambda>t. t = []) g"; cases "tl (dropWhile (\<lambda>t. t = []) g)") auto
  with False d show ?thesis by (auto simp: group_text_def dropWhile_append join_snoc)
qed

lemma text_tokens_snoc: "text_tokens ntk (g @ [t]) = text_tokens ntk g + int (ntk t)"
  by (simp add: text_tokens_def)

lemma add_text_groups:
  assumes "text_tokens ntk (butlast g) \<le> limit" and "0 \<le> limit"
  shows "\<exists>gs. rev (map fst (foldl (\<lambda>cks s. add_text ntk limit s cks) ((group_text g, text_tokens ntk g) # rest) secs)) =
       rev (map fst rest) @ map group_text gs \<and>
     concat gs = g @ secs \<and> gs \<noteq> [] \<and> (\<forall>h\<in>set (butlast gs). limit < text_tokens ntk h) \<and>
     (\<forall>h\<in>set gs. text_tokens ntk (butlast h) \<le> limit)"
  using assms(1)
proof (induction secs arbitrary: g rest)
  case Nil
  then show ?case by (intro exI [of _ "[g]"]) simp
next
  case (Cons t secs)
  show ?case
  proof (cases "limit < text_tokens ntk g")
    case True
    have "text_tokens ntk (butlast [t]) \<le> limit" using assms(2) by (simp add: text_tokens_def)
    from Cons.IH [OF this, of "(group_text g, text_tokens ntk g) # rest"] obtain gs where
      "rev (map fst (foldl (\<lambda>cks s. add_text ntk limit s cks)
         ((group_text [t], text_tokens ntk [t]) # (group_text g, text_tokens ntk g) # rest) secs)) =
       rev (map fst rest) @ group_text g # map group_text gs"
      "concat gs = t # secs" "gs \<noteq> []" "\<forall>h\<in>set (butlast gs). limit < text_tokens ntk h"
      "\<forall>h\<in>set gs. text_tokens ntk (butlast h) \<le> limit" by auto
    moreover have "group_text [t] = t" by (simp add: group_text_def)
    ultimately show ?thesis using True Cons.prems
      by (intro exI [of _ "g # gs"]) (simp add: text_tokens_def)
  next
    case False
    then have "text_tokens ntk (butlast (g @ [t])) \<le> limit" by simp
    from Cons.IH [OF this, of rest] False show ?thesis
      by (simp add: group_text_snoc text_tokens_snoc)
  qed
qed

text \<open>The chunks of a plain text are groups of its pieces; a group ends when its tokens have passed the limit.\<close>

lemma txt_groups:
  assumes "0 \<le> limit"
  shows "\<exists>gs. parser_txt ntk txt limit delimiter = map group_text gs \<and>
     concat gs = (let ds = filter (\<lambda>d. d \<noteq> []) (delimiter_list delimiter)
       in filter (\<lambda>s. \<not> only_delimiter ds s) (txt_pieces ds txt)) \<and>
     (\<forall>h\<in>set (butlast gs). limit < text_tokens ntk h) \<and> (\<forall>h\<in>set gs. text_tokens ntk (butlast h) \<le> limit)"
proof -
  have "text_tokens ntk (butlast []) \<le> limit" using assms by (simp add: text_tokens_def)
  from add_text_groups [OF this assms, of "[]"] show ?thesis
    by (simp add: parser_txt_def Let_def group_text_def text_tokens_def) metis
qed

section \<open>HTML: blocks\<close>

text \<open>A table without a block id is no part of the text.\<close>

definition bare_table :: "html_item \<Rightarrow> bool" where
  "bare_table it \<longleftrightarrow> hi_block it = None \<and> hi_tag it = ''table''"

definition item_text :: "html_item \<Rightarrow> string" where
  "item_text it = (if hi_block it = None then hi_content it else with_title it)"

definition run_text :: "html_item list \<Rightarrow> string" where
  "run_text g = join '' '' (map item_text g)"

text \<open>A block: an item with an id, then items with this id or none\<close>

definition one_block :: "html_item list \<Rightarrow> bool" where
  "one_block g \<longleftrightarrow>
     g \<noteq> [] \<and> hi_block (hd g) \<noteq> None \<and> (\<forall>x\<in>set g. hi_block x = None \<or> hi_block x = hi_block (hd g))"

lemma item_text_nonempty: "hi_content it \<noteq> [] \<Longrightarrow> item_text it \<noteq> []"
  by (simp add: item_text_def with_title_def split: option.splits)

lemma run_text_snoc:
  assumes "g \<noteq> []" and "\<forall>x\<in>set g. hi_content x \<noteq> []"
  shows "run_text (g @ [it]) = spaced (run_text g) (item_text it)" and "run_text g \<noteq> []"
proof -
  have "[] \<notin> set (map item_text g)"
    using assms(2) item_text_nonempty by (metis imageE list.set_map)
  then show ne: "run_text g \<noteq> []"
    using join_empty_iff [of "map item_text g" "'' ''"] assms(1) by (simp add: run_text_def)
  show "run_text (g @ [it]) = spaced (run_text g) (item_text it)"
    using assms(1) ne by (simp add: run_text_def join_snoc spaced_def)
qed

lemma merge_named:
  assumes "one_block g" and "\<forall>x\<in>set g \<union> set items. hi_content x \<noteq> []"
  shows "\<exists>gs l. fold merge_item items (blocks, run_text g, tables, hi_block (hd g)) =
       (blocks @ map run_text (butlast gs), run_text (last gs), tables @ filter bare_table items, l) \<and>
     gs \<noteq> [] \<and> concat gs = g @ filter (\<lambda>x. \<not> bare_table x) items \<and> (\<forall>h\<in>set gs. one_block h) \<and>
     successively (\<lambda>a b. hi_block (hd a) \<noteq> hi_block (hd b)) gs \<and> hd (hd gs) = hd g"
  using assms
proof (induction items arbitrary: g blocks tables)
  case Nil
  then show ?case by (intro exI [of _ "[g]"]) auto
next
  case (Cons it items)
  have g: "g \<noteq> []" "\<forall>x\<in>set g. hi_content x \<noteq> []" using Cons.prems by (auto simp: one_block_def)
  consider (table) "bare_table it" | (same) "\<not> bare_table it" "hi_block it = None \<or> hi_block it = hi_block (hd g)"
    | (other) "hi_block it \<noteq> None" "hi_block it \<noteq> hi_block (hd g)" unfolding bare_table_def by blast
  then show ?case
  proof cases
    case table
    then have step: "merge_item it (blocks, run_text g, tables, hi_block (hd g)) =
        (blocks, run_text g, tables @ [it], hi_block (hd g))"
      by (simp add: merge_item_def bare_table_def)
    from Cons.IH [OF Cons.prems(1), of blocks "tables @ [it]"] Cons.prems(2) table show ?thesis
      by (simp add: step)
  next
    case same
    then have step: "merge_item it (blocks, run_text g, tables, hi_block (hd g)) =
        (blocks, run_text (g @ [it]), tables, hi_block (hd (g @ [it])))"
      using g run_text_snoc(1) [OF g, of it]
      by (auto simp: merge_item_def bare_table_def item_text_def split: option.splits)
    have "one_block (g @ [it])" using Cons.prems(1) same(2) by (auto simp: one_block_def)
    from Cons.IH [OF this, of blocks tables] Cons.prems(2) same(1) g(1) show ?thesis by (simp add: step)
  next
    case other
    then have nb: "\<not> bare_table it" by (simp add: bare_table_def)
    have "hi_block (hd g) \<noteq> None" using Cons.prems(1) by (simp add: one_block_def)
    then have step: "merge_item it (blocks, run_text g, tables, hi_block (hd g)) =
        (blocks @ [run_text g], run_text [it], tables, hi_block (hd [it]))"
      using other by (auto simp: merge_item_def run_text_def item_text_def)
    have "one_block [it]" using other(1) by (simp add: one_block_def)
    from Cons.IH [OF this, of "blocks @ [run_text g]" tables] Cons.prems(2) obtain gs l where
      "fold merge_item items (blocks @ [run_text g], run_text [it], tables, hi_block (hd [it])) =
         ((blocks @ [run_text g]) @ map run_text (butlast gs), run_text (last gs), tables @ filter bare_table items, l)"
      "gs \<noteq> []" "concat gs = [it] @ filter (\<lambda>x. \<not> bare_table x) items" "\<forall>h\<in>set gs. one_block h"
      "successively (\<lambda>a b. hi_block (hd a) \<noteq> hi_block (hd b)) gs" "hd (hd gs) = it" by auto
    then show ?thesis using other nb Cons.prems(1)
      by (intro exI [of _ "g # gs"] exI [of _ l]) (auto simp: step successively_Cons)
  qed
qed

text \<open>Before the first item with a block id\<close>

lemma merge_lead:
  assumes "\<forall>x\<in>set items. hi_block x = None \<and> hi_content x \<noteq> []" and "\<forall>x\<in>set g. hi_block x = None \<and> hi_content x \<noteq> []"
  shows "fold merge_item items (blocks, run_text g, tables, None) =
     (blocks, run_text (g @ filter (\<lambda>x. \<not> bare_table x) items), tables @ filter bare_table items, None)"
  using assms
proof (induction items arbitrary: g tables)
  case (Cons it items)
  have "spaced (run_text g) (hi_content it) = run_text (g @ [it])"
    using run_text_snoc(1) [of g it] Cons.prems
    by (cases "g = []") (auto simp: run_text_def spaced_def item_text_def)
  then have "merge_item it (blocks, run_text g, tables, None) =
      (if bare_table it then (blocks, run_text g, tables @ [it], None) else (blocks, run_text (g @ [it]), tables, None))"
    using Cons.prems(1) by (simp add: merge_item_def bare_table_def)
  with Cons.IH [of "if bare_table it then g else g @ [it]" "if bare_table it then tables @ [it] else tables"] Cons.prems
  show ?case by auto
qed simp

text \<open>C22: merging the items of an HTML text keeps, from the first item with a block id on, every item that
  is no table, in order: the blocks are the runs of items under one id, an item without an id goes to the run it
  stands in, and each text has its title mark.  The tables are kept apart.  The texts before the first id are lost; they are a
  block only when there is no id at all.\<close>

theorem html_blocks_kept:
  assumes "\<forall>x\<in>set items. hi_content x \<noteq> []"
  shows "snd (merge_block_text items) = filter bare_table items \<and>
     (\<exists>gs. concat gs = dropWhile (\<lambda>x. hi_block x = None) (filter (\<lambda>x. \<not> bare_table x) items) \<and>
        (\<forall>g\<in>set gs. one_block g) \<and> successively (\<lambda>a b. hi_block (hd a) \<noteq> hi_block (hd b)) gs \<and>
        fst (merge_block_text items) =
          (if gs \<noteq> [] then map run_text gs
           else if filter (\<lambda>x. \<not> bare_table x) items = [] then []
           else [run_text (filter (\<lambda>x. \<not> bare_table x) items)]))"
proof -
  define lead where "lead = takeWhile (\<lambda>x. hi_block x = None) items"
  define rest where "rest = dropWhile (\<lambda>x. hi_block x = None) items"
  have items: "items = lead @ rest" by (simp add: lead_def rest_def)
  have lead: "\<forall>x\<in>set lead. hi_block x = None \<and> hi_content x \<noteq> []"
    using assms by (auto simp: lead_def dest: set_takeWhileD)
  let ?named = "filter (\<lambda>x. \<not> bare_table x)"
  have start: "fold merge_item lead ([], [], [], None) = ([], run_text (?named lead), filter bare_table lead, None)"
    using merge_lead [OF lead, of "[]" "[]" "[]"] by (simp add: run_text_def)
  have "\<forall>x\<in>set (?named lead). hi_block x = None" using lead by simp
  then have tail: "dropWhile (\<lambda>x. hi_block x = None) (?named items) = dropWhile (\<lambda>x. hi_block x = None) (?named rest)"
    by (simp add: items dropWhile_append)
  show ?thesis
  proof (cases rest)
    case Nil
    have il: "items = lead" using items Nil by simp
    have "run_text (?named lead) \<noteq> []" if "?named lead \<noteq> []"
      using run_text_snoc(2) [OF that] lead by simp
    moreover have "run_text [] = []" by (simp add: run_text_def)
    ultimately have m: "merge_block_text lead =
        (if ?named lead = [] then [] else [run_text (?named lead)], filter bare_table lead)"
      using start by (auto simp: merge_block_text_def)
    have dw: "concat [] = dropWhile (\<lambda>x. hi_block x = None) (?named items)" unfolding tail Nil by simp
    have fs: "fst (merge_block_text items) = (if [] \<noteq> ([] :: html_item list list) then map run_text []
        else if ?named items = [] then [] else [run_text (?named items)])" unfolding il m by simp
    show ?thesis
    proof (rule conjI)
      show "snd (merge_block_text items) = filter bare_table items" unfolding il m by simp
    qed (rule exI [of _ "[]"], intro conjI dw fs, simp_all)
  next
    case (Cons it r)
    then have "rest \<noteq> []" by simp
    then have "\<not> hi_block (hd rest) = None" unfolding rest_def by (rule hd_dropWhile)
    then have id: "hi_block it \<noteq> None" by (simp add: Cons)
    then have nb: "\<not> bare_table it" by (simp add: bare_table_def)
    have step: "merge_item it ([], run_text (?named lead), filter bare_table lead, None) =
        ([], run_text [it], filter bare_table lead, hi_block it)"
      using id by (auto simp: merge_item_def run_text_def item_text_def)
    have "one_block [it]" using id by (simp add: one_block_def)
    from merge_named [OF this, of r "[]" "filter bare_table lead"] assms obtain gs l where
      f: "fold merge_item r ([], run_text [it], filter bare_table lead, hi_block it) =
        (map run_text (butlast gs), run_text (last gs), filter bare_table lead @ filter bare_table r, l)"
      and gs: "gs \<noteq> []" "concat gs = it # ?named r" "\<forall>h\<in>set gs. one_block h"
        "successively (\<lambda>a b. hi_block (hd a) \<noteq> hi_block (hd b)) gs" by (auto simp: items Cons)
    have mem: "set (last gs) \<subseteq> set items"
    proof -
      have "set (last gs) \<subseteq> set (concat gs)" using last_in_set [OF gs(1)] by auto
      then show ?thesis unfolding gs(2) by (auto simp: items Cons)
    qed
    have "last gs \<noteq> []" using gs(1,3) by (simp add: one_block_def)
    from run_text_snoc(2) [OF this] mem assms have ne: "run_text (last gs) \<noteq> []" by blast
    have "map run_text (butlast gs) @ [run_text (last gs)] = map run_text gs"
      using gs(1) by (metis append_butlast_last_id list.simps(8) list.simps(9) map_append)
    then have "merge_block_text items = (map run_text gs, filter bare_table items)"
      using nb ne by (simp add: merge_block_text_def items Cons start step f)
    moreover have "dropWhile (\<lambda>x. hi_block x = None) (?named items) = concat gs"
      using id nb by (auto simp: tail Cons gs(2))
    ultimately show ?thesis using gs by (intro conjI exI [of _ gs]) simp_all
  qed
qed

text \<open>A text in the body before its first paragraph is lost.\<close>

definition demo_body :: dom where
  "demo_body = DTag ''body'' [DText ''Hello'', DTag ''p'' [DText '' World '', DTag ''b'' [DText ''!'']], DTag ''h4'' [DText ''End'']]"

definition demo_html :: html_env where
  "demo_html = \<lparr> he_parse = (\<lambda>s. None), he_show = (\<lambda>d. ''<table></table>''), he_fresh = show_nat \<rparr>"

definition demo_items :: "html_item list" where
  "demo_items =
     [\<lparr> hi_content = ''Hello'', hi_tag = ''body'', hi_block = None \<rparr>,
      \<lparr> hi_content = ''World'', hi_tag = ''p'', hi_block = Some ''0'' \<rparr>,
      \<lparr> hi_content = ''!'', hi_tag = ''b'', hi_block = Some ''0'' \<rparr>,
      \<lparr> hi_content = ''End'', hi_tag = ''h4'', hi_block = Some ''1'' \<rparr>]"

lemma demo_body_items: "map_option (fst \<circ> snd) (read_node demo_html 0 None None demo_body ([], 0)) = Some demo_items"
  by code_simp

lemma demo_items_merged: "merge_block_text demo_items = ([''World !'', ''##### End''], [])"
  by code_simp

theorem html_blocks_kept_witness:
  "\<exists>gs. concat gs = tl demo_items \<and> fst (merge_block_text demo_items) = map run_text gs"
proof -
  have "list_all (\<lambda>x. hi_content x \<noteq> []) demo_items"
    "dropWhile (\<lambda>x. hi_block x = None) (filter (\<lambda>x. \<not> bare_table x) demo_items) = tl demo_items" "tl demo_items \<noteq> []"
    by code_simp+
  then show ?thesis using html_blocks_kept [of demo_items] by (auto simp: list_all_iff split: if_splits)
qed

section \<open>HTML: chunks\<close>

lemma cut_tokens_cuts:
  assumes "0 < n" and "0 \<le> start"
  shows "\<exists>ps. cut_tokens n toks start = Some (map (join '' '') ps) \<and> concat ps = drop (nat start) toks \<and>
     (\<forall>p\<in>set ps. p \<noteq> [] \<and> int (length p) \<le> n) \<and> (\<forall>p\<in>set (butlast ps). int (length p) = n)"
  using assms(2)
proof (induction "length toks - nat start" arbitrary: start rule: less_induct)
  case less
  show ?case
  proof (cases "start < int (length toks)")
    case False
    then have "cut_tokens n toks start = Some []" by (subst cut_tokens.simps) simp
    then show ?thesis using False by (intro exI [of _ "[]"]) simp
  next
    case True
    have "length toks - nat (start + n) < length toks - nat start" "0 \<le> start + n" using True less.prems assms(1) by auto
    from less.hyps [OF this] obtain ps where
      ps: "cut_tokens n toks (start + n) = Some (map (join '' '') ps)" "concat ps = drop (nat (start + n)) toks"
        "\<forall>p\<in>set ps. p \<noteq> [] \<and> int (length p) \<le> n" "\<forall>p\<in>set (butlast ps). int (length p) = n" by blast
    let ?p = "take (nat n) (drop (nat start) toks)"
    have sl: "py_slice start (start + n) toks = ?p" using less.prems assms(1) by (intro py_slice_nat) auto
    have "nat (start + n) = nat n + nat start" using less.prems assms(1) by simp
    then have "?p @ concat ps = drop (nat start) toks"
      unfolding ps(2) by (simp only: drop_drop [symmetric] append_take_drop_id)
    moreover have "?p \<noteq> []" "int (length ?p) \<le> n" using True less.prems assms(1) by auto
    moreover have "int (length ?p) = n" if "ps \<noteq> []"
    proof -
      have "concat ps \<noteq> []" using that ps(3) by (cases ps) auto
      then have "nat n + nat start < length toks" using ps(2) \<open>nat (start + n) = nat n + nat start\<close> by simp
      then show ?thesis using assms(1) by simp
    qed
    moreover have "cut_tokens n toks start = Some (map (join '' '') (?p # ps))"
      using True by (subst cut_tokens.simps) (simp add: ps(1) sl)
    ultimately show ?thesis using ps(3,4) by (intro exI [of _ "?p # ps"]) auto
  qed
qed

text \<open>With a limit that is not positive the loop never ends.\<close>

lemma cut_tokens_returns:
  assumes "cut_tokens n toks start = Some cs" and "start < int (length toks)"
  shows "0 < n"
proof -
  have "start < int (length toks) \<longrightarrow> 0 < n"
  proof (rule cut_tokens.raw_induct [where P = "\<lambda>n toks start cs. start < int (length toks) \<longrightarrow> 0 < n", OF _ assms(1)])
    fix rec n toks start cs
    assume ih: "\<And>n toks start cs. rec n toks start = Some cs \<Longrightarrow> start < int (length toks) \<longrightarrow> 0 < n"
      and body: "(if start < int (length toks)
        then Option.bind (rec n toks (start + n)) (\<lambda>cs. Some (join '' '' (py_slice start (start + n) toks) # cs))
        else Some []) = Some cs"
    show "start < int (length toks) \<longrightarrow> 0 < n"
    proof
      assume lt: "start < int (length toks)"
      with body obtain ds where "rec n toks (start + n) = Some ds" by (cases "rec n toks (start + n)") auto
      from ih [OF this] lt show "0 < n" by (cases "0 < n") auto
    qed
  qed
  with assms(2) show ?thesis by simp
qed

definition tokens_in :: "(string \<Rightarrow> string) \<Rightarrow> string list \<Rightarrow> int" where
  "tokens_in tokenize g = sum_list (map (token_count tokenize) g)"

text \<open>The chunks of a group of blocks: one chunk within the limit, or a long block cut to pieces of its tokens\<close>

definition chunks_for :: "(string \<Rightarrow> string) \<Rightarrow> int \<Rightarrow> string list \<Rightarrow> string list \<Rightarrow> bool" where
  "chunks_for tokenize n g cs \<longleftrightarrow>
     (if tokens_in tokenize g \<le> n then cs = [join [lf] g]
      else \<exists>b ps. g = [b] \<and> cs = map (join '' '') ps \<and> concat ps = block_tokens tokenize b \<and>
        (\<forall>p\<in>set ps. p \<noteq> [] \<and> int (length p) \<le> n) \<and> (\<forall>p\<in>set (butlast ps). int (length p) = n))"

definition closes :: "(string \<Rightarrow> string) \<Rightarrow> int \<Rightarrow> string list \<Rightarrow> string list \<Rightarrow> bool" where
  "closes tokenize n g h \<longleftrightarrow> n < tokens_in tokenize g + token_count tokenize (hd h)"

definition finished :: "string list \<times> string \<times> int \<Rightarrow> string list" where
  "finished st = (case st of (chunks, cur, _) \<Rightarrow> if cur \<noteq> [] then chunks @ [cur] else chunks)"

lemma token_count_nonneg: "0 \<le> token_count tokenize b"
  by (simp add: token_count_def)

lemma tokens_in_simps:
  "tokens_in tokenize [] = 0" "tokens_in tokenize (g @ [b]) = tokens_in tokenize g + token_count tokenize b"
  "tokens_in tokenize [b] = token_count tokenize b"
  by (simp_all add: tokens_in_def)

lemma tokens_in_nonneg: "0 \<le> tokens_in tokenize g"
  unfolding tokens_in_def by (rule sum_list_nonneg) (auto simp: token_count_nonneg)

lemma chunk_blocks_groups:
  assumes "0 < n" and "[] \<notin> set g \<union> set bs" and "tokens_in tokenize g \<le> n"
  shows "\<exists>st gs css. chunk_blocks tokenize n bs (chunks, join [lf] g, tokens_in tokenize g) = Some st \<and>
     finished st = chunks @ concat css \<and> concat gs = g @ bs \<and> [] \<notin> set gs \<and>
     list_all2 (chunks_for tokenize n) gs css \<and> successively (closes tokenize n) gs \<and>
     (g \<noteq> [] \<longrightarrow> gs \<noteq> [] \<and> (\<exists>r. hd gs = g @ r))"
  using assms(2,3)
proof (induction bs arbitrary: g chunks)
  case Nil
  show ?case
  proof (cases "g = []")
    case True
    then show ?thesis by (intro exI [of _ "(chunks, [], 0)"] exI [of _ "[]"]) (simp add: finished_def tokens_in_simps)
  next
    case False
    then have "join [lf] g \<noteq> []" using Nil.prems(1) by (simp add: join_empty_iff)
    then show ?thesis using False Nil.prems
      by (intro exI [of _ "(chunks, join [lf] g, tokens_in tokenize g)"] exI [of _ "[g]"] exI [of _ "[[join [lf] g]]"])
        (simp add: finished_def chunks_for_def)
  qed
next
  case (Cons b bs)
  let ?c = "token_count tokenize b"
  have cur: "join [lf] g = [] \<longleftrightarrow> g = []" using Cons.prems(1) by (simp add: join_empty_iff)
  consider (long) "n < ?c" | (fits) "?c \<le> n" "tokens_in tokenize g + ?c \<le> n"
    | (full) "?c \<le> n" "n < tokens_in tokenize g + ?c" by linarith
  then show ?case
  proof cases
    case long
    obtain ps where ps: "cut_tokens n (block_tokens tokenize b) 0 = Some (map (join '' '') ps)" "concat ps = block_tokens tokenize b"
      "\<forall>p\<in>set ps. p \<noteq> [] \<and> int (length p) \<le> n" "\<forall>p\<in>set (butlast ps). int (length p) = n"
      using cut_tokens_cuts [OF assms(1), of 0 "block_tokens tokenize b"] by auto
    let ?done = "(if g \<noteq> [] then chunks @ [join [lf] g] else chunks) @ map (join '' '') ps"
    have step: "chunk_step tokenize n b (chunks, join [lf] g, tokens_in tokenize g) = Some (?done, [], 0)"
      using long ps(1) cur by (simp add: chunk_step_def Let_def)
    have "[] \<notin> set [] \<union> set bs" "tokens_in tokenize [] \<le> n" using Cons.prems(1) assms(1) by (auto simp: tokens_in_simps)
    from Cons.IH [OF this, of ?done] obtain st gs css where
      ih: "chunk_blocks tokenize n bs (?done, [], 0) = Some st" "finished st = ?done @ concat css" "concat gs = bs"
        "[] \<notin> set gs" "list_all2 (chunks_for tokenize n) gs css" "successively (closes tokenize n) gs"
      by (auto simp: tokens_in_simps)
    have one: "chunks_for tokenize n [b] (map (join '' '') ps)"
      using long ps(2-4) by (auto simp: chunks_for_def tokens_in_simps)
    have cl: "closes tokenize n [b] h" for h
      using long token_count_nonneg [of tokenize "hd h"] by (simp add: closes_def tokens_in_simps)
    have cg: "closes tokenize n g [b]" using long tokens_in_nonneg [of tokenize g] by (simp add: closes_def)
    have pend: "chunks_for tokenize n g [join [lf] g]" using Cons.prems(2) by (simp add: chunks_for_def)
    show ?thesis
    proof (cases "g = []")
      case True
      then show ?thesis using ih one cl step
        by (intro exI [of _ st] exI [of _ "[b] # gs"] exI [of _ "map (join '' '') ps # css"])
          (simp add: successively_Cons)
    next
      case False
      then show ?thesis using ih one cl cg pend step
        by (intro exI [of _ st] exI [of _ "g # [b] # gs"] exI [of _ "[join [lf] g] # map (join '' '') ps # css"])
          (simp add: successively_Cons)
    qed
  next
    case fits
    have jo: "join [lf] (g @ [b]) = join [lf] g @ (if join [lf] g \<noteq> [] then [lf] else []) @ b"
      using cur by (cases "g = []") (simp_all add: join_snoc)
    have step: "chunk_step tokenize n b (chunks, join [lf] g, tokens_in tokenize g) =
        Some (chunks, join [lf] (g @ [b]), tokens_in tokenize (g @ [b]))"
      using fits unfolding jo by (simp add: chunk_step_def Let_def tokens_in_simps)
    have "[] \<notin> set (g @ [b]) \<union> set bs" "tokens_in tokenize (g @ [b]) \<le> n"
      using Cons.prems(1) fits by (auto simp: tokens_in_simps)
    from Cons.IH [OF this, of chunks] step show ?thesis by simp metis
  next
    case full
    then have g: "g \<noteq> []" by (auto simp: tokens_in_simps)
    have step: "chunk_step tokenize n b (chunks, join [lf] g, tokens_in tokenize g) =
        Some (chunks @ [join [lf] g], join [lf] [b], tokens_in tokenize [b])"
      using full by (simp add: chunk_step_def Let_def tokens_in_simps)
    have "[] \<notin> set [b] \<union> set bs" "tokens_in tokenize [b] \<le> n" using Cons.prems(1) full by (auto simp: tokens_in_simps)
    from Cons.IH [OF this, of "chunks @ [join [lf] g]"] obtain st gs css r where
      ih: "chunk_blocks tokenize n bs (chunks @ [join [lf] g], join [lf] [b], tokens_in tokenize [b]) = Some st"
        "finished st = (chunks @ [join [lf] g]) @ concat css" "concat gs = [b] @ bs"
        "[] \<notin> set gs" "list_all2 (chunks_for tokenize n) gs css" "successively (closes tokenize n) gs" "gs \<noteq> []"
        "hd gs = [b] @ r" by auto
    have "closes tokenize n g (hd gs)" using full ih(8) by (simp add: closes_def)
    moreover have "chunks_for tokenize n g [join [lf] g]" using Cons.prems(2) by (simp add: chunks_for_def)
    ultimately show ?thesis using ih g step
      by (intro exI [of _ st] exI [of _ "g # gs"] exI [of _ "[join [lf] g] # css"]) (simp add: successively_Cons)
  qed
qed

text \<open>C23: with a positive limit the chunks of the blocks of an HTML text are made; they belong to
  consecutive groups of the blocks: blocks that together are within the limit are one chunk, each on a line of its own; a block over the limit
  is on its own and cut to pieces of its tokens, each but the last as long as the limit.  A group is only closed when the next block
  would not have fitted.\<close>

theorem html_chunks_bounded:
  assumes "0 < n" and "[] \<notin> set blocks"
  shows "\<exists>gs css. chunk_block tokenize blocks n = Some (concat css) \<and> concat gs = blocks \<and> [] \<notin> set gs \<and>
     list_all2 (chunks_for tokenize n) gs css \<and> successively (closes tokenize n) gs"
proof -
  have "[] \<notin> set [] \<union> set blocks" "tokens_in tokenize [] \<le> n" using assms by (simp_all add: tokens_in_simps)
  from chunk_blocks_groups [OF assms(1) this, of "[]"] obtain st gs css where
    "chunk_blocks tokenize n blocks ([], [], 0) = Some st" "finished st = concat css" "concat gs = blocks" "[] \<notin> set gs"
    "list_all2 (chunks_for tokenize n) gs css" "successively (closes tokenize n) gs" by (auto simp: tokens_in_simps)
  moreover from this(1,2) have "chunk_block tokenize blocks n = Some (concat css)"
    by (cases st) (simp add: chunk_block_def finished_def)
  ultimately show ?thesis by blast
qed

theorem html_chunks_bounded_witness:
  "\<exists>gs css. chunk_block id [''a b'', ''c'', ''d e f''] 2 = Some (concat css) \<and> concat gs = [''a b'', ''c'', ''d e f''] \<and>
     list_all2 (chunks_for id 2) gs css"
proof -
  have "(0 :: int) < 2" "[] \<notin> set [''a b'', ''c'', ''d e f'']" by simp_all
  from html_chunks_bounded [OF this, of id] show ?thesis by blast
qed

text \<open>With a limit of zero the first block with a token is never cut to its end.\<close>

lemma html_limit_hangs: "n \<le> 0 \<Longrightarrow> n < token_count tokenize b \<Longrightarrow> chunk_block tokenize [b] n = None"
proof -
  assume n: "n \<le> 0" and long: "n < token_count tokenize b"
  have "block_tokens tokenize b \<noteq> []" by (simp add: block_tokens_def)
  then have "(0 :: int) < int (length (block_tokens tokenize b))" by simp
  then have "cut_tokens n (block_tokens tokenize b) 0 = None"
    using cut_tokens_returns [of n "block_tokens tokenize b" 0] n by (cases "cut_tokens n (block_tokens tokenize b) 0") auto
  with long show ?thesis by (simp add: chunk_block_def chunk_step_def Let_def)
qed

end
