(* ===== verification/Spec2Isabelle.thy ===== *)
theory Spec2Isabelle
  imports JobBoard CanvasSpec RunSpec MigrationSpec RowTypes JsonSpec MetadataSpec DataOpsSpec
    DocTasksSpec ChunkSpec MergeSpec OtslSpec MemorySpec MkSpec
    TablesDoc CitationSpec PromptsSpec TocSpec MdSpec TextSpec
begin

text \<open>
  A verification of the core logic of RAGFlow and of the MinerU document parser beside it.

  The program.  \<^verbatim>\<open>src/MinerU\<close> turns documents into Markdown and content lists; its project
  \<^verbatim>\<open>mineru_tianshu\<close> runs it as a service: an HTTP server writes tasks to a SQLite table, workers
  claim and process them, a scheduler resets stale tasks and cleans up.  \<^verbatim>\<open>src/ragflow\<close> splits parsed
  documents into chunks (queued as document tasks over Redis), stores and retrieves them, and runs agents:
  canvases of components that pass variables to each other, with a memory of past dialogues.  A tool migrates the
  document index from Elasticsearch to OceanBase.  The subsystems meet at few points: the task executor
  works off the tasks that \<^verbatim>\<open>queue_tasks\<close> makes by calling the chunkers; the canvas calls component bodies;
  the memory components save what a run said.

  How the code is represented.  Python exceptions are values (\<open>pyexc\<close>); a function that may raise returns
  \<open>pyexc + 'a\<close> (\<open>'a res\<close>), a method that also changes an object is a function of the state to such a result and
  the new state, which is kept when it raises, as in Python.  Text is its UTF-8 bytes (\<open>PyText\<close>); JSON-shaped objects are
  the datatype \<open>pyval\<close> with insertion-ordered dictionaries and exact rational floats (\<open>PyValue\<close>).  What CPython itself leaves to
  the C library (rounding, printing and reading floats) is the record \<open>pyrt\<close>, a parameter.  Services are parameters
  too, arguments of the definitions that use them: which of several equal rows SQLite returns (\<open>pick\<close>), what Elasticsearch,
  OceanBase and Redis answer, tokenizers, language models and the parsers that workers call.

  Theories and what they model.
  \<^item> \<open>Prelude\<close>, \<open>PyText\<close>, \<open>PyValue\<close>, \<open>Regex\<close>: exceptions, results, methods, dictionaries; \<^verbatim>\<open>str\<close> methods;
    values, truth, equality, conversion; regular expressions by derivatives, proved against the language they
    denote.  The locales \<open>py_dict\<close> (laws of a dictionary), \<open>keyed_store\<close> (what is read after a write) and
    \<open>frame\<close> (a relation every step of a method keeps) are stated in \<open>Prelude\<close> and interpreted on the
    dictionaries, the migration's progress files, the canvas globals and the canvas runs.
  \<^item> \<open>TaskDB\<close>, \<open>TaskQueue\<close>, \<open>TaskLife\<close>, \<open>Tianshu\<close> and \<open>TianshuSpec\<close> (\<^verbatim>\<open>MinerU/projects/mineru_tianshu\<close>:
    \<^verbatim>\<open>task_db.py\<close>, \<^verbatim>\<open>litserve_worker.py\<close>, \<^verbatim>\<open>task_scheduler.py\<close>, \<^verbatim>\<open>api_server.py\<close>): the table as a list of rows in
    row-id order, each statement a function on it; the contract of a claim queue (locale \<open>claim_queue\<close>);
    the reachable databases; workers, scheduler and handlers.  \<open>JobBoard\<close> refines the calls and answers
    to an abstract board of waiting, running and ended jobs (locale \<open>refines\<close>).
  \<^item> \<open>Component\<close>, \<open>Canvas\<close>, \<open>CanvasState\<close>, \<open>Loops\<close>, \<open>Operators\<close>, \<open>DataOps\<close>, \<open>CanvasRun\<close> (\<^verbatim>\<open>ragflow/agent/canvas.py\<close>
    and \<^verbatim>\<open>ragflow/agent/component\<close>): parameters and outputs of components, variables and references,
    globals, loops, switches, assigners, list and dictionary components, and the whole of \<^verbatim>\<open>Canvas.run\<close>.
    \<open>CanvasSpec\<close>, \<open>DataOpsSpec\<close>, \<open>CanvasFrame\<close>, \<open>RunSpec\<close>: reads after writes, what the components compute,
    what a run may change, and why it ends.
  \<^item> \<open>Metadata\<close>, \<open>MetadataSpec\<close> (\<^verbatim>\<open>ragflow/common/metadata_utils.py\<close>): filters and schemas of document metadata.
  \<^item> \<open>JsonParser\<close>, \<open>JsonSpec\<close> (\<^verbatim>\<open>ragflow/deepdoc/parser/json_parser.py\<close>): the JSON chunker loses no leaf.
  \<^item> \<open>Chunking\<close>, \<open>ChunkSpec\<close>, \<open>Merging\<close>, \<open>MergeSpec\<close> (\<^verbatim>\<open>ragflow/rag/nlp/__init__.py\<close>): bullets and levels of titles, the
    outline tree against a direct definition of the outline, hierarchical merge, and the merging of sections to
    chunks under a token limit.
  \<^item> \<open>DocTasks\<close>, \<open>DocTasksSpec\<close> (\<^verbatim>\<open>ragflow/api/db/services/task_service.py\<close>, \<^verbatim>\<open>document_service.py\<close>): splitting of a document
    into tasks, reuse of chunks, hand-out with retries, progress reports, the progress of the document.
  \<^item> \<open>EsOb\<close>, \<open>Migration\<close>, \<open>MigrationSpec\<close>, \<open>RowSpec\<close>, \<open>RowTypes\<close> (\<^verbatim>\<open>ragflow/tools/es-to-oceanbase-migration\<close>): conversion of
    rows column by column, their types, the paging of the scroll, the accounting of a run, resumption and
    verification.
  \<^item> \<open>Otsl\<close>, \<open>OtslSpec\<close> (\<^verbatim>\<open>MinerU/mineru/utils/format_utils.py\<close>): tables from the OTSL tokens of the vision model to HTML.
  \<^item> \<open>Memory\<close>, \<open>MemorySpec\<close> (\<^verbatim>\<open>ragflow/api/db/joint_services/memory_message_service.py\<close>, \<^verbatim>\<open>ragflow/memory\<close>,
    \<^verbatim>\<open>ragflow/rag/utils/redis_conn.py\<close>): saving of dialogues, the size limit, the size cache and the ids.
  \<^item> \<open>MidJson\<close>, \<open>MkVlm\<close>, \<open>MkPipeline\<close>, \<open>MkSpec\<close> (\<^verbatim>\<open>MinerU/mineru/backend/vlm/vlm_middle_json_mkcontent.py\<close>,
    \<^verbatim>\<open>backend/pipeline/pipeline_middle_json_mkcontent.py\<close>, \<^verbatim>\<open>utils/char_utils.py\<close>, \<^verbatim>\<open>utils/language.py\<close>): the spans, lines,
    blocks and pages of the intermediate JSON and the two writers of Markdown and content lists.
  \<^item> \<open>Tables\<close>, \<open>TablesSpec\<close>, \<open>TablesDoc\<close> (\<^verbatim>\<open>MinerU/mineru/utils/table_merge.py\<close>): columns of tables, headers repeated over a
    page break, and the merging of the tables of a document; parsing and printing of HTML are parameters with a
    round-trip law.
  \<^item> \<open>Search\<close>, \<open>Recall\<close>, \<open>Citations\<close> with \<open>SearchSpec\<close>, \<open>RecallSpec\<close>, \<open>CitationSpec\<close> (\<^verbatim>\<open>ragflow/rag/nlp/search.py\<close>,
    \<^verbatim>\<open>ragflow/rag/nlp/query.py\<close>): queries to the document store with their fall-backs, scores of the hits with infinities
    and NaN, the page of the ranking a caller gets, listings, tags, the passes over found chunks by table of
    contents and by parent, token similarity, and the citations of an answer.
  \<^item> \<open>Prompts\<close>, \<open>PromptsSpec\<close>, \<open>TocIndex\<close>, \<open>TocSpec\<close> (\<^verbatim>\<open>ragflow/rag/prompts/generator.py\<close>): messages cut to the
    context of the model, knowledge and memory prompts, batches, JSON answers with retries, and the sections of
    the entries of a table of contents.
  \<^item> \<open>MdParser\<close>, \<open>MdSpec\<close>, \<open>TextParsers\<close>, \<open>TextSpec\<close> (\<^verbatim>\<open>ragflow/deepdoc/parser/markdown_parser.py\<close>,
    \<^verbatim>\<open>txt_parser.py\<close>, \<^verbatim>\<open>html_parser.py\<close>, class \<open>Markdown\<close> of \<^verbatim>\<open>ragflow/rag/app/naive.py\<close>): the elements of a Markdown text
    and their images, and the blocks and chunks of plain text and HTML.

  Bounds and fuel.  A claim tries at most \<open>max_retries\<close> times, as the code; one attempt is shown to be enough.  The rounds of a canvas
  run, the pages of a migration's scroll and the turns of the scheduler are counted by a fuel argument: with a fuel above every
  rank an acyclic canvas never runs out, and more fuel gives the same result; a scroll ends with fuel
  above its number of pages.  Elasticsearch requests of the memory are tried twice
  (\<open>ATTEMPT_TIME\<close>), its candidate queries return at most 512 or 2048 hits, both as in the code.  The
  rounds of citing are at most eight thresholds; the loop of the code ends after four of them.  The
  reading of an HTML tree spends one unit of fuel on each text that is HTML again; the loop that cuts a long HTML block is a
  partial function, shown to return for a positive limit and not to return otherwise.  All other
  recursions are structural or proved to terminate.

  What the properties show.  Most hold as the code means them: tasks are handed out once and settle; reports
  need a claim; rows are typed; leaves, chunks, rows of tables and visible characters are conserved; merging
  respects its limit; the pages of a ranking partition its hits; citing keeps the answer.
  Others state an error path the code has as it is written: an empty task id closes all tasks of a worker, a resumed migration
  counts twice, a write to a nested path doubles the last key, a PDF without pages raises after deleting, the
  size limit of a memory is not enforced, its ids restart after an hour, a tagged hit is lost when only the page
  rank is asked for, the text of a web page before its first block is lost.

  Not modelled.  Neural networks (layout, OCR, formula and table recognition), image and PDF libraries, floating-point geometry,
  clients of language models, search engines, object stores and data sources (answers of the search engine are a parameter), the Flask and peewee layer beyond the task
  tables, rendering and speech, Graph RAG and RAPTOR (prompts and clustering).  Their code is calls into libraries and services
  that are not in the repository.  Of the modelled parts the manifest names what is left out; chiefly
  the construction of component objects from the DSL, streams as message contents, the media contexts by position, the
  building of full-text queries from dictionaries and the read queries of the memory.  The parsers of the office formats and
  the assembly of MinerU's pages from detected boxes follow the libraries and floating-point boxes they work on.
\<close>

end
